(* ===== verification/Board_Prelude.thy ===== *)
theory Board_Prelude
  imports Main "HOL-Library.Multiset" "HOL-Library.Product_Lexorder" "HOL-Library.List_Lexorder" "HOL-Library.Char_ord"
begin

text \<open>
  Shared vocabulary of the development.

  \<^item> \<open>('s, 'e, 'a) tx\<close>: a computation over a store \<open>'s\<close> that ends in an error or a value and
    always in a store. It models a Rust method that returns \<open>Result<T>\<close> and may have written
    before it failed; \<open>bindT\<close> is the \<open>?\<close> operator and \<open>transaction\<close> is
    \<open>unchecked_transaction() .. commit()\<close>, whose drop on an early return rolls back.
  \<^item> \<open>keeps\<close>, \<open>atomic\<close>, \<open>hoare\<close>: the three judgements the component theories
    prove about such computations, with one composition rule per combinator.
  \<^item> the pieces of the Rust standard library that the modelled code calls: 64-bit wrapping and
    saturating arithmetic, decimal printing and parsing, UTF-8 decoding, \<open>trim\<close>.
  \<^item> rows with a position inside a group (\<open>lane\<close>, \<open>renumber\<close>) and the locale
    \<open>positioned\<close> with the laws of that ordering, interpreted later on cards and on columns.
\<close>

named_theorems tx_simps "unfolding rules of the transaction combinators"
named_theorems tx_keeps "preservation rules of the transaction combinators"

section \<open>Computations over a store\<close>

type_synonym ('s, 'e, 'a) tx = "'s \<Rightarrow> ('e + 'a) \<times> 's"

definition returnT :: "'a \<Rightarrow> ('s, 'e, 'a) tx" where
  "returnT x = (\<lambda>s. (Inr x, s))"

definition throwT :: "'e \<Rightarrow> ('s, 'e, 'a) tx" where
  "throwT e = (\<lambda>s. (Inl e, s))"

definition bindT :: "('s, 'e, 'a) tx \<Rightarrow> ('a \<Rightarrow> ('s, 'e, 'b) tx) \<Rightarrow> ('s, 'e, 'b) tx" where
  "bindT m k = (\<lambda>s. case m s of (Inl e, s') \<Rightarrow> (Inl e, s') | (Inr x, s') \<Rightarrow> k x s')"

definition thenT :: "('s, 'e, 'a) tx \<Rightarrow> ('s, 'e, 'b) tx \<Rightarrow> ('s, 'e, 'b) tx" where
  "thenT m k = bindT m (\<lambda>_. k)"

definition queryT :: "('s \<Rightarrow> 'e + 'a) \<Rightarrow> ('s, 'e, 'a) tx" where
  "queryT f = (\<lambda>s. (f s, s))"

definition readT :: "('s \<Rightarrow> 'a) \<Rightarrow> ('s, 'e, 'a) tx" where
  "readT f = (\<lambda>s. (Inr (f s), s))"

definition modifyT :: "('s \<Rightarrow> 's) \<Rightarrow> ('s, 'e, unit) tx" where
  "modifyT f = (\<lambda>s. (Inr (), f s))"

definition ensureT :: "bool \<Rightarrow> 'e \<Rightarrow> ('s, 'e, unit) tx" where
  "ensureT b e = (if b then returnT () else throwT e)"

definition transaction :: "('s, 'e, 'a) tx \<Rightarrow> ('s, 'e, 'a) tx" where
  "transaction m = (\<lambda>s. case m s of (Inl e, s') \<Rightarrow> (Inl e, s) | (Inr x, s') \<Rightarrow> (Inr x, s'))"

fun forT :: "'a list \<Rightarrow> ('a \<Rightarrow> ('s, 'e, unit) tx) \<Rightarrow> ('s, 'e, unit) tx" where
  "forT [] f = returnT ()"
| "forT (x # xs) f = thenT (f x) (forT xs f)"

lemmas tx_defs = returnT_def throwT_def bindT_def thenT_def queryT_def readT_def modifyT_def
  ensureT_def transaction_def

lemma bindT_Inr: "m s = (Inr x, s') \<Longrightarrow> bindT m k s = k x s'"
  by (simp add: bindT_def)

lemma bindT_Inl: "m s = (Inl e, s') \<Longrightarrow> bindT m k s = (Inl e, s')"
  by (simp add: bindT_def)

lemma bindT_ok_iff:
  "bindT m k s = (Inr y, t) \<longleftrightarrow> (\<exists>x s'. m s = (Inr x, s') \<and> k x s' = (Inr y, t))"
  by (auto simp: bindT_def split: prod.splits sum.splits)

lemma thenT_ok_iff:
  "thenT m k s = (Inr y, t) \<longleftrightarrow> (\<exists>x s'. m s = (Inr x, s') \<and> k s' = (Inr y, t))"
  by (simp add: thenT_def bindT_ok_iff)

lemma queryT_ok_iff: "queryT f s = (Inr y, t) \<longleftrightarrow> f s = Inr y \<and> t = s"
  by (auto simp: queryT_def)

lemma readT_ok_iff: "readT f s = (Inr y, t) \<longleftrightarrow> y = f s \<and> t = s"
  by (auto simp: readT_def)

lemma modifyT_ok_iff: "modifyT f s = (Inr y, t) \<longleftrightarrow> t = f s"
  by (auto simp: modifyT_def)

lemma returnT_ok_iff: "returnT x s = (Inr y, t) \<longleftrightarrow> y = x \<and> t = s"
  by (auto simp: returnT_def)

lemma throwT_ok_iff: "throwT e s = (Inr y, t) \<longleftrightarrow> False"
  by (simp add: throwT_def)

lemma ensureT_ok_iff: "ensureT b e s = (Inr y, t) \<longleftrightarrow> b \<and> t = s"
  by (auto simp: ensureT_def returnT_def throwT_def)

lemma transaction_ok_iff: "transaction m s = (Inr y, t) \<longleftrightarrow> m s = (Inr y, t)"
  by (auto simp: transaction_def split: prod.splits sum.splits)

lemmas tx_ok = bindT_ok_iff thenT_ok_iff queryT_ok_iff readT_ok_iff modifyT_ok_iff returnT_ok_iff
  throwT_ok_iff ensureT_ok_iff transaction_ok_iff

subsection \<open>Judgements\<close>

definition atomic :: "('s, 'e, 'a) tx \<Rightarrow> bool" where
  \<comment> \<open>an error leaves the store as it was\<close>
  "atomic m \<longleftrightarrow> (\<forall>s e t. m s = (Inl e, t) \<longrightarrow> t = s)"

definition hoare :: "('s \<Rightarrow> bool) \<Rightarrow> ('s, 'e, 'a) tx \<Rightarrow> ('a \<Rightarrow> 's \<Rightarrow> bool) \<Rightarrow> bool" where
  \<comment> \<open>a successful run from \<open>P\<close> ends in \<open>Q\<close>\<close>
  "hoare P m Q \<longleftrightarrow> (\<forall>s x t. P s \<longrightarrow> m s = (Inr x, t) \<longrightarrow> Q x t)"

definition keeps :: "('s \<Rightarrow> bool) \<Rightarrow> ('s, 'e, 'a) tx \<Rightarrow> bool" where
  \<comment> \<open>whatever the result, the invariant still holds\<close>
  "keeps P m \<longleftrightarrow> (\<forall>s. P s \<longrightarrow> P (snd (m s)))"

definition readonly :: "('s, 'e, 'a) tx \<Rightarrow> bool" where
  "readonly m \<longleftrightarrow> (\<forall>s. snd (m s) = s)"

lemma readonly_simps [simp]:
  "readonly (returnT x)" "readonly (throwT e)" "readonly (queryT f)" "readonly (readT g)"
  "readonly (ensureT b e)"
  by (auto simp: readonly_def tx_defs)

lemma readonly_atomic: "readonly m \<Longrightarrow> atomic m"
  by (fastforce simp: readonly_def atomic_def dest: arg_cong [where f = snd])

lemma atomic_transaction [simp]: "atomic (transaction m)"
  by (auto simp: atomic_def transaction_def split: prod.splits sum.splits)

lemma atomic_bind_readonly: "readonly m \<Longrightarrow> (\<And>x. atomic (k x)) \<Longrightarrow> atomic (bindT m k)"
  by (fastforce simp: readonly_def atomic_def bindT_def split: prod.splits sum.splits
      dest: arg_cong [where f = snd])

lemma atomic_then_readonly: "readonly m \<Longrightarrow> atomic k \<Longrightarrow> atomic (thenT m k)"
  by (simp add: thenT_def atomic_bind_readonly)

definition never_fails :: "('s, 'e, 'a) tx \<Rightarrow> bool" where
  "never_fails m \<longleftrightarrow> (\<forall>s. \<exists>x t. m s = (Inr x, t))"

lemma hoareI: "(\<And>s x t. P s \<Longrightarrow> m s = (Inr x, t) \<Longrightarrow> Q x t) \<Longrightarrow> hoare P m Q"
  by (simp add: hoare_def)

lemma hoareD: "hoare P m Q \<Longrightarrow> P s \<Longrightarrow> m s = (Inr x, t) \<Longrightarrow> Q x t"
  by (simp add: hoare_def)

lemma hoare_atomic_keeps:
  assumes "hoare P m (\<lambda>_. P)" and "atomic m"
  shows "keeps P m"
  unfolding keeps_def
proof (intro allI impI)
  fix s assume P: "P s"
  obtain r t where r: "m s = (r, t)" by fastforce
  show "P (snd (m s))"
  proof (cases r)
    case (Inl e)
    with r assms(2) have "t = s" by (auto simp: atomic_def)
    with r P show ?thesis by simp
  next
    case (Inr x)
    with r assms(1) P show ?thesis by (auto simp: hoare_def)
  qed
qed

lemma keepsD: "keeps P m \<Longrightarrow> P s \<Longrightarrow> m s = (r, t) \<Longrightarrow> P t"
  by (auto simp: keeps_def dest: spec [where x = s])

lemma keeps_readonly: "readonly m \<Longrightarrow> keeps P m"
  by (simp add: keeps_def readonly_def)

lemma keeps_bind [tx_keeps]: "keeps P m \<Longrightarrow> (\<And>x. keeps P (k x)) \<Longrightarrow> keeps P (bindT m k)"
  unfolding keeps_def bindT_def
  by (fastforce split: prod.splits sum.splits dest: arg_cong [where f = snd])

lemma keeps_then [tx_keeps]: "keeps P m \<Longrightarrow> keeps P k \<Longrightarrow> keeps P (thenT m k)"
  by (simp add: thenT_def keeps_bind)

lemma keeps_transaction [tx_keeps]: "keeps P m \<Longrightarrow> keeps P (transaction m)"
  unfolding keeps_def transaction_def
  by (fastforce split: prod.splits sum.splits dest: arg_cong [where f = snd])

lemma keeps_modify [tx_keeps]: "(\<And>s. P s \<Longrightarrow> P (f s)) \<Longrightarrow> keeps P (modifyT f)"
  by (simp add: keeps_def modifyT_def)

lemma keeps_for [tx_keeps]: "(\<And>x. x \<in> set xs \<Longrightarrow> keeps P (f x)) \<Longrightarrow> keeps P (forT xs f)"
  by (induction xs) (auto intro: keeps_readonly keeps_then)

lemma keeps_simple [tx_keeps]:
  "keeps P (returnT x)" "keeps P (throwT e)" "keeps P (queryT g)" "keeps P (readT h)"
  "keeps P (ensureT b e)"
  by (simp_all add: keeps_readonly)

subsection \<open>Weakest preconditions\<close>

text \<open>
  \<open>wp m Q E s\<close>: from \<open>s\<close>, a success of \<open>m\<close> establishes \<open>Q\<close> and a failure establishes
  \<open>E\<close>. The rules in \<open>tx_simps\<close> push it through every combinator, so that a proof about an
  operation is left with its statements.
\<close>

definition wp ::
  "('s, 'e, 'a) tx \<Rightarrow> ('a \<Rightarrow> 's \<Rightarrow> bool) \<Rightarrow> ('e \<Rightarrow> 's \<Rightarrow> bool) \<Rightarrow> 's \<Rightarrow> bool" where
  "wp m Q E s = (case m s of (Inl e, t) \<Rightarrow> E e t | (Inr x, t) \<Rightarrow> Q x t)"

lemma wp_bind [tx_simps]: "wp (bindT m k) Q E = wp m (\<lambda>x. wp (k x) Q E) E"
  by (rule ext) (auto simp: wp_def bindT_def split: prod.splits sum.splits)

lemma wp_then [tx_simps]: "wp (thenT m k) Q E = wp m (\<lambda>_. wp k Q E) E"
  by (simp add: thenT_def wp_bind)

lemma wp_basic [tx_simps]:
  "wp (returnT x) Q1 E = Q1 x" "wp (throwT e) Q2 E = E e" "wp (readT g) Q3 E = (\<lambda>s. Q3 (g s) s)"
  "wp (modifyT f) Q4 E = (\<lambda>s. Q4 () (f s))" "wp (ensureT b e) Q4 E = (\<lambda>s. if b then Q4 () s else E e s)"
  "wp (queryT h) Q5 E = (\<lambda>s. case h s of Inl e \<Rightarrow> E e s | Inr y \<Rightarrow> Q5 y s)"
  by (auto simp: fun_eq_iff wp_def tx_defs split: sum.splits)

lemma wp_transaction [tx_simps]: "wp (transaction m) Q E = (\<lambda>s. wp m Q (\<lambda>e _. E e s) s)"
  by (rule ext) (auto simp: wp_def transaction_def split: prod.splits sum.splits)

lemma wp_if: "wp (if b then m else k) Q E = (if b then wp m Q E else wp k Q E)"
  by simp

lemma wpI:
  "(\<And>x t. m s = (Inr x, t) \<Longrightarrow> Q x t) \<Longrightarrow> (\<And>e t. m s = (Inl e, t) \<Longrightarrow> E e t) \<Longrightarrow> wp m Q E s"
  by (auto simp: wp_def split: prod.splits sum.splits)

lemma wp_atomicI:
  "atomic m \<Longrightarrow> (\<And>x t. m s = (Inr x, t) \<Longrightarrow> Q x t) \<Longrightarrow> (\<And>e. E e s) \<Longrightarrow> wp m Q E s"
  by (rule wpI) (auto simp: atomic_def)

lemma keeps_wp: "keeps P m \<longleftrightarrow> (\<forall>s. P s \<longrightarrow> wp m (\<lambda>_. P) (\<lambda>_. P) s)"
proof -
  have "wp m (\<lambda>_. P) (\<lambda>_. P) s = P (snd (m s))" for s
    by (simp add: wp_def split: prod.splits sum.splits)
  then show ?thesis by (simp add: keeps_def)
qed

lemma wp_ok: "wp m Q E s \<Longrightarrow> m s = (Inr x, t) \<Longrightarrow> Q x t"
  by (simp add: wp_def)

lemma wp_error: "wp m Q E s \<Longrightarrow> m s = (Inl e, t) \<Longrightarrow> E e t"
  by (simp add: wp_def)

section \<open>Lists\<close>

lemma sort_key_append_last:
  fixes f :: "'a \<Rightarrow> 'k :: linorder"
  assumes "\<forall>y \<in> set xs. f y < f x"
  shows "sort_key f (xs @ [x]) = sort_key f xs @ [x]"
proof (rule properties_for_sort_key)
  show "mset (sort_key f xs @ [x]) = mset (xs @ [x])" by simp
  show "filter (\<lambda>y. f k = f y) (sort_key f xs @ [x]) = filter (\<lambda>y. f k = f y) (xs @ [x])"
    if "k \<in> set (sort_key f xs @ [x])" for k using sort_key_stable [of f "f k" xs] by (simp add: eq_commute)
  show "sorted (map f (sort_key f xs @ [x]))"
    using assms by (auto simp: sorted_append intro: less_imp_le)
qed

lemma find_SomeD: "List.find P xs = Some x \<Longrightarrow> x \<in> set xs \<and> P x"
  by (auto simp: find_Some_iff in_set_conv_nth)

lemma find_NoneD: "List.find P xs = None \<Longrightarrow> x \<in> set xs \<Longrightarrow> \<not> P x"
  by (auto simp: find_None_iff)

lemma find_key:
  "distinct (map key xs) \<Longrightarrow> x \<in> set xs \<Longrightarrow> List.find (\<lambda>y. key y = key x) xs = Some x"
  by (induction xs) (auto simp: image_iff)

lemma sort_key_map_commute:
  assumes "\<And>x. f (g x) = f x"
  shows "sort_key f (map g xs) = map g (sort_key f xs)"
proof -
  have "insort_key f (g x) (map g ys) = map g (insort_key f x ys)" for x ys
    by (induction ys) (simp_all add: assms)
  then show ?thesis by (induction xs) simp_all
qed

section \<open>Rows with a position inside a group\<close>

text \<open>
  Two tables of the store order their rows: cards inside a column and columns inside a board.
  Both are read with \<open>ORDER BY position, id\<close> and both are rewritten by numbering a list of
  ids from 0. The definitions take the row accessors as arguments.
\<close>

definition lane :: "('r \<Rightarrow> int) \<Rightarrow> ('r \<Rightarrow> int) \<Rightarrow> ('r \<Rightarrow> int) \<Rightarrow> int \<Rightarrow> 'r list \<Rightarrow> 'r list" where
  "lane key grp pos g rows = sort_key (\<lambda>r. (pos r, key r)) (filter (\<lambda>r. grp r = g) rows)"

definition set_row_pos ::
  "('r \<Rightarrow> int) \<Rightarrow> (int \<Rightarrow> 'r \<Rightarrow> 'r) \<Rightarrow> int \<Rightarrow> int \<Rightarrow> 'r list \<Rightarrow> 'r list" where
  "set_row_pos key set_pos i p rows = map (\<lambda>r. if key r = i then set_pos p r else r) rows"

fun renumber ::
  "('r \<Rightarrow> int) \<Rightarrow> (int \<Rightarrow> 'r \<Rightarrow> 'r) \<Rightarrow> int \<Rightarrow> int list \<Rightarrow> 'r list \<Rightarrow> 'r list" where
  "renumber key set_pos p [] rows = rows"
| "renumber key set_pos p (i # is) rows =
     renumber key set_pos (p + 1) is (set_row_pos key set_pos i p rows)"

definition insert_at :: "nat \<Rightarrow> 'a \<Rightarrow> 'a list \<Rightarrow> 'a list" where
  "insert_at n x xs = take n xs @ x # drop n xs"

lemma set_insert_at [simp]: "set (insert_at n x xs) = insert x (set xs)"
  unfolding insert_at_def by (metis append_take_drop_id set_append Un_insert_right list.simps(15))

lemma distinct_insert_at: "distinct xs \<Longrightarrow> x \<notin> set xs \<Longrightarrow> distinct (insert_at n x xs)"
  unfolding insert_at_def
  by (auto dest: in_set_takeD in_set_dropD simp: set_take_disj_set_drop_if_distinct)

lemma length_insert_at [simp]: "length (insert_at n x xs) = Suc (length xs)"
  by (simp add: insert_at_def)

lemma insert_at_end: "length xs \<le> n \<Longrightarrow> insert_at n x xs = xs @ [x]"
  by (simp add: insert_at_def)

lemma nth_insert_at: "n \<le> length xs \<Longrightarrow> insert_at n x xs ! n = x"
  by (simp add: insert_at_def nth_append)

lemma remove1_insert_at: "x \<notin> set xs \<Longrightarrow> remove1 x (insert_at n x xs) = xs"
  unfolding insert_at_def by (simp add: remove1_append) (metis in_set_takeD)

fun index_of :: "int list \<Rightarrow> int \<Rightarrow> int" where
  "index_of [] i = 0"
| "index_of (x # xs) i = (if x = i then 0 else 1 + index_of xs i)"

lemma index_of_nonneg [simp]: "0 \<le> index_of xs i"
  by (induction xs) auto

lemma index_of_nth: "distinct xs \<Longrightarrow> n < length xs \<Longrightarrow> index_of xs (xs ! n) = int n"
proof (induction xs arbitrary: n)
  case (Cons x xs)
  then show ?case by (cases n) auto
qed simp

lemma map_index_of: "distinct xs \<Longrightarrow> map (index_of xs) xs = map int [0..<length xs]"
  by (rule nth_equalityI) (auto simp: index_of_nth)

lemma inj_on_index_of: "distinct xs \<Longrightarrow> inj_on (index_of xs) (set xs)"
  by (rule inj_onI) (auto simp: in_set_conv_nth index_of_nth)

lemma sorted_map_int_upt: "sorted (map int [m..<n])"
  by (simp add: sorted_iff_nth_mono)

lemma sorted_fst_of_pairs: "sorted (map (\<lambda>r. (f r :: int, g r :: int)) xs) \<Longrightarrow> sorted (map f xs)"
  by (induction xs) (auto simp: less_eq_prod_def)

locale positioned =
  fixes key :: "'r \<Rightarrow> int" and grp :: "'r \<Rightarrow> int" and pos :: "'r \<Rightarrow> int"
    and set_pos :: "int \<Rightarrow> 'r \<Rightarrow> 'r"
  assumes key_set_pos: "key (set_pos p r) = key r"
    and grp_set_pos: "grp (set_pos p r) = grp r"
    and pos_set_pos: "pos (set_pos p r) = p"
    and set_pos_same: "set_pos (pos r) r = r"
begin

lemma renumber_map:
  "distinct is \<Longrightarrow>
   renumber key set_pos p is rows =
     map (\<lambda>r. if key r \<in> set is then set_pos (p + index_of is (key r)) r else r) rows"
proof (induction "is" arbitrary: p rows)
  case (Cons i "is")
  then show ?case
    by (auto simp: set_row_pos_def key_set_pos algebra_simps)
qed simp

lemma renumber_keys: "map key (renumber key set_pos p is rows) = map key rows"
proof (induction "is" arbitrary: p rows)
  case (Cons i "is")
  then show ?case by (simp add: set_row_pos_def key_set_pos o_def if_distrib cong: if_cong)
qed simp

lemma renumber_grps: "map grp (renumber key set_pos p is rows) = map grp rows"
proof (induction "is" arbitrary: p rows)
  case (Cons i "is")
  then show ?case by (simp add: set_row_pos_def grp_set_pos o_def if_distrib cong: if_cong)
qed simp

lemma renumber_frame:
  assumes "distinct is" and f: "\<And>p r. f (set_pos p r) = f r"
  shows "map f (renumber key set_pos p is rows) = map f rows"
  using assms(1) by (simp add: renumber_map o_def f if_distrib cong: if_cong)

lemma renumber_group_keys:
  "map key (filter (\<lambda>r. grp r = g) (renumber key set_pos p is rows)) =
   map key (filter (\<lambda>r. grp r = g) rows)"
proof (induction "is" arbitrary: p rows)
  case (Cons i "is")
  have "map key (filter (\<lambda>r. grp r = g) (set_row_pos key set_pos i p rows)) =
        map key (filter (\<lambda>r. grp r = g) rows)"
    by (induction rows) (auto simp: set_row_pos_def key_set_pos grp_set_pos)
  with Cons.IH show ?case by simp
qed simp

lemma lane_set: "set (lane key grp pos g rows) = {r \<in> set rows. grp r = g}"
  by (simp add: lane_def)

lemma distinct_lane_keys:
  "distinct (map key rows) \<Longrightarrow> distinct (map key (lane key grp pos g rows))"
  by (simp add: lane_def distinct_map inj_on_def)

lemma lane_renumber_keys:
  assumes d: "distinct (map key rows)" and di: "distinct is"
    and s: "set is = key ` {r \<in> set rows. grp r = g}"
  shows "map key (lane key grp pos g (renumber key set_pos 0 is rows)) = is"
    and "map pos (lane key grp pos g (renumber key set_pos 0 is rows)) = map int [0..<length is]"
proof -
  let ?rows = "renumber key set_pos 0 is rows"
  let ?l = "lane key grp pos g ?rows"
  have dl: "distinct (map key ?l)"
    using d by (intro distinct_lane_keys) (simp add: renumber_keys)
  have sl: "set (map key ?l) = set is"
    using arg_cong [OF renumber_group_keys [of g 0 "is" rows], of set] s
    by (simp add: lane_def)
  have pos_idx: "pos r = index_of is (key r)" if "r \<in> set ?l" for r
    using that di s by (auto simp: lane_set renumber_map key_set_pos pos_set_pos grp_set_pos)
  have mp: "map pos ?l = map (index_of is) (map key ?l)"
    using pos_idx by simp
  have "sorted (map (\<lambda>r. (pos r, key r)) ?l)" by (simp add: lane_def)
  then have "sorted (map pos ?l)" by (rule sorted_fst_of_pairs)
  then have so: "sorted (map (index_of is) (map key ?l))" by (simp only: mp)
  have "mset is = mset (map key ?l)"
    using sl set_eq_iff_mset_eq_distinct [OF di dl] by blast
  then have "sort_key (index_of is) is = map key ?l"
    using inj_on_index_of [OF di] so by (rule sort_key_inj_key_eq)
  moreover have "sort_key (index_of is) is = is"
    by (rule sort_key_id_if_sorted) (simp only: map_index_of [OF di] sorted_map_int_upt)
  ultimately show ks: "map key ?l = is" by simp
  show "map pos ?l = map int [0..<length is]"
    using mp ks map_index_of [OF di] by simp
qed

lemma lane_renumber_other:
  assumes di: "distinct is" and s: "set is \<inter> key ` {r \<in> set rows. grp r = g} = {}"
  shows "lane key grp pos g (renumber key set_pos p is rows) = lane key grp pos g rows"
proof -
  have "filter (\<lambda>r. grp r = g) (renumber key set_pos p is rows) = filter (\<lambda>r. grp r = g) rows"
    using s by (induction rows) (auto simp: renumber_map [OF di] grp_set_pos)
  then show ?thesis by (simp add: lane_def)
qed

end

end
