(* ===== verification/Rust_Std.thy ===== *)
theory Rust_Std
  imports Board_Prelude
begin

text \<open>
  The parts of the Rust standard library the modelled code calls. A Rust \<open>str\<close> is the list
  of its UTF-8 bytes (HOL \<open>string\<close>); an \<open>i64\<close> is an \<open>int\<close> whose operations write
  out the range: release builds wrap, the \<open>saturating_*\<close> methods clamp. A panic message or an
  error message built by \<open>format!\<close> is the list of its fragments, so that no rendering of
  \<open>Debug\<close> output is needed.
\<close>

section \<open>64-bit integers\<close>

definition i64_min :: int where "i64_min = - (2 ^ 63)"
definition i64_max :: int where "i64_max = 2 ^ 63 - 1"

definition in_i64 :: "int \<Rightarrow> bool" where
  "in_i64 x \<longleftrightarrow> i64_min \<le> x \<and> x \<le> i64_max"

definition wrap64 :: "int \<Rightarrow> int" where
  "wrap64 x = (x + 2 ^ 63) mod 2 ^ 64 - 2 ^ 63"

definition clamp64 :: "int \<Rightarrow> int" where
  "clamp64 x = max i64_min (min i64_max x)"

definition i64_sub :: "int \<Rightarrow> int \<Rightarrow> int" where "i64_sub a b = wrap64 (a - b)"
definition i64_saturating_sub :: "int \<Rightarrow> int \<Rightarrow> int" where "i64_saturating_sub a b = clamp64 (a - b)"
definition i64_saturating_add :: "int \<Rightarrow> int \<Rightarrow> int" where "i64_saturating_add a b = clamp64 (a + b)"

lemmas i64_defs = i64_min_def i64_max_def in_i64_def wrap64_def clamp64_def i64_sub_def
  i64_saturating_sub_def i64_saturating_add_def

lemma wrap64_range [simp]: "in_i64 (wrap64 x)"
  by (simp add: i64_defs)

lemma wrap64_id: "in_i64 x \<Longrightarrow> wrap64 x = x"
  by (simp add: i64_defs)

lemma clamp64_range [simp]: "in_i64 (clamp64 x)"
  by (auto simp: i64_defs)

lemma clamp64_id: "in_i64 x \<Longrightarrow> clamp64 x = x"
  by (simp add: i64_defs)

section \<open>Decimal printing and parsing\<close>

definition digit_char :: "nat \<Rightarrow> char" where "digit_char d = char_of (48 + d)"

definition is_digit :: "char \<Rightarrow> bool" where
  "is_digit c \<longleftrightarrow> 48 \<le> (of_char c :: nat) \<and> (of_char c :: nat) \<le> 57"

definition digit_val :: "char \<Rightarrow> nat" where "digit_val c = of_char c - 48"

fun show_nat :: "nat \<Rightarrow> string" where
  "show_nat n = (if n < 10 then [digit_char n] else show_nat (n div 10) @ [digit_char (n mod 10)])"

declare show_nat.simps [simp del]

definition show_int :: "int \<Rightarrow> string" where
  "show_int i = (if i < 0 then CHR ''-'' # show_nat (nat (- i)) else show_nat (nat i))"

definition nat_of_digits :: "string \<Rightarrow> nat" where
  "nat_of_digits s = foldl (\<lambda>acc c. 10 * acc + digit_val c) 0 s"

text \<open>\<open>str::parse::<i64>\<close>: an optional sign, then one or more digits, inside the range.\<close>

fun parse_i64 :: "string \<Rightarrow> int option" where
  "parse_i64 s =
     (let (neg, ds) = (case s of
          [] \<Rightarrow> (False, [])
        | c # cs \<Rightarrow> if c = CHR ''-'' then (True, cs) else if c = CHR ''+'' then (False, cs) else (False, s));
        v = (if neg then - int (nat_of_digits ds) else int (nat_of_digits ds))
      in if ds \<noteq> [] \<and> list_all is_digit ds \<and> in_i64 v then Some v else None)"

declare parse_i64.simps [simp del]

lemma digit_char_facts [simp]:
  "d < 10 \<Longrightarrow> is_digit (digit_char d)" "d < 10 \<Longrightarrow> digit_val (digit_char d) = d"
  by (auto simp: digit_char_def is_digit_def digit_val_def of_char_of)

lemma show_nat_digits: "list_all is_digit (show_nat n)"
proof (induction n rule: show_nat.induct)
  case (1 n)
  then show ?case by (subst show_nat.simps) simp
qed

lemma show_nat_nonempty [simp]: "show_nat n \<noteq> []"
  by (subst show_nat.simps) simp

lemma nat_of_digits_snoc: "nat_of_digits (s @ [c]) = 10 * nat_of_digits s + digit_val c"
  by (simp add: nat_of_digits_def)

lemma nat_of_digits_show [simp]: "nat_of_digits (show_nat n) = n"
proof (induction n rule: show_nat.induct)
  case (1 n)
  show ?case
  proof (cases "n < 10")
    case True
    then show ?thesis by (subst show_nat.simps) (simp add: nat_of_digits_def)
  next
    case False
    with 1 show ?thesis
      by (subst show_nat.simps) (simp add: nat_of_digits_snoc)
  qed
qed

lemma show_nat_hd: "c # cs = show_nat n \<Longrightarrow> c \<noteq> CHR ''-'' \<and> c \<noteq> CHR ''+''"
  using show_nat_digits [of n] by (auto simp: is_digit_def dest: sym)

lemma parse_show_int: "in_i64 i \<Longrightarrow> parse_i64 (show_int i) = Some i"
proof (cases "i < 0")
  case True
  assume "in_i64 i"
  with True show ?thesis
    by (simp add: parse_i64.simps show_int_def show_nat_digits)
next
  case False
  assume i: "in_i64 i"
  obtain c cs where cs: "show_nat (nat i) = c # cs" by (cases "show_nat (nat i)") auto
  have sgn: "c \<noteq> CHR ''-''" "c \<noteq> CHR ''+''" using show_nat_hd [OF cs [symmetric]] by auto
  have d: "list_all is_digit (c # cs)" using show_nat_digits [of "nat i"] cs by simp
  have v: "nat_of_digits (c # cs) = nat i" using nat_of_digits_show [of "nat i"] cs by simp
  have e: "show_int i = c # cs" using False cs by (simp add: show_int_def)
  from False i sgn d v show ?thesis
    unfolding parse_i64.simps e by (simp add: Let_def)
qed

lemma show_int_inj: "show_int i = show_int j \<Longrightarrow> i = j"
proof -
  assume e: "show_int i = show_int j"
  have nosign: "show_nat n \<noteq> CHR ''-'' # s" for n s
    using show_nat_hd [of "CHR ''-''" s n] by metis
  from e nosign have "i < 0 \<longleftrightarrow> j < 0" by (auto simp: show_int_def dest: sym split: if_splits)
  with e show ?thesis
    by (auto simp: show_int_def split: if_splits)
       (metis nat_of_digits_show eq_nat_nat_iff neg_0_le_iff_le neg_equal_iff_equal less_imp_le
          linorder_not_le)+
qed

section \<open>UTF-8 text\<close>

text \<open>\<open>str::chars\<close>: each code point with the bytes that encode it.\<close>

fun utf8_chars :: "string \<Rightarrow> (int \<times> string) list" where
  "utf8_chars [] = []"
| "utf8_chars (c # cs) =
     (let b = (of_char c :: int);
          k = (if b < 128 then 0 else if b < 224 then 1 else if b < 240 then 2 else 3);
          lead = (if b < 128 then b else if b < 224 then b mod 32 else if b < 240 then b mod 16 else b mod 8)
      in (foldl (\<lambda>acc x. acc * 64 + of_char x mod 64) lead (take k cs), c # take k cs)
           # utf8_chars (drop k cs))"

lemma utf8_chars_bytes: "concat (map snd (utf8_chars s)) = s"
  by (induction s rule: utf8_chars.induct) (simp_all add: Let_def)

definition is_whitespace :: "int \<Rightarrow> bool" where
  \<comment> \<open>\<open>char::is_whitespace\<close>: the Unicode property \<open>White_Space\<close>\<close>
  "is_whitespace c \<longleftrightarrow> (9 \<le> c \<and> c \<le> 13) \<or> c = 32 \<or> c = 0x85 \<or> c = 0xA0 \<or> c = 0x1680 \<or>
     (0x2000 \<le> c \<and> c \<le> 0x200A) \<or> c = 0x2028 \<or> c = 0x2029 \<or> c = 0x202F \<or> c = 0x205F \<or> c = 0x3000"

definition blank :: "string \<Rightarrow> bool" where
  \<comment> \<open>\<open>s.trim().is_empty()\<close>\<close>
  "blank s \<longleftrightarrow> list_all (\<lambda>(c, _). is_whitespace c) (utf8_chars s)"

definition trim :: "string \<Rightarrow> string" where
  "trim s = concat (map snd (rev (dropWhile (\<lambda>(c, _). is_whitespace c)
              (rev (dropWhile (\<lambda>(c, _). is_whitespace c) (utf8_chars s))))))"

lemma utf8_chars_bytes_nonempty: "p \<in> set (utf8_chars s) \<Longrightarrow> snd p \<noteq> []"
  by (induction s rule: utf8_chars.induct) (auto simp: Let_def)

lemma blank_trim: "blank s \<longleftrightarrow> trim s = []"
proof
  assume "blank s"
  then have "dropWhile (\<lambda>(c, _). is_whitespace c) (utf8_chars s) = []"
    by (simp add: blank_def list_all_iff)
  then show "trim s = []" unfolding trim_def by (simp only:) simp
next
  assume t: "trim s = []"
  let ?w = "\<lambda>(c :: int, _ :: string). is_whitespace c"
  let ?d = "dropWhile ?w (rev (dropWhile ?w (utf8_chars s)))"
  have "?d = []"
  proof (rule ccontr)
    assume ne: "?d \<noteq> []"
    then obtain p where p: "p \<in> set ?d" by (cases ?d) auto
    then have "p \<in> set (utf8_chars s)" by (metis set_dropWhileD set_rev)
    then have "snd p \<noteq> []" by (rule utf8_chars_bytes_nonempty)
    moreover from t have "\<forall>q \<in> set ?d. snd q = []" by (simp add: trim_def)
    then have "snd p = []" using p by blast
    ultimately show False by simp
  qed
  then have "\<forall>p \<in> set (dropWhile ?w (utf8_chars s)). ?w p" by (simp add: dropWhile_eq_Nil_conv)
  then have "dropWhile ?w (utf8_chars s) = []"
    using hd_dropWhile [of ?w "utf8_chars s"] by (metis list.set_sel(1))
  then show "blank s" by (simp add: blank_def list_all_iff)
qed

definition strip_prefix :: "string \<Rightarrow> string \<Rightarrow> string option" where
  "strip_prefix p s = (if take (length p) s = p then Some (drop (length p) s) else None)"

lemma strip_prefix_Some: "strip_prefix p s = Some r \<longleftrightarrow> s = p @ r"
  unfolding strip_prefix_def by (auto, metis append_take_drop_id)

text \<open>\<open>split_once\<close> and \<open>rsplit_once\<close> on a one-byte separator.\<close>

fun split_once :: "char \<Rightarrow> string \<Rightarrow> (string \<times> string) option" where
  "split_once d [] = None"
| "split_once d (c # cs) =
     (if c = d then Some ([], cs) else map_option (\<lambda>(a, b). (c # a, b)) (split_once d cs))"

definition rsplit_once :: "char \<Rightarrow> string \<Rightarrow> (string \<times> string) option" where
  "rsplit_once d s = map_option (\<lambda>(a, b). (rev b, rev a)) (split_once d (rev s))"

lemma split_once_None: "split_once d s = None \<longleftrightarrow> d \<notin> set s"
  by (induction s) auto

lemma split_once_Some: "split_once d s = Some (a, b) \<longleftrightarrow> s = a @ d # b \<and> d \<notin> set a"
proof (induction s arbitrary: a)
  case (Cons c cs)
  then show ?case by (cases a) (auto simp: split_once_None)
qed simp

lemma rsplit_once_Some: "rsplit_once d s = Some (a, b) \<longleftrightarrow> s = a @ d # b \<and> d \<notin> set b"
proof -
  have "rsplit_once d s = Some (a, b) \<longleftrightarrow> split_once d (rev s) = Some (rev b, rev a)"
    by (auto simp: rsplit_once_def)
  also have "\<dots> \<longleftrightarrow> rev s = rev b @ d # rev a \<and> d \<notin> set b"
    by (simp add: split_once_Some)
  also have "\<dots> \<longleftrightarrow> s = a @ d # b \<and> d \<notin> set b"
    by (metis (no_types, lifting) append.assoc append_Cons append_Nil rev.simps(2) rev_append rev_rev_ident)
  finally show ?thesis .
qed

lemma rsplit_once_None: "rsplit_once d s = None \<longleftrightarrow> d \<notin> set s"
  by (simp add: rsplit_once_def split_once_None)

text \<open>SQLite's \<open>lower\<close> and \<open>COLLATE NOCASE\<close> fold the 26 ASCII letters only.\<close>

definition ascii_lower_char :: "char \<Rightarrow> char" where
  "ascii_lower_char c =
     (let n = (of_char c :: nat) in if 65 \<le> n \<and> n \<le> 90 then char_of (n + 32) else c)"

definition ascii_lower :: "string \<Rightarrow> string" where "ascii_lower s = map ascii_lower_char s"

lemma ascii_lower_idem [simp]: "ascii_lower (ascii_lower s) = ascii_lower s"
  by (simp add: ascii_lower_def ascii_lower_char_def Let_def of_char_of)

section \<open>JSON values\<close>

text \<open>
  \<open>serde_json::Value\<close>: a number is an integer or the text of a float; an object is its entries in key
  order, each key once.
\<close>

datatype json = JNull | JBool bool | JInt int | JFloat string | JStr string | JArr "json list" | JObj "(string \<times> json) list"

fun as_str :: "json \<Rightarrow> string option" where
  "as_str (JStr s) = Some s"
| "as_str _ = None"

fun as_u64 :: "json \<Rightarrow> int option" where
  "as_u64 (JInt i) = (if 0 \<le> i then Some i else None)"
| "as_u64 _ = None"

fun json_get :: "string \<Rightarrow> json \<Rightarrow> json option" where
  "json_get k (JObj es) = map_of es k"
| "json_get k _ = None"

section \<open>Formatted messages\<close>

datatype frag = T string | N int | S string | D string | J json
  \<comment> \<open>literal text, a \<open>{}\<close> of an integer, a \<open>{}\<close> of a string, a \<open>{:?}\<close> of a string, the text of a JSON value\<close>

type_synonym message = "frag list"

end
