(* ===== verification/Board_Types.thy ===== *)
theory Board_Types
  imports Rust_Std
begin

text \<open>
  The data model shared by every component: the wire and database enums of
  \<open>board-core/src/protocol.rs\<close>, the row structs of \<open>board-core/src/model.rs\<close>, the
  request parameters, \<open>Patch\<close>, and the error type of \<open>board-core/src/lib.rs\<close> with its
  protocol codes. The macro \<open>str_enum!\<close> becomes the locale \<open>str_enum\<close>, interpreted on
  each of the seven enums.
\<close>

section \<open>Enums with a wire string\<close>

locale str_enum =
  fixes as_str :: "'v \<Rightarrow> string" and parse_str :: "string \<Rightarrow> 'v option"
  assumes parse_as_str: "parse_str (as_str v) = Some v"
begin

lemma as_str_inj: "as_str v = as_str w \<longleftrightarrow> v = w"
  by (metis option.inject parse_as_str)

lemma parse_str_surj: "\<exists>s. parse_str s = Some v"
  by (rule exI) (rule parse_as_str)

text \<open>What is stored is always canonical: printing what was parsed and parsing again is stable.\<close>

lemma parse_canonical: "parse_str s = Some v \<Longrightarrow> parse_str (as_str v) = parse_str s"
  by (simp add: parse_as_str)

end

datatype trigger = Manual | Auto

fun trigger_str :: "trigger \<Rightarrow> string" where
  "trigger_str Manual = ''manual''"
| "trigger_str Auto = ''auto''"

definition parse_trigger :: "string \<Rightarrow> trigger option" where
  "parse_trigger s = (if s = ''manual'' then Some Manual else if s = ''auto'' then Some Auto else None)"

datatype space_kind = Workspace | NewWorkspace

fun space_kind_str :: "space_kind \<Rightarrow> string" where
  "space_kind_str Workspace = ''workspace''"
| "space_kind_str NewWorkspace = ''new_workspace''"

definition parse_space_kind :: "string \<Rightarrow> space_kind option" where
  "parse_space_kind s =
     (if s = ''workspace'' then Some Workspace
      else if s = ''new_workspace'' \<or> s = ''new-workspace'' then Some NewWorkspace
      else None)"

datatype card_status = Idle | Queued | Running | Blocked | Failed | Awaiting | Done

fun card_status_str :: "card_status \<Rightarrow> string" where
  "card_status_str Idle = ''idle''"
| "card_status_str Queued = ''queued''"
| "card_status_str Running = ''running''"
| "card_status_str Blocked = ''blocked''"
| "card_status_str Failed = ''failed''"
| "card_status_str Awaiting = ''awaiting''"
| "card_status_str Done = ''done''"

definition parse_card_status :: "string \<Rightarrow> card_status option" where
  "parse_card_status s =
     (if s = ''idle'' then Some Idle else if s = ''queued'' then Some Queued
      else if s = ''running'' then Some Running else if s = ''blocked'' then Some Blocked
      else if s = ''failed'' then Some Failed else if s = ''awaiting'' then Some Awaiting
      else if s = ''done'' then Some Done else None)"

datatype awaiting_reason = AgentDone | IdleExpired

fun awaiting_reason_str :: "awaiting_reason \<Rightarrow> string" where
  "awaiting_reason_str AgentDone = ''agent_done''"
| "awaiting_reason_str IdleExpired = ''idle_expired''"

definition parse_awaiting_reason :: "string \<Rightarrow> awaiting_reason option" where
  "parse_awaiting_reason s =
     (if s = ''agent_done'' then Some AgentDone
      else if s = ''idle_expired'' then Some IdleExpired else None)"

datatype run_outcome = OutcomeOk | OutcomeFail | Cancelled | Lost

fun run_outcome_str :: "run_outcome \<Rightarrow> string" where
  "run_outcome_str OutcomeOk = ''ok''"
| "run_outcome_str OutcomeFail = ''fail''"
| "run_outcome_str Cancelled = ''cancelled''"
| "run_outcome_str Lost = ''lost''"

definition parse_run_outcome :: "string \<Rightarrow> run_outcome option" where
  "parse_run_outcome s =
     (if s = ''ok'' then Some OutcomeOk else if s = ''fail'' then Some OutcomeFail
      else if s = ''cancelled'' then Some Cancelled else if s = ''lost'' then Some Lost else None)"

datatype visibility = VisActive | VisAll | VisArchived

fun visibility_str :: "visibility \<Rightarrow> string" where
  "visibility_str VisActive = ''active''"
| "visibility_str VisAll = ''all''"
| "visibility_str VisArchived = ''archived''"

definition parse_visibility :: "string \<Rightarrow> visibility option" where
  "parse_visibility s =
     (if s = ''active'' then Some VisActive else if s = ''all'' then Some VisAll
      else if s = ''archived'' then Some VisArchived else None)"

datatype effort = Off | Minimal | Low | Medium | High | Xhigh | Max

fun effort_str :: "effort \<Rightarrow> string" where
  "effort_str Off = ''off''"
| "effort_str Minimal = ''minimal''"
| "effort_str Low = ''low''"
| "effort_str Medium = ''medium''"
| "effort_str High = ''high''"
| "effort_str Xhigh = ''xhigh''"
| "effort_str Max = ''max''"

definition parse_effort :: "string \<Rightarrow> effort option" where
  "parse_effort s =
     (if s = ''off'' then Some Off else if s = ''minimal'' then Some Minimal
      else if s = ''low'' then Some Low else if s = ''medium'' then Some Medium
      else if s = ''high'' then Some High else if s = ''xhigh'' then Some Xhigh
      else if s = ''max'' then Some Max else None)"

interpretation trigger_enum: str_enum trigger_str parse_trigger
proof
  show "parse_trigger (trigger_str v) = Some v" for v by (cases v) (simp_all add: parse_trigger_def)
qed

interpretation space_kind_enum: str_enum space_kind_str parse_space_kind
proof
  show "parse_space_kind (space_kind_str v) = Some v" for v
    by (cases v) (simp_all add: parse_space_kind_def)
qed

interpretation card_status_enum: str_enum card_status_str parse_card_status
proof
  show "parse_card_status (card_status_str v) = Some v" for v
    by (cases v) (simp_all add: parse_card_status_def)
qed

interpretation awaiting_reason_enum: str_enum awaiting_reason_str parse_awaiting_reason
proof
  show "parse_awaiting_reason (awaiting_reason_str v) = Some v" for v
    by (cases v) (simp_all add: parse_awaiting_reason_def)
qed

interpretation run_outcome_enum: str_enum run_outcome_str parse_run_outcome
proof
  show "parse_run_outcome (run_outcome_str v) = Some v" for v
    by (cases v) (simp_all add: parse_run_outcome_def)
qed

interpretation visibility_enum: str_enum visibility_str parse_visibility
proof
  show "parse_visibility (visibility_str v) = Some v" for v
    by (cases v) (simp_all add: parse_visibility_def)
qed

interpretation effort_enum: str_enum effort_str parse_effort
proof
  show "parse_effort (effort_str v) = Some v" for v by (cases v) (simp_all add: parse_effort_def)
qed

section \<open>Patches\<close>

datatype 'a patch = Unchanged | Clear | Set 'a

fun is_unchanged :: "'a patch \<Rightarrow> bool" where
  "is_unchanged Unchanged = True"
| "is_unchanged Clear = False"
| "is_unchanged (Set v) = False"

definition patch_from_flags :: "bool \<Rightarrow> 'a option \<Rightarrow> 'a patch" where
  "patch_from_flags clear v =
     (if clear then Clear else (case v of Some x \<Rightarrow> Set x | None \<Rightarrow> Unchanged))"

definition patch_from_option :: "'a option \<Rightarrow> 'a patch" where
  "patch_from_option v = (case v of Some x \<Rightarrow> Set x | None \<Rightarrow> Clear)"

fun apply_patch :: "'a option \<Rightarrow> 'a patch \<Rightarrow> 'a option" where
  "apply_patch t Unchanged = t"
| "apply_patch t Clear = None"
| "apply_patch t (Set v) = Some v"

lemma apply_patch_from_option [simp]: "apply_patch t (patch_from_option v) = v"
  by (cases v) (simp_all add: patch_from_option_def)

lemma apply_patch_idem [simp]: "apply_patch (apply_patch t p) p = apply_patch t p"
  by (cases p) simp_all

section \<open>Rows\<close>

record project =
  pj_id :: int
  pj_name :: string
  pj_scope_path :: "string option"
  pj_archived_at :: "string option"

record board =
  bd_id :: int
  bd_project_id :: int
  bd_name :: string
  bd_scope_path :: "string option"
  bd_archived_at :: "string option"

record column =
  col_id :: int
  col_board_id :: int
  col_name :: string
  col_position :: int
  col_system_prompt :: "string option"
  col_trigger :: trigger
  col_on_success :: "int option"
  col_on_fail :: "int option"
  col_fresh_session :: bool
  col_harness_override :: "string option"
  col_model_override :: "string option"
  col_effort_override :: "string option"
  col_permission_override :: "string option"
  col_timeout_minutes :: "int option"

record card_labels =
  lb_session :: string
  lb_effort :: string
  lb_permission :: string
  lb_model :: string

record card =
  cd_id :: int
  cd_board_id :: int
  cd_column_id :: int
  cd_position :: int
  cd_title :: string
  cd_description :: string
  cd_harness :: string
  cd_model :: "string option"
  cd_effort :: "effort option"
  cd_permission_mode :: "string option"
  cd_session :: "string option"
  cd_space_kind :: space_kind
  cd_space_ref :: "string option"
  cd_space_cwd :: "string option"
  cd_status :: card_status
  cd_awaiting_reason :: "awaiting_reason option"
  cd_session_id :: "string option"
  cd_created_at :: string
  cd_updated_at :: string
  cd_archived_at :: "string option"
  cd_labels :: card_labels

record space_key =
  sk_session :: "string option"
  sk_kind :: space_kind
  sk_reference :: "string option"

definition space_key_from_card :: "card \<Rightarrow> space_key" where
  "space_key_from_card c =
     \<lparr>sk_session = cd_session c, sk_kind = cd_space_kind c, sk_reference = cd_space_ref c\<rparr>"

record comment =
  cm_id :: int
  cm_card_id :: int
  cm_author :: string
  cm_body :: string
  cm_created_at :: string
  cm_deleted_at :: "string option"

definition is_system :: "comment \<Rightarrow> bool" where
  "is_system c \<longleftrightarrow> cm_author c = ''system''"

record comment_history =
  ch_id :: int
  ch_comment_id :: int
  ch_card_id :: int
  ch_author :: string
  ch_body :: string
  ch_created_at :: string
  ch_deleted_at :: "string option"

record execution_spec =
  ex_argv :: "string list"
  ex_env :: "(string \<times> string) list"
  ex_agent_kind :: "string option"
  ex_initial_prompt :: "string option"
  ex_system_prompt :: "string option"

record run_launch_spec =
  ls_version :: nat
  ls_execution :: execution_spec

definition run_launch_spec_v1 :: "execution_spec \<Rightarrow> run_launch_spec" where
  "run_launch_spec_v1 e = \<lparr>ls_version = 1, ls_execution = e\<rparr>"

text \<open>\<open>RunLaunchSpec::deserialize\<close> after serde has read the two fields.\<close>

definition check_launch_spec :: "run_launch_spec \<Rightarrow> message + run_launch_spec" where
  "check_launch_spec s =
     (if ls_version s \<noteq> 1
      then Inl [T ''unsupported launch spec version '', N (int (ls_version s))]
      else Inr (run_launch_spec_v1 (ls_execution s)))"

record run =
  rn_id :: int
  rn_card_id :: int
  rn_column_id :: int
  rn_harness :: string
  rn_argv_json :: string
  rn_prompt_snapshot :: string
  rn_system_prompt_snapshot :: "string option"
  rn_launch_spec :: "run_launch_spec option"
  rn_herdr_workspace_id :: "string option"
  rn_herdr_pane_id :: "string option"
  rn_herdr_anchor_pane_id :: "string option"
  rn_session_id :: "string option"
  rn_session :: "string option"
  rn_started_at :: "string option"
  rn_timeout_deadline_at_ms :: "int option"
  rn_timeout_paused_at_ms :: "int option"
  rn_ended_at :: "string option"
  rn_outcome :: "run_outcome option"
  rn_result_summary :: "string option"
  rn_log_path :: "string option"

section \<open>Request parameters\<close>

record column_create_params =
  cc_name :: string
  cc_board_id :: "int option"
  cc_position :: "int option"
  cc_system_prompt :: "string option"
  cc_trigger :: "trigger option"
  cc_on_success :: "int option"
  cc_on_fail :: "int option"
  cc_fresh_session :: "bool option"
  cc_harness_override :: "string option"
  cc_model_override :: "string option"
  cc_effort_override :: "string option"
  cc_permission_override :: "string option"
  cc_timeout_minutes :: "int option"

record column_update_params =
  cu_id :: int
  cu_name :: "string option"
  cu_position :: "int option"
  cu_system_prompt :: "string patch"
  cu_trigger :: "trigger option"
  cu_on_success :: "int patch"
  cu_on_fail :: "int patch"
  cu_fresh_session :: "bool option"
  cu_harness_override :: "string patch"
  cu_model_override :: "string patch"
  cu_effort_override :: "string patch"
  cu_permission_override :: "string patch"
  cu_timeout_minutes :: "int patch"

record card_create_params =
  kc_title :: string
  kc_board_id :: "int option"
  kc_description :: "string option"
  kc_column_id :: "int option"
  kc_harness :: "string option"
  kc_model :: "string option"
  kc_effort :: "effort option"
  kc_permission_mode :: "string option"
  kc_session :: "string option"
  kc_space_kind :: "space_kind option"
  kc_space_ref :: "string option"
  kc_space_cwd :: "string option"
  kc_position :: "int option"

record card_update_params =
  ku_id :: int
  ku_title :: "string option"
  ku_description :: "string option"
  ku_harness :: "string option"
  ku_model :: "string patch"
  ku_effort :: "effort patch"
  ku_permission_mode :: "string patch"
  ku_session :: "string patch"
  ku_space_kind :: "space_kind option"
  ku_space_ref :: "string patch"
  ku_space_cwd :: "string patch"

section \<open>Errors\<close>

datatype validation_error =
    ColumnHasCards
  | ColumnHasActiveCard
  | CardBusy
  | CardHasActiveRun
  | BypassNotAllowed
  | NewWorkspaceIncomplete
  | UnknownHarness string
  | InvalidModel string
  | InvalidEffort string
  | PiPermissionUnsupported
  | InvalidPermission string
  | OrphanedColumnOverride

fun validation_error_code :: "validation_error \<Rightarrow> int" where
  "validation_error_code ColumnHasCards = 3"
| "validation_error_code ColumnHasActiveCard = 3"
| "validation_error_code CardBusy = 3"
| "validation_error_code CardHasActiveRun = 3"
| "validation_error_code BypassNotAllowed = 1"
| "validation_error_code NewWorkspaceIncomplete = 1"
| "validation_error_code (UnknownHarness _) = 1"
| "validation_error_code (InvalidModel _) = 1"
| "validation_error_code (InvalidEffort _) = 1"
| "validation_error_code PiPermissionUnsupported = 1"
| "validation_error_code (InvalidPermission _) = 1"
| "validation_error_code OrphanedColumnOverride = 1"

text \<open>The ways SQLite refuses a statement that the modelled code can meet.\<close>

datatype sqlite_error = UniqueViolation | ForeignKeyViolation | CheckViolation | NoRow

datatype error =
    Sqlite sqlite_error
  | Json
  | Io
  | Config
  | BadRequest message
  | NotFound message
  | InvalidState message
  | HerdrUnavailable message
  | PluginUnavailable message
  | PluginOpUnsupported message
  | Validation validation_error

fun error_code :: "error \<Rightarrow> int" where
  "error_code (BadRequest _) = 1"
| "error_code (NotFound _) = 2"
| "error_code (InvalidState _) = 3"
| "error_code (Validation v) = validation_error_code v"
| "error_code (HerdrUnavailable _) = 4"
| "error_code (PluginUnavailable _) = 6"
| "error_code (PluginOpUnsupported _) = 7"
| "error_code (Sqlite _) = 5"
| "error_code Json = 5"
| "error_code Io = 5"
| "error_code Config = 5"

definition ok_or :: "'e \<Rightarrow> 'a option \<Rightarrow> 'e + 'a" where
  "ok_or e v = (case v of None \<Rightarrow> Inl e | Some x \<Rightarrow> Inr x)"

lemma ok_or_Inr [simp]: "ok_or e v = Inr x \<longleftrightarrow> v = Some x"
  by (cases v) (simp_all add: ok_or_def)

lemma ok_or_Inl [simp]: "ok_or e v = Inl e' \<longleftrightarrow> v = None \<and> e' = e"
  by (cases v) (auto simp: ok_or_def)

end
