(* ===== verification/Engine_Decisions.thy ===== *)
theory Engine_Decisions
  imports Board_Types
begin

text \<open>
  The pure decisions of \<open>board-core/src/engine\<close>: which operation may close a run
  (\<open>lifecycle.rs\<close>), where a finished card goes and how long a chain of automatic hops may get
  (\<open>transitions.rs\<close>), what a pane signal does to a card (\<open>signals.rs\<close>), who may be archived
  (\<open>archive.rs\<close>) and which column a typed reference means (\<open>columns.rs\<close>). The lemmas
  characterise each decision on every branch; the store and the daemon theories use them.
\<close>

section \<open>Lifecycle\<close>

datatype lifecycle_action = ActDone run_outcome | ActCancel | ActTimeout | ActPaneExited

datatype lifecycle_harness = BuiltIn | Configured

record lifecycle_facts =
  lf_open_run_id :: "int option"
  lf_supplied_run_id :: "int option"
  lf_started :: bool
  lf_harness :: lifecycle_harness
  lf_card_status :: card_status

record finalize_plan =
  fp_outcome :: run_outcome
  fp_kill :: bool
  fp_transition :: bool

datatype lifecycle_rejection =
    NoOpenRun
  | SuppliedRunIdMismatch (mismatch_expected: int) (mismatch_supplied: int)
  | QueuedCompletionRequiresRunId
  | QueuedBuiltinCompletion
  | PaneExitRequiresRunId
  | PaneExitBuiltin
  | TimeoutBeforeStart
  | TimeoutPaused

datatype lifecycle_decision = Finalize finalize_plan | Reject lifecycle_rejection

definition decide_action :: "lifecycle_facts \<Rightarrow> lifecycle_action \<Rightarrow> lifecycle_decision" where
  "decide_action f action =
     (case action of
        ActDone out \<Rightarrow>
          if \<not> lf_started f \<and> lf_harness f = BuiltIn then Reject QueuedBuiltinCompletion
          else if \<not> lf_started f \<and> lf_supplied_run_id f = None
            then Reject QueuedCompletionRequiresRunId
          else Finalize \<lparr>fp_outcome = out, fp_kill = False, fp_transition = True\<rparr>
      | ActCancel \<Rightarrow>
          Finalize \<lparr>fp_outcome = Cancelled, fp_kill = lf_started f, fp_transition = False\<rparr>
      | ActTimeout \<Rightarrow>
          if \<not> lf_started f then Reject TimeoutBeforeStart
          else if lf_card_status f = Awaiting then Reject TimeoutPaused
          else Finalize \<lparr>fp_outcome = OutcomeFail, fp_kill = True, fp_transition = True\<rparr>
      | ActPaneExited \<Rightarrow>
          if lf_supplied_run_id f = None then Reject PaneExitRequiresRunId
          else if lf_harness f = BuiltIn then Reject PaneExitBuiltin
          else Finalize \<lparr>fp_outcome = OutcomeFail, fp_kill = False, fp_transition = False\<rparr>)"

definition decide_lifecycle :: "lifecycle_facts \<Rightarrow> lifecycle_action \<Rightarrow> lifecycle_decision" where
  "decide_lifecycle f action =
     (case lf_open_run_id f of
        None \<Rightarrow> Reject NoOpenRun
      | Some open_run_id \<Rightarrow>
          (case lf_supplied_run_id f of
             Some supplied \<Rightarrow>
               if supplied \<noteq> open_run_id
               then Reject (SuppliedRunIdMismatch open_run_id supplied)
               else decide_action f action
           | None \<Rightarrow> decide_action f action))"

lemmas lifecycle_defs = decide_lifecycle_def decide_action_def

lemma decide_lifecycle_finalize:
  assumes "decide_lifecycle f a = Finalize p"
  shows "\<exists>r. lf_open_run_id f = Some r \<and> (lf_supplied_run_id f = None \<or> lf_supplied_run_id f = Some r)"
  using assms by (auto simp: lifecycle_defs split: option.splits if_splits)

lemma decide_lifecycle_ok_only_done:
  "decide_lifecycle f a = Finalize p \<Longrightarrow> fp_outcome p = OutcomeOk \<Longrightarrow> a = ActDone OutcomeOk"
  by (auto simp: lifecycle_defs split: option.splits if_splits lifecycle_action.splits)

lemma decide_lifecycle_kill:
  "decide_lifecycle f a = Finalize p \<Longrightarrow> fp_kill p \<Longrightarrow> lf_started f \<and> (a = ActCancel \<or> a = ActTimeout)"
  by (auto simp: lifecycle_defs split: option.splits if_splits lifecycle_action.splits)

lemma decide_lifecycle_builtin_queued:
  "decide_lifecycle f a = Finalize p \<Longrightarrow> lf_harness f = BuiltIn \<Longrightarrow> \<not> lf_started f \<Longrightarrow> a = ActCancel"
  by (auto simp: lifecycle_defs split: option.splits if_splits lifecycle_action.splits)

section \<open>Signals\<close>

datatype agent_signal = SigWorking | SigBlocked | SigDone | SigIdleExpired

record signal_decision =
  sd_new_status :: card_status
  sd_awaiting_reason :: "awaiting_reason option"
  sd_emit_notification :: "string option"

definition signal_live :: "card_status \<Rightarrow> bool" where
  "signal_live st \<longleftrightarrow> st \<in> {Running, Blocked, Awaiting}"

definition decide_signal :: "card_status \<Rightarrow> agent_signal \<Rightarrow> signal_decision option" where
  "decide_signal card_status sig =
     (if card_status \<notin> {Running, Blocked, Awaiting} then None
      else case sig of
        SigWorking \<Rightarrow>
          if card_status = Running then None
          else Some \<lparr>sd_new_status = Running, sd_awaiting_reason = None, sd_emit_notification = None\<rparr>
      | SigBlocked \<Rightarrow>
          if card_status = Blocked then None
          else Some \<lparr>sd_new_status = Blocked, sd_awaiting_reason = None,
                     sd_emit_notification = Some ''is blocked (needs input)''\<rparr>
      | SigDone \<Rightarrow>
          Some \<lparr>sd_new_status = Awaiting, sd_awaiting_reason = Some AgentDone,
                sd_emit_notification =
                  (if card_status = Awaiting then None
                   else Some ''agent finished without `board done`; card is awaiting review'')\<rparr>
      | SigIdleExpired \<Rightarrow>
          if card_status = Awaiting then None
          else Some \<lparr>sd_new_status = Awaiting, sd_awaiting_reason = Some IdleExpired,
                     sd_emit_notification =
                       Some ''agent idle past the grace period without `board done`; card is awaiting review''\<rparr>)"

lemma decide_signal_live:
  "decide_signal st sig = Some d \<Longrightarrow> signal_live st \<and> signal_live (sd_new_status d)"
  by (auto simp: decide_signal_def signal_live_def split: agent_signal.splits if_splits)

lemma decide_signal_reason:
  "decide_signal st sig = Some d \<Longrightarrow> sd_awaiting_reason d \<noteq> None \<longleftrightarrow> sd_new_status d = Awaiting"
  by (auto simp: decide_signal_def split: agent_signal.splits if_splits)

text \<open>The card's status and reason after a signal, as \<open>apply_signal\<close> writes them.\<close>

definition signal_step ::
  "card_status \<times> awaiting_reason option \<Rightarrow> agent_signal \<Rightarrow> card_status \<times> awaiting_reason option" where
  "signal_step s sig =
     (case decide_signal (fst s) sig of None \<Rightarrow> s
      | Some d \<Rightarrow> (sd_new_status d, sd_awaiting_reason d))"

lemma signal_step_idem: "signal_step (signal_step s sig) sig = signal_step s sig"
proof (cases s)
  case (Pair st r)
  then show ?thesis
    by (cases st; cases sig) (simp_all add: signal_step_def decide_signal_def)
qed

section \<open>Transitions\<close>

definition max_auto_hops :: nat where "max_auto_hops = 8"

record transition_decision =
  td_target_column_id :: "int option"
  td_new_status :: card_status
  td_enqueue :: bool
  td_system_comment :: string

datatype auto_hop_decision = HopContinue nat | HopStop string | HopReset

definition u32_saturating_add :: "nat \<Rightarrow> nat \<Rightarrow> nat" where
  "u32_saturating_add a b = min (a + b) (2 ^ 32 - 1)"

definition decide_auto_hop :: "nat \<Rightarrow> transition_decision \<Rightarrow> auto_hop_decision" where
  "decide_auto_hop current_hops t =
     (if \<not> td_enqueue t then HopReset
      else let hop = u32_saturating_add current_hops 1
           in if hop > max_auto_hops
              then HopStop (''auto-chain limit ('' @ show_nat max_auto_hops @
                            '') reached without human action; stopping'')
              else HopContinue hop)"

datatype resumability = Resumable | Fresh

definition decide_resumability :: "string option \<Rightarrow> run list \<Rightarrow> comment list \<Rightarrow> resumability" where
  "decide_resumability session_id runs comments =
     (case session_id of
        None \<Rightarrow> Fresh
      | Some sid \<Rightarrow>
          if list_ex (\<lambda>r. rn_started_at r \<noteq> None \<and> rn_session_id r = Some sid \<and>
                list_ex (\<lambda>c. cm_author c = ''agent:'' @ show_int (rn_id r)) comments) runs
          then Resumable else Fresh)"

definition outcome_word :: "run_outcome \<Rightarrow> string" where
  "outcome_word out =
     (case out of OutcomeOk \<Rightarrow> ''ok'' | OutcomeFail \<Rightarrow> ''failed''
      | Cancelled \<Rightarrow> ''cancelled'' | Lost \<Rightarrow> ''lost'')"

definition run_elapsed :: "int option \<Rightarrow> int option \<Rightarrow> int \<Rightarrow> int option" where
  "run_elapsed started_at ended_at now =
     (case started_at of None \<Rightarrow> None
      | Some started \<Rightarrow>
          let end_at = (case ended_at of Some e \<Rightarrow> e | None \<Rightarrow> now)
          in Some (max 0 (i64_sub end_at started)))"

definition format_duration :: "int option \<Rightarrow> string" where
  "format_duration secs =
     (case secs of
        None \<Rightarrow> ''unknown''
      | Some s \<Rightarrow>
          if s \<le> 0 then ''0s''
          else if s < 60 then show_int s @ ''s''
          else if s < 3600 then show_int (s div 60) @ ''m'' @ show_int (s mod 60) @ ''s''
          else show_int (s div 3600) @ ''h'' @ show_int ((s mod 3600) div 60) @ ''m'')"

definition arrow :: string where \<comment> \<open>U+2192 in UTF-8\<close>
  "arrow = [CHR 0xE2, CHR 0x86, CHR 0x92]"

definition transition_target :: "column \<Rightarrow> column list \<Rightarrow> run_outcome \<Rightarrow> column option" where
  "transition_target current columns outcome =
     (case (case outcome of
            OutcomeOk \<Rightarrow> col_on_success current
          | OutcomeFail \<Rightarrow> col_on_fail current
          | Cancelled \<Rightarrow> None | Lost \<Rightarrow> None) of
        None \<Rightarrow> None
      | Some i \<Rightarrow> List.find (\<lambda>c. col_id c = i) columns)"

definition decide_transition ::
  "column \<Rightarrow> column list \<Rightarrow> run_outcome \<Rightarrow> int option \<Rightarrow> transition_decision" where
  "decide_transition current columns outcome elapsed_secs =
     (let target = transition_target current columns outcome;
          dur = format_duration elapsed_secs;
          word = outcome_word outcome
      in case target of
           Some t \<Rightarrow>
             let enqueue = (col_trigger t = Auto)
             in \<lparr>td_target_column_id = Some (col_id t),
                 td_new_status = (if enqueue then Queued else Idle),
                 td_enqueue = enqueue,
                 td_system_comment = col_name current @ '' '' @ word @ '' in '' @ dur @ '' '' @
                   arrow @ '' '' @ col_name t\<rparr>
         | None \<Rightarrow>
             \<lparr>td_target_column_id = None,
              td_new_status = (if outcome = OutcomeOk then Done else Failed),
              td_enqueue = False,
              td_system_comment = col_name current @ '' '' @ word @ '' in '' @ dur @
                '' (no target column, staying)''\<rparr>)"

record entry_decision =
  ed_new_status :: card_status
  ed_enqueue :: bool
  ed_notify :: bool

definition decide_entry :: "column \<Rightarrow> card_status \<Rightarrow> bool \<Rightarrow> entry_decision" where
  "decide_entry target status_before via_auto_transition =
     (case col_trigger target of
        Auto \<Rightarrow>
          if status_before \<in> {Idle, Failed, Done}
          then \<lparr>ed_new_status = Queued, ed_enqueue = True, ed_notify = False\<rparr>
          else \<lparr>ed_new_status = status_before, ed_enqueue = False, ed_notify = False\<rparr>
      | Manual \<Rightarrow>
          \<lparr>ed_new_status = Idle, ed_enqueue = False, ed_notify = via_auto_transition\<rparr>)"

lemma format_duration_nonempty [simp]: "format_duration d \<noteq> []"
  by (simp add: format_duration_def split: option.splits)

lemma run_elapsed_nonneg: "run_elapsed s e now = Some d \<Longrightarrow> 0 \<le> d"
  by (auto simp: run_elapsed_def Let_def split: option.splits)

lemma run_elapsed_closed: "run_elapsed s (Some e) now = run_elapsed s (Some e) now'"
  by (cases s) (simp_all add: run_elapsed_def)

lemma run_elapsed_exact:
  assumes "in_i64 (e - s)" and "s \<le> e"
  shows "run_elapsed (Some s) (Some e) now = Some (e - s)"
  using assms by (simp add: run_elapsed_def i64_sub_def wrap64_id)

lemma transition_target_Some:
  assumes "transition_target cur cols out = Some t"
  shows "t \<in> set cols \<and>
    (out = OutcomeOk \<and> col_on_success cur = Some (col_id t) \<or>
     out = OutcomeFail \<and> col_on_fail cur = Some (col_id t))"
  using assms unfolding transition_target_def
  by (cases out) (auto split: option.splits dest!: find_SomeD)

lemma decide_transition_target:
  assumes "td_target_column_id (decide_transition cur cols out el) = Some i"
  shows "\<exists>c \<in> set cols. col_id c = i \<and>
    td_enqueue (decide_transition cur cols out el) = (col_trigger c = Auto)"
proof (cases "transition_target cur cols out")
  case None
  with assms show ?thesis by (simp add: decide_transition_def Let_def)
next
  case (Some t)
  with assms have "col_id t = i" "td_enqueue (decide_transition cur cols out el) = (col_trigger t = Auto)"
    by (simp_all add: decide_transition_def Let_def)
  with transition_target_Some [OF Some] show ?thesis by blast
qed

lemma decide_transition_status:
  "td_new_status (decide_transition cur cols out el) =
     (if td_enqueue (decide_transition cur cols out el) then Queued
      else if td_target_column_id (decide_transition cur cols out el) \<noteq> None then Idle
      else if out = OutcomeOk then Done else Failed)"
  by (auto simp: decide_transition_def Let_def split: option.splits)

lemma decide_transition_cancelled:
  "out \<in> {Cancelled, Lost} \<Longrightarrow> td_target_column_id (decide_transition cur cols out el) = None"
  by (auto simp: decide_transition_def transition_target_def)

lemma decide_transition_enqueue_target:
  "td_enqueue (decide_transition cur cols out el) \<Longrightarrow>
   td_target_column_id (decide_transition cur cols out el) \<noteq> None"
  by (auto simp: decide_transition_def Let_def split: option.splits)

text \<open>
  The hop counter along a chain of transitions, as \<open>finalize_run_inner\<close> stores it:
  \<open>Continue\<close> writes the new count, \<open>Stop\<close> and \<open>Reset\<close> remove it and end the chain. The
  function counts the runs the chain starts on its own.
\<close>

fun auto_chain :: "nat \<Rightarrow> transition_decision list \<Rightarrow> nat" where
  "auto_chain hops [] = 0"
| "auto_chain hops (t # ts) =
     (case decide_auto_hop hops t of
        HopContinue h \<Rightarrow> Suc (auto_chain h ts)
      | HopStop _ \<Rightarrow> 0
      | HopReset \<Rightarrow> 0)"

lemma decide_auto_hop_continue:
  "decide_auto_hop n t = HopContinue h \<longleftrightarrow> td_enqueue t \<and> n < max_auto_hops \<and> h = Suc n"
  by (auto simp: decide_auto_hop_def Let_def u32_saturating_add_def max_auto_hops_def)

lemma auto_chain_bound_from: "n \<le> max_auto_hops \<Longrightarrow> auto_chain n ts \<le> max_auto_hops - n"
proof (induction n ts rule: auto_chain.induct)
  case (2 n t ts)
  then show ?case
    by (auto simp: decide_auto_hop_continue split: auto_hop_decision.splits)
qed simp

lemma auto_chain_exact_from:
  "\<forall>t \<in> set ts. td_enqueue t \<Longrightarrow> n \<le> max_auto_hops \<Longrightarrow>
   auto_chain n ts = min (max_auto_hops - n) (length ts)"
proof (induction ts arbitrary: n)
  case (Cons t ts)
  show ?case
  proof (cases "n < max_auto_hops")
    case True
    with Cons.prems have "decide_auto_hop n t = HopContinue (Suc n)"
      by (simp add: decide_auto_hop_continue)
    moreover have "auto_chain (Suc n) ts = min (max_auto_hops - Suc n) (length ts)"
      using Cons True by simp
    ultimately show ?thesis using True by simp
  next
    case False
    then show ?thesis
      using decide_auto_hop_continue [of n t]
      by (auto split: auto_hop_decision.splits)
  qed
qed simp

lemma decide_entry_enqueue:
  "ed_enqueue (decide_entry t st via) \<longleftrightarrow> col_trigger t = Auto \<and> st \<in> {Idle, Failed, Done}"
  by (auto simp: decide_entry_def split: trigger.splits)

lemma decide_entry_busy:
  "col_trigger t = Auto \<Longrightarrow> st \<notin> {Idle, Failed, Done} \<Longrightarrow> ed_new_status (decide_entry t st via) = st"
  by (simp add: decide_entry_def)

lemma show_int_agent_inj: "''agent:'' @ show_int a = ''agent:'' @ show_int b \<longleftrightarrow> a = b"
  using show_int_inj by auto

section \<open>Archive\<close>

datatype board_archive_rejection = BoardOpenRun int

datatype project_archive_rejection = GlobalProject | ActiveBoards nat | ProjectOpenRun

record archived_destination =
  ad_kind :: string
  ad_restore_hint :: string

definition decide_board_archive ::
  "int \<Rightarrow> bool \<Rightarrow> bool \<Rightarrow> bool \<Rightarrow> board_archive_rejection + unit" where
  "decide_board_archive board_id already_archived has_open_run target_archived =
     (if already_archived = target_archived then Inr ()
      else if target_archived \<and> has_open_run then Inl (BoardOpenRun board_id)
      else Inr ())"

definition decide_project_archive ::
  "bool \<Rightarrow> bool \<Rightarrow> nat \<Rightarrow> bool \<Rightarrow> bool \<Rightarrow> project_archive_rejection + unit" where
  "decide_project_archive is_global already_archived unarchived_board_count has_open_run
       target_archived =
     (if already_archived = target_archived then Inr ()
      else if \<not> target_archived then Inr ()
      else if is_global then Inl GlobalProject
      else if unarchived_board_count > 0 then Inl (ActiveBoards unarchived_board_count)
      else if has_open_run then Inl ProjectOpenRun
      else Inr ())"

definition decide_new_work_on_board :: "bool \<Rightarrow> int \<Rightarrow> archived_destination + unit" where
  "decide_new_work_on_board board_archived board_id =
     (if board_archived
      then Inl \<lparr>ad_kind = ''board'', ad_restore_hint = ''board board restore <id|name>''\<rparr>
      else Inr ())"

definition decide_new_work_on_project :: "bool \<Rightarrow> archived_destination + unit" where
  "decide_new_work_on_project project_archived =
     (if project_archived
      then Inl \<lparr>ad_kind = ''project'', ad_restore_hint = ''board project restore <path>''\<rparr>
      else Inr ())"

fun board_archive_message :: "board_archive_rejection \<Rightarrow> message" where
  "board_archive_message (BoardOpenRun i) =
     [T ''board '', N i,
      T '' has an open run and cannot be archived; finish or cancel the run first'']"

fun project_archive_message :: "project_archive_rejection \<Rightarrow> message" where
  "project_archive_message GlobalProject = [T ''the Global project cannot be archived'']"
| "project_archive_message (ActiveBoards n) =
     [T ''project has '', N (int n),
      T '' active board(s); archive every board first with `board board archive <id>`'']"
| "project_archive_message ProjectOpenRun =
     [T ''project has an open run and cannot be archived; finish or cancel the run first'']"

section \<open>Column references\<close>

text \<open>\<open>to_lower\<close> is \<open>str::to_lowercase\<close>, the Unicode case mapping.\<close>

definition resolve_column :: "(string \<Rightarrow> string) \<Rightarrow> column list \<Rightarrow> string \<Rightarrow> int option" where
  "resolve_column to_lower columns reference =
     (case parse_i64 reference of
        Some i \<Rightarrow> if list_ex (\<lambda>c. col_id c = i) columns then Some i
          else map_option col_id (List.find (\<lambda>c. to_lower (col_name c) = to_lower reference) columns)
      | None \<Rightarrow>
          map_option col_id (List.find (\<lambda>c. to_lower (col_name c) = to_lower reference) columns))"

lemma resolve_column_sound:
  assumes "resolve_column lo cols r = Some i"
  shows "\<exists>c \<in> set cols. col_id c = i \<and> (parse_i64 r = Some i \<or> lo (col_name c) = lo r)"
  using assms
  by (auto simp: resolve_column_def list_ex_iff dest!: find_SomeD split: option.splits if_splits)

lemma resolve_column_id:
  "c \<in> set cols \<Longrightarrow> in_i64 (col_id c) \<Longrightarrow> resolve_column lo cols (show_int (col_id c)) = Some (col_id c)"
  by (auto simp: resolve_column_def parse_show_int list_ex_iff)

lemma resolve_column_complete:
  assumes "c \<in> set cols" and "lo (col_name c) = lo r"
  shows "resolve_column lo cols r \<noteq> None"
proof -
  obtain z where "List.find (\<lambda>c. lo (col_name c) = lo r) cols = Some z"
    using assms by (cases "List.find (\<lambda>c. lo (col_name c) = lo r) cols") (auto dest: find_NoneD)
  then show ?thesis by (simp add: resolve_column_def split: option.splits)
qed

end
