(* ===== verification/Engine_Validation.thy ===== *)
theory Engine_Validation
  imports Engine_Decisions
begin

text \<open>
  What settings a card or a column may carry: the harness adapters and the capability snapshot
  of \<open>board-core/src/capability.rs\<close>, the validators of \<open>engine/validation.rs\<close>, and
  the resolution of a run's effective settings (\<open>prompt.rs\<close>). The trait \<open>HarnessMeta\<close>
  is the locale \<open>harness_meta\<close>, interpreted on the six adapters; from it follows that the
  snapshot a client sees offers exactly the efforts its adapter accepts.
\<close>

section \<open>Configuration\<close>

record model_info =
  mi_id :: string
  mi_efforts :: "effort list"

record harness_def =
  hd_argv :: "string list"
  hd_models :: "string list"
  hd_efforts :: "string list"
  hd_permission_modes :: "string list"
  hd_resume :: bool

text \<open>The board settings the modelled code reads; \<open>harness\<close> is a map, kept as its entries.\<close>

record config =
  cf_max_concurrent :: nat
  cf_idle_grace_seconds :: nat
  cf_harness :: "(string \<times> harness_def) list"
  cf_agy_models :: "model_info list option"

definition default_config :: config where
  "default_config =
     \<lparr>cf_max_concurrent = 3, cf_idle_grace_seconds = 90, cf_harness = [], cf_agy_models = None\<rparr>"

section \<open>Adapters\<close>

datatype resume_support = Unsupported | ByConversationId

fun is_supported :: "resume_support \<Rightarrow> bool" where
  "is_supported Unsupported = False"
| "is_supported ByConversationId = True"

record harness_meta_row =
  hm_id :: string
  hm_models :: "model_info list"
  hm_efforts :: "string option \<Rightarrow> effort list"
  hm_permissions :: "string list"
  hm_model_freeform :: bool
  hm_resume :: resume_support

record harness_capabilities =
  hc_harness :: string
  hc_models :: "model_info list"
  hc_model_freeform :: bool
  hc_default_efforts :: "effort list"
  hc_permission_modes :: "string list"
  hc_resume :: resume_support
  hc_default_effort_label :: string
  hc_default_permission_label :: string
  hc_default_model_label :: string

definition default_effort_label :: string where "default_effort_label = ''default effort''"
definition default_permission_label :: string where "default_permission_label = ''default permission''"
definition default_model_label :: string where "default_model_label = ''default model''"

definition from_meta :: "harness_meta_row \<Rightarrow> harness_capabilities" where
  "from_meta m =
     \<lparr>hc_harness = hm_id m, hc_models = hm_models m, hc_model_freeform = hm_model_freeform m,
      hc_default_efforts = hm_efforts m None, hc_permission_modes = hm_permissions m,
      hc_resume = hm_resume m, hc_default_effort_label = default_effort_label,
      hc_default_permission_label = default_permission_label,
      hc_default_model_label = default_model_label\<rparr>"

definition effort_order :: "effort list" where
  "effort_order = [Off, Minimal, Low, Medium, High, Xhigh, Max]"

definition find_model :: "model_info list \<Rightarrow> string \<Rightarrow> model_info option" where
  "find_model ms i = List.find (\<lambda>m. mi_id m = i) ms"

definition efforts_for :: "harness_capabilities \<Rightarrow> string option \<Rightarrow> effort list" where
  "efforts_for caps model =
     (let known = Option.bind model (find_model (hc_models caps))
      in filter (\<lambda>e. case known of
             Some m \<Rightarrow> e \<in> set (mi_efforts m)
           | None \<Rightarrow> e \<in> set (hc_default_efforts caps) \<or>
               hc_default_efforts caps = [] \<and> (\<exists>m \<in> set (hc_models caps). e \<in> set (mi_efforts m)))
           effort_order)"

definition claude_efforts :: "effort list" where "claude_efforts = [Low, Medium, High, Xhigh, Max]"

definition claude_permission_modes :: "string list" where
  "claude_permission_modes =
     [''acceptEdits'', ''auto'', ''bypassPermissions'', ''manual'', ''dontAsk'', ''plan'']"

definition pi_meta :: harness_meta_row where
  "pi_meta =
     \<lparr>hm_id = ''pi'', hm_models = [],
      hm_efforts = (\<lambda>_. [Off, Minimal, Low, Medium, High, Xhigh, Max]),
      hm_permissions = [], hm_model_freeform = True, hm_resume = ByConversationId\<rparr>"

definition claude_meta :: harness_meta_row where
  "claude_meta =
     \<lparr>hm_id = ''claude'',
      hm_models = map (\<lambda>i. \<lparr>mi_id = i, mi_efforts = claude_efforts\<rparr>)
                      [''fable'', ''opus'', ''sonnet'', ''haiku''],
      hm_efforts = (\<lambda>_. claude_efforts),
      hm_permissions = claude_permission_modes, hm_model_freeform = True,
      hm_resume = ByConversationId\<rparr>"

definition codex_efforts :: "effort list" where
  "codex_efforts = [Off, Minimal, Low, Medium, High, Xhigh, Max]"

definition codex_permission_modes :: "string list" where
  "codex_permission_modes = [''ask-for-approval'', ''approve-for-me'', ''full-access'']"

definition codex_meta :: harness_meta_row where
  "codex_meta =
     \<lparr>hm_id = ''codex'', hm_models = [], hm_efforts = (\<lambda>_. codex_efforts),
      hm_permissions = codex_permission_modes, hm_model_freeform = True,
      hm_resume = ByConversationId\<rparr>"

definition opencode_default_efforts :: "effort list" where
  "opencode_default_efforts = [Off, Minimal, Low, Medium, High, Xhigh, Max]"

definition opencode_permission_modes :: "string list" where
  "opencode_permission_modes = [''default'', ''auto-approve'']"

definition fallback_models :: "model_info list" where
  "fallback_models =
     [\<lparr>mi_id = ''opencode/nemotron-3-ultra-free'', mi_efforts = []\<rparr>,
      \<lparr>mi_id = ''opencode/deepseek-v4-flash-free'', mi_efforts = [Low, High, Max]\<rparr>]"

definition known_or :: "model_info list \<Rightarrow> effort list \<Rightarrow> string option \<Rightarrow> effort list" where
  "known_or ms default_efforts model =
     (case model of None \<Rightarrow> default_efforts
      | Some i \<Rightarrow> (case find_model ms i of Some m \<Rightarrow> mi_efforts m | None \<Rightarrow> default_efforts))"

definition opencode_meta :: harness_meta_row where
  "opencode_meta =
     \<lparr>hm_id = ''opencode'', hm_models = fallback_models,
      hm_efforts = known_or fallback_models opencode_default_efforts,
      hm_permissions = opencode_permission_modes, hm_model_freeform = True,
      hm_resume = ByConversationId\<rparr>"

definition antigravity_default_efforts :: "effort list" where
  "antigravity_default_efforts = [Low, Medium, High]"

definition antigravity_permission_modes :: "string list" where
  "antigravity_permission_modes = [''sandbox'', ''always-proceed'']"

definition antigravity_meta :: "model_info list option \<Rightarrow> harness_meta_row" where
  "antigravity_meta catalog =
     (let ms = (case catalog of Some ms \<Rightarrow> ms | None \<Rightarrow> [])
      in \<lparr>hm_id = ''antigravity'', hm_models = ms,
          hm_efforts = known_or ms antigravity_default_efforts,
          hm_permissions = antigravity_permission_modes, hm_model_freeform = (catalog = None),
          hm_resume = ByConversationId\<rparr>)"

definition parsed_efforts :: "harness_def \<Rightarrow> effort list" where
  "parsed_efforts d = List.map_filter parse_effort (hd_efforts d)"

definition config_meta :: "string \<Rightarrow> harness_def \<Rightarrow> harness_meta_row" where
  "config_meta name d =
     (let ms = map (\<lambda>i. \<lparr>mi_id = i, mi_efforts = parsed_efforts d\<rparr>) (hd_models d)
      in \<lparr>hm_id = name, hm_models = ms, hm_efforts = known_or ms (parsed_efforts d),
          hm_permissions = hd_permission_modes d, hm_model_freeform = True,
          hm_resume = (if hd_resume d then ByConversationId else Unsupported)\<rparr>)"

definition builtin_harnesses :: "string list" where
  "builtin_harnesses = [''pi'', ''claude'', ''codex'', ''opencode'', ''antigravity'']"

definition is_builtin_harness :: "string \<Rightarrow> bool" where
  "is_builtin_harness name \<longleftrightarrow> name \<in> set builtin_harnesses"

definition meta_for :: "string \<Rightarrow> config \<Rightarrow> harness_meta_row option" where
  "meta_for harness cfg =
     (if harness = ''pi'' then Some pi_meta
      else if harness = ''claude'' then Some claude_meta
      else if harness = ''codex'' then Some codex_meta
      else if harness = ''opencode'' then Some opencode_meta
      else if harness = ''antigravity'' then Some (antigravity_meta (cf_agy_models cfg))
      else map_option (config_meta harness) (map_of (cf_harness cfg) harness))"

definition capabilities_for :: "string \<Rightarrow> config \<Rightarrow> harness_capabilities option" where
  "capabilities_for harness cfg = map_option from_meta (meta_for harness cfg)"

definition resume_support_for :: "string \<Rightarrow> config \<Rightarrow> resume_support" where
  "resume_support_for harness cfg =
     (case meta_for harness cfg of Some m \<Rightarrow> hm_resume m | None \<Rightarrow> Unsupported)"

fun push_new :: "'a list \<Rightarrow> 'a list \<Rightarrow> 'a list" where
  "push_new out [] = out"
| "push_new out (k # ks) = push_new (if k \<in> set out then out else out @ [k]) ks"

definition available_harnesses :: "config \<Rightarrow> string list" where
  "available_harnesses cfg = push_new builtin_harnesses (sort (map fst (cf_harness cfg)))"

definition default_capabilities :: "string \<Rightarrow> harness_capabilities" where
  "default_capabilities harness =
     (if harness = ''pi'' then from_meta pi_meta
      else if harness = ''claude'' then from_meta claude_meta
      else if harness = ''codex'' then from_meta codex_meta
      else if harness = ''opencode'' then from_meta opencode_meta
      else if harness = ''antigravity'' then from_meta (antigravity_meta None)
      else \<lparr>hc_harness = harness, hc_models = [], hc_model_freeform = True,
            hc_default_efforts = [Off, Minimal, Low, Medium, High, Xhigh, Max],
            hc_permission_modes = [], hc_resume = Unsupported,
            hc_default_effort_label = default_effort_label,
            hc_default_permission_label = default_permission_label,
            hc_default_model_label = default_model_label\<rparr>)"

subsection \<open>The adapter contract\<close>

text \<open>
  The trait's documentation: \<open>efforts(None)\<close> is the default set, \<open>efforts(Some(id))\<close> is
  authoritative for a known model and falls back to the default set otherwise. The last law is
  what the snapshot needs: an adapter without default efforts declares none for its models.
\<close>

locale harness_meta =
  fixes models :: "model_info list" and efforts :: "string option \<Rightarrow> effort list"
  assumes efforts_known: "find_model models i = Some m \<Longrightarrow> set (efforts (Some i)) = set (mi_efforts m)"
    and efforts_unknown: "find_model models i = None \<Longrightarrow> efforts (Some i) = efforts None"
    and no_default: "efforts None = [] \<Longrightarrow> m \<in> set models \<Longrightarrow> mi_efforts m = []"
begin

lemma snapshot_efforts:
  assumes "hc_models caps = models" and "hc_default_efforts caps = efforts None"
  shows "set (efforts_for caps model) = set (efforts model)"
proof -
  have all: "e \<in> set effort_order" for e by (cases e) (simp_all add: effort_order_def)
  show ?thesis
  proof (cases "Option.bind model (find_model models)")
    case (Some m)
    then obtain i where "model = Some i" "find_model models i = Some m"
      by (cases model) auto
    then show ?thesis using assms all efforts_known by (auto simp: efforts_for_def)
  next
    case None
    have e: "efforts model = efforts None"
      using None efforts_unknown by (cases model) auto
    have "\<not> (\<exists>m \<in> set models. e \<in> set (mi_efforts m))" if "efforts None = []" for e
      using no_default [OF that] by auto
    then show ?thesis unfolding e using assms None all by (auto simp: efforts_for_def)
  qed
qed

end

lemma known_or_meta:
  assumes "ds = [] \<Longrightarrow> \<forall>m \<in> set ms. mi_efforts m = []"
  shows "harness_meta ms (known_or ms ds)"
  using assms by unfold_locales (auto simp: known_or_def)

lemma find_model_in: "find_model ms i = Some m \<Longrightarrow> m \<in> set ms \<and> mi_id m = i"
  by (auto simp: find_model_def dest: find_SomeD)

lemma find_model_Nil [simp]: "find_model [] i = None"
  by (simp add: find_model_def)

interpretation pi_adapter: harness_meta "hm_models pi_meta" "hm_efforts pi_meta"
  by unfold_locales (simp_all add: pi_meta_def)

interpretation codex_adapter: harness_meta "hm_models codex_meta" "hm_efforts codex_meta"
  by unfold_locales (simp_all add: codex_meta_def)

interpretation claude_adapter: harness_meta "hm_models claude_meta" "hm_efforts claude_meta"
  by unfold_locales (auto simp: claude_meta_def dest!: find_model_in)

interpretation opencode_adapter: harness_meta "hm_models opencode_meta" "hm_efforts opencode_meta"
  unfolding opencode_meta_def harness_meta_row.simps
  by (rule known_or_meta) (simp add: opencode_default_efforts_def)

interpretation antigravity_adapter:
  harness_meta "hm_models (antigravity_meta catalog)" "hm_efforts (antigravity_meta catalog)" for catalog
  unfolding antigravity_meta_def Let_def harness_meta_row.simps
  by (rule known_or_meta) (simp add: antigravity_default_efforts_def)

interpretation config_adapter:
  harness_meta "hm_models (config_meta name d)" "hm_efforts (config_meta name d)" for name d
  unfolding config_meta_def Let_def harness_meta_row.simps
  by (rule known_or_meta) simp

lemmas adapter_snapshots = pi_adapter.snapshot_efforts claude_adapter.snapshot_efforts
  codex_adapter.snapshot_efforts opencode_adapter.snapshot_efforts
  antigravity_adapter.snapshot_efforts config_adapter.snapshot_efforts

lemma efforts_for_meta:
  assumes "meta_for h cfg = Some m"
  shows "set (efforts_for (from_meta m) model) = set (hm_efforts m model)"
proof -
  have s: "hc_models (from_meta k) = hm_models k" "hc_default_efforts (from_meta k) = hm_efforts k None"
    for k by (simp_all add: from_meta_def)
  from assms consider "m = pi_meta" | "m = claude_meta" | "m = codex_meta" | "m = opencode_meta"
    | c where "m = antigravity_meta c" | n d where "m = config_meta n d"
    by (auto simp: meta_for_def split: if_splits)
  then show ?thesis by cases (simp_all only: adapter_snapshots [OF s])
qed

lemma efforts_for_sorted: "\<exists>P. efforts_for caps model = filter P effort_order"
  by (auto simp: efforts_for_def Let_def)

lemma set_push_new: "set (push_new out ks) = set out \<union> set ks"
  by (induction out ks rule: push_new.induct) auto

lemma distinct_push_new: "distinct out \<Longrightarrow> distinct (push_new out ks)"
  by (induction out ks rule: push_new.induct) auto

lemma available_harnesses_iff: "h \<in> set (available_harnesses cfg) \<longleftrightarrow> meta_for h cfg \<noteq> None"
proof -
  have "meta_for h cfg \<noteq> None \<longleftrightarrow> h \<in> set builtin_harnesses \<or> map_of (cf_harness cfg) h \<noteq> None"
    by (simp add: meta_for_def builtin_harnesses_def)
  then show ?thesis
    by (simp add: available_harnesses_def set_push_new map_of_eq_None_iff del: not_None_eq)
qed

lemma available_harnesses_distinct: "distinct (available_harnesses cfg)"
  unfolding available_harnesses_def by (rule distinct_push_new) (simp add: builtin_harnesses_def)

section \<open>Validators\<close>

datatype permission_context = CardContext | ColumnOverride

definition validate_column_delete :: "bool \<Rightarrow> bool \<Rightarrow> int option \<Rightarrow> validation_error + unit" where
  "validate_column_delete has_cards has_active_card move_cards_to =
     (if has_active_card then Inl ColumnHasActiveCard
      else if has_cards \<and> move_cards_to = None then Inl ColumnHasCards
      else Inr ())"

definition validate_card_edit :: "card_status \<Rightarrow> bool \<Rightarrow> validation_error + unit" where
  "validate_card_edit status edits_locked_fields =
     (if edits_locked_fields \<and> status \<in> {Running, Queued, Blocked, Awaiting}
      then Inl CardBusy else Inr ())"

definition validate_card_archive :: "card_status \<Rightarrow> validation_error + unit" where
  "validate_card_archive status =
     (if status \<in> {Queued, Running, Blocked, Awaiting} then Inl CardHasActiveRun else Inr ())"

definition is_some_and :: "'a option \<Rightarrow> ('a \<Rightarrow> bool) \<Rightarrow> bool" where
  "is_some_and v P = (case v of None \<Rightarrow> False | Some x \<Rightarrow> P x)"

definition validate_card_space ::
  "space_kind \<Rightarrow> string option \<Rightarrow> string option \<Rightarrow> validation_error + unit" where
  "validate_card_space kind space_ref space_cwd =
     (if kind = NewWorkspace \<and>
         (\<not> is_some_and space_ref (\<lambda>s. \<not> blank s) \<or> \<not> is_some_and space_cwd (\<lambda>s. \<not> blank s))
      then Inl NewWorkspaceIncomplete else Inr ())"

definition validate_column_permission_override :: "string option \<Rightarrow> validation_error + unit" where
  "validate_column_permission_override perm =
     (if perm = Some ''bypassPermissions'' then Inl BypassNotAllowed else Inr ())"

definition set_if :: "'a option \<Rightarrow> 'a \<Rightarrow> 'a" where
  "set_if v old = (case v of Some x \<Rightarrow> x | None \<Rightarrow> old)"

definition merge_card_update :: "card \<Rightarrow> card_update_params \<Rightarrow> card" where
  "merge_card_update c u =
     c\<lparr>cd_title := set_if (ku_title u) (cd_title c),
       cd_description := set_if (ku_description u) (cd_description c),
       cd_harness := set_if (ku_harness u) (cd_harness c),
       cd_model := apply_patch (cd_model c) (ku_model u),
       cd_effort := apply_patch (cd_effort c) (ku_effort u),
       cd_permission_mode := apply_patch (cd_permission_mode c) (ku_permission_mode u),
       cd_session := apply_patch (cd_session c) (ku_session u),
       cd_space_kind := set_if (ku_space_kind u) (cd_space_kind c),
       cd_space_ref := apply_patch (cd_space_ref c) (ku_space_ref u),
       cd_space_cwd := apply_patch (cd_space_cwd c) (ku_space_cwd u)\<rparr>"

definition merge_column_update :: "column \<Rightarrow> column_update_params \<Rightarrow> column" where
  "merge_column_update c u =
     c\<lparr>col_name := set_if (cu_name u) (col_name c),
       col_system_prompt := apply_patch (col_system_prompt c) (cu_system_prompt u),
       col_trigger := set_if (cu_trigger u) (col_trigger c),
       col_on_success := apply_patch (col_on_success c) (cu_on_success u),
       col_on_fail := apply_patch (col_on_fail c) (cu_on_fail u),
       col_fresh_session := set_if (cu_fresh_session u) (col_fresh_session c),
       col_harness_override := apply_patch (col_harness_override c) (cu_harness_override u),
       col_model_override := apply_patch (col_model_override c) (cu_model_override u),
       col_effort_override := apply_patch (col_effort_override c) (cu_effort_override u),
       col_permission_override := apply_patch (col_permission_override c) (cu_permission_override u),
       col_timeout_minutes := apply_patch (col_timeout_minutes c) (cu_timeout_minutes u)\<rparr>"

definition validate_settings_values ::
  "string \<Rightarrow> string option \<Rightarrow> effort option \<Rightarrow> string option \<Rightarrow> config \<Rightarrow> permission_context
     \<Rightarrow> validation_error + unit" where
  "validate_settings_values harness model effort permission cfg ctxt =
     (case capabilities_for harness cfg of
        None \<Rightarrow> Inl (UnknownHarness harness)
      | Some caps \<Rightarrow>
          if is_some_and model (\<lambda>m. \<not> hc_model_freeform caps \<and> (\<forall>k \<in> set (hc_models caps). mi_id k \<noteq> m))
          then Inl (InvalidModel (the model))
          else if is_some_and effort (\<lambda>e. e \<notin> set (efforts_for caps model))
          then Inl (InvalidEffort (effort_str (the effort)))
          else (case permission of
                  None \<Rightarrow> Inr ()
                | Some p \<Rightarrow>
                    if hc_permission_modes caps = [] then Inl PiPermissionUnsupported
                    else if ctxt = ColumnOverride \<and> p = ''bypassPermissions'' then Inl BypassNotAllowed
                    else if p \<notin> set (hc_permission_modes caps) then Inl (InvalidPermission p)
                    else Inr ()))"

definition then_check :: "'e + unit \<Rightarrow> 'e + 'a \<Rightarrow> 'e + 'a" where
  "then_check a b = (case a of Inl e \<Rightarrow> Inl e | Inr _ \<Rightarrow> b)"

lemma then_check_Inr [simp]: "then_check a b = Inr x \<longleftrightarrow> a = Inr () \<and> b = Inr x"
  by (cases a) (auto simp: then_check_def)

definition validate_card_values ::
  "string \<Rightarrow> string option \<Rightarrow> effort option \<Rightarrow> string option \<Rightarrow> space_kind \<Rightarrow> string option
     \<Rightarrow> string option \<Rightarrow> config \<Rightarrow> validation_error + unit" where
  "validate_card_values harness model effort permission kind space_ref space_cwd cfg =
     then_check (validate_settings_values harness model effort permission cfg CardContext)
       (validate_card_space kind space_ref space_cwd)"

definition validate_card_settings :: "card \<Rightarrow> config \<Rightarrow> validation_error + unit" where
  "validate_card_settings c cfg =
     validate_card_values (cd_harness c) (cd_model c) (cd_effort c) (cd_permission_mode c)
       (cd_space_kind c) (cd_space_ref c) (cd_space_cwd c) cfg"

definition parse_effort_override :: "string option \<Rightarrow> validation_error + effort option" where
  "parse_effort_override v =
     (case v of None \<Rightarrow> Inr None
      | Some s \<Rightarrow> (case parse_effort s of None \<Rightarrow> Inl (InvalidEffort s) | Some e \<Rightarrow> Inr (Some e)))"

definition validate_column_values ::
  "string option \<Rightarrow> string option \<Rightarrow> string option \<Rightarrow> string option \<Rightarrow> config \<Rightarrow> permission_context
     \<Rightarrow> validation_error + unit" where
  "validate_column_values harness model effort permission cfg ctxt =
     then_check
       (if ctxt = ColumnOverride then validate_column_permission_override permission else Inr ())
       (case parse_effort_override effort of
          Inl e \<Rightarrow> Inl e
        | Inr parsed \<Rightarrow>
            (case harness of
               None \<Rightarrow> Inr ()
             | Some h \<Rightarrow> validate_settings_values h model parsed permission cfg ctxt))"

definition validate_column_settings ::
  "column \<Rightarrow> config \<Rightarrow> permission_context \<Rightarrow> validation_error + unit" where
  "validate_column_settings c cfg ctxt =
     validate_column_values (col_harness_override c) (col_model_override c) (col_effort_override c)
       (col_permission_override c) cfg ctxt"

definition validate_column_update ::
  "column \<Rightarrow> column \<Rightarrow> column_update_params \<Rightarrow> config \<Rightarrow> validation_error + unit" where
  "validate_column_update current merged u cfg =
     (if col_harness_override current \<noteq> None \<and> col_harness_override merged = None
         \<and> (col_model_override merged \<noteq> None \<or> col_effort_override merged \<noteq> None
             \<or> col_permission_override merged \<noteq> None)
         \<and> (is_unchanged (cu_model_override u) \<or> is_unchanged (cu_effort_override u)
             \<or> is_unchanged (cu_permission_override u))
      then Inl OrphanedColumnOverride
      else validate_column_settings merged cfg ColumnOverride)"

definition or_else :: "'a option \<Rightarrow> 'a option \<Rightarrow> 'a option" where
  "or_else a b = (case a of Some x \<Rightarrow> Some x | None \<Rightarrow> b)"

definition validate_effective_settings :: "card \<Rightarrow> column \<Rightarrow> config \<Rightarrow> validation_error + unit" where
  "validate_effective_settings c column cfg =
     then_check (validate_column_permission_override (col_permission_override column))
       (let harness = set_if (col_harness_override column) (cd_harness c);
            model = or_else (col_model_override column) (cd_model c)
        in case (case col_effort_override column of
                   Some s \<Rightarrow> (case parse_effort s of None \<Rightarrow> Inl (InvalidEffort s) | Some e \<Rightarrow> Inr (Some e))
                 | None \<Rightarrow> Inr (cd_effort c)) of
             Inl e \<Rightarrow> Inl e
           | Inr effort \<Rightarrow>
               then_check
                 (validate_settings_values harness model effort
                    (or_else (col_permission_override column) (cd_permission_mode c)) cfg CardContext)
                 (validate_card_space (cd_space_kind c) (cd_space_ref c) (cd_space_cwd c)))"

section \<open>Effective settings\<close>

record effective_settings_row =
  es_harness :: string
  es_model :: "string option"
  es_effort :: "effort option"
  es_permission_mode :: "string option"
  es_system_prompt :: "string option"
  es_fresh_session :: bool
  es_timeout_minutes :: "int option"

definition effective_settings ::
  "card \<Rightarrow> column \<Rightarrow> validation_error + effective_settings_row" where
  "effective_settings c column =
     then_check (validate_column_permission_override (col_permission_override column))
       (Inr \<lparr>es_harness = set_if (col_harness_override column) (cd_harness c),
             es_model = or_else (col_model_override column) (cd_model c),
             es_effort = (case col_effort_override column of Some s \<Rightarrow> parse_effort s
                          | None \<Rightarrow> cd_effort c),
             es_permission_mode = or_else (col_permission_override column) (cd_permission_mode c),
             es_system_prompt = col_system_prompt column,
             es_fresh_session = col_fresh_session column,
             es_timeout_minutes = col_timeout_minutes column\<rparr>)"

section \<open>Facts about the validators\<close>

lemma validate_settings_ok:
  "validate_settings_values h model effort perm cfg ctxt = Inr () \<longleftrightarrow>
   (\<exists>m. meta_for h cfg = Some m \<and>
      (\<forall>x. model = Some x \<longrightarrow> hm_model_freeform m \<or> (\<exists>k \<in> set (hm_models m). mi_id k = x)) \<and>
      (\<forall>e. effort = Some e \<longrightarrow> e \<in> set (hm_efforts m model)) \<and>
      (\<forall>p. perm = Some p \<longrightarrow> p \<in> set (hm_permissions m) \<and>
              (ctxt = ColumnOverride \<longrightarrow> p \<noteq> ''bypassPermissions'')))"
proof (cases "meta_for h cfg")
  case None
  then show ?thesis by (simp add: validate_settings_values_def capabilities_for_def)
next
  case (Some m)
  have caps: "capabilities_for h cfg = Some (from_meta m)" by (simp add: capabilities_for_def Some)
  have f: "hc_model_freeform (from_meta m) = hm_model_freeform m"
    "hc_models (from_meta m) = hm_models m" "hc_permission_modes (from_meta m) = hm_permissions m"
    by (simp_all add: from_meta_def)
  show ?thesis
    unfolding validate_settings_values_def caps
    by (cases model; cases effort; cases perm)
       (auto simp: f Some is_some_and_def efforts_for_meta [OF Some])
qed

lemma validate_column_values_ok:
  "validate_column_values h model effort perm cfg ColumnOverride = Inr () \<longleftrightarrow>
   perm \<noteq> Some ''bypassPermissions'' \<and>
   (\<exists>parsed. parse_effort_override effort = Inr parsed \<and>
      (\<forall>x. h = Some x \<longrightarrow> validate_settings_values x model parsed perm cfg ColumnOverride = Inr ()))"
  by (auto simp: validate_column_values_def validate_column_permission_override_def
      split: sum.splits option.splits)

lemma validate_effective_ok:
  assumes "validate_effective_settings c column cfg = Inr ()"
  shows "\<exists>es. effective_settings c column = Inr es \<and>
    col_permission_override column \<noteq> Some ''bypassPermissions'' \<and>
    validate_card_values (es_harness es) (es_model es) (es_effort es) (es_permission_mode es)
      (cd_space_kind c) (cd_space_ref c) (cd_space_cwd c) cfg = Inr ()"
  using assms
  by (auto simp: validate_effective_settings_def effective_settings_def validate_card_values_def
      Let_def validate_column_permission_override_def then_check_def
      split: option.splits sum.splits if_splits)

lemma merge_card_frame [simp]:
  "cd_id (merge_card_update c u) = cd_id c" "cd_column_id (merge_card_update c u) = cd_column_id c"
  "cd_board_id (merge_card_update c u) = cd_board_id c"
  "cd_position (merge_card_update c u) = cd_position c"
  "cd_status (merge_card_update c u) = cd_status c"
  "cd_awaiting_reason (merge_card_update c u) = cd_awaiting_reason c"
  by (simp_all add: merge_card_update_def)

lemma merge_column_frame [simp]:
  "col_id (merge_column_update c u) = col_id c"
  "col_board_id (merge_column_update c u) = col_board_id c"
  "col_position (merge_column_update c u) = col_position c"
  by (simp_all add: merge_column_update_def)

lemma merge_card_idem: "merge_card_update (merge_card_update c u) u = merge_card_update c u"
  by (simp add: merge_card_update_def set_if_def split: option.splits)

end
