(* ===== verification/Row_Tables.thy ===== *)
theory Row_Tables
  imports Board_Prelude
begin

text \<open>
  Tables as lists of rows in rowid order, and the statements the store issues on them. A table
  has an \<open>INTEGER PRIMARY KEY\<close>; a row inserted without one gets the largest key plus one
  (1 in an empty table). The locale \<open>keyed\<close> is the interface of such a table: one law, that
  writing the key writes the key, from which the lookup, insert, update and delete facts follow.
  It is interpreted on the six keyed tables in \<open>Store_Schema\<close>.
\<close>

definition lookup :: "('r \<Rightarrow> int) \<Rightarrow> int \<Rightarrow> 'r list \<Rightarrow> 'r option" where
  "lookup key i rows = List.find (\<lambda>r. key r = i) rows"

definition next_id :: "('r \<Rightarrow> int) \<Rightarrow> 'r list \<Rightarrow> int" where
  "next_id key rows =
     (case rows of [] \<Rightarrow> 1 | r # rs \<Rightarrow> foldl (\<lambda>m x. max m (key x)) (key r) rs + 1)"

definition insert_row :: "('r \<Rightarrow> int) \<Rightarrow> (int \<Rightarrow> 'r \<Rightarrow> 'r) \<Rightarrow> 'r \<Rightarrow> 'r list \<Rightarrow> 'r list" where
  "insert_row key set_key r rows = rows @ [set_key (next_id key rows) r]"

definition update_where :: "('r \<Rightarrow> bool) \<Rightarrow> ('r \<Rightarrow> 'r) \<Rightarrow> 'r list \<Rightarrow> 'r list" where
  "update_where P f rows = map (\<lambda>r. if P r then f r else r) rows"

definition end_position :: "('r \<Rightarrow> 'g) \<Rightarrow> ('r \<Rightarrow> int) \<Rightarrow> 'g \<Rightarrow> 'r list \<Rightarrow> int" where
  \<comment> \<open>\<open>SELECT COALESCE(MAX(position)+1, 0) .. WHERE grp = g\<close>\<close>
  "end_position grp pos g rows =
     (case filter (\<lambda>r. grp r = g) rows of [] \<Rightarrow> 0
      | r # rs \<Rightarrow> foldl (\<lambda>m x. max m (pos x)) (pos r) rs + 1)"

lemma foldl_max_ge: "m \<le> foldl (\<lambda>m x. max m (f x :: int)) m rs \<and>
    (\<forall>r \<in> set rs. f r \<le> foldl (\<lambda>m x. max m (f x)) m rs)"
proof (induction rs arbitrary: m)
  case (Cons r rs)
  from Cons [of "max m (f r)"] show ?case by (auto simp: le_max_iff_disj intro: order_trans)
qed simp

lemma next_id_fresh: "r \<in> set rows \<Longrightarrow> key r < next_id key rows"
  using foldl_max_ge [of "key (hd rows)" key "tl rows"]
  by (cases rows) (auto simp: next_id_def)

lemma next_id_notin: "next_id key rows \<notin> key ` set rows"
  using next_id_fresh [of _ rows key] by fastforce

lemma lookup_Some: "lookup key i rows = Some r \<Longrightarrow> r \<in> set rows \<and> key r = i"
  by (auto simp: lookup_def dest: find_SomeD)

lemma lookup_None: "lookup key i rows = None \<longleftrightarrow> i \<notin> key ` set rows"
  by (auto simp: lookup_def find_None_iff)

lemma lookup_eq:
  "distinct (map key rows) \<Longrightarrow> lookup key i rows = Some r \<longleftrightarrow> r \<in> set rows \<and> key r = i"
  using find_key [of key rows] by (auto simp: lookup_def dest: find_SomeD)

lemma foldl_max_eq:
  "(\<forall>r \<in> set rs. f r \<le> m) \<Longrightarrow> foldl (\<lambda>m x. max m (f x :: int)) m rs = m"
  by (induction rs) (auto simp: max_def)

lemma foldl_max_Max: "foldl (\<lambda>m x. max m (f x :: int)) m rs = Max (insert m (f ` set rs))"
proof (induction rs arbitrary: m)
  case (Cons r rs)
  have "insert m (insert (f r) (f ` set rs)) = insert m (f ` set (r # rs))" by auto
  then show ?case using Cons [of "max m (f r)"]
    by (cases "rs = []") (simp_all add: max.assoc)
qed simp

lemma end_position_Max:
  "filter (\<lambda>r. grp r = g) rows \<noteq> [] \<Longrightarrow>
   end_position grp pos g rows = Max (pos ` {r \<in> set rows. grp r = g}) + 1"
proof -
  assume "filter (\<lambda>r. grp r = g) rows \<noteq> []"
  then obtain r rs where f: "filter (\<lambda>r. grp r = g) rows = r # rs" by (meson neq_Nil_conv)
  have "{r \<in> set rows. grp r = g} = set (r # rs)" by (simp flip: f)
  then show ?thesis by (simp add: end_position_def f foldl_max_Max)
qed

lemma end_position_numbered:
  assumes "pos ` {r \<in> set rows. grp r = g} = int ` {0..<n}"
  shows "end_position grp pos g rows = int n"
proof (cases "n = 0")
  case True
  with assms have "filter (\<lambda>r. grp r = g) rows = []" by (auto simp: filter_empty_conv)
  with True show ?thesis by (simp add: end_position_def)
next
  case False
  then have "int ` {0..<n} \<noteq> {}" by simp
  with assms have "{r \<in> set rows. grp r = g} \<noteq> {}" by (metis image_is_empty)
  then have "filter (\<lambda>r. grp r = g) rows \<noteq> []" by (auto simp: filter_empty_conv)
  then have "end_position grp pos g rows = Max (int ` {0..<n}) + 1"
    by (simp add: end_position_Max assms)
  also have "Max (int ` {0..<n}) = int n - 1"
    using False by (intro Max_eqI) (auto intro: rev_image_eqI [of "n - 1"])
  finally show ?thesis by simp
qed

lemma find_append:
  "List.find P (xs @ ys) = (case List.find P xs of Some x \<Rightarrow> Some x | None \<Rightarrow> List.find P ys)"
  by (induction xs) auto

lemma map_update_where: "(\<And>r. h (f r) = h r) \<Longrightarrow> map h (update_where P f rows) = map h rows"
  by (simp add: update_where_def)

locale keyed =
  fixes key :: "'r \<Rightarrow> int" and set_key :: "int \<Rightarrow> 'r \<Rightarrow> 'r"
  assumes key_set_key: "key (set_key i r) = i"
begin

lemma insert_keys: "map key (insert_row key set_key r rows) = map key rows @ [next_id key rows]"
  by (simp add: insert_row_def key_set_key)

lemma distinct_insert:
  "distinct (map key rows) \<Longrightarrow> distinct (map key (insert_row key set_key r rows))"
  by (simp add: insert_keys next_id_notin)

lemma lookup_insert:
  "lookup key (next_id key rows) (insert_row key set_key r rows) = Some (set_key (next_id key rows) r)"
proof -
  have "List.find (\<lambda>r. key r = next_id key rows) rows = None"
    using next_id_notin [of key rows] by (force simp: find_None_iff)
  then show ?thesis
    by (simp add: lookup_def insert_row_def key_set_key find_append)
qed

lemma lookup_insert_old:
  "lookup key i rows = Some r \<Longrightarrow> lookup key i (insert_row key set_key x rows) = Some r"
  by (simp add: lookup_def insert_row_def find_append)

lemma set_insert: "set (insert_row key set_key r rows) = insert (set_key (next_id key rows) r) (set rows)"
  by (simp add: insert_row_def)

lemma lookup_update:
  assumes "\<And>r. key (f r) = key r"
  shows "lookup key i (update_where P f rows) =
         map_option (\<lambda>r. if P r then f r else r) (lookup key i rows)"
  using assms by (induction rows) (auto simp: lookup_def update_where_def)

lemma distinct_update:
  "(\<And>r. key (f r) = key r) \<Longrightarrow> distinct (map key (update_where P f rows)) = distinct (map key rows)"
  by (simp add: map_update_where)

lemma lookup_delete:
  "lookup key i (filter P rows) = Some r \<Longrightarrow> distinct (map key rows) \<Longrightarrow> lookup key i rows = Some r"
  by (auto simp: lookup_eq distinct_map_filter)

end

end
