(* ===== verification/Store_Schema.thy ===== *)
theory Store_Schema
  imports Engine_Validation Row_Tables
begin

text \<open>
  The SQLite store: its tables (\<open>schema.sql\<close>), the statements \<open>board-core/src/db\<close> issues,
  with the constraint that refuses each, and the invariant the constraints maintain. Rows hold
  the decoded values of \<open>rows.rs\<close> (enums instead of their text). \<open>db_now\<close> is
  \<open>datetime('now')\<close>, \<open>db_fault\<close> is the lifecycle fault hook of crash tests. A statement that
  violates a constraint fails and changes nothing; a failed unit of work is rolled back by
  \<open>transaction\<close>.
\<close>

section \<open>Tables\<close>

record project_row =
  pr_id :: int
  pr_scope_path :: "string option"
  pr_archived_at :: "string option"

record board_row =
  br_id :: int
  br_project_id :: int
  br_name :: string
  br_archived_at :: "string option"

datatype lifecycle_fault_point =
    EnqueueAfterRunInsert
  | PromoteAfterRunUpdate
  | FinalizeAfterRunUpdate
  | CaptureAfterRunUpdate

record db =
  db_projects :: "project_row list"
  db_boards :: "board_row list"
  db_columns :: "column list"
  db_cards :: "card list"
  db_comments :: "comment list"
  db_history :: "comment_history list"
  db_runs :: "run list"
  db_selection :: "int option"
  db_board_selection :: "(int \<times> int) list"
  db_project_recents :: "(int \<times> int) list"
  db_board_recents :: "(int \<times> int \<times> int) list"
  db_now :: string
  db_fault :: "lifecycle_fault_point \<Rightarrow> error option"

type_synonym 'a store = "(db, error, 'a) tx"

definition set_cd_id :: "int \<Rightarrow> card \<Rightarrow> card" where "set_cd_id i c = c\<lparr>cd_id := i\<rparr>"
definition set_col_id :: "int \<Rightarrow> column \<Rightarrow> column" where "set_col_id i c = c\<lparr>col_id := i\<rparr>"
definition set_rn_id :: "int \<Rightarrow> run \<Rightarrow> run" where "set_rn_id i r = r\<lparr>rn_id := i\<rparr>"
definition set_cm_id :: "int \<Rightarrow> comment \<Rightarrow> comment" where "set_cm_id i c = c\<lparr>cm_id := i\<rparr>"
definition set_ch_id :: "int \<Rightarrow> comment_history \<Rightarrow> comment_history" where "set_ch_id i c = c\<lparr>ch_id := i\<rparr>"
definition set_br_id :: "int \<Rightarrow> board_row \<Rightarrow> board_row" where "set_br_id i b = b\<lparr>br_id := i\<rparr>"
definition set_pr_id :: "int \<Rightarrow> project_row \<Rightarrow> project_row" where "set_pr_id i b = b\<lparr>pr_id := i\<rparr>"
definition set_cd_pos :: "int \<Rightarrow> card \<Rightarrow> card" where "set_cd_pos p c = c\<lparr>cd_position := p\<rparr>"
definition set_col_pos :: "int \<Rightarrow> column \<Rightarrow> column" where "set_col_pos p c = c\<lparr>col_position := p\<rparr>"

lemmas set_id_defs = set_cd_id_def set_col_id_def set_rn_id_def set_cm_id_def set_ch_id_def
  set_br_id_def set_pr_id_def set_cd_pos_def set_col_pos_def

interpretation cards_t: keyed cd_id set_cd_id by unfold_locales (simp add: set_id_defs)
interpretation columns_t: keyed col_id set_col_id by unfold_locales (simp add: set_id_defs)
interpretation runs_t: keyed rn_id set_rn_id by unfold_locales (simp add: set_id_defs)
interpretation comments_t: keyed cm_id set_cm_id by unfold_locales (simp add: set_id_defs)
interpretation history_t: keyed ch_id set_ch_id by unfold_locales (simp add: set_id_defs)
interpretation boards_t: keyed br_id set_br_id by unfold_locales (simp add: set_id_defs)
interpretation projects_t: keyed pr_id set_pr_id by unfold_locales (simp add: set_id_defs)

interpretation card_lane: positioned cd_id cd_column_id cd_position set_cd_pos
  by unfold_locales (simp_all add: set_id_defs)

interpretation column_lane: positioned col_id col_board_id col_position set_col_pos
  by unfold_locales (simp_all add: set_id_defs)

definition column_cards :: "db \<Rightarrow> int \<Rightarrow> card list" where
  "column_cards s i = lane cd_id cd_column_id cd_position i (db_cards s)"

definition board_columns :: "db \<Rightarrow> int \<Rightarrow> column list" where
  "board_columns s i = lane col_id col_board_id col_position i (db_columns s)"

section \<open>Constraints\<close>

text \<open>What the schema says of each table; the statements below refuse to leave it.\<close>

definition open_run :: "run \<Rightarrow> bool" where "open_run r \<longleftrightarrow> rn_ended_at r = None"

definition card_check :: "card \<Rightarrow> bool" where
  "card_check c \<longleftrightarrow> (cd_status c = Awaiting) = (cd_awaiting_reason c \<noteq> None)"

definition card_fk :: "db \<Rightarrow> card \<Rightarrow> bool" where
  "card_fk s c \<longleftrightarrow> cd_board_id c \<in> br_id ` set (db_boards s) \<and> cd_column_id c \<in> col_id ` set (db_columns s)"

definition run_fk :: "db \<Rightarrow> run \<Rightarrow> bool" where
  "run_fk s r \<longleftrightarrow> rn_card_id r \<in> cd_id ` set (db_cards s) \<and> rn_column_id r \<in> col_id ` set (db_columns s)"

definition opt_in :: "'a option \<Rightarrow> 'a set \<Rightarrow> bool" where
  "opt_in v A \<longleftrightarrow> (case v of None \<Rightarrow> True | Some x \<Rightarrow> x \<in> A)"

definition column_fk :: "db \<Rightarrow> column \<Rightarrow> bool" where
  "column_fk s c \<longleftrightarrow> col_board_id c \<in> br_id ` set (db_boards s)"

definition column_targets_fk :: "column list \<Rightarrow> bool" where
  "column_targets_fk cols \<longleftrightarrow>
     (\<forall>c \<in> set cols. opt_in (col_on_success c) (col_id ` set cols) \<and> opt_in (col_on_fail c) (col_id ` set cols))"

definition schema_ok :: "db \<Rightarrow> bool" where
  "schema_ok s \<longleftrightarrow>
     distinct (map pr_id (db_projects s)) \<and> distinct (map br_id (db_boards s)) \<and>
     distinct (map col_id (db_columns s)) \<and> distinct (map cd_id (db_cards s)) \<and>
     distinct (map rn_id (db_runs s)) \<and> distinct (map cm_id (db_comments s)) \<and>
     distinct (map ch_id (db_history s)) \<and>
     (\<forall>b \<in> set (db_boards s). br_project_id b \<in> pr_id ` set (db_projects s)) \<and>
     distinct (map (\<lambda>b. (br_project_id b, ascii_lower (br_name b))) (db_boards s)) \<and>
     distinct (map (\<lambda>c. (col_board_id c, col_name c)) (db_columns s)) \<and>
     (\<forall>c \<in> set (db_columns s). column_fk s c) \<and> column_targets_fk (db_columns s) \<and>
     (\<forall>c \<in> set (db_cards s). card_fk s c \<and> card_check c) \<and>
     (\<forall>r \<in> set (db_runs s). run_fk s r) \<and>
     distinct (map rn_card_id (filter open_run (db_runs s))) \<and>
     (\<forall>m \<in> set (db_comments s). cm_card_id m \<in> cd_id ` set (db_cards s))"

lemma schema_okD:
  assumes "schema_ok s"
  shows "distinct (map br_id (db_boards s))" "distinct (map col_id (db_columns s))"
    "distinct (map cd_id (db_cards s))" "distinct (map rn_id (db_runs s))"
    "distinct (map cm_id (db_comments s))"
    "distinct (map rn_card_id (filter open_run (db_runs s)))"
  using assms by (simp_all add: schema_ok_def)

section \<open>Statements\<close>

definition insert_card :: "card \<Rightarrow> int store" where
  "insert_card c s =
     (if \<not> card_check c then (Inl (Sqlite CheckViolation), s)
      else if \<not> card_fk s c then (Inl (Sqlite ForeignKeyViolation), s)
      else (Inr (next_id cd_id (db_cards s)),
            s\<lparr>db_cards := insert_row cd_id set_cd_id c (db_cards s)\<rparr>))"

definition update_cards :: "(card \<Rightarrow> bool) \<Rightarrow> (card \<Rightarrow> card) \<Rightarrow> nat store" where
  \<comment> \<open>the number of rows changed; no statement of the store writes the key\<close>
  "update_cards P f s =
     (let g = (\<lambda>c. (f c)\<lparr>cd_id := cd_id c\<rparr>);
          hit = filter P (db_cards s)
      in if \<not> list_all (\<lambda>c. card_check (g c)) hit then (Inl (Sqlite CheckViolation), s)
         else if \<not> list_all (\<lambda>c. card_fk s (g c)) hit then (Inl (Sqlite ForeignKeyViolation), s)
         else (Inr (length hit), s\<lparr>db_cards := update_where P g (db_cards s)\<rparr>))"

definition delete_card_row :: "int \<Rightarrow> unit store" where
  \<comment> \<open>comments, their history and the runs go with the card (\<open>ON DELETE CASCADE\<close>)\<close>
  "delete_card_row i s =
     (Inr (), s\<lparr>db_cards := filter (\<lambda>c. cd_id c \<noteq> i) (db_cards s),
                db_comments := filter (\<lambda>m. cm_card_id m \<noteq> i) (db_comments s),
                db_history := filter (\<lambda>h. ch_card_id h \<noteq> i \<and>
                    \<not> (\<exists>m \<in> set (db_comments s). cm_id m = ch_comment_id h \<and> cm_card_id m = i)) (db_history s),
                db_runs := filter (\<lambda>r. rn_card_id r \<noteq> i) (db_runs s)\<rparr>)"

definition insert_run :: "run \<Rightarrow> int store" where
  "insert_run r s =
     (if open_run r \<and> rn_card_id r \<in> rn_card_id ` set (filter open_run (db_runs s))
      then (Inl (Sqlite UniqueViolation), s)
      else if \<not> run_fk s r then (Inl (Sqlite ForeignKeyViolation), s)
      else (Inr (next_id rn_id (db_runs s)),
            s\<lparr>db_runs := insert_row rn_id set_rn_id r (db_runs s)\<rparr>))"

definition update_runs :: "(run \<Rightarrow> bool) \<Rightarrow> (run \<Rightarrow> run) \<Rightarrow> nat store" where
  \<comment> \<open>no statement of the store writes the key or the references of a run, or reopens one\<close>
  "update_runs P f s =
     (let g = (\<lambda>r. (f r)\<lparr>rn_id := rn_id r, rn_card_id := rn_card_id r, rn_column_id := rn_column_id r,
                         rn_ended_at := (case rn_ended_at (f r) of None \<Rightarrow> rn_ended_at r | Some t \<Rightarrow> Some t)\<rparr>)
      in (Inr (length (filter P (db_runs s))), s\<lparr>db_runs := update_where P g (db_runs s)\<rparr>))"

definition insert_column :: "column \<Rightarrow> int store" where
  "insert_column c s =
     (if (col_board_id c, col_name c) \<in> (\<lambda>c. (col_board_id c, col_name c)) ` set (db_columns s)
      then (Inl (Sqlite UniqueViolation), s)
      else let rows = insert_row col_id set_col_id c (db_columns s)
      in if \<not> column_fk s c \<or> \<not> column_targets_fk rows then (Inl (Sqlite ForeignKeyViolation), s)
         else (Inr (next_id col_id (db_columns s)), s\<lparr>db_columns := rows\<rparr>))"

definition update_columns :: "(column \<Rightarrow> bool) \<Rightarrow> (column \<Rightarrow> column) \<Rightarrow> nat store" where
  \<comment> \<open>no statement of the store writes the key or the board of a column\<close>
  "update_columns P f s =
     (let g = (\<lambda>c. (f c)\<lparr>col_id := col_id c, col_board_id := col_board_id c\<rparr>);
          rows = update_where P g (db_columns s)
      in if \<not> distinct (map (\<lambda>c. (col_board_id c, col_name c)) rows)
         then (Inl (Sqlite UniqueViolation), s)
         else if \<not> column_targets_fk rows then (Inl (Sqlite ForeignKeyViolation), s)
         else (Inr (length (filter P (db_columns s))), s\<lparr>db_columns := rows\<rparr>))"

definition forget_target :: "int \<Rightarrow> int option \<Rightarrow> int option" where
  "forget_target i v = (if v = Some i then None else v)"

definition delete_column_row :: "int \<Rightarrow> unit store" where
  \<comment> \<open>cards and runs that reference the column forbid it; transition targets become NULL\<close>
  "delete_column_row i s =
     (if i \<in> cd_column_id ` set (db_cards s) \<or> i \<in> rn_column_id ` set (db_runs s)
      then (Inl (Sqlite ForeignKeyViolation), s)
      else (Inr (), s\<lparr>db_columns :=
              map (\<lambda>c. c\<lparr>col_on_success := forget_target i (col_on_success c),
                         col_on_fail := forget_target i (col_on_fail c)\<rparr>)
                  (filter (\<lambda>c. col_id c \<noteq> i) (db_columns s))\<rparr>))"

definition insert_comment :: "int \<Rightarrow> string \<Rightarrow> string \<Rightarrow> int store" where
  \<comment> \<open>with the trigger \<open>comments_audit_insert\<close>\<close>
  "insert_comment card_id author body s =
     (if card_id \<notin> cd_id ` set (db_cards s) then (Inl (Sqlite ForeignKeyViolation), s)
      else let i = next_id cm_id (db_comments s) in
        (Inr i,
         s\<lparr>db_comments := insert_row cm_id set_cm_id
               \<lparr>cm_id = 0, cm_card_id = card_id, cm_author = author, cm_body = body,
                cm_created_at = db_now s, cm_deleted_at = None\<rparr> (db_comments s),
           db_history := insert_row ch_id set_ch_id
               \<lparr>ch_id = 0, ch_comment_id = i, ch_card_id = card_id, ch_author = author, ch_body = body,
                ch_created_at = db_now s, ch_deleted_at = None\<rparr> (db_history s)\<rparr>))"

definition update_comments :: "(comment \<Rightarrow> bool) \<Rightarrow> (comment \<Rightarrow> comment) \<Rightarrow> nat store" where
  "update_comments P f s =
     (Inr (length (filter P (db_comments s))),
      s\<lparr>db_comments := update_where P
           (\<lambda>m. (f m)\<lparr>cm_id := cm_id m, cm_card_id := cm_card_id m\<rparr>) (db_comments s)\<rparr>)"

definition insert_history :: "comment_history \<Rightarrow> int store" where
  "insert_history h s =
     (if ch_comment_id h \<notin> cm_id ` set (db_comments s) \<or> ch_card_id h \<notin> cd_id ` set (db_cards s)
      then (Inl (Sqlite ForeignKeyViolation), s)
      else (Inr (next_id ch_id (db_history s)),
            s\<lparr>db_history := insert_row ch_id set_ch_id h (db_history s)\<rparr>))"

definition update_history :: "(comment_history \<Rightarrow> bool) \<Rightarrow> (comment_history \<Rightarrow> comment_history) \<Rightarrow> unit store" where
  "update_history P f s =
     (Inr (), s\<lparr>db_history := update_where P (\<lambda>h. (f h)\<lparr>ch_id := ch_id h\<rparr>) (db_history s)\<rparr>)"

definition lifecycle_fault :: "lifecycle_fault_point \<Rightarrow> unit store" where
  "lifecycle_fault p = queryT (\<lambda>s. case db_fault s p of None \<Rightarrow> Inr () | Some e \<Rightarrow> Inl e)"

definition reject_duplicate :: "'a store \<Rightarrow> message \<Rightarrow> 'a store" where
  "reject_duplicate m dup s =
     (case m s of (Inl e, s') \<Rightarrow> (Inl (if e = Sqlite UniqueViolation then BadRequest dup else e), s')
      | (Inr x, s') \<Rightarrow> (Inr x, s'))"

definition duplicate_column :: "string \<Rightarrow> message" where
  "duplicate_column name = [T ''column '', D name, T '' already exists on this board; pick another name'']"

definition duplicate_board :: "string \<Rightarrow> message" where
  "duplicate_board name = [T ''board '', D name, T '' already exists in this project; pick another name'']"

section \<open>Lookups\<close>

definition require :: "message \<Rightarrow> (db \<Rightarrow> 'a option) \<Rightarrow> 'a store" where
  "require what f = queryT (\<lambda>s. ok_or (NotFound what) (f s))"

definition find_card :: "db \<Rightarrow> int \<Rightarrow> card option" where
  "find_card s i = lookup cd_id i (db_cards s)"

definition get_card :: "int \<Rightarrow> card option store" where
  "get_card i = readT (\<lambda>s. find_card s i)"

definition require_card :: "int \<Rightarrow> card store" where
  "require_card i = require [T ''card '', N i] (\<lambda>s. find_card s i)"

definition find_column :: "db \<Rightarrow> int \<Rightarrow> column option" where
  "find_column s i = lookup col_id i (db_columns s)"

definition require_column :: "int \<Rightarrow> column store" where
  "require_column i = require [T ''column '', N i] (\<lambda>s. find_column s i)"

definition find_run :: "db \<Rightarrow> int \<Rightarrow> run option" where
  "find_run s i = lookup rn_id i (db_runs s)"

definition get_run :: "int \<Rightarrow> run store" where
  "get_run i = require [T ''run '', N i] (\<lambda>s. find_run s i)"

fun split_on :: "char \<Rightarrow> string \<Rightarrow> string list" where
  "split_on d [] = [[]]"
| "split_on d (c # cs) = (if c = d then [] # split_on d cs
                          else (c # hd (split_on d cs)) # tl (split_on d cs))"

definition file_name :: "string \<Rightarrow> string option" where
  \<comment> \<open>\<open>Path::file_name\<close>: the last component when it is a normal one\<close>
  "file_name path =
     (let comps = filter (\<lambda>c. c \<noteq> [] \<and> c \<noteq> ''.'') (split_on (CHR ''/'') path)
      in if comps = [] \<or> last comps = ''..'' then None else Some (last comps))"

definition display_name :: "string option \<Rightarrow> string" where
  "display_name scope_path =
     (case scope_path of None \<Rightarrow> ''Global''
      | Some path \<Rightarrow> (case file_name path of Some n \<Rightarrow> n | None \<Rightarrow> path))"

definition row_to_project :: "project_row \<Rightarrow> project" where
  "row_to_project p =
     \<lparr>pj_id = pr_id p, pj_name = display_name (pr_scope_path p), pj_scope_path = pr_scope_path p,
      pj_archived_at = pr_archived_at p\<rparr>"

definition row_to_board :: "db \<Rightarrow> board_row \<Rightarrow> board option" where
  \<comment> \<open>the join with \<open>projects\<close>\<close>
  "row_to_board s b =
     map_option (\<lambda>p. \<lparr>bd_id = br_id b, bd_project_id = br_project_id b, bd_name = br_name b,
                      bd_scope_path = pr_scope_path p, bd_archived_at = br_archived_at b\<rparr>)
       (lookup pr_id (br_project_id b) (db_projects s))"

definition find_board :: "db \<Rightarrow> int \<Rightarrow> board option" where
  "find_board s i = Option.bind (lookup br_id i (db_boards s)) (row_to_board s)"

definition get_board :: "int \<Rightarrow> board store" where
  "get_board i = require [T ''board '', N i] (\<lambda>s. find_board s i)"

definition find_project :: "db \<Rightarrow> int \<Rightarrow> project option" where
  "find_project s i = map_option row_to_project (lookup pr_id i (db_projects s))"

definition get_project :: "int \<Rightarrow> project store" where
  "get_project i = require [T ''project '', N i] (\<lambda>s. find_project s i)"

lemma require_ok_iff: "require w f s = (Inr x, t) \<longleftrightarrow> f s = Some x \<and> t = s"
  by (auto simp: require_def queryT_def ok_or_def split: option.splits)

lemmas lookup_ops = require_card_def require_column_def get_run_def get_board_def get_project_def get_card_def

lemma readonly_lookups [simp]:
  "readonly (require w f)" "readonly (require_card i)" "readonly (require_column i)"
  "readonly (get_run i)" "readonly (get_board i)" "readonly (get_project i)" "readonly (get_card i)"
  "readonly (lifecycle_fault p)"
  by (simp_all add: require_def lookup_ops lifecycle_fault_def)

lemma lookup_ok_iff:
  "require_card i s = (Inr c, t) \<longleftrightarrow> find_card s i = Some c \<and> t = s"
  "require_column i s = (Inr k, t) \<longleftrightarrow> find_column s i = Some k \<and> t = s"
  "get_run i s = (Inr r, t) \<longleftrightarrow> find_run s i = Some r \<and> t = s"
  "get_board i s = (Inr b, t) \<longleftrightarrow> find_board s i = Some b \<and> t = s"
  "get_project i s = (Inr p, t) \<longleftrightarrow> find_project s i = Some p \<and> t = s"
  "get_card i s = (Inr v, t) \<longleftrightarrow> v = find_card s i \<and> t = s"
  by (auto simp: lookup_ops require_ok_iff readT_def)

lemma lifecycle_fault_ok_iff: "lifecycle_fault p s = (Inr x, t) \<longleftrightarrow> db_fault s p = None \<and> t = s"
  by (auto simp: lifecycle_fault_def queryT_def split: option.splits)

end
