(* ===== verification/Store_Invariant.thy ===== *)
theory Store_Invariant
  imports Store_Schema
begin

text \<open>
  Every statement of the store keeps the schema invariant \<open>schema_ok\<close>, whatever its arguments
  and whether or not it succeeds. The rules are in \<open>tx_keeps\<close>, so an operation composed of
  statements keeps it by \<open>intro tx_keeps\<close>.
\<close>

lemma image_update_where: "(\<And>r. h (f r) = h r) \<Longrightarrow> h ` set (update_where P f rows) = h ` set rows"
  using map_update_where [of h f P rows] by (metis list.set_map)

lemma ball_update_where:
  "(\<forall>r \<in> set (update_where P f rows). Q r) \<longleftrightarrow> (\<forall>r \<in> set rows. Q (if P r then f r else r))"
  by (auto simp: update_where_def)

lemma keeps_insert_card [tx_keeps]: "keeps schema_ok (insert_card c)"
  unfolding keeps_def
proof (intro allI impI)
  fix s assume s: "schema_ok s"
  show "schema_ok (snd (insert_card c s))"
  proof (cases "card_check c \<and> card_fk s c")
    case True
    then show ?thesis
      using s cards_t.distinct_insert [of "db_cards s" c]
      by (auto simp: insert_card_def schema_ok_def cards_t.set_insert card_fk_def card_check_def
          run_fk_def column_fk_def set_id_defs)
  next
    case False
    with s show ?thesis by (auto simp: insert_card_def)
  qed
qed

lemma keeps_update_cards [tx_keeps]: "keeps schema_ok (update_cards P f)"
  unfolding keeps_def
proof (intro allI impI)
  fix s assume s: "schema_ok s"
  let ?g = "\<lambda>c. (f c)\<lparr>cd_id := cd_id c\<rparr>"
  show "schema_ok (snd (update_cards P f s))"
  proof (cases "list_all (\<lambda>c. card_check (?g c)) (filter P (db_cards s)) \<and>
                list_all (\<lambda>c. card_fk s (?g c)) (filter P (db_cards s))")
    case True
    have ids: "cd_id ` set (update_where P ?g (db_cards s)) = cd_id ` set (db_cards s)"
      by (rule image_update_where) simp
    have d: "distinct (map cd_id (update_where P ?g (db_cards s)))"
      using s by (simp add: schema_ok_def map_update_where)
    from True s d ids show ?thesis
      by (auto simp: update_cards_def Let_def schema_ok_def ball_update_where list_all_iff
          card_fk_def run_fk_def column_fk_def)
  next
    case False
    with s show ?thesis by (auto simp: update_cards_def Let_def)
  qed
qed

lemma keeps_delete_card_row [tx_keeps]: "keeps schema_ok (delete_card_row i)"
  unfolding keeps_def
proof (intro allI impI)
  fix s assume s: "schema_ok s"
  have "distinct (map rn_card_id (filter (\<lambda>r. rn_card_id r \<noteq> i) (filter open_run (db_runs s))))"
    by (rule distinct_map_filter [OF schema_okD(6) [OF s]])
  then have o: "distinct (map rn_card_id (filter (\<lambda>r. rn_card_id r \<noteq> i \<and> open_run r) (db_runs s)))"
    by (simp add: conj_commute)
  define cs where "cs = filter (\<lambda>c. cd_id c \<noteq> i) (db_cards s)"
  have ids: "cd_id ` set cs = cd_id ` set (db_cards s) - {i}" by (auto simp: cs_def)
  have sub: "set cs \<subseteq> set (db_cards s)" and d: "distinct (map cd_id cs)"
    using s by (auto simp: cs_def schema_ok_def distinct_map_filter)
  have "schema_ok (s\<lparr>db_cards := cs, db_comments := filter (\<lambda>m. cm_card_id m \<noteq> i) (db_comments s),
      db_history := filter P (db_history s), db_runs := filter (\<lambda>r. rn_card_id r \<noteq> i) (db_runs s)\<rparr>)" for P
    using s o d sub by (auto simp: schema_ok_def distinct_map_filter run_fk_def card_fk_def column_fk_def ids)
  then show "schema_ok (snd (delete_card_row i s))"
    by (simp add: delete_card_row_def cs_def)
qed

lemma keeps_insert_run [tx_keeps]: "keeps schema_ok (insert_run r)"
  unfolding keeps_def
proof (intro allI impI)
  fix s assume s: "schema_ok s"
  show "schema_ok (snd (insert_run r s))"
  proof (cases "\<not> (open_run r \<and> rn_card_id r \<in> rn_card_id ` set (filter open_run (db_runs s))) \<and> run_fk s r")
    case True
    have "open_run (set_rn_id k r) = open_run r" "rn_card_id (set_rn_id k r) = rn_card_id r"
      "rn_column_id (set_rn_id k r) = rn_column_id r" for k
      by (simp_all add: set_id_defs open_run_def)
    then show ?thesis
      using s True runs_t.distinct_insert [of "db_runs s" r]
      by (auto simp: insert_run_def schema_ok_def runs_t.set_insert run_fk_def card_fk_def column_fk_def)
         (auto simp: insert_row_def)
  next
    case False
    with s show ?thesis by (auto simp: insert_run_def)
  qed
qed

lemma keeps_update_runs [tx_keeps]: "keeps schema_ok (update_runs P f)"
  unfolding keeps_def
proof (intro allI impI)
  fix s assume s: "schema_ok s"
  let ?g = "\<lambda>r. (f r)\<lparr>rn_id := rn_id r, rn_card_id := rn_card_id r, rn_column_id := rn_column_id r,
                 rn_ended_at := (case rn_ended_at (f r) of None \<Rightarrow> rn_ended_at r | Some t \<Rightarrow> Some t)\<rparr>"
  have o: "distinct (map rn_card_id (filter open_run (update_where P ?g xs)))"
    if "distinct (map rn_card_id (filter open_run xs))" for xs
  proof -
    have sub: "set (map rn_card_id (filter open_run (update_where P ?g xs)))
               \<subseteq> set (map rn_card_id (filter open_run xs))" for xs
      by (auto simp: update_where_def open_run_def image_iff split: option.splits if_splits)
    show ?thesis using that
    proof (induction xs)
      case (Cons x xs)
      then show ?case using sub [of xs]
        by (auto simp: update_where_def open_run_def split: option.splits if_splits)
    qed (simp add: update_where_def)
  qed
  have d: "distinct (map rn_id (update_where P ?g (db_runs s)))"
    using s by (simp add: schema_ok_def map_update_where)
  have fk: "\<forall>r \<in> set (update_where P ?g (db_runs s)). run_fk s r"
    using s by (simp add: schema_ok_def ball_update_where run_fk_def)
  have "run_fk (s\<lparr>db_runs := x\<rparr>) r = run_fk s r" "card_fk (s\<lparr>db_runs := x\<rparr>) c = card_fk s c"
    "column_fk (s\<lparr>db_runs := x\<rparr>) k = column_fk s k" for x r c k
    by (simp_all add: run_fk_def card_fk_def column_fk_def)
  then show "schema_ok (snd (update_runs P f s))"
    using s d fk o [OF schema_okD(6) [OF s]]
    by (simp add: update_runs_def Let_def schema_ok_def)
qed

lemma keeps_insert_column [tx_keeps]: "keeps schema_ok (insert_column c)"
  unfolding keeps_def
proof (intro allI impI)
  fix s assume s: "schema_ok s"
  let ?rows = "insert_row col_id set_col_id c (db_columns s)"
  show "schema_ok (snd (insert_column c s))"
  proof (cases "(col_board_id c, col_name c) \<notin> (\<lambda>c. (col_board_id c, col_name c)) ` set (db_columns s) \<and>
      column_fk s c \<and> column_targets_fk ?rows")
    case True
    have u: "distinct (map (\<lambda>c. (col_board_id c, col_name c)) ?rows)"
      using s True by (simp add: insert_row_def schema_ok_def set_id_defs)
    have sub: "col_id ` set (db_columns s) \<subseteq> col_id ` set ?rows"
      by (auto simp: insert_row_def)
    have e: "(\<forall>x \<in> set (db_cards s). card_fk (s\<lparr>db_columns := ?rows\<rparr>) x \<and> card_check x) \<and>
        (\<forall>r \<in> set (db_runs s). run_fk (s\<lparr>db_columns := ?rows\<rparr>) r) \<and>
        (\<forall>x \<in> set ?rows. column_fk (s\<lparr>db_columns := ?rows\<rparr>) x)"
      using s True sub
      by (auto simp: schema_ok_def card_fk_def run_fk_def column_fk_def columns_t.set_insert set_id_defs)
    show ?thesis
      using s True u e columns_t.distinct_insert [of "db_columns s" c]
      by (simp add: insert_column_def Let_def schema_ok_def)
  next
    case False
    with s show ?thesis by (auto simp: insert_column_def Let_def)
  qed
qed

lemma keeps_update_columns [tx_keeps]: "keeps schema_ok (update_columns P f)"
  unfolding keeps_def
proof (intro allI impI)
  fix s assume s: "schema_ok s"
  let ?g = "\<lambda>c. (f c)\<lparr>col_id := col_id c, col_board_id := col_board_id c\<rparr>"
  let ?rows = "update_where P ?g (db_columns s)"
  show "schema_ok (snd (update_columns P f s))"
  proof (cases "distinct (map (\<lambda>c. (col_board_id c, col_name c)) ?rows) \<and> column_targets_fk ?rows")
    case True
    have ids: "col_id ` set ?rows = col_id ` set (db_columns s)"
      by (rule image_update_where) simp
    have d: "distinct (map col_id ?rows)"
      using s by (simp add: schema_ok_def map_update_where)
    have fk: "\<forall>x \<in> set ?rows. column_fk s x"
      using s by (simp add: schema_ok_def ball_update_where column_fk_def)
    have "run_fk (s\<lparr>db_columns := ?rows\<rparr>) r = run_fk s r" "card_fk (s\<lparr>db_columns := ?rows\<rparr>) c = card_fk s c"
      "column_fk (s\<lparr>db_columns := ?rows\<rparr>) k = column_fk s k" for r c k
      using ids by (simp_all add: run_fk_def card_fk_def column_fk_def)
    then show ?thesis
      using s True d fk by (simp add: update_columns_def Let_def schema_ok_def)
  next
    case False
    with s show ?thesis by (auto simp: update_columns_def Let_def)
  qed
qed

lemma forget_opt_in: "opt_in v A \<Longrightarrow> opt_in (forget_target i v) (A - {i})"
  by (auto simp: opt_in_def forget_target_def split: option.splits if_splits)

lemma keeps_delete_column_row [tx_keeps]: "keeps schema_ok (delete_column_row i)"
  unfolding keeps_def
proof (intro allI impI)
  fix s assume s: "schema_ok s"
  let ?f = "\<lambda>c. c\<lparr>col_on_success := forget_target i (col_on_success c), col_on_fail := forget_target i (col_on_fail c)\<rparr>"
  let ?rows = "map ?f (filter (\<lambda>c. col_id c \<noteq> i) (db_columns s))"
  show "schema_ok (snd (delete_column_row i s))"
  proof (cases "i \<in> cd_column_id ` set (db_cards s) \<or> i \<in> rn_column_id ` set (db_runs s)")
    case False
    have k: "map h ?rows = map h (filter (\<lambda>c. col_id c \<noteq> i) (db_columns s))"
      if "\<And>c. h (?f c) = h c" for h :: "column \<Rightarrow> 'x" using that by simp
    have ids: "col_id ` set ?rows = col_id ` set (db_columns s) - {i}" by (auto simp: image_iff)
    have d: "distinct (map col_id ?rows)" "distinct (map (\<lambda>c. (col_board_id c, col_name c)) ?rows)"
      using s by (simp_all add: schema_ok_def o_def distinct_map_filter)
    have t: "column_targets_fk ?rows"
      using s unfolding column_targets_fk_def ids
      by (auto simp: schema_ok_def column_targets_fk_def intro!: forget_opt_in)
    have b: "\<forall>x \<in> set ?rows. column_fk s x"
      using s by (auto simp: schema_ok_def column_fk_def)
    have "schema_ok (s\<lparr>db_columns := rows\<rparr>)" if "rows = ?rows" for rows
      using s False d t b ids unfolding that [symmetric]
      by (auto simp: schema_ok_def card_fk_def run_fk_def column_fk_def)
    then show ?thesis
      using False by (simp add: delete_column_row_def)
  next
    case True
    with s show ?thesis by (simp add: delete_column_row_def)
  qed
qed

lemma keeps_insert_comment [tx_keeps]: "keeps schema_ok (insert_comment c a b)"
  unfolding keeps_def
  using comments_t.distinct_insert history_t.distinct_insert
  by (auto simp: insert_comment_def Let_def schema_ok_def comments_t.set_insert
      card_fk_def run_fk_def column_fk_def set_id_defs)

lemma keeps_update_comments [tx_keeps]: "keeps schema_ok (update_comments P f)"
  unfolding keeps_def
  by (simp add: update_comments_def schema_ok_def map_update_where ball_update_where
      card_fk_def run_fk_def column_fk_def)

lemma keeps_insert_history [tx_keeps]: "keeps schema_ok (insert_history h)"
  unfolding keeps_def using history_t.distinct_insert
  by (simp add: insert_history_def schema_ok_def card_fk_def run_fk_def column_fk_def)

lemma keeps_update_history [tx_keeps]: "keeps schema_ok (update_history P f)"
  unfolding keeps_def
  by (simp add: update_history_def schema_ok_def map_update_where
      card_fk_def run_fk_def column_fk_def)

lemma keeps_reject_duplicate [tx_keeps]: "keeps P m \<Longrightarrow> keeps P (reject_duplicate m dup)"
  unfolding keeps_def reject_duplicate_def
  by (fastforce split: prod.splits sum.splits dest: arg_cong [where f = snd])

lemma keeps_lookups [tx_keeps]:
  "keeps P (require w f)" "keeps P (require_card i)" "keeps P (require_column i)"
  "keeps P (get_run i)" "keeps P (get_board i)" "keeps P (get_project i)" "keeps P (get_card i)"
  "keeps P (lifecycle_fault p)"
  by (simp_all add: keeps_readonly)

lemma keeps_if [tx_keeps]: "(b \<Longrightarrow> keeps P m) \<Longrightarrow> (\<not> b \<Longrightarrow> keeps P k) \<Longrightarrow> keeps P (if b then m else k)"
  by simp

lemma keeps_case_option [tx_keeps]:
  "(v = None \<Longrightarrow> keeps P m) \<Longrightarrow> (\<And>x. v = Some x \<Longrightarrow> keeps P (k x)) \<Longrightarrow>
   keeps P (case v of None \<Rightarrow> m | Some x \<Rightarrow> k x)"
  by (cases v) simp_all

end
