(* ===== verification/Store_Place.thy ===== *)
theory Store_Place
  imports Store_Invariant
begin

text \<open>
  Ordering of cards inside columns (\<open>place_card_in_column_tx\<close>, \<open>renumber_column_cards_tx\<close>) and
  of columns inside boards, as the loops of \<open>UPDATE\<close> statements the store runs, with their
  refinement: the order of a column is a list of card ids, placing a card inserts its id into
  the list, and the stored positions are always \<open>0 .. n-1\<close>.
\<close>

section \<open>Statements\<close>

fun number_cards :: "int \<Rightarrow> int list \<Rightarrow> unit store" where
  "number_cards p [] = returnT ()"
| "number_cards p (i # is) =
     thenT (update_cards (\<lambda>c. cd_id c = i) (set_cd_pos p)) (number_cards (p + 1) is)"

fun number_columns :: "int \<Rightarrow> int list \<Rightarrow> unit store" where
  "number_columns p [] = returnT ()"
| "number_columns p (i # is) =
     thenT (update_columns (\<lambda>c. col_id c = i) (set_col_pos p)) (number_columns (p + 1) is)"

definition other_cards :: "db \<Rightarrow> int \<Rightarrow> int \<Rightarrow> int list" where
  \<comment> \<open>\<open>SELECT id FROM cards WHERE column_id=? AND id<>? ORDER BY position, id\<close>\<close>
  "other_cards s col i =
     map cd_id (lane cd_id cd_column_id cd_position col (filter (\<lambda>c. cd_id c \<noteq> i) (db_cards s)))"

definition insert_index :: "int option \<Rightarrow> nat \<Rightarrow> nat" where
  "insert_index position len =
     min (case position of Some p \<Rightarrow> nat (max p 0) | None \<Rightarrow> len) len"

definition place_card_in_column :: "int \<Rightarrow> int \<Rightarrow> int option \<Rightarrow> unit store" where
  "place_card_in_column i target_column position =
     bindT (readT (\<lambda>s. other_cards s target_column i))
       (\<lambda>ids. number_cards 0 (insert_at (insert_index position (length ids)) i ids))"

definition renumber_column_cards :: "int \<Rightarrow> unit store" where
  "renumber_column_cards col =
     bindT (readT (\<lambda>s. map cd_id (column_cards s col))) (number_cards 0)"

section \<open>The loops are \<open>renumber\<close>\<close>

lemma number_cards_eq:
  "schema_ok s \<Longrightarrow>
   number_cards p is s = (Inr (), s\<lparr>db_cards := renumber cd_id set_cd_pos p is (db_cards s)\<rparr>)"
proof (induction "is" arbitrary: p s)
  case Nil
  then show ?case by (simp add: returnT_def)
next
  case (Cons i "is")
  let ?s = "s\<lparr>db_cards := set_row_pos cd_id set_cd_pos i p (db_cards s)\<rparr>"
  have g: "(\<lambda>c. (set_cd_pos p c)\<lparr>cd_id := cd_id c\<rparr>) = set_cd_pos p"
    by (simp add: fun_eq_iff set_cd_pos_def)
  have "list_all (\<lambda>c. card_check (set_cd_pos p c)) (filter (\<lambda>c. cd_id c = i) (db_cards s))"
    "list_all (\<lambda>c. card_fk s (set_cd_pos p c)) (filter (\<lambda>c. cd_id c = i) (db_cards s))"
    using Cons.prems by (auto simp: schema_ok_def list_all_iff card_check_def card_fk_def set_cd_pos_def)
  then have u: "update_cards (\<lambda>c. cd_id c = i) (set_cd_pos p) s =
      (Inr (length (filter (\<lambda>c. cd_id c = i) (db_cards s))), ?s)"
    by (simp add: update_cards_def Let_def g update_where_def set_row_pos_def)
  have "schema_ok ?s"
    using keepsD [OF keeps_update_cards Cons.prems u] .
  from Cons.IH [OF this] show ?case
    by (simp add: thenT_def bindT_def u)
qed

lemma number_columns_eq:
  "schema_ok s \<Longrightarrow>
   number_columns p is s = (Inr (), s\<lparr>db_columns := renumber col_id set_col_pos p is (db_columns s)\<rparr>)"
proof (induction "is" arbitrary: p s)
  case Nil
  then show ?case by (simp add: returnT_def)
next
  case (Cons i "is")
  let ?rows = "set_row_pos col_id set_col_pos i p (db_columns s)"
  have g: "(\<lambda>c. (set_col_pos p c)\<lparr>col_id := col_id c, col_board_id := col_board_id c\<rparr>) = set_col_pos p"
    by (simp add: fun_eq_iff set_col_pos_def)
  have r: "update_where (\<lambda>c. col_id c = i) (set_col_pos p) (db_columns s) = ?rows"
    by (simp add: update_where_def set_row_pos_def)
  have m: "map h ?rows = map h (db_columns s)" if "\<And>c. h (set_col_pos p c) = h c" for h :: "column \<Rightarrow> 'x"
    using that by (simp add: set_row_pos_def)
  have uniq: "distinct (map (\<lambda>c. (col_board_id c, col_name c)) ?rows)"
    using Cons.prems by (simp add: m set_col_pos_def schema_ok_def)
  have ids: "col_id ` set ?rows = col_id ` set (db_columns s)"
    using m [of col_id] by (metis list.set_map column.simps(1) set_col_pos_def column.select_convs(1)
        column.surjective column.update_convs(4))
  have fk: "column_targets_fk ?rows"
    using Cons.prems unfolding column_targets_fk_def ids
    by (auto simp: schema_ok_def column_targets_fk_def set_row_pos_def set_col_pos_def)
  have u: "update_columns (\<lambda>c. col_id c = i) (set_col_pos p) s =
      (Inr (length (filter (\<lambda>c. col_id c = i) (db_columns s))), s\<lparr>db_columns := ?rows\<rparr>)"
    by (simp add: update_columns_def Let_def g r uniq fk)
  have "schema_ok (s\<lparr>db_columns := ?rows\<rparr>)"
    using keepsD [OF keeps_update_columns Cons.prems u] .
  from Cons.IH [OF this] show ?case
    by (simp add: thenT_def bindT_def u)
qed

lemma keeps_number_cards [tx_keeps]: "keeps schema_ok (number_cards p is)"
  by (induction p "is" rule: number_cards.induct) (auto intro: tx_keeps)

lemma keeps_number_columns [tx_keeps]: "keeps schema_ok (number_columns p is)"
  by (induction p "is" rule: number_columns.induct) (auto intro: tx_keeps)

lemma keeps_place [tx_keeps]: "keeps schema_ok (place_card_in_column i col pos)"
  unfolding place_card_in_column_def by (intro tx_keeps)

lemma keeps_renumber [tx_keeps]: "keeps schema_ok (renumber_column_cards col)"
  unfolding renumber_column_cards_def by (intro tx_keeps)

section \<open>Order as lists of ids\<close>

lemma card_unique:
  "schema_ok s \<Longrightarrow> x \<in> set (db_cards s) \<Longrightarrow> y \<in> set (db_cards s) \<Longrightarrow> cd_id x = cd_id y \<Longrightarrow> x = y"
  using schema_okD(3) by (auto simp: distinct_map inj_on_def)

lemma find_card_Some:
  "schema_ok s \<Longrightarrow> find_card s i = Some c \<longleftrightarrow> c \<in> set (db_cards s) \<and> cd_id c = i"
  by (simp add: find_card_def lookup_eq [OF schema_okD(3)])

definition order_of :: "db \<Rightarrow> int \<Rightarrow> int list" where
  "order_of s col = map cd_id (column_cards s col)"

definition compact_column :: "db \<Rightarrow> int \<Rightarrow> bool" where
  "compact_column s col \<longleftrightarrow>
     map cd_position (column_cards s col) = map int [0..<length (column_cards s col)]"

definition compact_cards :: "db \<Rightarrow> bool" where
  "compact_cards s \<longleftrightarrow> (\<forall>col. compact_column s col)"

definition compact_columns :: "db \<Rightarrow> bool" where
  "compact_columns s \<longleftrightarrow>
     (\<forall>b. map col_position (board_columns s b) = map int [0..<length (board_columns s b)])"

text \<open>The abstract operation: take the card out of every column, put it into one.\<close>

definition place_order :: "int \<Rightarrow> int \<Rightarrow> int option \<Rightarrow> (int \<Rightarrow> int list) \<Rightarrow> int \<Rightarrow> int list" where
  "place_order i target position A col =
     (let rest = filter (\<lambda>j. j \<noteq> i) (A col)
      in if col = target then insert_at (insert_index position (length rest)) i rest else rest)"

lemma other_cards_eq: "other_cards s col i = filter (\<lambda>j. j \<noteq> i) (order_of s col)"
  unfolding other_cards_def order_of_def column_cards_def lane_def
  by (simp add: filter_map o_def filter_sort conj_commute)

lemma other_cards_set: "set (other_cards s col i) = cd_id ` {c \<in> set (db_cards s). cd_column_id c = col \<and> cd_id c \<noteq> i}"
  by (auto simp: other_cards_def card_lane.lane_set)

lemma distinct_other_cards: "schema_ok s \<Longrightarrow> distinct (other_cards s col i)"
  unfolding other_cards_def
  by (intro card_lane.distinct_lane_keys distinct_map_filter) (simp add: schema_ok_def)

lemma order_of_set: "set (order_of s col) = cd_id ` {c \<in> set (db_cards s). cd_column_id c = col}"
  by (auto simp: order_of_def column_cards_def card_lane.lane_set)

lemma distinct_order_of: "schema_ok s \<Longrightarrow> distinct (order_of s col)"
  unfolding order_of_def column_cards_def
  by (intro card_lane.distinct_lane_keys) (simp add: schema_ok_def)

lemma insert_index_le: "insert_index pos n \<le> n"
  by (simp add: insert_index_def)

text \<open>Placing a card that is already in the target column.\<close>

lemma place_card_eq:
  "schema_ok s \<Longrightarrow> place_card_in_column i col pos s =
     (Inr (), s\<lparr>db_cards := renumber cd_id set_cd_pos 0
        (insert_at (insert_index pos (length (other_cards s col i))) i (other_cards s col i)) (db_cards s)\<rparr>)"
  by (simp add: place_card_in_column_def bindT_def readT_def number_cards_eq)

lemma renumber_column_eq:
  "schema_ok s \<Longrightarrow> renumber_column_cards col s =
     (Inr (), s\<lparr>db_cards := renumber cd_id set_cd_pos 0 (order_of s col) (db_cards s)\<rparr>)"
  by (simp add: renumber_column_cards_def bindT_def readT_def number_cards_eq order_of_def)

lemma order_renumber_column:
  assumes "schema_ok s" and "distinct is" and "set is = set (order_of s col)"
    and "t = s\<lparr>db_cards := renumber cd_id set_cd_pos 0 is (db_cards s)\<rparr>"
  shows "order_of t col = is" and "compact_column t col"
    and "c \<noteq> col \<Longrightarrow> order_of t c = order_of s c"
    and "c \<noteq> col \<Longrightarrow> compact_column t c = compact_column s c"
proof -
  have s: "set is = cd_id ` {c \<in> set (db_cards s). cd_column_id c = col}"
    using assms(3) by (simp add: order_of_set)
  note k = card_lane.lane_renumber_keys [OF schema_okD(3) [OF assms(1)] assms(2) s]
  show "order_of t col = is"
    using k(1) by (simp add: assms(4) order_of_def column_cards_def)
  show "compact_column t col"
    using k(2) map_eq_imp_length_eq [OF k(2)]
    by (simp add: assms(4) compact_column_def column_cards_def)
  have "lane cd_id cd_column_id cd_position c (db_cards t) = lane cd_id cd_column_id cd_position c (db_cards s)"
    if "c \<noteq> col"
  proof -
    have "set is \<inter> cd_id ` {r \<in> set (db_cards s). cd_column_id r = c} = {}"
    proof (rule ccontr)
      assume "set is \<inter> cd_id ` {r \<in> set (db_cards s). cd_column_id r = c} \<noteq> {}"
      then obtain x y where "x \<in> set (db_cards s)" "y \<in> set (db_cards s)" "cd_id x = cd_id y"
        "cd_column_id x = col" "cd_column_id y = c" unfolding s by auto
      then show False
        using that card_unique [OF assms(1)] by blast
    qed
    then show ?thesis using card_lane.lane_renumber_other [OF assms(2)] assms(4) by simp
  qed
  then show "c \<noteq> col \<Longrightarrow> order_of t c = order_of s c"
    and "c \<noteq> col \<Longrightarrow> compact_column t c = compact_column s c"
    by (simp_all add: order_of_def compact_column_def column_cards_def)
qed

lemma place_card_order:
  assumes "schema_ok s" and "find_card s i = Some k" and "cd_column_id k = col"
    and "place_card_in_column i col pos s = (r, t)"
  shows "r = Inr ()" and "order_of t = place_order i col pos (order_of s)" and "compact_column t col"
    and "c \<noteq> col \<Longrightarrow> compact_column t c = compact_column s c"
    and "schema_ok t"
proof -
  let ?is = "insert_at (insert_index pos (length (other_cards s col i))) i (other_cards s col i)"
  have eq: "r = Inr ()" "t = s\<lparr>db_cards := renumber cd_id set_cd_pos 0 ?is (db_cards s)\<rparr>"
    using assms(4) place_card_eq [OF assms(1)] by simp_all
  have d: "distinct ?is"
    by (intro distinct_insert_at distinct_other_cards assms(1)) (auto simp: other_cards_set)
  have ic: "i \<in> set (order_of s col)"
    using assms(2,3) by (auto simp: order_of_set find_card_def dest!: lookup_Some)
  have s: "set ?is = set (order_of s col)"
    using ic by (auto simp: other_cards_eq)
  note o = order_renumber_column [OF assms(1) d s eq(2)]
  have "filter (\<lambda>j. j \<noteq> i) (order_of s c) = order_of s c" if "c \<noteq> col" for c
  proof -
    have "i \<notin> set (order_of s c)"
    proof
      assume "i \<in> set (order_of s c)"
      then obtain y where "y \<in> set (db_cards s)" "cd_id y = i" "cd_column_id y = c"
        by (auto simp: order_of_set)
      then show False
        using that assms(2,3) card_unique [OF assms(1)] by (auto simp: find_card_Some [OF assms(1)])
    qed
    then show ?thesis by (auto simp: filter_id_conv)
  qed
  then show "order_of t = place_order i col pos (order_of s)"
    using o(1,3) by (auto simp: fun_eq_iff place_order_def Let_def other_cards_eq)
  show "r = Inr ()" "compact_column t col" by (fact eq(1), fact o(2))
  show "c \<noteq> col \<Longrightarrow> compact_column t c = compact_column s c" by (rule o(4))
  show "schema_ok t" using keepsD [OF keeps_place assms(1,4)] .
qed

lemma renumber_order:
  assumes "schema_ok s" and "renumber_column_cards col s = (r, t)"
  shows "r = Inr ()" and "order_of t = order_of s" and "compact_column t col"
    and "c \<noteq> col \<Longrightarrow> compact_column t c = compact_column s c"
    and "schema_ok t"
proof -
  have eq: "r = Inr ()" "t = s\<lparr>db_cards := renumber cd_id set_cd_pos 0 (order_of s col) (db_cards s)\<rparr>"
    using assms(2) renumber_column_eq [OF assms(1)] by simp_all
  note o = order_renumber_column [OF assms(1) distinct_order_of [OF assms(1)] refl eq(2)]
  show "order_of t = order_of s" using o(1,3) by (metis ext)
  show "r = Inr ()" "compact_column t col" by (fact eq(1), fact o(2))
  show "c \<noteq> col \<Longrightarrow> compact_column t c = compact_column s c" by (rule o(4))
  show "schema_ok t" using keepsD [OF keeps_renumber assms] .
qed

end
