(* ===== verification/Store_Cards.thy ===== *)
theory Store_Cards
  imports Store_Place
begin

text \<open>
  The card operations of \<open>board-core/src/db/cards_comments.rs\<close> and the queueing half of
  \<open>runs.rs\<close> they share a transaction with. Each operation is the sequence of statements and
  early returns of its method; \<open>transaction\<close> marks what the method commits as one unit.
\<close>

section \<open>Queueing a run\<close>

record enqueue_run =
  er_card_id :: int
  er_column_id :: int
  er_harness :: string
  er_argv_json :: string
  er_prompt_snapshot :: string
  er_system_prompt_snapshot :: "string option"
  er_launch_spec :: "run_launch_spec option"
  er_session_id :: "string option"
  er_session :: "string option"

definition board_id_default :: int where "board_id_default = 1"

definition queued_run :: "int \<Rightarrow> enqueue_run \<Rightarrow> run" where
  "queued_run card_id p =
     \<lparr>rn_id = 0, rn_card_id = card_id, rn_column_id = er_column_id p, rn_harness = er_harness p,
      rn_argv_json = er_argv_json p, rn_prompt_snapshot = er_prompt_snapshot p,
      rn_system_prompt_snapshot = er_system_prompt_snapshot p, rn_launch_spec = er_launch_spec p,
      rn_herdr_workspace_id = None, rn_herdr_pane_id = None, rn_herdr_anchor_pane_id = None,
      rn_session_id = er_session_id p, rn_session = er_session p, rn_started_at = None,
      rn_timeout_deadline_at_ms = None, rn_timeout_paused_at_ms = None, rn_ended_at = None,
      rn_outcome = None, rn_result_summary = None, rn_log_path = None\<rparr>"

definition touch :: "db \<Rightarrow> card \<Rightarrow> card" where
  "touch s c = c\<lparr>cd_updated_at := db_now s\<rparr>"

definition update_card_where :: "int \<Rightarrow> (db \<Rightarrow> card \<Rightarrow> card) \<Rightarrow> nat store" where
  \<comment> \<open>\<open>UPDATE cards SET .. WHERE id = i\<close>; the new values may use \<open>datetime('now')\<close>\<close>
  "update_card_where i f s = update_cards (\<lambda>c. cd_id c = i) (f s) s"

definition enqueue_run_tx :: "int \<Rightarrow> enqueue_run \<Rightarrow> int store" where
  "enqueue_run_tx card_id p =
     bindT (insert_run (queued_run card_id p)) (\<lambda>i.
     thenT (lifecycle_fault EnqueueAfterRunInsert)
     (bindT (update_card_where card_id (\<lambda>s c. touch s
          (c\<lparr>cd_status := Queued, cd_awaiting_reason := None,
             cd_session_id := or_else (er_session_id p) (cd_session_id c)\<rparr>))) (\<lambda>changed.
      thenT (ensureT (changed = 1) (NotFound [T ''card '', N card_id]))
      (returnT i))))"

section \<open>Reads\<close>

fun visible :: "visibility \<Rightarrow> string option \<Rightarrow> bool" where
  "visible VisActive archived_at = (archived_at = None)"
| "visible VisAll archived_at = True"
| "visible VisArchived archived_at = (archived_at \<noteq> None)"

definition list_cards_visible :: "db \<Rightarrow> int \<Rightarrow> visibility \<Rightarrow> card list" where
  "list_cards_visible s board_id v =
     map snd (sort_key (\<lambda>(k, c). (col_position k, cd_position c, cd_id c))
       (List.map_filter (\<lambda>c. map_option (\<lambda>k. (k, c)) (find_column s (cd_column_id c)))
          (filter (\<lambda>c. cd_board_id c = board_id \<and> visible v (cd_archived_at c)) (db_cards s))))"

definition list_cards_in_column_visible :: "db \<Rightarrow> int \<Rightarrow> visibility \<Rightarrow> card list" where
  "list_cards_in_column_visible s col v =
     sort_key (\<lambda>c. (cd_position c, cd_id c))
       (filter (\<lambda>c. cd_column_id c = col \<and> visible v (cd_archived_at c)) (db_cards s))"

definition list_columns :: "db \<Rightarrow> int \<Rightarrow> column list" where
  "list_columns s board_id = board_columns s board_id"

definition default_column_id :: "int \<Rightarrow> int store" where
  "default_column_id board_id =
     require [T ''no columns''] (\<lambda>s. case board_columns s board_id of [] \<Rightarrow> None | c # _ \<Rightarrow> Some (col_id c))"

definition find_open_run :: "db \<Rightarrow> int \<Rightarrow> run option" where
  \<comment> \<open>\<open>ORDER BY id DESC LIMIT 1\<close>\<close>
  "find_open_run s card_id =
     List.find (\<lambda>r. rn_card_id r = card_id \<and> open_run r) (rev (sort_key rn_id (db_runs s)))"

section \<open>Creation\<close>

definition wrong_board :: "int \<Rightarrow> int \<Rightarrow> int \<Rightarrow> message" where
  "wrong_board col actual expected =
     [T ''column '', N col, T '' belongs to board '', N actual, T '', expected '', N expected]"

definition new_card :: "int \<Rightarrow> int \<Rightarrow> int \<Rightarrow> card_create_params \<Rightarrow> string \<Rightarrow> card" where
  "new_card board_id column_id end_pos p now =
     \<lparr>cd_id = 0, cd_board_id = board_id, cd_column_id = column_id, cd_position = end_pos,
      cd_title = kc_title p, cd_description = set_if (kc_description p) [],
      cd_harness = set_if (kc_harness p) ''pi'', cd_model = kc_model p, cd_effort = kc_effort p,
      cd_permission_mode = kc_permission_mode p, cd_session = kc_session p,
      cd_space_kind = set_if (kc_space_kind p) Workspace, cd_space_ref = kc_space_ref p,
      cd_space_cwd = kc_space_cwd p, cd_status = Idle, cd_awaiting_reason = None,
      cd_session_id = None, cd_created_at = now, cd_updated_at = now, cd_archived_at = None,
      cd_labels = \<lparr>lb_session = [], lb_effort = [], lb_permission = [], lb_model = []\<rparr>\<rparr>"

definition insert_new_card :: "int \<Rightarrow> int \<Rightarrow> card_create_params \<Rightarrow> int store" where
  "insert_new_card board_id column_id p s =
     insert_card (new_card board_id column_id
       (end_position cd_column_id cd_position column_id (db_cards s)) p (db_now s)) s"

definition move_card :: "int \<Rightarrow> int \<Rightarrow> int option \<Rightarrow> card store" where
  "move_card i target_column position =
     bindT (require_card i) (\<lambda>c.
     bindT (require_column target_column) (\<lambda>target.
     thenT (ensureT (col_board_id target = cd_board_id c)
        (InvalidState [T ''column '', N target_column, T '' belongs to board '', N (col_board_id target),
           T '', card '', N i, T '' belongs to board '', N (cd_board_id c)]))
     (thenT (transaction
        (thenT (update_card_where i (\<lambda>s c. touch s (c\<lparr>cd_column_id := target_column\<rparr>)))
        (thenT (place_card_in_column i target_column position)
               (if cd_column_id c \<noteq> target_column then renumber_column_cards (cd_column_id c)
                else returnT ()))))
     (require_card i))))"

definition create_card :: "card_create_params \<Rightarrow> card store" where
  "create_card p =
     (let board_id = set_if (kc_board_id p) board_id_default in
      thenT (get_board board_id)
      (bindT (case kc_column_id p of Some c \<Rightarrow> returnT c | None \<Rightarrow> default_column_id board_id) (\<lambda>column_id.
       bindT (require_column column_id) (\<lambda>column.
       thenT (ensureT (col_board_id column = board_id)
          (InvalidState (wrong_board column_id (col_board_id column) board_id)))
       (bindT (insert_new_card board_id column_id p) (\<lambda>i.
        thenT (case kc_position p of
                 Some pos \<Rightarrow> thenT (move_card i column_id (Some pos)) (returnT ())
               | None \<Rightarrow> returnT ())
        (require_card i)))))))"

definition create_card_and_enqueue :: "card_create_params \<Rightarrow> enqueue_run \<Rightarrow> (card \<times> run) store" where
  "create_card_and_enqueue p run =
     (let board_id = set_if (kc_board_id p) board_id_default in
      thenT (get_board board_id)
      (bindT (default_column_id board_id) (\<lambda>default_col.
       let column_id = set_if (kc_column_id p) default_col in
       bindT (require_column column_id) (\<lambda>column.
       thenT (ensureT (col_board_id column = board_id)
          (InvalidState (wrong_board column_id (col_board_id column) board_id)))
       (thenT (ensureT (er_column_id run = column_id)
          (InvalidState [T ''queued run column does not match new card column'']))
       (bindT (transaction
          (bindT (insert_new_card board_id column_id p) (\<lambda>i.
           thenT (if kc_position p \<noteq> None then place_card_in_column i column_id (kc_position p)
                  else returnT ())
           (bindT (enqueue_run_tx i run) (\<lambda>r. returnT (i, r)))))) (\<lambda>(i, r).
        bindT (require_card i) (\<lambda>c. bindT (get_run r) (\<lambda>q. returnT (c, q))))))))))"

definition copy_card :: "card \<Rightarrow> int \<Rightarrow> string \<Rightarrow> card" where
  "copy_card c end_pos now =
     c\<lparr>cd_position := end_pos, cd_title := cd_title c @ '' (copy)'', cd_status := Idle,
       cd_awaiting_reason := None, cd_session_id := None, cd_created_at := now, cd_updated_at := now,
       cd_archived_at := None\<rparr>"

definition duplicate_card :: "int \<Rightarrow> card store" where
  "duplicate_card i =
     bindT (require_card i) (\<lambda>c.
     bindT (transaction
       (bindT (\<lambda>s. insert_card (copy_card c
              (end_position cd_column_id cd_position (cd_column_id c) (db_cards s)) (db_now s)) s) (\<lambda>copy_id.
        thenT (place_card_in_column copy_id (cd_column_id c) (Some (cd_position c + 1)))
        (returnT copy_id))))
     require_card)"

section \<open>Edits\<close>

definition merge_store_update :: "card \<Rightarrow> card_update_params \<Rightarrow> card" where
  \<comment> \<open>the field-by-field merge inside \<open>update_card\<close>\<close>
  "merge_store_update c u =
     (let perm = (if ku_harness u = Some ''pi'' then None else cd_permission_mode c);
          eff = (if ku_harness u = Some ''claude'' \<and> cd_effort c \<in> {Some Off, Some Minimal} then None
                 else cd_effort c)
      in c\<lparr>cd_title := set_if (ku_title u) (cd_title c),
           cd_description := set_if (ku_description u) (cd_description c),
           cd_harness := set_if (ku_harness u) (cd_harness c),
           cd_model := apply_patch (cd_model c) (ku_model u),
           cd_effort := apply_patch eff (ku_effort u),
           cd_permission_mode := apply_patch perm (ku_permission_mode u),
           cd_session := apply_patch (cd_session c) (ku_session u),
           cd_space_kind := set_if (ku_space_kind u) (cd_space_kind c),
           cd_space_ref := apply_patch (cd_space_ref c) (ku_space_ref u),
           cd_space_cwd := apply_patch (cd_space_cwd c) (ku_space_cwd u)\<rparr>)"

definition write_config :: "card \<Rightarrow> card \<Rightarrow> card" where
  \<comment> \<open>the columns that \<open>update_card\<close>'s statement writes\<close>
  "write_config v c =
     c\<lparr>cd_title := cd_title v, cd_description := cd_description v, cd_harness := cd_harness v,
       cd_model := cd_model v, cd_effort := cd_effort v, cd_permission_mode := cd_permission_mode v,
       cd_session := cd_session v, cd_space_kind := cd_space_kind v, cd_space_ref := cd_space_ref v,
       cd_space_cwd := cd_space_cwd v\<rparr>"

definition update_card :: "card_update_params \<Rightarrow> card store" where
  "update_card u =
     bindT (require_card (ku_id u)) (\<lambda>c.
     let v = merge_store_update c u in
     thenT (update_card_where (cd_id v) (\<lambda>s r. touch s (write_config v r)))
     (require_card (cd_id v)))"

definition set_card_archived :: "int \<Rightarrow> bool \<Rightarrow> card store" where
  "set_card_archived i archived =
     thenT (require_card i)
     (thenT (update_card_where i (\<lambda>s c. touch s
        (c\<lparr>cd_archived_at := if archived then Some (db_now s) else None\<rparr>)))
     (require_card i))"

definition delete_card :: "int \<Rightarrow> unit store" where
  "delete_card i =
     bindT (require_card i) (\<lambda>c.
     thenT (delete_card_row i)
     (transaction (renumber_column_cards (cd_column_id c))))"

section \<open>Moves that also queue a run, and moves across boards\<close>

definition move_card_and_enqueue :: "int \<Rightarrow> int \<Rightarrow> int option \<Rightarrow> enqueue_run \<Rightarrow> (card \<times> run) store" where
  "move_card_and_enqueue i target_column position run =
     bindT (require_card i) (\<lambda>c.
     bindT (require_column target_column) (\<lambda>target.
     thenT (ensureT (col_board_id target = cd_board_id c)
        (InvalidState [T ''column '', N target_column, T '' belongs to board '', N (col_board_id target),
           T '', card '', N i, T '' belongs to board '', N (cd_board_id c)]))
     (thenT (ensureT (er_card_id run = i \<and> er_column_id run = target_column)
        (InvalidState [T ''queued run does not match moved card and destination column'']))
     (bindT (readT (\<lambda>s. find_open_run s i)) (\<lambda>open_r.
     thenT (ensureT (open_r = None) (InvalidState [T ''card already has an open run'']))
     (bindT (transaction
        (thenT (update_card_where i (\<lambda>s c. touch s (c\<lparr>cd_column_id := target_column\<rparr>)))
        (thenT (place_card_in_column i target_column position)
        (thenT (if cd_column_id c \<noteq> target_column then renumber_column_cards (cd_column_id c)
                else returnT ())
        (enqueue_run_tx i run))))) (\<lambda>r.
     bindT (require_card i) (\<lambda>c. bindT (get_run r) (\<lambda>q. returnT (c, q))))))))))"

definition destination_board :: "int \<Rightarrow> int \<Rightarrow> int \<Rightarrow> message" where
  "destination_board col actual declared =
     [T ''column '', N col, T '' belongs to board '', N actual,
      T '', declared destination board is '', N declared]"

definition transfer_card_and_enqueue ::
  "int \<Rightarrow> int \<Rightarrow> int \<Rightarrow> int option \<Rightarrow> enqueue_run \<Rightarrow> (card \<times> run) store" where
  "transfer_card_and_enqueue i target_board target_column position run =
     bindT (require_card i) (\<lambda>c.
     thenT (get_board target_board)
     (bindT (require_column target_column) (\<lambda>target.
     thenT (ensureT (col_board_id target = target_board)
        (InvalidState (destination_board target_column (col_board_id target) target_board)))
     (thenT (ensureT (er_card_id run = i \<and> er_column_id run = target_column)
        (InvalidState [T ''queued run does not match moved card and destination column'']))
     (bindT (readT (\<lambda>s. find_open_run s i)) (\<lambda>open_r.
     thenT (ensureT (open_r = None) (InvalidState [T ''card already has an open run'']))
     (bindT (transaction
        (thenT (update_card_where i (\<lambda>s c. touch s
            (c\<lparr>cd_board_id := target_board, cd_column_id := target_column\<rparr>)))
        (thenT (place_card_in_column i target_column position)
        (thenT (renumber_column_cards (cd_column_id c))
        (enqueue_run_tx i run))))) (\<lambda>r.
     bindT (require_card i) (\<lambda>c. bindT (get_run r) (\<lambda>q. returnT (c, q)))))))))))"

definition transfer_card :: "int \<Rightarrow> int \<Rightarrow> int \<Rightarrow> int option \<Rightarrow> card store" where
  "transfer_card i target_board target_column position =
     thenT (transaction
       (bindT (require_card i) (\<lambda>c.
        thenT (get_board target_board)
        (bindT (require_column target_column) (\<lambda>target.
        thenT (ensureT (col_board_id target = target_board)
           (InvalidState (destination_board target_column (col_board_id target) target_board)))
        (thenT (update_card_where i (\<lambda>s c. touch s
            (c\<lparr>cd_board_id := target_board, cd_column_id := target_column\<rparr>)))
        (thenT (place_card_in_column i target_column position)
               (renumber_column_cards (cd_column_id c)))))))))
     (require_card i)"

section \<open>Status\<close>

definition set_card_status :: "int \<Rightarrow> card_status \<Rightarrow> card store" where
  "set_card_status i st =
     thenT (ensureT (st \<noteq> Awaiting)
        (InvalidState [T ''enter awaiting with Db::set_card_awaiting so a reason is recorded'']))
     (thenT (update_card_where i (\<lambda>s c. touch s (c\<lparr>cd_status := st, cd_awaiting_reason := None\<rparr>)))
     (require_card i))"

definition set_card_awaiting :: "int \<Rightarrow> awaiting_reason \<Rightarrow> card store" where
  "set_card_awaiting i reason =
     thenT (update_card_where i (\<lambda>s c. touch s
        (c\<lparr>cd_status := Awaiting, cd_awaiting_reason := Some reason\<rparr>)))
     (require_card i)"

definition active_open :: "run \<Rightarrow> bool" where
  "active_open r \<longleftrightarrow> open_run r \<and> rn_started_at r \<noteq> None"

definition pause_run_timeout :: "int \<Rightarrow> awaiting_reason \<Rightarrow> int \<Rightarrow> card store" where
  "pause_run_timeout card_id reason now_ms =
     thenT (transaction
       (thenT (update_card_where card_id (\<lambda>s c. touch s
           (c\<lparr>cd_status := Awaiting, cd_awaiting_reason := Some reason\<rparr>)))
       (update_runs (\<lambda>r. rn_card_id r = card_id \<and> active_open r)
          (\<lambda>r. r\<lparr>rn_timeout_paused_at_ms := or_else (rn_timeout_paused_at_ms r) (Some now_ms)\<rparr>))))
     (require_card card_id)"

definition shift_deadline :: "int option \<Rightarrow> int \<Rightarrow> int \<Rightarrow> int option" where
  "shift_deadline deadline now_ms paused =
     map_option (\<lambda>d. i64_saturating_add d (max (i64_saturating_sub now_ms paused) 0)) deadline"

definition resume_run_timeout :: "int \<Rightarrow> card_status \<Rightarrow> int \<Rightarrow> card store" where
  "resume_run_timeout card_id st now_ms =
     thenT (ensureT (st \<noteq> Awaiting) (InvalidState [T ''cannot resume into awaiting'']))
     (thenT (transaction
       (thenT (bindT (readT (\<lambda>s. List.find (\<lambda>r. rn_card_id r = card_id \<and> active_open r) (db_runs s)))
          (\<lambda>timing. case timing of
             None \<Rightarrow> returnT 0
           | Some r \<Rightarrow>
               (case rn_timeout_paused_at_ms r of
                  None \<Rightarrow> returnT 0
                | Some paused \<Rightarrow>
                    update_runs (\<lambda>q. rn_card_id q = card_id \<and> open_run q)
                      (\<lambda>q. q\<lparr>rn_timeout_deadline_at_ms :=
                                shift_deadline (rn_timeout_deadline_at_ms r) now_ms paused,
                             rn_timeout_paused_at_ms := None\<rparr>))))
       (update_card_where card_id (\<lambda>s c. touch s (c\<lparr>cd_status := st, cd_awaiting_reason := None\<rparr>)))))
     (require_card card_id))"

definition set_card_session :: "int \<Rightarrow> string \<Rightarrow> card store" where
  "set_card_session i sid =
     thenT (update_card_where i (\<lambda>s c. touch s (c\<lparr>cd_session_id := Some sid\<rparr>)))
     (require_card i)"

section \<open>Every operation keeps the schema\<close>

lemma keeps_update_card_where [tx_keeps]: "keeps schema_ok (update_card_where i f)"
  using keeps_update_cards by (simp add: keeps_def update_card_where_def)

lemma keeps_insert_new_card [tx_keeps]: "keeps schema_ok (insert_new_card b c p)"
  using keeps_insert_card by (simp add: keeps_def insert_new_card_def)

lemma keeps_enqueue_run_tx [tx_keeps]: "keeps schema_ok (enqueue_run_tx i p)"
  unfolding enqueue_run_tx_def by (intro tx_keeps)

lemma keeps_default_column [tx_keeps]: "keeps P (default_column_id b)"
  by (simp add: default_column_id_def keeps_lookups)

lemma keeps_move_card [tx_keeps]: "keeps schema_ok (move_card i c p)"
  unfolding move_card_def by (intro tx_keeps)

lemma keeps_create_card [tx_keeps]: "keeps schema_ok (create_card p)"
  unfolding create_card_def Let_def by (intro tx_keeps)

lemma keeps_create_card_and_enqueue [tx_keeps]: "keeps schema_ok (create_card_and_enqueue p r)"
  unfolding create_card_and_enqueue_def Let_def case_prod_beta by (intro tx_keeps)

lemma keeps_duplicate_card [tx_keeps]: "keeps schema_ok (duplicate_card i)"
proof -
  have "keeps schema_ok (\<lambda>s. insert_card (f s) s)" for f
    using keeps_insert_card by (simp add: keeps_def)
  then show ?thesis unfolding duplicate_card_def by (intro tx_keeps)
qed

lemma keeps_card_edits [tx_keeps]:
  "keeps schema_ok (update_card u)" "keeps schema_ok (set_card_archived i a)"
  "keeps schema_ok (delete_card i)" "keeps schema_ok (set_card_status i st)"
  "keeps schema_ok (set_card_awaiting i re)" "keeps schema_ok (set_card_session i sid)"
  unfolding update_card_def set_card_archived_def delete_card_def set_card_status_def
    set_card_awaiting_def set_card_session_def Let_def
  by (intro tx_keeps)+

lemma keeps_moves [tx_keeps]:
  "keeps schema_ok (move_card_and_enqueue i c p r)"
  "keeps schema_ok (transfer_card_and_enqueue i b c p r)"
  "keeps schema_ok (transfer_card i b c p)"
  unfolding move_card_and_enqueue_def transfer_card_and_enqueue_def transfer_card_def
  by (intro tx_keeps)+

lemma keeps_pause [tx_keeps]: "keeps schema_ok (pause_run_timeout i re now)"
  unfolding pause_run_timeout_def by (intro tx_keeps)

lemma keeps_resume [tx_keeps]: "keeps schema_ok (resume_run_timeout i st now)"
  unfolding resume_run_timeout_def by (intro tx_keeps)

end
