(* ===== verification/Store_Order.thy ===== *)
theory Store_Order
  imports Store_Cards
begin

text \<open>
  The board invariant of the store and what the card operations do to the order of cards.
  \<open>board_inv\<close> says that the schema holds, that every card is on the board of its column and
  that the cards of every column are numbered 0, 1, 2, ...; every card operation keeps it, also
  when it fails. The abstract state is the function from columns to lists of card ids, and each
  operation refines an operation on it.
\<close>

section \<open>The invariant\<close>

definition card_places :: "db \<Rightarrow> (int \<times> int) set" where
  "card_places s = (\<lambda>c. (cd_column_id c, cd_board_id c)) ` set (db_cards s)"

definition column_boards :: "db \<Rightarrow> (int \<times> int) set" where
  "column_boards s = (\<lambda>k. (col_id k, col_board_id k)) ` set (db_columns s)"

definition board_inv :: "db \<Rightarrow> bool" where
  "board_inv s \<longleftrightarrow> schema_ok s \<and> card_places s \<subseteq> column_boards s \<and> compact_cards s"

lemma board_invD: "board_inv s \<Longrightarrow> schema_ok s"
  by (simp add: board_inv_def)

section \<open>Weakest preconditions of the statements\<close>

lemma wp_lookups [tx_simps]:
  "wp (require w f) Q1 E = (\<lambda>s. (case f s of None \<Rightarrow> E (NotFound w) s | Some x \<Rightarrow> Q1 x s))"
  "wp (require_card i) Q2 E = (\<lambda>s. (case find_card s i of None \<Rightarrow> E (NotFound [T ''card '', N i]) s | Some x \<Rightarrow> Q2 x s))"
  "wp (require_column i) Q3 E = (\<lambda>s. (case find_column s i of None \<Rightarrow> E (NotFound [T ''column '', N i]) s | Some x \<Rightarrow> Q3 x s))"
  "wp (get_run i) Q4 E = (\<lambda>s. (case find_run s i of None \<Rightarrow> E (NotFound [T ''run '', N i]) s | Some x \<Rightarrow> Q4 x s))"
  "wp (get_board i) Q5 E = (\<lambda>s. (case find_board s i of None \<Rightarrow> E (NotFound [T ''board '', N i]) s | Some x \<Rightarrow> Q5 x s))"
  "wp (get_project i) Q6 E = (\<lambda>s. (case find_project s i of None \<Rightarrow> E (NotFound [T ''project '', N i]) s | Some x \<Rightarrow> Q6 x s))"
  "wp (get_card i) Q7 E = (\<lambda>s. Q7 (find_card s i) s)"
  "wp (lifecycle_fault p) Q8 E = (\<lambda>s. (case db_fault s p of None \<Rightarrow> Q8 () s | Some e \<Rightarrow> E e s))"
  by (auto simp: fun_eq_iff wp_def lookup_ops require_def queryT_def readT_def ok_or_def lifecycle_fault_def
      split: option.splits)

lemma wp_default_column [tx_simps]:
  "wp (default_column_id b) Q E =
     (\<lambda>s. case board_columns s b of [] \<Rightarrow> E (NotFound [T ''no columns'']) s | k # _ \<Rightarrow> Q (col_id k) s)"
  by (rule ext) (simp add: default_column_id_def tx_simps split: list.splits)

lemma atomic_statements [simp]:
  "atomic (insert_card c)" "atomic (update_cards P f)" "atomic (update_card_where i g)"
  "atomic (insert_run r)" "atomic (update_runs R h)" "atomic (insert_new_card b k p)"
  "atomic (insert_column col)" "atomic (update_columns CP cf)" "atomic (delete_column_row i)"
  by (auto simp: atomic_def insert_card_def update_cards_def update_card_where_def insert_run_def
      update_runs_def insert_new_card_def insert_column_def update_columns_def
      delete_column_row_def Let_def split: if_splits)

lemma update_card_where_ok:
  assumes "update_card_where i f s = (Inr n, t)"
  shows "t = s\<lparr>db_cards := update_where (\<lambda>c. cd_id c = i) (\<lambda>c. (f s c)\<lparr>cd_id := i\<rparr>) (db_cards s)\<rparr>"
    and "n = length (filter (\<lambda>c. cd_id c = i) (db_cards s))"
    and "find_card s i = Some c \<Longrightarrow> card_check ((f s c)\<lparr>cd_id := i\<rparr>) \<and> card_fk s ((f s c)\<lparr>cd_id := i\<rparr>)"
proof -
  show "t = s\<lparr>db_cards := update_where (\<lambda>c. cd_id c = i) (\<lambda>c. (f s c)\<lparr>cd_id := i\<rparr>) (db_cards s)\<rparr>"
    using assms by (auto simp: update_card_where_def update_cards_def Let_def update_where_def split: if_splits)
  show "n = length (filter (\<lambda>c. cd_id c = i) (db_cards s))"
    using assms by (auto simp: update_card_where_def update_cards_def Let_def split: if_splits)
  show "find_card s i = Some c \<Longrightarrow> card_check ((f s c)\<lparr>cd_id := i\<rparr>) \<and> card_fk s ((f s c)\<lparr>cd_id := i\<rparr>)"
    using assms
    by (auto simp: update_card_where_def update_cards_def Let_def find_card_def list_all_iff
        split: if_splits dest!: lookup_Some)
qed

lemma update_card_where_runs:
  assumes "update_card_where i f s = (r, t)"
  shows "db_runs t = db_runs s" and "db_columns t = db_columns s" and "db_boards t = db_boards s"
    and "db_comments t = db_comments s"
  using assms by (auto simp: update_card_where_def update_cards_def Let_def split: if_splits)

lemma number_cards_frame:
  "schema_ok s \<Longrightarrow> number_cards p is s = (r, t) \<Longrightarrow>
   db_runs t = db_runs s \<and> db_columns t = db_columns s \<and> db_boards t = db_boards s"
  by (auto simp: number_cards_eq)

section \<open>Order after an update of one card\<close>

lemma lane_others:
  assumes "\<And>c. cd_id c = i \<Longrightarrow> cd_id (f c) = i"
  shows "filter (\<lambda>c. cd_id c \<noteq> i) (update_where (\<lambda>c. cd_id c = i) f rows) = filter (\<lambda>c. cd_id c \<noteq> i) rows"
  using assms by (induction rows) (auto simp: update_where_def)

lemma order_others_update:
  assumes "t = s\<lparr>db_cards := update_where (\<lambda>c. cd_id c = i) f (db_cards s)\<rparr>"
    and "\<And>c. cd_id c = i \<Longrightarrow> cd_id (f c) = i"
  shows "filter (\<lambda>j. j \<noteq> i) (order_of t col) = filter (\<lambda>j. j \<noteq> i) (order_of s col)"
  unfolding other_cards_eq [symmetric] other_cards_def
  using lane_others [OF assms(2)] by (simp add: assms(1))

lemma place_order_cong:
  "(\<And>c. filter (\<lambda>j. j \<noteq> i) (A c) = filter (\<lambda>j. j \<noteq> i) (B c)) \<Longrightarrow> place_order i col pos A = place_order i col pos B"
  by (simp add: fun_eq_iff place_order_def)

lemma compact_update_elsewhere:
  assumes "t = s\<lparr>db_cards := update_where (\<lambda>c. cd_id c = i) f (db_cards s)\<rparr>"
    and "\<And>c. c \<in> set (db_cards s) \<Longrightarrow> cd_id c = i \<Longrightarrow> cd_column_id c \<noteq> k \<and> cd_column_id (f c) \<noteq> k"
  shows "column_cards t k = column_cards s k"
proof -
  have "filter (\<lambda>c. cd_column_id c = k) (update_where (\<lambda>c. cd_id c = i) f rows) =
        filter (\<lambda>c. cd_column_id c = k) rows" if "set rows \<subseteq> set (db_cards s)" for rows
    using that assms(2) by (induction rows) (auto simp: update_where_def)
  then show ?thesis by (simp add: column_cards_def lane_def assms(1))
qed

text \<open>Putting card \<open>i\<close> into column \<open>col\<close> of board \<open>b\<close> and placing it there.\<close>

lemma relocate:
  assumes s: "schema_ok s" and sp: "card_places s \<subseteq> column_boards s" and c: "find_card s i = Some c"
    and k: "(col, b) \<in> column_boards s"
    and f: "\<And>x. cd_column_id (f s x) = col" and fb: "cd_board_id (f s c) = b"
    and u: "update_card_where i f s = (Inr n, s1)"
    and p: "place_card_in_column i col pos s1 = (r, s2)"
  shows "r = Inr ()" and "schema_ok s2" and "card_places s2 \<subseteq> column_boards s2"
    and "order_of s2 = place_order i col pos (order_of s)"
    and "\<And>k. k = col \<or> k \<noteq> cd_column_id c \<and> compact_column s k \<Longrightarrow> compact_column s2 k"
    and "db_runs s2 = db_runs s" and "db_columns s2 = db_columns s" and "db_boards s2 = db_boards s"
    and "i \<in> cd_id ` set (db_cards s2)"
proof -
  let ?g = "\<lambda>c. (f s c)\<lparr>cd_id := i\<rparr>"
  note s1 = update_card_where_ok(1) [OF u]
  have g: "\<And>c. cd_id (?g c) = i" by simp
  have ok1: "schema_ok s1" using keepsD [OF keeps_update_card_where s u] .
  have "?g c \<in> set (db_cards s1)"
    using c by (auto simp: find_card_Some [OF s] s1 update_where_def)
  then have c1: "find_card s1 i = Some (?g c)"
    by (simp add: find_card_Some [OF ok1])
  have col1: "cd_column_id (?g c) = col" by (simp add: f)
  note pl = place_card_order [OF ok1 c1 col1 p]
  show "r = Inr ()" "schema_ok s2" by (fact pl(1), fact pl(5))
  show "order_of s2 = place_order i col pos (order_of s)"
    unfolding pl(2) by (rule place_order_cong, rule order_others_update [OF s1]) simp
  have s2: "s2 = s1\<lparr>db_cards := renumber cd_id set_cd_pos 0
      (insert_at (insert_index pos (length (other_cards s1 col i))) i (other_cards s1 col i)) (db_cards s1)\<rparr>"
    using p place_card_eq [OF ok1] by simp
  have d: "distinct (insert_at (insert_index pos (length (other_cards s1 col i))) i (other_cards s1 col i))"
    by (intro distinct_insert_at distinct_other_cards ok1) (auto simp: other_cards_set)
  have places: "card_places s2 = card_places s1"
    unfolding card_places_def s2
    using card_lane.renumber_frame [OF d, where f = "\<lambda>c. (cd_column_id c, cd_board_id c)" and p = 0 and rows = "db_cards s1"]
    by (simp add: set_cd_pos_def) (metis list.set_map)
  have "x = c" if "x \<in> set (db_cards s)" "cd_id x = i" for x
    using that c card_unique [OF s] by (auto simp: find_card_Some [OF s])
  then have "card_places s1 \<subseteq> insert (col, b) (card_places s)"
    using fb by (auto simp: card_places_def s1 update_where_def f split: if_splits)
  also have "\<dots> \<subseteq> column_boards s" using k sp by auto
  finally show "card_places s2 \<subseteq> column_boards s2"
    unfolding places by (simp add: column_boards_def s2 s1)
  show "db_runs s2 = db_runs s" "db_columns s2 = db_columns s" "db_boards s2 = db_boards s"
    by (simp_all add: s2 s1)
  have "map cd_id (db_cards s2) = map cd_id (db_cards s1)"
    by (simp add: s2 card_lane.renumber_keys)
  moreover have "i \<in> set (map cd_id (db_cards s1))"
    using c1 by (force simp: find_card_Some [OF ok1])
  ultimately show "i \<in> cd_id ` set (db_cards s2)" by (metis list.set_map)
  show "compact_column s2 k" if "k = col \<or> k \<noteq> cd_column_id c \<and> compact_column s k" for k
  proof (cases "k = col")
    case True
    then show ?thesis using pl(3) by simp
  next
    case False
    have "column_cards s1 k = column_cards s k"
    proof (rule compact_update_elsewhere [OF s1])
      fix x assume "x \<in> set (db_cards s)" "cd_id x = i"
      then have "x = c" using c card_unique [OF s] by (auto simp: find_card_Some [OF s])
      then show "cd_column_id x \<noteq> k \<and> cd_column_id (?g x) \<noteq> k" using False that by (simp add: f)
    qed
    then have "compact_column s1 k = compact_column s k" by (simp add: compact_column_def)
    then show ?thesis using pl(4) [OF False] False that by simp
  qed
qed

lemma renumber_source:
  assumes ok: "schema_ok s" and places: "card_places s \<subseteq> column_boards s"
    and comp: "\<And>k. k \<noteq> old \<Longrightarrow> compact_column s k"
    and r: "renumber_column_cards old s = (r, t)"
  shows "r = Inr ()" and "board_inv t" and "order_of t = order_of s"
    and "db_runs t = db_runs s" and "db_columns t = db_columns s" and "db_boards t = db_boards s"
    and "cd_id ` set (db_cards t) = cd_id ` set (db_cards s)"
proof -
  note o = renumber_order [OF ok r]
  show "r = Inr ()" "order_of t = order_of s" by (fact o(1), fact o(2))
  have t: "t = s\<lparr>db_cards := renumber cd_id set_cd_pos 0 (order_of s old) (db_cards s)\<rparr>"
    using r renumber_column_eq [OF ok] by simp
  have "card_places t = card_places s"
    unfolding card_places_def t
    using card_lane.renumber_frame [OF distinct_order_of [OF ok],
        where f = "\<lambda>c. (cd_column_id c, cd_board_id c)" and p = 0 and rows = "db_cards s"]
    by (simp add: set_cd_pos_def) (metis list.set_map)
  moreover have "compact_cards t"
    unfolding compact_cards_def using o(3,4) comp by metis
  ultimately show "board_inv t"
    using o(5) places by (simp add: board_inv_def column_boards_def t)
  show "db_runs t = db_runs s" "db_columns t = db_columns s" "db_boards t = db_boards s"
    by (simp_all add: t)
  have "map cd_id (db_cards t) = map cd_id (db_cards s)"
    by (simp add: t card_lane.renumber_keys)
  then show "cd_id ` set (db_cards t) = cd_id ` set (db_cards s)" by (metis list.set_map)
qed

section \<open>Operations that do not touch the order\<close>

lemma update_card_where_frame:
  assumes inv: "board_inv s"
    and f: "\<And>c. cd_column_id (f s c) = cd_column_id c" "\<And>c. cd_board_id (f s c) = cd_board_id c"
      "\<And>c. cd_position (f s c) = cd_position c"
    and u: "update_card_where i f s = (Inr n, t)"
  shows "board_inv t" and "order_of t = order_of s"
proof -
  note s = board_invD [OF inv]
  note t = update_card_where_ok(1) [OF u]
  let ?g = "\<lambda>c. if cd_id c = i then (f s c)\<lparr>cd_id := i\<rparr> else c"
  have g: "\<And>c. cd_column_id (?g c) = cd_column_id c" "\<And>c. cd_id (?g c) = cd_id c"
    "\<And>c. cd_position (?g c) = cd_position c" "\<And>c. cd_board_id (?g c) = cd_board_id c"
    by (simp_all add: f)
  have lane: "column_cards t col = map ?g (column_cards s col)" for col
  proof -
    have "filter (\<lambda>c. cd_column_id c = col) (map ?g rows) = map ?g (filter (\<lambda>c. cd_column_id c = col) rows)"
      for rows by (simp add: filter_map o_def g)
    then show ?thesis
      unfolding column_cards_def lane_def t db.simps update_where_def
      by (simp add: sort_key_map_commute [where g = ?g] g del: map_map)
  qed
  show "order_of t = order_of s"
    by (simp add: fun_eq_iff order_of_def lane o_def g cong: if_cong del: if_image_distrib)
  have "compact_cards t"
    using inv by (simp add: board_inv_def compact_cards_def compact_column_def lane o_def g cong: if_cong)
  moreover have "card_places t = card_places s"
  proof -
    have "db_cards t = map ?g (db_cards s)" by (simp add: t update_where_def)
    then show ?thesis
      by (simp add: card_places_def image_image g del: if_image_distrib)
  qed
  ultimately show "board_inv t"
    using keepsD [OF keeps_update_card_where s u] inv by (simp add: board_inv_def column_boards_def t)
qed

end
