(* ===== verification/Store_Card_Laws.thy ===== *)
theory Store_Card_Laws
  imports Store_Order
begin

text \<open>
  What each card operation does, on success and on failure. Every lemma is a \<open>wp\<close>
  triple from a state with the board invariant: the success part gives the new invariant, the
  new order (as an operation on the abstract order) and the frame, the failure part says the
  store is unchanged.
\<close>

lemma update_card_where_total:
  assumes "schema_ok s" and "find_card s i = Some c" and "card_check (f s c)" and "card_fk s (f s c)"
  shows "\<exists>n t. update_card_where i f s = (Inr n, t)"
proof -
  have "x = c" if "x \<in> set (db_cards s)" "cd_id x = i" for x
    using that assms(1,2) card_unique by (auto simp: find_card_Some)
  then have "list_all (\<lambda>x. card_check ((f s x)\<lparr>cd_id := cd_id x\<rparr>)) (filter (\<lambda>x. cd_id x = i) (db_cards s))"
    "list_all (\<lambda>x. card_fk s ((f s x)\<lparr>cd_id := cd_id x\<rparr>)) (filter (\<lambda>x. cd_id x = i) (db_cards s))"
    using assms(3,4) by (auto simp: list_all_iff card_check_def card_fk_def)
  then show ?thesis by (simp add: update_card_where_def update_cards_def Let_def)
qed

lemma column_boards_fk: "schema_ok s \<Longrightarrow> (col, b) \<in> column_boards s \<Longrightarrow>
    col \<in> col_id ` set (db_columns s) \<and> b \<in> br_id ` set (db_boards s)"
  by (auto simp: column_boards_def schema_ok_def column_fk_def)

lemma wp_relocate:
  assumes inv: "board_inv s" and c: "find_card s i = Some c"
    and k: "(col, b) \<in> column_boards s"
    and f: "\<And>x. cd_column_id (f s x) = col" and fb: "cd_board_id (f s c) = b"
    and chk: "card_check (f s c)"
    and Q: "\<And>t. board_inv t \<Longrightarrow> order_of t = place_order i col pos (order_of s) \<Longrightarrow>
      db_runs t = db_runs s \<Longrightarrow> db_columns t = db_columns s \<Longrightarrow> db_boards t = db_boards s \<Longrightarrow>
      i \<in> cd_id ` set (db_cards t) \<Longrightarrow> Q t"
    and m: "m = renumber_column_cards (cd_column_id c) \<or>
      m = (if cd_column_id c \<noteq> col then renumber_column_cards (cd_column_id c) else returnT ())"
  shows "wp (update_card_where i f) (\<lambda>_. wp (place_card_in_column i col pos) (\<lambda>_. wp m (\<lambda>_. Q) E) E) E s"
proof -
  have "card_fk s (f s c)"
    using column_boards_fk [OF board_invD [OF inv] k] f fb by (simp add: card_fk_def)
  then obtain n s1 where u: "update_card_where i f s = (Inr n, s1)"
    using update_card_where_total [OF board_invD [OF inv] c, where f = f] chk by blast
  obtain r s2 where p: "place_card_in_column i col pos s1 = (r, s2)" by fastforce
  note rel = relocate [OF board_invD [OF inv] _ c k f fb u p]
  have comp0: "\<And>k. compact_column s k" using inv by (simp add: board_inv_def compact_cards_def)
  have sp: "card_places s \<subseteq> column_boards s" using inv by (simp add: board_inv_def)
  note rel = rel [OF sp]
  obtain r' t where rn: "renumber_column_cards (cd_column_id c) s2 = (r', t)" by fastforce
  have comp: "\<And>k. k \<noteq> cd_column_id c \<Longrightarrow> compact_column s2 k" using rel(5) comp0 by blast
  note ren = renumber_source [OF rel(2,3) comp rn]
  have "wp m (\<lambda>_. Q) E s2"
  proof (cases "m = renumber_column_cards (cd_column_id c)")
    case True
    then show ?thesis
      using Q [OF ren(2)] ren rel rn by (simp add: wp_def)
  next
    case False
    then have m': "m = returnT ()" and col: "cd_column_id c = col" using m by (auto split: if_splits)
    have "board_inv s2" using rel(2,3,5) col comp0 by (auto simp: board_inv_def compact_cards_def)
    then show ?thesis
      using Q rel m' by (simp add: wp_def returnT_def)
  qed
  then show ?thesis
    using u p rel(1) by (simp add: wp_def)
qed

lemma card_check_find: "schema_ok s \<Longrightarrow> find_card s i = Some c \<Longrightarrow> card_check c"
  by (auto simp: find_card_Some schema_ok_def)

lemma column_boards_find: "find_column s k = Some c \<Longrightarrow> (k, col_board_id c) \<in> column_boards s"
  by (auto simp: column_boards_def find_column_def image_iff dest!: lookup_Some)

lemma find_card_None: "find_card s i = None \<longleftrightarrow> i \<notin> cd_id ` set (db_cards s)"
  by (simp add: find_card_def lookup_None)

lemma find_run_None: "find_run s i = None \<longleftrightarrow> i \<notin> rn_id ` set (db_runs s)"
  by (simp add: find_run_def lookup_None)

lemma board_inv_frame:
  assumes "board_inv s" "schema_ok t" "db_cards t = db_cards s" "db_columns t = db_columns s"
  shows "board_inv t" "order_of t = order_of s"
  using assms
  by (simp_all add: board_inv_def compact_cards_def compact_column_def column_cards_def card_places_def
      column_boards_def order_of_def fun_eq_iff)

lemma update_card_ids:
  "update_card_where i f s = (Inr n, t) \<Longrightarrow> cd_id ` set (db_cards t) = cd_id ` set (db_cards s)"
proof -
  assume u: "update_card_where i f s = (Inr n, t)"
  have "map cd_id (db_cards t) = map cd_id (db_cards s)"
    by (simp add: update_card_where_ok(1) [OF u] update_where_def)
  then show ?thesis by (metis list.set_map)
qed

text \<open>The run that \<open>enqueue_run_tx\<close> adds, and what it leaves alone.\<close>

lemma enqueue_run_tx_ok:
  assumes inv: "board_inv s" and e: "enqueue_run_tx i p s = (Inr r, t)"
  shows "board_inv t" and "order_of t = order_of s" and "r = next_id rn_id (db_runs s)"
    and "db_runs t = insert_row rn_id set_rn_id (queued_run i p) (db_runs s)"
    and "cd_id ` set (db_cards t) = cd_id ` set (db_cards s)"
    and "i \<in> cd_id ` set (db_cards s)"
    and "\<And>c. c \<in> set (db_cards t) \<Longrightarrow> cd_id c = i \<Longrightarrow>
           cd_status c = Queued \<and> (er_session_id p \<noteq> None \<longrightarrow> cd_session_id c = er_session_id p)"
    and "db_columns t = db_columns s" and "db_boards t = db_boards s"
    and "\<not> (\<exists>q \<in> set (db_runs s). open_run q \<and> rn_card_id q = i)"
proof -
  from e obtain s1 n where ins: "insert_run (queued_run i p) s = (Inr r, s1)"
    and up: "update_card_where i (\<lambda>s c. touch s (c\<lparr>cd_status := Queued, cd_awaiting_reason := None,
             cd_session_id := or_else (er_session_id p) (cd_session_id c)\<rparr>)) s1 = (Inr n, t)" and n: "n = 1"
    by (auto simp: enqueue_run_tx_def tx_ok lifecycle_fault_ok_iff)
  have s1: "s1 = s\<lparr>db_runs := insert_row rn_id set_rn_id (queued_run i p) (db_runs s)\<rparr>"
    and r: "r = next_id rn_id (db_runs s)"
    and uniq: "\<not> (open_run (queued_run i p) \<and> rn_card_id (queued_run i p) \<in> rn_card_id ` set (filter open_run (db_runs s)))"
    using ins by (auto simp: insert_run_def split: if_splits)
  have ok1: "schema_ok s1" using keepsD [OF keeps_insert_run board_invD [OF inv] ins] .
  note i1 = board_inv_frame [OF inv ok1, unfolded s1, simplified, folded s1]
  note up' = update_card_where_frame [OF i1(1) _ _ _ up, simplified touch_def, simplified]
  show "board_inv t" "order_of t = order_of s" using up' i1(2) by simp_all
  note t = update_card_where_ok(1) [OF up]
  show "r = next_id rn_id (db_runs s)" by (fact r)
  show "db_runs t = insert_row rn_id set_rn_id (queued_run i p) (db_runs s)" by (simp add: t s1)
  show "cd_id ` set (db_cards t) = cd_id ` set (db_cards s)"
    using update_card_ids [OF up] by (simp add: s1)
  have "filter (\<lambda>c. cd_id c = i) (db_cards s) \<noteq> []"
    using update_card_where_ok(2) [OF up] n by (auto simp: s1)
  then show "i \<in> cd_id ` set (db_cards s)" by (auto simp: filter_empty_conv)
  show "cd_status c = Queued \<and> (er_session_id p \<noteq> None \<longrightarrow> cd_session_id c = er_session_id p)"
    if "c \<in> set (db_cards t)" "cd_id c = i" for c
  proof -
    let ?g = "\<lambda>x. (touch s (x\<lparr>cd_status := Queued, cd_awaiting_reason := None,
                 cd_session_id := or_else (er_session_id p) (cd_session_id x)\<rparr>))\<lparr>cd_id := i\<rparr>"
    have m: "db_cards t = map (\<lambda>x. if cd_id x = i then ?g x else x) (db_cards s)"
      by (simp add: t s1 update_where_def touch_def)
    have "c \<in> (\<lambda>x. if cd_id x = i then ?g x else x) ` set (db_cards s)"
      using that(1) by (simp only: m set_map)
    then obtain x where x: "c = (if cd_id x = i then ?g x else x)" by blast
    with that(2) have "c = ?g x" by (auto split: if_splits)
    then show ?thesis by (auto simp: touch_def or_else_def split: option.splits)
  qed
  show "db_columns t = db_columns s" "db_boards t = db_boards s" by (simp_all add: t s1)
  show "\<not> (\<exists>q \<in> set (db_runs s). open_run q \<and> rn_card_id q = i)"
    using uniq by (force simp: open_run_def queued_run_def)
qed

definition move_allowed :: "db \<Rightarrow> int \<Rightarrow> int \<Rightarrow> bool" where
  "move_allowed s i col \<longleftrightarrow>
     (\<exists>c k. find_card s i = Some c \<and> find_column s col = Some k \<and> col_board_id k = cd_board_id c)"

lemma move_card_wp:
  assumes inv: "board_inv s"
  shows "wp (move_card i col pos)
    (\<lambda>c t. move_allowed s i col \<and> board_inv t \<and> order_of t = place_order i col pos (order_of s) \<and>
       db_runs t = db_runs s \<and> db_columns t = db_columns s \<and> db_boards t = db_boards s \<and>
       find_card t i = Some c)
    (\<lambda>_ t. t = s \<and> \<not> move_allowed s i col) s"
proof (cases "move_allowed s i col")
  case False
  then show ?thesis by (auto simp: move_allowed_def move_card_def tx_simps split: option.splits)
next
  case True
  then obtain c k where c: "find_card s i = Some c" and k: "find_column s col = Some k"
    and b: "col_board_id k = cd_board_id c" by (auto simp: move_allowed_def)
  have kb: "(col, cd_board_id c) \<in> column_boards s" using column_boards_find [OF k] b by simp
  have chk: "card_check c" by (rule card_check_find [OF board_invD [OF inv] c])
  show ?thesis
    apply (simp add: move_card_def tx_simps c k b True split del: if_split)
    apply (rule wp_relocate [OF inv c kb])
       apply (simp_all add: touch_def chk [unfolded card_check_def] card_check_def)
    apply (auto simp: find_card_None split: option.splits)
    done
qed

section \<open>Transfers and queueing moves\<close>

definition transfer_allowed :: "db \<Rightarrow> int \<Rightarrow> int \<Rightarrow> int \<Rightarrow> bool" where
  "transfer_allowed s i b col \<longleftrightarrow>
     find_card s i \<noteq> None \<and> find_board s b \<noteq> None \<and>
     (\<exists>k. find_column s col = Some k \<and> col_board_id k = b)"

lemma transfer_card_wp:
  assumes inv: "board_inv s"
  shows "wp (transfer_card i b col pos)
    (\<lambda>c t. transfer_allowed s i b col \<and> board_inv t \<and> order_of t = place_order i col pos (order_of s) \<and>
       db_runs t = db_runs s \<and> find_card t i = Some c)
    (\<lambda>_ t. t = s \<and> \<not> transfer_allowed s i b col) s"
proof (cases "transfer_allowed s i b col")
  case False
  then show ?thesis by (auto simp: transfer_allowed_def transfer_card_def tx_simps split: option.splits)
next
  case True
  then obtain c bd k where c: "find_card s i = Some c" and b: "find_board s b = Some bd"
    and k: "find_column s col = Some k" "col_board_id k = b"
    by (auto simp: transfer_allowed_def)
  have kb: "(col, b) \<in> column_boards s" using column_boards_find [OF k(1)] k(2) by simp
  have chk: "card_check c" by (rule card_check_find [OF board_invD [OF inv] c])
  show ?thesis
    apply (simp add: transfer_card_def tx_simps c b k True)
    apply (rule wp_relocate [OF inv c kb])
       apply (simp_all add: touch_def chk [unfolded card_check_def] card_check_def)
    apply (auto simp: find_card_None split: option.splits)
    done
qed

definition queued_on :: "int \<Rightarrow> int \<Rightarrow> card \<times> run \<Rightarrow> db \<Rightarrow> bool" where
  \<comment> \<open>the card is queued and the returned run is its one open, not yet started run\<close>
  "queued_on i col r t \<longleftrightarrow>
     find_card t i = Some (fst r) \<and> cd_status (fst r) = Queued \<and> find_run t (rn_id (snd r)) = Some (snd r) \<and>
     rn_card_id (snd r) = i \<and> rn_column_id (snd r) = col \<and> open_run (snd r) \<and> rn_started_at (snd r) = None"

lemma wp_enqueue_then_read:
  assumes inv: "board_inv t"
    and Q: "\<And>c q u. board_inv u \<Longrightarrow> order_of u = order_of t \<Longrightarrow>
        queued_on i (er_column_id run) (c, q) u \<Longrightarrow> db_runs u = insert_row rn_id set_rn_id (queued_run i run) (db_runs t) \<Longrightarrow> Q c q u"
    and E: "\<And>e u. E e u"
  shows "wp (enqueue_run_tx i run)
    (\<lambda>r u. case find_card u i of None \<Rightarrow> X r u
       | Some c \<Rightarrow> (case find_run u r of None \<Rightarrow> Y r c u | Some q \<Rightarrow> Q c q u)) E t"
proof (rule wpI)
  fix r u assume e: "enqueue_run_tx i run t = (Inr r, u)"
  note q = enqueue_run_tx_ok [OF inv e]
  obtain c where c: "find_card u i = Some c" using q(5,6) find_card_None [of u i] by auto
  have fr: "find_run u r = Some (set_rn_id r (queued_run i run))"
    using runs_t.lookup_insert [of "db_runs t"] by (simp add: find_run_def q(3,4))
  have "c \<in> set (db_cards u) \<and> cd_id c = i" using c by (simp add: find_card_def lookup_Some)
  with q(7) have "cd_status c = Queued" by blast
  then have "queued_on i (er_column_id run) (c, set_rn_id r (queued_run i run)) u"
    using c fr by (simp add: queued_on_def set_rn_id_def queued_run_def open_run_def)
  with Q q(1,2,4) show "case find_card u i of None \<Rightarrow> X r u
       | Some c \<Rightarrow> (case find_run u r of None \<Rightarrow> Y r c u | Some q \<Rightarrow> Q c q u)"
    by (simp add: c fr)
qed (rule E)

lemma move_card_and_enqueue_wp:
  assumes inv: "board_inv s"
  shows "wp (move_card_and_enqueue i col pos run)
    (\<lambda>r t. board_inv t \<and> order_of t = place_order i col pos (order_of s) \<and> queued_on i col r t \<and>
       db_runs t = insert_row rn_id set_rn_id (queued_run i run) (db_runs s))
    (\<lambda>_ t. t = s) s"
proof -
  consider (bad) "\<not> move_allowed s i col \<or> er_card_id run \<noteq> i \<or> er_column_id run \<noteq> col \<or> find_open_run s i \<noteq> None"
    | (good) c k where "find_card s i = Some c" "find_column s col = Some k" "col_board_id k = cd_board_id c"
      "er_card_id run = i" "er_column_id run = col" "find_open_run s i = None"
    by (auto simp: move_allowed_def)
  then show ?thesis
  proof cases
    case bad
    then show ?thesis
      by (auto simp: move_card_and_enqueue_def move_allowed_def tx_simps split: option.splits)
  next
    case good
    have kb: "(col, cd_board_id c) \<in> column_boards s" using column_boards_find [OF good(2)] good(3) by simp
    have chk: "card_check c" by (rule card_check_find [OF board_invD [OF inv] good(1)])
    show ?thesis
      apply (simp add: move_card_and_enqueue_def tx_simps good split del: if_split)
      apply (rule wp_relocate [OF inv good(1) kb])
         apply (simp_all add: touch_def chk [unfolded card_check_def] card_check_def)
      apply (rule wp_enqueue_then_read, assumption)
      apply (simp_all add: good)
      done
  qed
qed

lemma transfer_card_and_enqueue_wp:
  assumes inv: "board_inv s"
  shows "wp (transfer_card_and_enqueue i b col pos run)
    (\<lambda>r t. board_inv t \<and> order_of t = place_order i col pos (order_of s) \<and> queued_on i col r t \<and>
       db_runs t = insert_row rn_id set_rn_id (queued_run i run) (db_runs s))
    (\<lambda>_ t. t = s) s"
proof -
  consider (bad) "\<not> transfer_allowed s i b col \<or> er_card_id run \<noteq> i \<or> er_column_id run \<noteq> col \<or> find_open_run s i \<noteq> None"
    | (good) c bd k where "find_card s i = Some c" "find_board s b = Some bd" "find_column s col = Some k"
      "col_board_id k = b" "er_card_id run = i" "er_column_id run = col" "find_open_run s i = None"
    by (auto simp: transfer_allowed_def)
  then show ?thesis
  proof cases
    case bad
    then show ?thesis
      by (auto simp: transfer_card_and_enqueue_def transfer_allowed_def tx_simps split: option.splits)
  next
    case good
    have kb: "(col, b) \<in> column_boards s" using column_boards_find [OF good(3)] good(4) by simp
    have chk: "card_check c" by (rule card_check_find [OF board_invD [OF inv] good(1)])
    show ?thesis
      apply (simp add: transfer_card_and_enqueue_def tx_simps good)
      apply (rule wp_relocate [OF inv good(1) kb])
         apply (simp_all add: touch_def chk [unfolded card_check_def] card_check_def)
      apply (rule wp_enqueue_then_read, assumption)
      apply (simp_all add: good)
      done
  qed
qed

section \<open>New cards\<close>

lemma end_position_lane:
  assumes "compact_column s col"
  shows "end_position cd_column_id cd_position col (db_cards s) = int (length (column_cards s col))"
    and "c \<in> set (column_cards s col) \<Longrightarrow> cd_position c < int (length (column_cards s col))"
proof -
  let ?L = "column_cards s col"
  have ps: "cd_position ` set ?L = int ` {0..<length ?L}"
    using arg_cong [OF assms [unfolded compact_column_def], of set] by simp
  have L: "set ?L = {c \<in> set (db_cards s). cd_column_id c = col}"
    by (simp add: column_cards_def card_lane.lane_set)
  show "c \<in> set ?L \<Longrightarrow> cd_position c < int (length ?L)" using ps by force
  show "end_position cd_column_id cd_position col (db_cards s) = int (length ?L)"
    using end_position_numbered [of cd_position "db_cards s" cd_column_id col "length ?L"] ps L by simp
qed

lemma insert_card_end:
  assumes inv: "board_inv s" and ins: "insert_card c s = (Inr i, t)"
    and pos: "cd_position c = end_position cd_column_id cd_position (cd_column_id c) (db_cards s)"
    and k: "(cd_column_id c, cd_board_id c) \<in> column_boards s"
  shows "board_inv t" and "i \<notin> cd_id ` set (db_cards s)"
    and "order_of t = (order_of s)(cd_column_id c := order_of s (cd_column_id c) @ [i])"
    and "find_card t i = Some (set_cd_id i c)" and "db_runs t = db_runs s" and "db_columns t = db_columns s"
    and "db_boards t = db_boards s" and "db_projects t = db_projects s"
proof -
  let ?col = "cd_column_id c" and ?c = "set_cd_id i c"
  have t: "t = s\<lparr>db_cards := db_cards s @ [?c]\<rparr>" and i: "i = next_id cd_id (db_cards s)"
    using ins by (auto simp: insert_card_def insert_row_def split: if_splits)
  show new: "i \<notin> cd_id ` set (db_cards s)" unfolding i by (rule next_id_notin)
  have comp: "\<And>col. compact_column s col" using inv by (simp add: board_inv_def compact_cards_def)
  note e = end_position_lane [OF comp [of ?col]]
  have L: "set (column_cards s ?col) = {c \<in> set (db_cards s). cd_column_id c = ?col}"
    by (simp add: column_cards_def card_lane.lane_set)
  have lane: "column_cards t col = (if col = ?col then column_cards s col @ [?c] else column_cards s col)" for col
  proof (cases "col = ?col")
    case True
    have "\<forall>y \<in> set (filter (\<lambda>r. cd_column_id r = ?col) (db_cards s)).
        (cd_position y, cd_id y) < (cd_position ?c, cd_id ?c)"
      using e(2) by (auto simp: L less_prod_def set_cd_id_def pos e(1))
    from sort_key_append_last [OF this] show ?thesis
      using True by (simp add: column_cards_def lane_def t set_cd_id_def)
  next
    case False
    then show ?thesis by (auto simp: column_cards_def lane_def t set_cd_id_def)
  qed
  show "order_of t = (order_of s)(?col := order_of s ?col @ [i])"
    by (auto simp: fun_eq_iff order_of_def lane set_cd_id_def)
  have "compact_cards t"
    using comp e(1) pos
    by (auto simp: compact_cards_def compact_column_def lane set_cd_id_def)
  moreover have "card_places t \<subseteq> column_boards t"
    using inv k by (auto simp: board_inv_def card_places_def column_boards_def t set_cd_id_def)
  moreover have ok: "schema_ok t" using keepsD [OF keeps_insert_card board_invD [OF inv] ins] .
  ultimately show "board_inv t" by (simp add: board_inv_def)
  show "find_card t i = Some ?c"
    unfolding find_card_Some [OF ok] by (simp add: t set_cd_id_def)
  show "db_runs t = db_runs s" "db_columns t = db_columns s" "db_boards t = db_boards s"
    "db_projects t = db_projects s" by (simp_all add: t)
qed

lemma place_order_new:
  assumes "\<forall>k. i \<notin> set (A k)"
  shows "place_order i col None A = A(col := A col @ [i])"
    and "place_order i col pos (A(col := A col @ [i])) = place_order i col pos A"
  using assms by (auto simp: fun_eq_iff place_order_def Let_def insert_index_def insert_at_end
      filter_id_conv intro!: filter_True [symmetric])

lemma wp_mono:
  "wp m Q E s \<Longrightarrow> (\<And>x t. Q x t \<Longrightarrow> Q' x t) \<Longrightarrow> (\<And>e t. E e t \<Longrightarrow> E' e t) \<Longrightarrow> wp m Q' E' s"
  by (auto simp: wp_def split: prod.splits sum.splits)

lemma new_card_fields [simp]:
  "cd_column_id (new_card b col pos p now) = col" "cd_board_id (new_card b col pos p now) = b"
  "cd_position (new_card b col pos p now) = pos" "card_check (new_card b col pos p now)"
  "cd_status (new_card b col pos p now) = Idle" "cd_id (new_card b col pos p now) = 0"
  by (simp_all add: new_card_def card_check_def)

lemma insert_new_card_ok:
  assumes inv: "board_inv s" and k: "(col, b) \<in> column_boards s"
  obtains i t where "insert_new_card b col p s = (Inr i, t)" and "board_inv t"
    and "\<forall>k. i \<notin> set (order_of s k)"
    and "order_of t = (order_of s)(col := order_of s col @ [i])"
    and "\<exists>c. find_card t i = Some c \<and> cd_column_id c = col \<and> cd_board_id c = b"
    and "db_runs t = db_runs s" and "db_columns t = db_columns s" and "db_boards t = db_boards s"
    and "i \<notin> cd_id ` set (db_cards s)"
proof -
  let ?c = "new_card b col (end_position cd_column_id cd_position col (db_cards s)) p (db_now s)"
  have "card_fk s ?c"
    using column_boards_fk [OF board_invD [OF inv] k] by (simp add: card_fk_def)
  then obtain i t where ins: "insert_card ?c s = (Inr i, t)"
    by (simp add: insert_card_def)
  note e = insert_card_end [OF inv ins, simplified, OF k]
  have "\<forall>k. i \<notin> set (order_of s k)" using e(2) by (auto simp: order_of_set)
  moreover have "insert_new_card b col p s = (Inr i, t)" using ins by (simp add: insert_new_card_def)
  ultimately show ?thesis using that e by (simp add: set_cd_id_def)
qed

text \<open>
  Creating a card puts a new id at the requested place of its column and never touches another
  column. Once the board and the column are checked nothing can fail.
\<close>

lemma create_card_wp:
  assumes inv: "board_inv s"
  shows "wp (create_card p)
    (\<lambda>c t. board_inv t \<and> cd_id c \<notin> cd_id ` set (db_cards s) \<and> find_card t (cd_id c) = Some c \<and>
       order_of t = place_order (cd_id c) (cd_column_id c) (kc_position p) (order_of s) \<and>
       db_runs t = db_runs s)
    (\<lambda>_ t. t = s) s"
proof -
  let ?b = "set_if (kc_board_id p) board_id_default"
  have main: "wp (bindT (insert_new_card ?b col p) (\<lambda>i.
        thenT (case kc_position p of Some pos \<Rightarrow> thenT (move_card i col (Some pos)) (returnT ())
               | None \<Rightarrow> returnT ()) (require_card i)))
    (\<lambda>c t. board_inv t \<and> cd_id c \<notin> cd_id ` set (db_cards s) \<and> find_card t (cd_id c) = Some c \<and>
       order_of t = place_order (cd_id c) (cd_column_id c) (kc_position p) (order_of s) \<and>
       db_runs t = db_runs s) (\<lambda>_ t. t = s) s" (is "wp _ ?Q ?E s")
    if k: "find_column s col = Some k" "col_board_id k = ?b" for col k
  proof -
    have kb: "(col, ?b) \<in> column_boards s" using column_boards_find [OF k(1)] k(2) by simp
    obtain i t where ins: "insert_new_card ?b col p s = (Inr i, t)" and bt: "board_inv t"
      and new: "\<forall>k. i \<notin> set (order_of s k)"
      and ord: "order_of t = (order_of s)(col := order_of s col @ [i])"
      and fc: "\<exists>c. find_card t i = Some c \<and> cd_column_id c = col \<and> cd_board_id c = ?b"
      and fr: "db_runs t = db_runs s" "db_columns t = db_columns s" "db_boards t = db_boards s"
      and ni: "i \<notin> cd_id ` set (db_cards s)"
      by (rule insert_new_card_ok [OF inv kb, where p = p])
    obtain c where c: "find_card t i = Some c" "cd_column_id c = col" "cd_board_id c = ?b" using fc by blast
    have idc: "cd_id x = i" if "find_card u i = Some x" for u x
      using that by (simp add: find_card_def lookup_Some)
    show ?thesis
    proof (cases "kc_position p")
      case None
      then show ?thesis
        using bt new ord c fr ni idc [OF c(1)] place_order_new [of i "order_of s"]
        by (simp add: tx_simps wp_def [of "insert_new_card ?b col p"] ins)
    next
      case (Some pos)
      have allowed: "move_allowed t i col"
        using c k by (simp add: move_allowed_def find_column_def fr)
      have col: "cd_column_id x = col" if "find_card u i = Some x" "board_inv u"
        "order_of u = place_order i col (Some pos) (order_of t)" for u x
      proof -
        have "i \<in> set (order_of u col)" using that(3) by (simp add: place_order_def Let_def)
        then obtain y where "y \<in> set (db_cards u)" "cd_id y = i" "cd_column_id y = col"
          by (auto simp: order_of_set)
        then show ?thesis
          using that(1) card_unique [OF board_invD [OF that(2)]]
          by (auto simp: find_card_Some [OF board_invD [OF that(2)]])
      qed
      show ?thesis
        apply (simp add: tx_simps Some wp_def [of "insert_new_card ?b col p"] ins)
        apply (rule wp_mono [OF move_card_wp [OF bt]])
         apply (use allowed fr ni idc col place_order_new [of i "order_of s"] new ord in auto)
        done
    qed
  qed
  have main2: "wp (bindT (require_column col) (\<lambda>column.
       thenT (ensureT (col_board_id column = ?b) (InvalidState (wrong_board col (col_board_id column) ?b)))
       (bindT (insert_new_card ?b col p) (\<lambda>i.
        thenT (case kc_position p of Some pos \<Rightarrow> thenT (move_card i col (Some pos)) (returnT ())
               | None \<Rightarrow> returnT ()) (require_card i)))))
    (\<lambda>c t. board_inv t \<and> cd_id c \<notin> cd_id ` set (db_cards s) \<and> find_card t (cd_id c) = Some c \<and>
       order_of t = place_order (cd_id c) (cd_column_id c) (kc_position p) (order_of s) \<and>
       db_runs t = db_runs s) (\<lambda>_ t. t = s) s" for col
  proof (cases "find_column s col")
    case None
    then show ?thesis by (simp add: tx_simps)
  next
    case (Some k)
    with main [OF Some] show ?thesis by (simp add: tx_simps)
  qed
  show ?thesis
    using main2
    by (cases "find_board s ?b"; cases "kc_column_id p"; cases "board_columns s ?b")
       (simp_all add: create_card_def Let_def tx_simps)
qed

text \<open>A freshly inserted card is placed like a moved one.\<close>

lemma place_new_card:
  assumes bt: "board_inv t" and c: "find_card t i = Some c" "cd_column_id c = col"
    and p: "place_card_in_column i col pos t = (r, u)"
  shows "r = Inr ()" and "board_inv u" and "order_of u = place_order i col pos (order_of t)"
    and "db_runs u = db_runs t" and "db_columns u = db_columns t" and "db_boards u = db_boards t"
    and "i \<in> cd_id ` set (db_cards u)"
proof -
  note ok = board_invD [OF bt]
  note pl = place_card_order [OF ok c p]
  show "r = Inr ()" "order_of u = place_order i col pos (order_of t)" by (fact pl(1), fact pl(2))
  have u: "u = t\<lparr>db_cards := renumber cd_id set_cd_pos 0
      (insert_at (insert_index pos (length (other_cards t col i))) i (other_cards t col i)) (db_cards t)\<rparr>"
    using p place_card_eq [OF ok] by simp
  have d: "distinct (insert_at (insert_index pos (length (other_cards t col i))) i (other_cards t col i))"
    by (intro distinct_insert_at distinct_other_cards ok) (auto simp: other_cards_set)
  have "card_places u = card_places t"
    unfolding card_places_def u
    using card_lane.renumber_frame [OF d, where f = "\<lambda>c. (cd_column_id c, cd_board_id c)" and p = 0 and rows = "db_cards t"]
    by (simp add: set_cd_pos_def) (metis list.set_map)
  moreover have "compact_column u k" for k
    using pl(3,4) bt by (cases "k = col") (simp_all add: board_inv_def compact_cards_def)
  ultimately show "board_inv u"
    using pl(5) bt by (simp add: board_inv_def compact_cards_def column_boards_def u)
  show "db_runs u = db_runs t" "db_columns u = db_columns t" "db_boards u = db_boards t" by (simp_all add: u)
  have "map cd_id (db_cards u) = map cd_id (db_cards t)" by (simp add: u card_lane.renumber_keys)
  moreover have "i \<in> set (map cd_id (db_cards t))" using c(1) by (force simp: find_card_Some [OF ok])
  ultimately show "i \<in> cd_id ` set (db_cards u)" by (metis list.set_map)
qed

lemma duplicate_card_wp:
  assumes inv: "board_inv s"
  shows "wp (duplicate_card i)
    (\<lambda>c t. \<exists>old. find_card s i = Some old \<and> board_inv t \<and> cd_id c \<notin> cd_id ` set (db_cards s) \<and>
       find_card t (cd_id c) = Some c \<and>
       order_of t = place_order (cd_id c) (cd_column_id old) (Some (cd_position old + 1)) (order_of s) \<and>
       db_runs t = db_runs s)
    (\<lambda>_ t. t = s \<and> find_card s i = None) s"
proof (cases "find_card s i")
  case None
  then show ?thesis by (simp add: duplicate_card_def tx_simps)
next
  case (Some old)
  let ?c = "copy_card old (end_position cd_column_id cd_position (cd_column_id old) (db_cards s)) (db_now s)"
  have old: "old \<in> set (db_cards s)" using Some by (simp add: find_card_def lookup_Some)
  have fields: "cd_column_id ?c = cd_column_id old" "cd_board_id ?c = cd_board_id old"
    "cd_position ?c = end_position cd_column_id cd_position (cd_column_id old) (db_cards s)"
    by (simp_all add: copy_card_def)
  have kb: "(cd_column_id old, cd_board_id old) \<in> column_boards s"
    using inv old by (auto simp: board_inv_def card_places_def)
  have "card_fk s ?c" "card_check ?c"
    using column_boards_fk [OF board_invD [OF inv] kb] fields by (simp_all add: card_fk_def card_check_def copy_card_def)
  then obtain k t where ins: "insert_card ?c s = (Inr k, t)" by (simp add: insert_card_def)
  note e = insert_card_end [OF inv ins, unfolded fields, OF refl kb]
  obtain r u where p: "place_card_in_column k (cd_column_id old) (Some (cd_position old + 1)) t = (r, u)"
    by fastforce
  have ck: "cd_column_id (set_cd_id k ?c) = cd_column_id old" by (simp add: set_cd_id_def copy_card_def)
  note q = place_new_card [OF e(1) e(4) ck p]
  have new: "\<forall>c. k \<notin> set (order_of s c)" using e(2) by (auto simp: order_of_set)
  have ord: "order_of u = place_order k (cd_column_id old) (Some (cd_position old + 1)) (order_of s)"
    using q(3) place_order_new(2) [OF new] by (simp add: e(3))
  obtain c where c: "find_card u k = Some c" using q(7) find_card_None [of u k] by auto
  then have "cd_id c = k" by (simp add: find_card_def lookup_Some)
  then show ?thesis
    using q(2,4) e(2,5) ord c
    by (simp add: duplicate_card_def tx_simps Some wp_def [of "\<lambda>s. insert_card (f s) s" for f] ins
        wp_def [of "place_card_in_column k a b" for a b] p q(1))
qed

lemma create_card_and_enqueue_wp:
  assumes inv: "board_inv s"
  shows "wp (create_card_and_enqueue p run)
    (\<lambda>r t. board_inv t \<and> cd_id (fst r) \<notin> cd_id ` set (db_cards s) \<and>
       queued_on (cd_id (fst r)) (er_column_id run) r t \<and>
       order_of t = place_order (cd_id (fst r)) (er_column_id run) (kc_position p) (order_of s) \<and>
       db_runs t = insert_row rn_id set_rn_id (queued_run (cd_id (fst r)) run) (db_runs s))
    (\<lambda>_ t. t = s) s"
proof -
  let ?b = "set_if (kc_board_id p) board_id_default"
  let ?Q = "\<lambda>r t. board_inv t \<and> cd_id (fst r) \<notin> cd_id ` set (db_cards s) \<and>
       queued_on (cd_id (fst r)) (er_column_id run) r t \<and>
       order_of t = place_order (cd_id (fst r)) (er_column_id run) (kc_position p) (order_of s) \<and>
       db_runs t = insert_row rn_id set_rn_id (queued_run (cd_id (fst r)) run) (db_runs s)"
  have main: "wp (bindT (transaction
          (bindT (insert_new_card ?b col p) (\<lambda>i.
           thenT (if kc_position p \<noteq> None then place_card_in_column i col (kc_position p) else returnT ())
           (bindT (enqueue_run_tx i run) (\<lambda>r. returnT (i, r)))))) (\<lambda>(i, r).
        bindT (require_card i) (\<lambda>c. bindT (get_run r) (\<lambda>q. returnT (c, q))))) ?Q (\<lambda>_ t. t = s) s"
    if k: "find_column s col = Some k" "col_board_id k = ?b" and rc: "er_column_id run = col" for col k
  proof -
    have kb: "(col, ?b) \<in> column_boards s" using column_boards_find [OF k(1)] k(2) by simp
    obtain i t where ins: "insert_new_card ?b col p s = (Inr i, t)" and bt: "board_inv t"
      and new: "\<forall>k. i \<notin> set (order_of s k)"
      and ord: "order_of t = (order_of s)(col := order_of s col @ [i])"
      and fc: "\<exists>c. find_card t i = Some c \<and> cd_column_id c = col \<and> cd_board_id c = ?b"
      and fr: "db_runs t = db_runs s" "db_columns t = db_columns s" "db_boards t = db_boards s"
      and ni: "i \<notin> cd_id ` set (db_cards s)"
      by (rule insert_new_card_ok [OF inv kb, where p = p])
    obtain c where c: "find_card t i = Some c" "cd_column_id c = col" using fc by blast
    obtain r u where p: "(if kc_position p \<noteq> None then place_card_in_column i col (kc_position p) else returnT ()) t = (r, u)"
      by fastforce
    have q: "r = Inr () \<and> board_inv u \<and> order_of u = place_order i col (kc_position p) (order_of s) \<and>
        db_runs u = db_runs s"
    proof (cases "kc_position p")
      case None
      then show ?thesis using p bt fr place_order_new(1) [OF new] ord by (simp add: returnT_def)
    next
      case (Some pos)
      then have "place_card_in_column i col (kc_position p) t = (r, u)" using p by simp
      from place_new_card [OF bt c this] show ?thesis
        using fr place_order_new(2) [OF new] ord by simp
    qed
    have idc: "cd_id x = i" if "find_card v i = Some x" for v x
      using that by (simp add: find_card_def lookup_Some)
    have "wp (enqueue_run_tx i run)
        (\<lambda>r u. case find_card u i of None \<Rightarrow> u = s
           | Some c \<Rightarrow> (case find_run u r of None \<Rightarrow> u = s
               | Some q \<Rightarrow> board_inv u \<and> cd_id c \<notin> cd_id ` set (db_cards s) \<and>
                   queued_on (cd_id c) (er_column_id run) (c, q) u \<and>
                   order_of u = place_order (cd_id c) (er_column_id run) (kc_position p) (order_of s) \<and>
                   db_runs u = insert_row rn_id set_rn_id (queued_run (cd_id c) run) (db_runs s))) (\<lambda>_ _. True) u"
      using q ni idc
      by (intro wp_enqueue_then_read) (auto simp: queued_on_def rc)
    then show ?thesis
      by (simp add: tx_simps wp_def [of "insert_new_card ?b col p"] ins
          wp_def [of "if b then m else k" for b m k] p q del: not_None_eq split del: if_split)
  qed
  have main2: "wp (bindT (require_column col) (\<lambda>column.
       thenT (ensureT (col_board_id column = ?b) (InvalidState (wrong_board col (col_board_id column) ?b)))
       (thenT (ensureT (er_column_id run = col)
          (InvalidState [T ''queued run column does not match new card column'']))
       (bindT (transaction
          (bindT (insert_new_card ?b col p) (\<lambda>i.
           thenT (if kc_position p \<noteq> None then place_card_in_column i col (kc_position p) else returnT ())
           (bindT (enqueue_run_tx i run) (\<lambda>r. returnT (i, r)))))) (\<lambda>(i, r).
        bindT (require_card i) (\<lambda>c. bindT (get_run r) (\<lambda>q. returnT (c, q)))))))) ?Q (\<lambda>_ t. t = s) s" for col
  proof (cases "find_column s col")
    case None
    then show ?thesis by (simp add: tx_simps)
  next
    case (Some k)
    show ?thesis
    proof (cases "col_board_id k = ?b \<and> er_column_id run = col")
      case True
      with main [OF Some] Some show ?thesis by (simp add: tx_simps split del: if_split)
    next
      case False
      with Some show ?thesis by (auto simp: tx_simps)
    qed
  qed
  show ?thesis
    using main2
    by (cases "find_board s ?b"; cases "kc_column_id p"; cases "board_columns s ?b")
       (simp_all add: create_card_and_enqueue_def Let_def tx_simps set_if_def)
qed

end
