(* ===== verification/Store_Edit_Laws.thy ===== *)
theory Store_Edit_Laws
  imports Store_Card_Laws
begin

text \<open>
  The remaining card operations: deletion, edits, status changes and the durable timeout clock.
  All keep the board invariant; deletion removes exactly one id from the order, the others leave
  the order alone; pausing and resuming a timeout moves the deadline by the paused span.
\<close>

section \<open>Deletion\<close>

lemma delete_card_wp:
  assumes inv: "board_inv s"
  shows "wp (delete_card i)
    (\<lambda>_ t. find_card s i \<noteq> None \<and> board_inv t \<and> i \<notin> cd_id ` set (db_cards t) \<and>
       (\<forall>col. order_of t col = filter (\<lambda>j. j \<noteq> i) (order_of s col)) \<and>
       db_runs t = filter (\<lambda>r. rn_card_id r \<noteq> i) (db_runs s) \<and>
       db_comments t = filter (\<lambda>m. cm_card_id m \<noteq> i) (db_comments s))
    (\<lambda>_ t. t = s \<and> find_card s i = None) s"
proof (cases "find_card s i")
  case None
  then show ?thesis by (simp add: delete_card_def tx_simps)
next
  case (Some c)
  obtain s1 where d: "delete_card_row i s = (Inr (), s1)" by (simp add: delete_card_row_def)
  have ok: "schema_ok s1" using keepsD [OF keeps_delete_card_row board_invD [OF inv] d] .
  have cs: "db_cards s1 = filter (\<lambda>c. cd_id c \<noteq> i) (db_cards s)" "db_columns s1 = db_columns s"
    and rs: "db_runs s1 = filter (\<lambda>r. rn_card_id r \<noteq> i) (db_runs s)"
    "db_comments s1 = filter (\<lambda>m. cm_card_id m \<noteq> i) (db_comments s)"
    using d by (auto simp: delete_card_row_def)
  have lane: "column_cards s1 k = filter (\<lambda>c. cd_id c \<noteq> i) (column_cards s k)" for k
    by (simp add: column_cards_def lane_def cs filter_sort conj_commute)
  have same: "column_cards s1 k = column_cards s k" if "k \<noteq> cd_column_id c" for k
  proof -
    have "\<forall>x \<in> set (column_cards s k). cd_id x \<noteq> i"
      using that Some card_unique [OF board_invD [OF inv]]
      by (auto simp: column_cards_def card_lane.lane_set find_card_Some [OF board_invD [OF inv]])
    then show ?thesis by (simp add: lane filter_id_conv)
  qed
  have places: "card_places s1 \<subseteq> column_boards s1"
    using inv by (auto simp: board_inv_def card_places_def column_boards_def cs)
  have comp: "\<And>k. k \<noteq> cd_column_id c \<Longrightarrow> compact_column s1 k"
    using inv same by (simp add: board_inv_def compact_cards_def compact_column_def)
  obtain r t where rn: "renumber_column_cards (cd_column_id c) s1 = (r, t)" by fastforce
  note ren = renumber_source [OF ok places comp rn]
  have "order_of s1 col = filter (\<lambda>j. j \<noteq> i) (order_of s col)" for col
    by (simp add: order_of_def lane filter_map o_def)
  moreover have "i \<notin> cd_id ` set (db_cards t)" using ren(7) by (auto simp: cs)
  moreover have "db_comments t = db_comments s1"
    using rn renumber_column_eq [OF ok, of "cd_column_id c"] by auto
  ultimately show ?thesis
    using Some ren rs
    by (simp add: delete_card_def tx_simps wp_def [of "delete_card_row i"] d wp_def [of "renumber_column_cards k" for k] rn)
qed

section \<open>Edits\<close>

lemma merge_store_frame [simp]:
  "cd_id (merge_store_update c u) = cd_id c"
  by (simp add: merge_store_update_def Let_def)

lemma keeps_inv_update [tx_keeps]:
  assumes "\<And>s c. cd_column_id (f s c) = cd_column_id c" "\<And>s c. cd_board_id (f s c) = cd_board_id c"
    "\<And>s c. cd_position (f s c) = cd_position c"
  shows "keeps board_inv (update_card_where i f)"
  unfolding keeps_wp
proof (intro allI impI)
  fix s assume inv: "board_inv s"
  show "wp (update_card_where i f) (\<lambda>_. board_inv) (\<lambda>_. board_inv) s"
    by (rule wp_atomicI) (auto intro: inv update_card_where_frame(1) [OF inv assms(1-3)])
qed

lemma keeps_inv_update_runs [tx_keeps]: "keeps board_inv (update_runs P f)"
  unfolding keeps_def
proof (intro allI impI)
  fix s assume inv: "board_inv s"
  obtain r t where u: "update_runs P f s = (r, t)" by fastforce
  have "schema_ok t" using keepsD [OF keeps_update_runs board_invD [OF inv] u] .
  then have "board_inv t" using board_inv_frame(1) [OF inv] u by (auto simp: update_runs_def)
  with u show "board_inv (snd (update_runs P f s))" by simp
qed

lemma keeps_inv_insert_run [tx_keeps]: "keeps board_inv (insert_run r)"
  unfolding keeps_def
proof (intro allI impI)
  fix s assume inv: "board_inv s"
  obtain x t where u: "insert_run r s = (x, t)" by fastforce
  have "schema_ok t" using keepsD [OF keeps_insert_run board_invD [OF inv] u] .
  then have "board_inv t" using board_inv_frame(1) [OF inv] u by (auto simp: insert_run_def split: if_splits)
  with u show "board_inv (snd (insert_run r s))" by simp
qed

lemma write_config_frame [simp]:
  "cd_column_id (write_config v c) = cd_column_id c" "cd_board_id (write_config v c) = cd_board_id c"
  "cd_position (write_config v c) = cd_position c"
  by (simp_all add: write_config_def)

lemma touch_frame [simp]:
  "cd_column_id (touch s c) = cd_column_id c" "cd_board_id (touch s c) = cd_board_id c"
  "cd_position (touch s c) = cd_position c"
  by (simp_all add: touch_def)

lemma keeps_inv_edits [tx_keeps]:
  "keeps board_inv (update_card u)" "keeps board_inv (set_card_archived i a)"
  "keeps board_inv (set_card_status i st)" "keeps board_inv (set_card_awaiting i re)"
  "keeps board_inv (set_card_session i sid)" "keeps board_inv (pause_run_timeout i re now)"
  "keeps board_inv (resume_run_timeout i st now)" "keeps board_inv (enqueue_run_tx i p)"
  unfolding update_card_def set_card_archived_def set_card_status_def set_card_awaiting_def
    set_card_session_def pause_run_timeout_def resume_run_timeout_def enqueue_run_tx_def Let_def
  by (intro tx_keeps; simp)+

lemma keeps_inv_moves [tx_keeps]:
  "keeps board_inv (move_card i c p)" "keeps board_inv (transfer_card i b c p)"
  "keeps board_inv (move_card_and_enqueue i c p r)" "keeps board_inv (transfer_card_and_enqueue i b c p r)"
  "keeps board_inv (create_card kp)" "keeps board_inv (create_card_and_enqueue kp r)"
  "keeps board_inv (duplicate_card i)" "keeps board_inv (delete_card i)"
  unfolding keeps_wp
  by (blast intro: wp_mono [OF move_card_wp] wp_mono [OF transfer_card_wp]
      wp_mono [OF move_card_and_enqueue_wp] wp_mono [OF transfer_card_and_enqueue_wp]
      wp_mono [OF create_card_wp] wp_mono [OF create_card_and_enqueue_wp]
      wp_mono [OF duplicate_card_wp] wp_mono [OF delete_card_wp])+

section \<open>The timeout clock\<close>

lemma active_run_unique:
  assumes "schema_ok s" and "a \<in> set (db_runs s)" "open_run a" and "b \<in> set (db_runs s)" "open_run b"
    and "rn_card_id a = rn_card_id b"
  shows "a = b"
  using assms schema_okD(6) [OF assms(1)] by (auto simp: distinct_map inj_on_def)

lemma shift_deadline_exact:
  assumes "in_i64 (now - paused)" and "in_i64 (d + (now - paused))" and "paused \<le> now"
  shows "shift_deadline (Some d) now paused = Some (d + (now - paused))"
  using assms by (simp add: shift_deadline_def i64_saturating_add_def i64_saturating_sub_def clamp64_id)

text \<open>The remaining time of a run, as its clock reads it: a pause freezes it.\<close>

definition remaining_ms :: "run \<Rightarrow> int \<Rightarrow> int option" where
  "remaining_ms r now =
     map_option (\<lambda>d. d - (case rn_timeout_paused_at_ms r of Some p \<Rightarrow> p | None \<Rightarrow> now)) (rn_timeout_deadline_at_ms r)"

lemma pause_run_timeout_ok:
  assumes ok: "schema_ok s" and r: "r \<in> set (db_runs s)" "active_open r" "rn_card_id r = i"
    and p: "pause_run_timeout i re now s = (Inr c, t)"
  shows "\<exists>r' \<in> set (db_runs t). rn_id r' = rn_id r \<and> rn_timeout_deadline_at_ms r' = rn_timeout_deadline_at_ms r \<and>
    rn_timeout_paused_at_ms r' = or_else (rn_timeout_paused_at_ms r) (Some now) \<and> active_open r' \<and> rn_card_id r' = i"
    and "find_card t i = Some c \<and> cd_status c = Awaiting \<and> cd_awaiting_reason c = Some re"
proof -
  from p obtain n s1 m where u: "update_card_where i (\<lambda>s c. touch s
           (c\<lparr>cd_status := Awaiting, cd_awaiting_reason := Some re\<rparr>)) s = (Inr n, s1)"
    and v: "update_runs (\<lambda>r. rn_card_id r = i \<and> active_open r)
          (\<lambda>r. r\<lparr>rn_timeout_paused_at_ms := or_else (rn_timeout_paused_at_ms r) (Some now)\<rparr>) s1 = (Inr m, t)"
    and c: "find_card t i = Some c"
    by (auto simp: pause_run_timeout_def tx_ok lookup_ok_iff)
  note s1 = update_card_where_ok(1) [OF u]
  let ?r = "r\<lparr>rn_timeout_paused_at_ms := or_else (rn_timeout_paused_at_ms r) (Some now)\<rparr>"
  have "?r \<in> set (db_runs t)"
    using r v by (auto simp: update_runs_def update_where_def s1 image_iff active_open_def open_run_def
        split: option.splits intro!: bexI [of _ r])
  then show "\<exists>r' \<in> set (db_runs t). rn_id r' = rn_id r \<and> rn_timeout_deadline_at_ms r' = rn_timeout_deadline_at_ms r \<and>
    rn_timeout_paused_at_ms r' = or_else (rn_timeout_paused_at_ms r) (Some now) \<and> active_open r' \<and> rn_card_id r' = i"
    using r by (intro bexI [of _ ?r]) (simp_all add: active_open_def open_run_def)
  have "db_cards t = db_cards s1" using v by (auto simp: update_runs_def)
  then have "lookup cd_id i (update_where (\<lambda>c. cd_id c = i)
      (\<lambda>c. (touch s (c\<lparr>cd_status := Awaiting, cd_awaiting_reason := Some re\<rparr>))\<lparr>cd_id := i\<rparr>) (db_cards s)) = Some c"
    using c by (simp add: find_card_def s1)
  then have "c \<in> (\<lambda>x. if cd_id x = i then (touch s (x\<lparr>cd_status := Awaiting, cd_awaiting_reason := Some re\<rparr>))\<lparr>cd_id := i\<rparr> else x)
      ` set (db_cards s)" and id: "cd_id c = i"
    by (auto dest!: lookup_Some simp: update_where_def)
  then obtain x where "c = (if cd_id x = i then (touch s (x\<lparr>cd_status := Awaiting, cd_awaiting_reason := Some re\<rparr>))\<lparr>cd_id := i\<rparr> else x)"
    by blast
  with id have "cd_status c = Awaiting \<and> cd_awaiting_reason c = Some re"
    by (simp add: touch_def split: if_splits)
  with c show "find_card t i = Some c \<and> cd_status c = Awaiting \<and> cd_awaiting_reason c = Some re" by simp
qed

text \<open>Resuming moves the deadline of the open run by the paused span and clears the pause.\<close>

lemma find_active_run:
  assumes ok: "schema_ok s" and r: "r \<in> set (db_runs s)" "active_open r" "rn_card_id r = i"
  shows "List.find (\<lambda>q. rn_card_id q = i \<and> active_open q) (db_runs s) = Some r"
proof (cases "List.find (\<lambda>q. rn_card_id q = i \<and> active_open q) (db_runs s)")
  case None
  then show ?thesis using r by (auto simp: find_None_iff)
next
  case (Some q)
  then have "q \<in> set (db_runs s)" "rn_card_id q = i" "open_run q"
    by (auto dest: find_SomeD simp: active_open_def)
  then show ?thesis using active_run_unique [OF ok, of q r] r Some by (simp add: active_open_def)
qed

lemma resume_run_timeout_ok:
  assumes ok: "schema_ok s" and r: "r \<in> set (db_runs s)" "active_open r" "rn_card_id r = i"
    and pause: "rn_timeout_paused_at_ms r = Some p"
    and res: "resume_run_timeout i st now s = (Inr c, t)"
  shows "\<exists>r' \<in> set (db_runs t). rn_id r' = rn_id r \<and> active_open r' \<and>
    rn_timeout_deadline_at_ms r' = shift_deadline (rn_timeout_deadline_at_ms r) now p \<and>
    rn_timeout_paused_at_ms r' = None" and "st \<noteq> Awaiting"
proof -
  let ?f = "\<lambda>q. q\<lparr>rn_timeout_deadline_at_ms := shift_deadline (rn_timeout_deadline_at_ms r) now p,
                  rn_timeout_paused_at_ms := None\<rparr>"
  from res obtain n s1 m where st: "st \<noteq> Awaiting"
    and u: "update_runs (\<lambda>q. rn_card_id q = i \<and> open_run q) ?f s = (Inr n, s1)"
    and v: "update_card_where i (\<lambda>s c. touch s (c\<lparr>cd_status := st, cd_awaiting_reason := None\<rparr>)) s1 = (Inr m, t)"
    by (auto simp: resume_run_timeout_def tx_ok find_active_run [OF ok r] pause lookup_ok_iff)
  have same: "db_runs t = db_runs s1" using update_card_where_ok(1) [OF v] by simp
  have "?f r \<in> set (db_runs s1)"
    using r u by (auto simp: update_runs_def update_where_def image_iff active_open_def open_run_def
        split: option.splits intro!: bexI [of _ r])
  then show "\<exists>r' \<in> set (db_runs t). rn_id r' = rn_id r \<and> active_open r' \<and>
    rn_timeout_deadline_at_ms r' = shift_deadline (rn_timeout_deadline_at_ms r) now p \<and>
    rn_timeout_paused_at_ms r' = None"
    using r unfolding same by (intro bexI [of _ "?f r"]) (simp_all add: active_open_def open_run_def)
  show "st \<noteq> Awaiting" by fact
qed

lemma pause_resume_remaining:
  assumes ok: "schema_ok s" and r: "r \<in> set (db_runs s)" "active_open r" "rn_card_id r = i"
    and running: "rn_timeout_paused_at_ms r = None" "rn_timeout_deadline_at_ms r = Some d"
    and pause: "pause_run_timeout i re now s = (Inr c, t)"
    and resume: "resume_run_timeout i st later t = (Inr c', u)"
    and time: "now \<le> later" "in_i64 (later - now)" "in_i64 (d + (later - now))"
  shows "\<exists>r' \<in> set (db_runs u). rn_id r' = rn_id r \<and> active_open r' \<and>
    rn_timeout_paused_at_ms r' = None \<and> remaining_ms r' later = remaining_ms r now"
proof -
  have okt: "schema_ok t" using keepsD [OF keeps_pause ok pause] .
  obtain p where p: "p \<in> set (db_runs t)" "rn_id p = rn_id r" "rn_timeout_deadline_at_ms p = Some d"
    "rn_timeout_paused_at_ms p = Some now" "active_open p" "rn_card_id p = i"
    using pause_run_timeout_ok(1) [OF ok r pause] running by (auto simp: or_else_def)
  obtain r' where "r' \<in> set (db_runs u)" "rn_id r' = rn_id p" "active_open r'"
    "rn_timeout_deadline_at_ms r' = shift_deadline (Some d) later now" "rn_timeout_paused_at_ms r' = None"
    using resume_run_timeout_ok(1) [OF okt p(1) p(5) p(6) p(4) resume] p(3) by auto
  then show ?thesis
    using shift_deadline_exact [OF time(2,3,1)] running p(2)
    by (intro bexI [of _ r']) (simp_all add: remaining_ms_def)
qed

end
