(* ===== verification/Store_Runs.thy ===== *)
theory Store_Runs
  imports Store_Edit_Laws
begin

text \<open>
  The run operations of \<open>board-core/src/db/runs.rs\<close>: queueing, promotion, session capture and
  finalization, each one transaction with the lifecycle fault hook of the crash tests between its
  statements, and the queries over runs. The lemmas give, for every placement of the fault hook,
  either the whole effect or no effect, and the exact effect on success.
\<close>

section \<open>Operations\<close>

definition update_run_where :: "int \<Rightarrow> (db \<Rightarrow> run \<Rightarrow> run) \<Rightarrow> nat store" where
  "update_run_where i f s = update_runs (\<lambda>r. rn_id r = i) (f s) s"

definition enqueue_run :: "enqueue_run \<Rightarrow> run store" where
  "enqueue_run p =
     bindT (require_card (er_card_id p)) (\<lambda>c.
     bindT (require_column (er_column_id p)) (\<lambda>k.
     thenT (ensureT (cd_board_id c = col_board_id k)
        (InvalidState [T ''run column belongs to another board'']))
     (bindT (transaction (enqueue_run_tx (er_card_id p) p)) get_run)))"

definition run_card_id :: "(run \<Rightarrow> bool) \<Rightarrow> message \<Rightarrow> int \<Rightarrow> int store" where
  \<comment> \<open>\<open>SELECT card_id FROM runs WHERE id=? AND ..\<close>\<close>
  "run_card_id P what i =
     queryT (\<lambda>s. ok_or (InvalidState what)
       (map_option rn_card_id (List.find (\<lambda>r. rn_id r = i \<and> P r) (db_runs s))))"

definition queued_open :: "run \<Rightarrow> bool" where
  "queued_open r \<longleftrightarrow> rn_started_at r = None \<and> rn_ended_at r = None"

definition promoted ::
  "db \<Rightarrow> string option \<Rightarrow> string option \<Rightarrow> string option \<Rightarrow> int option \<Rightarrow> string option \<Rightarrow> run \<Rightarrow> run" where
  "promoted s workspace pane anchor deadline captured r =
     r\<lparr>rn_started_at := Some (db_now s), rn_herdr_workspace_id := workspace, rn_herdr_pane_id := pane,
       rn_herdr_anchor_pane_id := anchor, rn_timeout_deadline_at_ms := deadline,
       rn_timeout_paused_at_ms := None, rn_session_id := or_else captured (rn_session_id r)\<rparr>"

definition promoted_card :: "string option \<Rightarrow> db \<Rightarrow> card \<Rightarrow> card" where
  "promoted_card captured s c = touch s
     (c\<lparr>cd_status := Running, cd_awaiting_reason := None,
        cd_session_id := or_else captured (cd_session_id c)\<rparr>)"

definition promote_run_with_anchor ::
  "int \<Rightarrow> string option \<Rightarrow> string option \<Rightarrow> string option \<Rightarrow> int option \<Rightarrow> string option \<Rightarrow> run store" where
  "promote_run_with_anchor run_id workspace pane anchor deadline captured =
     thenT (transaction
       (bindT (run_card_id queued_open [T ''run '', N run_id, T '' is not queued''] run_id) (\<lambda>card_id.
        thenT (update_run_where run_id (\<lambda>s. promoted s workspace pane anchor deadline captured))
        (thenT (lifecycle_fault PromoteAfterRunUpdate)
        (thenT (if captured \<noteq> None then lifecycle_fault CaptureAfterRunUpdate else returnT ())
        (update_card_where card_id (promoted_card captured)))))))
     (get_run run_id)"

definition promote_run :: "int \<Rightarrow> string option \<Rightarrow> string option \<Rightarrow> int option \<Rightarrow> run store" where
  "promote_run run_id workspace pane deadline =
     promote_run_with_anchor run_id workspace pane None deadline None"

definition promote_captured_session :: "int \<Rightarrow> string \<Rightarrow> run store" where
  "promote_captured_session run_id sid =
     thenT (ensureT (trim sid \<noteq> []) (BadRequest [T ''captured session id must not be empty'']))
     (thenT (transaction
       (bindT (run_card_id open_run [T ''run '', N run_id, T '' is not open''] run_id) (\<lambda>card_id.
        thenT (update_run_where run_id (\<lambda>s r. r\<lparr>rn_session_id := Some sid\<rparr>))
        (thenT (lifecycle_fault CaptureAfterRunUpdate)
        (update_card_where card_id (\<lambda>s c. touch s (c\<lparr>cd_session_id := Some sid\<rparr>)))))))
     (get_run run_id))"

record finalize_run =
  fz_run_id :: int
  fz_outcome :: run_outcome
  fz_summary :: "string option"
  fz_comments :: "(string \<times> string) list"
  fz_target_column_id :: "int option"
  fz_final_status :: card_status
  fz_final_awaiting_reason :: "awaiting_reason option"
  fz_next :: "enqueue_run option"

record finalize_effects =
  fe_card :: card
  fe_finished_run :: run
  fe_next_run :: "run option"

definition board_matches :: "db \<Rightarrow> int \<Rightarrow> int \<Rightarrow> bool" where
  \<comment> \<open>\<open>EXISTS(SELECT 1 FROM cards c JOIN columns col ..)\<close>\<close>
  "board_matches s column_id card_id \<longleftrightarrow>
     list_ex (\<lambda>c. cd_id c = card_id \<and>
       list_ex (\<lambda>k. col_id k = column_id \<and> col_board_id k = cd_board_id c) (db_columns s)) (db_cards s)"

definition ensure_board_matches :: "int \<Rightarrow> int \<Rightarrow> message \<Rightarrow> unit store" where
  "ensure_board_matches column_id card_id what =
     queryT (\<lambda>s. if board_matches s column_id card_id then Inr () else Inl (InvalidState what))"

definition closed :: "db \<Rightarrow> run_outcome \<Rightarrow> string option \<Rightarrow> run \<Rightarrow> run" where
  "closed s out summary r =
     r\<lparr>rn_ended_at := Some (db_now s), rn_outcome := Some out, rn_result_summary := summary\<rparr>"

definition finalize_move :: "int \<Rightarrow> int \<Rightarrow> unit store" where
  \<comment> \<open>the card goes to the end of the target column; both columns are renumbered\<close>
  "finalize_move card_id column_id =
     thenT (ensure_board_matches column_id card_id [T ''target column belongs to another board''])
     (bindT (queryT (\<lambda>s. ok_or (Sqlite NoRow) (map_option cd_column_id (find_card s card_id)))) (\<lambda>source.
      thenT (update_card_where card_id (\<lambda>s c. c\<lparr>cd_column_id := column_id\<rparr>))
      (thenT (bindT (readT (\<lambda>s. other_cards s column_id card_id)) (\<lambda>ids. number_cards 0 (ids @ [card_id])))
      (if source \<noteq> column_id then renumber_column_cards source else returnT ()))))"

definition finalize_body :: "finalize_run \<Rightarrow> (int \<times> int option) store" where
  "finalize_body p =
     bindT (run_card_id open_run [T ''run '', N (fz_run_id p), T '' is not open''] (fz_run_id p)) (\<lambda>card_id.
     thenT (case fz_next p of None \<Rightarrow> returnT ()
            | Some n \<Rightarrow>
                thenT (ensureT (er_card_id n = card_id) (InvalidState [T ''next run belongs to another card'']))
                (ensure_board_matches (er_column_id n) card_id [T ''next run column belongs to another board'']))
     (thenT (update_run_where (fz_run_id p) (\<lambda>s. closed s (fz_outcome p) (fz_summary p)))
     (thenT (lifecycle_fault FinalizeAfterRunUpdate)
     (thenT (forT (fz_comments p) (\<lambda>(author, body). thenT (insert_comment card_id author body) (returnT ())))
     (thenT (case fz_target_column_id p of None \<Rightarrow> returnT () | Some col \<Rightarrow> finalize_move card_id col)
     (thenT (update_card_where card_id (\<lambda>s c. touch s
          (c\<lparr>cd_status := fz_final_status p, cd_awaiting_reason := fz_final_awaiting_reason p\<rparr>)))
     (case fz_next p of
        None \<Rightarrow> returnT (card_id, None)
      | Some n \<Rightarrow>
          bindT (insert_run (queued_run (er_card_id n) n)) (\<lambda>next_id.
          thenT (update_card_where card_id (\<lambda>s c. c\<lparr>cd_status := Queued, cd_awaiting_reason := None\<rparr>))
          (returnT (card_id, Some next_id))))))))))"

definition finalize_run_uow :: "finalize_run \<Rightarrow> finalize_effects store" where
  "finalize_run_uow p =
     bindT (transaction (finalize_body p)) (\<lambda>(card_id, next_id).
     bindT (require_card card_id) (\<lambda>c.
     bindT (get_run (fz_run_id p)) (\<lambda>r.
     bindT (case next_id of None \<Rightarrow> returnT None
            | Some i \<Rightarrow> bindT (get_run i) (\<lambda>q. returnT (Some q))) (\<lambda>q.
     returnT \<lparr>fe_card = c, fe_finished_run = r, fe_next_run = q\<rparr>))))"

section \<open>Queries\<close>

definition list_runs :: "db \<Rightarrow> int \<Rightarrow> run list" where
  "list_runs s card_id = sort_key rn_id (filter (\<lambda>r. rn_card_id r = card_id) (db_runs s))"

definition column_has_open_run :: "db \<Rightarrow> int \<Rightarrow> bool" where
  "column_has_open_run s column_id \<longleftrightarrow>
     list_ex (\<lambda>r. open_run r \<and>
       list_ex (\<lambda>c. cd_id c = rn_card_id r \<and> cd_column_id c = column_id) (db_cards s)) (db_runs s)"

definition find_active_run :: "db \<Rightarrow> int \<Rightarrow> run option" where
  \<comment> \<open>\<open>active_run_for_card\<close>\<close>
  "find_active_run s card_id =
     List.find (\<lambda>r. rn_card_id r = card_id \<and> active_open r) (rev (sort_key rn_id (db_runs s)))"

definition run_for_card :: "int \<Rightarrow> int \<Rightarrow> run store" where
  "run_for_card card_id run_id =
     thenT (require_card card_id)
     (require [T ''run '', N run_id, T '' for card '', N card_id]
        (\<lambda>s. List.find (\<lambda>r. rn_id r = run_id \<and> rn_card_id r = card_id) (db_runs s)))"

definition open_runs_with_cards :: "(run \<Rightarrow> bool) \<Rightarrow> db \<Rightarrow> error + (run \<times> card) list" where
  "open_runs_with_cards P s =
     foldr (\<lambda>(run_id, card_id) acc.
        case find_run s run_id of None \<Rightarrow> Inl (NotFound [T ''run '', N run_id])
        | Some r \<Rightarrow> (case find_card s card_id of None \<Rightarrow> Inl (NotFound [T ''card '', N card_id])
           | Some c \<Rightarrow> (case acc of Inl e \<Rightarrow> Inl e | Inr rows \<Rightarrow> Inr ((r, c) # rows))))
       (map (\<lambda>r. (rn_id r, rn_card_id r)) (sort_key rn_id (filter P (db_runs s)))) (Inr [])"

definition active_runs_with_cards :: "db \<Rightarrow> error + (run \<times> card) list" where
  "active_runs_with_cards s = open_runs_with_cards active_open s"

definition queued_runs_with_cards :: "db \<Rightarrow> error + (run \<times> card) list" where
  "queued_runs_with_cards s = open_runs_with_cards queued_open s"

definition active_run_summaries :: "db \<Rightarrow> int \<Rightarrow> (int \<times> string option) list" where
  "active_run_summaries s board_id =
     map (\<lambda>r. (rn_card_id r, rn_started_at r))
       (sort_key rn_id (filter (\<lambda>r. active_open r \<and>
          list_ex (\<lambda>c. cd_id c = rn_card_id r \<and> cd_board_id c = board_id) (db_cards s)) (db_runs s)))"

definition count_active_runs :: "db \<Rightarrow> int" where
  "count_active_runs s = int (length (filter active_open (db_runs s)))"

definition count_queued_runs :: "db \<Rightarrow> int" where
  "count_queued_runs s = int (length (filter queued_open (db_runs s)))"

section \<open>Invariants\<close>

lemma keeps_update_run_where [tx_keeps]: "keeps schema_ok (update_run_where i f)"
  using keeps_update_runs by (simp add: keeps_def update_run_where_def)

lemma keeps_inv_update_run_where [tx_keeps]: "keeps board_inv (update_run_where i f)"
  using keeps_inv_update_runs by (simp add: keeps_def update_run_where_def)

lemma keeps_run_card_id [tx_keeps]: "keeps P (run_card_id Q w i)"
  by (simp add: run_card_id_def keeps_readonly)

lemma keeps_ensure_board_matches [tx_keeps]: "keeps P (ensure_board_matches c i w)"
  by (simp add: ensure_board_matches_def keeps_readonly)

lemma keeps_inv_insert_comment [tx_keeps]: "keeps board_inv (insert_comment i a b)"
  unfolding keeps_def
proof (intro allI impI)
  fix s assume inv: "board_inv s"
  obtain r t where u: "insert_comment i a b s = (r, t)" by fastforce
  have "schema_ok t" using keepsD [OF keeps_insert_comment board_invD [OF inv] u] .
  then have "board_inv t" using board_inv_frame(1) [OF inv] u by (auto simp: insert_comment_def Let_def split: if_splits)
  with u show "board_inv (snd (insert_comment i a b s))" by simp
qed

lemma place_at_end:
  "place_card_in_column i col None = bindT (readT (\<lambda>s. other_cards s col i)) (\<lambda>ids. number_cards 0 (ids @ [i]))"
  by (simp add: place_card_in_column_def insert_index_def insert_at_end)

lemma board_matchesD:
  assumes "schema_ok s" "board_matches s col i"
  shows "\<exists>c. find_card s i = Some c \<and> (col, cd_board_id c) \<in> column_boards s"
proof -
  obtain c k where c: "c \<in> set (db_cards s)" "cd_id c = i"
    and k: "k \<in> set (db_columns s)" "col_id k = col" "col_board_id k = cd_board_id c"
    using assms(2) by (auto simp: board_matches_def list_ex_iff)
  have "(col, cd_board_id c) \<in> column_boards s"
    unfolding column_boards_def using k by (intro image_eqI [of _ _ k]) simp_all
  with c show ?thesis by (auto simp: find_card_Some [OF assms(1)])
qed

lemma finalize_move_wp:
  assumes inv: "board_inv s"
  shows "wp (finalize_move i col)
    (\<lambda>_ t. board_inv t \<and> order_of t = place_order i col None (order_of s) \<and> db_runs t = db_runs s \<and>
       db_columns t = db_columns s \<and> db_boards t = db_boards s \<and> i \<in> cd_id ` set (db_cards t))
    (\<lambda>e t. t = s \<and> \<not> board_matches s col i) s"
proof (cases "board_matches s col i")
  case False
  then show ?thesis by (simp add: finalize_move_def ensure_board_matches_def tx_simps)
next
  case True
  then obtain c where c: "find_card s i = Some c" and kb: "(col, cd_board_id c) \<in> column_boards s"
    using board_matchesD [OF board_invD [OF inv]] by blast
  have chk: "card_check c" by (rule card_check_find [OF board_invD [OF inv] c])
  show ?thesis
    unfolding finalize_move_def place_at_end [symmetric]
    apply (simp add: ensure_board_matches_def wp_then wp_bind wp_basic True c ok_or_def split del: if_split)
    apply (rule wp_relocate [OF inv c kb])
       apply (simp_all add: chk [unfolded card_check_def] card_check_def)
    done
qed

lemma keeps_finalize_move [tx_keeps]: "keeps board_inv (finalize_move i col)" "keeps schema_ok (finalize_move i col)"
proof -
  show "keeps board_inv (finalize_move i col)"
    unfolding keeps_wp by (blast intro: wp_mono [OF finalize_move_wp])
  show "keeps schema_ok (finalize_move i col)"
    unfolding finalize_move_def place_at_end [symmetric] by (intro tx_keeps)
qed

lemma promoted_card_frame [simp]:
  "cd_column_id (promoted_card cap s c) = cd_column_id c" "cd_board_id (promoted_card cap s c) = cd_board_id c"
  "cd_position (promoted_card cap s c) = cd_position c" "card_check (promoted_card cap s c)"
  by (simp_all add: promoted_card_def touch_def card_check_def)

lemma keeps_run_ops [tx_keeps]:
  "keeps board_inv (enqueue_run p)" "keeps board_inv (promote_run_with_anchor i w pn an dl cap)"
  "keeps board_inv (promote_captured_session i sid)" "keeps board_inv (finalize_body fz)"
  "keeps board_inv (finalize_run_uow fz)"
  unfolding enqueue_run_def promote_run_with_anchor_def promote_captured_session_def finalize_run_uow_def
    finalize_body_def case_prod_beta
  by (intro tx_keeps; simp)+

lemma keeps_schema_run_ops [tx_keeps]:
  "keeps schema_ok (enqueue_run p)" "keeps schema_ok (promote_run_with_anchor i w pn an dl cap)"
  "keeps schema_ok (promote_captured_session i sid)" "keeps schema_ok (finalize_body fz)"
  "keeps schema_ok (finalize_run_uow fz)"
  unfolding enqueue_run_def promote_run_with_anchor_def promote_captured_session_def finalize_run_uow_def
    finalize_body_def case_prod_beta
  by (intro tx_keeps; simp)+

section \<open>All or nothing\<close>

lemma wp_run_card_id [tx_simps]:
  "wp (run_card_id P what i) Q E = (\<lambda>s. case List.find (\<lambda>r. rn_id r = i \<and> P r) (db_runs s) of
     None \<Rightarrow> E (InvalidState what) s | Some r \<Rightarrow> Q (rn_card_id r) s)"
  by (auto simp: fun_eq_iff run_card_id_def wp_basic ok_or_def split: option.splits)

lemma run_card_id_ok:
  "run_card_id P what i s = (Inr c, t) \<longleftrightarrow>
     (\<exists>r. List.find (\<lambda>r. rn_id r = i \<and> P r) (db_runs s) = Some r \<and> rn_card_id r = c) \<and> t = s"
  by (auto simp: run_card_id_def queryT_def)

lemma ensure_board_matches_ok:
  "ensure_board_matches col i w s = (Inr u, t) \<longleftrightarrow> board_matches s col i \<and> t = s"
  by (auto simp: ensure_board_matches_def queryT_def)

lemma find_run_Some: "schema_ok s \<Longrightarrow> find_run s i = Some r \<longleftrightarrow> r \<in> set (db_runs s) \<and> rn_id r = i"
  by (simp add: find_run_def lookup_eq [OF schema_okD(4)])

lemma find_run_where:
  "schema_ok s \<Longrightarrow> List.find (\<lambda>r. rn_id r = i \<and> P r) (db_runs s) = Some r \<longleftrightarrow> find_run s i = Some r \<and> P r"
proof (cases "List.find (\<lambda>r. rn_id r = i \<and> P r) (db_runs s)")
  case None
  assume "schema_ok s"
  then show ?thesis unfolding None using None by (auto simp: find_None_iff find_run_Some)
next
  case (Some q)
  assume ok: "schema_ok s"
  with Some have q: "find_run s i = Some q \<and> P q" by (auto dest: find_SomeD simp: find_run_Some)
  show ?thesis unfolding Some using q by auto
qed

lemma run_card_exists:
  "schema_ok s \<Longrightarrow> find_run s i = Some r \<Longrightarrow> rn_card_id r \<in> cd_id ` set (db_cards s)"
  by (auto simp: find_run_Some schema_ok_def run_fk_def)

lemma update_run_where_ok:
  assumes "update_run_where i f s = (x, t)"
  shows "t = s\<lparr>db_runs := update_where (\<lambda>r. rn_id r = i)
      (\<lambda>r. (f s r)\<lparr>rn_id := rn_id r, rn_card_id := rn_card_id r, rn_column_id := rn_column_id r,
             rn_ended_at := (case rn_ended_at (f s r) of None \<Rightarrow> rn_ended_at r | Some t \<Rightarrow> Some t)\<rparr>) (db_runs s)\<rparr>"
  using assms by (auto simp: update_run_where_def update_runs_def Let_def)

lemma update_run_where_eq:
  assumes "\<And>r. rn_id (f s r) = rn_id r \<and> rn_card_id (f s r) = rn_card_id r \<and>
      rn_column_id (f s r) = rn_column_id r \<and> (rn_ended_at (f s r) = None \<longrightarrow> rn_ended_at r = None)"
  shows "update_run_where i f s = (Inr (length (filter (\<lambda>r. rn_id r = i) (db_runs s))),
      s\<lparr>db_runs := update_where (\<lambda>r. rn_id r = i) (f s) (db_runs s)\<rparr>)"
proof -
  have "(\<lambda>r. (f s r)\<lparr>rn_id := rn_id r, rn_card_id := rn_card_id r, rn_column_id := rn_column_id r,
         rn_ended_at := (case rn_ended_at (f s r) of None \<Rightarrow> rn_ended_at r | Some t \<Rightarrow> Some t)\<rparr>) = f s"
    using assms by (auto simp: fun_eq_iff split: option.splits intro!: run.equality)
  then show ?thesis by (simp add: update_run_where_def update_runs_def Let_def)
qed

lemma promoted_frame [simp]:
  "rn_id (promoted s w p a d c r) = rn_id r" "rn_card_id (promoted s w p a d c r) = rn_card_id r"
  "rn_column_id (promoted s w p a d c r) = rn_column_id r" "rn_ended_at (promoted s w p a d c r) = rn_ended_at r"
  by (simp_all add: promoted_def)

lemma closed_frame [simp]:
  "rn_id (closed s out summary r) = rn_id r" "rn_card_id (closed s out summary r) = rn_card_id r"
  "rn_column_id (closed s out summary r) = rn_column_id r" "rn_ended_at (closed s out summary r) = Some (db_now s)"
  by (simp_all add: closed_def)

lemma find_run_update:
  "(\<And>r. rn_id (f r) = rn_id r) \<Longrightarrow> db_runs t = update_where (\<lambda>r. rn_id r = i) f (db_runs s) \<Longrightarrow>
   find_run t j = map_option (\<lambda>r. if rn_id r = i then f r else r) (find_run s j)"
  by (simp add: find_run_def runs_t.lookup_update)

lemma update_card_status_total:
  assumes "schema_ok s" "find_card s i = Some c"
    and "\<And>s c. cd_board_id (f s c) = cd_board_id c" "\<And>s c. cd_column_id (f s c) = cd_column_id c"
    and "card_check (f s c)"
  shows "\<exists>n t. update_card_where i f s = (Inr n, t)"
proof -
  have "card_fk s (f s c)"
    using assms(1,2) by (auto simp: find_card_Some schema_ok_def card_fk_def assms(3,4))
  then show ?thesis using update_card_where_total [OF assms(1,2)] assms(5) by blast
qed

lemma update_card_at:
  assumes "update_card_where i f s = (Inr n, t)" and "c \<in> set (db_cards t)" "cd_id c = i"
  obtains x where "x \<in> set (db_cards s)" "cd_id x = i" "c = (f s x)\<lparr>cd_id := i\<rparr>"
proof -
  have "c \<in> (\<lambda>x. if cd_id x = i then (f s x)\<lparr>cd_id := i\<rparr> else x) ` set (db_cards s)"
    using assms(2) by (simp add: update_card_where_ok(1) [OF assms(1)] update_where_def)
  then obtain x where x: "x \<in> set (db_cards s)" "c = (if cd_id x = i then (f s x)\<lparr>cd_id := i\<rparr> else x)"
    by blast
  with assms(3) show thesis by (auto intro!: that [of x] split: if_splits)
qed

lemma enqueue_run_wp:
  assumes inv: "board_inv s"
  shows "wp (enqueue_run p)
    (\<lambda>r t. board_inv t \<and> order_of t = order_of s \<and> find_open_run s (er_card_id p) = None \<and>
       (\<exists>c. queued_on (er_card_id p) (er_column_id p) (c, r) t) \<and>
       db_runs t = insert_row rn_id set_rn_id (queued_run (er_card_id p) p) (db_runs s))
    (\<lambda>_ t. t = s) s"
proof -
  have "wp (enqueue_run_tx (er_card_id p) p)
    (\<lambda>r t. (\<exists>q. find_run t r = Some q \<and> board_inv t \<and> order_of t = order_of s \<and>
       find_open_run s (er_card_id p) = None \<and>
       (\<exists>c. queued_on (er_card_id p) (er_column_id p) (c, q) t) \<and>
       db_runs t = insert_row rn_id set_rn_id (queued_run (er_card_id p) p) (db_runs s)))
    (\<lambda>_ _. True) s"
  proof (rule wpI)
    fix r t assume e: "enqueue_run_tx (er_card_id p) p s = (Inr r, t)"
    note q = enqueue_run_tx_ok [OF inv e]
    have fr: "find_run t r = Some (set_rn_id r (queued_run (er_card_id p) p))"
      using runs_t.lookup_insert [of "db_runs s"] by (simp add: find_run_def q(3,4))
    obtain c where c: "find_card t (er_card_id p) = Some c" using q(5,6) find_card_None [of t] by auto
    then have "c \<in> set (db_cards t) \<and> cd_id c = er_card_id p" by (simp add: find_card_def lookup_Some)
    with q(7) have "cd_status c = Queued" by blast
    then have "queued_on (er_card_id p) (er_column_id p) (c, set_rn_id r (queued_run (er_card_id p) p)) t"
      using c fr by (simp add: queued_on_def set_rn_id_def queued_run_def open_run_def)
    moreover have "find_open_run s (er_card_id p) = None"
      using q(10) by (auto simp: find_open_run_def find_None_iff)
    ultimately show "\<exists>q. find_run t r = Some q \<and> board_inv t \<and> order_of t = order_of s \<and>
       find_open_run s (er_card_id p) = None \<and>
       (\<exists>c. queued_on (er_card_id p) (er_column_id p) (c, q) t) \<and>
       db_runs t = insert_row rn_id set_rn_id (queued_run (er_card_id p) p) (db_runs s)"
      using fr q(1,2,4) by blast
  qed simp
  then show ?thesis
    by (auto simp: enqueue_run_def tx_simps split: option.splits elim!: wp_mono)
qed

section \<open>Promotion\<close>

text \<open>A unit of work followed by reads that cannot fail.\<close>

lemma wp_commit_then:
  assumes "\<And>x t. m s = (Inr x, t) \<Longrightarrow> wp (k x) Q (\<lambda>_ _. False) t" and "\<And>e. E e s"
  shows "wp (bindT (transaction m) k) Q E s"
proof (cases "m s")
  case (Pair r t)
  then show ?thesis
    using assms by (cases r) (auto simp: wp_def bindT_def transaction_def split: prod.splits sum.splits)
qed

definition can_promote :: "db \<Rightarrow> int \<Rightarrow> bool" where
  "can_promote s i \<longleftrightarrow> (\<exists>q. find_run s i = Some q \<and> queued_open q)"

text \<open>A run row changed in place and then its card, the shape of promotion and capture.\<close>

lemma run_and_card_ok:
  assumes inv: "board_inv s" and q: "find_run s i = Some q"
    and g: "\<And>r. rn_id (g s r) = rn_id r \<and> rn_card_id (g s r) = rn_card_id r \<and>
      rn_column_id (g s r) = rn_column_id r \<and> rn_ended_at (g s r) = rn_ended_at r"
    and f: "\<And>s c. cd_column_id (f s c) = cd_column_id c" "\<And>s c. cd_board_id (f s c) = cd_board_id c"
      "\<And>s c. cd_position (f s c) = cd_position c"
    and u: "update_run_where i g s = (Inr n, s1)" and v: "update_card_where (rn_card_id q) f s1 = (Inr m, t)"
  shows "board_inv t" and "order_of t = order_of s" and "find_run t i = Some (g s q)"
    and "db_runs t = update_where (\<lambda>r. rn_id r = i) (g s) (db_runs s)"
    and "\<exists>x. find_card t (rn_card_id q) = Some ((f s1 x)\<lparr>cd_id := rn_card_id q\<rparr>)"
proof -
  note ok = board_invD [OF inv]
  have s1: "s1 = s\<lparr>db_runs := update_where (\<lambda>r. rn_id r = i) (g s) (db_runs s)\<rparr>"
    using u update_run_where_eq [of g s i] g by simp
  have inv1: "board_inv s1" and o1: "order_of s1 = order_of s"
    using board_inv_frame [OF inv keepsD [OF keeps_update_run_where ok u]] by (simp_all add: s1)
  show "board_inv t" "order_of t = order_of s"
    using update_card_where_frame [OF inv1 f v] o1 by simp_all
  show runs: "db_runs t = update_where (\<lambda>r. rn_id r = i) (g s) (db_runs s)"
    using update_card_where_runs(1) [OF v] by (simp add: s1)
  have "rn_id q = i" using q by (auto simp: find_run_def dest: lookup_Some)
  then show "find_run t i = Some (g s q)"
    using find_run_update [OF _ runs, of i] q g by simp
  have "rn_card_id q \<in> cd_id ` set (db_cards t)"
    using run_card_exists [OF ok q] update_card_ids [OF v] by (simp add: s1)
  then obtain c where c: "find_card t (rn_card_id q) = Some c" using find_card_None by (metis not_None_eq)
  then have "c \<in> set (db_cards t)" "cd_id c = rn_card_id q" by (auto simp: find_card_def dest: lookup_Some)
  from update_card_at [OF v this] c
  show "\<exists>x. find_card t (rn_card_id q) = Some ((f s1 x)\<lparr>cd_id := rn_card_id q\<rparr>)" by metis
qed

lemma promote_run_wp:
  assumes inv: "board_inv s"
  shows "wp (promote_run_with_anchor i w pn an dl cap)
    (\<lambda>r t. can_promote s i \<and> board_inv t \<and> order_of t = order_of s \<and> find_run t i = Some r \<and>
       rn_started_at r = Some (db_now s) \<and> open_run r \<and> rn_timeout_deadline_at_ms r = dl \<and>
       rn_herdr_pane_id r = pn \<and> (cap \<noteq> None \<longrightarrow> rn_session_id r = cap) \<and>
       db_runs t = update_where (\<lambda>r. rn_id r = i) (promoted s w pn an dl cap) (db_runs s) \<and>
       (\<exists>c. find_card t (rn_card_id r) = Some c \<and> cd_status c = Running \<and> (cap \<noteq> None \<longrightarrow> cd_session_id c = cap)))
    (\<lambda>_ t. t = s) s"
  unfolding promote_run_with_anchor_def thenT_def [of "transaction m" for m]
proof (rule wp_commit_then)
  fix x t
  assume b: "bindT (run_card_id queued_open [T ''run '', N i, T '' is not queued''] i)
      (\<lambda>card_id. thenT (update_run_where i (\<lambda>s. promoted s w pn an dl cap))
        (thenT (lifecycle_fault PromoteAfterRunUpdate)
        (thenT (if cap \<noteq> None then lifecycle_fault CaptureAfterRunUpdate else returnT ())
        (update_card_where card_id (promoted_card cap))))) s = (Inr x, t)"
  then obtain q n s1 where q: "find_run s i = Some q" "queued_open q"
    and u: "update_run_where i (\<lambda>s. promoted s w pn an dl cap) s = (Inr n, s1)"
    and v: "update_card_where (rn_card_id q) (promoted_card cap) s1 = (Inr x, t)"
    by (auto simp: tx_ok run_card_id_ok find_run_where [OF board_invD [OF inv]] lifecycle_fault_ok_iff
        returnT_ok_iff split: if_splits)
  note * = run_and_card_ok [OF inv q(1) _ _ _ _ u v, simplified]
  obtain y where y: "find_card t (rn_card_id q) = Some ((promoted_card cap s1 y)\<lparr>cd_id := rn_card_id q\<rparr>)"
    using *(5) by blast
  show "wp (get_run i) (\<lambda>r t. can_promote s i \<and> board_inv t \<and> order_of t = order_of s \<and> find_run t i = Some r \<and>
       rn_started_at r = Some (db_now s) \<and> open_run r \<and> rn_timeout_deadline_at_ms r = dl \<and>
       rn_herdr_pane_id r = pn \<and> (cap \<noteq> None \<longrightarrow> rn_session_id r = cap) \<and>
       db_runs t = update_where (\<lambda>r. rn_id r = i) (promoted s w pn an dl cap) (db_runs s) \<and>
       (\<exists>c. find_card t (rn_card_id r) = Some c \<and> cd_status c = Running \<and> (cap \<noteq> None \<longrightarrow> cd_session_id c = cap)))
      (\<lambda>_ _. False) t"
    using * y q
    by (auto simp: wp_lookups can_promote_def promoted_def open_run_def queued_open_def promoted_card_def
        touch_def or_else_def split: option.splits)
qed simp

lemma promote_run_progress:
  assumes inv: "board_inv s" and can: "can_promote s i"
    and "db_fault s PromoteAfterRunUpdate = None" "db_fault s CaptureAfterRunUpdate = None"
  shows "\<exists>r t. promote_run_with_anchor i w pn an dl cap s = (Inr r, t)"
proof -
  note ok = board_invD [OF inv]
  obtain q where q: "find_run s i = Some q" "queued_open q" using can by (auto simp: can_promote_def)
  have fnd: "List.find (\<lambda>r. rn_id r = i \<and> queued_open r) (db_runs s) = Some q"
    using q find_run_where [OF ok] by simp
  obtain n s1 where u: "update_run_where i (\<lambda>s. promoted s w pn an dl cap) s = (Inr n, s1)"
    and s1: "s1 = s\<lparr>db_runs := update_where (\<lambda>r. rn_id r = i) (promoted s w pn an dl cap) (db_runs s)\<rparr>"
    using update_run_where_eq [of "\<lambda>s. promoted s w pn an dl cap" s i] by simp
  obtain c where c: "find_card s1 (rn_card_id q) = Some c"
    using run_card_exists [OF ok q(1)] find_card_None [of s1 "rn_card_id q"] by (auto simp: s1)
  obtain m t where v: "update_card_where (rn_card_id q) (promoted_card cap) s1 = (Inr m, t)"
    using update_card_status_total [OF keepsD [OF keeps_update_run_where ok u] c, of "promoted_card cap"] by auto
  have "find_run t i = Some (promoted s w pn an dl cap q)"
    using run_and_card_ok(3) [OF inv q(1) _ _ _ _ u v] by simp
  moreover have "db_fault s1 = db_fault s" by (simp add: s1)
  ultimately show ?thesis
    using assms(3,4) u v
    by (cases cap) (auto simp: promote_run_with_anchor_def thenT_def bindT_def transaction_def run_card_id_def
        queryT_def fnd lifecycle_fault_def get_run_def require_def returnT_def ok_or_def)
qed

lemma promote_captured_session_wp:
  assumes inv: "board_inv s"
  shows "wp (promote_captured_session i sid)
    (\<lambda>r t. board_inv t \<and> order_of t = order_of s \<and> find_run t i = Some r \<and> open_run r \<and>
       rn_session_id r = Some sid \<and>
       db_runs t = update_where (\<lambda>r. rn_id r = i) (\<lambda>r. r\<lparr>rn_session_id := Some sid\<rparr>) (db_runs s) \<and>
       (\<exists>c. find_card t (rn_card_id r) = Some c \<and> cd_session_id c = Some sid))
    (\<lambda>_ t. t = s) s"
proof -
  have "wp (bindT (transaction
       (bindT (run_card_id open_run [T ''run '', N i, T '' is not open''] i) (\<lambda>card_id.
        thenT (update_run_where i (\<lambda>s r. r\<lparr>rn_session_id := Some sid\<rparr>))
        (thenT (lifecycle_fault CaptureAfterRunUpdate)
        (update_card_where card_id (\<lambda>s c. touch s (c\<lparr>cd_session_id := Some sid\<rparr>))))))) (\<lambda>_. get_run i))
    (\<lambda>r t. board_inv t \<and> order_of t = order_of s \<and> find_run t i = Some r \<and> open_run r \<and>
       rn_session_id r = Some sid \<and>
       db_runs t = update_where (\<lambda>r. rn_id r = i) (\<lambda>r. r\<lparr>rn_session_id := Some sid\<rparr>) (db_runs s) \<and>
       (\<exists>c. find_card t (rn_card_id r) = Some c \<and> cd_session_id c = Some sid))
    (\<lambda>_ t. t = s) s" (is "wp (bindT (transaction ?b) _) ?Q ?E s")
  proof (rule wp_commit_then)
    fix x t assume "?b s = (Inr x, t)"
    then obtain q n s1 where q: "find_run s i = Some q" "open_run q"
      and u: "update_run_where i (\<lambda>s r. r\<lparr>rn_session_id := Some sid\<rparr>) s = (Inr n, s1)"
      and v: "update_card_where (rn_card_id q) (\<lambda>s c. touch s (c\<lparr>cd_session_id := Some sid\<rparr>)) s1 = (Inr x, t)"
      by (auto simp: tx_ok run_card_id_ok find_run_where [OF board_invD [OF inv]] lifecycle_fault_ok_iff)
    note * = run_and_card_ok [OF inv q(1) _ _ _ _ u v, simplified]
    obtain y where y: "find_card t (rn_card_id q) = Some ((touch s1 (y\<lparr>cd_session_id := Some sid\<rparr>))\<lparr>cd_id := rn_card_id q\<rparr>)"
      using *(5) by blast
    show "wp (get_run i) ?Q (\<lambda>_ _. False) t"
      using * y q by (auto simp: wp_lookups open_run_def touch_def)
  qed simp
  then show ?thesis by (simp add: promote_captured_session_def wp_then wp_basic thenT_def [of "transaction m" for m])
qed

section \<open>Finalization\<close>

lemma comments_loop:
  "forT cs (\<lambda>(author, body). thenT (insert_comment i author body) (returnT ())) s = (Inr u, t) \<Longrightarrow>
   db_runs t = db_runs s \<and> db_cards t = db_cards s \<and> db_columns t = db_columns s \<and> db_boards t = db_boards s \<and>
   map (\<lambda>m. (cm_card_id m, cm_author m, cm_body m)) (db_comments t) =
     map (\<lambda>m. (cm_card_id m, cm_author m, cm_body m)) (db_comments s) @ map (\<lambda>(a, b). (i, a, b)) cs"
proof (induction cs arbitrary: s)
  case Nil
  then show ?case by (simp add: returnT_def)
next
  case (Cons x cs)
  obtain a b where x: "x = (a, b)" by fastforce
  from Cons.prems obtain s1 n where ins: "insert_comment i a b s = (Inr n, s1)"
    and rest: "forT cs (\<lambda>(author, body). thenT (insert_comment i author body) (returnT ())) s1 = (Inr u, t)"
    by (auto simp: x tx_ok)
  from ins have "db_runs s1 = db_runs s \<and> db_cards s1 = db_cards s \<and> db_columns s1 = db_columns s \<and>
      db_boards s1 = db_boards s \<and> map (\<lambda>m. (cm_card_id m, cm_author m, cm_body m)) (db_comments s1) =
     map (\<lambda>m. (cm_card_id m, cm_author m, cm_body m)) (db_comments s) @ [(i, a, b)]"
    by (auto simp: insert_comment_def Let_def insert_row_def set_cm_id_def split: if_splits)
  with Cons.IH [OF rest] show ?case by (simp add: x)
qed

text \<open>Statements on cards leave every other table alone.\<close>

lemma keeps_other_tables:
  assumes P: "\<And>s x. P (s\<lparr>db_cards := x\<rparr>) = P s"
  shows "keeps P (update_cards A f)" "keeps P (update_card_where i g)" "keeps P (number_cards n is)"
    "keeps P (place_card_in_column i col pos)" "keeps P (renumber_column_cards col)" "keeps P (finalize_move i col)"
proof -
  show u: "keeps P (update_cards A f)" for A f
    by (auto simp: keeps_def update_cards_def Let_def P)
  show w: "keeps P (update_card_where i g)" for i g
    using u by (simp add: keeps_def update_card_where_def)
  show n: "keeps P (number_cards n is)" for n "is"
    by (induction n "is" rule: number_cards.induct) (auto intro: tx_keeps u)
  show p: "keeps P (place_card_in_column i col pos)" "keeps P (renumber_column_cards col)" for i col pos
    unfolding place_card_in_column_def renumber_column_cards_def by (intro tx_keeps n)+
  show "keeps P (finalize_move i col)"
    unfolding finalize_move_def place_at_end [symmetric] by (intro tx_keeps w p)
qed

lemma finalize_move_comments: "finalize_move i col s = (r, t) \<Longrightarrow> db_comments t = db_comments s"
proof -
  assume m: "finalize_move i col s = (r, t)"
  have k: "keeps (\<lambda>u. db_comments u = db_comments s) (finalize_move i col)"
    by (rule keeps_other_tables) simp
  show "db_comments t = db_comments s" by (rule keepsD [OF k refl m])
qed

lemma finalize_body_ok:
  assumes inv: "board_inv s" and b: "finalize_body p s = (Inr (i, nx), t)"
  shows "\<exists>r. find_run s (fz_run_id p) = Some r \<and> open_run r \<and> rn_card_id r = i"
    and "board_inv t"
    and "order_of t = (case fz_target_column_id p of None \<Rightarrow> order_of s | Some col \<Rightarrow> place_order i col None (order_of s))"
    and "rows = update_where (\<lambda>r. rn_id r = fz_run_id p) (closed s (fz_outcome p) (fz_summary p)) (db_runs s) \<Longrightarrow>
      (case fz_next p of None \<Rightarrow> db_runs t = rows \<and> nx = None
       | Some n \<Rightarrow> db_runs t = insert_row rn_id set_rn_id (queued_run i n) rows \<and> nx = Some (next_id rn_id rows) \<and> er_card_id n = i)"
    and "map (\<lambda>m. (cm_card_id m, cm_author m, cm_body m)) (db_comments t) =
      map (\<lambda>m. (cm_card_id m, cm_author m, cm_body m)) (db_comments s) @ map (\<lambda>(a, b). (i, a, b)) (fz_comments p)"
    and "\<exists>c. find_card t i = Some c \<and> cd_status c = (if fz_next p = None then fz_final_status p else Queued) \<and>
      cd_awaiting_reason c = (if fz_next p = None then fz_final_awaiting_reason p else None)"
proof -
  note ok = board_invD [OF inv]
  let ?set = "\<lambda>s c. touch s (c\<lparr>cd_status := fz_final_status p, cd_awaiting_reason := fz_final_awaiting_reason p\<rparr>)"
  let ?queue = "\<lambda>(s::db) c. c\<lparr>cd_status := Queued, cd_awaiting_reason := None\<rparr>"
  let ?last = "case fz_next p of None \<Rightarrow> returnT (i, None)
      | Some n \<Rightarrow> bindT (insert_run (queued_run (er_card_id n) n)) (\<lambda>next_id.
          thenT (update_card_where i ?queue) (returnT (i, Some next_id)))"
  let ?move = "case fz_target_column_id p of None \<Rightarrow> returnT () | Some col \<Rightarrow> finalize_move i col"
  from b obtain r n s1 u1 s2 u2 s3 m s4 where r: "find_run s (fz_run_id p) = Some r" "open_run r" "rn_card_id r = i"
    and nc: "\<forall>n. fz_next p = Some n \<longrightarrow> er_card_id n = i"
    and b1: "update_run_where (fz_run_id p) (\<lambda>s. closed s (fz_outcome p) (fz_summary p)) s = (Inr n, s1)"
    and b2: "forT (fz_comments p) (\<lambda>(author, body). thenT (insert_comment i author body) (returnT ())) s1 = (Inr u1, s2)"
    and b3: "?move s2 = (Inr u2, s3)"
    and b4: "update_card_where i ?set s3 = (Inr m, s4)"
    and b5: "?last s4 = (Inr (i, nx), t)"
    by (auto simp: finalize_body_def tx_ok run_card_id_ok find_run_where [OF ok] lifecycle_fault_ok_iff
        ensure_board_matches_ok split: option.splits)
  show "\<exists>r. find_run s (fz_run_id p) = Some r \<and> open_run r \<and> rn_card_id r = i" using r by blast
  show "board_inv t" using keepsD [OF keeps_run_ops(4) inv b] .
  have s1: "s1 = s\<lparr>db_runs := update_where (\<lambda>r. rn_id r = fz_run_id p) (closed s (fz_outcome p) (fz_summary p)) (db_runs s)\<rparr>"
    using b1 update_run_where_eq [of "\<lambda>s. closed s (fz_outcome p) (fz_summary p)" s "fz_run_id p"] by simp
  have inv1: "board_inv s1" and o1: "order_of s1 = order_of s"
    using board_inv_frame [OF inv keepsD [OF keeps_update_run_where ok b1]] by (simp_all add: s1)
  note c2 = comments_loop [OF b2]
  have kc: "keeps schema_ok (forT (fz_comments p) (\<lambda>(author, body). thenT (insert_comment i author body) (returnT ())))"
    unfolding case_prod_beta by (intro tx_keeps)
  have inv2: "board_inv s2" and o2: "order_of s2 = order_of s1"
    using board_inv_frame [OF inv1 keepsD [OF kc board_invD [OF inv1] b2]] c2 by simp_all
  have m3: "board_inv s3 \<and> db_runs s3 = db_runs s2 \<and> db_comments s3 = db_comments s2 \<and>
      order_of s3 = (case fz_target_column_id p of None \<Rightarrow> order_of s2 | Some col \<Rightarrow> place_order i col None (order_of s2))"
  proof (cases "fz_target_column_id p")
    case None
    then show ?thesis using b3 inv2 by (simp add: returnT_def)
  next
    case (Some col)
    then have "finalize_move i col s2 = (Inr u2, s3)" using b3 by simp
    from wp_ok [OF finalize_move_wp [OF inv2] this] finalize_move_comments [OF this] Some show ?thesis by simp
  qed
  have inv4: "board_inv s4" and o4: "order_of s4 = order_of s3"
    using update_card_where_frame [OF _ _ _ _ b4] m3 by simp_all
  have f4: "db_runs s4 = db_runs s3" "db_comments s4 = db_comments s3"
    using update_card_where_runs [OF b4] by simp_all
  have m3': "i \<in> cd_id ` set (db_cards s3)"
  proof (cases "fz_target_column_id p")
    case None
    then show ?thesis using b3 c2 run_card_exists [OF ok r(1)] r(3) by (simp add: returnT_def s1)
  next
    case (Some col)
    then have "finalize_move i col s2 = (Inr u2, s3)" using b3 by simp
    from wp_ok [OF finalize_move_wp [OF inv2] this] show ?thesis by simp
  qed
  have i4: "i \<in> cd_id ` set (db_cards s4)" using update_card_ids [OF b4] m3' by simp
  have last: "order_of t = order_of s4 \<and> db_comments t = db_comments s4 \<and>
      (case fz_next p of None \<Rightarrow> t = s4 \<and> nx = None
       | Some n \<Rightarrow> (\<exists>s5 k. db_cards s5 = db_cards s4 \<and> update_card_where i ?queue s5 = (Inr k, t) \<and>
           db_runs t = insert_row rn_id set_rn_id (queued_run i n) (db_runs s4) \<and> nx = Some (next_id rn_id (db_runs s4))))"
  proof (cases "fz_next p")
    case None
    then show ?thesis using b5 by (simp add: returnT_def)
  next
    case (Some n)
    then obtain s5 k where ins: "insert_run (queued_run i n) s4 = (Inr (the nx), s5)" and nx: "nx \<noteq> None"
      and up: "update_card_where i ?queue s5 = (Inr k, t)"
      using b5 nc by (auto simp: tx_ok)
    have s5: "s5 = s4\<lparr>db_runs := insert_row rn_id set_rn_id (queued_run i n) (db_runs s4)\<rparr>"
      "the nx = next_id rn_id (db_runs s4)"
      using ins by (auto simp: insert_run_def split: if_splits)
    have inv5: "board_inv s5" and o5: "order_of s5 = order_of s4"
      using board_inv_frame [OF inv4 keepsD [OF keeps_insert_run board_invD [OF inv4] ins]] by (simp_all add: s5(1))
    have "order_of t = order_of s5" using update_card_where_frame(2) [OF inv5 _ _ _ up] by simp
    then show ?thesis
      using update_card_where_runs [OF up] up Some nx o5 s5
      by (auto intro!: exI [of _ s5])
  qed
  show "order_of t = (case fz_target_column_id p of None \<Rightarrow> order_of s | Some col \<Rightarrow> place_order i col None (order_of s))"
    using last o4 m3 o2 o1 by (cases "fz_target_column_id p") simp_all
  show "case fz_next p of None \<Rightarrow> db_runs t = rows \<and> nx = None
       | Some n \<Rightarrow> db_runs t = insert_row rn_id set_rn_id (queued_run i n) rows \<and> nx = Some (next_id rn_id rows) \<and> er_card_id n = i"
    if "rows = update_where (\<lambda>r. rn_id r = fz_run_id p) (closed s (fz_outcome p) (fz_summary p)) (db_runs s)"
  proof -
    have "db_runs s4 = rows" using f4(1) m3 c2 that by (simp add: s1)
    then show ?thesis using last nc by (auto split: option.splits)
  qed
  show "map (\<lambda>m. (cm_card_id m, cm_author m, cm_body m)) (db_comments t) =
      map (\<lambda>m. (cm_card_id m, cm_author m, cm_body m)) (db_comments s) @ map (\<lambda>(a, b). (i, a, b)) (fz_comments p)"
    using last f4(2) m3 c2 by (simp add: s1)
  show "\<exists>c. find_card t i = Some c \<and> cd_status c = (if fz_next p = None then fz_final_status p else Queued) \<and>
      cd_awaiting_reason c = (if fz_next p = None then fz_final_awaiting_reason p else None)"
  proof (cases "fz_next p")
    case None
    then have t: "t = s4" using last by simp
    obtain c where c: "find_card s4 i = Some c" using i4 find_card_None by (metis not_None_eq)
    then have "c \<in> set (db_cards s4)" "cd_id c = i" by (auto simp: find_card_def dest: lookup_Some)
    from update_card_at [OF b4 this] obtain x where "c = (?set s3 x)\<lparr>cd_id := i\<rparr>" by metis
    then show ?thesis using c None by (simp add: t touch_def)
  next
    case (Some n)
    then obtain s5 k where up: "update_card_where i ?queue s5 = (Inr k, t)" and c5: "db_cards s5 = db_cards s4"
      using last by auto
    have "i \<in> cd_id ` set (db_cards t)" using update_card_ids [OF up] i4 by (simp add: c5)
    then obtain c where c: "find_card t i = Some c" using find_card_None by (metis not_None_eq)
    then have "c \<in> set (db_cards t)" "cd_id c = i" by (auto simp: find_card_def dest: lookup_Some)
    from update_card_at [OF up this] obtain x where "c = (?queue s5 x)\<lparr>cd_id := i\<rparr>" by metis
    then show ?thesis using c Some by simp
  qed
qed

lemma find_open_run_unique:
  assumes ok: "schema_ok s" and q: "q \<in> set (db_runs s)" "open_run q"
  shows "find_open_run s (rn_card_id q) = Some q"
proof (cases "find_open_run s (rn_card_id q)")
  case None
  then show ?thesis using q by (auto simp: find_open_run_def find_None_iff)
next
  case (Some r)
  then have "r \<in> set (db_runs s)" "rn_card_id r = rn_card_id q" "open_run r"
    by (auto simp: find_open_run_def dest: find_SomeD)
  then show ?thesis using active_run_unique [OF ok, of r q] q Some by simp
qed

text \<open>What a finalization promises: one relation between the stores before and after and the result.\<close>

definition finalize_spec :: "finalize_run \<Rightarrow> db \<Rightarrow> finalize_effects \<Rightarrow> db \<Rightarrow> bool" where
  "finalize_spec p s e t \<longleftrightarrow>
     (let i = cd_id (fe_card e) in
      board_inv t \<and>
      (\<exists>r. find_run s (fz_run_id p) = Some r \<and> open_run r \<and> rn_card_id r = i \<and>
         fe_finished_run e = closed s (fz_outcome p) (fz_summary p) r) \<and>
      order_of t = (case fz_target_column_id p of None \<Rightarrow> order_of s
                    | Some col \<Rightarrow> place_order i col None (order_of s)) \<and>
      find_card t i = Some (fe_card e) \<and> find_run t (fz_run_id p) = Some (fe_finished_run e) \<and>
      find_open_run t i = fe_next_run e \<and> (fe_next_run e = None) = (fz_next p = None) \<and>
      (case fe_next_run e of
         None \<Rightarrow> cd_status (fe_card e) = fz_final_status p \<and> cd_awaiting_reason (fe_card e) = fz_final_awaiting_reason p
       | Some q \<Rightarrow> cd_status (fe_card e) = Queued \<and> queued_open q \<and> rn_id q \<noteq> fz_run_id p) \<and>
      map (\<lambda>m. (cm_card_id m, cm_author m, cm_body m)) (db_comments t) =
        map (\<lambda>m. (cm_card_id m, cm_author m, cm_body m)) (db_comments s) @ map (\<lambda>(a, b). (i, a, b)) (fz_comments p))"

lemma finalize_run_wp:
  assumes inv: "board_inv s"
  shows "wp (finalize_run_uow p) (finalize_spec p s) (\<lambda>_ t. t = s) s"
  unfolding finalize_run_uow_def
proof (rule wp_commit_then)
  fix x t assume b: "finalize_body p s = (Inr x, t)"
  obtain i nx where x: "x = (i, nx)" by fastforce
  define rows where "rows = update_where (\<lambda>r. rn_id r = fz_run_id p) (closed s (fz_outcome p) (fz_summary p)) (db_runs s)"
  note * = finalize_body_ok [OF inv b [unfolded x]]
  note ok = board_invD [OF inv] and okt = board_invD [OF *(2)]
  obtain r where r: "find_run s (fz_run_id p) = Some r" "open_run r" "rn_card_id r = i" using *(1) by blast
  obtain c where c: "find_card t i = Some c" "cd_status c = (if fz_next p = None then fz_final_status p else Queued)"
    "cd_awaiting_reason c = (if fz_next p = None then fz_final_awaiting_reason p else None)" using *(6) by blast
  have ci: "cd_id c = i" using c(1) by (auto simp: find_card_def dest: lookup_Some)
  have ri: "rn_id r = fz_run_id p" using r(1) by (auto simp: find_run_def dest: lookup_Some)
  have frows: "lookup rn_id (fz_run_id p) rows = Some (closed s (fz_outcome p) (fz_summary p) r)"
    using r(1) ri by (simp add: rows_def runs_t.lookup_update find_run_def)
  have fin: "find_run t (fz_run_id p) = Some (closed s (fz_outcome p) (fz_summary p) r)"
    using *(4) [OF rows_def] frows by (auto simp: find_run_def runs_t.lookup_insert_old split: option.splits)
  have none: "\<not> (rn_card_id q = i \<and> open_run q)" if "q \<in> set rows" for q
    using that r active_run_unique [OF ok, of _ r] find_run_Some [OF ok]
    by (auto simp: rows_def update_where_def open_run_def split: if_splits)
  show "wp (case x of (card_id, nid) \<Rightarrow> bindT (require_card card_id) (\<lambda>c. bindT (get_run (fz_run_id p)) (\<lambda>r.
          bindT (case nid of None \<Rightarrow> returnT None | Some i \<Rightarrow> bindT (get_run i) (\<lambda>q. returnT (Some q))) (\<lambda>q.
          returnT \<lparr>fe_card = c, fe_finished_run = r, fe_next_run = q\<rparr>)))) (finalize_spec p s) (\<lambda>_ _. False) t"
  proof (cases "fz_next p")
    case None
    then have nx: "nx = None" "db_runs t = rows" using *(4) [OF rows_def] by auto
    have "find_open_run t i = None" using none by (auto simp: find_open_run_def find_None_iff nx)
    then show ?thesis using None r c ci fin *(2,3,5) by (simp add: x nx(1) tx_simps finalize_spec_def)
  next
    case (Some n)
    then have nx: "nx = Some (next_id rn_id rows)" and rt: "db_runs t = insert_row rn_id set_rn_id (queued_run i n) rows"
      using *(4) [OF rows_def] by auto
    let ?q = "set_rn_id (next_id rn_id rows) (queued_run i n)"
    have fq: "find_run t (next_id rn_id rows) = Some ?q"
      using runs_t.lookup_insert [of rows] by (simp add: find_run_def rt)
    have q: "queued_open ?q" "open_run ?q" "rn_card_id ?q = i" "rn_id ?q = next_id rn_id rows"
      by (simp_all add: set_rn_id_def queued_run_def queued_open_def open_run_def)
    have "rn_id ?q \<noteq> fz_run_id p"
      using q(4) frows next_id_notin [of rn_id rows] lookup_None [of rn_id "fz_run_id p" rows] by auto
    moreover have "find_open_run t i = Some ?q"
      using find_open_run_unique [OF okt, of ?q] fq q by (auto simp: find_run_Some [OF okt])
    ultimately show ?thesis using Some r c ci fin fq q(1) *(2,3,5) by (simp add: x nx tx_simps finalize_spec_def)
  qed
qed simp

end
