(* ===== verification/Store_Columns.thy ===== *)
theory Store_Columns
  imports Store_Runs
begin

text \<open>
  The column operations of \<open>board-core/src/db/boards_columns.rs\<close>: creation, edits, reordering,
  deletion with its cards moved away, and the atomic application of a template. The lemmas show
  that the columns of every board stay numbered 0, 1, 2, ..., that transition targets stay on the
  board of their column, and what a deletion does to the cards.
\<close>

section \<open>Operations\<close>

fun validate_targets :: "int \<Rightarrow> int list \<Rightarrow> unit store" where
  "validate_targets board_id [] = returnT ()"
| "validate_targets board_id (target # rest) =
     bindT (require_column target) (\<lambda>k.
     thenT (ensureT (col_board_id k = board_id)
        (InvalidState (wrong_board target (col_board_id k) board_id)))
     (validate_targets board_id rest))"

definition option_list :: "'a option \<Rightarrow> 'a list" where
  "option_list v = (case v of None \<Rightarrow> [] | Some x \<Rightarrow> [x])"

definition validate_column_targets :: "int \<Rightarrow> int option \<Rightarrow> int option \<Rightarrow> unit store" where
  "validate_column_targets board_id on_success on_fail =
     validate_targets board_id (option_list on_success @ option_list on_fail)"

definition other_columns :: "db \<Rightarrow> int \<Rightarrow> int \<Rightarrow> int list" where
  \<comment> \<open>\<open>SELECT id FROM columns WHERE board_id=? AND id<>? ORDER BY position, id\<close>\<close>
  "other_columns s board_id i =
     map col_id (lane col_id col_board_id col_position board_id (filter (\<lambda>k. col_id k \<noteq> i) (db_columns s)))"

definition reorder_column :: "int \<Rightarrow> int \<Rightarrow> column list store" where
  "reorder_column i position =
     bindT (require_column i) (\<lambda>k.
     thenT (transaction
       (bindT (readT (\<lambda>s. other_columns s (col_board_id k) i)) (\<lambda>ids.
        number_columns 0 (insert_at (insert_index (Some position) (length ids)) i ids))))
     (readT (\<lambda>s. list_columns s (col_board_id k))))"

definition new_column :: "int \<Rightarrow> int \<Rightarrow> int option \<Rightarrow> int option \<Rightarrow> column_create_params \<Rightarrow> column" where
  "new_column board_id end_pos on_success on_fail p =
     \<lparr>col_id = 0, col_board_id = board_id, col_name = cc_name p, col_position = end_pos,
      col_system_prompt = cc_system_prompt p, col_trigger = set_if (cc_trigger p) Manual,
      col_on_success = on_success, col_on_fail = on_fail,
      col_fresh_session = set_if (cc_fresh_session p) False,
      col_harness_override = cc_harness_override p, col_model_override = cc_model_override p,
      col_effort_override = cc_effort_override p, col_permission_override = cc_permission_override p,
      col_timeout_minutes = cc_timeout_minutes p\<rparr>"

definition insert_new_column :: "int \<Rightarrow> int option \<Rightarrow> int option \<Rightarrow> column_create_params \<Rightarrow> int store" where
  "insert_new_column board_id on_success on_fail p s =
     reject_duplicate (insert_column (new_column board_id
         (end_position col_board_id col_position board_id (db_columns s)) on_success on_fail p))
       (duplicate_column (cc_name p)) s"

definition create_column :: "column_create_params \<Rightarrow> column store" where
  "create_column p =
     (let board_id = set_if (cc_board_id p) board_id_default in
      thenT (get_board board_id)
      (thenT (validate_column_targets board_id (cc_on_success p) (cc_on_fail p))
      (bindT (insert_new_column board_id (cc_on_success p) (cc_on_fail p) p) (\<lambda>i.
       thenT (case cc_position p of Some pos \<Rightarrow> thenT (reorder_column i pos) (returnT ()) | None \<Rightarrow> returnT ())
       (require_column i)))))"

definition merge_store_column :: "column \<Rightarrow> column_update_params \<Rightarrow> column" where
  \<comment> \<open>the field-by-field merge inside \<open>update_column\<close>\<close>
  "merge_store_column c u =
     c\<lparr>col_name := set_if (cu_name u) (col_name c),
       col_system_prompt := apply_patch (col_system_prompt c) (cu_system_prompt u),
       col_trigger := set_if (cu_trigger u) (col_trigger c),
       col_on_success := apply_patch (col_on_success c) (cu_on_success u),
       col_on_fail := apply_patch (col_on_fail c) (cu_on_fail u),
       col_fresh_session := set_if (cu_fresh_session u) (col_fresh_session c),
       col_harness_override := apply_patch (col_harness_override c) (cu_harness_override u),
       col_model_override := apply_patch (col_model_override c) (cu_model_override u),
       col_effort_override := apply_patch (col_effort_override c) (cu_effort_override u),
       col_permission_override := apply_patch (col_permission_override c) (cu_permission_override u),
       col_timeout_minutes := apply_patch (col_timeout_minutes c) (cu_timeout_minutes u)\<rparr>"

definition write_column :: "column \<Rightarrow> column \<Rightarrow> column" where
  \<comment> \<open>the columns that \<open>update_column\<close>'s statement writes\<close>
  "write_column v k =
     k\<lparr>col_name := col_name v, col_system_prompt := col_system_prompt v, col_trigger := col_trigger v,
       col_on_success := col_on_success v, col_on_fail := col_on_fail v,
       col_fresh_session := col_fresh_session v, col_harness_override := col_harness_override v,
       col_model_override := col_model_override v, col_effort_override := col_effort_override v,
       col_permission_override := col_permission_override v, col_timeout_minutes := col_timeout_minutes v\<rparr>"

definition update_column :: "column_update_params \<Rightarrow> column store" where
  "update_column u =
     bindT (require_column (cu_id u)) (\<lambda>k.
     let v = merge_store_column k u in
     thenT (validate_column_targets (col_board_id v) (col_on_success v) (col_on_fail v))
     (thenT (reject_duplicate (update_columns (\<lambda>k. col_id k = col_id v) (write_column v))
               (duplicate_column (col_name v)))
     (thenT (case cu_position u of Some pos \<Rightarrow> thenT (reorder_column (col_id v) pos) (returnT ()) | None \<Rightarrow> returnT ())
     (require_column (col_id v)))))"

fun move_cards_to :: "int \<Rightarrow> int list \<Rightarrow> unit store" where
  "move_cards_to dst [] = returnT ()"
| "move_cards_to dst (i # is) =
     thenT (update_card_where i (\<lambda>s c. touch s (c\<lparr>cd_column_id := dst\<rparr>)))
     (thenT (place_card_in_column i dst None) (move_cards_to dst is))"

definition delete_column :: "int \<Rightarrow> int option \<Rightarrow> unit store" where
  "delete_column i dst =
     bindT (require_column i) (\<lambda>k.
     thenT (case dst of None \<Rightarrow> returnT ()
            | Some d \<Rightarrow> bindT (require_column d) (\<lambda>dk.
                ensureT (col_board_id dk = col_board_id k)
                  (InvalidState [T ''destination column '', N d, T '' belongs to another board''])))
     (transaction
       (thenT (case dst of None \<Rightarrow> returnT ()
               | Some d \<Rightarrow> bindT (readT (\<lambda>s. map cd_id (column_cards s i))) (move_cards_to d))
       (thenT (delete_column_row i)
       (bindT (readT (\<lambda>s. map col_id (board_columns s (col_board_id k)))) (number_columns 0))))))"

datatype column_target = Existing int | Created nat

record column_wiring =
  cw_column_index :: nat
  cw_on_success :: "column_target option"
  cw_on_fail :: "column_target option"

fun check_specs :: "int \<Rightarrow> column_create_params list \<Rightarrow> unit store" where
  "check_specs board_id [] = returnT ()"
| "check_specs board_id (p # ps) =
     thenT (ensureT (set_if (cc_board_id p) board_id_default = board_id)
        (InvalidState [T ''column belongs to another board, expected '', N board_id]))
     (thenT (ensureT (cc_position p = None) (BadRequest [T ''template columns cannot specify positions'']))
     (check_specs board_id ps))"

fun insert_specs :: "int \<Rightarrow> column_create_params list \<Rightarrow> int list store" where
  "insert_specs board_id [] = returnT []"
| "insert_specs board_id (p # ps) =
     bindT (insert_new_column board_id None None p) (\<lambda>i.
     bindT (insert_specs board_id ps) (\<lambda>is. returnT (i # is)))"

definition list_get :: "'a list \<Rightarrow> nat \<Rightarrow> 'a option" where
  "list_get xs n = (if n < length xs then Some (xs ! n) else None)"

definition resolve_target :: "int \<Rightarrow> int list \<Rightarrow> column_target option \<Rightarrow> int option store" where
  "resolve_target board_id ids target =
     (case target of
        None \<Rightarrow> returnT None
      | Some (Created index) \<Rightarrow>
          queryT (\<lambda>_. map_sum id Some
            (ok_or (BadRequest [T ''template target index '', N (int index), T '' is out of range'']) (list_get ids index)))
      | Some (Existing i) \<Rightarrow>
          bindT (require [T ''column '', N i] (\<lambda>s. map_option col_board_id (find_column s i))) (\<lambda>b.
          thenT (ensureT (b = board_id) (InvalidState (wrong_board i b board_id)))
          (returnT (Some i))))"

fun wire_columns :: "int \<Rightarrow> int list \<Rightarrow> column_wiring list \<Rightarrow> unit store" where
  "wire_columns board_id ids [] = returnT ()"
| "wire_columns board_id ids (w # ws) =
     bindT (queryT (\<lambda>_. ok_or (BadRequest [T ''template source index '', N (int (cw_column_index w)), T '' is out of range''])
        (list_get ids (cw_column_index w)))) (\<lambda>i.
     bindT (resolve_target board_id ids (cw_on_success w)) (\<lambda>on_success.
     bindT (resolve_target board_id ids (cw_on_fail w)) (\<lambda>on_fail.
     thenT (update_columns (\<lambda>k. col_id k = i) (\<lambda>k. k\<lparr>col_on_success := on_success, col_on_fail := on_fail\<rparr>))
     (wire_columns board_id ids ws))))"

definition apply_template_columns :: "int \<Rightarrow> column_create_params list \<Rightarrow> column_wiring list \<Rightarrow> column list store" where
  "apply_template_columns board_id specs wiring =
     thenT (get_board board_id)
     (thenT (check_specs board_id specs)
     (thenT (transaction (bindT (insert_specs board_id specs) (\<lambda>ids. wire_columns board_id ids wiring)))
     (readT (\<lambda>s. list_columns s board_id))))"

section \<open>The schema\<close>

lemma keeps_validate_targets [tx_keeps]: "keeps P (validate_targets b ts)"
  by (induction b ts rule: validate_targets.induct) (auto intro: tx_keeps)

lemma keeps_validate_column_targets [tx_keeps]: "keeps P (validate_column_targets b x y)"
  unfolding validate_column_targets_def by (rule tx_keeps)

lemma keeps_reorder_column [tx_keeps]: "keeps schema_ok (reorder_column i p)"
  unfolding reorder_column_def by (intro tx_keeps)

lemma keeps_insert_new_column [tx_keeps]: "keeps schema_ok (insert_new_column b x y p)"
proof -
  have "keeps schema_ok (reject_duplicate (insert_column c) m)" for c m by (intro tx_keeps)
  then show ?thesis by (simp add: keeps_def insert_new_column_def)
qed

lemma keeps_create_column [tx_keeps]: "keeps schema_ok (create_column p)"
  unfolding create_column_def Let_def by (intro tx_keeps)

lemma keeps_update_column [tx_keeps]: "keeps schema_ok (update_column u)"
  unfolding update_column_def Let_def by (intro tx_keeps)

lemma keeps_move_cards_to [tx_keeps]: "keeps schema_ok (move_cards_to d is)"
  by (induction d "is" rule: move_cards_to.induct) (auto intro: tx_keeps)

lemma keeps_delete_column [tx_keeps]: "keeps schema_ok (delete_column i d)"
  unfolding delete_column_def by (intro tx_keeps)

lemma keeps_template [tx_keeps]: "keeps schema_ok (apply_template_columns b specs ws)"
proof -
  have "keeps P (check_specs b specs)" for P
    by (induction b specs rule: check_specs.induct) (auto intro: tx_keeps)
  moreover have "keeps schema_ok (insert_specs b specs)"
    by (induction b specs rule: insert_specs.induct) (auto intro!: tx_keeps)
  moreover have "keeps P (resolve_target b ids t)" for P ids t
    unfolding resolve_target_def by (auto intro!: tx_keeps split: option.splits column_target.splits)
  then have "keeps schema_ok (wire_columns b ids ws)" for ids
    by (induction b ids ws rule: wire_columns.induct) (auto intro!: tx_keeps)
  ultimately show ?thesis unfolding apply_template_columns_def by (intro tx_keeps)
qed

section \<open>The order of columns\<close>

definition col_order :: "db \<Rightarrow> int \<Rightarrow> int list" where
  "col_order s b = map col_id (board_columns s b)"

definition compact_board :: "db \<Rightarrow> int \<Rightarrow> bool" where
  "compact_board s b \<longleftrightarrow> map col_position (board_columns s b) = map int [0..<length (board_columns s b)]"

definition local_target :: "(int \<times> int) set \<Rightarrow> int \<Rightarrow> int option \<Rightarrow> bool" where
  "local_target places b v \<longleftrightarrow> (case v of None \<Rightarrow> True | Some j \<Rightarrow> (j, b) \<in> places)"

definition targets_local :: "db \<Rightarrow> bool" where
  \<comment> \<open>a transition never leads to a column of another board\<close>
  "targets_local s \<longleftrightarrow> (\<forall>k \<in> set (db_columns s).
     local_target (column_boards s) (col_board_id k) (col_on_success k) \<and>
     local_target (column_boards s) (col_board_id k) (col_on_fail k))"

definition store_inv :: "db \<Rightarrow> bool" where
  "store_inv s \<longleftrightarrow> board_inv s \<and> (\<forall>b. compact_board s b) \<and> targets_local s"

lemma store_invD: "store_inv s \<Longrightarrow> board_inv s" "store_inv s \<Longrightarrow> schema_ok s"
  by (simp_all add: store_inv_def board_inv_def)

lemma find_column_Some:
  "schema_ok s \<Longrightarrow> find_column s i = Some k \<longleftrightarrow> k \<in> set (db_columns s) \<and> col_id k = i"
  by (simp add: find_column_def lookup_eq [OF schema_okD(2)])

lemma column_unique:
  "schema_ok s \<Longrightarrow> x \<in> set (db_columns s) \<Longrightarrow> y \<in> set (db_columns s) \<Longrightarrow> col_id x = col_id y \<Longrightarrow> x = y"
  using schema_okD(2) by (auto simp: distinct_map inj_on_def)

lemma col_order_set: "set (col_order s b) = col_id ` {k \<in> set (db_columns s). col_board_id k = b}"
  by (auto simp: col_order_def board_columns_def column_lane.lane_set)

lemma distinct_col_order: "schema_ok s \<Longrightarrow> distinct (col_order s b)"
  unfolding col_order_def board_columns_def by (intro column_lane.distinct_lane_keys) (simp add: schema_ok_def)

lemma other_columns_eq: "other_columns s b i = filter (\<lambda>j. j \<noteq> i) (col_order s b)"
  unfolding other_columns_def col_order_def board_columns_def lane_def
  by (simp add: filter_map o_def filter_sort conj_commute)

lemma number_columns_board:
  assumes ok: "schema_ok s" and d: "distinct is" and si: "set is = set (col_order s b)"
    and n: "number_columns 0 is s = (r, t)"
  shows "r = Inr ()" and "col_order t b = is" and "compact_board t b"
    and "c \<noteq> b \<Longrightarrow> board_columns t c = board_columns s c"
    and "t = s\<lparr>db_columns := db_columns t\<rparr>" and "column_boards t = column_boards s"
    and "(\<And>p k. f (set_col_pos p k) = f k) \<Longrightarrow> map f (db_columns t) = map f (db_columns s)"
proof -
  have t: "r = Inr ()" "t = s\<lparr>db_columns := renumber col_id set_col_pos 0 is (db_columns s)\<rparr>"
    using n number_columns_eq [OF ok] by simp_all
  have s: "set is = col_id ` {k \<in> set (db_columns s). col_board_id k = b}"
    using si by (simp add: col_order_set)
  note k = column_lane.lane_renumber_keys [OF schema_okD(2) [OF ok] d s]
  show "r = Inr ()" by (fact t(1))
  show "col_order t b = is" using k(1) by (simp add: t(2) col_order_def board_columns_def)
  show "compact_board t b"
    using k(2) map_eq_imp_length_eq [OF k(2)] by (simp add: t(2) compact_board_def board_columns_def)
  show "board_columns t c = board_columns s c" if "c \<noteq> b"
  proof -
    have "set is \<inter> col_id ` {r \<in> set (db_columns s). col_board_id r = c} = {}"
      using that column_unique [OF ok] unfolding s by auto
    then show ?thesis using column_lane.lane_renumber_other [OF d] by (simp add: t(2) board_columns_def)
  qed
  show "t = s\<lparr>db_columns := db_columns t\<rparr>" by (simp add: t(2))
  show "(\<And>p k. f (set_col_pos p k) = f k) \<Longrightarrow> map f (db_columns t) = map f (db_columns s)"
    by (simp add: t(2)) (rule column_lane.renumber_frame [OF d])
  show "column_boards t = column_boards s"
    unfolding column_boards_def
    using column_lane.renumber_frame [OF d, where f = "\<lambda>k. (col_id k, col_board_id k)" and p = 0 and rows = "db_columns s"]
    by (simp add: t(2) set_col_pos_def) (metis list.set_map)
qed

lemma targets_local_map:
  assumes "map (\<lambda>k. (col_id k, col_board_id k, col_on_success k, col_on_fail k)) (db_columns t) =
    map (\<lambda>k. (col_id k, col_board_id k, col_on_success k, col_on_fail k)) (db_columns s)"
  shows "targets_local t = targets_local s" and "column_boards t = column_boards s"
proof -
  let ?f = "\<lambda>k. (col_id k, col_board_id k, col_on_success k, col_on_fail k)"
  have e: "?f ` set (db_columns t) = ?f ` set (db_columns s)"
    using arg_cong [OF assms, of set] by (simp only: set_map)
  have "column_boards u = (\<lambda>(a, b, _). (a, b)) ` ?f ` set (db_columns u)" for u
    by (simp add: column_boards_def image_image)
  then show cb: "column_boards t = column_boards s" by (simp only: e)
  have "targets_local u \<longleftrightarrow> (\<forall>(a, b, x, y) \<in> ?f ` set (db_columns u).
      local_target (column_boards u) b x \<and> local_target (column_boards u) b y)" for u
    by (simp add: targets_local_def)
  then show "targets_local t = targets_local s" by (simp only: e cb)
qed

lemma number_columns_inv:
  assumes ok: "schema_ok s" and bi: "card_places s \<subseteq> column_boards s" "compact_cards s" "targets_local s"
    and cb: "\<And>c. c \<noteq> b \<Longrightarrow> compact_board s c"
    and d: "distinct is" and si: "set is = set (col_order s b)"
    and n: "number_columns 0 is s = (r, t)"
  shows "store_inv t"
proof -
  note * = number_columns_board [OF ok d si n]
  have okt: "schema_ok t" using keepsD [OF keeps_number_columns ok n] .
  have m: "map (\<lambda>k. (col_id k, col_board_id k, col_on_success k, col_on_fail k)) (db_columns t) =
    map (\<lambda>k. (col_id k, col_board_id k, col_on_success k, col_on_fail k)) (db_columns s)"
    by (rule *(7)) (simp add: set_col_pos_def)
  have "compact_board t c" for c
    using *(3,4) cb by (cases "c = b") (auto simp: compact_board_def)
  moreover have "db_cards t = db_cards s" by (subst *(5)) simp
  ultimately show ?thesis
    using okt bi targets_local_map [OF m]
    by (simp add: store_inv_def board_inv_def card_places_def compact_cards_def compact_column_def column_cards_def)
qed

lemma order_of_frame: "db_cards t = db_cards s \<Longrightarrow> order_of t = order_of s"
  by (simp add: order_of_def column_cards_def fun_eq_iff)

definition column_moved :: "db \<Rightarrow> int \<Rightarrow> int \<Rightarrow> column list \<Rightarrow> db \<Rightarrow> bool" where
  \<comment> \<open>the column is put at a place in the order of its board, nothing else changes\<close>
  "column_moved s i pos cs t \<longleftrightarrow>
     (\<exists>k. find_column s i = Some k \<and> store_inv t \<and> order_of t = order_of s \<and> db_runs t = db_runs s \<and>
       col_order t = (col_order s)(col_board_id k :=
         (let rest = filter (\<lambda>j. j \<noteq> i) (col_order s (col_board_id k))
          in insert_at (insert_index (Some pos) (length rest)) i rest)) \<and>
       cs = board_columns t (col_board_id k) \<and>
       map (\<lambda>k. k\<lparr>col_position := 0\<rparr>) (db_columns t) = map (\<lambda>k. k\<lparr>col_position := 0\<rparr>) (db_columns s))"

lemma reorder_column_wp:
  assumes inv: "store_inv s"
  shows "wp (reorder_column i pos) (column_moved s i pos) (\<lambda>_ t. t = s \<and> find_column s i = None) s"
proof (cases "find_column s i")
  case None
  then show ?thesis by (simp add: reorder_column_def tx_simps)
next
  case (Some k)
  note ok = store_invD(2) [OF inv]
  let ?b = "col_board_id k"
  let ?is = "insert_at (insert_index (Some pos) (length (other_columns s ?b i))) i (other_columns s ?b i)"
  obtain r t where n: "number_columns 0 ?is s = (r, t)" by fastforce
  have "i \<in> set (col_order s ?b)"
    using Some by (auto simp: col_order_set find_column_Some [OF ok])
  then have si: "set ?is = set (col_order s ?b)" by (auto simp: other_columns_eq)
  have d: "distinct ?is"
    by (rule distinct_insert_at) (simp_all add: other_columns_eq distinct_col_order [OF ok])
  note * = number_columns_board [OF ok d si n]
  have inv_t: "store_inv t"
    using number_columns_inv [OF ok _ _ _ _ d si n] inv by (simp add: store_inv_def board_inv_def)
  have "col_order t = (col_order s)(?b := ?is)"
    using *(2,4) by (auto simp: fun_eq_iff col_order_def)
  moreover have "order_of t = order_of s" by (rule order_of_frame) (subst *(5), simp)
  moreover have "db_runs t = db_runs s" by (subst *(5)) simp
  moreover have "map (\<lambda>k. k\<lparr>col_position := 0\<rparr>) (db_columns t) = map (\<lambda>k. k\<lparr>col_position := 0\<rparr>) (db_columns s)"
    by (rule *(7)) (simp add: set_col_pos_def)
  ultimately show ?thesis
    using Some inv_t *(1)
    by (simp add: reorder_column_def tx_simps wp_def [of "number_columns 0 ids" for ids] n [unfolded other_columns_eq]
        other_columns_eq Let_def list_columns_def column_moved_def)
qed

section \<open>Creation and edits\<close>

lemma validate_targets_ok:
  "validate_targets b ts s = (Inr u, t) \<Longrightarrow> t = s \<and> (\<forall>j \<in> set ts. (j, b) \<in> column_boards s)"
proof (induction ts arbitrary: s)
  case (Cons j ts)
  then show ?case by (auto simp: tx_ok lookup_ok_iff dest: column_boards_find)
qed (simp add: returnT_def)

lemma validate_column_targets_ok:
  "validate_column_targets b x y s = (Inr u, t) \<Longrightarrow>
   t = s \<and> local_target (column_boards s) b x \<and> local_target (column_boards s) b y"
  unfolding validate_column_targets_def
  by (drule validate_targets_ok) (auto simp: option_list_def local_target_def split: option.splits)

lemma insert_new_column_ok:
  assumes inv: "store_inv s" and b: "find_board s b = Some bd"
    and x: "local_target (column_boards s) b x" and y: "local_target (column_boards s) b y"
    and i: "insert_new_column b x y p s = (Inr i, t)"
  shows "store_inv t" and "order_of t = order_of s" and "db_runs t = db_runs s"
    and "col_order t = (col_order s)(b := col_order s b @ [i])" and "i \<notin> col_id ` set (db_columns s)"
    and "find_column t i = Some (set_col_id i (new_column b (int (length (col_order s b))) x y p))"
    and "column_boards t = insert (i, b) (column_boards s)" and "db_boards t = db_boards s"
    and "db_projects t = db_projects s"
proof -
  note ok = store_invD(2) [OF inv]
  define e where "e = end_position col_board_id col_position b (db_columns s)"
  define k where "k = new_column b e x y p"
  let ?k = "set_col_id i k"
  have ins: "insert_column k s = (Inr i, t)"
    using i by (auto simp: insert_new_column_def reject_duplicate_def k_def e_def split: prod.splits sum.splits)
  have t: "t = s\<lparr>db_columns := db_columns s @ [?k]\<rparr>" and ni: "i = next_id col_id (db_columns s)"
    using ins by (auto simp: insert_column_def insert_row_def Let_def split: if_splits)
  show new: "i \<notin> col_id ` set (db_columns s)" unfolding ni by (rule next_id_notin)
  have comp: "compact_board s c" for c using inv by (simp add: store_inv_def)
  have len: "int (length (col_order s b)) = e"
    and below: "\<And>q. q \<in> set (board_columns s b) \<Longrightarrow> col_position q < e"
  proof -
    let ?L = "board_columns s b"
    have ps: "col_position ` set ?L = int ` {0..<length ?L}"
      using arg_cong [OF comp [of b, unfolded compact_board_def], of set] by simp
    have L: "set ?L = {k \<in> set (db_columns s). col_board_id k = b}"
      by (simp add: board_columns_def column_lane.lane_set)
    have e': "e = int (length ?L)"
      using end_position_numbered [of col_position "db_columns s" col_board_id b "length ?L"] ps L by (simp add: e_def)
    then show "int (length (col_order s b)) = e" by (simp add: col_order_def)
    show "\<And>q. q \<in> set ?L \<Longrightarrow> col_position q < e" using ps e' by force
  qed
  have kb: "col_board_id ?k = b" "col_position ?k = e" "col_id ?k = i"
    by (simp_all add: set_col_id_def k_def new_column_def)
  have lane: "board_columns t c = (if c = b then board_columns s b @ [?k] else board_columns s c)" for c
  proof (cases "c = b")
    case True
    have "\<forall>q \<in> set (filter (\<lambda>r. col_board_id r = b) (db_columns s)). (col_position q, col_id q) < (col_position ?k, col_id ?k)"
      using below by (auto simp: board_columns_def column_lane.lane_set kb less_prod_def)
    then show ?thesis using True kb by (simp add: board_columns_def lane_def t sort_key_append_last)
  next
    case False
    then show ?thesis using kb by (simp add: board_columns_def lane_def t)
  qed
  show co: "col_order t = (col_order s)(b := col_order s b @ [i])"
    by (auto simp: fun_eq_iff col_order_def lane kb)
  show cb: "column_boards t = insert (i, b) (column_boards s)"
    using kb by (auto simp: column_boards_def t)
  have okt: "schema_ok t" using keepsD [OF keeps_insert_column ok ins] .
  have "compact_board t c" for c
    using comp len by (auto simp: compact_board_def lane kb col_order_def)
  moreover have "targets_local t"
  proof -
    have sub: "local_target (column_boards s) c v \<Longrightarrow> local_target (column_boards t) c v" for c v
      by (auto simp: local_target_def cb split: option.splits)
    have "col_on_success ?k = x" "col_on_fail ?k = y" by (simp_all add: set_col_id_def k_def new_column_def)
    then show ?thesis
      using inv sub x y kb by (simp add: targets_local_def store_inv_def t)
  qed
  moreover have "board_inv t"
    using inv okt cb by (auto simp: store_inv_def board_inv_def card_places_def compact_cards_def compact_column_def column_cards_def t)
  ultimately show "store_inv t" by (simp add: store_inv_def)
  show "order_of t = order_of s" by (rule order_of_frame) (simp add: t)
  show "db_runs t = db_runs s" "db_boards t = db_boards s" "db_projects t = db_projects s"
    by (simp_all add: t)
  show "find_column t i = Some (set_col_id i (new_column b (int (length (col_order s b))) x y p))"
    using find_column_Some [OF okt, of i ?k] kb by (simp add: t len k_def)
qed

lemma atomic_insert_new_column [simp]: "atomic (insert_new_column b x y p)"
  by (auto simp: atomic_def insert_new_column_def reject_duplicate_def insert_column_def Let_def split: if_splits)

lemma wp_validate_column_targets:
  assumes q: "local_target (column_boards s) b x \<Longrightarrow> local_target (column_boards s) b y \<Longrightarrow> Q () s"
    and e: "\<And>e. E e s"
  shows "wp (validate_column_targets b x y) Q E s"
proof (rule wpI)
  fix u t assume "validate_column_targets b x y s = (Inr u, t)"
  from validate_column_targets_ok [OF this] q show "Q u t" by simp
next
  fix e t assume "validate_column_targets b x y s = (Inl e, t)"
  moreover have "keeps (\<lambda>u. u = s) (validate_column_targets b x y)" by (rule keeps_validate_column_targets)
  ultimately have "t = s" using keepsD [of "\<lambda>u. u = s" "validate_column_targets b x y" s] by blast
  with assms(2) show "E e t" by simp
qed

definition column_created :: "db \<Rightarrow> int \<Rightarrow> int option \<Rightarrow> column \<Rightarrow> db \<Rightarrow> bool" where
  \<comment> \<open>one new column in the order of board \<open>b\<close>, nothing else moved\<close>
  "column_created s b pos k t \<longleftrightarrow>
     store_inv t \<and> find_column t (col_id k) = Some k \<and> order_of t = order_of s \<and> db_runs t = db_runs s \<and>
     col_id k \<notin> col_id ` set (db_columns s) \<and>
     col_order t = (col_order s)(b := insert_at (case pos of None \<Rightarrow> length (col_order s b)
       | Some q \<Rightarrow> insert_index (Some q) (length (col_order s b))) (col_id k) (col_order s b))"

lemma find_column_in_order: "i \<in> set (col_order s b) \<Longrightarrow> \<exists>k. find_column s i = Some k \<and> col_id k = i"
  using lookup_None [of col_id i "db_columns s"]
  by (cases "find_column s i") (auto simp: col_order_set find_column_def dest: lookup_Some)

lemma place_new_column:
  assumes inv: "store_inv s" and bd: "find_board s b = Some bd"
    and x: "local_target (column_boards s) b x" and y: "local_target (column_boards s) b y"
    and i: "insert_new_column b x y p s = (Inr i, t)"
  shows "wp (reorder_column i pos) (\<lambda>_ u. \<exists>k. find_column u i = Some k \<and> column_created s b (Some pos) k u) (\<lambda>_ _. False) t"
proof -
  note n = insert_new_column_ok [OF inv bd x y i]
  have k: "\<exists>k. find_column t i = Some k \<and> col_board_id k = b"
    using n(6) by (simp add: set_col_id_def new_column_def)
  have rest: "filter (\<lambda>j. j \<noteq> i) (col_order t b) = col_order s b"
    using n(4,5) by (auto simp: filter_id_conv col_order_set)
  show ?thesis
  proof (rule wp_mono [OF reorder_column_wp [OF n(1)]])
    fix cs u
    assume "column_moved t i pos cs u"
    note a = this [unfolded column_moved_def]
    from a have co: "col_order u = (col_order s)(b := insert_at (insert_index (Some pos) (length (col_order s b))) i (col_order s b))"
      using k rest n(4) by (auto simp: Let_def)
    then have "i \<in> set (col_order u b)" by simp
    from find_column_in_order [OF this] a co n(2,3,5)
    show "\<exists>k. find_column u i = Some k \<and> column_created s b (Some pos) k u"
      by (auto simp: column_created_def)
  next
    fix e u assume "u = t \<and> find_column t i = None"
    then show False using k by simp
  qed
qed

lemma create_column_wp:
  assumes inv: "store_inv s"
  shows "wp (create_column p) (column_created s (set_if (cc_board_id p) board_id_default) (cc_position p)) (\<lambda>_ t. t = s) s"
proof -
  let ?b = "set_if (cc_board_id p) board_id_default"
  let ?m = "\<lambda>i. case cc_position p of Some pos \<Rightarrow> thenT (reorder_column i pos) (returnT ()) | None \<Rightarrow> returnT ()"
  have *: "wp (insert_new_column ?b (cc_on_success p) (cc_on_fail p) p)
     (\<lambda>i. wp (?m i) (\<lambda>_. wp (require_column i) (column_created s ?b (cc_position p)) (\<lambda>_ t. t = s)) (\<lambda>_ t. t = s))
     (\<lambda>_ t. t = s) s"
    if bd: "find_board s ?b = Some bd" and lx: "local_target (column_boards s) ?b (cc_on_success p)"
      and ly: "local_target (column_boards s) ?b (cc_on_fail p)" for bd
  proof (rule wp_atomicI)
    fix i t assume i: "insert_new_column ?b (cc_on_success p) (cc_on_fail p) p s = (Inr i, t)"
    note n = insert_new_column_ok [OF inv bd lx ly i]
    show "wp (?m i) (\<lambda>_. wp (require_column i) (column_created s ?b (cc_position p)) (\<lambda>_ t. t = s)) (\<lambda>_ t. t = s) t"
    proof (cases "cc_position p")
      case None
      then show ?thesis
        using n by (simp add: tx_simps column_created_def insert_at_end set_col_id_def)
    next
      case (Some pos)
      then show ?thesis
        by (auto simp: tx_simps intro!: wp_mono [OF place_new_column [OF inv bd lx ly i, of pos]])
    qed
  qed simp_all
  show ?thesis
  proof (cases "find_board s ?b")
    case None
    then show ?thesis by (simp add: create_column_def Let_def tx_simps)
  next
    case (Some bd)
    show ?thesis
      unfolding create_column_def Let_def
      by (simp only: wp_then wp_bind wp_lookups Some option.case)
        (rule wp_validate_column_targets, rule * [OF Some, unfolded wp_lookups], simp_all)
  qed
qed

lemma update_columns_frame:
  assumes inv: "store_inv s" and f: "\<And>k. col_position (f k) = col_position k"
    and loc: "\<And>k. k \<in> set (db_columns s) \<Longrightarrow> P k \<Longrightarrow> local_target (column_boards s) (col_board_id k) (col_on_success (f k)) \<and>
      local_target (column_boards s) (col_board_id k) (col_on_fail (f k))"
    and u: "update_columns P f s = (Inr n, t)"
  shows "store_inv t" and "col_order t = col_order s" and "order_of t = order_of s" and "column_boards t = column_boards s"
    and "t = s\<lparr>db_columns := update_where P (\<lambda>k. (f k)\<lparr>col_id := col_id k, col_board_id := col_board_id k\<rparr>) (db_columns s)\<rparr>"
proof -
  let ?h = "\<lambda>k. (f k)\<lparr>col_id := col_id k, col_board_id := col_board_id k\<rparr>"
  let ?g = "\<lambda>k. if P k then ?h k else k"
  have g: "\<And>k. col_id (?g k) = col_id k" "\<And>k. col_board_id (?g k) = col_board_id k"
    "\<And>k. col_position (?g k) = col_position k" by (simp_all add: f)
  show t: "t = s\<lparr>db_columns := update_where P ?h (db_columns s)\<rparr>"
    using u by (auto simp: update_columns_def Let_def split: if_splits)
  have cols: "db_columns t = map ?g (db_columns s)" by (simp add: t update_where_def)
  have lane: "board_columns t b = map ?g (board_columns s b)" for b
  proof -
    have "filter (\<lambda>k. col_board_id k = b) (map ?g rows) = map ?g (filter (\<lambda>k. col_board_id k = b) rows)" for rows
      by (simp add: filter_map o_def g)
    then show ?thesis
      unfolding board_columns_def lane_def cols by (simp add: sort_key_map_commute [where g = ?g] g del: map_map)
  qed
  show co: "col_order t = col_order s"
    by (simp add: fun_eq_iff col_order_def lane o_def g cong: if_cong del: if_image_distrib)
  show cb: "column_boards t = column_boards s"
    by (simp add: column_boards_def cols image_image g del: if_image_distrib)
  show o: "order_of t = order_of s" by (rule order_of_frame) (simp add: t)
  have "compact_board t b" for b
    using inv by (simp add: store_inv_def compact_board_def lane o_def g cong: if_cong)
  moreover have "targets_local t"
  proof -
    have "local_target (column_boards s) (col_board_id (?g k)) (col_on_success (?g k)) \<and>
        local_target (column_boards s) (col_board_id (?g k)) (col_on_fail (?g k))" if "k \<in> set (db_columns s)" for k
      using that inv loc [of k] by (auto simp: store_inv_def targets_local_def)
    then show ?thesis unfolding targets_local_def cb cols by (simp del: if_image_distrib)
  qed
  moreover have "board_inv t"
    using inv keepsD [OF keeps_update_columns store_invD(2) [OF inv] u] cb
    by (simp add: store_inv_def board_inv_def card_places_def compact_cards_def compact_column_def column_cards_def t)
  ultimately show "store_inv t" by (simp add: store_inv_def)
qed

lemma write_column_frame [simp]: "col_position (write_column v k) = col_position k"
  by (simp add: write_column_def)

lemma merge_store_column_frame [simp]:
  "col_id (merge_store_column k u) = col_id k" "col_board_id (merge_store_column k u) = col_board_id k"
  by (simp_all add: merge_store_column_def)

lemma atomic_reject_duplicate [simp]: "atomic m \<Longrightarrow> atomic (reject_duplicate m dup)"
  by (fastforce simp: atomic_def reject_duplicate_def split: prod.splits sum.splits)

lemma reject_duplicate_ok: "reject_duplicate m dup s = (Inr x, t) \<longleftrightarrow> m s = (Inr x, t)"
  by (auto simp: reject_duplicate_def split: prod.splits sum.splits)

definition column_updated :: "db \<Rightarrow> column_update_params \<Rightarrow> column \<Rightarrow> db \<Rightarrow> bool" where
  \<comment> \<open>the patched column, moved inside its board when a position was given\<close>
  "column_updated s u k' t \<longleftrightarrow>
     (\<exists>k. find_column s (cu_id u) = Some k \<and> find_column t (cu_id u) = Some k' \<and>
        store_inv t \<and> order_of t = order_of s \<and>
        k'\<lparr>col_position := 0\<rparr> = (merge_store_column k u)\<lparr>col_position := 0\<rparr> \<and>
        col_order t = (case cu_position u of None \<Rightarrow> col_order s
          | Some pos \<Rightarrow> (col_order s)(col_board_id k :=
              (let rest = filter (\<lambda>j. j \<noteq> cu_id u) (col_order s (col_board_id k))
               in insert_at (insert_index (Some pos) (length rest)) (cu_id u) rest))))"

lemma find_column_map:
  assumes "map (\<lambda>k. k\<lparr>col_position := 0\<rparr>) (db_columns t) = map (\<lambda>k. k\<lparr>col_position := 0\<rparr>) (db_columns s)"
  shows "map_option (\<lambda>k. k\<lparr>col_position := 0\<rparr>) (find_column t i) = map_option (\<lambda>k. k\<lparr>col_position := 0\<rparr>) (find_column s i)"
proof -
  have "map_option (\<lambda>k. k\<lparr>col_position := 0\<rparr>) (lookup col_id i rows) = lookup col_id i (map (\<lambda>k. k\<lparr>col_position := 0\<rparr>) rows)" for rows
    by (induction rows) (simp_all add: lookup_def)
  from this [of "db_columns t"] this [of "db_columns s"] show ?thesis by (simp only: find_column_def assms)
qed

lemma update_column_wp:
  assumes inv: "store_inv s"
  shows "wp (update_column u) (column_updated s u) (\<lambda>_ t. t = s) s"
proof (cases "find_column s (cu_id u)")
  case None
  then show ?thesis by (simp add: update_column_def tx_simps)
next
  case (Some k)
  note ok = store_invD(2) [OF inv]
  have k: "k \<in> set (db_columns s)" "col_id k = cu_id u" using Some by (auto simp: find_column_Some [OF ok])
  let ?v = "merge_store_column k u" and ?i = "cu_id u"
  let ?up = "reject_duplicate (update_columns (\<lambda>k. col_id k = ?i) (write_column ?v)) (duplicate_column (col_name ?v))"
  let ?m = "case cu_position u of Some pos \<Rightarrow> thenT (reorder_column ?i pos) (returnT ()) | None \<Rightarrow> returnT ()"
  have "wp ?up (\<lambda>_. wp ?m (\<lambda>_. wp (require_column ?i) (column_updated s u) (\<lambda>_ t. t = s)) (\<lambda>_ t. t = s)) (\<lambda>_ t. t = s) s"
    if lx: "local_target (column_boards s) (col_board_id k) (col_on_success ?v)"
      and ly: "local_target (column_boards s) (col_board_id k) (col_on_fail ?v)"
  proof (rule wp_atomicI)
    fix n t assume "?up s = (Inr n, t)"
    then have up: "update_columns (\<lambda>k. col_id k = ?i) (write_column ?v) s = (Inr n, t)"
      by (simp add: reject_duplicate_ok)
    have loc: "local_target (column_boards s) (col_board_id q) (col_on_success (write_column ?v q)) \<and>
        local_target (column_boards s) (col_board_id q) (col_on_fail (write_column ?v q))"
      if "q \<in> set (db_columns s)" "col_id q = ?i" for q
    proof -
      have "q = k" using that k column_unique [OF ok] by simp
      then show ?thesis using lx ly by (simp add: write_column_def)
    qed
    note f = update_columns_frame [where P = "\<lambda>k. col_id k = ?i" and f = "write_column ?v", OF inv write_column_frame _ up]
    have loc': "\<And>q. q \<in> set (db_columns s) \<Longrightarrow> col_id q = ?i \<Longrightarrow>
       local_target (column_boards s) (col_board_id q) (col_on_success (write_column ?v q)) \<and>
       local_target (column_boards s) (col_board_id q) (col_on_fail (write_column ?v q))"
      by (rule loc)
    note f = f [OF loc', simplified]
    have "find_column t ?i = map_option (\<lambda>q. if col_id q = ?i then (write_column ?v q)\<lparr>col_id := col_id q, col_board_id := col_board_id q\<rparr> else q)
        (find_column s ?i)"
      unfolding find_column_def arg_cong [OF f(5), of db_columns]
      by (simp, rule columns_t.lookup_update, simp)
    then have kt: "find_column t ?i = Some ((write_column ?v k)\<lparr>col_id := col_id k, col_board_id := col_board_id k\<rparr>)"
      using Some k by simp
    have same: "((write_column ?v k)\<lparr>col_id := col_id k, col_board_id := col_board_id k\<rparr>)\<lparr>col_position := 0\<rparr> = ?v\<lparr>col_position := 0\<rparr>"
      by (simp add: write_column_def merge_store_column_def)
    show "wp ?m (\<lambda>_. wp (require_column ?i) (column_updated s u) (\<lambda>_ t. t = s)) (\<lambda>_ t. t = s) t"
    proof (cases "cu_position u")
      case None
      then show ?thesis using f kt same Some by (simp add: tx_simps column_updated_def)
    next
      case (Some pos)
      have "wp (reorder_column ?i pos) (\<lambda>_ w. \<exists>k'. find_column w ?i = Some k' \<and> column_updated s u k' w) (\<lambda>_ _. False) t"
      proof (rule wp_mono [OF reorder_column_wp [OF f(1)]])
        fix cs w
        assume "column_moved t ?i pos cs w"
        note a = this [unfolded column_moved_def]
        from a obtain k' where "find_column w ?i = Some k'" "k'\<lparr>col_position := 0\<rparr> = ?v\<lparr>col_position := 0\<rparr>"
          using find_column_map [of w t ?i] kt same by auto
        then show "\<exists>k'. find_column w ?i = Some k' \<and> column_updated s u k' w"
          using a f(2,3) kt Some \<open>find_column s ?i = Some k\<close> by (auto simp: column_updated_def)
      qed (use kt in simp)
      then show ?thesis using Some by (auto simp: tx_simps elim!: wp_mono)
    qed
  qed simp_all
  then show ?thesis
    unfolding update_column_def Let_def
    by (simp only: wp_then wp_bind wp_lookups Some option.case merge_store_column_frame k)
      (rule wp_validate_column_targets, simp_all)
qed

section \<open>Deletion\<close>

text \<open>Emptying a column into another one, as an operation on the order of cards.\<close>

definition append_order :: "int \<Rightarrow> int list \<Rightarrow> (int \<Rightarrow> int list) \<Rightarrow> int \<Rightarrow> int list" where
  "append_order dst is A = fold (\<lambda>i. place_order i dst None) is A"

lemma append_order_eq:
  "distinct is \<Longrightarrow> set is \<inter> set (A dst) = {} \<Longrightarrow>
   append_order dst is A col = (if col = dst then A dst @ is else filter (\<lambda>j. j \<notin> set is) (A col))"
proof (induction "is" arbitrary: A)
  case Nil
  then show ?case by (simp add: append_order_def)
next
  case (Cons i "is")
  let ?A = "place_order i dst None A"
  have d: "?A dst = A dst @ [i]"
    using Cons.prems by (auto simp: place_order_def Let_def insert_index_def insert_at_end filter_id_conv)
  have "append_order dst (i # is) A = append_order dst is ?A" by (simp add: append_order_def)
  moreover have "set is \<inter> set (?A dst) = {}" using Cons.prems by (auto simp: d)
  moreover have "col \<noteq> dst \<Longrightarrow> ?A col = filter (\<lambda>j. j \<noteq> i) (A col)" by (simp add: place_order_def)
  ultimately show ?case
    using Cons.IH [of ?A] Cons.prems(1) d by (cases "col = dst") (auto intro!: filter_cong)
qed

lemma move_cards_to_ok:
  assumes "schema_ok s" and "card_places s \<subseteq> column_boards s" and "(dst, b) \<in> column_boards s" "(old, b) \<in> column_boards s"
    and "distinct is" and "set is \<subseteq> set (order_of s old)" and "\<And>k. k \<noteq> old \<or> dst = old \<Longrightarrow> compact_column s k"
    and "move_cards_to dst is s = (r, t)"
  shows "r = Inr () \<and> schema_ok t \<and> card_places t \<subseteq> column_boards t \<and> order_of t = append_order dst is (order_of s) \<and>
    (\<forall>k. k \<noteq> old \<or> dst = old \<longrightarrow> compact_column t k) \<and>
    db_runs t = db_runs s \<and> db_columns t = db_columns s \<and> db_boards t = db_boards s"
  using assms
proof (induction "is" arbitrary: s)
  case Nil
  then show ?case by (simp add: returnT_def append_order_def)
next
  case (Cons i "is")
  note ok = Cons.prems(1) and places = Cons.prems(2)
  let ?f = "\<lambda>s c. touch s (c\<lparr>cd_column_id := dst\<rparr>)"
  obtain c where c: "find_card s i = Some c" "cd_column_id c = old"
    using Cons.prems(6) by (auto simp: order_of_set find_card_Some [OF ok])
  have cb: "cd_board_id c = b"
  proof -
    have "c \<in> set (db_cards s)" using c by (simp add: find_card_Some [OF ok])
    then have "(old, cd_board_id c) \<in> column_boards s" using places c(2) by (auto simp: card_places_def)
    then show ?thesis using Cons.prems(4) column_unique [OF ok] by (auto simp: column_boards_def)
  qed
  have "card_check (?f s c)" "card_fk s (?f s c)"
    using card_check_find [OF ok c(1)] column_boards_fk [OF ok Cons.prems(3)] cb
    by (simp_all add: card_check_def touch_def card_fk_def)
  then obtain n s1 where u: "update_card_where i ?f s = (Inr n, s1)"
    using update_card_where_total [OF ok c(1), of ?f] by blast
  obtain r1 s2 where p: "place_card_in_column i dst None s1 = (r1, s2)" by fastforce
  note rel = relocate [OF ok places c(1) Cons.prems(3) _ _ u p, simplified touch_def, simplified, OF cb]
  have run: "move_cards_to dst is s2 = (r, t)"
    using Cons.prems(8) u p rel(1) by (simp add: thenT_def bindT_def)
  have cbs: "column_boards s2 = column_boards s" by (simp add: column_boards_def rel(7))
  have sub: "set is \<subseteq> set (order_of s2 old)"
    using Cons.prems(5,6) unfolding rel(4) by (auto simp: place_order_def Let_def)
  have comp: "compact_column s2 k" if "k \<noteq> old \<or> dst = old" for k
    using rel(5) [of k] that Cons.prems(7) [of k] c(2) by blast
  have "r = Inr () \<and> schema_ok t \<and> card_places t \<subseteq> column_boards t \<and> order_of t = append_order dst is (order_of s2) \<and>
    (\<forall>k. k \<noteq> old \<or> dst = old \<longrightarrow> compact_column t k) \<and>
    db_runs t = db_runs s2 \<and> db_columns t = db_columns s2 \<and> db_boards t = db_boards s2"
    by (rule Cons.IH [OF rel(2,3) _ _ _ sub comp run]) (use Cons.prems cbs in auto)
  then show ?case by (simp add: rel append_order_def)
qed

definition forget_column :: "int \<Rightarrow> column \<Rightarrow> column" where
  "forget_column i c = c\<lparr>col_on_success := forget_target i (col_on_success c), col_on_fail := forget_target i (col_on_fail c)\<rparr>"

lemma forget_column_frame [simp]:
  "col_id (forget_column i c) = col_id c" "col_board_id (forget_column i c) = col_board_id c"
  "col_position (forget_column i c) = col_position c"
  by (simp_all add: forget_column_def)

lemma delete_column_row_ok:
  assumes places: "card_places s \<subseteq> column_boards s" and loc: "targets_local s"
    and d: "delete_column_row i s = (Inr u, t)"
  shows "db_columns t = map (forget_column i) (filter (\<lambda>k. col_id k \<noteq> i) (db_columns s))"
    and "board_columns t c = map (forget_column i) (filter (\<lambda>k. col_id k \<noteq> i) (board_columns s c))"
    and "card_places t \<subseteq> column_boards t" and "targets_local t" and "t = s\<lparr>db_columns := db_columns t\<rparr>"
    and "order_of s i = []" and "i \<notin> rn_column_id ` set (db_runs s)"
proof -
  have no: "i \<notin> cd_column_id ` set (db_cards s)" "i \<notin> rn_column_id ` set (db_runs s)"
    and t: "t = s\<lparr>db_columns := map (forget_column i) (filter (\<lambda>k. col_id k \<noteq> i) (db_columns s))\<rparr>"
    using d by (auto simp: delete_column_row_def forget_column_def [abs_def] split: if_splits)
  show cols: "db_columns t = map (forget_column i) (filter (\<lambda>k. col_id k \<noteq> i) (db_columns s))" by (simp add: t)
  show "t = s\<lparr>db_columns := db_columns t\<rparr>" by (simp add: t)
  show "i \<notin> rn_column_id ` set (db_runs s)" by (fact no(2))
  show "order_of s i = []" using no(1) by (auto simp: order_of_set simp flip: set_empty2)
  have cb: "column_boards t = {p \<in> column_boards s. fst p \<noteq> i}"
    by (auto simp: column_boards_def cols image_iff)
  then show "card_places t \<subseteq> column_boards t" using places no(1) by (auto simp: card_places_def t)
  have lt: "local_target (column_boards t) b (forget_target i v)" if "local_target (column_boards s) b v" for b v
    using that by (auto simp: local_target_def forget_target_def cb split: option.splits)
  show "targets_local t"
    unfolding targets_local_def cols using loc lt by (simp add: forget_column_def targets_local_def)
  show "board_columns t c = map (forget_column i) (filter (\<lambda>k. col_id k \<noteq> i) (board_columns s c))"
  proof -
    have "filter (\<lambda>k. col_board_id k = c) (map (forget_column i) (filter (\<lambda>k. col_id k \<noteq> i) rows)) =
      map (forget_column i) (filter (\<lambda>k. col_id k \<noteq> i) (filter (\<lambda>k. col_board_id k = c) rows))" for rows
      by (simp add: filter_map o_def conj_commute)
    then show ?thesis
      unfolding board_columns_def lane_def cols
      by (simp add: sort_key_map_commute [where g = "forget_column i"] filter_sort)
  qed
qed

definition column_deleted :: "db \<Rightarrow> int \<Rightarrow> int option \<Rightarrow> db \<Rightarrow> bool" where
  \<comment> \<open>the column is gone; its cards are at the end of the destination, in their order\<close>
  "column_deleted s i dst t \<longleftrightarrow>
     store_inv t \<and> i \<notin> rn_column_id ` set (db_runs s) \<and> db_runs t = db_runs s \<and>
     (\<forall>b. col_order t b = filter (\<lambda>j. j \<noteq> i) (col_order s b)) \<and>
     order_of t = (case dst of None \<Rightarrow> order_of s | Some d \<Rightarrow> append_order d (order_of s i) (order_of s)) \<and>
     order_of t i = []"

lemma delete_rest:
  assumes ok: "schema_ok s" and places: "card_places s \<subseteq> column_boards s" and loc: "targets_local s"
    and cmp: "\<And>k. k \<noteq> i \<Longrightarrow> compact_column s k" and cols: "\<And>c. compact_board s c"
    and k: "(i, b) \<in> column_boards s" and d: "delete_column_row i s = (Inr u, s1)"
    and n: "number_columns 0 (map col_id (board_columns s1 b)) s1 = (r, t)"
  shows "r = Inr ()" and "store_inv t" and "db_runs t = db_runs s" and "order_of t = order_of s"
    and "order_of s i = []" and "i \<notin> rn_column_id ` set (db_runs s)"
    and "col_order t c = filter (\<lambda>j. j \<noteq> i) (col_order s c)"
proof -
  note dd = delete_column_row_ok [OF places loc d]
  have ok1: "schema_ok s1" using keepsD [OF keeps_delete_column_row ok d] .
  have di: "distinct (map col_id (board_columns s1 b))"
    using distinct_col_order [OF ok1, of b] by (simp add: col_order_def)
  have si: "set (map col_id (board_columns s1 b)) = set (col_order s1 b)" by (simp add: col_order_def)
  note nb = number_columns_board [OF ok1 di si n]
  have cards: "db_cards s1 = db_cards s" by (subst dd(5)) simp
  have "column_cards s i = []" using dd(6) by (simp add: order_of_def)
  then have "compact_column s k" for k
    using cmp [of k] by (cases "k = i") (simp_all add: compact_column_def)
  then have cc: "compact_cards s1" by (simp add: compact_cards_def compact_column_def column_cards_def cards)
  have same: "board_columns s1 c = map (forget_column i) (board_columns s c)" if "c \<noteq> b" for c
  proof -
    have "\<forall>q \<in> set (board_columns s c). col_id q \<noteq> i"
      using that k column_unique [OF ok] by (auto simp: board_columns_def column_lane.lane_set column_boards_def)
    then show ?thesis by (simp add: dd(2) filter_id_conv)
  qed
  have "compact_board s1 c" if "c \<noteq> b" for c
    using cols [of c] by (simp add: compact_board_def same [OF that] o_def)
  with number_columns_inv [OF ok1 dd(3) cc dd(4) _ di si n] show "store_inv t" by blast
  show "r = Inr ()" by (fact nb(1))
  have "db_runs s1 = db_runs s" by (subst dd(5)) simp
  moreover have "db_runs t = db_runs s1" by (subst nb(5)) simp
  ultimately show "db_runs t = db_runs s" by simp
  have "db_cards t = db_cards s1" by (subst nb(5)) simp
  then show "order_of t = order_of s" by (intro order_of_frame) (simp add: cards)
  show "order_of s i = []" "i \<notin> rn_column_id ` set (db_runs s)" by (fact dd(6), fact dd(7))
  have "col_order t c = col_order s1 c"
    using nb(2,4) by (cases "c = b") (simp_all add: col_order_def)
  also have "\<dots> = filter (\<lambda>j. j \<noteq> i) (col_order s c)"
    by (simp add: col_order_def dd(2) filter_map o_def)
  finally show "col_order t c = filter (\<lambda>j. j \<noteq> i) (col_order s c)" .
qed

lemma append_order_nil: "append_order d [] A = A"
  by (simp add: append_order_def)

lemma delete_column_wp:
  assumes inv: "store_inv s"
  shows "wp (delete_column i dst) (\<lambda>_. column_deleted s i dst) (\<lambda>_ t. t = s) s"
proof (cases "find_column s i")
  case None
  then show ?thesis by (simp add: delete_column_def tx_simps)
next
  case (Some k)
  note ok = store_invD(2) [OF inv]
  have places: "card_places s \<subseteq> column_boards s" and comp: "\<And>k. compact_column s k"
    and cols: "\<And>c. compact_board s c" and loc: "targets_local s"
    using inv by (simp_all add: store_inv_def board_inv_def compact_cards_def)
  let ?b = "col_board_id k"
  note kb = column_boards_find [OF Some]
  let ?move = "case dst of None \<Rightarrow> returnT ()
    | Some d \<Rightarrow> bindT (readT (\<lambda>s. map cd_id (column_cards s i))) (move_cards_to d)"
  let ?rest = "thenT (delete_column_row i)
       (bindT (readT (\<lambda>s. map col_id (board_columns s ?b))) (number_columns 0))"
  have rest: "wp ?rest (\<lambda>_. column_deleted s i dst) (\<lambda>_ _. True) s1"
    if s1: "schema_ok s1" "card_places s1 \<subseteq> column_boards s1" "db_runs s1 = db_runs s" "db_columns s1 = db_columns s"
      and c1: "\<And>k. k \<noteq> i \<Longrightarrow> compact_column s1 k"
      and o: "order_of s1 = (case dst of None \<Rightarrow> order_of s | Some d \<Rightarrow> append_order d (order_of s i) (order_of s))" for s1
  proof (rule wpI)
    fix u t assume "?rest s1 = (Inr u, t)"
    then obtain v s2 where d: "delete_column_row i s1 = (Inr v, s2)"
      and n: "number_columns 0 (map col_id (board_columns s2 ?b)) s2 = (Inr u, t)"
      by (auto simp: tx_ok)
    have fr: "column_boards s1 = column_boards s" "targets_local s1" "\<And>c. compact_board s1 c" "col_order s1 = col_order s"
      using loc cols s1(4)
      by (simp_all add: column_boards_def targets_local_def compact_board_def board_columns_def col_order_def fun_eq_iff)
    note * = delete_rest [OF s1(1,2) fr(2) c1 fr(3) _ d n, unfolded fr(1), OF _ kb]
    show "column_deleted s i dst t" using * s1(3) o fr(4) by (simp add: column_deleted_def)
  qed simp
  have "wp (thenT ?move ?rest) (\<lambda>_. column_deleted s i dst) (\<lambda>_ _. True) s"
    if dst: "\<And>d. dst = Some d \<Longrightarrow> (d, ?b) \<in> column_boards s"
  proof (cases dst)
    case None
    then show ?thesis using rest [OF ok places refl refl comp] by (simp add: wp_then wp_basic)
  next
    case (Some d)
    have "wp (move_cards_to d (map cd_id (column_cards s i))) (\<lambda>_. wp ?rest (\<lambda>_. column_deleted s i dst) (\<lambda>_ _. True)) (\<lambda>_ _. True) s"
    proof (rule wpI)
      fix u s1 assume m: "move_cards_to d (map cd_id (column_cards s i)) s = (Inr u, s1)"
      note * = move_cards_to_ok [OF ok places dst [OF Some] kb _ _ comp m]
      have "distinct (map cd_id (column_cards s i))" "set (map cd_id (column_cards s i)) \<subseteq> set (order_of s i)"
        using distinct_order_of [OF ok, of i] by (simp_all add: order_of_def)
      from * [OF this] show "wp ?rest (\<lambda>_. column_deleted s i dst) (\<lambda>_ _. True) s1"
        by (intro rest) (auto simp: Some order_of_def)
    qed simp
    then show ?thesis using Some by (simp add: wp_then wp_bind wp_basic)
  qed
  then have body: "wp (thenT ?move ?rest) (\<lambda>_. column_deleted s i dst) (\<lambda>_ _. True) s"
    if "\<And>d. dst = Some d \<Longrightarrow> (d, ?b) \<in> column_boards s" using that by blast
  show ?thesis
  proof (cases dst)
    case None
    then show ?thesis
      using body \<open>find_column s i = Some k\<close> unfolding delete_column_def
      by (auto simp: wp_then wp_bind wp_lookups wp_basic wp_transaction elim!: wp_mono)
  next
    case (Some d)
    then show ?thesis
      using body column_boards_find [of s d] \<open>find_column s i = Some k\<close> unfolding delete_column_def
      by (simp add: wp_then wp_bind wp_lookups wp_basic wp_transaction split: option.splits)
        (auto elim!: wp_mono)
  qed
qed

text \<open>A column that ever had a run keeps its row: the reference of the run forbids the deletion.\<close>

lemma delete_column_with_runs:
  assumes "store_inv s" and "r \<in> set (db_runs s)" and "rn_column_id r = i"
  shows "\<exists>e. delete_column i dst s = (Inl e, s)"
proof (cases "delete_column i dst s")
  case (Pair r' t)
  then show ?thesis
    using delete_column_wp [OF assms(1), of i dst] assms(2,3)
    by (cases r') (auto simp: wp_def column_deleted_def)
qed

section \<open>Templates\<close>

lemma insert_specs_ok:
  "store_inv s \<Longrightarrow> find_board s b = Some bd \<Longrightarrow> insert_specs b ps s = (Inr ids, t) \<Longrightarrow>
   store_inv t \<and> order_of t = order_of s \<and> db_runs t = db_runs s \<and>
   col_order t = (col_order s)(b := col_order s b @ ids) \<and> length ids = length ps \<and>
   (\<forall>i \<in> set ids. (i, b) \<in> column_boards t) \<and> column_boards s \<subseteq> column_boards t"
proof (induction ps arbitrary: s ids)
  case Nil
  then show ?case by (simp add: returnT_def)
next
  case (Cons p ps)
  from Cons.prems(3) obtain i s1 js where i: "insert_new_column b None None p s = (Inr i, s1)"
    and js: "insert_specs b ps s1 = (Inr js, t)" and ids: "ids = i # js"
    by (auto simp: tx_ok)
  note n = insert_new_column_ok [OF Cons.prems(1,2) _ _ i, simplified local_target_def, simplified]
  have "find_board s1 b = Some bd" using Cons.prems(2) n(8,9) by (simp add: find_board_def row_to_board_def [abs_def])
  from Cons.IH [OF n(1) this js] n ids show ?case by auto
qed

lemma resolve_target_ok:
  assumes "resolve_target b ids v s = (Inr x, t)" and "\<forall>i \<in> set ids. (i, b) \<in> column_boards s"
  shows "t = s \<and> local_target (column_boards s) b x \<and> (x = None) = (v = None) \<and>
    (\<forall>n. v = Some (Created n) \<longrightarrow> n < length ids \<and> x = Some (ids ! n)) \<and>
    (\<forall>j. v = Some (Existing j) \<longrightarrow> x = Some j)"
proof (cases v)
  case None
  then show ?thesis using assms by (simp add: resolve_target_def returnT_def local_target_def)
next
  case (Some c)
  then show ?thesis
    using assms
    by (cases c) (auto simp: resolve_target_def tx_ok require_ok_iff queryT_def local_target_def list_get_def ok_or_def
        dest: column_boards_find split: if_splits)
qed

lemma wire_columns_ok:
  "store_inv s \<Longrightarrow> \<forall>i \<in> set ids. (i, b) \<in> column_boards s \<Longrightarrow> wire_columns b ids ws s = (Inr u, t) \<Longrightarrow>
   store_inv t \<and> order_of t = order_of s \<and> db_runs t = db_runs s \<and> col_order t = col_order s"
proof (induction ws arbitrary: s)
  case Nil
  then show ?case by (simp add: returnT_def)
next
  case (Cons w ws)
  from Cons.prems(3) obtain i x y s1 n s2 s3
    where i: "cw_column_index w < length ids" "i = ids ! cw_column_index w"
      and x: "resolve_target b ids (cw_on_success w) s = (Inr x, s1)"
      and y: "resolve_target b ids (cw_on_fail w) s1 = (Inr y, s2)"
      and up: "update_columns (\<lambda>k. col_id k = i) (\<lambda>k. k\<lparr>col_on_success := x, col_on_fail := y\<rparr>) s2 = (Inr n, s3)"
      and rest: "wire_columns b ids ws s3 = (Inr u, t)"
    by (auto simp: tx_ok list_get_def ok_or_def split: if_splits)
  have s1: "s1 = s" and lx: "local_target (column_boards s) b x"
    using resolve_target_ok [OF x Cons.prems(2)] by simp_all
  have s2: "s2 = s" and ly: "local_target (column_boards s) b y"
    using resolve_target_ok [OF y] Cons.prems(2) s1 by simp_all
  have "(i, b) \<in> column_boards s" using i Cons.prems(2) by simp
  then have bi: "\<And>k. k \<in> set (db_columns s) \<Longrightarrow> col_id k = i \<Longrightarrow> col_board_id k = b"
    using column_unique [OF store_invD(2) [OF Cons.prems(1)]] by (auto simp: column_boards_def)
  note f = update_columns_frame [where P = "\<lambda>k. col_id k = i" and f = "\<lambda>k. k\<lparr>col_on_success := x, col_on_fail := y\<rparr>",
      OF Cons.prems(1) _ _ up [unfolded s2]]
  have f': "store_inv s3" "col_order s3 = col_order s" "order_of s3 = order_of s" "column_boards s3 = column_boards s"
    using f lx ly bi by simp_all
  have "db_runs s3 = db_runs s" using up s2 by (auto simp: update_columns_def Let_def split: if_splits)
  with Cons.IH [OF f'(1) _ rest] Cons.prems(2) f' show ?case by simp
qed

lemma apply_template_wp:
  assumes inv: "store_inv s"
  shows "wp (apply_template_columns b specs wiring)
    (\<lambda>cs t. store_inv t \<and> order_of t = order_of s \<and> db_runs t = db_runs s \<and> cs = board_columns t b \<and>
       (\<exists>ids. col_order t = (col_order s)(b := col_order s b @ ids) \<and> length ids = length specs))
    (\<lambda>_ t. t = s) s"
proof (cases "find_board s b")
  case None
  then show ?thesis by (simp add: apply_template_columns_def tx_simps)
next
  case (Some bd)
  have chk: "keeps (\<lambda>u. u = s) (check_specs b specs)"
    by (induction b specs rule: check_specs.induct) (auto intro: tx_keeps)
  have "wp (thenT (transaction (bindT (insert_specs b specs) (\<lambda>ids. wire_columns b ids wiring)))
     (readT (\<lambda>s. list_columns s b)))
    (\<lambda>cs t. store_inv t \<and> order_of t = order_of s \<and> db_runs t = db_runs s \<and> cs = board_columns t b \<and>
       (\<exists>ids. col_order t = (col_order s)(b := col_order s b @ ids) \<and> length ids = length specs))
    (\<lambda>_ t. t = s) s"
    unfolding thenT_def
  proof (rule wp_commit_then)
    fix u t assume "bindT (insert_specs b specs) (\<lambda>ids. wire_columns b ids wiring) s = (Inr u, t)"
    then obtain ids s1 where i: "insert_specs b specs s = (Inr ids, s1)" and w: "wire_columns b ids wiring s1 = (Inr u, t)"
      by (auto simp: tx_ok)
    note n = insert_specs_ok [OF inv Some i]
    have wr: "store_inv t \<and> order_of t = order_of s1 \<and> db_runs t = db_runs s1 \<and> col_order t = col_order s1"
      using n by (intro wire_columns_ok [OF _ _ w]) simp_all
    with n have "\<exists>ids. col_order t = (col_order s)(b := col_order s b @ ids) \<and> length ids = length specs"
      by (intro exI [of _ ids]) simp
    with n wr show "wp (readT (\<lambda>s. list_columns s b))
      (\<lambda>cs t. store_inv t \<and> order_of t = order_of s \<and> db_runs t = db_runs s \<and> cs = board_columns t b \<and>
         (\<exists>ids. col_order t = (col_order s)(b := col_order s b @ ids) \<and> length ids = length specs)) (\<lambda>_ _. False) t"
      by (simp add: wp_basic list_columns_def)
  qed simp
  then show ?thesis
    using Some keepsD [OF chk refl]
    unfolding apply_template_columns_def
    by (simp add: wp_then wp_lookups) (rule wpI, auto simp: wp_then)
qed

end
