(* ===== verification/Store_Comments.thy ===== *)
theory Store_Comments
  imports Store_Columns
begin

text \<open>
  Comments and their audit trail (\<open>cards_comments.rs\<close>, from \<open>add_comment\<close> on). A comment keeps
  its author for ever, system comments and deleted comments never change, and the newest snapshot
  of the history of a comment is always its current body and deletion mark.
\<close>

section \<open>Operations\<close>

definition find_comment :: "db \<Rightarrow> int \<Rightarrow> comment option" where
  "find_comment s i = lookup cm_id i (db_comments s)"

definition require_comment :: "int \<Rightarrow> comment store" where
  "require_comment i = require [T ''comment '', N i] (\<lambda>s. find_comment s i)"

definition add_comment :: "int \<Rightarrow> string \<Rightarrow> string \<Rightarrow> comment store" where
  "add_comment card_id author body =
     thenT (require_card card_id)
     (bindT (insert_comment card_id author body) require_comment)"

definition snapshot :: "db \<Rightarrow> comment \<Rightarrow> string \<Rightarrow> comment_history" where
  "snapshot s m body =
     \<lparr>ch_id = 0, ch_comment_id = cm_id m, ch_card_id = cm_card_id m, ch_author = cm_author m, ch_body = body,
      ch_created_at = db_now s, ch_deleted_at = None\<rparr>"

definition update_comment :: "int \<Rightarrow> string \<Rightarrow> comment store" where
  "update_comment i body =
     bindT (require_comment i) (\<lambda>m.
     thenT (ensureT (cm_author m \<noteq> ''system'') (InvalidState [T ''system comments are immutable'']))
     (thenT (ensureT (cm_deleted_at m = None) (InvalidState [T ''deleted comments are immutable'']))
     (thenT (transaction
       (bindT (update_comments (\<lambda>c. cm_id c = i \<and> cm_deleted_at c = None) (\<lambda>c. c\<lparr>cm_body := body\<rparr>)) (\<lambda>changed.
        thenT (ensureT (changed = 1) (NotFound [T ''comment '', N i]))
        (\<lambda>s. insert_history (snapshot s m body) s))))
     (require_comment i))))"

definition latest_history :: "db \<Rightarrow> int \<Rightarrow> int option" where
  \<comment> \<open>\<open>SELECT MAX(id) FROM comment_history WHERE comment_id=?\<close>\<close>
  "latest_history s i =
     (case filter (\<lambda>h. ch_comment_id h = i) (db_history s) of [] \<Rightarrow> None
      | h # hs \<Rightarrow> Some (foldl (\<lambda>m x. max m (ch_id x)) (ch_id h) hs))"

definition soft_delete_comment :: "int \<Rightarrow> comment store" where
  "soft_delete_comment i =
     bindT (require_comment i) (\<lambda>m.
     thenT (ensureT (cm_author m \<noteq> ''system'') (InvalidState [T ''system comments are immutable'']))
     (thenT (ensureT (cm_deleted_at m = None) (InvalidState [T ''comment is already deleted'']))
     (thenT (transaction
       (thenT (\<lambda>s. update_comments (\<lambda>c. cm_id c = i) (\<lambda>c. c\<lparr>cm_deleted_at := Some (db_now s)\<rparr>) s)
       (\<lambda>s. update_history (\<lambda>h. Some (ch_id h) = latest_history s i) (\<lambda>h. h\<lparr>ch_deleted_at := Some (db_now s)\<rparr>) s)))
     (require_comment i))))"

definition list_comment_history :: "db \<Rightarrow> int \<Rightarrow> comment_history list" where
  "list_comment_history s i = sort_key ch_id (filter (\<lambda>h. ch_comment_id h = i) (db_history s))"

definition list_comments :: "db \<Rightarrow> int \<Rightarrow> comment list" where
  "list_comments s card_id =
     sort_key (\<lambda>m. (cm_created_at m, cm_id m))
       (filter (\<lambda>m. cm_card_id m = card_id \<and> cm_deleted_at m = None) (db_comments s))"

record card_detail =
  dt_card :: card
  dt_comments :: "comment list"
  dt_runs :: "run list"

definition get_card_detail :: "int \<Rightarrow> card_detail store" where
  "get_card_detail i =
     bindT (require_card i) (\<lambda>c.
     readT (\<lambda>s. \<lparr>dt_card = c, dt_comments = list_comments s i, dt_runs = list_runs s i\<rparr>))"

section \<open>The audit trail\<close>

definition newest :: "comment \<Rightarrow> comment_history list \<Rightarrow> bool" where
  \<comment> \<open>the last snapshot of the comment in insertion order shows its current state\<close>
  "newest m hs \<longleftrightarrow>
     (\<exists>as h. filter (\<lambda>h. ch_comment_id h = cm_id m) hs = as @ [h] \<and>
        ch_body h = cm_body m \<and> ch_author h = cm_author m \<and> ch_deleted_at h = cm_deleted_at m \<and>
        ch_card_id h = cm_card_id m \<and> (\<forall>a \<in> set as. ch_id a < ch_id h \<and> ch_author a = cm_author m \<and> ch_deleted_at a = None))"

definition audit_inv :: "db \<Rightarrow> bool" where
  "audit_inv s \<longleftrightarrow> schema_ok s \<and> (\<forall>h \<in> set (db_history s). ch_comment_id h \<in> cm_id ` set (db_comments s)) \<and>
     (\<forall>m \<in> set (db_comments s). newest m (db_history s))"

lemma keeps_audit_insert: "keeps audit_inv (insert_comment i author body)"
  unfolding keeps_def
proof (intro allI impI)
  fix s assume inv: "audit_inv s"
  show "audit_inv (snd (insert_comment i author body s))"
  proof (cases "i \<in> cd_id ` set (db_cards s)")
    case False
    then show ?thesis using inv by (simp add: insert_comment_def)
  next
    case True
    let ?n = "next_id cm_id (db_comments s)"
    let ?m = "set_cm_id ?n \<lparr>cm_id = 0, cm_card_id = i, cm_author = author, cm_body = body,
                cm_created_at = db_now s, cm_deleted_at = None\<rparr>"
    let ?h = "set_ch_id (next_id ch_id (db_history s)) \<lparr>ch_id = 0, ch_comment_id = ?n, ch_card_id = i, ch_author = author, ch_body = body,
                ch_created_at = db_now s, ch_deleted_at = None\<rparr>"
    obtain r t where r: "insert_comment i author body s = (r, t)" by fastforce
    have t: "t = s\<lparr>db_comments := db_comments s @ [?m], db_history := db_history s @ [?h]\<rparr>"
      using r True by (simp add: insert_comment_def Let_def insert_row_def)
    have ok: "schema_ok t" using keepsD [OF keeps_insert_comment _ r] inv by (simp add: audit_inv_def)
    have n: "?n \<notin> cm_id ` set (db_comments s)" by (rule next_id_notin)
    have none: "filter (\<lambda>h. ch_comment_id h = ?n) (db_history s) = []"
      using inv n unfolding audit_inv_def filter_empty_conv by metis
    have "newest ?m (db_history t)" using none by (simp add: newest_def t set_cm_id_def set_ch_id_def)
    moreover have "newest m (db_history t)" if "m \<in> set (db_comments s)" for m
    proof -
      have "cm_id m \<noteq> ?n" using that n by (metis image_eqI)
      then have "filter (\<lambda>h. ch_comment_id h = cm_id m) (db_history t) = filter (\<lambda>h. ch_comment_id h = cm_id m) (db_history s)"
        by (simp add: t set_ch_id_def)
      then show ?thesis using inv that by (simp add: audit_inv_def newest_def)
    qed
    ultimately have "audit_inv t" using inv ok by (auto simp: audit_inv_def t set_ch_id_def set_cm_id_def)
    then show ?thesis by (simp add: r)
  qed
qed

lemma find_comment_Some: "schema_ok s \<Longrightarrow> find_comment s i = Some m \<longleftrightarrow> m \<in> set (db_comments s) \<and> cm_id m = i"
  by (simp add: find_comment_def lookup_eq [OF schema_okD(5)])

lemma comment_unique:
  "schema_ok s \<Longrightarrow> x \<in> set (db_comments s) \<Longrightarrow> y \<in> set (db_comments s) \<Longrightarrow> cm_id x = cm_id y \<Longrightarrow> x = y"
  using schema_okD(5) by (auto simp: distinct_map inj_on_def)

text \<open>Rewriting one comment together with its snapshots, leaving all others alone.\<close>

lemma audit_rewrite:
  assumes inv: "audit_inv s" and ok: "schema_ok t" and m: "m \<in> set (db_comments s)"
    and c: "db_comments t = update_where (\<lambda>c. cm_id c = cm_id m) g (db_comments s)" and g: "\<And>c. cm_id (g c) = cm_id c"
    and other: "\<And>j. j \<noteq> cm_id m \<Longrightarrow> filter (\<lambda>h. ch_comment_id h = j) (db_history t) = filter (\<lambda>h. ch_comment_id h = j) (db_history s)"
    and new: "newest (g m) (db_history t)"
  shows "audit_inv t"
proof -
  have ids: "cm_id ` set (db_comments t) = cm_id ` set (db_comments s)"
    unfolding c by (rule image_update_where) (rule g)
  have "ch_comment_id h \<in> cm_id ` set (db_comments t)" if "h \<in> set (db_history t)" for h
  proof (cases "ch_comment_id h = cm_id m")
    case True
    then show ?thesis using m ids by auto
  next
    case False
    have "h \<in> set (filter (\<lambda>x. ch_comment_id x = ch_comment_id h) (db_history t))" using that by simp
    then have "h \<in> set (db_history s)" unfolding other [OF False] by simp
    then show ?thesis using inv ids by (simp add: audit_inv_def)
  qed
  moreover have "newest x (db_history t)" if x: "x \<in> set (db_comments t)" for x
  proof -
    obtain y where y: "y \<in> set (db_comments s)" "x = (if cm_id y = cm_id m then g y else y)"
      using x by (auto simp: c update_where_def)
    show ?thesis
    proof (cases "cm_id y = cm_id m")
      case True
      then have "y = m" using comment_unique [of s] y(1) m inv by (auto simp: audit_inv_def)
      then show ?thesis using y(2) new by simp
    next
      case False
      then show ?thesis using y inv other [OF False] by (simp add: audit_inv_def newest_def)
    qed
  qed
  ultimately show ?thesis using ok by (simp add: audit_inv_def)
qed

definition comment_edited :: "db \<Rightarrow> int \<Rightarrow> (comment \<Rightarrow> comment) \<Rightarrow> comment \<Rightarrow> db \<Rightarrow> bool" where
  \<comment> \<open>exactly this live, non-system comment changed, and the trail shows it\<close>
  "comment_edited s i g m' t \<longleftrightarrow>
     (\<exists>m. find_comment s i = Some m \<and> cm_author m \<noteq> ''system'' \<and> cm_deleted_at m = None \<and> m' = g m \<and>
        audit_inv t \<and> find_comment t i = Some m' \<and> cm_author m' = cm_author m \<and>
        (\<forall>j. j \<noteq> i \<longrightarrow> find_comment t j = find_comment s j \<and> list_comment_history t j = list_comment_history s j))"

lemma find_comment_update:
  assumes "db_comments t = update_where (\<lambda>c. cm_id c = i) g (db_comments s)" "\<And>c. cm_id (g c) = cm_id c"
  shows "find_comment t j = map_option (\<lambda>c. if cm_id c = i then g c else c) (find_comment s j)"
  using assms by (simp add: find_comment_def comments_t.lookup_update)

lemma update_comment_wp:
  assumes inv: "audit_inv s"
  shows "wp (update_comment i body)
    (\<lambda>m' t. comment_edited s i (\<lambda>m. m\<lparr>cm_body := body\<rparr>) m' t \<and>
       (\<exists>h. list_comment_history t i = list_comment_history s i @ [h] \<and> ch_body h = body))
    (\<lambda>_ t. t = s) s"
proof (cases "find_comment s i")
  case None
  then show ?thesis by (simp add: update_comment_def require_comment_def tx_simps)
next
  case (Some m)
  have ok: "schema_ok s" using inv by (simp add: audit_inv_def)
  have m: "m \<in> set (db_comments s)" "cm_id m = i" using Some by (auto simp: find_comment_Some [OF ok])
  let ?g = "\<lambda>c. c\<lparr>cm_body := body\<rparr>"
  let ?body = "bindT (update_comments (\<lambda>c. cm_id c = i \<and> cm_deleted_at c = None) ?g) (\<lambda>changed.
        thenT (ensureT (changed = 1) (NotFound [T ''comment '', N i])) (\<lambda>s. insert_history (snapshot s m body) s))"
  have "wp (bindT (transaction ?body) (\<lambda>_. require_comment i))
    (\<lambda>m' t. comment_edited s i ?g m' t \<and>
       (\<exists>h. list_comment_history t i = list_comment_history s i @ [h] \<and> ch_body h = body)) (\<lambda>_ t. t = s) s"
    if live: "cm_deleted_at m = None" "cm_author m \<noteq> ''system''"
  proof (rule wp_commit_then)
    fix x t assume b: "?body s = (Inr x, t)"
    have kb: "keeps schema_ok ?body"
    proof -
      have "keeps schema_ok (\<lambda>s. insert_history (snapshot s m body) s)"
        using keeps_insert_history by (simp add: keeps_def)
      then show ?thesis by (intro tx_keeps)
    qed
    have okt: "schema_ok t" using keepsD [OF kb ok b] .
    obtain s1 n where u: "update_comments (\<lambda>c. cm_id c = i \<and> cm_deleted_at c = None) ?g s = (Inr n, s1)"
      and h: "insert_history (snapshot s1 m body) s1 = (Inr x, t)"
      using b by (auto simp: tx_ok)
    have only: "c = m" if "c \<in> set (db_comments s)" "cm_id c = i" for c
      using comment_unique [OF ok that(1) m(1)] that m by simp
    have iff: "(cm_id c = i \<and> cm_deleted_at c = None) = (cm_id c = cm_id m)" if "c \<in> set (db_comments s)" for c
      using only [OF that] live(1) m(2) by auto
    have c1: "db_comments s1 = update_where (\<lambda>c. cm_id c = cm_id m) ?g (db_comments s)"
      using u iff by (auto simp: update_comments_def update_where_def)
    have h1: "db_history s1 = db_history s" using u by (auto simp: update_comments_def)
    define hrow where "hrow = set_ch_id (next_id ch_id (db_history s)) (snapshot s1 m body)"
    have t: "t = s1\<lparr>db_history := db_history s @ [hrow]\<rparr>"
      using h by (auto simp: insert_history_def insert_row_def h1 hrow_def split: if_splits)
    have hc: "ch_comment_id hrow = i" "ch_body hrow = body" "ch_author hrow = cm_author m" "ch_deleted_at hrow = None"
      "ch_card_id hrow = cm_card_id m" "ch_id hrow = next_id ch_id (db_history s)"
      using m by (simp_all add: hrow_def set_ch_id_def snapshot_def)
    have ct: "db_comments t = update_where (\<lambda>c. cm_id c = cm_id m) ?g (db_comments s)" by (simp add: t c1)
    obtain as l where tr: "filter (\<lambda>h. ch_comment_id h = cm_id m) (db_history s) = as @ [l]" "ch_author l = cm_author m"
        "ch_deleted_at l = cm_deleted_at m" "\<forall>a \<in> set as. ch_id a < ch_id l \<and> ch_author a = cm_author m \<and> ch_deleted_at a = None"
      using inv m(1) unfolding audit_inv_def newest_def by blast
    have lt: "ch_id a < ch_id hrow" if "a \<in> set (db_history s)" for a using next_id_fresh [OF that, of ch_id] hc(6) by simp
    have new: "newest (?g m) (db_history t)"
      unfolding newest_def
    proof (intro exI conjI)
      show "filter (\<lambda>h. ch_comment_id h = cm_id (?g m)) (db_history t) = (as @ [l]) @ [hrow]"
        using tr(1) hc(1) m(2) by (simp add: t)
      have "set (as @ [l]) \<subseteq> set (db_history s)" using tr(1) by (metis filter_is_subset)
      then show "\<forall>a\<in>set (as @ [l]). ch_id a < ch_id hrow \<and> ch_author a = cm_author (?g m) \<and> ch_deleted_at a = None"
        using lt tr live(1) by auto
    qed (use hc live in simp_all)
    have aud: "audit_inv t"
      by (rule audit_rewrite [OF inv okt m(1) ct _ _ new]) (use hc(1) m(2) in \<open>simp_all add: t h1\<close>)
    have ft: "find_comment t j = map_option (\<lambda>c. if cm_id c = i then ?g c else c) (find_comment s j)" for j
      using find_comment_update [of t i ?g s j] ct m(2) by simp
    have fj: "find_comment t j = find_comment s j" if "j \<noteq> i" for j
      using ft [of j] that by (cases "find_comment s j") (auto simp: find_comment_def dest: lookup_Some)
    have hist: "list_comment_history t i = list_comment_history s i @ [hrow]"
      using lt hc(1) by (simp add: list_comment_history_def t sort_key_append_last)
    have "list_comment_history t j = list_comment_history s j" if "j \<noteq> i" for j
      using that hc(1) by (simp add: list_comment_history_def t)
    then have "comment_edited s i ?g (?g m) t"
      using Some live aud ft [of i] fj m(2) by (simp add: comment_edited_def)
    with hist hc(2) ft [of i] Some m(2) show "wp (require_comment i)
      (\<lambda>m' t. comment_edited s i ?g m' t \<and>
       (\<exists>h. list_comment_history t i = list_comment_history s i @ [h] \<and> ch_body h = body)) (\<lambda>_ _. False) t"
      by (simp add: require_comment_def wp_lookups)
  qed simp
  then show ?thesis
    using Some unfolding update_comment_def thenT_def [of "transaction m" for m]
    by (simp add: wp_then wp_bind wp_basic require_comment_def wp_lookups)
qed

lemma latest_history_last:
  assumes f: "filter (\<lambda>h. ch_comment_id h = i) (db_history s) = as @ [l]" and as: "\<forall>a \<in> set as. ch_id a < ch_id l"
  shows "latest_history s i = Some (ch_id l)"
proof -
  have le: "m \<le> b \<Longrightarrow> \<forall>a \<in> set xs. ch_id a \<le> b \<Longrightarrow> foldl (\<lambda>m x. max m (ch_id x)) m xs \<le> b" for m b xs
    by (induction xs arbitrary: m) auto
  have "foldl (\<lambda>m x. max m (ch_id x)) (ch_id (hd (as @ [l]))) (tl (as @ [l])) = ch_id l"
  proof (cases as)
    case (Cons a as')
    then have "foldl (\<lambda>m x. max m (ch_id x)) (ch_id a) as' \<le> ch_id l" using as by (intro le) auto
    then show ?thesis by (simp add: Cons max.absorb2)
  qed simp
  then show ?thesis unfolding latest_history_def f by (cases "as @ [l]") auto
qed

lemma soft_delete_comment_wp:
  assumes inv: "audit_inv s"
  shows "wp (soft_delete_comment i)
    (\<lambda>m' t. comment_edited s i (\<lambda>m. m\<lparr>cm_deleted_at := Some (db_now s)\<rparr>) m' t \<and>
       m' \<notin> set (list_comments t (cm_card_id m')) \<and>
       length (list_comment_history t i) = length (list_comment_history s i))
    (\<lambda>_ t. t = s) s"
proof (cases "find_comment s i")
  case None
  then show ?thesis by (simp add: soft_delete_comment_def require_comment_def tx_simps)
next
  case (Some m)
  have ok: "schema_ok s" using inv by (simp add: audit_inv_def)
  have m: "m \<in> set (db_comments s)" "cm_id m = i" using Some by (auto simp: find_comment_Some [OF ok])
  let ?g = "\<lambda>c. c\<lparr>cm_deleted_at := Some (db_now s)\<rparr>" and ?gh = "\<lambda>h. h\<lparr>ch_deleted_at := Some (db_now s)\<rparr>"
  obtain as l where tr: "filter (\<lambda>h. ch_comment_id h = i) (db_history s) = as @ [l]"
    "ch_body l = cm_body m" "ch_author l = cm_author m" "ch_card_id l = cm_card_id m"
    "\<forall>a \<in> set as. ch_id a < ch_id l \<and> ch_author a = cm_author m \<and> ch_deleted_at a = None"
    using inv m unfolding audit_inv_def newest_def by blast
  have l: "l \<in> set (db_history s)" "ch_comment_id l = i"
  proof -
    have "l \<in> set (filter (\<lambda>h. ch_comment_id h = i) (db_history s))" by (simp add: tr(1))
    then show "l \<in> set (db_history s)" "ch_comment_id l = i" by simp_all
  qed
  define t where "t = s\<lparr>db_comments := update_where (\<lambda>c. cm_id c = i) ?g (db_comments s),
      db_history := update_where (\<lambda>h. ch_id h = ch_id l) ?gh (db_history s)\<rparr>"
  have dc: "(\<lambda>c. (?g c)\<lparr>cm_id := cm_id c, cm_card_id := cm_card_id c\<rparr>) = ?g" by (simp add: fun_eq_iff)
  have dh: "(\<lambda>h. (?gh h)\<lparr>ch_id := ch_id h\<rparr>) = ?gh" by (simp add: fun_eq_iff)
  let ?body = "thenT (\<lambda>s. update_comments (\<lambda>c. cm_id c = i) (\<lambda>c. c\<lparr>cm_deleted_at := Some (db_now s)\<rparr>) s)
       (\<lambda>s. update_history (\<lambda>h. Some (ch_id h) = latest_history s i) (\<lambda>h. h\<lparr>ch_deleted_at := Some (db_now s)\<rparr>) s)"
  have lh: "latest_history (s\<lparr>db_comments := c\<rparr>) i = Some (ch_id l)" for c
    using latest_history_last [OF tr(1)] tr(5) by (simp add: latest_history_def)
  have run: "?body s = (Inr (), t)"
    by (simp add: thenT_def bindT_def update_comments_def update_history_def lh dc dh t_def)
  have okt: "schema_ok t"
  proof -
    have "keeps schema_ok ?body"
      using keeps_update_comments keeps_update_history by (intro tx_keeps) (simp_all add: keeps_def)
    from keepsD [OF this ok run] show ?thesis .
  qed
  have uniq: "h = l" if "h \<in> set (db_history s)" "ch_id h = ch_id l" for h
    using that l(1) ok by (auto simp: schema_ok_def distinct_map inj_on_def)
  have fl: "filter (\<lambda>h. ch_comment_id h = j) (db_history t) =
      update_where (\<lambda>h. ch_id h = ch_id l) ?gh (filter (\<lambda>h. ch_comment_id h = j) (db_history s))" for j
    by (simp add: t_def update_where_def filter_map o_def if_distrib cong: if_cong)
  have other: "filter (\<lambda>h. ch_comment_id h = j) (db_history t) = filter (\<lambda>h. ch_comment_id h = j) (db_history s)" if "j \<noteq> i" for j
    unfolding fl update_where_def using uniq l(2) that by (intro map_idI) auto
  have mine: "filter (\<lambda>h. ch_comment_id h = i) (db_history t) = as @ [?gh l]"
  proof -
    have "update_where (\<lambda>h. ch_id h = ch_id l) ?gh as = as"
      unfolding update_where_def using tr(5) by (intro map_idI) auto
    then show ?thesis unfolding fl tr(1) by (simp add: update_where_def)
  qed
  have new: "newest (?g m) (db_history t)"
    unfolding newest_def by (rule exI [of _ as], rule exI [of _ "?gh l"]) (use mine tr m(2) in simp)
  have ct: "db_comments t = update_where (\<lambda>c. cm_id c = cm_id m) ?g (db_comments s)" by (simp add: t_def m(2))
  have aud: "audit_inv t"
    by (rule audit_rewrite [OF inv okt m(1) ct _ _ new]) (use other m(2) in simp_all)
  have ft: "find_comment t j = map_option (\<lambda>c. if cm_id c = i then ?g c else c) (find_comment s j)" for j
    using find_comment_update [of t i ?g s j] ct m(2) by simp
  have fj: "find_comment t j = find_comment s j" if "j \<noteq> i" for j
    using ft [of j] that by (cases "find_comment s j") (auto simp: find_comment_def dest: lookup_Some)
  have "wp (bindT (transaction ?body) (\<lambda>_. require_comment i))
    (\<lambda>m' t. comment_edited s i ?g m' t \<and> m' \<notin> set (list_comments t (cm_card_id m')) \<and>
       length (list_comment_history t i) = length (list_comment_history s i)) (\<lambda>_ t. t = s) s"
    if live: "cm_deleted_at m = None" "cm_author m \<noteq> ''system''"
  proof (rule wp_commit_then)
    fix x t' assume "?body s = (Inr x, t')"
    then have t': "t' = t" using run by simp
    have "list_comment_history t j = list_comment_history s j" if "j \<noteq> i" for j
      using other [OF that] by (simp add: list_comment_history_def)
    then have "comment_edited s i ?g (?g m) t"
      using Some live aud ft [of i] fj m(2) by (simp add: comment_edited_def)
    moreover have "length (list_comment_history t i) = length (list_comment_history s i)"
      by (simp add: list_comment_history_def mine tr(1))
    ultimately show "wp (require_comment i) (\<lambda>m' t. comment_edited s i ?g m' t \<and> m' \<notin> set (list_comments t (cm_card_id m')) \<and>
       length (list_comment_history t i) = length (list_comment_history s i)) (\<lambda>_ _. False) t'"
      using ft [of i] Some m(2) by (simp add: require_comment_def wp_lookups t' list_comments_def)
  qed simp
  then show ?thesis
    using Some unfolding soft_delete_comment_def thenT_def [of "transaction m" for m]
    by (simp add: wp_then wp_bind wp_basic require_comment_def wp_lookups)
qed

end
