(* ===== verification/Store_Projects.thy ===== *)
theory Store_Projects
  imports Store_Comments
begin

text \<open>
  Projects, their boards, the persistent selection and recency (\<open>db/projects.rs\<close> and the board
  half of \<open>boards_columns.rs\<close>). \<open>to_lower\<close> stands for \<open>str::to_lowercase\<close>. The lemmas show
  that selection and recency always point at existing rows of the right project, that the recency
  lists hold at most three distinct ids, newest first, and that the board a project lands on is
  never archived.
\<close>

section \<open>Statements\<close>

definition insert_project :: "string \<Rightarrow> int store" where
  "insert_project scope_path s =
     (if Some scope_path \<in> pr_scope_path ` set (db_projects s) then (Inl (Sqlite UniqueViolation), s)
      else (Inr (next_id pr_id (db_projects s)),
            s\<lparr>db_projects := insert_row pr_id set_pr_id
                 \<lparr>pr_id = 0, pr_scope_path = Some scope_path, pr_archived_at = None\<rparr> (db_projects s)\<rparr>))"

definition insert_board :: "int \<Rightarrow> string \<Rightarrow> int store" where
  "insert_board project_id name s =
     (if (project_id, ascii_lower name) \<in> (\<lambda>b. (br_project_id b, ascii_lower (br_name b))) ` set (db_boards s)
      then (Inl (Sqlite UniqueViolation), s)
      else if project_id \<notin> pr_id ` set (db_projects s) then (Inl (Sqlite ForeignKeyViolation), s)
      else (Inr (next_id br_id (db_boards s)),
            s\<lparr>db_boards := insert_row br_id set_br_id
                 \<lparr>br_id = 0, br_project_id = project_id, br_name = name, br_archived_at = None\<rparr> (db_boards s)\<rparr>))"

definition rename_board_row :: "int \<Rightarrow> string \<Rightarrow> nat store" where
  "rename_board_row i name s =
     (let rows = update_where (\<lambda>b. br_id b = i) (\<lambda>b. b\<lparr>br_name := name\<rparr>) (db_boards s)
      in if \<not> distinct (map (\<lambda>b. (br_project_id b, ascii_lower (br_name b))) rows)
         then (Inl (Sqlite UniqueViolation), s)
         else (Inr (length (filter (\<lambda>b. br_id b = i) (db_boards s))), s\<lparr>db_boards := rows\<rparr>))"

definition set_board_archived_at :: "int \<Rightarrow> bool \<Rightarrow> unit store" where
  "set_board_archived_at i archived = modifyT (\<lambda>s. s\<lparr>db_boards :=
     update_where (\<lambda>b. br_id b = i) (\<lambda>b. b\<lparr>br_archived_at := if archived then Some (db_now s) else None\<rparr>) (db_boards s)\<rparr>)"

definition set_project_archived_at :: "int \<Rightarrow> bool \<Rightarrow> unit store" where
  "set_project_archived_at i archived = modifyT (\<lambda>s. s\<lparr>db_projects :=
     update_where (\<lambda>p. pr_id p = i) (\<lambda>p. p\<lparr>pr_archived_at := if archived then Some (db_now s) else None\<rparr>) (db_projects s)\<rparr>)"

definition seed_todo :: "int \<Rightarrow> unit store" where
  \<comment> \<open>\<open>INSERT .. SELECT .. WHERE NOT EXISTS\<close>\<close>
  "seed_todo board_id s =
     (if list_ex (\<lambda>k. col_board_id k = board_id) (db_columns s) then (Inr (), s)
      else thenT (insert_column
        \<lparr>col_id = 0, col_board_id = board_id, col_name = ''Todo'', col_position = 0, col_system_prompt = None,
         col_trigger = Manual, col_on_success = None, col_on_fail = None, col_fresh_session = False,
         col_harness_override = None, col_model_override = None, col_effort_override = None,
         col_permission_override = None, col_timeout_minutes = None\<rparr>) (returnT ()) s)"

definition project_exists :: "db \<Rightarrow> int \<Rightarrow> bool" where
  "project_exists s i \<longleftrightarrow> list_ex (\<lambda>p. pr_id p = i) (db_projects s)"

definition board_exists :: "db \<Rightarrow> int \<Rightarrow> bool" where
  "board_exists s i \<longleftrightarrow> list_ex (\<lambda>b. br_id b = i) (db_boards s)"

definition guardT :: "(db \<Rightarrow> bool) \<Rightarrow> sqlite_error \<Rightarrow> unit store" where
  "guardT P e = queryT (\<lambda>s. if P s then Inr () else Inl (Sqlite e))"

fun upsert :: "int \<Rightarrow> int \<Rightarrow> (int \<times> int) list \<Rightarrow> (int \<times> int) list" where
  \<comment> \<open>\<open>INSERT .. ON CONFLICT DO UPDATE\<close>\<close>
  "upsert k v [] = [(k, v)]"
| "upsert k v ((k', v') # rows) = (if k' = k then (k, v) # rows else (k', v') # upsert k v rows)"

definition write_selection :: "int \<Rightarrow> int \<Rightarrow> unit store" where
  "write_selection project_id board_id =
     thenT (guardT (\<lambda>s. project_exists s project_id) ForeignKeyViolation)
     (thenT (modifyT (\<lambda>s. s\<lparr>db_selection := Some project_id\<rparr>))
     (thenT (guardT (\<lambda>s. project_exists s project_id \<and> board_exists s board_id) ForeignKeyViolation)
     (modifyT (\<lambda>s. s\<lparr>db_board_selection := upsert project_id board_id (db_board_selection s)\<rparr>))))"

definition recent_projects :: "db \<Rightarrow> int list" where
  \<comment> \<open>\<open>SELECT project_id FROM project_recents ORDER BY rank\<close>\<close>
  "recent_projects s = map fst (sort_key snd (db_project_recents s))"

definition recent_boards :: "db \<Rightarrow> int \<Rightarrow> int list" where
  "recent_boards s project_id =
     map (\<lambda>(_, b, _). b) (sort_key (\<lambda>(_, _, r). r) (filter (\<lambda>(p, _, _). p = project_id) (db_board_recents s)))"

definition move_to_front :: "int \<Rightarrow> int list \<Rightarrow> int list" where
  \<comment> \<open>\<open>retain\<close>, \<open>insert(0, _)\<close>, \<open>truncate(3)\<close>\<close>
  "move_to_front i ids = take 3 (i # filter (\<lambda>j. j \<noteq> i) ids)"

definition insert_project_recent :: "nat \<times> int \<Rightarrow> unit store" where
  "insert_project_recent = (\<lambda>(rank, i).
     thenT (guardT (\<lambda>s. i \<notin> fst ` set (db_project_recents s)) UniqueViolation)
     (thenT (guardT (\<lambda>s. project_exists s i) ForeignKeyViolation)
     (modifyT (\<lambda>s. s\<lparr>db_project_recents := db_project_recents s @ [(i, int rank)]\<rparr>))))"

definition touch_project_recency :: "int \<Rightarrow> unit store" where
  "touch_project_recency project_id =
     bindT (readT (\<lambda>s. move_to_front project_id (recent_projects s))) (\<lambda>ids.
     thenT (modifyT (\<lambda>s. s\<lparr>db_project_recents := []\<rparr>))
     (forT (enumerate 0 ids) insert_project_recent))"

definition insert_board_recent :: "int \<Rightarrow> nat \<times> int \<Rightarrow> unit store" where
  "insert_board_recent project_id = (\<lambda>(rank, i).
     thenT (guardT (\<lambda>s. (project_id, i) \<notin> (\<lambda>(p, b, _). (p, b)) ` set (db_board_recents s)) UniqueViolation)
     (thenT (guardT (\<lambda>s. project_exists s project_id \<and> board_exists s i) ForeignKeyViolation)
     (modifyT (\<lambda>s. s\<lparr>db_board_recents := db_board_recents s @ [(project_id, i, int rank)]\<rparr>))))"

definition touch_board_recency :: "int \<Rightarrow> int \<Rightarrow> unit store" where
  "touch_board_recency project_id board_id =
     bindT (readT (\<lambda>s. move_to_front board_id (recent_boards s project_id))) (\<lambda>ids.
     thenT (modifyT (\<lambda>s. s\<lparr>db_board_recents := filter (\<lambda>(p, _, _). p \<noteq> project_id) (db_board_recents s)\<rparr>))
     (forT (enumerate 0 ids) (insert_board_recent project_id)))"

section \<open>Reads\<close>

definition find_project_by_scope :: "db \<Rightarrow> string \<Rightarrow> project option" where
  "find_project_by_scope s scope_path =
     map_option row_to_project (List.find (\<lambda>p. pr_scope_path p = Some scope_path) (db_projects s))"

definition require_project_by_scope :: "string \<Rightarrow> project store" where
  "require_project_by_scope scope_path =
     require [T ''project '', D scope_path, T '' not found; create it with `board project create '', S scope_path, T ''`'']
       (\<lambda>s. find_project_by_scope s scope_path)"

definition in_view :: "visibility option \<Rightarrow> string option \<Rightarrow> bool" where
  \<comment> \<open>the default view is the active one\<close>
  "in_view v archived_at = visible (set_if v VisActive) archived_at"

definition list_projects_filtered :: "(string \<Rightarrow> string) \<Rightarrow> db \<Rightarrow> visibility option \<Rightarrow> project list" where
  "list_projects_filtered to_lower s v =
     sort_key (\<lambda>p. (pj_scope_path p = None, to_lower (pj_name p)))
       (map row_to_project (filter (\<lambda>p. in_view v (pr_archived_at p)) (db_projects s)))"

definition joined_boards :: "db \<Rightarrow> board list" where
  "joined_boards s = List.map_filter (row_to_board s) (db_boards s)"

definition list_boards_filtered :: "db \<Rightarrow> visibility option \<Rightarrow> board list" where
  "list_boards_filtered s v =
     sort_key (\<lambda>b. (bd_scope_path b \<noteq> None, set_if (bd_scope_path b) [], ascii_lower (bd_name b), bd_id b))
       (filter (\<lambda>b. in_view v (bd_archived_at b)) (joined_boards s))"

definition list_boards_for_project_filtered :: "db \<Rightarrow> int \<Rightarrow> visibility option \<Rightarrow> board list" where
  "list_boards_for_project_filtered s project_id v =
     sort_key (\<lambda>b. (ascii_lower (bd_name b), bd_id b))
       (filter (\<lambda>b. bd_project_id b = project_id \<and> in_view v (bd_archived_at b)) (joined_boards s))"

definition resolve_board :: "(string \<Rightarrow> string) \<Rightarrow> int \<Rightarrow> string \<Rightarrow> board store" where
  "resolve_board to_lower project_id reference =
     (let by_name = require [T ''no board '', D reference, T '' in this project'']
            (\<lambda>s. List.find (\<lambda>b. bd_project_id b = project_id \<and> ascii_lower (bd_name b) = to_lower reference) (joined_boards s))
      in case parse_i64 reference of
           Some i \<Rightarrow> bindT (get_board i) (\<lambda>b. if bd_project_id b = project_id then returnT b else by_name)
         | None \<Rightarrow> by_name)"

definition selected_board_id_for :: "db \<Rightarrow> int \<Rightarrow> int option" where
  "selected_board_id_for s project_id = map_of (db_board_selection s) project_id"

definition archived_board :: "db \<Rightarrow> int \<Rightarrow> bool" where
  \<comment> \<open>\<open>SELECT archived_at FROM boards WHERE id=?\<close>, a missing row reading as NULL\<close>
  "archived_board s i \<longleftrightarrow> (case lookup br_id i (db_boards s) of None \<Rightarrow> False | Some b \<Rightarrow> br_archived_at b \<noteq> None)"

definition archived_project :: "db \<Rightarrow> int \<Rightarrow> bool" where
  "archived_project s i \<longleftrightarrow> (case lookup pr_id i (db_projects s) of None \<Rightarrow> False | Some p \<Rightarrow> pr_archived_at p \<noteq> None)"

definition recent_project_ids_excluding_filtered :: "db \<Rightarrow> int option \<Rightarrow> visibility option \<Rightarrow> int list" where
  "recent_project_ids_excluding_filtered s exclude v =
     filter (\<lambda>i. Some i \<noteq> exclude \<and>
       (case find_project s i of None \<Rightarrow> True | Some p \<Rightarrow> in_view v (pj_archived_at p)))
       (take 3 (recent_projects s))"

definition recent_board_ids_excluding_filtered :: "db \<Rightarrow> int \<Rightarrow> int option \<Rightarrow> visibility option \<Rightarrow> int list" where
  "recent_board_ids_excluding_filtered s project_id exclude v =
     filter (\<lambda>i. Some i \<noteq> exclude \<and>
       (case find_board s i of None \<Rightarrow> False | Some b \<Rightarrow> in_view v (bd_archived_at b)))
       (take 3 (recent_boards s project_id))"

definition selected_project_id_filtered :: "db \<Rightarrow> visibility option \<Rightarrow> int option" where
  "selected_project_id_filtered s v =
     (case db_selection s of None \<Rightarrow> None
      | Some i \<Rightarrow> (case find_project s i of
           Some p \<Rightarrow> if in_view v (pj_archived_at p) then Some i else None
         | None \<Rightarrow> Some i))"

definition selected_board_id_for_filtered :: "db \<Rightarrow> int \<Rightarrow> visibility option \<Rightarrow> int option" where
  "selected_board_id_for_filtered s project_id v =
     (case selected_board_id_for s project_id of None \<Rightarrow> None
      | Some i \<Rightarrow> (case find_board s i of
           Some b \<Rightarrow> if in_view v (bd_archived_at b) then Some i else None
         | None \<Rightarrow> Some i))"

definition main_board :: "int \<Rightarrow> board store" where
  "main_board project_id =
     require [T ''project '', N project_id, T '' has no boards''] (\<lambda>s.
       case List.find (\<lambda>b. bd_project_id b = project_id \<and> ascii_lower (bd_name b) = ''main'' \<and> bd_archived_at b = None)
              (joined_boards s) of
         Some b \<Rightarrow> Some b
       | None \<Rightarrow> (case sort_key bd_id (filter (\<lambda>b. bd_project_id b = project_id \<and> bd_archived_at b = None) (joined_boards s)) of
            [] \<Rightarrow> None | b # _ \<Rightarrow> Some b))"

definition project_context_board :: "int \<Rightarrow> board store" where
  "project_context_board project_id =
     bindT (readT (\<lambda>s. selected_board_id_for s project_id)) (\<lambda>sel.
     case sel of
       None \<Rightarrow> main_board project_id
     | Some i \<Rightarrow> bindT (get_board i) (\<lambda>board.
         if bd_archived_at board = None then returnT board
         else bindT (readT (\<lambda>s. List.find (\<lambda>b. bd_archived_at b = None)
                (List.map_filter (find_board s)
                  (recent_board_ids_excluding_filtered s (bd_project_id board) (Some (bd_id board)) None)))) (\<lambda>recent.
              case recent of Some b \<Rightarrow> returnT b | None \<Rightarrow> main_board project_id)))"

section \<open>Operations\<close>

definition scope_nonempty :: "string \<Rightarrow> unit store" where
  "scope_nonempty scope_path = ensureT (trim scope_path \<noteq> []) (BadRequest [T ''scope_path must not be empty''])"

definition remember_context :: "int \<Rightarrow> int \<Rightarrow> unit store" where
  \<comment> \<open>selection and both recencies, the three writes that always go together\<close>
  "remember_context project_id board_id =
     thenT (write_selection project_id board_id)
     (thenT (touch_project_recency project_id)
     (touch_board_recency project_id board_id))"

definition get_or_create_project :: "string \<Rightarrow> project store" where
  "get_or_create_project scope_path =
     thenT (scope_nonempty scope_path)
     (bindT (readT (\<lambda>s. find_project_by_scope s scope_path)) (\<lambda>found.
     case found of
       Some p \<Rightarrow> returnT p
     | None \<Rightarrow>
         bindT (transaction
           (bindT (insert_project scope_path) (\<lambda>p.
            bindT (insert_board p ''main'') (\<lambda>b.
            thenT (seed_todo b) (returnT p))))) get_project))"

definition open_board :: "string \<Rightarrow> board store" where
  "open_board scope_path = bindT (get_or_create_project scope_path) (\<lambda>p. project_context_board (pj_id p))"

definition create_project_context :: "string \<Rightarrow> (project \<times> board) store" where
  "create_project_context scope_path =
     thenT (scope_nonempty scope_path)
     (bindT (transaction
        (bindT (reject_duplicate (insert_project scope_path)
            [T ''project '', D scope_path, T '' already exists; select it with `board project select '', S scope_path, T ''`'']) (\<lambda>p.
         bindT (insert_board p ''main'') (\<lambda>b.
         thenT (seed_todo b)
         (thenT (remember_context p b)
         (returnT (p, b))))))) (\<lambda>(p, b).
     bindT (get_project p) (\<lambda>project. bindT (get_board b) (\<lambda>board. returnT (project, board)))))"

definition open_project_context :: "string \<Rightarrow> (project \<times> board) store" where
  "open_project_context scope_path =
     thenT (scope_nonempty scope_path)
     (bindT (get_or_create_project scope_path) (\<lambda>project.
     bindT (project_context_board (pj_id project)) (\<lambda>board.
     thenT (transaction (remember_context (pj_id project) (bd_id board)))
     (returnT (project, board)))))"

definition select_project_by_scope :: "string \<Rightarrow> int option \<Rightarrow> (project \<times> board) store" where
  "select_project_by_scope scope_path board_id =
     bindT (require_project_by_scope scope_path) (\<lambda>project.
     bindT (case board_id of
         Some i \<Rightarrow> bindT (get_board i) (\<lambda>board.
           thenT (ensureT (bd_project_id board = pj_id project)
             (InvalidState [T ''board '', N i, T '' belongs to project '', N (bd_project_id board),
                T '', selected project is '', N (pj_id project)]))
           (returnT board))
       | None \<Rightarrow> project_context_board (pj_id project)) (\<lambda>board.
     thenT (transaction (remember_context (pj_id project) (bd_id board)))
     (returnT (project, board))))"

definition select_board :: "int \<Rightarrow> (project \<times> board) store" where
  "select_board board_id =
     bindT (get_board board_id) (\<lambda>board.
     bindT (get_project (bd_project_id board)) (\<lambda>project.
     thenT (transaction (remember_context (pj_id project) (bd_id board)))
     (returnT (project, board))))"

definition create_board :: "int \<Rightarrow> string \<Rightarrow> board store" where
  "create_board project_id name =
     thenT (ensureT (trim name \<noteq> []) (BadRequest [T ''board name must not be empty'']))
     (bindT (get_project project_id) (\<lambda>project.
     thenT (ensureT (pj_archived_at project = None)
       (InvalidState [T ''archived project must be restored first: `board project restore '',
          S (set_if (pj_scope_path project) ''(Global)''), T ''`'']))
     (bindT (transaction
        (bindT (reject_duplicate (insert_board project_id name) (duplicate_board name)) (\<lambda>b.
         thenT (seed_todo b)
         (thenT (remember_context project_id b)
         (returnT b))))) get_board)))"

definition rename_board :: "int \<Rightarrow> string \<Rightarrow> board store" where
  "rename_board i name =
     thenT (ensureT (trim name \<noteq> []) (BadRequest [T ''board name must not be empty'']))
     (thenT (get_board i)
     (thenT (reject_duplicate (rename_board_row i name) (duplicate_board name))
     (get_board i)))"

section \<open>Archiving\<close>

definition board_has_open_run :: "db \<Rightarrow> int \<Rightarrow> bool" where
  "board_has_open_run s i \<longleftrightarrow>
     list_ex (\<lambda>r. open_run r \<and> list_ex (\<lambda>c. cd_id c = rn_card_id r \<and> cd_board_id c = i) (db_cards s)) (db_runs s)"

definition project_has_open_run :: "db \<Rightarrow> int \<Rightarrow> bool" where
  "project_has_open_run s i \<longleftrightarrow>
     list_ex (\<lambda>r. open_run r \<and> list_ex (\<lambda>c. cd_id c = rn_card_id r \<and>
        list_ex (\<lambda>b. br_id b = cd_board_id c \<and> br_project_id b = i) (db_boards s)) (db_cards s)) (db_runs s)"

definition active_boards :: "db \<Rightarrow> int \<Rightarrow> board_row list" where
  "active_boards s project_id = filter (\<lambda>b. br_project_id b = project_id \<and> br_archived_at b = None) (db_boards s)"

definition first_active_board :: "db \<Rightarrow> int \<Rightarrow> int option" where
  \<comment> \<open>\<open>SELECT id .. archived_at IS NULL ORDER BY id LIMIT 1\<close>\<close>
  "first_active_board s project_id =
     (case sort_key br_id (active_boards s project_id) of [] \<Rightarrow> None | b # _ \<Rightarrow> Some (br_id b))"

definition find_active_project_fallback :: "(string \<Rightarrow> string) \<Rightarrow> db \<Rightarrow> int option" where
  "find_active_project_fallback to_lower s =
     (case List.find (\<lambda>i. \<not> archived_project s i \<and> active_boards s i \<noteq> []) (recent_projects s) of
        Some i \<Rightarrow> Some i
      | None \<Rightarrow>
          List.find (\<lambda>i. active_boards s i \<noteq> [])
            (map pr_id (sort_key (\<lambda>p. (pr_scope_path p = None, to_lower (set_if (pr_scope_path p) [])))
               (filter (\<lambda>p. pr_archived_at p = None) (db_projects s)))))"

definition clear_selection :: "unit store" where
  "clear_selection = modifyT (\<lambda>s. s\<lparr>db_selection := None\<rparr>)"

definition select_fallback_project :: "(string \<Rightarrow> string) \<Rightarrow> unit store" where
  \<comment> \<open>the selected project has nothing left to show: go to another one, or to none\<close>
  "select_fallback_project to_lower =
     bindT (readT (find_active_project_fallback to_lower)) (\<lambda>found.
     case found of
       None \<Rightarrow> clear_selection
     | Some p \<Rightarrow> bindT (readT (\<lambda>s. first_active_board s p)) (\<lambda>fb.
         case fb of Some b \<Rightarrow> remember_context p b | None \<Rightarrow> clear_selection))"

definition fallback_board :: "db \<Rightarrow> int \<Rightarrow> int \<Rightarrow> int option" where
  "fallback_board s project_id board_id =
     (case List.find (\<lambda>b. b \<noteq> board_id \<and> \<not> archived_board s b) (recent_boards s project_id) of
        Some b \<Rightarrow> Some b | None \<Rightarrow> first_active_board s project_id)"

definition leave_archived_board :: "(string \<Rightarrow> string) \<Rightarrow> int \<Rightarrow> int \<Rightarrow> unit store" where
  "leave_archived_board to_lower project_id board_id =
     bindT (readT (\<lambda>s. selected_board_id_for s project_id)) (\<lambda>sel.
     if sel = Some board_id then
       bindT (readT (\<lambda>s. fallback_board s project_id board_id)) (\<lambda>fb.
       case fb of
         Some b \<Rightarrow> thenT (write_selection project_id b)
            (thenT (touch_board_recency project_id b) (touch_project_recency project_id))
       | None \<Rightarrow>
           thenT (modifyT (\<lambda>s. s\<lparr>db_board_selection := filter (\<lambda>(p, _). p \<noteq> project_id) (db_board_selection s)\<rparr>))
           (bindT (readT db_selection) (\<lambda>sel_proj.
            if sel_proj = Some project_id then select_fallback_project to_lower else returnT ())))
     else returnT ())"

definition reject_with :: "('r \<Rightarrow> message) \<Rightarrow> 'r + unit \<Rightarrow> unit store" where
  "reject_with msg r = (case r of Inl e \<Rightarrow> throwT (InvalidState (msg e)) | Inr _ \<Rightarrow> returnT ())"

definition set_board_archived :: "(string \<Rightarrow> string) \<Rightarrow> int \<Rightarrow> bool \<Rightarrow> board store" where
  "set_board_archived to_lower board_id archived =
     bindT (get_board board_id) (\<lambda>board.
     let already = bd_archived_at board \<noteq> None in
     if already = archived then returnT board
     else thenT (transaction
       (bindT (readT (\<lambda>s. board_has_open_run s board_id)) (\<lambda>has_open.
        thenT (reject_with board_archive_message (decide_board_archive board_id already has_open archived))
        (thenT (set_board_archived_at board_id archived)
        (if archived then leave_archived_board to_lower (bd_project_id board) board_id else returnT ())))))
     (get_board board_id))"

definition set_project_archived :: "(string \<Rightarrow> string) \<Rightarrow> string \<Rightarrow> bool \<Rightarrow> project store" where
  "set_project_archived to_lower scope_path archived =
     bindT (require_project_by_scope scope_path) (\<lambda>project.
     let already = pj_archived_at project \<noteq> None; i = pj_id project in
     if already = archived then returnT project
     else thenT (transaction
       (bindT (readT (\<lambda>s. (length (active_boards s i), project_has_open_run s i))) (\<lambda>(unarchived, has_open).
        thenT (reject_with project_archive_message
            (decide_project_archive (pj_scope_path project = None) already unarchived has_open archived))
        (thenT (set_project_archived_at i archived)
        (if archived then
           bindT (readT db_selection) (\<lambda>sel. if sel = Some i then select_fallback_project to_lower else returnT ())
         else returnT ())))))
     (get_project i))"

record project_info =
  pi_project :: project
  pi_boards :: "board list"
  pi_selected_board_id :: "int option"
  pi_recent_board_ids :: "int list"

record project_list_result =
  pl_projects :: "project_info list"
  pl_selected_project_id :: "int option"
  pl_recent_project_ids :: "int list"

definition project_list_result_filtered :: "(string \<Rightarrow> string) \<Rightarrow> db \<Rightarrow> visibility option \<Rightarrow> project_list_result" where
  "project_list_result_filtered to_lower s v =
     (let sel = selected_project_id_filtered s v
      in \<lparr>pl_projects = map (\<lambda>p.
            let sb = selected_board_id_for_filtered s (pj_id p) v
            in \<lparr>pi_project = p,
                pi_boards = sort_key (\<lambda>b. to_lower (bd_name b)) (list_boards_for_project_filtered s (pj_id p) v),
                pi_selected_board_id = sb,
                pi_recent_board_ids = recent_board_ids_excluding_filtered s (pj_id p) sb v\<rparr>)
            (list_projects_filtered to_lower s v),
          pl_selected_project_id = sel,
          pl_recent_project_ids = recent_project_ids_excluding_filtered s sel v\<rparr>)"

end
