(* ===== verification/Store_Context.thy ===== *)
theory Store_Context
  imports Store_Projects
begin

text \<open>
  Laws of the project and board operations: \<open>context_inv\<close> says that the stored selection and
  recency point at existing rows and that a recency list is a list of at most three distinct ids
  in rank order; every operation keeps it together with \<open>store_inv\<close>.
\<close>

section \<open>Recency lists\<close>

lemma move_to_front_length: "length (move_to_front i ids) \<le> 3"
  by (simp add: move_to_front_def)

lemma move_to_front_distinct: "distinct ids \<Longrightarrow> distinct (move_to_front i ids)"
  unfolding move_to_front_def by (rule distinct_take) simp

lemma move_to_front_hd: "hd (move_to_front i ids) = i" "move_to_front i ids \<noteq> []"
  by (simp_all add: move_to_front_def)

lemma move_to_front_set: "set (move_to_front i ids) \<subseteq> insert i (set ids)"
  unfolding move_to_front_def by (auto dest!: in_set_takeD)

definition ranked :: "nat \<Rightarrow> int list \<Rightarrow> (int \<times> int) list" where
  "ranked n ids = map (\<lambda>(r, i). (i, int r)) (enumerate n ids)"

lemma ranked_Cons: "ranked n (i # ids) = (i, int n) # ranked (Suc n) ids" "ranked n [] = []"
  by (simp_all add: ranked_def)

lemma map_fst_ranked: "map fst (ranked n ids) = ids"
  by (induction ids arbitrary: n) (simp_all add: ranked_Cons)

lemma sorted_ranked: "sorted (map snd (ranked n ids))"
proof -
  have "(\<forall>x \<in> set (ranked n ids). int n \<le> snd x) \<and> sorted (map snd (ranked n ids))" for n
  proof (induction ids arbitrary: n)
    case (Cons i ids)
    from Cons [of "Suc n"] show ?case by (auto simp: ranked_Cons)
  qed (simp add: ranked_Cons)
  then show ?thesis by blast
qed

lemma sort_ranked: "sort_key snd (ranked n ids) = ranked n ids"
  by (rule sort_key_id_if_sorted) (rule sorted_ranked)

definition valid_recents :: "int list \<Rightarrow> bool" where
  "valid_recents ids \<longleftrightarrow> distinct ids \<and> length ids \<le> 3"

lemma valid_move_to_front: "valid_recents ids \<Longrightarrow> valid_recents (move_to_front i ids)"
  by (simp add: valid_recents_def move_to_front_length move_to_front_distinct)

section \<open>The invariant\<close>

definition board_in_project :: "db \<Rightarrow> int \<Rightarrow> int \<Rightarrow> bool" where
  "board_in_project s p b \<longleftrightarrow> (\<exists>r \<in> set (db_boards s). br_id r = b \<and> br_project_id r = p)"

definition context_inv :: "db \<Rightarrow> bool" where
  "context_inv s \<longleftrightarrow> schema_ok s \<and> distinct (map pr_scope_path (db_projects s)) \<and>
     (\<forall>p. db_selection s = Some p \<longrightarrow> project_exists s p) \<and>
     distinct (map fst (db_board_selection s)) \<and>
     (\<forall>(p, b) \<in> set (db_board_selection s). board_in_project s p b) \<and>
     (\<exists>ids. db_project_recents s = ranked 0 ids \<and> valid_recents ids \<and> (\<forall>i \<in> set ids. project_exists s i)) \<and>
     (\<forall>p. \<exists>ids. filter (\<lambda>r. fst r = p) (db_board_recents s) = map (\<lambda>(i, r). (p, i, r)) (ranked 0 ids) \<and>
        valid_recents ids \<and> (\<forall>i \<in> set ids. board_in_project s p i))"

lemma recent_projects_ranked: "db_project_recents s = ranked 0 ids \<Longrightarrow> recent_projects s = ids"
  by (simp add: recent_projects_def sort_ranked map_fst_ranked)

lemma sort_key_map_proj: "sort_key f (map g xs) = map g (sort_key (f \<circ> g) xs)"
proof -
  have "insort_key f (g x) (map g ys) = map g (insort_key (f \<circ> g) x ys)" for x ys
    by (induction ys) simp_all
  then show ?thesis by (induction xs) simp_all
qed

lemma recent_boards_ranked:
  assumes "filter (\<lambda>r. fst r = p) (db_board_recents s) = map (\<lambda>(i, r). (p, i, r)) (ranked 0 ids)"
  shows "recent_boards s p = ids"
proof -
  have f: "filter (\<lambda>(q, _, _). q = p) (db_board_recents s) = map (\<lambda>(i, r). (p, i, r)) (ranked 0 ids)"
    unfolding assms [symmetric] by (rule filter_cong) auto
  have "(\<lambda>(_, _, r). r) \<circ> (\<lambda>(i, r). (p, i, r)) = (snd :: int \<times> int \<Rightarrow> int)" by auto
  then have "recent_boards s p = map ((\<lambda>(_, b, _). b) \<circ> (\<lambda>(i, r). (p, i, r))) (ranked 0 ids)"
    by (simp add: recent_boards_def f sort_key_map_proj sort_ranked)
  also have "\<dots> = map fst (ranked 0 ids)" by (rule map_cong) auto
  finally show ?thesis by (simp add: map_fst_ranked)
qed

lemma context_recents:
  assumes "context_inv s"
  shows "db_project_recents s = ranked 0 (recent_projects s)" and "valid_recents (recent_projects s)"
    and "\<forall>i \<in> set (recent_projects s). project_exists s i"
    and "filter (\<lambda>r. fst r = p) (db_board_recents s) = map (\<lambda>(i, r). (p, i, r)) (ranked 0 (recent_boards s p))"
    and "valid_recents (recent_boards s p)" and "\<forall>i \<in> set (recent_boards s p). board_in_project s p i"
proof -
  obtain ids where i: "db_project_recents s = ranked 0 ids" "valid_recents ids" "\<forall>i \<in> set ids. project_exists s i"
    using assms unfolding context_inv_def by blast
  then show "db_project_recents s = ranked 0 (recent_projects s)" "valid_recents (recent_projects s)"
    "\<forall>i \<in> set (recent_projects s). project_exists s i"
    using recent_projects_ranked [OF i(1)] by simp_all
  obtain js where j: "filter (\<lambda>r. fst r = p) (db_board_recents s) = map (\<lambda>(i, r). (p, i, r)) (ranked 0 js)"
    "valid_recents js" "\<forall>i \<in> set js. board_in_project s p i"
    using assms unfolding context_inv_def by blast
  then show "filter (\<lambda>r. fst r = p) (db_board_recents s) = map (\<lambda>(i, r). (p, i, r)) (ranked 0 (recent_boards s p))"
    "valid_recents (recent_boards s p)" "\<forall>i \<in> set (recent_boards s p). board_in_project s p i"
    using recent_boards_ranked [OF j(1)] by simp_all
qed

section \<open>The three writes of a context\<close>

lemma guard_run: "P s \<Longrightarrow> thenT (guardT P e) m s = m s"
  by (simp add: thenT_def bindT_def guardT_def queryT_def)

lemma modify_run: "thenT (modifyT f) m s = m (f s)"
  by (simp add: thenT_def bindT_def modifyT_def)

lemma project_recents_loop:
  "distinct ids \<Longrightarrow> set ids \<inter> fst ` set (db_project_recents s) = {} \<Longrightarrow> \<forall>i \<in> set ids. project_exists s i \<Longrightarrow>
   forT (enumerate n ids) insert_project_recent s =
     (Inr (), s\<lparr>db_project_recents := db_project_recents s @ ranked n ids\<rparr>)"
proof (induction ids arbitrary: n s)
  case Nil
  then show ?case by (simp add: returnT_def ranked_Cons)
next
  case (Cons i ids)
  let ?s = "s\<lparr>db_project_recents := db_project_recents s @ [(i, int n)]\<rparr>"
  have "insert_project_recent (n, i) s = (Inr (), ?s)"
    using Cons.prems by (simp add: insert_project_recent_def guard_run) (simp add: modifyT_def)
  moreover have "forT (enumerate (Suc n) ids) insert_project_recent ?s =
      (Inr (), ?s\<lparr>db_project_recents := db_project_recents ?s @ ranked (Suc n) ids\<rparr>)"
    by (rule Cons.IH) (use Cons.prems in \<open>auto simp: project_exists_def\<close>)
  ultimately show ?case by (simp add: thenT_def bindT_def ranked_Cons)
qed

lemma board_recents_loop:
  "distinct ids \<Longrightarrow> (\<forall>i \<in> set ids. \<forall>r \<in> set (db_board_recents s). fst r = p \<longrightarrow> fst (snd r) \<noteq> i) \<Longrightarrow>
   project_exists s p \<Longrightarrow> \<forall>i \<in> set ids. board_exists s i \<Longrightarrow>
   forT (enumerate n ids) (insert_board_recent p) s =
     (Inr (), s\<lparr>db_board_recents := db_board_recents s @ map (\<lambda>(i, r). (p, i, r)) (ranked n ids)\<rparr>)"
proof (induction ids arbitrary: n s)
  case Nil
  then show ?case by (simp add: returnT_def ranked_Cons)
next
  case (Cons i ids)
  let ?s = "s\<lparr>db_board_recents := db_board_recents s @ [(p, i, int n)]\<rparr>"
  have "(p, i) \<notin> (\<lambda>(p, b, _). (p, b)) ` set (db_board_recents s)" using Cons.prems(2) by fastforce
  then have "insert_board_recent p (n, i) s = (Inr (), ?s)"
    using Cons.prems(3,4) by (simp add: insert_board_recent_def guard_run) (simp add: modifyT_def)
  moreover have "forT (enumerate (Suc n) ids) (insert_board_recent p) ?s =
      (Inr (), ?s\<lparr>db_board_recents := db_board_recents ?s @ map (\<lambda>(i, r). (p, i, r)) (ranked (Suc n) ids)\<rparr>)"
    by (rule Cons.IH) (use Cons.prems in \<open>auto simp: project_exists_def board_exists_def\<close>)
  ultimately show ?case by (simp add: thenT_def bindT_def ranked_Cons)
qed

lemma upsert_map_of: "map_of (upsert k v rows) = (map_of rows)(k \<mapsto> v)"
  by (induction k v rows rule: upsert.induct) (auto simp: fun_eq_iff)

lemma upsert_keys: "set (map fst (upsert k v rows)) = insert k (set (map fst rows))"
  by (induction k v rows rule: upsert.induct) auto

lemma upsert_distinct: "distinct (map fst rows) \<Longrightarrow> distinct (map fst (upsert k v rows))"
proof (induction k v rows rule: upsert.induct)
  case (2 k v k' v' rows)
  then show ?case using upsert_keys [of k v rows] by auto
qed simp

lemma upsert_set: "set (upsert k v rows) \<subseteq> insert (k, v) (set rows)"
  by (induction k v rows rule: upsert.induct) auto

definition front_projects :: "int \<Rightarrow> db \<Rightarrow> db" where
  "front_projects p s = s\<lparr>db_project_recents := ranked 0 (move_to_front p (recent_projects s))\<rparr>"

definition front_boards :: "int \<Rightarrow> int \<Rightarrow> db \<Rightarrow> db" where
  "front_boards p b s = s\<lparr>db_board_recents := filter (\<lambda>(q, _, _). q \<noteq> p) (db_board_recents s) @
     map (\<lambda>(i, r). (p, i, r)) (ranked 0 (move_to_front b (recent_boards s p)))\<rparr>"

definition selected :: "int \<Rightarrow> int \<Rightarrow> db \<Rightarrow> db" where
  "selected p b s = s\<lparr>db_selection := Some p, db_board_selection := upsert p b (db_board_selection s)\<rparr>"

lemma touch_project_run:
  assumes "context_inv s" and "project_exists s p"
  shows "touch_project_recency p s = (Inr (), front_projects p s)"
proof -
  let ?ids = "move_to_front p (recent_projects s)" and ?s = "s\<lparr>db_project_recents := []\<rparr>"
  note r = context_recents [OF assms(1)]
  have "forT (enumerate 0 ?ids) insert_project_recent ?s = (Inr (), ?s\<lparr>db_project_recents := db_project_recents ?s @ ranked 0 ?ids\<rparr>)"
    by (rule project_recents_loop)
      (use r(2,3) assms(2) move_to_front_set [of p "recent_projects s"] in
        \<open>auto simp: valid_recents_def move_to_front_distinct project_exists_def\<close>)
  then show ?thesis by (simp add: touch_project_recency_def bindT_def readT_def modify_run front_projects_def)
qed

lemma board_in_project_exists: "schema_ok s \<Longrightarrow> board_in_project s p b \<Longrightarrow> project_exists s p \<and> board_exists s b"
  by (force simp: board_in_project_def project_exists_def board_exists_def list_ex_iff schema_ok_def)

lemma touch_board_run:
  assumes "context_inv s" and "board_in_project s p b"
  shows "touch_board_recency p b s = (Inr (), front_boards p b s)"
proof -
  let ?ids = "move_to_front b (recent_boards s p)"
  let ?s = "s\<lparr>db_board_recents := filter (\<lambda>(q, _, _). q \<noteq> p) (db_board_recents s)\<rparr>"
  have ok: "schema_ok s" using assms(1) by (simp add: context_inv_def)
  note r = context_recents(5,6) [OF assms(1), of p]
  have "\<forall>i \<in> set ?ids. board_in_project s p i"
    using assms(2) r(2) move_to_front_set [of b "recent_boards s p"] by auto
  then have ex: "\<forall>i \<in> set ?ids. board_exists s i" "project_exists s p"
    using board_in_project_exists [OF ok] assms(2) by blast+
  have "forT (enumerate 0 ?ids) (insert_board_recent p) ?s =
      (Inr (), ?s\<lparr>db_board_recents := db_board_recents ?s @ map (\<lambda>(i, r). (p, i, r)) (ranked 0 ?ids)\<rparr>)"
    by (rule board_recents_loop)
      (use r(1) ex in \<open>auto simp: valid_recents_def move_to_front_distinct project_exists_def board_exists_def\<close>)
  then show ?thesis by (simp add: touch_board_recency_def bindT_def readT_def modify_run front_boards_def)
qed

lemma write_selection_run:
  assumes "schema_ok s" and "board_in_project s p b"
  shows "write_selection p b s = (Inr (), selected p b s)"
  using board_in_project_exists [OF assms]
  by (simp add: write_selection_def guard_run modify_run selected_def)
    (simp add: guard_run modifyT_def project_exists_def board_exists_def)

lemma context_exists_cong:
  assumes "db_projects t = db_projects s" "db_boards t = db_boards s"
  shows "project_exists t = project_exists s" "board_in_project t = board_in_project s"
  using assms by (simp_all add: fun_eq_iff project_exists_def board_in_project_def)

lemma selected_inv:
  assumes inv: "context_inv s" and b: "board_in_project s p b"
  shows "context_inv (selected p b s)" and "recent_projects (selected p b s) = recent_projects s"
    and "recent_boards (selected p b s) = recent_boards s"
    and "selected_board_id_for (selected p b s) = (selected_board_id_for s)(p \<mapsto> b)"
proof -
  have ok: "schema_ok s" using inv by (simp add: context_inv_def)
  have okt: "schema_ok (selected p b s)" using ok by (simp add: selected_def schema_ok_def card_fk_def run_fk_def column_fk_def)
  have ex: "project_exists (selected p b s) = project_exists s" "board_in_project (selected p b s) = board_in_project s"
    by (rule context_exists_cong; simp add: selected_def)+
  show "context_inv (selected p b s)"
    using inv okt board_in_project_exists [OF ok b] upsert_set [of p b "db_board_selection s"] b
    unfolding context_inv_def ex
    by (auto simp: selected_def upsert_distinct)
  show "recent_projects (selected p b s) = recent_projects s" "recent_boards (selected p b s) = recent_boards s"
    by (simp_all add: selected_def recent_projects_def recent_boards_def [abs_def])
  show "selected_board_id_for (selected p b s) = (selected_board_id_for s)(p \<mapsto> b)"
    by (simp add: selected_def selected_board_id_for_def [abs_def] upsert_map_of)
qed

lemma front_projects_inv:
  assumes inv: "context_inv s" and p: "project_exists s p"
  shows "context_inv (front_projects p s)"
    and "recent_projects (front_projects p s) = move_to_front p (recent_projects s)"
    and "recent_boards (front_projects p s) = recent_boards s"
    and "selected_board_id_for (front_projects p s) = selected_board_id_for s"
proof -
  have okt: "schema_ok (front_projects p s)"
    using inv by (simp add: context_inv_def front_projects_def schema_ok_def card_fk_def run_fk_def column_fk_def)
  have ex: "project_exists (front_projects p s) = project_exists s" "board_in_project (front_projects p s) = board_in_project s"
    by (rule context_exists_cong; simp add: front_projects_def)+
  note r = context_recents [OF inv]
  have "\<exists>ids. db_project_recents (front_projects p s) = ranked 0 ids \<and> valid_recents ids \<and> (\<forall>i \<in> set ids. project_exists s i)"
    using r(2,3) p move_to_front_set [of p "recent_projects s"]
    by (intro exI [of _ "move_to_front p (recent_projects s)"]) (auto simp: front_projects_def valid_move_to_front)
  then show "context_inv (front_projects p s)"
    using inv okt unfolding context_inv_def ex by (simp add: front_projects_def)
  show "recent_projects (front_projects p s) = move_to_front p (recent_projects s)"
    by (rule recent_projects_ranked) (simp add: front_projects_def)
  show "recent_boards (front_projects p s) = recent_boards s"
    "selected_board_id_for (front_projects p s) = selected_board_id_for s"
    by (simp_all add: front_projects_def recent_boards_def [abs_def] selected_board_id_for_def [abs_def])
qed

lemma front_boards_inv:
  assumes inv: "context_inv s" and b: "board_in_project s p b"
  shows "context_inv (front_boards p b s)"
    and "recent_projects (front_boards p b s) = recent_projects s"
    and "recent_boards (front_boards p b s) = (recent_boards s)(p := move_to_front b (recent_boards s p))"
    and "selected_board_id_for (front_boards p b s) = selected_board_id_for s"
proof -
  let ?t = "front_boards p b s"
  have okt: "schema_ok ?t"
    using inv by (simp add: context_inv_def front_boards_def schema_ok_def card_fk_def run_fk_def column_fk_def)
  have ex: "project_exists ?t = project_exists s" "board_in_project ?t = board_in_project s"
    by (rule context_exists_cong; simp add: front_boards_def)+
  have flds: "db_projects ?t = db_projects s" "db_selection ?t = db_selection s"
    "db_board_selection ?t = db_board_selection s" "db_project_recents ?t = db_project_recents s"
    by (simp_all add: front_boards_def)
  note r = context_recents [OF inv]
  have mine: "filter (\<lambda>r. fst r = p) (db_board_recents ?t) = map (\<lambda>(i, r). (p, i, r)) (ranked 0 (move_to_front b (recent_boards s p)))"
    by (auto simp: front_boards_def filter_empty_conv filter_id_conv)
  have others: "filter (\<lambda>r. fst r = q) (db_board_recents ?t) = filter (\<lambda>r. fst r = q) (db_board_recents s)" if "q \<noteq> p" for q
    using that by (auto simp: front_boards_def filter_empty_conv intro!: filter_cong)
  have "\<exists>ids. filter (\<lambda>r. fst r = q) (db_board_recents ?t) = map (\<lambda>(i, r). (q, i, r)) (ranked 0 ids) \<and>
        valid_recents ids \<and> (\<forall>i \<in> set ids. board_in_project s q i)" for q
  proof (cases "q = p")
    case True
    have "\<forall>i \<in> set (move_to_front b (recent_boards s p)). board_in_project s p i"
      using r(6) [of p] b move_to_front_set [of b "recent_boards s p"] by auto
    then show ?thesis
      unfolding True using mine r(5) [of p] valid_move_to_front by (intro exI [of _ "move_to_front b (recent_boards s p)"]) auto
  next
    case False
    show ?thesis
      unfolding others [OF False] using r(4-6) [of q] by (intro exI [of _ "recent_boards s q"]) simp
  qed
  then show "context_inv ?t"
    using inv okt unfolding context_inv_def ex flds by blast
  show "recent_projects ?t = recent_projects s" "selected_board_id_for ?t = selected_board_id_for s"
    by (simp_all add: front_boards_def recent_projects_def selected_board_id_for_def [abs_def])
  show "recent_boards ?t = (recent_boards s)(p := move_to_front b (recent_boards s p))"
  proof (rule ext)
    fix q
    show "recent_boards ?t q = ((recent_boards s)(p := move_to_front b (recent_boards s p))) q"
    proof (cases "q = p")
      case True
      then show ?thesis using recent_boards_ranked [OF mine] by simp
    next
      case False
      have "recent_boards ?t q = recent_boards s q"
        using recent_boards_ranked [of q ?t "recent_boards s q"] others [OF False] r(4) [of q] by simp
      then show ?thesis using False by simp
    qed
  qed
qed

text \<open>The tables of the work itself are not touched by a change of context.\<close>

definition same_work :: "db \<Rightarrow> db \<Rightarrow> bool" where
  "same_work s t \<longleftrightarrow> db_projects t = db_projects s \<and> db_boards t = db_boards s \<and> db_columns t = db_columns s \<and>
     db_cards t = db_cards s \<and> db_runs t = db_runs s \<and> db_comments t = db_comments s \<and> db_history t = db_history s"

lemma same_work_trans: "same_work s t \<Longrightarrow> same_work t u \<Longrightarrow> same_work s u"
  by (simp add: same_work_def)

lemma same_work_store_inv:
  assumes "same_work s t" shows "store_inv t = store_inv s" "schema_ok t = schema_ok s"
proof -
  show ok: "schema_ok t = schema_ok s"
    using assms by (simp add: same_work_def schema_ok_def card_fk_def [abs_def] run_fk_def [abs_def] column_fk_def [abs_def])
  show "store_inv t = store_inv s"
    using assms ok
    by (simp add: same_work_def store_inv_def board_inv_def card_places_def column_boards_def compact_cards_def
        compact_column_def column_cards_def compact_board_def board_columns_def targets_local_def)
qed

definition remembered :: "int \<Rightarrow> int \<Rightarrow> db \<Rightarrow> db" where
  "remembered p b s = front_boards p b (front_projects p (selected p b s))"

lemma remembered_work: "same_work s (remembered p b s)"
  by (simp add: remembered_def front_boards_def front_projects_def selected_def same_work_def)

lemma remembered_rows [simp]:
  "db_projects (remembered p b s) = db_projects s" "db_boards (remembered p b s) = db_boards s"
  "db_now (remembered p b s) = db_now s" "db_selection (remembered p b s) = Some p"
  by (simp_all add: remembered_def front_boards_def front_projects_def selected_def)

lemma remember_run:
  assumes inv: "context_inv s" and b: "board_in_project s p b"
  shows "remember_context p b s = (Inr (), remembered p b s)" and "context_inv (remembered p b s)"
    and "recent_projects (remembered p b s) = move_to_front p (recent_projects s)"
    and "recent_boards (remembered p b s) = (recent_boards s)(p := move_to_front b (recent_boards s p))"
    and "selected_board_id_for (remembered p b s) = (selected_board_id_for s)(p \<mapsto> b)"
proof -
  have ok: "schema_ok s" using inv by (simp add: context_inv_def)
  note s1 = selected_inv [OF inv b]
  have p1: "project_exists (selected p b s) p" and b1: "board_in_project (selected p b s) p b"
    using board_in_project_exists [OF ok b] b by (simp_all add: selected_def project_exists_def board_in_project_def)
  note s2 = front_projects_inv [OF s1(1) p1]
  have b2: "board_in_project (front_projects p (selected p b s)) p b"
    using b1 by (simp add: front_projects_def board_in_project_def)
  note s3 = front_boards_inv [OF s2(1) b2]
  show "remember_context p b s = (Inr (), remembered p b s)"
    by (simp add: remember_context_def thenT_def bindT_def write_selection_run [OF ok b] touch_project_run [OF s1(1) p1]
        touch_board_run [OF s2(1) b2] remembered_def)
  show "context_inv (remembered p b s)" "recent_projects (remembered p b s) = move_to_front p (recent_projects s)"
    "recent_boards (remembered p b s) = (recent_boards s)(p := move_to_front b (recent_boards s p))"
    "selected_board_id_for (remembered p b s) = (selected_board_id_for s)(p \<mapsto> b)"
    using s1 s2 s3 by (simp_all add: remembered_def)
qed

section \<open>The board a project lands on\<close>

lemma joined_board_row:
  "b \<in> set (joined_boards s) \<Longrightarrow> \<exists>r \<in> set (db_boards s). br_id r = bd_id b \<and> br_project_id r = bd_project_id b \<and>
     br_archived_at r = bd_archived_at b"
  by (auto simp: joined_boards_def row_to_board_def List.map_filter_def)

lemma find_board_row:
  "find_board s i = Some b \<Longrightarrow> \<exists>r \<in> set (db_boards s). br_id r = i \<and> bd_id b = i \<and> br_project_id r = bd_project_id b \<and>
     br_archived_at r = bd_archived_at b"
  by (auto simp: find_board_def row_to_board_def bind_eq_Some_conv dest!: lookup_Some)

lemma board_row_find:
  assumes "schema_ok s" "r \<in> set (db_boards s)"
  shows "\<exists>b. find_board s (br_id r) = Some b \<and> bd_id b = br_id r \<and> bd_project_id b = br_project_id r \<and>
     bd_archived_at b = br_archived_at r"
proof -
  have l: "lookup br_id (br_id r) (db_boards s) = Some r"
    using assms lookup_eq [OF schema_okD(1) [OF assms(1)]] by blast
  obtain p where "lookup pr_id (br_project_id r) (db_projects s) = Some p"
    using assms lookup_None [of pr_id "br_project_id r" "db_projects s"]
    by (cases "lookup pr_id (br_project_id r) (db_projects s)") (auto simp: schema_ok_def)
  then show ?thesis by (simp add: find_board_def l row_to_board_def)
qed

lemma sort_key_first: "sort_key f xs = y # ys \<Longrightarrow> y \<in> set xs"
  by (metis list.set_intros(1) set_sort)

lemma main_board_ok:
  assumes "main_board p s = (Inr b, t)"
  shows "t = s \<and> bd_archived_at b = None \<and> bd_project_id b = p \<and> board_in_project s p (bd_id b)"
proof -
  from assms have t: "t = s" and b: "b \<in> set (joined_boards s) \<and> bd_project_id b = p \<and> bd_archived_at b = None"
    by (auto simp: main_board_def require_ok_iff dest!: find_SomeD sort_key_first split: option.splits list.splits)
  then show ?thesis using joined_board_row [of b s] by (auto simp: board_in_project_def)
qed

lemma project_context_board_ok:
  assumes inv: "context_inv s" and r: "project_context_board p s = (Inr b, t)"
  shows "t = s" and "bd_archived_at b = None" and "bd_project_id b = p" and "board_in_project s p (bd_id b)"
proof -
  have "t = s \<and> bd_archived_at b = None \<and> bd_project_id b = p \<and> board_in_project s p (bd_id b)"
  proof (cases "selected_board_id_for s p")
    case None
    then show ?thesis using r main_board_ok by (simp add: project_context_board_def bindT_def readT_def)
  next
    case (Some i)
    then have "(p, i) \<in> set (db_board_selection s)" by (simp add: selected_board_id_for_def map_of_SomeD)
    then have bp: "board_in_project s p i" using inv by (auto simp: context_inv_def)
    have ok: "schema_ok s" using inv by (simp add: context_inv_def)
    obtain bd where bd: "find_board s i = Some bd" using r Some
      by (auto simp: project_context_board_def tx_ok lookup_ok_iff)
    obtain q where q: "q \<in> set (db_boards s)" "br_id q = i" "br_project_id q = p" using bp by (auto simp: board_in_project_def)
    then have pb: "bd_project_id bd = p" "bd_id bd = i" using board_row_find [OF ok q(1)] bd by auto
    let ?rec = "List.find (\<lambda>b. bd_archived_at b = None) (List.map_filter (find_board s) (recent_board_ids_excluding_filtered s p (Some i) None))"
    show ?thesis
    proof (cases "bd_archived_at bd = None")
      case True
      then have "b = bd \<and> t = s" using r Some bd
        by (auto simp: project_context_board_def tx_ok lookup_ok_iff)
      then show ?thesis using True pb bp by simp
    next
      case False
      show ?thesis
      proof (cases ?rec)
        case None
        then have "main_board p s = (Inr b, t)" using r Some bd False pb
          by (auto simp: project_context_board_def tx_ok lookup_ok_iff)
        then show ?thesis by (rule main_board_ok)
      next
        case (Some x)
        then have bt: "b = x \<and> t = s" using r \<open>selected_board_id_for s p = Some i\<close> bd False pb
          by (auto simp: project_context_board_def tx_ok lookup_ok_iff)
        from find_SomeD [OF Some] obtain j where j: "j \<in> set (recent_boards s p)" "find_board s j = Some x" "bd_archived_at x = None"
          by (auto simp: List.map_filter_def recent_board_ids_excluding_filtered_def dest!: in_set_takeD)
        have "board_in_project s p j" using context_recents(6) [OF inv] j(1) by blast
        then obtain q' where "q' \<in> set (db_boards s)" "br_id q' = j" "br_project_id q' = p" by (auto simp: board_in_project_def)
        then have "bd_project_id x = p \<and> bd_id x = j" using board_row_find [OF ok] j(2) by fastforce
        then show ?thesis using bt j(3) \<open>board_in_project s p j\<close> by simp
      qed
    qed
  qed
  then show "t = s" "bd_archived_at b = None" "bd_project_id b = p" "board_in_project s p (bd_id b)" by simp_all
qed

section \<open>Operations\<close>

definition ctx_ok :: "db \<Rightarrow> bool" where
  "ctx_ok s \<longleftrightarrow> store_inv s \<and> context_inv s"

lemma context_inv_mono:
  assumes inv: "context_inv s" and ok: "schema_ok t" and d: "distinct (map pr_scope_path (db_projects t))"
    and p: "pr_id ` set (db_projects s) \<subseteq> pr_id ` set (db_projects t)"
    and b: "(\<lambda>r. (br_id r, br_project_id r)) ` set (db_boards s) \<subseteq> (\<lambda>r. (br_id r, br_project_id r)) ` set (db_boards t)"
    and same: "db_selection t = db_selection s" "db_board_selection t = db_board_selection s"
      "db_project_recents t = db_project_recents s" "db_board_recents t = db_board_recents s"
  shows "context_inv t"
proof -
  have pe: "project_exists t i" if "project_exists s i" for i
  proof -
    have "i \<in> pr_id ` set (db_projects t)" using that p by (auto simp: project_exists_def list_ex_iff)
    then show ?thesis by (auto simp: project_exists_def list_ex_iff)
  qed
  have be: "board_in_project t q i" if "board_in_project s q i" for q i
  proof -
    have "(i, q) \<in> (\<lambda>r. (br_id r, br_project_id r)) ` set (db_boards s)" using that by (auto simp: board_in_project_def)
    then have "(i, q) \<in> (\<lambda>r. (br_id r, br_project_id r)) ` set (db_boards t)" using b by blast
    then show ?thesis by (auto simp: board_in_project_def)
  qed
  note r = context_recents [OF inv]
  show ?thesis
    unfolding context_inv_def same
  proof (intro conjI allI impI)
    show "schema_ok t" "distinct (map pr_scope_path (db_projects t))" by (fact ok, fact d)
    show "project_exists t p" if "db_selection s = Some p" for p
      using inv that pe by (simp add: context_inv_def)
    show "distinct (map fst (db_board_selection s))" using inv by (simp add: context_inv_def)
    show "\<forall>(p, b) \<in> set (db_board_selection s). board_in_project t p b"
      using inv be by (auto simp: context_inv_def)
    show "\<exists>ids. db_project_recents s = ranked 0 ids \<and> valid_recents ids \<and> (\<forall>i \<in> set ids. project_exists t i)"
      using r(1-3) pe by (intro exI [of _ "recent_projects s"]) blast
    show "\<exists>ids. filter (\<lambda>r. fst r = p) (db_board_recents s) = map (\<lambda>(i, r). (p, i, r)) (ranked 0 ids) \<and>
        valid_recents ids \<and> (\<forall>i \<in> set ids. board_in_project t p i)" for p
      using r(4-6) [of p] be by (intro exI [of _ "recent_boards s p"]) blast
  qed
qed

lemma boards_only_inv:
  assumes "store_inv s" and "schema_ok t" and "t = s\<lparr>db_projects := db_projects t, db_boards := db_boards t\<rparr>"
  shows "store_inv t"
proof -
  have e: "db_columns t = db_columns s" "db_cards t = db_cards s" by (subst assms(3), simp)+
  show ?thesis
    using assms(1,2)
    by (simp add: store_inv_def board_inv_def card_places_def column_boards_def compact_cards_def e
        compact_column_def column_cards_def compact_board_def board_columns_def targets_local_def)
qed

lemma insert_project_ok:
  assumes inv: "ctx_ok s" and i: "insert_project sc s = (Inr p, t)"
  shows "ctx_ok t" and "project_exists t p" and "db_boards t = db_boards s" and "db_columns t = db_columns s"
    and "db_cards t = db_cards s" and "db_runs t = db_runs s" and "find_project_by_scope s sc = None"
    and "find_project t p = Some \<lparr>pj_id = p, pj_name = display_name (Some sc), pj_scope_path = Some sc, pj_archived_at = None\<rparr>"
    and "db_now t = db_now s"
proof -
  let ?r = "\<lparr>pr_id = p, pr_scope_path = Some sc, pr_archived_at = None\<rparr>"
  have new: "Some sc \<notin> pr_scope_path ` set (db_projects s)" and p: "p = next_id pr_id (db_projects s)"
    and t: "t = s\<lparr>db_projects := db_projects s @ [?r]\<rparr>"
    using i by (auto simp: insert_project_def insert_row_def set_pr_id_def split: if_splits)
  have ok: "schema_ok s" using inv by (simp add: ctx_ok_def context_inv_def)
  have okt: "schema_ok t"
    using ok next_id_notin [of pr_id "db_projects s"] by (auto simp: t p schema_ok_def card_fk_def run_fk_def column_fk_def)
  have "context_inv t"
    using inv new by (intro context_inv_mono [of s t] okt) (auto simp: ctx_ok_def context_inv_def t)
  moreover have "store_inv t" using inv by (intro boards_only_inv [of s t] okt) (simp_all add: ctx_ok_def t)
  ultimately show "ctx_ok t" by (simp add: ctx_ok_def)
  show "project_exists t p" by (simp add: project_exists_def t)
  show "db_boards t = db_boards s" "db_columns t = db_columns s" "db_cards t = db_cards s" "db_runs t = db_runs s"
    "db_now t = db_now s"
    by (simp_all add: t)
  show "find_project_by_scope s sc = None" using new by (force simp: find_project_by_scope_def find_None_iff)
  have "lookup pr_id p (db_projects t) = Some ?r"
    using okt by (subst lookup_eq) (auto simp: schema_ok_def t)
  then show "find_project t p = Some \<lparr>pj_id = p, pj_name = display_name (Some sc), pj_scope_path = Some sc, pj_archived_at = None\<rparr>"
    by (simp add: find_project_def row_to_project_def)
qed

definition todo_params :: column_create_params where
  "todo_params = \<lparr>cc_name = ''Todo'', cc_board_id = None, cc_position = None, cc_system_prompt = None, cc_trigger = None,
     cc_on_success = None, cc_on_fail = None, cc_fresh_session = None, cc_harness_override = None, cc_model_override = None,
     cc_effort_override = None, cc_permission_override = None, cc_timeout_minutes = None\<rparr>"

lemma seed_todo_run:
  assumes ok: "schema_ok s" and b: "board_exists s b" and no: "b \<notin> col_board_id ` set (db_columns s)"
  shows "\<exists>i t. insert_new_column b None None todo_params s = (Inr i, t) \<and> seed_todo b s = (Inr (), t)"
proof -
  have nx: "\<not> list_ex (\<lambda>k. col_board_id k = b) (db_columns s)" using no by (auto simp: list_ex_iff)
  have "filter (\<lambda>r. col_board_id r = b) (db_columns s) = []" using no by (auto simp: filter_empty_conv)
  then have e: "end_position col_board_id col_position b (db_columns s) = 0" by (simp add: end_position_def)
  let ?k = "new_column b 0 None None todo_params"
  have k: "?k = \<lparr>col_id = 0, col_board_id = b, col_name = ''Todo'', col_position = 0, col_system_prompt = None,
         col_trigger = Manual, col_on_success = None, col_on_fail = None, col_fresh_session = False,
         col_harness_override = None, col_model_override = None, col_effort_override = None,
         col_permission_override = None, col_timeout_minutes = None\<rparr>"
    by (simp add: new_column_def todo_params_def set_if_def)
  have "column_targets_fk (insert_row col_id set_col_id ?k (db_columns s))"
    using ok by (auto simp: k schema_ok_def column_targets_fk_def insert_row_def set_col_id_def opt_in_def split: option.splits)
  then have ins: "\<exists>i t. insert_column ?k s = (Inr i, t)"
    using b no by (auto simp: insert_column_def Let_def column_fk_def board_exists_def list_ex_iff k image_iff)
  then show ?thesis
    using nx by (auto simp: insert_new_column_def reject_duplicate_ok e seed_todo_def k thenT_def bindT_def returnT_def)
qed

text \<open>A new board of an existing project, with its one column.\<close>

lemma insert_board_seed_ok:
  assumes inv: "ctx_ok s" and i: "insert_board p name s = (Inr b, t)"
  shows "\<exists>k u. seed_todo b t = (Inr (), u) \<and> ctx_ok u \<and> board_in_project u p b \<and> col_order u b = [k] \<and>
    b \<notin> br_id ` set (db_boards s) \<and> db_cards u = db_cards s \<and> db_runs u = db_runs s \<and> db_projects u = db_projects s \<and>
    find_column u k = Some (set_col_id k (new_column b 0 None None todo_params)) \<and>
    (\<exists>bd. find_board u b = Some bd \<and> bd_id bd = b \<and> bd_project_id bd = p \<and> bd_archived_at bd = None \<and> bd_name bd = name)"
proof -
  let ?r = "\<lparr>br_id = b, br_project_id = p, br_name = name, br_archived_at = None\<rparr>"
  have uniq: "(p, ascii_lower name) \<notin> (\<lambda>b. (br_project_id b, ascii_lower (br_name b))) ` set (db_boards s)"
    and fk: "p \<in> pr_id ` set (db_projects s)" and b: "b = next_id br_id (db_boards s)"
    and t: "t = s\<lparr>db_boards := db_boards s @ [?r]\<rparr>"
    using i by (auto simp: insert_board_def insert_row_def set_br_id_def split: if_splits)
  have ok: "schema_ok s" using inv by (simp add: ctx_ok_def context_inv_def)
  have nb: "b \<notin> br_id ` set (db_boards s)" unfolding b by (rule next_id_notin)
  have okt: "schema_ok t"
    using ok nb uniq fk by (auto simp: t schema_ok_def card_fk_def run_fk_def column_fk_def)
  have ct: "context_inv t"
    using inv by (intro context_inv_mono [of s t] okt) (auto simp: ctx_ok_def context_inv_def t)
  have st: "store_inv t" using inv by (intro boards_only_inv [of s t] okt) (simp_all add: ctx_ok_def t)
  have no: "b \<notin> col_board_id ` set (db_columns t)"
    using ok nb by (auto simp: t schema_ok_def column_fk_def)
  have bx: "board_exists t b" by (simp add: board_exists_def t)
  obtain k u where k: "insert_new_column b None None todo_params t = (Inr k, u)" and sd: "seed_todo b t = (Inr (), u)"
    using seed_todo_run [OF okt bx no] by blast
  obtain bd where bd: "find_board t b = Some bd" "bd_id bd = b" "bd_project_id bd = p" "bd_archived_at bd = None"
    using board_row_find [OF okt, of ?r] by (auto simp: t)
  have nm: "bd_name bd = name"
  proof -
    have "lookup br_id b (db_boards t) = Some ?r" using okt by (subst lookup_eq) (auto simp: schema_ok_def t)
    then show ?thesis using bd(1) by (auto simp: find_board_def row_to_board_def)
  qed
  note n = insert_new_column_ok [OF st bd(1) _ _ k, simplified local_target_def, simplified]
  have rows: "db_cards u = db_cards t" "db_selection u = db_selection t" "db_board_selection u = db_board_selection t"
    "db_project_recents u = db_project_recents t" "db_board_recents u = db_board_recents t"
    using k by (auto simp: insert_new_column_def reject_duplicate_ok insert_column_def Let_def split: if_splits)
  have "context_inv u"
    using ct store_invD(2) [OF n(1)] by (intro context_inv_mono [of t u]) (auto simp: context_inv_def n(8,9) rows)
  then have "ctx_ok u" using n(1) by (simp add: ctx_ok_def)
  moreover have "col_order t b = []" using no by (auto simp: col_order_set simp flip: set_empty2)
  ultimately show ?thesis
    using n sd bd nb nm rows(1) by (intro exI [of _ k] exI [of _ u])
      (auto simp: board_in_project_def t find_board_def row_to_board_def [abs_def])
qed

text \<open>The three writes after a state with the invariants.\<close>

lemma remember_ctx:
  assumes "ctx_ok s" and "board_in_project s p b"
  shows "ctx_ok (remembered p b s)" and "remember_context p b s = (Inr (), remembered p b s)"
proof -
  have c: "context_inv s" using assms(1) by (simp add: ctx_ok_def)
  note r = remember_run [OF c assms(2)]
  show "remember_context p b s = (Inr (), remembered p b s)" by (rule r(1))
  show "ctx_ok (remembered p b s)"
    using assms(1) r(2) same_work_store_inv(1) [OF remembered_work] by (simp add: ctx_ok_def)
qed

definition lands_on :: "int \<Rightarrow> int \<Rightarrow> db \<Rightarrow> bool" where
  \<comment> \<open>the context is now this board, first in both recency lists\<close>
  "lands_on p b t \<longleftrightarrow>
     ctx_ok t \<and> db_selection t = Some p \<and> selected_board_id_for t p = Some b \<and>
     hd (recent_projects t) = p \<and> hd (recent_boards t p) = b \<and> board_in_project t p b \<and>
     valid_recents (recent_projects t) \<and> valid_recents (recent_boards t p)"

lemma lands_on_remembered:
  assumes "ctx_ok s" and "board_in_project s p b"
  shows "lands_on p b (remembered p b s)"
proof -
  have c: "context_inv s" using assms(1) by (simp add: ctx_ok_def)
  note r = remember_run [OF c assms(2)] and x = remember_ctx [OF assms]
  have "board_in_project (remembered p b s) p b" using assms(2) by (simp add: board_in_project_def)
  then show ?thesis
    using r x(1) context_recents(2) [OF r(2)] context_recents(5) [OF r(2), of p]
    by (simp add: lands_on_def move_to_front_hd)
qed

definition board_created :: "db \<Rightarrow> int \<Rightarrow> string \<Rightarrow> board \<Rightarrow> db \<Rightarrow> bool" where
  "board_created s p name b t \<longleftrightarrow>
     lands_on p (bd_id b) t \<and> bd_id b \<notin> br_id ` set (db_boards s) \<and> bd_project_id b = p \<and> bd_name b = name \<and>
     bd_archived_at b = None \<and> find_board t (bd_id b) = Some b \<and>
     (\<exists>k. list_columns t (bd_id b) = [k] \<and> col_name k = ''Todo'' \<and> col_trigger k = Manual \<and> col_position k = 0)"

lemma single_column:
  assumes ok: "schema_ok u" and o: "col_order u b = [k]"
    and f: "find_column u k = Some (set_col_id k (new_column b 0 None None todo_params))"
  shows "\<exists>c. list_columns u b = [c] \<and> col_name c = ''Todo'' \<and> col_trigger c = Manual \<and> col_position c = 0"
proof -
  obtain c where c: "board_columns u b = [c]" "col_id c = k" using o by (auto simp: col_order_def)
  then have "c \<in> set (board_columns u b)" by simp
  then have "c \<in> set (db_columns u)" by (simp add: board_columns_def column_lane.lane_set)
  then have "find_column u k = Some c" using c(2) by (simp add: find_column_Some [OF ok])
  with f have "c = set_col_id k (new_column b 0 None None todo_params)" by simp
  with c(1) show ?thesis by (simp add: list_columns_def set_col_id_def new_column_def todo_params_def set_if_def)
qed

lemma create_board_wp:
  assumes inv: "ctx_ok s"
  shows "wp (create_board p name) (board_created s p name) (\<lambda>_ t. t = s) s"
proof -
  let ?body = "bindT (reject_duplicate (insert_board p name) (duplicate_board name)) (\<lambda>b.
         thenT (seed_todo b) (thenT (remember_context p b) (returnT b)))"
  have "wp (bindT (transaction ?body) get_board) (board_created s p name) (\<lambda>_ t. t = s) s"
  proof (rule wp_commit_then)
    fix b t assume "?body s = (Inr b, t)"
    then obtain s1 s2 where i: "insert_board p name s = (Inr b, s1)" and sd: "seed_todo b s1 = (Inr (), s2)"
      and rm: "remember_context p b s2 = (Inr (), t)"
      by (auto simp: tx_ok reject_duplicate_ok)
    obtain k bd where n: "ctx_ok s2" "board_in_project s2 p b" "col_order s2 b = [k]" "b \<notin> br_id ` set (db_boards s)"
        "find_column s2 k = Some (set_col_id k (new_column b 0 None None todo_params))"
        "find_board s2 b = Some bd" "bd_id bd = b" "bd_project_id bd = p" "bd_archived_at bd = None" "bd_name bd = name"
      using insert_board_seed_ok [OF inv i] sd by auto
    have t: "t = remembered p b s2" using rm remember_ctx(2) [OF n(1,2)] by simp
    have lo: "lands_on p b t" using lands_on_remembered [OF n(1,2)] t by simp
    have fb: "find_board t b = Some bd" using n(6) by (simp add: t find_board_def row_to_board_def [abs_def])
    have "schema_ok s2" using n(1) by (simp add: ctx_ok_def context_inv_def)
    from single_column [OF this n(3,5)]
    have "\<exists>k. list_columns t b = [k] \<and> col_name k = ''Todo'' \<and> col_trigger k = Manual \<and> col_position k = 0"
      using remembered_work [of s2 p b] by (simp add: t list_columns_def board_columns_def same_work_def)
    then show "wp (get_board b) (board_created s p name) (\<lambda>_ _. False) t"
      using lo fb n by (simp add: wp_lookups board_created_def)
  qed simp
  then show ?thesis
    unfolding create_board_def by (simp add: wp_then wp_bind [of "ensureT x y" for x y] wp_bind [of "get_project x" for x] wp_basic wp_lookups split: option.splits)
qed

lemma get_or_create_project_wp:
  assumes inv: "ctx_ok s"
  shows "wp (get_or_create_project sc)
    (\<lambda>p t. ctx_ok t \<and> pj_scope_path p = Some sc \<and> project_exists t (pj_id p) \<and>
       db_selection t = db_selection s \<and> db_board_selection t = db_board_selection s \<and>
       recent_projects t = recent_projects s \<and> recent_boards t = recent_boards s \<and>
       (find_project_by_scope s sc \<noteq> None \<longrightarrow> t = s \<and> find_project_by_scope s sc = Some p))
    (\<lambda>_ t. t = s) s" (is "wp _ ?Q _ _")
proof -
  let ?body = "bindT (insert_project sc) (\<lambda>p. bindT (insert_board p ''main'') (\<lambda>b. thenT (seed_todo b) (returnT p)))"
  have "wp (bindT (transaction ?body) get_project) ?Q (\<lambda>_ t. t = s) s"
  proof (rule wp_commit_then)
    fix p t assume b: "?body s = (Inr p, t)"
    then obtain s1 i s2 where i1: "insert_project sc s = (Inr p, s1)" and i2: "insert_board p ''main'' s1 = (Inr i, s2)"
      and sd: "seed_todo i s2 = (Inr (), t)" by (auto simp: tx_ok)
    note a = insert_project_ok [OF inv i1]
    obtain k where n: "ctx_ok t" "board_in_project t p i" "db_projects t = db_projects s1"
      using insert_board_seed_ok [OF a(1) i2] sd by auto
    have pe: "project_exists t p" using a(2) n(3) by (simp add: project_exists_def)
    have fp: "find_project t p = Some \<lparr>pj_id = p, pj_name = display_name (Some sc), pj_scope_path = Some sc, pj_archived_at = None\<rparr>"
      using a(8) n(3) by (simp add: find_project_def)
    have e1: "db_selection s1 = db_selection s \<and> db_board_selection s1 = db_board_selection s \<and>
        db_project_recents s1 = db_project_recents s \<and> db_board_recents s1 = db_board_recents s"
      using i1 by (auto simp: insert_project_def split: if_splits)
    have e2: "db_selection s2 = db_selection s1 \<and> db_board_selection s2 = db_board_selection s1 \<and>
        db_project_recents s2 = db_project_recents s1 \<and> db_board_recents s2 = db_board_recents s1"
      using i2 by (auto simp: insert_board_def split: if_splits)
    have e3: "db_selection t = db_selection s2 \<and> db_board_selection t = db_board_selection s2 \<and>
        db_project_recents t = db_project_recents s2 \<and> db_board_recents t = db_board_recents s2"
      using sd by (auto simp: seed_todo_def tx_ok insert_column_def Let_def split: if_splits)
    show "wp (get_project p) ?Q (\<lambda>_ _. False) t"
      using n(1) pe fp a(7) e1 e2 e3
      by (simp add: wp_lookups recent_projects_def recent_boards_def [abs_def])
  qed simp
  moreover have "?Q p s" if f: "find_project_by_scope s sc = Some p" for p
  proof -
    obtain r where r: "r \<in> set (db_projects s)" "pr_scope_path r = Some sc" "p = row_to_project r"
      using f by (auto simp: find_project_by_scope_def dest: find_SomeD)
    then have "project_exists s (pj_id p)" by (auto simp: project_exists_def list_ex_iff row_to_project_def)
    then show ?thesis using inv f r by (simp add: row_to_project_def)
  qed
  ultimately show ?thesis
    unfolding get_or_create_project_def scope_nonempty_def
    by (cases "find_project_by_scope s sc") (simp_all add: wp_then wp_bind [of "readT f" for f] wp_basic)
qed

lemma open_project_context_wp:
  assumes inv: "ctx_ok s"
  shows "wp (open_project_context sc)
    (\<lambda>(p, b) t. lands_on (pj_id p) (bd_id b) t \<and> pj_scope_path p = Some sc \<and> bd_archived_at b = None \<and> bd_project_id b = pj_id p)
    (\<lambda>_. ctx_ok) s"
proof -
  have "wp (get_or_create_project sc)
    (\<lambda>p. wp (bindT (project_context_board (pj_id p)) (\<lambda>b. thenT (transaction (remember_context (pj_id p) (bd_id b))) (returnT (p, b))))
      (\<lambda>(p, b) t. lands_on (pj_id p) (bd_id b) t \<and> pj_scope_path p = Some sc \<and> bd_archived_at b = None \<and> bd_project_id b = pj_id p)
      (\<lambda>_. ctx_ok)) (\<lambda>_. ctx_ok) s"
  proof (rule wp_mono [OF get_or_create_project_wp [OF inv]])
    fix p t assume a: "ctx_ok t \<and> pj_scope_path p = Some sc \<and> project_exists t (pj_id p) \<and>
       db_selection t = db_selection s \<and> db_board_selection t = db_board_selection s \<and>
       recent_projects t = recent_projects s \<and> recent_boards t = recent_boards s \<and>
       (find_project_by_scope s sc \<noteq> None \<longrightarrow> t = s \<and> find_project_by_scope s sc = Some p)"
    then have c: "context_inv t" by (simp add: ctx_ok_def)
    show "wp (bindT (project_context_board (pj_id p)) (\<lambda>b. thenT (transaction (remember_context (pj_id p) (bd_id b))) (returnT (p, b))))
      (\<lambda>(p, b) t. lands_on (pj_id p) (bd_id b) t \<and> pj_scope_path p = Some sc \<and> bd_archived_at b = None \<and> bd_project_id b = pj_id p)
      (\<lambda>_. ctx_ok) t"
      unfolding wp_bind
    proof (rule wpI)
      fix b u assume r: "project_context_board (pj_id p) t = (Inr b, u)"
      note m = project_context_board_ok [OF c r]
      show "wp (thenT (transaction (remember_context (pj_id p) (bd_id b))) (returnT (p, b)))
        (\<lambda>(p, b) t. lands_on (pj_id p) (bd_id b) t \<and> pj_scope_path p = Some sc \<and> bd_archived_at b = None \<and> bd_project_id b = pj_id p)
        (\<lambda>_. ctx_ok) u"
        using a m remember_ctx [of t "pj_id p" "bd_id b"] lands_on_remembered [of t "pj_id p" "bd_id b"]
        by (simp add: wp_def thenT_def bindT_def transaction_def returnT_def)
    next
      fix e u assume "project_context_board (pj_id p) t = (Inl e, u)"
      moreover have "readonly (project_context_board (pj_id p))"
        by (auto simp: readonly_def project_context_board_def bindT_def readT_def main_board_def require_def queryT_def
            returnT_def get_board_def split: option.splits sum.splits)
      ultimately have "u = t" by (auto simp: readonly_def dest: spec [of _ t])
      then show "ctx_ok u" using a by simp
    qed
  qed (use inv in simp)
  then show ?thesis
    using inv unfolding open_project_context_def scope_nonempty_def
    by (simp add: wp_then [of "ensureT x y" for x y] wp_bind [of "get_or_create_project x" for x] wp_basic)
qed

lemma select_board_wp:
  assumes inv: "ctx_ok s"
  shows "wp (select_board i)
    (\<lambda>(p, b) t. lands_on (pj_id p) i t \<and> bd_id b = i \<and> bd_project_id b = pj_id p \<and> same_work s t)
    (\<lambda>_ t. t = s) s"
proof (cases "find_board s i")
  case None
  then show ?thesis by (simp add: select_board_def tx_simps)
next
  case (Some b)
  obtain r where r: "r \<in> set (db_boards s)" "br_id r = i" "bd_id b = i" "br_project_id r = bd_project_id b"
    using find_board_row [OF Some] by blast
  then have bp: "board_in_project s (bd_project_id b) i" by (auto simp: board_in_project_def)
  note m = remember_ctx [OF inv bp] lands_on_remembered [OF inv bp] remembered_work [of s "bd_project_id b" i]
  have pid: "pj_id p = bd_project_id b" if "find_project s (bd_project_id b) = Some p" for p
    using that by (auto simp: find_project_def row_to_project_def dest: lookup_Some)
  show ?thesis
  proof (cases "find_project s (bd_project_id b)")
    case None
    then show ?thesis using Some by (simp add: select_board_def tx_simps)
  next
    case p: (Some p)
    then show ?thesis
      using Some r(3) pid [OF p] m
      by (simp add: select_board_def wp_bind wp_lookups wp_then wp_transaction wp_basic wp_def [of "remember_context x y" for x y])
  qed
qed

section \<open>Archiving\<close>

lemma first_active_board_ok:
  assumes "first_active_board s p = Some b"
  shows "board_in_project s p b" and "schema_ok s \<Longrightarrow> \<not> archived_board s b"
proof -
  obtain r where r: "r \<in> set (db_boards s)" "br_id r = b" "br_project_id r = p" "br_archived_at r = None"
    using assms by (auto simp: first_active_board_def active_boards_def dest!: sort_key_first split: list.splits)
  then show "board_in_project s p b" by (auto simp: board_in_project_def)
  assume "schema_ok s"
  then have "lookup br_id b (db_boards s) = Some r" using r lookup_eq [OF schema_okD(1)] by blast
  then show "\<not> archived_board s b" by (simp add: archived_board_def r(4))
qed

lemma same_work_archived: "same_work s t \<Longrightarrow> archived_board t = archived_board s"
  by (simp add: fun_eq_iff archived_board_def same_work_def)

definition moved_on :: "db \<Rightarrow> db \<Rightarrow> bool" where
  \<comment> \<open>another context, or none; no selected board became an archived one\<close>
  "moved_on s t \<longleftrightarrow> ctx_ok t \<and> same_work s t \<and>
     (\<forall>p b. selected_board_id_for t p = Some b \<longrightarrow> archived_board s b \<longrightarrow> selected_board_id_for s p = Some b)"

lemma moved_on_remembered:
  assumes "ctx_ok s" "board_in_project s p b" "\<not> archived_board s b"
  shows "moved_on s (remembered p b s)"
proof -
  have c: "context_inv s" using assms(1) by (simp add: ctx_ok_def)
  show ?thesis
    using remember_ctx [OF assms(1,2)] remembered_work remember_run(5) [OF c assms(2)] assms(3)
    by (auto simp: moved_on_def split: if_splits)
qed

lemma moved_on_clear: "ctx_ok s \<Longrightarrow> moved_on s (s\<lparr>db_selection := None\<rparr>)"
proof -
  assume inv: "ctx_ok s"
  let ?t = "s\<lparr>db_selection := None\<rparr>"
  have w: "same_work s ?t" by (simp add: same_work_def)
  have "context_inv ?t"
    using inv same_work_store_inv(2) [OF w]
    by (simp add: ctx_ok_def context_inv_def project_exists_def [abs_def] board_in_project_def [abs_def])
  then show ?thesis
    using inv w same_work_store_inv(1) [OF w] by (simp add: moved_on_def ctx_ok_def selected_board_id_for_def)
qed

lemma select_fallback_run:
  assumes inv: "ctx_ok s"
  shows "\<exists>t. select_fallback_project lower s = (Inr (), t) \<and> moved_on s t"
proof (cases "find_active_project_fallback lower s")
  case None
  then show ?thesis
    using moved_on_clear [OF inv]
    by (simp add: select_fallback_project_def bindT_def readT_def clear_selection_def modifyT_def)
next
  case (Some p)
  show ?thesis
  proof (cases "first_active_board s p")
    case None
    then show ?thesis
      using moved_on_clear [OF inv] Some
      by (simp add: select_fallback_project_def bindT_def readT_def clear_selection_def modifyT_def)
  next
    case b: (Some b)
    have ok: "schema_ok s" using inv by (simp add: ctx_ok_def context_inv_def)
    note f = first_active_board_ok [OF b]
    show ?thesis
      using remember_ctx(2) [OF inv f(1)] moved_on_remembered [OF inv f(1) f(2) [OF ok]] Some b
      by (simp add: select_fallback_project_def bindT_def readT_def)
  qed
qed

lemma fallback_board_ok:
  assumes inv: "context_inv s" and f: "fallback_board s p i = Some b"
  shows "board_in_project s p b" and "\<not> archived_board s b"
proof -
  have ok: "schema_ok s" using inv by (simp add: context_inv_def)
  have "board_in_project s p b \<and> \<not> archived_board s b"
  proof (cases "List.find (\<lambda>b. b \<noteq> i \<and> \<not> archived_board s b) (recent_boards s p)")
    case None
    then show ?thesis using f first_active_board_ok [of s p b] ok by (simp add: fallback_board_def)
  next
    case (Some x)
    then show ?thesis using f context_recents(6) [OF inv, of p] by (auto simp: fallback_board_def dest!: find_SomeD)
  qed
  then show "board_in_project s p b" "\<not> archived_board s b" by simp_all
qed

lemma leave_archived_board_run:
  assumes inv: "ctx_ok s" and arch: "archived_board s i"
  shows "\<exists>t. leave_archived_board lower p i s = (Inr (), t) \<and> ctx_ok t \<and> same_work s t \<and> selected_board_id_for t p \<noteq> Some i"
proof (cases "selected_board_id_for s p = Some i")
  case False
  then show ?thesis using inv by (simp add: leave_archived_board_def bindT_def readT_def returnT_def same_work_def)
next
  case True
  have c: "context_inv s" and ok: "schema_ok s" using inv by (simp_all add: ctx_ok_def context_inv_def)
  show ?thesis
  proof (cases "fallback_board s p i")
    case (Some b)
    note f = fallback_board_ok [OF c Some]
    have ne: "b \<noteq> i" using f(2) arch by auto
    note s1 = selected_inv [OF c f(1)]
    have b1: "board_in_project (selected p b s) p b" using f(1) by (simp add: selected_def board_in_project_def)
    note s2 = front_boards_inv [OF s1(1) b1]
    have p2: "project_exists (front_boards p b (selected p b s)) p"
      using board_in_project_exists [OF ok f(1)] by (simp add: front_boards_def selected_def project_exists_def)
    note s3 = front_projects_inv [OF s2(1) p2]
    let ?t = "front_projects p (front_boards p b (selected p b s))"
    have w: "same_work s ?t" by (simp add: front_projects_def front_boards_def selected_def same_work_def)
    have "leave_archived_board lower p i s = (Inr (), ?t)"
      using True Some
      by (simp add: leave_archived_board_def bindT_def readT_def thenT_def write_selection_run [OF ok f(1)]
          touch_board_run [OF s1(1) b1] touch_project_run [OF s2(1) p2])
    moreover have "selected_board_id_for ?t p = Some b" using s1(4) s2(4) s3(4) by simp
    moreover have "ctx_ok ?t" using s3(1) same_work_store_inv(1) [OF w] inv by (simp add: ctx_ok_def)
    ultimately show ?thesis using w ne by auto
  next
    case None
    let ?t = "s\<lparr>db_board_selection := filter (\<lambda>(q, _). q \<noteq> p) (db_board_selection s)\<rparr>"
    have w: "same_work s ?t" by (simp add: same_work_def)
    have "distinct (map fst (filter (\<lambda>(q, _). q \<noteq> p) (db_board_selection s)))"
      using c by (simp add: context_inv_def distinct_map_filter)
    then have "context_inv ?t"
      using c same_work_store_inv(2) [OF w]
      by (simp add: context_inv_def project_exists_def [abs_def] board_in_project_def [abs_def])
    then have t: "ctx_ok ?t" using inv same_work_store_inv(1) [OF w] by (simp add: ctx_ok_def)
    have "map_of (filter (\<lambda>(q, _). q \<noteq> p) rows) p = None" for rows :: "(int \<times> int) list"
      by (induction rows) auto
    then have none: "selected_board_id_for ?t p = None" by (simp add: selected_board_id_for_def)
    show ?thesis
    proof (cases "db_selection s = Some p")
      case False
      then show ?thesis
        using True None t w none
        by (simp add: leave_archived_board_def bindT_def readT_def thenT_def modifyT_def returnT_def)
    next
      case sp: True
      obtain u where u: "select_fallback_project lower ?t = (Inr (), u)" "moved_on ?t u"
        using select_fallback_run [OF t] by blast
      have "selected_board_id_for u p \<noteq> Some i"
        using u(2) none arch same_work_archived [OF w] by (auto simp: moved_on_def)
      moreover have "ctx_ok u \<and> same_work s u" using u(2) same_work_trans [OF w] by (simp add: moved_on_def)
      ultimately show ?thesis
        using True None sp u(1)
        by (simp add: leave_archived_board_def bindT_def readT_def thenT_def modifyT_def)
    qed
  qed
qed

lemma schema_ok_boards:
  assumes ok: "schema_ok s" and ids: "map br_id rows = map br_id (db_boards s)"
    and pj: "map br_project_id rows = map br_project_id (db_boards s)"
    and names: "distinct (map (\<lambda>b. (br_project_id b, ascii_lower (br_name b))) rows)"
  shows "schema_ok (s\<lparr>db_boards := rows\<rparr>)"
proof -
  have i: "br_id ` set rows = br_id ` set (db_boards s)" using ids by (metis list.set_map)
  have "br_project_id ` set rows = br_project_id ` set (db_boards s)" using pj by (metis list.set_map)
  then have "br_project_id ` set rows \<subseteq> pr_id ` set (db_projects s)" using ok by (auto simp: schema_ok_def)
  then have p: "\<forall>b \<in> set rows. br_project_id b \<in> pr_id ` set (db_projects s)" by blast
  show ?thesis
    using ok ids names p i by (simp add: schema_ok_def card_fk_def run_fk_def column_fk_def)
qed

lemma set_board_archived_at_ok:
  assumes inv: "ctx_ok s" and t: "set_board_archived_at i a s = (Inr u, t)"
  shows "ctx_ok t" and "db_cards t = db_cards s" and "db_runs t = db_runs s" and "db_columns t = db_columns s"
    and "lookup br_id i (db_boards t) = map_option (\<lambda>r. r\<lparr>br_archived_at := if a then Some (db_now s) else None\<rparr>) (lookup br_id i (db_boards s))"
    and "db_projects t = db_projects s"
proof -
  let ?f = "\<lambda>r. r\<lparr>br_archived_at := if a then Some (db_now s) else None\<rparr>"
  have t': "t = s\<lparr>db_boards := update_where (\<lambda>b. br_id b = i) ?f (db_boards s)\<rparr>"
    using t by (simp add: set_board_archived_at_def modifyT_def)
  have ok: "schema_ok s" using inv by (simp add: ctx_ok_def context_inv_def)
  have m: "map h (db_boards t) = map h (db_boards s)" if "\<And>r. h (?f r) = h r" for h :: "board_row \<Rightarrow> 'x"
    unfolding t' using that by (simp add: map_update_where)
  have pr: "(\<lambda>r. (br_id r, br_project_id r)) ` set (db_boards t) = (\<lambda>r. (br_id r, br_project_id r)) ` set (db_boards s)"
    using arg_cong [OF m [of "\<lambda>r. (br_id r, br_project_id r)"], of set] by (simp only: set_map) simp
  have okt: "schema_ok t"
    using schema_ok_boards [OF ok m m] m [of "\<lambda>b. (br_project_id b, ascii_lower (br_name b))"] ok
    by (simp add: t' schema_ok_def)
  have "context_inv t"
    using inv by (intro context_inv_mono [of s t] okt) (simp_all add: ctx_ok_def context_inv_def pr, simp_all add: t')
  moreover have "store_inv t" using inv by (intro boards_only_inv [of s t] okt) (simp_all add: ctx_ok_def t')
  ultimately show "ctx_ok t" by (simp add: ctx_ok_def)
  show "db_cards t = db_cards s" "db_runs t = db_runs s" "db_columns t = db_columns s" "db_projects t = db_projects s"
    by (simp_all add: t')
  show "lookup br_id i (db_boards t) = map_option ?f (lookup br_id i (db_boards s))"
    using boards_t.lookup_update [of ?f i "\<lambda>b. br_id b = i" "db_boards s"]
    by (auto simp: t' map_option_case dest: lookup_Some split: option.splits)
qed

lemma reject_with_ok: "reject_with msg r s = (Inr u, t) \<longleftrightarrow> t = s \<and> (\<exists>x. r = Inr x)"
  by (auto simp: reject_with_def returnT_def throwT_def split: sum.splits)

definition board_archived_spec :: "db \<Rightarrow> int \<Rightarrow> bool \<Rightarrow> board \<Rightarrow> db \<Rightarrow> bool" where
  \<comment> \<open>the board is in the wanted state; an archived board has no open run and is left by its project\<close>
  "board_archived_spec s i archived b t \<longleftrightarrow>
     ctx_ok t \<and> find_board t i = Some b \<and> (bd_archived_at b \<noteq> None) = archived \<and>
     db_cards t = db_cards s \<and> db_runs t = db_runs s \<and> db_columns t = db_columns s \<and>
     (\<exists>old. find_board s i = Some old \<and>
        (if (bd_archived_at old \<noteq> None) = archived then t = s
         else archived \<longrightarrow> \<not> board_has_open_run s i \<and> selected_board_id_for t (bd_project_id old) \<noteq> Some i))"

lemma set_board_archived_wp:
  assumes inv: "ctx_ok s"
  shows "wp (set_board_archived lower i a) (board_archived_spec s i a) (\<lambda>_ t. t = s) s"
proof (cases "find_board s i")
  case None
  then show ?thesis by (simp add: set_board_archived_def Let_def tx_simps)
next
  case (Some old)
  have ok: "schema_ok s" using inv by (simp add: ctx_ok_def context_inv_def)
  show ?thesis
  proof (cases "(bd_archived_at old \<noteq> None) = a")
    case True
    then show ?thesis using Some inv by (simp add: set_board_archived_def Let_def tx_simps board_archived_spec_def)
  next
    case False
    let ?body = "bindT (readT (\<lambda>s. board_has_open_run s i)) (\<lambda>has_open.
        thenT (reject_with board_archive_message (decide_board_archive i (bd_archived_at old \<noteq> None) has_open a))
        (thenT (set_board_archived_at i a)
        (if a then leave_archived_board lower (bd_project_id old) i else returnT ())))"
    obtain r where r: "lookup br_id i (db_boards s) = Some r" "br_archived_at r = bd_archived_at old"
      using Some by (auto simp: find_board_def row_to_board_def bind_eq_Some_conv)
    have "wp (bindT (transaction ?body) (\<lambda>_. get_board i)) (board_archived_spec s i a) (\<lambda>_ t. t = s) s"
    proof (rule wp_commit_then)
      fix x t assume b: "?body s = (Inr x, t)"
      then obtain u s1 where ok_archive: "a \<longrightarrow> \<not> board_has_open_run s i"
        and s1: "set_board_archived_at i a s = (Inr u, s1)"
        and l: "(if a then leave_archived_board lower (bd_project_id old) i else returnT ()) s1 = (Inr x, t)"
        using False
        by (auto simp: tx_ok reject_with_ok decide_board_archive_def split: if_splits sum.splits)
      note n = set_board_archived_at_ok [OF inv s1]
      have arch: "archived_board s1 i = a" using n(5) r by (simp add: archived_board_def)
      have t: "ctx_ok t \<and> same_work s1 t \<and> (a \<longrightarrow> selected_board_id_for t (bd_project_id old) \<noteq> Some i)"
        using leave_archived_board_run [OF n(1), of i lower "bd_project_id old"] l arch n(1)
        by (cases a) (auto simp: returnT_def same_work_def)
      have okt: "schema_ok t" using t by (simp add: ctx_ok_def context_inv_def)
      have lt: "lookup br_id i (db_boards t) = Some (r\<lparr>br_archived_at := if a then Some (db_now s) else None\<rparr>)"
        using n(5) r t by (simp add: same_work_def)
      then obtain b where b: "find_board t i = Some b" "bd_archived_at b = (if a then Some (db_now s) else None)"
        using board_row_find [OF okt, of "r\<lparr>br_archived_at := if a then Some (db_now s) else None\<rparr>"]
        by (auto dest!: lookup_Some)
      have "board_archived_spec s i a b t"
        unfolding board_archived_spec_def
        using b t n(2-4) Some False ok_archive by (auto simp: same_work_def)
      then show "wp (get_board i) (board_archived_spec s i a) (\<lambda>_ _. False) t"
        using b(1) by (simp add: wp_lookups)
    qed simp
    then show ?thesis
      using Some False unfolding set_board_archived_def Let_def thenT_def [of "transaction m" for m]
      by (simp add: wp_bind [of "get_board x" for x] wp_lookups)
  qed
qed

lemma rename_board_wp:
  assumes inv: "ctx_ok s"
  shows "wp (rename_board i name)
    (\<lambda>b t. ctx_ok t \<and> trim name \<noteq> [] \<and> bd_id b = i \<and> bd_name b = name \<and> find_board t i = Some b \<and>
       db_cards t = db_cards s \<and> db_columns t = db_columns s \<and>
       (\<forall>j. j \<noteq> i \<longrightarrow> find_board t j = find_board s j))
    (\<lambda>_ t. t = s) s" (is "wp _ ?Q _ _")
proof -
  have ok: "schema_ok s" using inv by (simp add: ctx_ok_def context_inv_def)
  let ?f = "\<lambda>b. b\<lparr>br_name := name\<rparr>"
  have "wp (reject_duplicate (rename_board_row i name) (duplicate_board name))
      (\<lambda>_ t. case find_board t i of None \<Rightarrow> t = s | Some b \<Rightarrow> ?Q b t) (\<lambda>_ t. t = s) s"
    if b: "find_board s i = Some b" and nm: "trim name \<noteq> []" for b
  proof (rule wp_atomicI)
    show "atomic (reject_duplicate (rename_board_row i name) (duplicate_board name))"
      by (rule atomic_reject_duplicate) (auto simp: atomic_def rename_board_row_def Let_def)
  next
    fix n t assume "reject_duplicate (rename_board_row i name) (duplicate_board name) s = (Inr n, t)"
    then have t: "t = s\<lparr>db_boards := update_where (\<lambda>b. br_id b = i) ?f (db_boards s)\<rparr>"
      and d: "distinct (map (\<lambda>b. (br_project_id b, ascii_lower (br_name b))) (update_where (\<lambda>b. br_id b = i) ?f (db_boards s)))"
      by (auto simp: reject_duplicate_ok rename_board_row_def Let_def split: if_splits)
    have okt: "schema_ok t"
      unfolding t by (rule schema_ok_boards [OF ok _ _ d]) (simp_all add: map_update_where)
    have pr: "(\<lambda>r. (br_id r, br_project_id r)) ` set (db_boards t) = (\<lambda>r. (br_id r, br_project_id r)) ` set (db_boards s)"
      unfolding t by (simp add: image_update_where)
    have "context_inv t"
      using inv by (intro context_inv_mono [of s t] okt) (simp_all add: ctx_ok_def context_inv_def pr, simp_all add: t)
    moreover have "store_inv t" using inv by (intro boards_only_inv [of s t] okt) (simp_all add: ctx_ok_def t)
    ultimately have c: "ctx_ok t" by (simp add: ctx_ok_def)
    have l: "lookup br_id j (db_boards t) = map_option (\<lambda>r. if br_id r = i then ?f r else r) (lookup br_id j (db_boards s))" for j
      using boards_t.lookup_update [of ?f] by (simp add: t)
    have fb: "find_board t j = Option.bind (map_option (\<lambda>r. if br_id r = i then ?f r else r) (lookup br_id j (db_boards s))) (row_to_board s)" for j
      by (simp add: find_board_def l) (simp add: t row_to_board_def [abs_def])
    have "find_board t j = find_board s j" if "j \<noteq> i" for j
      using that fb [of j] find_board_def [of s j]
      by (cases "lookup br_id j (db_boards s)") (auto dest: lookup_Some)
    moreover obtain r where r: "lookup br_id i (db_boards s) = Some r" "br_id r = i" "row_to_board s r = Some b"
      using b by (auto simp: find_board_def bind_eq_Some_conv dest: lookup_Some)
    moreover have "find_board t i = Some (b\<lparr>bd_name := name\<rparr>)" "bd_id b = i"
      using r by (auto simp: fb row_to_board_def)
    ultimately show "case find_board t i of None \<Rightarrow> t = s | Some b \<Rightarrow> ?Q b t"
      using c nm by (simp add: t)
  qed simp
  then show ?thesis
    unfolding rename_board_def
    by (cases "find_board s i") (simp_all add: wp_then wp_basic wp_lookups)
qed

lemma create_project_context_wp:
  assumes inv: "ctx_ok s"
  shows "wp (create_project_context sc)
    (\<lambda>(p, b) t. lands_on (pj_id p) (bd_id b) t \<and> pj_scope_path p = Some sc \<and> bd_name b = ''main'' \<and>
       find_project_by_scope s sc = None \<and> bd_project_id b = pj_id p \<and> bd_archived_at b = None)
    (\<lambda>_ t. t = s) s" (is "wp _ ?Q _ _")
proof -
  let ?ins = "reject_duplicate (insert_project sc)
     [T ''project '', D sc, T '' already exists; select it with `board project select '', S sc, T ''`'']"
  let ?body = "bindT ?ins (\<lambda>p. bindT (insert_board p ''main'') (\<lambda>b.
         thenT (seed_todo b) (thenT (remember_context p b) (returnT (p, b)))))"
  have "wp (bindT (transaction ?body) (\<lambda>(p, b). bindT (get_project p) (\<lambda>project. bindT (get_board b) (\<lambda>board. returnT (project, board)))))
     ?Q (\<lambda>_ t. t = s) s"
  proof (rule wp_commit_then)
    fix x t assume "?body s = (Inr x, t)"
    then obtain p b s1 s2 s3 where x: "x = (p, b)" and i1: "insert_project sc s = (Inr p, s1)"
      and i2: "insert_board p ''main'' s1 = (Inr b, s2)" and sd: "seed_todo b s2 = (Inr (), s3)"
      and rm: "remember_context p b s3 = (Inr (), t)"
      by (auto simp: tx_ok reject_duplicate_ok)
    note a = insert_project_ok [OF inv i1]
    obtain bd where n: "ctx_ok s3" "board_in_project s3 p b" "db_projects s3 = db_projects s1"
        "find_board s3 b = Some bd" "bd_id bd = b" "bd_project_id bd = p" "bd_archived_at bd = None" "bd_name bd = ''main''"
      using insert_board_seed_ok [OF a(1) i2] sd by auto
    have t: "t = remembered p b s3" using rm remember_ctx(2) [OF n(1,2)] by simp
    have fb: "find_board t b = Some bd" using n(4) by (simp add: t find_board_def row_to_board_def [abs_def])
    have fp: "find_project t p = Some \<lparr>pj_id = p, pj_name = display_name (Some sc), pj_scope_path = Some sc, pj_archived_at = None\<rparr>"
      using a(8) n(3) by (simp add: t find_project_def)
    show "wp (case x of (p, b) \<Rightarrow> bindT (get_project p) (\<lambda>project. bindT (get_board b) (\<lambda>board. returnT (project, board))))
       ?Q (\<lambda>_ _. False) t"
      using lands_on_remembered [OF n(1,2)] fb fp a(7) n by (simp add: x t [symmetric] wp_bind wp_lookups wp_basic)
  qed simp
  then show ?thesis
    unfolding create_project_context_def scope_nonempty_def
    by (simp add: wp_then [of "ensureT x y" for x y] wp_basic)
qed

lemma set_project_archived_wp:
  assumes inv: "ctx_ok s"
  shows "wp (set_project_archived lower sc a)
    (\<lambda>p t. ctx_ok t \<and> (pj_archived_at p \<noteq> None) = a \<and> find_project t (pj_id p) = Some p \<and>
       db_boards t = db_boards s \<and> db_cards t = db_cards s \<and> db_runs t = db_runs s \<and>
       (\<exists>old. find_project_by_scope s sc = Some old \<and> pj_id old = pj_id p \<and>
          ((pj_archived_at old = None \<and> a) \<longrightarrow>
             pj_scope_path old \<noteq> None \<and> active_boards s (pj_id p) = [] \<and> \<not> project_has_open_run s (pj_id p))))
    (\<lambda>_ t. t = s) s" (is "wp _ ?Q _ _")
proof (cases "find_project_by_scope s sc")
  case None
  then show ?thesis by (simp add: set_project_archived_def require_project_by_scope_def Let_def tx_simps)
next
  case (Some old)
  have ok: "schema_ok s" using inv by (simp add: ctx_ok_def context_inv_def)
  obtain r where r: "r \<in> set (db_projects s)" "old = row_to_project r"
    using Some by (auto simp: find_project_by_scope_def dest: find_SomeD)
  let ?i = "pj_id old"
  have lr: "lookup pr_id ?i (db_projects s) = Some r"
    using r ok lookup_eq [of pr_id "db_projects s"] by (simp add: schema_ok_def row_to_project_def)
  have fp: "find_project s ?i = Some old" using lr r(2) by (simp add: find_project_def)
  show ?thesis
  proof (cases "(pj_archived_at old \<noteq> None) = a")
    case True
    then show ?thesis
      using Some inv fp by (auto simp: set_project_archived_def require_project_by_scope_def Let_def tx_simps)
  next
    case False
    let ?f = "\<lambda>p. p\<lparr>pr_archived_at := if a then Some (db_now s) else None\<rparr>"
    let ?s1 = "s\<lparr>db_projects := update_where (\<lambda>p. pr_id p = ?i) ?f (db_projects s)\<rparr>"
    let ?rest = "if a then bindT (readT db_selection) (\<lambda>sel. if sel = Some ?i then select_fallback_project lower else returnT ())
         else returnT ()"
    let ?body = "bindT (readT (\<lambda>s. (length (active_boards s ?i), project_has_open_run s ?i))) (\<lambda>(unarchived, has_open).
        thenT (reject_with project_archive_message
            (decide_project_archive (pj_scope_path old = None) (pj_archived_at old \<noteq> None) unarchived has_open a))
        (thenT (set_project_archived_at ?i a) ?rest))"
    have m: "map h (db_projects ?s1) = map h (db_projects s)" if "\<And>p. h (?f p) = h p" for h :: "project_row \<Rightarrow> 'x"
      using that by (simp add: map_update_where)
    have ids: "pr_id ` set (db_projects ?s1) = pr_id ` set (db_projects s)"
      using arg_cong [OF m [of pr_id], of set] by (simp only: set_map) simp
    have ok1: "schema_ok ?s1"
      using ok m [of pr_id] ids by (simp add: schema_ok_def card_fk_def run_fk_def column_fk_def)
    have c1: "context_inv ?s1"
      using inv m [of pr_scope_path] ids by (intro context_inv_mono [of s ?s1] ok1) (simp_all add: ctx_ok_def context_inv_def)
    have "store_inv ?s1" using inv by (intro boards_only_inv [of s ?s1] ok1) (simp_all add: ctx_ok_def)
    with c1 have i1: "ctx_ok ?s1" by (simp add: ctx_ok_def)
    have rest: "\<exists>t. ?rest ?s1 = (Inr (), t) \<and> ctx_ok t \<and> same_work ?s1 t"
      using select_fallback_run [OF i1, of lower] i1
      by (auto simp: bindT_def readT_def returnT_def moved_on_def same_work_def)
    have *: "wp (bindT (transaction ?body) (\<lambda>_. get_project ?i)) ?Q (\<lambda>_ t. t = s) s"
    proof (rule wp_commit_then)
      fix x t assume b: "?body s = (Inr x, t)"
      have allow: "a \<longrightarrow> pj_scope_path old \<noteq> None \<and> active_boards s ?i = [] \<and> \<not> project_has_open_run s ?i"
        using b False by (auto simp: tx_ok reject_with_ok decide_project_archive_def split: if_splits sum.splits)
      have "?rest ?s1 = (Inr x, t)"
        using b by (auto simp: tx_ok set_project_archived_at_def reject_with_ok)
      then have t: "ctx_ok t \<and> same_work ?s1 t" using rest by auto
      have "lookup pr_id ?i (db_projects ?s1) = Some (?f r)"
        using projects_t.lookup_update [of ?f ?i "\<lambda>p. pr_id p = ?i" "db_projects s"] lr r by (simp add: row_to_project_def)
      then have fp: "find_project t ?i = Some (row_to_project (?f r))"
        using t by (simp add: find_project_def same_work_def)
      have rp: "pj_id (row_to_project (?f r)) = ?i" "(pj_archived_at (row_to_project (?f r)) \<noteq> None) = a"
        by (simp_all add: r(2) row_to_project_def)
      show "wp (get_project ?i) ?Q (\<lambda>_ _. False) t"
        using fp rp t allow Some False by (auto simp: wp_lookups same_work_def)
    qed simp
    show ?thesis
      unfolding set_project_archived_def Let_def thenT_def [of "transaction m" for m]
      by (simp only: wp_bind [of "require x y" for x y] require_project_by_scope_def wp_lookups Some
          option.case if_not_P [OF False]) (rule * [unfolded Some])
  qed
qed

end
