(* ===== verification/Sample_Store.thy ===== *)
theory Sample_Store
  imports Store_Context
begin

text \<open>
  Executable forms of the store invariants and one concrete store that satisfies all of them: the
  Global project with its board \<open>main\<close>, a scoped project with two boards, four columns, four
  cards, a queued, a running and two finished runs, and comments with their history. The examples
  that go with the properties start from it.
\<close>

section \<open>Executable invariants\<close>

lemma compact_cards_code:
  "compact_cards s \<longleftrightarrow> list_all (\<lambda>c. compact_column s (cd_column_id c)) (db_cards s)"
proof -
  have empty: "compact_column s col" if "col \<notin> cd_column_id ` set (db_cards s)" for col
  proof -
    have "filter (\<lambda>c. cd_column_id c = col) (db_cards s) = []" using that by (auto simp: filter_empty_conv)
    then show ?thesis by (simp add: compact_column_def column_cards_def lane_def)
  qed
  show ?thesis unfolding compact_cards_def list_all_iff
    by (metis empty imageE)
qed

lemma compact_boards_code:
  "(\<forall>b. compact_board s b) \<longleftrightarrow> list_all (\<lambda>k. compact_board s (col_board_id k)) (db_columns s)"
proof -
  have empty: "compact_board s b" if "b \<notin> col_board_id ` set (db_columns s)" for b
  proof -
    have "filter (\<lambda>k. col_board_id k = b) (db_columns s) = []" using that by (auto simp: filter_empty_conv)
    then show ?thesis by (simp add: compact_board_def board_columns_def lane_def)
  qed
  show ?thesis unfolding list_all_iff
    by (metis empty imageE)
qed

lemma newest_code:
  "newest m hs \<longleftrightarrow>
     (let trail = filter (\<lambda>h. ch_comment_id h = cm_id m) hs; h = last trail
      in trail \<noteq> [] \<and> ch_body h = cm_body m \<and> ch_author h = cm_author m \<and> ch_deleted_at h = cm_deleted_at m \<and>
         ch_card_id h = cm_card_id m \<and>
         list_all (\<lambda>a. ch_id a < ch_id h \<and> ch_author a = cm_author m \<and> ch_deleted_at a = None) (butlast trail))"
  (is "_ = ?R")
proof
  assume "newest m hs" then show ?R by (auto simp: newest_def Let_def list_all_iff)
next
  assume r: ?R
  let ?t = "filter (\<lambda>h. ch_comment_id h = cm_id m) hs"
  have "?t = butlast ?t @ [last ?t]" using r by (simp add: Let_def)
  then show "newest m hs" unfolding newest_def using r
    by (intro exI [of _ "butlast ?t"] exI [of _ "last ?t"]) (simp add: Let_def list_all_iff)
qed

lemma local_target_code:
  "local_target (column_boards s) b v \<longleftrightarrow>
     (case v of None \<Rightarrow> True | Some j \<Rightarrow> list_ex (\<lambda>k. col_id k = j \<and> col_board_id k = b) (db_columns s))"
  by (cases v) (auto simp: local_target_def column_boards_def list_ex_iff)

lemma places_code:
  "card_places s \<subseteq> column_boards s \<longleftrightarrow>
     list_all (\<lambda>c. list_ex (\<lambda>k. col_id k = cd_column_id c \<and> col_board_id k = cd_board_id c) (db_columns s)) (db_cards s)"
  unfolding card_places_def column_boards_def list_all_iff list_ex_iff image_subset_iff
  by (simp add: image_iff eq_commute [of "cd_column_id _"] eq_commute [of "cd_board_id _"])

lemma board_recents_code:
  assumes "list_all (\<lambda>(p, _, _). filter (\<lambda>r. fst r = p) rows = map (\<lambda>(i, r). (p, i, r)) (ranked 0 (ids p)) \<and>
      valid_recents (ids p) \<and> list_all (board_in_project s p) (ids p)) rows"
  shows "\<exists>js. filter (\<lambda>r. fst r = p) rows = map (\<lambda>(i, r). (p, i, r)) (ranked 0 js) \<and> valid_recents js \<and>
      (\<forall>i \<in> set js. board_in_project s p i)"
proof (cases "p \<in> fst ` set rows")
  case True
  then show ?thesis using assms by (intro exI [of _ "ids p"]) (auto simp: list_all_iff)
next
  case False
  then have "filter (\<lambda>r. fst r = p) rows = []" by (auto simp: filter_empty_conv)
  then show ?thesis by (intro exI [of _ "[]"]) (simp add: ranked_def valid_recents_def)
qed

text \<open>An operation that returns a result satisfies its postcondition there.\<close>

lemma wp_succeeds: "wp m Q E s \<Longrightarrow> \<not> isl (fst (m s)) \<Longrightarrow> \<exists>x t. m s = (Inr x, t) \<and> Q x t"
  by (cases "m s"; cases "fst (m s)") (auto simp: wp_def)

lemma wp_fails: "wp m Q E s \<Longrightarrow> isl (fst (m s)) \<Longrightarrow> \<exists>e t. m s = (Inl e, t) \<and> E e t"
  by (cases "m s"; cases "fst (m s)") (auto simp: wp_def)

section \<open>A concrete store\<close>

definition sample_labels :: card_labels where
  "sample_labels = \<lparr>lb_session = [], lb_effort = [], lb_permission = [], lb_model = []\<rparr>"

definition sample_card :: "int \<Rightarrow> int \<Rightarrow> int \<Rightarrow> int \<Rightarrow> card_status \<Rightarrow> card" where
  "sample_card i b col pos st =
     \<lparr>cd_id = i, cd_board_id = b, cd_column_id = col, cd_position = pos, cd_title = ''card'', cd_description = [],
      cd_harness = ''pi'', cd_model = None, cd_effort = None, cd_permission_mode = None, cd_session = None,
      cd_space_kind = Workspace, cd_space_ref = Some ''w1'', cd_space_cwd = None, cd_status = st,
      cd_awaiting_reason = None, cd_session_id = None, cd_created_at = ''t0'', cd_updated_at = ''t0'',
      cd_archived_at = None, cd_labels = sample_labels\<rparr>"

definition sample_column :: "int \<Rightarrow> int \<Rightarrow> string \<Rightarrow> int \<Rightarrow> int option \<Rightarrow> column" where
  "sample_column i b name pos success =
     \<lparr>col_id = i, col_board_id = b, col_name = name, col_position = pos, col_system_prompt = None,
      col_trigger = Auto, col_on_success = success, col_on_fail = None, col_fresh_session = False,
      col_harness_override = None, col_model_override = None, col_effort_override = None,
      col_permission_override = None, col_timeout_minutes = None\<rparr>"

definition sample_run :: "int \<Rightarrow> int \<Rightarrow> int \<Rightarrow> string option \<Rightarrow> string option \<Rightarrow> run" where
  "sample_run i c col started ended =
     \<lparr>rn_id = i, rn_card_id = c, rn_column_id = col, rn_harness = ''pi'', rn_argv_json = ''[]'',
      rn_prompt_snapshot = ''do it'', rn_system_prompt_snapshot = None, rn_launch_spec = None,
      rn_herdr_workspace_id = None, rn_herdr_pane_id = None, rn_herdr_anchor_pane_id = None,
      rn_session_id = Some ''u1'', rn_session = None, rn_started_at = started,
      rn_timeout_deadline_at_ms = (if started = None then None else Some 9000),
      rn_timeout_paused_at_ms = None, rn_ended_at = ended,
      rn_outcome = (if ended = None then None else Some OutcomeOk), rn_result_summary = None, rn_log_path = None\<rparr>"

definition sample_db :: db where
  "sample_db =
     \<lparr>db_projects = [\<lparr>pr_id = 1, pr_scope_path = None, pr_archived_at = None\<rparr>,
                    \<lparr>pr_id = 2, pr_scope_path = Some ''/work/app'', pr_archived_at = None\<rparr>],
      db_boards = [\<lparr>br_id = 1, br_project_id = 1, br_name = ''main'', br_archived_at = None\<rparr>,
                  \<lparr>br_id = 2, br_project_id = 2, br_name = ''main'', br_archived_at = None\<rparr>,
                  \<lparr>br_id = 3, br_project_id = 2, br_name = ''next'', br_archived_at = None\<rparr>],
      db_columns = [sample_column 1 1 ''Todo'' 0 None, sample_column 2 1 ''Doing'' 1 (Some 3),
                   sample_column 3 1 ''Done'' 2 None, sample_column 4 2 ''Todo'' 0 None],
      db_cards = [sample_card 1 1 1 0 Idle, sample_card 2 1 1 1 Queued, sample_card 3 1 2 0 Running,
                 sample_card 4 1 1 2 Done],
      db_comments = [\<lparr>cm_id = 1, cm_card_id = 3, cm_author = ''user'', cm_body = ''hi'', cm_created_at = ''t0'', cm_deleted_at = None\<rparr>],
      db_history = [\<lparr>ch_id = 1, ch_comment_id = 1, ch_card_id = 3, ch_author = ''user'', ch_body = ''hello'', ch_created_at = ''t0'', ch_deleted_at = None\<rparr>,
                   \<lparr>ch_id = 2, ch_comment_id = 1, ch_card_id = 3, ch_author = ''user'', ch_body = ''hi'', ch_created_at = ''t0'', ch_deleted_at = None\<rparr>],
      db_runs = [sample_run 1 3 1 (Some ''t0'') (Some ''t1''), sample_run 2 2 1 None None, sample_run 3 3 2 (Some ''t1'') None],
      db_selection = Some 2,
      db_board_selection = [(2, 3)],
      db_project_recents = [(2, 0), (1, 1)],
      db_board_recents = [(2, 3, 0), (2, 2, 1), (1, 1, 0)],
      db_now = ''t2'',
      db_fault = (\<lambda>_. None)\<rparr>"

lemmas sample_rows = sample_db_def sample_card_def sample_column_def sample_run_def sample_labels_def

definition sample_next :: enqueue_run where
  "sample_next =
     \<lparr>er_card_id = 3, er_column_id = 3, er_harness = ''pi'', er_argv_json = ''[]'', er_prompt_snapshot = ''go'',
      er_system_prompt_snapshot = None, er_launch_spec = None, er_session_id = None, er_session = None\<rparr>"

definition sample_finish :: finalize_run where
  \<comment> \<open>run 3 succeeds, its card moves on to column 3 and is queued there\<close>
  "sample_finish =
     \<lparr>fz_run_id = 3, fz_outcome = OutcomeOk, fz_summary = Some ''done'', fz_comments = [(''system'', ''ok'')],
      fz_target_column_id = Some 3, fz_final_status = Idle, fz_final_awaiting_reason = None,
      fz_next = Some sample_next\<rparr>"

definition sample_new_card :: card_create_params where
  "sample_new_card =
     \<lparr>kc_title = ''new'', kc_board_id = Some 1, kc_description = None, kc_column_id = Some 1, kc_harness = None,
      kc_model = None, kc_effort = None, kc_permission_mode = None, kc_session = None, kc_space_kind = None,
      kc_space_ref = Some ''w1'', kc_space_cwd = None, kc_position = Some 0\<rparr>"

definition sample_new_run :: "int \<Rightarrow> int \<Rightarrow> enqueue_run" where
  "sample_new_run c col = sample_next\<lparr>er_card_id := c, er_column_id := col\<rparr>"

definition sample_new_column :: "string \<Rightarrow> int option \<Rightarrow> int option \<Rightarrow> column_create_params" where
  "sample_new_column name pos success =
     \<lparr>cc_name = name, cc_board_id = Some 1, cc_position = pos, cc_system_prompt = None, cc_trigger = Some Auto,
      cc_on_success = success, cc_on_fail = None, cc_fresh_session = None, cc_harness_override = None,
      cc_model_override = None, cc_effort_override = None, cc_permission_override = None, cc_timeout_minutes = None\<rparr>"

definition sample_column_edit :: column_update_params where
  "sample_column_edit =
     \<lparr>cu_id = 2, cu_name = Some ''Work'', cu_position = Some 0, cu_system_prompt = Unchanged, cu_trigger = None,
      cu_on_success = Clear, cu_on_fail = Set 3, cu_fresh_session = None, cu_harness_override = Unchanged,
      cu_model_override = Unchanged, cu_effort_override = Unchanged, cu_permission_override = Unchanged,
      cu_timeout_minutes = Set 5\<rparr>"

lemma sample_schema: "schema_ok sample_db"
  by code_simp

lemma sample_board_inv: "board_inv sample_db"
  unfolding board_inv_def compact_cards_code places_code
  by (intro conjI sample_schema) code_simp+

lemma sample_store_inv: "store_inv sample_db"
  unfolding store_inv_def compact_boards_code targets_local_def local_target_code list_all_iff [symmetric]
  by (intro conjI sample_board_inv) code_simp+

lemma sample_context_inv: "context_inv sample_db"
proof -
  let ?ids = "\<lambda>p :: int. if p = 2 then [3, 2] else [1] :: int list"
  have "list_all (\<lambda>(p, _, _). filter (\<lambda>r. fst r = p) (db_board_recents sample_db) =
      map (\<lambda>(i, r). (p, i, r)) (ranked 0 (?ids p)) \<and> valid_recents (?ids p) \<and>
      list_all (board_in_project sample_db p) (?ids p)) (db_board_recents sample_db)"
    by code_simp
  note boards = board_recents_code [OF this]
  have projects: "db_project_recents sample_db = ranked 0 [2, 1]" "valid_recents [2, 1]"
    "list_all (project_exists sample_db) [2, 1]"
    by code_simp+
  have selection: "db_selection sample_db = Some 2" "project_exists sample_db 2"
    "distinct (map fst (db_board_selection sample_db))" "distinct (map pr_scope_path (db_projects sample_db))"
    "list_all (\<lambda>(p, b). board_in_project sample_db p b) (db_board_selection sample_db)"
    by code_simp+
  show ?thesis
    unfolding context_inv_def
    using sample_schema selection boards projects by (auto simp: list_all_iff)
qed

lemma sample_ctx: "ctx_ok sample_db"
  by (simp add: ctx_ok_def sample_store_inv sample_context_inv)

lemma sample_audit: "audit_inv sample_db"
  unfolding audit_inv_def newest_code list_all_iff [symmetric]
  by (intro conjI sample_schema) code_simp+

end
