(* ===== verification/Store_Properties.thy ===== *)
theory Store_Properties
  imports Sample_Store
begin

text \<open>
  The properties of the store: one theorem per operation or group of operations, in the form of a
  weakest precondition. \<open>wp m Q E s\<close> says that \<open>m\<close> run from \<open>s\<close> either returns a result and a
  store in \<open>Q\<close>, or an error and a store in \<open>E\<close>; the second is the unchanged store in all but one
  of them. The examples run the operations on \<open>sample_db\<close>.
\<close>

section \<open>Runs\<close>

text \<open>
  C7: \<open>finalize_run_uow\<close> refines the abstract \<open>finalize_spec\<close>. When it succeeds, the named run
  was open and is now closed with the given outcome and summary, the given comments are appended,
  the card is at the end of the target column with both columns densely numbered, its status is the
  planned one, and when a next run was planned that run is the one open run of the card, queued.
  When it fails, from a foreign target column, an injected fault or any other cause, the store is
  exactly what it was.
\<close>

theorem finalize_run_refines:
  assumes "board_inv s"
  shows "wp (finalize_run_uow p) (finalize_spec p s) (\<lambda>_ t. t = s) s"
  by (rule finalize_run_wp [OF assms])

theorem finalize_run_refines_witness:
  "\<exists>e t. finalize_run_uow sample_finish sample_db = (Inr e, t) \<and> finalize_spec sample_finish sample_db e t"
  by (rule wp_succeeds [OF finalize_run_refines [OF sample_board_inv]]) code_simp

text \<open>
  C8: \<open>promote_run_with_anchor_uow\<close> starts exactly a queued run: on success the run was queued, it
  is now started and open with the given deadline and pane, its card is running, and a captured
  session id is on the run and on the card; no card moves and no other run changes. On failure
  nothing is written, so the run and the card never disagree about the session.
\<close>

theorem promote_run_starts:
  assumes "board_inv s"
  shows "wp (promote_run_with_anchor i w pn an dl cap)
    (\<lambda>r t. can_promote s i \<and> board_inv t \<and> order_of t = order_of s \<and> find_run t i = Some r \<and>
       rn_started_at r = Some (db_now s) \<and> open_run r \<and> rn_timeout_deadline_at_ms r = dl \<and>
       rn_herdr_pane_id r = pn \<and> (cap \<noteq> None \<longrightarrow> rn_session_id r = cap) \<and>
       db_runs t = update_where (\<lambda>r. rn_id r = i) (promoted s w pn an dl cap) (db_runs s) \<and>
       (\<exists>c. find_card t (rn_card_id r) = Some c \<and> cd_status c = Running \<and> (cap \<noteq> None \<longrightarrow> cd_session_id c = cap)))
    (\<lambda>_ t. t = s) s"
  by (rule promote_run_wp [OF assms])

theorem promote_run_starts_witness:
  "\<exists>r t. promote_run_with_anchor 2 (Some ''w1'') (Some ''p7'') None (Some 9000) (Some ''u9'') sample_db = (Inr r, t) \<and>
     rn_session_id r = Some ''u9'' \<and> (\<exists>c. find_card t (rn_card_id r) = Some c \<and> cd_session_id c = Some ''u9'')"
proof -
  have "\<not> isl (fst (promote_run_with_anchor 2 (Some ''w1'') (Some ''p7'') None (Some 9000) (Some ''u9'') sample_db))"
    by code_simp
  from wp_succeeds [OF promote_run_starts [OF sample_board_inv] this] show ?thesis by blast
qed

text \<open>
  C40: a queued run can always be started: when no fault is injected, promoting a run that is neither
  started nor ended succeeds, whatever the pane, the workspace, the deadline or the captured id.
\<close>

theorem queued_run_can_start:
  assumes "board_inv s" and "can_promote s i"
    and "db_fault s PromoteAfterRunUpdate = None" and "db_fault s CaptureAfterRunUpdate = None"
  shows "\<exists>r t. promote_run_with_anchor i w pn an dl cap s = (Inr r, t)"
  by (rule promote_run_progress [OF assms])

theorem queued_run_can_start_witness:
  "\<exists>r t. promote_run_with_anchor 2 None None None None None sample_db = (Inr r, t)"
proof -
  have "\<exists>q. find_run sample_db 2 = Some q \<and> queued_open q"
    by (intro exI [of _ "sample_run 2 2 1 None None"]) code_simp
  then have "can_promote sample_db 2" unfolding can_promote_def .
  then show ?thesis
    by (rule queued_run_can_start [OF sample_board_inv]) (simp_all add: sample_db_def)
qed

text \<open>
  C9: \<open>enqueue_run_uow\<close> queues a run only for a card without an open run, adds exactly that run,
  and leaves the order of the cards alone; otherwise nothing is written. The card is queued and the
  new run is not started.
\<close>

theorem enqueue_run_single:
  assumes "board_inv s"
  shows "wp (Store_Runs.enqueue_run p)
    (\<lambda>r t. board_inv t \<and> order_of t = order_of s \<and> find_open_run s (er_card_id p) = None \<and>
       (\<exists>c. queued_on (er_card_id p) (er_column_id p) (c, r) t) \<and>
       db_runs t = insert_row rn_id set_rn_id (queued_run (er_card_id p) p) (db_runs s))
    (\<lambda>_ t. t = s) s"
  by (rule enqueue_run_wp [OF assms])

theorem enqueue_run_single_witness:
  "(\<exists>r t. Store_Runs.enqueue_run (sample_new_run 1 2) sample_db = (Inr r, t) \<and>
      (\<exists>c. queued_on 1 2 (c, r) t)) \<and>
   (\<exists>e. Store_Runs.enqueue_run (sample_new_run 2 1) sample_db = (Inl e, sample_db))"
proof
  have ids: "er_card_id (sample_new_run c k) = c" "er_column_id (sample_new_run c k) = k" for c k :: int
    by (simp_all add: sample_new_run_def)
  have "\<not> isl (fst (Store_Runs.enqueue_run (sample_new_run 1 2) sample_db))" by code_simp
  from wp_succeeds [OF enqueue_run_single [OF sample_board_inv] this]
  show "\<exists>r t. Store_Runs.enqueue_run (sample_new_run 1 2) sample_db = (Inr r, t) \<and> (\<exists>c. queued_on 1 2 (c, r) t)"
    by (auto simp: ids)
  have "isl (fst (Store_Runs.enqueue_run (sample_new_run 2 1) sample_db))" by code_simp
  from wp_fails [OF enqueue_run_single [OF sample_board_inv] this]
  show "\<exists>e. Store_Runs.enqueue_run (sample_new_run 2 1) sample_db = (Inl e, sample_db)" by blast
qed

text \<open>
  \<open>promote_captured_session_uow\<close> writes a captured session id to an open run and to its card,
  both or neither: after success the run is still open and the two agree, after failure (a blank
  id, a run that has ended, an injected fault) nothing changed.
\<close>

theorem captured_session_agrees:
  assumes "board_inv s"
  shows "wp (promote_captured_session i sid)
    (\<lambda>r t. board_inv t \<and> order_of t = order_of s \<and> find_run t i = Some r \<and> open_run r \<and>
       rn_session_id r = Some sid \<and>
       db_runs t = update_where (\<lambda>r. rn_id r = i) (\<lambda>r. r\<lparr>rn_session_id := Some sid\<rparr>) (db_runs s) \<and>
       (\<exists>c. find_card t (rn_card_id r) = Some c \<and> cd_session_id c = Some sid))
    (\<lambda>_ t. t = s) s"
  by (rule promote_captured_session_wp [OF assms])

theorem captured_session_agrees_witness:
  "(\<exists>r t. promote_captured_session 3 ''u5'' sample_db = (Inr r, t) \<and> rn_session_id r = Some ''u5'') \<and>
   (\<exists>e. promote_captured_session 1 ''u5'' sample_db = (Inl e, sample_db)) \<and>
   (\<exists>e. promote_captured_session 3 '' '' sample_db = (Inl e, sample_db))"
proof (intro conjI)
  note law = captured_session_agrees [OF sample_board_inv]
  have "\<not> isl (fst (promote_captured_session 3 ''u5'' sample_db))" by code_simp
  from wp_succeeds [OF law this]
  show "\<exists>r t. promote_captured_session 3 ''u5'' sample_db = (Inr r, t) \<and> rn_session_id r = Some ''u5''" by blast
  have "isl (fst (promote_captured_session 1 ''u5'' sample_db))" by code_simp
  from wp_fails [OF law this] show "\<exists>e. promote_captured_session 1 ''u5'' sample_db = (Inl e, sample_db)" by blast
  have "isl (fst (promote_captured_session 3 '' '' sample_db))" by code_simp
  from wp_fails [OF law this] show "\<exists>e. promote_captured_session 3 '' '' sample_db = (Inl e, sample_db)" by blast
qed

text \<open>
  the time a human takes to review does not count. Pausing the timeout of a running card and
  resuming it later leaves the run with the same remaining time as when it was paused, as long as
  the clock did not step back and the new deadline is a 64-bit value.
\<close>

theorem review_time_is_free:
  assumes "schema_ok s" and "r \<in> set (db_runs s)" "active_open r" "rn_card_id r = i"
    and "rn_timeout_paused_at_ms r = None" "rn_timeout_deadline_at_ms r = Some d"
    and "pause_run_timeout i re now s = (Inr c, t)" and "resume_run_timeout i st later t = (Inr c', u)"
    and "now \<le> later" "in_i64 (later - now)" "in_i64 (d + (later - now))"
  shows "\<exists>r' \<in> set (db_runs u). rn_id r' = rn_id r \<and> active_open r' \<and>
    rn_timeout_paused_at_ms r' = None \<and> remaining_ms r' later = remaining_ms r now"
  by (rule pause_resume_remaining [OF assms])

theorem review_time_is_free_witness:
  "\<exists>c t c' u r'. pause_run_timeout 3 AgentDone 4000 sample_db = (Inr c, t) \<and>
     resume_run_timeout 3 Running 7000 t = (Inr c', u) \<and> r' \<in> set (db_runs u) \<and>
     rn_id r' = 3 \<and> remaining_ms r' 7000 = Some 5000"
proof -
  let ?r = "sample_run 3 3 2 (Some ''t1'') None"
  have r: "?r \<in> set (db_runs sample_db)" "active_open ?r" "rn_card_id ?r = 3" "rn_timeout_paused_at_ms ?r = None"
    "rn_timeout_deadline_at_ms ?r = Some 9000" "remaining_ms ?r 4000 = Some 5000" "rn_id ?r = 3"
    by (simp_all add: sample_db_def sample_run_def active_open_def open_run_def remaining_ms_def)
  have "\<not> isl (fst (bindT (pause_run_timeout 3 AgentDone 4000) (\<lambda>c.
      bindT (resume_run_timeout 3 Running 7000) (\<lambda>c'. returnT (c, c'))) sample_db))" by code_simp
  then obtain c t c' u where p: "pause_run_timeout 3 AgentDone 4000 sample_db = (Inr c, t)"
    and q: "resume_run_timeout 3 Running 7000 t = (Inr c', u)"
    by (auto simp: bindT_def returnT_def split: prod.splits sum.splits)
  have "in_i64 (7000 - 4000)" "in_i64 (9000 + (7000 - 4000))" by code_simp+
  from review_time_is_free [OF sample_schema r(1-5) p q _ this] p q r(6,7) show ?thesis by fastforce
qed

section \<open>Cards\<close>

text \<open>
  C10: \<open>move_card\<close> succeeds exactly when the card and the target column exist on one board; then the
  order of the target column is the old one with the card at the clamped position, every other
  column only loses the card, and all positions are dense again. Otherwise nothing changes.
\<close>

theorem move_card_order:
  assumes "board_inv s"
  shows "wp (move_card i col pos)
    (\<lambda>c t. move_allowed s i col \<and> board_inv t \<and> order_of t = place_order i col pos (order_of s) \<and>
       db_runs t = db_runs s \<and> db_columns t = db_columns s \<and> db_boards t = db_boards s \<and>
       find_card t i = Some c)
    (\<lambda>_ t. t = s \<and> \<not> move_allowed s i col) s"
  by (rule move_card_wp [OF assms])

theorem move_card_order_witness:
  "\<exists>c t. move_card 4 1 (Some (- 7)) sample_db = (Inr c, t) \<and> order_of t 1 = [4, 1, 2]"
proof -
  have "\<not> isl (fst (move_card 4 1 (Some (- 7)) sample_db))" by code_simp
  moreover have "place_order 4 1 (Some (- 7)) (order_of sample_db) 1 = [4, 1, 2]" by code_simp
  ultimately show ?thesis using wp_succeeds [OF move_card_order [OF sample_board_inv]] by fastforce
qed

text \<open>
  \<open>move_card_and_enqueue_uow\<close> and \<open>transfer_card_and_enqueue_uow\<close> move a card and queue its run
  as one step: either the card is placed, both columns are dense and the one new open run of the
  card sits in the target column, or nothing at all changed.
\<close>

theorem move_and_queue_together:
  assumes "board_inv s"
  shows "wp (move_card_and_enqueue i col pos run)
      (\<lambda>r t. board_inv t \<and> order_of t = place_order i col pos (order_of s) \<and> queued_on i col r t \<and>
         db_runs t = insert_row rn_id set_rn_id (queued_run i run) (db_runs s)) (\<lambda>_ t. t = s) s \<and>
    wp (transfer_card_and_enqueue i b col pos run)
      (\<lambda>r t. board_inv t \<and> order_of t = place_order i col pos (order_of s) \<and> queued_on i col r t \<and>
         db_runs t = insert_row rn_id set_rn_id (queued_run i run) (db_runs s)) (\<lambda>_ t. t = s) s"
  by (intro conjI move_card_and_enqueue_wp transfer_card_and_enqueue_wp assms)

theorem move_and_queue_together_witness:
  "(\<exists>r t. move_card_and_enqueue 1 2 (Some 0) (sample_new_run 1 2) sample_db = (Inr r, t) \<and> queued_on 1 2 r t) \<and>
   (\<exists>r t. transfer_card_and_enqueue 1 2 4 None (sample_new_run 1 4) sample_db = (Inr r, t) \<and> queued_on 1 4 r t)"
proof (intro conjI)
  note law = move_and_queue_together [OF sample_board_inv]
  have "\<not> isl (fst (move_card_and_enqueue 1 2 (Some 0) (sample_new_run 1 2) sample_db))" by code_simp
  from wp_succeeds [OF law [THEN conjunct1] this]
  show "\<exists>r t. move_card_and_enqueue 1 2 (Some 0) (sample_new_run 1 2) sample_db = (Inr r, t) \<and> queued_on 1 2 r t" by blast
  have "\<not> isl (fst (transfer_card_and_enqueue 1 2 4 None (sample_new_run 1 4) sample_db))" by code_simp
  from wp_succeeds [OF law [THEN conjunct2] this]
  show "\<exists>r t. transfer_card_and_enqueue 1 2 4 None (sample_new_run 1 4) sample_db = (Inr r, t) \<and> queued_on 1 4 r t" by blast
qed

text \<open>
  \<open>create_card_and_enqueue_uow\<close> creates a card under a fresh id at the requested place with its
  run queued in that column, or leaves the store as it was.
\<close>

theorem create_and_queue_together:
  assumes "board_inv s"
  shows "wp (create_card_and_enqueue p run)
    (\<lambda>r t. board_inv t \<and> cd_id (fst r) \<notin> cd_id ` set (db_cards s) \<and>
       queued_on (cd_id (fst r)) (er_column_id run) r t \<and>
       order_of t = place_order (cd_id (fst r)) (er_column_id run) (kc_position p) (order_of s) \<and>
       db_runs t = insert_row rn_id set_rn_id (queued_run (cd_id (fst r)) run) (db_runs s))
    (\<lambda>_ t. t = s) s"
  by (rule create_card_and_enqueue_wp [OF assms])

theorem create_and_queue_together_witness:
  "\<exists>r t. create_card_and_enqueue sample_new_card (sample_new_run 0 1) sample_db = (Inr r, t) \<and>
     queued_on (cd_id (fst r)) 1 r t"
proof -
  have "\<not> isl (fst (create_card_and_enqueue sample_new_card (sample_new_run 0 1) sample_db))" by code_simp
  moreover have "er_column_id (sample_new_run 0 1) = 1" by (simp add: sample_new_run_def)
  ultimately show ?thesis using wp_succeeds [OF create_and_queue_together [OF sample_board_inv]] by fastforce
qed

text \<open>
  \<open>duplicate_card\<close> puts a copy under a fresh id directly below the original and queues nothing;
  it fails only for a card that does not exist.
\<close>

theorem duplicate_card_below:
  assumes "board_inv s"
  shows "wp (duplicate_card i)
    (\<lambda>c t. \<exists>old. find_card s i = Some old \<and> board_inv t \<and> cd_id c \<notin> cd_id ` set (db_cards s) \<and>
       find_card t (cd_id c) = Some c \<and>
       order_of t = place_order (cd_id c) (cd_column_id old) (Some (cd_position old + 1)) (order_of s) \<and>
       db_runs t = db_runs s)
    (\<lambda>_ t. t = s \<and> find_card s i = None) s"
  by (rule duplicate_card_wp [OF assms])

theorem duplicate_card_below_witness:
  "\<exists>c t. duplicate_card 2 sample_db = (Inr c, t) \<and> db_runs t = db_runs sample_db"
proof -
  have "\<not> isl (fst (duplicate_card 2 sample_db))" by code_simp
  from wp_succeeds [OF duplicate_card_below [OF sample_board_inv] this] show ?thesis by blast
qed

text \<open>
  \<open>delete_card\<close> removes the card with its runs and comments, and only those, closes the gap in
  its column, and fails only for a card that does not exist.
\<close>

theorem delete_card_cascades:
  assumes "board_inv s"
  shows "wp (delete_card i)
    (\<lambda>_ t. find_card s i \<noteq> None \<and> board_inv t \<and> i \<notin> cd_id ` set (db_cards t) \<and>
       (\<forall>col. order_of t col = filter (\<lambda>j. j \<noteq> i) (order_of s col)) \<and>
       db_runs t = filter (\<lambda>r. rn_card_id r \<noteq> i) (db_runs s) \<and>
       db_comments t = filter (\<lambda>m. cm_card_id m \<noteq> i) (db_comments s))
    (\<lambda>_ t. t = s \<and> find_card s i = None) s"
  by (rule delete_card_wp [OF assms])

theorem delete_card_cascades_witness:
  "\<exists>t. delete_card 1 sample_db = (Inr (), t) \<and> (\<forall>col. order_of t col = filter (\<lambda>j. j \<noteq> 1) (order_of sample_db col))"
proof -
  have "\<not> isl (fst (delete_card 1 sample_db))" by code_simp
  from wp_succeeds [OF delete_card_cascades [OF sample_board_inv] this] show ?thesis by auto
qed

end
