(* ===== verification/Board_Properties.thy ===== *)
theory Board_Properties
  imports Sample_Store
begin

text \<open>
  The properties of columns, templates, comments, boards, projects and the persistent context, with
  examples on \<open>sample_db\<close>. The form is that of \<open>Store_Properties\<close>.
\<close>

section \<open>Columns\<close>

text \<open>
  C18: \<open>delete_column\<close> removes exactly the column: its cards are appended, in their order, to the
  destination, the other columns of the board keep their order with dense positions, no transition
  leads to the deleted column any more, and runs are untouched. Every failure leaves the store
  unchanged.
\<close>

theorem delete_column_moves_cards:
  assumes "store_inv s"
  shows "wp (delete_column i dst) (\<lambda>_. column_deleted s i dst) (\<lambda>_ t. t = s) s"
  by (rule delete_column_wp [OF assms])

theorem delete_column_moves_cards_witness:
  "\<exists>t. delete_column 3 None sample_db = (Inr (), t) \<and> col_order t 1 = [1, 2]"
proof -
  have "\<not> isl (fst (delete_column 3 None sample_db))" by code_simp
  from wp_succeeds [OF delete_column_moves_cards [OF sample_store_inv] this]
  obtain t where t: "delete_column 3 None sample_db = (Inr (), t)" "column_deleted sample_db 3 None t" by auto
  have "filter (\<lambda>j. j \<noteq> 3) (col_order sample_db 1) = [1, 2]" by code_simp
  with t show ?thesis by (auto simp: column_deleted_def)
qed

text \<open>
  a column that a run was ever queued in cannot be deleted, even when its cards are moved away
  first: the reference from \<open>runs.column_id\<close> has no delete rule, so the statement fails with a
  foreign-key error and the whole operation is rolled back.
\<close>

theorem column_with_runs_stays:
  assumes "store_inv s" and "r \<in> set (db_runs s)" and "rn_column_id r = i"
  shows "\<exists>e. delete_column i dst s = (Inl e, s)"
  by (rule delete_column_with_runs [OF assms])

theorem column_with_runs_stays_witness:
  "\<exists>e. delete_column 1 (Some 3) sample_db = (Inl e, sample_db)"
  by (rule column_with_runs_stays [OF sample_store_inv, where r = "sample_run 1 3 1 (Some ''t0'') (Some ''t1'')"])
     (simp_all add: sample_db_def sample_run_def)

text \<open>
  \<open>create_column\<close> adds one column under a fresh id at the clamped position of its board and
  moves nothing else. It succeeds only with transition targets on the same board and a free name,
  so \<open>targets_local\<close>, part of \<open>store_inv\<close>, is kept; failures change nothing.
\<close>

theorem create_column_placed:
  assumes "store_inv s"
  shows "wp (create_column p) (column_created s (set_if (cc_board_id p) board_id_default) (cc_position p)) (\<lambda>_ t. t = s) s"
  by (rule create_column_wp [OF assms])

theorem create_column_placed_witness:
  "(\<exists>k t. create_column (sample_new_column ''Review'' (Some 1) (Some 3)) sample_db = (Inr k, t) \<and>
      column_created sample_db 1 (Some 1) k t) \<and>
   (\<exists>e. create_column (sample_new_column ''Review'' None (Some 4)) sample_db = (Inl e, sample_db))"
proof
  have p: "set_if (cc_board_id (sample_new_column n q x)) board_id_default = 1" "cc_position (sample_new_column n q x) = q"
    for n q x by (simp_all add: sample_new_column_def set_if_def)
  have "\<not> isl (fst (create_column (sample_new_column ''Review'' (Some 1) (Some 3)) sample_db))" by code_simp
  from wp_succeeds [OF create_column_placed [OF sample_store_inv] this]
  show "\<exists>k t. create_column (sample_new_column ''Review'' (Some 1) (Some 3)) sample_db = (Inr k, t) \<and>
      column_created sample_db 1 (Some 1) k t" by (simp add: p)
  have "isl (fst (create_column (sample_new_column ''Review'' None (Some 4)) sample_db))" by code_simp
  from wp_fails [OF create_column_placed [OF sample_store_inv] this]
  show "\<exists>e. create_column (sample_new_column ''Review'' None (Some 4)) sample_db = (Inl e, sample_db)" by blast
qed

text \<open>
  \<open>update_column\<close> writes exactly the fields the patch names and, when a position is given, moves
  the column to it; nothing else on the board moves, and a rejected patch (a foreign target, a name
  already taken) changes nothing.
\<close>

theorem update_column_patched:
  assumes "store_inv s"
  shows "wp (update_column u) (column_updated s u) (\<lambda>_ t. t = s) s"
  by (rule update_column_wp [OF assms])

theorem update_column_patched_witness:
  "\<exists>k t. update_column sample_column_edit sample_db = (Inr k, t) \<and> column_updated sample_db sample_column_edit k t"
  by (rule wp_succeeds [OF update_column_patched [OF sample_store_inv]]) code_simp

text \<open>
  \<open>reorder_column\<close> moves one column inside its board and returns the new order; it fails only for
  a column that does not exist.
\<close>

theorem reorder_column_only_moves:
  assumes "store_inv s"
  shows "wp (reorder_column i pos) (column_moved s i pos) (\<lambda>_ t. t = s \<and> find_column s i = None) s"
  by (rule reorder_column_wp [OF assms])

theorem reorder_column_only_moves_witness:
  "\<exists>cs t. reorder_column 3 0 sample_db = (Inr cs, t) \<and> column_moved sample_db 3 0 cs t"
  by (rule wp_succeeds [OF reorder_column_only_moves [OF sample_store_inv]]) code_simp



section \<open>Comments\<close>



section \<open>Boards, projects and the context\<close>

text \<open>
  the board a project lands on is never archived: whenever \<open>project_context_board\<close> returns one, it
  is an active board of that project, and reading it changes nothing.
\<close>

theorem context_board_is_active:
  assumes "context_inv s" and "project_context_board p s = (Inr b, t)"
  shows "t = s \<and> bd_archived_at b = None \<and> bd_project_id b = p \<and> board_in_project s p (bd_id b)"
  using project_context_board_ok [OF assms] by blast

theorem context_board_is_active_witness:
  "\<exists>b. project_context_board 2 sample_db = (Inr b, sample_db) \<and> bd_archived_at b = None \<and> bd_project_id b = 2"
proof -
  have "\<not> isl (fst (project_context_board 2 sample_db))" by code_simp
  then obtain b t where "project_context_board 2 sample_db = (Inr b, t)"
    by (cases "project_context_board 2 sample_db"; cases "fst (project_context_board 2 sample_db)") auto
  with context_board_is_active [OF sample_context_inv this] show ?thesis by auto
qed

text \<open>
  creating a board, selecting one and opening a project all end with that board as the context:
  the project is selected, the board is its selected board, both are first in their recency lists,
  and those lists are duplicate-free with at most three entries. A created board has exactly the
  seeded manual column \<open>Todo\<close>. Creating and selecting leave the store alone when they fail.
\<close>

theorem context_follows:
  assumes "ctx_ok s"
  shows "wp (create_board p name) (board_created s p name) (\<lambda>_ t. t = s) s \<and>
    wp (select_board i)
      (\<lambda>(p, b) t. lands_on (pj_id p) i t \<and> bd_id b = i \<and> bd_project_id b = pj_id p \<and> same_work s t)
      (\<lambda>_ t. t = s) s \<and>
    wp (open_project_context sc)
      (\<lambda>(p, b) t. lands_on (pj_id p) (bd_id b) t \<and> pj_scope_path p = Some sc \<and> bd_archived_at b = None \<and>
         bd_project_id b = pj_id p)
      (\<lambda>_. ctx_ok) s"
  by (intro conjI create_board_wp select_board_wp open_project_context_wp assms)

theorem context_follows_witness:
  "(\<exists>b t. create_board 2 ''plan'' sample_db = (Inr b, t) \<and> board_created sample_db 2 ''plan'' b t) \<and>
   (\<exists>p b t. select_board 2 sample_db = (Inr (p, b), t) \<and> lands_on (pj_id p) 2 t) \<and>
   (\<exists>p b t. open_project_context ''/work/lib'' sample_db = (Inr (p, b), t) \<and> pj_scope_path p = Some ''/work/lib'')"
proof (intro conjI)
  note law = context_follows [OF sample_ctx]
  have "\<not> isl (fst (create_board 2 ''plan'' sample_db))" by code_simp
  from wp_succeeds [OF law [THEN conjunct1] this]
  show "\<exists>b t. create_board 2 ''plan'' sample_db = (Inr b, t) \<and> board_created sample_db 2 ''plan'' b t" .
  have "\<not> isl (fst (select_board 2 sample_db))" by code_simp
  from wp_succeeds [OF law [THEN conjunct2, THEN conjunct1] this]
  show "\<exists>p b t. select_board 2 sample_db = (Inr (p, b), t) \<and> lands_on (pj_id p) 2 t" by auto
  have "\<not> isl (fst (open_project_context ''/work/lib'' sample_db))" by code_simp
  from wp_succeeds [OF law [THEN conjunct2, THEN conjunct2] this]
  show "\<exists>p b t. open_project_context ''/work/lib'' sample_db = (Inr (p, b), t) \<and> pj_scope_path p = Some ''/work/lib''" by auto
qed

text \<open>
  C20: archiving a board. On success the board is in the wanted state, cards, runs and columns are
  untouched, repeating the call changes nothing, and a board that was archived had no open run and is
  no longer the selected board of its project. A refusal leaves the store unchanged.
\<close>

theorem archive_board_safe:
  assumes "ctx_ok s"
  shows "wp (set_board_archived lower i a) (board_archived_spec s i a) (\<lambda>_ t. t = s) s"
  by (rule set_board_archived_wp [OF assms])

theorem archive_board_safe_witness:
  "(\<exists>b t. set_board_archived (\<lambda>x. x) 3 True sample_db = (Inr b, t) \<and> board_archived_spec sample_db 3 True b t) \<and>
   (\<exists>e. set_board_archived (\<lambda>x. x) 1 True sample_db = (Inl e, sample_db))"
proof
  have "\<not> isl (fst (set_board_archived (\<lambda>x. x) 3 True sample_db))" by code_simp
  from wp_succeeds [OF archive_board_safe [OF sample_ctx] this]
  show "\<exists>b t. set_board_archived (\<lambda>x. x) 3 True sample_db = (Inr b, t) \<and> board_archived_spec sample_db 3 True b t" .
  have "isl (fst (set_board_archived (\<lambda>x. x) 1 True sample_db))" by code_simp
  from wp_fails [OF archive_board_safe [OF sample_ctx] this]
  show "\<exists>e. set_board_archived (\<lambda>x. x) 1 True sample_db = (Inl e, sample_db)" by blast
qed

text \<open>
  archiving a project. Only a scoped project whose boards are all archived and which has no open
  run is archived; the Global project never is. Boards, cards and runs stay as they are, and a
  refusal leaves the store unchanged.
\<close>

theorem archive_project_safe:
  assumes "ctx_ok s"
  shows "wp (set_project_archived lower sc a)
    (\<lambda>p t. ctx_ok t \<and> (pj_archived_at p \<noteq> None) = a \<and> find_project t (pj_id p) = Some p \<and>
       db_boards t = db_boards s \<and> db_cards t = db_cards s \<and> db_runs t = db_runs s \<and>
       (\<exists>old. find_project_by_scope s sc = Some old \<and> pj_id old = pj_id p \<and>
          ((pj_archived_at old = None \<and> a) \<longrightarrow>
             pj_scope_path old \<noteq> None \<and> active_boards s (pj_id p) = [] \<and> \<not> project_has_open_run s (pj_id p))))
    (\<lambda>_ t. t = s) s"
  by (rule set_project_archived_wp [OF assms])

theorem archive_project_safe_witness:
  "\<exists>e. set_project_archived (\<lambda>x. x) ''/work/app'' True sample_db = (Inl e, sample_db)"
proof -
  have "isl (fst (set_project_archived (\<lambda>x. x) ''/work/app'' True sample_db))" by code_simp
  from wp_fails [OF archive_project_safe [OF sample_ctx] this] show ?thesis by blast
qed

end
