(* ===== verification/Harness.thy ===== *)
theory Harness
  imports Engine_Validation
begin

text \<open>
  The harness adapters of \<open>board-core/src/harness\<close>: how each agent CLI spells a session,
  how a launch is built from the effective settings, and how the launch recorded for a run is
  re-threaded onto its conversation (\<open>resume_invocation\<close>). \<open>serde_json\<close> rendering of the
  opencode agent configuration is the parameter \<open>agent_config\<close>.
\<close>

section \<open>Substrings\<close>

fun str_contains :: "string \<Rightarrow> string \<Rightarrow> bool" where
  "str_contains p [] = (p = [])"
| "str_contains p (c # cs) = (take (length p) (c # cs) = p \<or> str_contains p cs)"

function replace_all :: "string \<Rightarrow> string \<Rightarrow> string \<Rightarrow> string" where
  "replace_all p v s =
     (case s of
        [] \<Rightarrow> []
      | c # cs \<Rightarrow> if p \<noteq> [] \<and> take (length p) s = p then v @ replace_all p v (drop (length p) s)
                  else c # replace_all p v cs)"
  by pat_completeness auto
termination by (relation "measure (\<lambda>(p, v, s). length s)") auto

declare replace_all.simps [simp del]

lemma replace_all_Nil [simp]: "replace_all p v [] = []"
  by (subst replace_all.simps) simp

lemma replace_all_absent: "p \<noteq> [] \<Longrightarrow> \<not> str_contains p s \<Longrightarrow> replace_all p v s = s"
  by (induction s) (auto simp: replace_all.simps [where s = "_ # _"])

section \<open>Sessions\<close>

datatype session_plan = Mint | Resume string | Fork string

datatype harness_error =
    HUnknownHarness string
  | MissingMintedSession
  | MissingForkTargetSession
  | PiPermissionModeUnsupported
  | OpenCodeEffortRequiresModel
  | ResumeUnsupported string
  | MissingResumeSession
  | ResumeLegacyArgv string

definition plan_session :: "string option \<Rightarrow> bool \<Rightarrow> bool \<Rightarrow> session_plan" where
  "plan_session existing fresh_session is_retry =
     (case existing of
        Some i \<Rightarrow> if \<not> fresh_session \<and> is_retry then Fork i
                  else if \<not> fresh_session then Resume i else Mint
      | None \<Rightarrow> Mint)"

fun codex_session_argv ::
  "session_plan \<Rightarrow> string option \<Rightarrow> harness_error + string list \<times> string option" where
  "codex_session_argv Mint _ = Inr ([], None)"
| "codex_session_argv (Resume i) _ = Inr ([''resume'', i], Some i)"
| "codex_session_argv (Fork i) _ = Inr ([''fork'', i], Some i)"

fun opencode_session_argv ::
  "session_plan \<Rightarrow> string option \<Rightarrow> harness_error + string list \<times> string option" where
  "opencode_session_argv Mint _ = Inr ([], None)"
| "opencode_session_argv (Resume i) _ = Inr ([''-s'', i], Some i)"
| "opencode_session_argv (Fork i) _ = Inr ([''-s'', i, ''--fork''], Some i)"

fun agy_session_argv ::
  "session_plan \<Rightarrow> string option \<Rightarrow> harness_error + string list \<times> string option" where
  "agy_session_argv Mint _ = Inr ([], None)"
| "agy_session_argv (Resume i) _ = Inr ([''--conversation'', i], Some i)"
| "agy_session_argv (Fork i) _ = Inr ([''--conversation'', i], Some i)"

definition session_argv ::
  "string \<Rightarrow> session_plan \<Rightarrow> string option \<Rightarrow> harness_error + string list \<times> string option" where
  "session_argv harness session target_uuid =
     (if harness = ''pi'' then
        (case session of
           Mint \<Rightarrow> (case target_uuid of None \<Rightarrow> Inl MissingMintedSession
                    | Some i \<Rightarrow> Inr ([''--session-id'', i], Some i))
         | Resume i \<Rightarrow> Inr ([''--session-id'', i], Some i)
         | Fork source \<Rightarrow>
             (case target_uuid of None \<Rightarrow> Inl MissingForkTargetSession
              | Some t \<Rightarrow> Inr ([''--fork'', source, ''--session-id'', t], Some t)))
      else if harness = ''claude'' then
        (case session of
           Mint \<Rightarrow> (case target_uuid of None \<Rightarrow> Inl MissingMintedSession
                    | Some i \<Rightarrow> Inr ([''--session-id'', i], Some i))
         | Resume i \<Rightarrow> Inr ([''--resume'', i], Some i)
         | Fork i \<Rightarrow> Inr ([''--resume'', i, ''--fork-session''], Some i))
      else if harness = ''codex'' then codex_session_argv session target_uuid
      else if harness = ''opencode'' then opencode_session_argv session target_uuid
      else if harness = ''antigravity'' then agy_session_argv session target_uuid
      else Inl (HUnknownHarness harness))"

definition session_flags :: "string \<Rightarrow> (string \<times> bool) list" where
  "session_flags harness =
     (if harness = ''pi'' then [(''--session-id'', True), (''--fork'', True)]
      else if harness = ''claude'' then
        [(''--session-id'', True), (''--resume'', True), (''--fork-session'', False)]
      else if harness = ''codex'' then [(''resume'', True), (''fork'', True)]
      else if harness = ''opencode'' then [(''-s'', True), (''--fork'', False)]
      else if harness = ''antigravity'' then [(''--conversation'', True)]
      else [])"

text \<open>The loop over \<open>index\<close>: skip a flag with its value, a bare flag alone, keep the rest.\<close>

function strip_flags :: "(string \<times> bool) list \<Rightarrow> string list \<Rightarrow> string list" where
  "strip_flags flags [] = []"
| "strip_flags flags (a # rest) =
     (case List.find (\<lambda>f. fst f = a) flags of
        Some f \<Rightarrow> if snd f then strip_flags flags (drop 1 rest) else strip_flags flags rest
      | None \<Rightarrow> a # strip_flags flags rest)"
  by pat_completeness auto
termination by (relation "measure (\<lambda>(flags, argv). length argv)") auto

definition strip_session_flags :: "string \<Rightarrow> string list \<Rightarrow> string list" where
  "strip_session_flags harness argv =
     (if harness = ''codex'' then
        (if length argv \<ge> 2 \<and> argv ! (length argv - 2) \<in> {''resume'', ''fork''}
         then take (length argv - 2) argv else argv)
      else strip_flags (session_flags harness) argv)"

section \<open>Prompts\<close>

definition nl :: string where "nl = [CHR 0x0A]"
definition dq :: string where "dq = [CHR 0x22]"
definition em_dash :: string where "em_dash = [CHR 0xE2, CHR 0x80, CHR 0x94]"

definition board_protocol_trailer :: string where
  "board_protocol_trailer =
     ''## herdr-board protocol'' @ nl @
     ''You are running a herdr-board card ($BOARD_CARD_ID is preset). When this stage's goal '' @
     ''is met you MUST finish with exactly two commands: first `board comment '' @ dq @
     ''<your results, files touched, findings>'' @ dq @ ''`, then `board done --outcome ok`. '' @
     ''If the stage goal was NOT met '' @ em_dash @ '' something failed or you got lost '' @ em_dash @
     '' use `board done --outcome fail --summary '' @ dq @ ''<why>'' @ dq @ ''` instead. '' @
     ''Always comment before done. Never use `board move`/`cancel`/`retry` on your own card. '' @
     ''Finishing or going idle WITHOUT `board done` leaves the card in `awaiting` for human review '' @
     em_dash @ '' a run is never auto-completed.''"

definition protocol_system_prompt :: "string option \<Rightarrow> string" where
  "protocol_system_prompt column_prompt =
     (case column_prompt of Some sp \<Rightarrow> sp @ nl @ nl @ board_protocol_trailer
      | None \<Rightarrow> board_protocol_trailer)"

definition mint_prompt :: "string \<Rightarrow> string \<Rightarrow> string" where
  "mint_prompt system_prompt task =
     ''## herdr-board system instructions'' @ nl @ system_prompt @ nl @ nl @
     ''## herdr-board card task'' @ nl @ task"

definition prompt_closeout :: string where
  "prompt_closeout =
     ''(When the stage goal is met, finish with `board comment '' @ dq @ ''<results>'' @ dq @
     ''` then `board done --outcome ok` '' @ em_dash @
     '' or `--outcome fail` if the goal was not met. Without `board done` the card stays in '' @
     ''`awaiting` pending human review.)''"

definition max_prompt_comments :: nat where "max_prompt_comments = 20"

definition comment_line :: "comment \<Rightarrow> string" where
  "comment_line c = cm_author c @ '' ('' @ cm_created_at c @ ''): '' @ cm_body c @ nl"

definition trim_end_nl :: "string \<Rightarrow> string" where
  "trim_end_nl s = rev (dropWhile (\<lambda>c. c = CHR 0x0A) (rev s))"

definition assemble_prompt :: "string \<Rightarrow> comment list \<Rightarrow> string" where
  "assemble_prompt description comments =
     (if comments = [] then description
      else trim_end_nl (description @ nl @ nl @ ''## Card comments'' @ nl @
             concat (map comment_line (drop (length comments - max_prompt_comments) comments))))
     @ nl @ nl @ prompt_closeout"

section \<open>Launches\<close>

record harness_invocation =
  hi_agent_kind :: "string option"
  hi_initial_prompt :: "string option"
  hi_system_prompt :: "string option"
  hi_argv :: "string list"
  hi_env :: "(string \<times> string) list"
  hi_resulting_session_id :: "string option"

definition flag_value :: "string \<Rightarrow> string option \<Rightarrow> string list" where
  "flag_value f v = (case v of Some x \<Rightarrow> [f, x] | None \<Rightarrow> [])"

definition codex_effort_value :: "effort \<Rightarrow> string" where
  "codex_effort_value e = (if e = Off then ''none'' else effort_str e)"

definition codex_approval_argv :: "string \<Rightarrow> string list" where
  "codex_approval_argv p =
     (if p = ''ask-for-approval''
        then [''--sandbox'', ''workspace-write'', ''--ask-for-approval'', ''on-request'']
      else if p = ''approve-for-me'' then [''--approve-for-me'']
      else if p = ''full-access'' then [''--dangerously-bypass-approvals-and-sandbox'']
      else [''--ask-for-approval'', p])"

definition opencode_effort_variant :: "effort \<Rightarrow> string" where
  "opencode_effort_variant e = (if e = Off then ''none'' else effort_str e)"

definition opencode_permission_argv :: "string \<Rightarrow> string list" where
  "opencode_permission_argv p = (if p = ''auto-approve'' then [''--auto''] else [])"

definition agy_effort_value :: "effort \<Rightarrow> string option" where
  "agy_effort_value e =
     (case e of Low \<Rightarrow> Some ''low'' | Medium \<Rightarrow> Some ''medium'' | High \<Rightarrow> Some ''high'' | _ \<Rightarrow> None)"

definition agy_permission_argv :: "string \<Rightarrow> string list" where
  "agy_permission_argv p =
     (if p = ''sandbox'' then [''--sandbox'']
      else if p = ''always-proceed'' then [''--dangerously-skip-permissions'']
      else [])"

definition opt_argv :: "(string \<Rightarrow> string list) \<Rightarrow> string option \<Rightarrow> string list" where
  "opt_argv f v = (case v of Some x \<Rightarrow> f x | None \<Rightarrow> [])"

type_synonym agent_config = "string \<Rightarrow> string \<Rightarrow> string"

definition managed_pi_invocation ::
  "effective_settings_row \<Rightarrow> session_plan \<Rightarrow> string option \<Rightarrow> string \<Rightarrow> harness_error + harness_invocation" where
  "managed_pi_invocation s session target_uuid prompt =
     (if es_permission_mode s \<noteq> None then Inl PiPermissionModeUnsupported
      else case session_argv ''pi'' session target_uuid of
        Inl e \<Rightarrow> Inl e
      | Inr (flags, rid) \<Rightarrow>
          (case rid of None \<Rightarrow> Inl MissingMintedSession
           | Some i \<Rightarrow>
             Inr \<lparr>hi_agent_kind = Some ''pi'', hi_initial_prompt = Some prompt,
                  hi_system_prompt = Some (protocol_system_prompt (es_system_prompt s)),
                  hi_argv = [''pi''] @ flag_value ''--model'' (es_model s)
                    @ flag_value ''--thinking'' (map_option effort_str (es_effort s)) @ flags,
                  hi_env = [], hi_resulting_session_id = Some i\<rparr>))"

definition managed_claude_invocation ::
  "effective_settings_row \<Rightarrow> session_plan \<Rightarrow> string option \<Rightarrow> string \<Rightarrow> harness_error + harness_invocation" where
  "managed_claude_invocation s session minted_uuid prompt =
     (case session_argv ''claude'' session minted_uuid of
        Inl e \<Rightarrow> Inl e
      | Inr (flags, rid) \<Rightarrow>
          Inr \<lparr>hi_agent_kind = Some ''claude'', hi_initial_prompt = Some prompt,
               hi_system_prompt = Some (protocol_system_prompt (es_system_prompt s)),
               hi_argv = [''claude''] @ flag_value ''--model'' (es_model s)
                 @ flag_value ''--effort'' (map_option effort_str (es_effort s))
                 @ flag_value ''--permission-mode'' (es_permission_mode s)
                 @ [''--allowedTools'', ''Bash(board:*)''] @ flags,
               hi_env = [], hi_resulting_session_id = rid\<rparr>)"

definition managed_codex_invocation ::
  "effective_settings_row \<Rightarrow> session_plan \<Rightarrow> string option \<Rightarrow> string \<Rightarrow> harness_error + harness_invocation" where
  "managed_codex_invocation s session minted_uuid prompt =
     (case codex_session_argv session minted_uuid of
        Inl e \<Rightarrow> Inl e
      | Inr (flags, rid) \<Rightarrow>
          Inr \<lparr>hi_agent_kind = Some ''codex'', hi_initial_prompt = Some prompt,
               hi_system_prompt = Some (protocol_system_prompt (es_system_prompt s)),
               hi_argv = [''codex''] @ flag_value ''--model'' (es_model s)
                 @ flag_value ''-c'' (map_option (\<lambda>e. ''model_reasoning_effort='' @ codex_effort_value e)
                                        (es_effort s))
                 @ opt_argv codex_approval_argv (es_permission_mode s) @ flags,
               hi_env = [], hi_resulting_session_id = rid\<rparr>)"

definition managed_opencode_invocation ::
  "agent_config \<Rightarrow> effective_settings_row \<Rightarrow> session_plan \<Rightarrow> string option \<Rightarrow> string
     \<Rightarrow> harness_error + harness_invocation" where
  "managed_opencode_invocation agent_config s session minted_uuid prompt =
     (case (case es_effort s of
              Some e \<Rightarrow>
                (case es_model s of
                   None \<Rightarrow> Inl OpenCodeEffortRequiresModel
                 | Some m \<Rightarrow> Inr ([''--agent'', ''herdr-board''],
                     [(''OPENCODE_CONFIG_CONTENT'', agent_config m (opencode_effort_variant e))]))
            | None \<Rightarrow> Inr (flag_value ''-m'' (es_model s), [])) of
        Inl e \<Rightarrow> Inl e
      | Inr (margs, env) \<Rightarrow>
          (case opencode_session_argv session minted_uuid of
             Inl e \<Rightarrow> Inl e
           | Inr (flags, rid) \<Rightarrow>
               Inr \<lparr>hi_agent_kind = Some ''opencode'', hi_initial_prompt = Some prompt,
                    hi_system_prompt = Some (protocol_system_prompt (es_system_prompt s)),
                    hi_argv = [''opencode''] @ margs
                      @ opt_argv opencode_permission_argv (es_permission_mode s) @ flags,
                    hi_env = env, hi_resulting_session_id = rid\<rparr>))"

definition managed_antigravity_invocation ::
  "effective_settings_row \<Rightarrow> session_plan \<Rightarrow> string option \<Rightarrow> string \<Rightarrow> harness_error + harness_invocation" where
  "managed_antigravity_invocation s session minted_uuid prompt =
     (case agy_session_argv session minted_uuid of
        Inl e \<Rightarrow> Inl e
      | Inr (flags, rid) \<Rightarrow>
          Inr \<lparr>hi_agent_kind = Some ''agy'', hi_initial_prompt = Some prompt,
               hi_system_prompt = Some (protocol_system_prompt (es_system_prompt s)),
               hi_argv = [''agy''] @ flag_value ''--model'' (es_model s)
                 @ flag_value ''--effort'' (Option.bind (es_effort s) agy_effort_value)
                 @ opt_argv agy_permission_argv (es_permission_mode s) @ flags,
               hi_env = [], hi_resulting_session_id = rid\<rparr>)"

definition substitute_one :: "string option \<Rightarrow> string \<times> string option \<Rightarrow> string option" where
  "substitute_one cur ph =
     (case cur of None \<Rightarrow> None
      | Some s \<Rightarrow> if str_contains (fst ph) s then map_option (\<lambda>v. replace_all (fst ph) v s) (snd ph)
                  else Some s)"

definition substitute_template :: "string list \<Rightarrow> effective_settings_row \<Rightarrow> string list" where
  "substitute_template template s =
     List.map_filter (\<lambda>item. foldl substitute_one (Some item)
       [(''{model}'', es_model s), (''{effort}'', map_option effort_str (es_effort s)),
        (''{permission_mode}'', es_permission_mode s)]) template"

definition build_invocation ::
  "agent_config \<Rightarrow> string \<Rightarrow> config \<Rightarrow> effective_settings_row \<Rightarrow> session_plan \<Rightarrow> string option
     \<Rightarrow> string \<Rightarrow> harness_error + harness_invocation" where
  "build_invocation agent_config harness cfg s session minted_uuid prompt =
     (if harness = ''pi'' then managed_pi_invocation s session minted_uuid prompt
      else if harness = ''claude'' then managed_claude_invocation s session minted_uuid prompt
      else if harness = ''codex'' then managed_codex_invocation s session minted_uuid prompt
      else if harness = ''opencode'' then
        managed_opencode_invocation agent_config s session minted_uuid prompt
      else if harness = ''antigravity'' then
        managed_antigravity_invocation s session minted_uuid prompt
      else case map_of (cf_harness cfg) harness of
        None \<Rightarrow> Inl (HUnknownHarness harness)
      | Some d \<Rightarrow>
          Inr \<lparr>hi_agent_kind = None, hi_initial_prompt = None, hi_system_prompt = None,
               hi_argv = substitute_template (hd_argv d) s,
               hi_env = [(''BOARD_PROMPT'', prompt),
                         (''BOARD_SYSTEM_PROMPT'', protocol_system_prompt (es_system_prompt s))],
               hi_resulting_session_id = None\<rparr>)"

text \<open>What the daemon persists of an invocation.\<close>

definition invocation_spec :: "harness_invocation \<Rightarrow> execution_spec" where
  "invocation_spec i =
     \<lparr>ex_argv = hi_argv i, ex_env = hi_env i, ex_agent_kind = hi_agent_kind i,
      ex_initial_prompt = hi_initial_prompt i, ex_system_prompt = hi_system_prompt i\<rparr>"

definition resume_invocation ::
  "string \<Rightarrow> resume_support \<Rightarrow> execution_spec \<Rightarrow> string \<Rightarrow> harness_error + execution_spec" where
  "resume_invocation harness support persisted session_id =
     (if \<not> is_supported support then Inl (ResumeUnsupported harness)
      else if blank session_id then Inl MissingResumeSession
      else case
        (if is_builtin_harness harness then
           if ''--'' \<in> set (ex_argv persisted) then Inl (ResumeLegacyArgv harness)
           else (case session_argv harness (Resume session_id) None of
                   Inl e \<Rightarrow> Inl e
                 | Inr (flags, _) \<Rightarrow> Inr (strip_session_flags harness (ex_argv persisted) @ flags))
         else Inr (ex_argv persisted)) of
        Inl e \<Rightarrow> Inl e
      | Inr argv \<Rightarrow>
          Inr \<lparr>ex_argv = argv,
               ex_env = filter (\<lambda>(k, _). k \<noteq> ''BOARD_PROMPT'') (ex_env persisted)
                 @ [(''BOARD_RESUME_SESSION_ID'', session_id), (''BOARD_RESCUE'', ''1'')],
               ex_agent_kind = ex_agent_kind persisted,
               ex_initial_prompt = None,
               ex_system_prompt = ex_system_prompt persisted\<rparr>)"

text \<open>The all-in-one command lines kept for older callers: here the prompt is part of the argv.\<close>

definition claude_argv ::
  "effective_settings_row \<Rightarrow> session_plan \<Rightarrow> string option \<Rightarrow> string \<Rightarrow> harness_error + string list" where
  "claude_argv s session minted_uuid prompt =
     (case session_argv ''claude'' session minted_uuid of
        Inl e \<Rightarrow> Inl e
      | Inr (flags, _) \<Rightarrow>
          Inr ([''claude''] @ flag_value ''--model'' (es_model s)
               @ flag_value ''--effort'' (map_option effort_str (es_effort s))
               @ flag_value ''--permission-mode'' (es_permission_mode s)
               @ [''--append-system-prompt'', protocol_system_prompt (es_system_prompt s)]
               @ [''--allowedTools'', ''Bash(board:*)''] @ flags @ [''--'', prompt]))"

definition pi_argv ::
  "effective_settings_row \<Rightarrow> session_plan \<Rightarrow> string option \<Rightarrow> string \<Rightarrow> harness_error + harness_invocation" where
  "pi_argv s session target_uuid prompt =
     (if es_permission_mode s \<noteq> None then Inl PiPermissionModeUnsupported
      else case session_argv ''pi'' session target_uuid of
        Inl e \<Rightarrow> Inl e
      | Inr (flags, rid) \<Rightarrow>
          (case rid of None \<Rightarrow> Inl MissingMintedSession
           | Some i \<Rightarrow>
             Inr \<lparr>hi_agent_kind = Some ''pi'', hi_initial_prompt = Some prompt,
                  hi_system_prompt = Some (protocol_system_prompt (es_system_prompt s)),
                  hi_argv = [''pi''] @ flag_value ''--model'' (es_model s)
                    @ flag_value ''--thinking'' (map_option effort_str (es_effort s))
                    @ [''--append-system-prompt'', protocol_system_prompt (es_system_prompt s)]
                    @ flags @ [''Card task:'' @ nl @ prompt],
                  hi_env = [], hi_resulting_session_id = Some i\<rparr>))"

section \<open>Facts about launches\<close>

lemmas session_argv_defs = session_argv_def codex_session_argv.simps opencode_session_argv.simps
  agy_session_argv.simps

lemmas invocation_defs = build_invocation_def managed_pi_invocation_def managed_claude_invocation_def
  managed_codex_invocation_def managed_opencode_invocation_def managed_antigravity_invocation_def

lemma plan_session_fresh: "plan_session e True r = Mint"
  by (simp add: plan_session_def split: option.splits)

lemma plan_session_id:
  "plan_session e f r = Resume i \<or> plan_session e f r = Fork i \<Longrightarrow> e = Some i \<and> \<not> f"
  by (auto simp: plan_session_def split: option.splits if_splits)

lemma builtin_harness_cases:
  assumes "is_builtin_harness h"
  obtains "h = ''pi''" | "h = ''claude''" | "h = ''codex''" | "h = ''opencode''" | "h = ''antigravity''"
  using assms unfolding is_builtin_harness_def builtin_harnesses_def list.set by blast

lemma build_invocation_builtin:
  "build_invocation ac ''pi'' cfg = managed_pi_invocation"
  "build_invocation ac ''claude'' cfg = managed_claude_invocation"
  "build_invocation ac ''codex'' cfg = managed_codex_invocation"
  "build_invocation ac ''opencode'' cfg = managed_opencode_invocation ac"
  "build_invocation ac ''antigravity'' cfg = managed_antigravity_invocation"
  by (simp_all add: fun_eq_iff build_invocation_def)

lemma build_invocation_prompt:
  assumes "is_builtin_harness h" and "build_invocation ac h cfg s plan mint p = Inr i"
  shows "build_invocation ac h cfg s plan mint q = Inr (i\<lparr>hi_initial_prompt := Some q\<rparr>)"
  using assms(1)
proof (cases rule: builtin_harness_cases)
  case 1
  with assms(2) show ?thesis
    by (auto simp: build_invocation_builtin managed_pi_invocation_def split: sum.splits option.splits if_splits)
next
  case 2
  with assms(2) show ?thesis
    by (auto simp: build_invocation_builtin managed_claude_invocation_def split: sum.splits)
next
  case 3
  with assms(2) show ?thesis
    by (auto simp: build_invocation_builtin managed_codex_invocation_def split: sum.splits)
next
  case 4
  with assms(2) show ?thesis
    by (auto simp: build_invocation_builtin managed_opencode_invocation_def split: sum.splits)
next
  case 5
  with assms(2) show ?thesis
    by (auto simp: build_invocation_builtin managed_antigravity_invocation_def split: sum.splits)
qed

lemma strip_flags_append:
  "(\<forall>a \<in> set base. \<forall>f \<in> set flags. fst f \<noteq> a) \<Longrightarrow>
   strip_flags flags (base @ rest) = base @ strip_flags flags rest"
proof (induction base)
  case (Cons a base)
  then have "List.find (\<lambda>f. fst f = a) flags = None"
    by (auto simp: find_None_iff)
  with Cons show ?case by simp
qed simp

lemma strip_flags_session:
  "session_argv h plan mint = Inr (flags, rid) \<Longrightarrow> h \<noteq> ''codex'' \<Longrightarrow>
   strip_flags (session_flags h) flags = []"
  by (cases plan) (auto simp: session_argv_def session_flags_def split: if_split_asm option.splits)

definition clean_tokens :: "string \<Rightarrow> effective_settings_row \<Rightarrow> bool" where
  \<comment> \<open>no free-form value of the settings is spelled like a session flag of the harness\<close>
  "clean_tokens h s \<longleftrightarrow>
     (\<forall>v. es_model s = Some v \<or> es_permission_mode s = Some v \<longrightarrow>
        (\<forall>f \<in> set (session_flags h). fst f \<noteq> v))"

text \<open>The startup part of a managed command line: everything but the session flags.\<close>

definition startup_argv :: "string \<Rightarrow> effective_settings_row \<Rightarrow> string list" where
  "startup_argv h s =
     (if h = ''pi'' then [''pi''] @ flag_value ''--model'' (es_model s)
        @ flag_value ''--thinking'' (map_option effort_str (es_effort s))
      else if h = ''claude'' then [''claude''] @ flag_value ''--model'' (es_model s)
        @ flag_value ''--effort'' (map_option effort_str (es_effort s))
        @ flag_value ''--permission-mode'' (es_permission_mode s) @ [''--allowedTools'', ''Bash(board:*)'']
      else if h = ''codex'' then [''codex''] @ flag_value ''--model'' (es_model s)
        @ flag_value ''-c'' (map_option (\<lambda>e. ''model_reasoning_effort='' @ codex_effort_value e) (es_effort s))
        @ opt_argv codex_approval_argv (es_permission_mode s)
      else if h = ''opencode'' then [''opencode'']
        @ (if es_effort s \<noteq> None then [''--agent'', ''herdr-board''] else flag_value ''-m'' (es_model s))
        @ opt_argv opencode_permission_argv (es_permission_mode s)
      else [''agy''] @ flag_value ''--model'' (es_model s)
        @ flag_value ''--effort'' (Option.bind (es_effort s) agy_effort_value)
        @ opt_argv agy_permission_argv (es_permission_mode s))"

lemma build_invocation_argv:
  assumes "is_builtin_harness h" and "build_invocation ac h cfg s plan mint p = Inr i"
  obtains flags rid where "session_argv h plan mint = Inr (flags, rid)"
    and "hi_argv i = startup_argv h s @ flags"
  using assms(1)
proof (cases rule: builtin_harness_cases)
  case 1
  with assms(2) that show ?thesis
    by (auto simp: build_invocation_builtin managed_pi_invocation_def startup_argv_def
        split: sum.splits option.splits if_splits)
next
  case 2
  with assms(2) that show ?thesis
    by (auto simp: build_invocation_builtin managed_claude_invocation_def startup_argv_def split: sum.splits)
next
  case 3
  with assms(2) that show ?thesis
    by (auto simp: build_invocation_builtin managed_codex_invocation_def startup_argv_def
        session_argv_def split: sum.splits)
next
  case 4
  with assms(2) that show ?thesis
    by (auto simp: build_invocation_builtin managed_opencode_invocation_def startup_argv_def
        session_argv_def split: sum.splits option.splits)
next
  case 5
  with assms(2) that show ?thesis
    by (auto simp: build_invocation_builtin managed_antigravity_invocation_def startup_argv_def
        session_argv_def split: sum.splits)
qed

lemma build_invocation_resume:
  assumes "is_builtin_harness h" and "build_invocation ac h cfg s plan mint p = Inr i"
  shows "\<exists>j. build_invocation ac h cfg s (Resume sid) None p = Inr j"
  using assms(1)
proof (cases rule: builtin_harness_cases)
  case 1
  with assms(2) show ?thesis
    by (auto simp: build_invocation_builtin managed_pi_invocation_def session_argv_def
        split: if_splits)
next
  case 2
  then show ?thesis
    by (simp add: build_invocation_builtin managed_claude_invocation_def session_argv_def)
next
  case 3
  then show ?thesis
    by (simp add: build_invocation_builtin managed_codex_invocation_def)
next
  case 4
  with assms(2) show ?thesis
    by (auto simp: build_invocation_builtin managed_opencode_invocation_def split: sum.splits option.splits)
next
  case 5
  then show ?thesis
    by (simp add: build_invocation_builtin managed_antigravity_invocation_def)
qed

lemma session_argv_resume: "is_builtin_harness h \<Longrightarrow> \<exists>fl. session_argv h (Resume sid) None = Inr (fl, Some sid)"
  by (erule builtin_harness_cases) (simp_all add: session_argv_def)

lemma effort_str_no_dash: "effort_str e \<noteq> CHR ''-'' # x"
  by (cases e) simp_all

lemma startup_clean:
  assumes "is_builtin_harness h" "h \<noteq> ''codex''" "clean_tokens h s"
  shows "\<forall>a \<in> set (startup_argv h s). \<forall>f \<in> set (session_flags h). fst f \<noteq> a"
proof -
  have dash: "(CHR ''-'' # x = effort_str e) = False" "(effort_str e = CHR ''-'' # x) = False" for x e
    using effort_str_no_dash by metis+
  have agy: "agy_effort_value e = Some (CHR ''-'' # x) \<longleftrightarrow> False"
    "Some (CHR ''-'' # x) = agy_effort_value e \<longleftrightarrow> False" for e x
    by (cases e; simp add: agy_effort_value_def)+
  from assms(1) show ?thesis
    using assms(2,3)
    by (cases rule: builtin_harness_cases; cases "es_model s"; cases "es_permission_mode s"; cases "es_effort s")
       (auto simp: startup_argv_def session_flags_def clean_tokens_def flag_value_def opt_argv_def
          dash agy opencode_permission_argv_def agy_permission_argv_def
          split: option.splits if_splits)
qed

lemma codex_startup_clean:
  assumes "clean_tokens ''codex'' s"
  shows "strip_session_flags ''codex'' (startup_argv ''codex'' s) = startup_argv ''codex'' s"
  using assms
  by (cases "es_model s"; cases "es_permission_mode s"; cases "es_effort s")
     (auto simp: strip_session_flags_def startup_argv_def session_flags_def clean_tokens_def
        flag_value_def opt_argv_def codex_approval_argv_def)

lemma strip_session_flags_startup:
  assumes h: "is_builtin_harness h" and c: "clean_tokens h s"
    and f: "session_argv h plan mint = Inr (flags, rid)"
  shows "strip_session_flags h (startup_argv h s @ flags) = startup_argv h s"
proof (cases "h = ''codex''")
  case True
  then show ?thesis
    using f c codex_startup_clean [of s]
    by (cases plan) (auto simp: session_argv_def strip_session_flags_def nth_append)
next
  case False
  then show ?thesis
    using strip_flags_append [OF startup_clean [OF h False c]] strip_flags_session [OF f False]
    by (simp add: strip_session_flags_def)
qed

lemma resume_rethreads:
  assumes h: "is_builtin_harness h" and c: "clean_tokens h s"
    and b: "build_invocation ac h cfg s plan mint p = Inr i"
    and d: "''--'' \<notin> set (hi_argv i)" and sid: "\<not> blank sid"
  shows "\<exists>sp j. resume_invocation h ByConversationId (invocation_spec i) sid = Inr sp \<and>
    build_invocation ac h cfg s (Resume sid) None p = Inr j \<and> ex_argv sp = hi_argv j"
proof -
  obtain flags rid where f: "session_argv h plan mint = Inr (flags, rid)"
    and a: "hi_argv i = startup_argv h s @ flags" using b by (rule build_invocation_argv [OF h])
  obtain fl where r: "session_argv h (Resume sid) None = Inr (fl, Some sid)"
    using session_argv_resume [OF h] by blast
  obtain j where j: "build_invocation ac h cfg s (Resume sid) None p = Inr j"
    using build_invocation_resume [OF h b] by blast
  have ja: "hi_argv j = startup_argv h s @ fl"
    using build_invocation_argv [OF h j] r by auto
  have "strip_session_flags h (hi_argv i) = startup_argv h s"
    unfolding a by (rule strip_session_flags_startup [OF h c f])
  then show ?thesis
    using h d sid r j ja by (simp add: resume_invocation_def invocation_spec_def)
qed

lemma resume_never_resends:
  assumes "resume_invocation h supp spec sid = Inr sp"
  shows "ex_initial_prompt sp = None \<and> ''BOARD_PROMPT'' \<notin> fst ` set (ex_env sp) \<and>
    (''BOARD_RESUME_SESSION_ID'', sid) \<in> set (ex_env sp) \<and> \<not> blank sid \<and> supp = ByConversationId"
  using assms
  by (cases supp) (auto simp: resume_invocation_def split: if_splits sum.splits)

lemma resume_refuses_legacy:
  assumes "claude_argv s plan mint p = Inr argv" and "ex_argv spec = argv" and "\<not> blank sid"
  shows "resume_invocation ''claude'' ByConversationId spec sid = Inl (ResumeLegacyArgv ''claude'')"
proof -
  have "''--'' \<in> set argv"
    using assms(1) by (auto simp: claude_argv_def split: sum.splits)
  then show ?thesis
    using assms(2,3) by (simp add: resume_invocation_def is_builtin_harness_def builtin_harnesses_def)
qed

lemma assemble_prompt_closeout: "\<exists>pre. assemble_prompt d cs = pre @ nl @ nl @ prompt_closeout"
  by (simp add: assemble_prompt_def)

end
