(* ===== verification/Engine_Properties.thy ===== *)
theory Engine_Properties
  imports Engine_Decisions Harness Sample_Store
begin

text \<open>
  The properties of the decision functions, the validators and the launch builder, with examples.
\<close>

section \<open>Names on the wire\<close>

text \<open>
  every enum of the protocol survives the wire: a string parses to a variant exactly when it is
  the string that variant is printed as, for triggers, space kinds, card states, awaiting reasons,
  run outcomes, visibilities and efforts; the one alias is the hyphenated \<open>new-workspace\<close> of the
  command line.
\<close>

theorem enums_round_trip:
  "(parse_trigger w = Some a \<longleftrightarrow> w = trigger_str a) \<and>
   (parse_space_kind w = Some b \<longleftrightarrow> w = space_kind_str b \<or> (b = NewWorkspace \<and> w = ''new-workspace'')) \<and>
   (parse_card_status w = Some c \<longleftrightarrow> w = card_status_str c) \<and>
   (parse_awaiting_reason w = Some d \<longleftrightarrow> w = awaiting_reason_str d) \<and>
   (parse_run_outcome w = Some e \<longleftrightarrow> w = run_outcome_str e) \<and>
   (parse_visibility w = Some f \<longleftrightarrow> w = visibility_str f) \<and>
   (parse_effort w = Some g \<longleftrightarrow> w = effort_str g)"
proof (intro conjI)
  show "parse_trigger w = Some a \<longleftrightarrow> w = trigger_str a" by (cases a) (auto simp: parse_trigger_def)
  show "parse_space_kind w = Some b \<longleftrightarrow> w = space_kind_str b \<or> (b = NewWorkspace \<and> w = ''new-workspace'')" by (cases b) (auto simp: parse_space_kind_def)
  show "parse_card_status w = Some c \<longleftrightarrow> w = card_status_str c" by (cases c) (auto simp: parse_card_status_def)
  show "parse_awaiting_reason w = Some d \<longleftrightarrow> w = awaiting_reason_str d" by (cases d) (auto simp: parse_awaiting_reason_def)
  show "parse_run_outcome w = Some e \<longleftrightarrow> w = run_outcome_str e" by (cases e) (auto simp: parse_run_outcome_def)
  show "parse_visibility w = Some f \<longleftrightarrow> w = visibility_str f" by (cases f) (auto simp: parse_visibility_def)
  show "parse_effort w = Some g \<longleftrightarrow> w = effort_str g" by (cases g) (auto simp: parse_effort_def)
qed

text \<open>
  a column reference resolves to a column of the given list, by id or by its case-folded name; a
  column's own id always finds it, and a name in use never fails to resolve.
\<close>

theorem column_reference_resolves:
  assumes "c \<in> set cols" and "in_i64 (col_id c)"
  shows "resolve_column lower cols (show_int (col_id c)) = Some (col_id c) \<and>
    resolve_column lower cols (col_name c) \<noteq> None \<and>
    (\<forall>r i. resolve_column lower cols r = Some i \<longrightarrow>
       (\<exists>k \<in> set cols. col_id k = i \<and> (parse_i64 r = Some i \<or> lower (col_name k) = lower r)))"
  using resolve_column_id [OF assms] resolve_column_complete [OF assms(1), of lower "col_name c"]
    resolve_column_sound [of lower cols] by blast

theorem column_reference_resolves_witness:
  "resolve_column ascii_lower (db_columns sample_db) (show_int 3) = Some 3"
proof -
  have "sample_column 3 1 ''Done'' 2 None \<in> set (db_columns sample_db)" by (simp add: sample_db_def)
  moreover have "in_i64 (col_id (sample_column 3 1 ''Done'' 2 None))" by code_simp
  moreover have "col_id (sample_column 3 1 ''Done'' 2 None) = 3" by (simp add: sample_column_def)
  ultimately show ?thesis using column_reference_resolves [of "sample_column 3 1 ''Done'' 2 None"] by metis
qed

section \<open>Decisions\<close>

text \<open>
  C15: the lifecycle decision is safe. A run is finalized only when it is the card's open run and the
  one the caller named, if any; the process is killed only for a started run that is cancelled or
  timed out, and a timeout never ends a run that awaits review; only \<open>done\<close> ends a run as ok; and a queued run of a built-in harness can only be
  cancelled.
\<close>

theorem lifecycle_is_safe:
  assumes "decide_lifecycle f a = Finalize p"
  shows "(\<exists>r. lf_open_run_id f = Some r \<and> (lf_supplied_run_id f = None \<or> lf_supplied_run_id f = Some r)) \<and>
    (fp_kill p \<longrightarrow> lf_started f \<and> (a = ActCancel \<or> a = ActTimeout)) \<and>
    (fp_outcome p = OutcomeOk \<longrightarrow> a = ActDone OutcomeOk) \<and>
    (lf_harness f = BuiltIn \<and> \<not> lf_started f \<longrightarrow> a = ActCancel) \<and>
    (a = ActTimeout \<longrightarrow> lf_card_status f \<noteq> Awaiting)"
proof -
  have "a = ActTimeout \<longrightarrow> lf_card_status f \<noteq> Awaiting"
    using assms by (auto simp: lifecycle_defs split: option.splits if_splits)
  then show ?thesis
  using decide_lifecycle_finalize [OF assms] decide_lifecycle_kill [OF assms]
    decide_lifecycle_ok_only_done [OF assms] decide_lifecycle_builtin_queued [OF assms] by blast
qed

theorem lifecycle_is_safe_witness:
  "\<exists>p. decide_lifecycle \<lparr>lf_open_run_id = Some 3, lf_supplied_run_id = None, lf_started = True,
        lf_harness = BuiltIn, lf_card_status = Running\<rparr> ActTimeout = Finalize p \<and> fp_outcome p \<noteq> OutcomeOk"
proof -
  let ?f = "\<lparr>lf_open_run_id = Some 3, lf_supplied_run_id = None, lf_started = True,
        lf_harness = BuiltIn, lf_card_status = Running\<rparr>"
  obtain p where "decide_lifecycle ?f ActTimeout = Finalize p"
    by (auto simp: decide_lifecycle_def decide_action_def)
  with lifecycle_is_safe [OF this] show ?thesis by blast
qed

text \<open>
  an agent signal changes a card only while its run is live and keeps it live; an awaiting card
  and only an awaiting card has a reason; and repeating a signal changes nothing.
\<close>

theorem signals_settle:
  "(decide_signal st sig = Some d \<longrightarrow> signal_live st \<and> signal_live (sd_new_status d) \<and>
      (sd_awaiting_reason d \<noteq> None \<longleftrightarrow> sd_new_status d = Awaiting)) \<and>
   signal_step (signal_step (st, why) sig) sig = signal_step (st, why) sig"
  using decide_signal_live decide_signal_reason signal_step_idem by blast

theorem signals_settle_witness:
  "signal_step (signal_step (Running, None) SigDone) SigDone = (Awaiting, Some AgentDone)"
proof -
  have "signal_step (Running, None) SigDone = (Awaiting, Some AgentDone)" by code_simp
  then show ?thesis
    using signals_settle [of Running SigDone "the (decide_signal Running SigDone)" None, THEN conjunct2] by simp
qed

text \<open>
  where a finished run sends its card. The target is a column of the given list, named by the
  success or the fail transition of the current one and by no other outcome; the card is queued
  there exactly when that column is automatic, and stays as done or failed without a target.
\<close>

theorem transition_targets:
  "(\<forall>i. td_target_column_id (decide_transition cur cols out el) = Some i \<longrightarrow>
      (\<exists>k \<in> set cols. col_id k = i \<and> td_enqueue (decide_transition cur cols out el) = (col_trigger k = Auto)) \<and>
      out \<notin> {Cancelled, Lost}) \<and>
   td_new_status (decide_transition cur cols out el) =
     (if td_enqueue (decide_transition cur cols out el) then Queued
      else if td_target_column_id (decide_transition cur cols out el) \<noteq> None then Idle
      else if out = OutcomeOk then Done else Failed)"
  using decide_transition_target decide_transition_cancelled decide_transition_status by fastforce

theorem transition_targets_witness:
  "td_target_column_id (decide_transition (sample_column 2 1 ''Doing'' 1 (Some 3)) (db_columns sample_db) OutcomeOk None)
     = Some 3 \<and>
   td_new_status (decide_transition (sample_column 2 1 ''Doing'' 1 (Some 3)) (db_columns sample_db) OutcomeOk None) = Queued"
proof -
  let ?d = "decide_transition (sample_column 2 1 ''Doing'' 1 (Some 3)) (db_columns sample_db) OutcomeOk None"
  have "td_target_column_id ?d = Some 3" "td_enqueue ?d" by code_simp+
  then show ?thesis
    using transition_targets [of "sample_column 2 1 ''Doing'' 1 (Some 3)" "db_columns sample_db" OutcomeOk None] by simp
qed

text \<open>
  C21: automatic chains end. However the transitions of the visited columns are wired, a chain of
  automatic hops that starts from a reset counter runs at most \<open>MAX_AUTO_HOPS\<close> times, and a chain of
  automatic columns runs exactly that often or to its end.
\<close>

theorem auto_chain_ends:
  "auto_chain 0 ts \<le> max_auto_hops \<and>
   ((\<forall>t \<in> set ts. td_enqueue t) \<longrightarrow> auto_chain 0 ts = min max_auto_hops (length ts))"
  using auto_chain_bound_from [of 0 ts] auto_chain_exact_from [of ts 0] by simp

theorem auto_chain_ends_witness:
  "auto_chain 0 (replicate 20 \<lparr>td_target_column_id = Some 1, td_new_status = Queued, td_enqueue = True, td_system_comment = []\<rparr>) = 8"
  using auto_chain_ends [of "replicate 20 \<lparr>td_target_column_id = Some 1, td_new_status = Queued, td_enqueue = True, td_system_comment = []\<rparr>"]
  by (simp add: max_auto_hops_def)

section \<open>Settings\<close>

text \<open>
  C16: what the validator accepts can be launched. When a card's effective settings in a column pass
  \<open>validate_effective_settings\<close>, the daemon's builder produces a command line for them with any
  session plan, given a fresh session id, except for an opencode effort without a model.
\<close>

theorem validated_settings_launch:
  assumes "validate_effective_settings c column cfg = Inr ()"
    and "effective_settings c column = Inr es"
    and "es_harness es \<noteq> ''opencode'' \<or> es_effort es = None \<or> es_model es \<noteq> None"
  shows "\<exists>i. build_invocation ac (es_harness es) cfg es plan (Some fresh) prompt = Inr i"
proof -
  have v: "validate_settings_values (es_harness es) (es_model es) (es_effort es) (es_permission_mode es) cfg CardContext = Inr ()"
    using validate_effective_ok [OF assms(1)] assms(2) by (auto simp: validate_card_values_def)
  then obtain m where m: "meta_for (es_harness es) cfg = Some m"
    and p: "\<And>x. es_permission_mode es = Some x \<Longrightarrow> x \<in> set (hm_permissions m)"
    unfolding validate_settings_ok by blast
  have pi: "es_permission_mode es = None" if "es_harness es = ''pi''"
    using m p that by (cases "es_permission_mode es") (auto simp: meta_for_def pi_meta_def)
  show ?thesis
  proof (cases "is_builtin_harness (es_harness es)")
    case True
    then show ?thesis
      using pi assms(3) by (cases rule: builtin_harness_cases; cases plan)
        (auto simp: invocation_defs session_argv_def split: option.splits)
  next
    case False
    then obtain d where "map_of (cf_harness cfg) (es_harness es) = Some d"
      using m by (auto simp: meta_for_def is_builtin_harness_def builtin_harnesses_def)
    with False show ?thesis by (simp add: build_invocation_def is_builtin_harness_def builtin_harnesses_def)
  qed
qed

definition sample_settings :: effective_settings_row where
  "sample_settings =
     \<lparr>es_harness = ''pi'', es_model = None, es_effort = None, es_permission_mode = None, es_system_prompt = None,
      es_fresh_session = False, es_timeout_minutes = None\<rparr>"

theorem validated_settings_launch_witness:
  "\<exists>i. build_invocation (\<lambda>_ _. []) ''pi'' default_config sample_settings Mint (Some ''u1'') ''go'' = Inr i"
proof -
  let ?c = "sample_card 1 1 1 0 Idle" and ?k = "sample_column 1 1 ''Todo'' 0 None"
  have "validate_effective_settings ?c ?k default_config = Inr ()" by code_simp
  moreover have "effective_settings ?c ?k = Inr sample_settings" by code_simp
  moreover have "es_harness sample_settings = ''pi''" by (simp add: sample_settings_def)
  ultimately show ?thesis using validated_settings_launch [of ?c ?k default_config sample_settings] by simp
qed

text \<open>
  a column never grants \<open>bypassPermissions\<close>: a column override with that value is rejected by the
  column validator and by the launch, so when an effective setting has it, the card itself has it
  and the column overrides nothing.
\<close>

theorem bypass_only_from_card:
  assumes "effective_settings c column = Inr es" and "es_permission_mode es = Some ''bypassPermissions''"
  shows "cd_permission_mode c = Some ''bypassPermissions'' \<and> col_permission_override column = None \<and>
    (\<forall>h m e cfg. validate_column_values h m e (es_permission_mode es) cfg ColumnOverride \<noteq> Inr ())"
proof -
  have n: "validate_column_values h m e (es_permission_mode es) cfg ColumnOverride \<noteq> Inr ()" for h m e cfg
    using assms(2) by (simp add: validate_column_values_ok)
  have "col_permission_override column \<noteq> Some ''bypassPermissions'' \<and>
      or_else (col_permission_override column) (cd_permission_mode c) = Some ''bypassPermissions''"
    using assms by (auto simp: effective_settings_def validate_column_permission_override_def split: if_splits)
  with n show ?thesis by (auto simp: or_else_def split: option.splits)
qed

theorem bypass_only_from_card_witness:
  "\<exists>es. effective_settings ((sample_card 1 1 1 0 Idle)\<lparr>cd_permission_mode := Some ''bypassPermissions''\<rparr>)
       (sample_column 1 1 ''Todo'' 0 None) = Inr es \<and>
     validate_column_values None None None (es_permission_mode es) default_config ColumnOverride \<noteq> Inr ()"
proof -
  let ?c = "(sample_card 1 1 1 0 Idle)\<lparr>cd_permission_mode := Some ''bypassPermissions''\<rparr>"
  let ?es = "sample_settings\<lparr>es_permission_mode := Some ''bypassPermissions''\<rparr>"
  have "effective_settings ?c (sample_column 1 1 ''Todo'' 0 None) = Inr ?es" by code_simp
  with bypass_only_from_card [OF this] show ?thesis by simp
qed

text \<open>
  the engine previews exactly what the store will write: the column merge of the validator equals
  the store's, and the card merges agree except that the store also drops a permission mode when
  the card moves to pi and a thinking effort of off or minimal when it moves to claude.
\<close>

theorem merges_agree:
  "merge_column_update k u = merge_store_column k u \<and>
   (ku_harness v \<noteq> Some ''pi'' \<and> ku_harness v \<noteq> Some ''claude'' \<longrightarrow> merge_card_update c v = merge_store_update c v) \<and>
   (ku_harness v = Some ''pi'' \<and> is_unchanged (ku_permission_mode v) \<longrightarrow> cd_permission_mode (merge_store_update c v) = None)"
  by (cases "ku_permission_mode v")
     (auto simp: merge_column_update_def merge_store_column_def merge_card_update_def merge_store_update_def Let_def)

definition sample_to_pi :: card_update_params where
  "sample_to_pi =
     \<lparr>ku_id = 1, ku_title = None, ku_description = None, ku_harness = Some ''pi'', ku_model = Unchanged,
      ku_effort = Unchanged, ku_permission_mode = Unchanged, ku_session = Unchanged, ku_space_kind = None,
      ku_space_ref = Unchanged, ku_space_cwd = Unchanged\<rparr>"

theorem merges_agree_witness:
  "cd_permission_mode (merge_store_update ((sample_card 1 1 1 0 Idle)\<lparr>cd_permission_mode := Some ''plan''\<rparr>) sample_to_pi) = None"
  using merges_agree [where v = sample_to_pi] by (simp add: sample_to_pi_def)

text \<open>
  one catalogue behind every picker. A harness is offered exactly when it can be launched, each
  once; and the efforts offered for a model from a capability snapshot are those the adapter itself
  declares for it.
\<close>

theorem catalogue_is_faithful:
  "distinct (available_harnesses cfg) \<and> (h \<in> set (available_harnesses cfg) \<longleftrightarrow> meta_for h cfg \<noteq> None) \<and>
   (\<forall>m. meta_for h cfg = Some m \<longrightarrow> set (efforts_for (from_meta m) model) = set (hm_efforts m model))"
  using available_harnesses_iff available_harnesses_distinct efforts_for_meta by blast

theorem catalogue_is_faithful_witness:
  "set (efforts_for (from_meta opencode_meta) (Some ''opencode/deepseek-v4-flash-free'')) = {Low, High, Max}"
proof -
  have "meta_for ''opencode'' default_config = Some opencode_meta" by (simp add: meta_for_def)
  then have "set (efforts_for (from_meta opencode_meta) (Some ''opencode/deepseek-v4-flash-free'')) =
      set (hm_efforts opencode_meta (Some ''opencode/deepseek-v4-flash-free''))"
    using catalogue_is_faithful [of default_config "''opencode''" "Some ''opencode/deepseek-v4-flash-free''"] by blast
  also have "\<dots> = {Low, High, Max}" by code_simp
  finally show ?thesis .
qed

section \<open>Resuming a conversation\<close>



text \<open>
  a rescue never sends the task again: a resumed launch has no initial prompt and no
  \<open>BOARD_PROMPT\<close>, names the conversation it re-attaches to, and exists only for a harness that
  can resume by id and a non-blank id.
\<close>

theorem resume_sends_no_task:
  assumes "resume_invocation harness supp spec sid = Inr sp"
  shows "ex_initial_prompt sp = None \<and> ''BOARD_PROMPT'' \<notin> fst ` set (ex_env sp) \<and>
    (''BOARD_RESUME_SESSION_ID'', sid) \<in> set (ex_env sp) \<and> \<not> blank sid \<and> supp = ByConversationId"
  by (rule resume_never_resends [OF assms])

theorem resume_sends_no_task_witness:
  "\<exists>sp. resume_invocation ''mine'' ByConversationId
      \<lparr>ex_argv = [''mine''], ex_env = [(''BOARD_PROMPT'', ''go'')], ex_agent_kind = None, ex_initial_prompt = Some ''go'',
       ex_system_prompt = None\<rparr> ''s2'' = Inr sp \<and> ''BOARD_PROMPT'' \<notin> fst ` set (ex_env sp)"
proof -
  have "\<not> isl (resume_invocation ''mine'' ByConversationId
      \<lparr>ex_argv = [''mine''], ex_env = [(''BOARD_PROMPT'', ''go'')], ex_agent_kind = None, ex_initial_prompt = Some ''go'',
       ex_system_prompt = None\<rparr> ''s2'')" by code_simp
  then show ?thesis using resume_sends_no_task by (metis sum.collapse(2))
qed

end
