(* ===== verification/Store_Steps.thy ===== *)
theory Store_Steps
  imports Store_Context
begin

text \<open>
  The store as a state machine. A law that every statement on cards, columns and runs keeps is kept by
  every operation built from them (the locales \<open>card_law\<close>, \<open>work_law\<close> and \<open>column_law\<close>); their interpretations
  give the frame of the operations and the audit trail. \<open>store_call\<close> lists the operations that
  change the store, \<open>apply_call\<close> runs one, and \<open>reachable\<close> is what any sequence of calls, however it
  ends, leads to from a fresh database.
\<close>

section \<open>Laws of statements\<close>

lemma space_kept:
  "space_key_from_card (cd_position_update f c) = space_key_from_card c"
  "space_key_from_card (cd_board_id_update f c) = space_key_from_card c"
  "space_key_from_card (cd_column_id_update f c) = space_key_from_card c"
  "space_key_from_card (cd_status_update g c) = space_key_from_card c"
  "space_key_from_card (cd_awaiting_reason_update h c) = space_key_from_card c"
  "space_key_from_card (cd_session_id_update k c) = space_key_from_card c"
  "space_key_from_card (cd_archived_at_update k c) = space_key_from_card c"
  "space_key_from_card (cd_updated_at_update l c) = space_key_from_card c"
  by (simp_all add: space_key_from_card_def)

lemmas space_unfold = set_cd_pos_def touch_def promoted_card_def space_kept

locale card_law =
  fixes P :: "db \<Rightarrow> bool"
  assumes insert_card_law: "keeps P (insert_card c)"
    and update_cards_law: "(\<And>c. space_key_from_card (f c) = space_key_from_card c) \<Longrightarrow> keeps P (update_cards A f)"
    and insert_comment_law: "keeps P (insert_comment i author body)"
begin

lemma keeps_with_state: "(\<And>s. keeps P (m s)) \<Longrightarrow> keeps P (\<lambda>s. m s s)"
  by (simp add: keeps_def)

lemma card_where: "(\<And>s c. space_key_from_card (h s c) = space_key_from_card c) \<Longrightarrow> keeps P (update_card_where i h)"
  using update_cards_law by (simp add: keeps_def update_card_where_def)

lemma number: "keeps P (number_cards p is)"
  by (induction "is" arbitrary: p) (auto intro!: tx_keeps update_cards_law simp: space_unfold)

lemma place: "keeps P (place_card_in_column i col pos)" "keeps P (renumber_column_cards col)"
  unfolding place_card_in_column_def renumber_column_cards_def
  by (intro tx_keeps number update_cards_law; simp add: space_unfold)+

lemma insert_new: "keeps P (insert_new_card b col p)"
  using insert_card_law by (simp add: keeps_def insert_new_card_def)

lemma copy_law: "keeps P (\<lambda>s. insert_card (copy_card c (end_position cd_column_id cd_position col (db_cards s)) (db_now s)) s)"
  by (rule keeps_with_state) (rule insert_card_law)

lemmas card_steps = insert_card_law insert_comment_law card_where number place insert_new copy_law

lemma move: "keeps P (move_card i c p)"
  unfolding move_card_def by (intro tx_keeps card_steps; simp add: space_unfold)

lemma card_ops:
  "keeps P (move_card i c p)" "keeps P (transfer_card i b c p)" "keeps P (create_card kp)"
  "keeps P (duplicate_card i)" "keeps P (set_card_archived i a)"
  "keeps P (set_card_status i st)" "keeps P (set_card_awaiting i re)" "keeps P (set_card_session i sid)"
  "keeps P (add_comment i author body)"
  unfolding transfer_card_def create_card_def duplicate_card_def set_card_archived_def
    set_card_status_def set_card_awaiting_def set_card_session_def add_comment_def require_comment_def Let_def
  by (intro tx_keeps card_steps move; simp add: space_unfold)+

end

locale edit_law = card_law +
  assumes edit_cards_law: "keeps P (update_cards A f)"
begin

lemma edit: "keeps P (update_card u)"
proof -
  have "keeps P (update_card_where i h)" for i h
    using edit_cards_law by (simp add: keeps_def update_card_where_def)
  then show ?thesis unfolding update_card_def Let_def by (intro tx_keeps)
qed

end

locale delete_law = card_law +
  fixes i :: int
  assumes delete_card_law: "keeps P (delete_card_row i)"
begin

lemma delete: "keeps P (delete_card i)"
  unfolding delete_card_def by (intro tx_keeps card_steps delete_card_law)

end

definition settles :: "run \<Rightarrow> run \<Rightarrow> bool" where
  \<comment> \<open>nothing starts or reopens\<close>
  "settles r r' \<longleftrightarrow> rn_card_id r' = rn_card_id r \<and> rn_started_at r' = rn_started_at r \<and>
     (rn_ended_at r' = None \<longrightarrow> rn_ended_at r = None)"

definition continues :: "run \<Rightarrow> run \<Rightarrow> bool" where
  \<comment> \<open>nor ends\<close>
  "continues r r' \<longleftrightarrow> rn_card_id r' = rn_card_id r \<and> rn_started_at r' = rn_started_at r \<and> rn_ended_at r' = rn_ended_at r"

lemma run_edits:
  "continues r (r\<lparr>rn_session_id := x\<rparr>)" "continues r (r\<lparr>rn_timeout_paused_at_ms := y\<rparr>)"
  "continues r (r\<lparr>rn_timeout_deadline_at_ms := z, rn_timeout_paused_at_ms := y\<rparr>)"
  "settles r (closed s out summary r)"
  by (simp_all add: settles_def continues_def closed_def)

lemma continues_settles: "continues r r' \<Longrightarrow> settles r r'"
  by (simp add: settles_def continues_def)

locale work_law = card_law +
  assumes insert_run_law: "rn_started_at r = None \<Longrightarrow> keeps P (insert_run r)"
    and update_runs_law: "(\<And>r. continues r (g r)) \<Longrightarrow> keeps P (update_runs B g)"
begin

lemma run_where: "(\<And>s r. continues r (k s r)) \<Longrightarrow> keeps P (update_run_where i k)"
  using update_runs_law by (simp add: keeps_def update_run_where_def)

lemma insert_queued: "keeps P (insert_run (queued_run c p))"
  by (rule insert_run_law) (simp add: queued_run_def)

lemmas run_steps = card_steps insert_queued update_runs_law run_where

lemma queue: "keeps P (enqueue_run_tx i p)"
  unfolding enqueue_run_tx_def by (intro tx_keeps run_steps; simp add: space_unfold)

lemma run_ops:
  "keeps P (create_card_and_enqueue kp er)"
  "keeps P (move_card_and_enqueue i c p er)" "keeps P (transfer_card_and_enqueue i b c p er)"
  "keeps P (pause_run_timeout i re now)" "keeps P (resume_run_timeout i st now)"
  "keeps P (Store_Runs.enqueue_run er)" "keeps P (promote_captured_session i sid)"
  unfolding create_card_and_enqueue_def move_card_and_enqueue_def transfer_card_and_enqueue_def
    pause_run_timeout_def resume_run_timeout_def enqueue_run_def promote_captured_session_def
    case_prod_beta Let_def
  by (intro tx_keeps run_steps queue; simp add: space_unfold run_edits)+

end

locale close_law = work_law +
  assumes close_runs_law: "(\<And>r. settles r (g r)) \<Longrightarrow> keeps P (update_runs B g)"
begin

lemma finalize_move: "keeps P (finalize_move i col)"
  unfolding finalize_move_def by (intro tx_keeps run_steps; simp add: space_unfold)

lemma close_run: "keeps P (update_run_where i (\<lambda>s. closed s out summary))"
  using close_runs_law run_edits(4) by (simp add: keeps_def update_run_where_def)

lemma finalize: "keeps P (finalize_run_uow fz)"
  unfolding finalize_run_uow_def finalize_body_def case_prod_beta
  by (intro tx_keeps card_steps insert_queued close_run finalize_move; simp add: space_unfold)

end

locale start_law = close_law +
  assumes start_runs_law: "keeps P (update_runs B g)"
begin

lemma promote: "keeps P (promote_run_with_anchor i w pn an dl cap)"
proof -
  have "keeps P (update_run_where i k)" for k
    using start_runs_law by (simp add: keeps_def update_run_where_def)
  then show ?thesis
    unfolding promote_run_with_anchor_def by (intro tx_keeps card_where; simp add: space_unfold)
qed

end

locale column_law = card_law +
  assumes insert_column_law: "keeps P (insert_column k)"
    and update_columns_law: "keeps P (update_columns C h)"
    and delete_column_law: "keeps P (delete_column_row i)"
begin

lemma number_columns: "keeps P (number_columns p is)"
  by (induction "is" arbitrary: p) (auto intro!: tx_keeps update_columns_law)

lemma insert_new_column: "keeps P (insert_new_column b x y p)"
  unfolding insert_new_column_def [abs_def]
  by (rule keeps_with_state) (intro tx_keeps insert_column_law)

lemma reorder: "keeps P (reorder_column i p)"
  unfolding reorder_column_def by (intro tx_keeps number_columns)

lemma move_cards: "keeps P (move_cards_to d is)"
  by (induction "is") (auto intro!: tx_keeps card_steps simp: space_unfold)

lemma insert_specs: "keeps P (insert_specs b ps)"
  by (induction ps) (auto intro!: tx_keeps insert_new_column)

lemma check_specs: "keeps P (check_specs b ps)"
  by (induction ps) (auto intro!: tx_keeps)

lemma resolve: "keeps P (resolve_target b ids v)"
  unfolding resolve_target_def
  by (cases v; simp add: tx_keeps; cases "the v"; auto intro!: tx_keeps)

lemma wire: "keeps P (wire_columns b ids ws)"
  by (induction ws) (auto intro!: tx_keeps update_columns_law resolve)

lemma column_ops:
  "keeps P (create_column cp)" "keeps P (update_column cu)" "keeps P (reorder_column i p)"
  "keeps P (delete_column i d)" "keeps P (apply_template_columns b specs ws)"
  unfolding create_column_def update_column_def delete_column_def apply_template_columns_def Let_def
  by (intro tx_keeps insert_new_column reorder update_columns_law delete_column_law number_columns
      move_cards insert_specs check_specs wire; simp add: space_unfold)+

end

locale context_law =
  fixes P :: "db \<Rightarrow> bool"
  assumes context_fields:
      "P (s\<lparr>db_projects := a\<rparr>) = P s" "P (s\<lparr>db_boards := b\<rparr>) = P s" "P (s\<lparr>db_selection := c\<rparr>) = P s"
      "P (s\<lparr>db_board_selection := d\<rparr>) = P s" "P (s\<lparr>db_project_recents := e\<rparr>) = P s"
      "P (s\<lparr>db_board_recents := f\<rparr>) = P s"
    and seed_law: "keeps P (insert_column k)"
begin

lemma context_rows:
  "keeps P (insert_project sc)" "keeps P (insert_board p name)" "keeps P (rename_board_row i name)"
  "keeps P (set_board_archived_at i a)" "keeps P (set_project_archived_at i a)" "keeps P (seed_todo b)"
  "keeps P clear_selection" "keeps P (guardT Q e)"
proof -
  have "keeps P (thenT (insert_column k) (returnT ()))" for k
    by (intro tx_keeps seed_law)
  then show "keeps P (seed_todo b)"
    unfolding keeps_def seed_todo_def by simp
qed (auto simp: keeps_def insert_project_def insert_board_def rename_board_row_def set_board_archived_at_def
    set_project_archived_at_def clear_selection_def guardT_def queryT_def modifyT_def Let_def context_fields)

lemma recency:
  "keeps P (touch_project_recency p)" "keeps P (touch_board_recency p b)" "keeps P (write_selection p b)"
  unfolding touch_project_recency_def touch_board_recency_def write_selection_def insert_project_recent_def
    insert_board_recent_def case_prod_beta
  by (intro tx_keeps context_rows; simp add: context_fields)+

lemma remember: "keeps P (remember_context p b)"
  unfolding remember_context_def by (intro tx_keeps recency)

lemma reads: "keeps P (project_context_board p)" "keeps P (main_board p)" "keeps P (require_project_by_scope sc)"
    "keeps P (scope_nonempty sc)" "keeps P (reject_with msg r)"
proof -
  show m: "keeps P (main_board p)" for p unfolding main_board_def by (intro tx_keeps)
  show "keeps P (project_context_board p)"
    unfolding project_context_board_def by (intro tx_keeps m)
  show "keeps P (reject_with msg r)" unfolding reject_with_def by (cases r) (simp_all add: tx_keeps)
qed (unfold require_project_by_scope_def scope_nonempty_def, (intro tx_keeps)+)

lemma get_or_create: "keeps P (get_or_create_project sc)"
  unfolding get_or_create_project_def by (intro tx_keeps context_rows reads)

lemma fallback: "keeps P (select_fallback_project lower)"
  unfolding select_fallback_project_def by (intro tx_keeps context_rows remember)

lemma leave: "keeps P (leave_archived_board lower p i)"
  unfolding leave_archived_board_def
  by (intro tx_keeps recency fallback) (simp_all add: context_fields)

lemma context_ops:
  "keeps P (get_or_create_project sc)" "keeps P (open_board sc)" "keeps P (create_project_context sc)"
  "keeps P (open_project_context sc)" "keeps P (select_project_by_scope sc bo)" "keeps P (select_board i)"
  "keeps P (create_board p name)" "keeps P (rename_board i name)" "keeps P (set_board_archived lower i ar)"
  "keeps P (set_project_archived lower sc ar)"
  unfolding open_board_def create_project_context_def open_project_context_def select_project_by_scope_def
    select_board_def create_board_def rename_board_def set_board_archived_def set_project_archived_def
    Let_def case_prod_beta
  by (intro tx_keeps get_or_create context_rows remember reads leave fallback)+

end

section \<open>Frames\<close>

definition context_part :: "db \<Rightarrow> _" where
  "context_part s = (db_projects s, db_boards s, db_selection s, db_board_selection s, db_project_recents s, db_board_recents s)"

lemmas statement_defs = insert_card_def update_cards_def delete_card_row_def insert_run_def update_runs_def
  insert_comment_def insert_column_def update_columns_def delete_column_row_def

interpretation context_frame: column_law "\<lambda>s. context_part s = X" for X
  by unfold_locales (auto simp: keeps_def statement_defs context_part_def Let_def)

interpretation context_edit: edit_law "\<lambda>s. context_part s = X" for X
  by unfold_locales (auto simp: keeps_def statement_defs context_part_def Let_def)

interpretation context_runs: start_law "\<lambda>s. context_part s = X" for X
  by unfold_locales (auto simp: keeps_def statement_defs context_part_def Let_def)

interpretation context_delete: delete_law "\<lambda>s. context_part s = X" i for X i
  by unfold_locales (auto simp: keeps_def statement_defs context_part_def Let_def)

interpretation runs_frame: column_law "\<lambda>s. db_runs s = X" for X
  by unfold_locales (auto simp: keeps_def statement_defs Let_def)

interpretation runs_edit: edit_law "\<lambda>s. db_runs s = X" for X
  by unfold_locales (auto simp: keeps_def statement_defs Let_def)

interpretation columns_frame: start_law "\<lambda>s. db_columns s = X" for X
  by unfold_locales (auto simp: keeps_def statement_defs Let_def)

interpretation columns_edit: edit_law "\<lambda>s. db_columns s = X" for X
  by unfold_locales (auto simp: keeps_def statement_defs Let_def)

interpretation columns_delete: delete_law "\<lambda>s. db_columns s = X" i for X i
  by unfold_locales (auto simp: keeps_def statement_defs Let_def)

interpretation trail_frame: context_law "\<lambda>s. (db_comments s, db_history s) = X" for X
  by unfold_locales (auto simp: keeps_def statement_defs Let_def)

interpretation work_frame: context_law "\<lambda>s. (db_cards s, db_runs s) = X" for X
  by unfold_locales (auto simp: keeps_def statement_defs Let_def)

subsection \<open>The audit trail\<close>

lemma audit_inv_frame:
  "audit_inv s \<Longrightarrow> schema_ok t \<Longrightarrow> db_comments t = db_comments s \<Longrightarrow> db_history t = db_history s \<Longrightarrow> audit_inv t"
  by (simp add: audit_inv_def)

lemma keeps_audit_frame:
  assumes "keeps schema_ok m" and "\<And>s. db_comments (snd (m s)) = db_comments s \<and> db_history (snd (m s)) = db_history s"
  shows "keeps audit_inv m"
  unfolding keeps_def
proof (intro allI impI)
  fix s assume inv: "audit_inv s"
  then have "schema_ok (snd (m s))" using assms(1) by (simp add: keeps_def audit_inv_def)
  with inv assms(2) show "audit_inv (snd (m s))" by (blast intro: audit_inv_frame)
qed

lemma newest_filter:
  assumes "newest m hs" and "\<And>h. ch_comment_id h = cm_id m \<Longrightarrow> ch_card_id h = cm_card_id m \<Longrightarrow> Q h"
  shows "newest m (filter Q hs)"
proof -
  obtain as h where h: "filter (\<lambda>h. ch_comment_id h = cm_id m) hs = as @ [h]"
    and r: "ch_body h = cm_body m" "ch_author h = cm_author m" "ch_deleted_at h = cm_deleted_at m" "ch_card_id h = cm_card_id m"
      "\<forall>a \<in> set as. ch_id a < ch_id h \<and> ch_author a = cm_author m \<and> ch_deleted_at a = None"
    using assms(1) unfolding newest_def by blast
  have "h \<in> set (filter (\<lambda>h. ch_comment_id h = cm_id m) hs)" unfolding h by simp
  then have q: "Q h" using assms(2) r(4) by simp
  have "filter (\<lambda>h. ch_comment_id h = cm_id m) (filter Q hs) = filter Q (filter (\<lambda>h. ch_comment_id h = cm_id m) hs)"
    by (simp add: conj_commute)
  then have "filter (\<lambda>h. ch_comment_id h = cm_id m) (filter Q hs) = filter Q as @ [h]"
    using q unfolding h by simp
  then show ?thesis unfolding newest_def using r by (intro exI [of _ "filter Q as"] exI [of _ h]) auto
qed

lemma keeps_audit_delete: "keeps audit_inv (delete_card_row i)"
  unfolding keeps_def
proof (intro allI impI)
  fix s assume inv: "audit_inv s"
  let ?Q = "\<lambda>h. ch_card_id h \<noteq> i \<and> \<not> (\<exists>m \<in> set (db_comments s). cm_id m = ch_comment_id h \<and> cm_card_id m = i)"
  let ?t = "snd (delete_card_row i s)"
  have t: "db_comments ?t = filter (\<lambda>m. cm_card_id m \<noteq> i) (db_comments s)" "db_history ?t = filter ?Q (db_history s)"
    by (simp_all add: delete_card_row_def)
  have ok: "schema_ok s" using inv by (simp add: audit_inv_def)
  then have "schema_ok ?t" using keeps_delete_card_row by (simp add: keeps_def)
  moreover have "\<forall>h \<in> set (db_history ?t). ch_comment_id h \<in> cm_id ` set (db_comments ?t)"
    using inv unfolding t audit_inv_def by (fastforce simp: image_iff)
  moreover have "newest m (db_history ?t)" if m: "m \<in> set (db_comments ?t)" for m
    unfolding t
  proof (rule newest_filter)
    from m have m': "m \<in> set (db_comments s)" "cm_card_id m \<noteq> i" by (simp_all add: t)
    with inv show "newest m (db_history s)" by (simp add: audit_inv_def)
    fix h assume "ch_comment_id h = cm_id m" "ch_card_id h = cm_card_id m"
    with m' comment_unique [OF ok m'(1)] show "?Q h" by metis
  qed
  ultimately show "audit_inv ?t" by (simp add: audit_inv_def)
qed

interpretation audit: column_law audit_inv
proof unfold_locales
qed (rule keeps_audit_insert |
    (rule keeps_audit_frame, (intro tx_keeps)[1], simp add: statement_defs Let_def split: if_splits))+

interpretation audit_runs: start_law audit_inv
proof unfold_locales
qed (rule keeps_audit_frame, (intro tx_keeps)[1], simp add: statement_defs Let_def split: if_splits)+

interpretation audit_delete: delete_law audit_inv i for i
  by unfold_locales (rule keeps_audit_delete)

interpretation audit_edit: edit_law audit_inv
proof unfold_locales
qed (rule keeps_audit_frame, (intro tx_keeps)[1], simp add: statement_defs Let_def split: if_splits)

subsection \<open>Cards stay\<close>

definition has_card :: "int \<Rightarrow> db \<Rightarrow> bool" where
  "has_card i s \<longleftrightarrow> i \<in> cd_id ` set (db_cards s)"

lemma has_card_laws:
  "keeps (has_card i) (insert_card c)" "keeps (has_card i) (update_cards A f)"
  "j \<noteq> i \<Longrightarrow> keeps (has_card i) (delete_card_row j)"
  by (auto simp: keeps_def has_card_def statement_defs cards_t.set_insert Let_def image_update_where)

interpretation card_stays: column_law "has_card i" for i
proof unfold_locales
qed (rule has_card_laws | simp add: keeps_def has_card_def statement_defs Let_def)+

interpretation card_stays_runs: start_law "has_card i" for i
proof unfold_locales
qed (simp add: keeps_def has_card_def statement_defs Let_def)+

interpretation card_stays_edit: edit_law "has_card i" for i
  by unfold_locales (rule has_card_laws)

lemma delete_other_card: "j \<noteq> i \<Longrightarrow> keeps (has_card i) (delete_card j)"
  unfolding delete_card_def by (intro tx_keeps has_card_laws card_stays.place)

subsection \<open>Cards keep their space\<close>

definition in_space :: "int \<Rightarrow> space_key \<Rightarrow> db \<Rightarrow> bool" where
  "in_space i k s \<longleftrightarrow> (\<exists>c \<in> set (db_cards s). cd_id c = i \<and> space_key_from_card c = k)"

lemma set_cd_id_space: "space_key_from_card (set_cd_id i c) = space_key_from_card c" "cd_id (set_cd_id i c) = i"
  by (simp_all add: set_cd_id_def space_key_from_card_def)

lemma in_space_update:
  assumes "\<And>c. cd_id (f c) = cd_id c" "\<And>c. space_key_from_card (f c) = space_key_from_card c"
  shows "in_space i k (s\<lparr>db_cards := update_where A f (db_cards s)\<rparr>) = in_space i k s"
proof -
  have *: "in_space i k u \<longleftrightarrow> (i, k) \<in> (\<lambda>c. (cd_id c, space_key_from_card c)) ` set (db_cards u)" for u
    by (auto simp: in_space_def image_iff)
  show ?thesis unfolding * using assms by (simp add: image_update_where)
qed

lemma in_space_laws:
  "keeps (in_space i k) (insert_card c)"
  "(\<And>c. space_key_from_card (f c) = space_key_from_card c) \<Longrightarrow> keeps (in_space i k) (update_cards A f)"
  "j \<noteq> i \<Longrightarrow> keeps (in_space i k) (delete_card_row j)"
proof -
  show "keeps (in_space i k) (insert_card c)"
    by (auto simp: keeps_def in_space_def insert_card_def cards_t.set_insert)
  show "keeps (in_space i k) (delete_card_row j)" if "j \<noteq> i"
    using that by (auto simp: keeps_def in_space_def delete_card_row_def)
  show "keeps (in_space i k) (update_cards A f)" if "\<And>c. space_key_from_card (f c) = space_key_from_card c"
  proof -
    have "in_space i k (s\<lparr>db_cards := update_where A (\<lambda>c. (f c)\<lparr>cd_id := cd_id c\<rparr>) (db_cards s)\<rparr>) = in_space i k s" for s
      using that by (intro in_space_update) (simp_all add: space_key_from_card_def)
    then show ?thesis by (simp add: keeps_def update_cards_def Let_def)
  qed
qed

lemma in_space_frame: "(\<And>X. keeps (\<lambda>s. db_cards s = X) m) \<Longrightarrow> keeps (in_space i k) m"
  by (simp add: keeps_def in_space_def)

lemma cards_frame:
  "keeps (\<lambda>s. db_cards s = X) (insert_comment j a b)" "keeps (\<lambda>s. db_cards s = X) (insert_column c)"
  "keeps (\<lambda>s. db_cards s = X) (update_columns C h)" "keeps (\<lambda>s. db_cards s = X) (delete_column_row j)"
  "keeps (\<lambda>s. db_cards s = X) (insert_run r)" "keeps (\<lambda>s. db_cards s = X) (update_runs B g)"
  by (simp_all add: keeps_def statement_defs Let_def)

interpretation space_stays: column_law "in_space i k" for i k
  by unfold_locales (assumption | rule in_space_laws | rule in_space_frame cards_frame)+

interpretation space_stays_runs: start_law "in_space i k" for i k
  by unfold_locales (rule in_space_frame cards_frame)+

lemma delete_other_space: "j \<noteq> i \<Longrightarrow> keeps (in_space i k) (delete_card j)"
  unfolding delete_card_def by (intro tx_keeps in_space_laws space_stays.place)

subsection \<open>Runs do not start by themselves\<close>

definition active_in :: "(int \<times> int) set \<Rightarrow> db \<Rightarrow> bool" where
  "active_in X s \<longleftrightarrow> (\<forall>r \<in> set (db_runs s). active_open r \<longrightarrow> (rn_id r, rn_card_id r) \<in> X)"

lemma active_in_update:
  assumes "\<And>r. rn_id (h r) = rn_id r \<and> rn_card_id (h r) = rn_card_id r \<and> (active_open (h r) \<longrightarrow> active_open r)"
    and "active_in X s"
  shows "active_in X (s\<lparr>db_runs := update_where B h (db_runs s)\<rparr>)"
  using assms by (simp add: active_in_def ball_update_where)

lemma active_in_laws:
  "rn_started_at r = None \<Longrightarrow> keeps (active_in X) (insert_run r)"
  "(\<And>r. settles r (g r)) \<Longrightarrow> keeps (active_in X) (update_runs B g)"
  "keeps (active_in X) (delete_card_row i)"
proof -
  show "keeps (active_in X) (insert_run r)" if "rn_started_at r = None"
    using that by (auto simp: keeps_def active_in_def insert_run_def runs_t.set_insert set_rn_id_def active_open_def)
  show "keeps (active_in X) (delete_card_row i)"
    by (simp add: keeps_def active_in_def delete_card_row_def)
  show "keeps (active_in X) (update_runs B g)" if g: "\<And>r. settles r (g r)"
  proof -
    let ?h = "\<lambda>r. (g r)\<lparr>rn_id := rn_id r, rn_card_id := rn_card_id r, rn_column_id := rn_column_id r,
        rn_ended_at := (case rn_ended_at (g r) of None \<Rightarrow> rn_ended_at r | Some t \<Rightarrow> Some t)\<rparr>"
    have still: "active_open (?h r) \<longrightarrow> active_open r" for r
      using g [of r] by (cases "rn_ended_at (g r)") (simp_all add: settles_def active_open_def open_run_def)
    have "rn_id (?h r) = rn_id r \<and> rn_card_id (?h r) = rn_card_id r \<and> (active_open (?h r) \<longrightarrow> active_open r)" for r
      by (intro conjI still) simp_all
    from active_in_update [OF this] show ?thesis unfolding keeps_def update_runs_def Let_def by simp
  qed
qed

lemma active_in_frame: "(\<And>Y. keeps (\<lambda>s. db_runs s = Y) m) \<Longrightarrow> keeps (active_in X) m"
  by (simp add: keeps_def active_in_def)

interpretation active_frame: close_law "active_in X" for X
  by unfold_locales
     (assumption | rule active_in_laws | rule active_in_frame, simp add: keeps_def statement_defs Let_def | blast intro: active_in_laws continues_settles)+

text \<open>\<open>running i c\<close>: the run \<open>i\<close> of the card \<open>c\<close> is started and open.\<close>

definition running :: "int \<Rightarrow> int \<Rightarrow> db \<Rightarrow> bool" where
  "running i c s \<longleftrightarrow> (\<exists>r \<in> set (db_runs s). rn_id r = i \<and> rn_card_id r = c \<and> active_open r)"

lemma running_update:
  assumes "\<And>r. rn_id (h r) = rn_id r \<and> rn_card_id (h r) = rn_card_id r \<and> (active_open r \<longrightarrow> active_open (h r))"
    and "running i c s"
  shows "running i c (s\<lparr>db_runs := update_where B h (db_runs s)\<rparr>)"
proof -
  obtain r where r: "r \<in> set (db_runs s)" "rn_id r = i" "rn_card_id r = c" "active_open r"
    using assms(2) by (auto simp: running_def)
  show ?thesis
    unfolding running_def
    by (rule bexI [of _ "if B r then h r else r"]) (use r assms(1) in \<open>simp_all add: update_where_def\<close>)
qed

lemma running_laws:
  "keeps (running i c) (insert_run r)"
  "(\<And>r. continues r (g r)) \<Longrightarrow> keeps (running i c) (update_runs B g)"
  "j \<noteq> c \<Longrightarrow> keeps (running i c) (delete_card_row j)"
proof -
  show "keeps (running i c) (insert_run r)"
    by (auto simp: keeps_def running_def insert_run_def runs_t.set_insert)
  show "keeps (running i c) (delete_card_row j)" if "j \<noteq> c"
    using that by (auto simp: keeps_def running_def delete_card_row_def)
  show "keeps (running i c) (update_runs B g)" if g: "\<And>r. continues r (g r)"
  proof -
    let ?h = "\<lambda>r. (g r)\<lparr>rn_id := rn_id r, rn_card_id := rn_card_id r, rn_column_id := rn_column_id r,
        rn_ended_at := (case rn_ended_at (g r) of None \<Rightarrow> rn_ended_at r | Some t \<Rightarrow> Some t)\<rparr>"
    have still: "active_open r \<longrightarrow> active_open (?h r)" for r
      using g [of r] by (cases "rn_ended_at (g r)") (simp_all add: continues_def active_open_def open_run_def)
    have "rn_id (?h r) = rn_id r \<and> rn_card_id (?h r) = rn_card_id r \<and> (active_open r \<longrightarrow> active_open (?h r))" for r
      by (intro conjI still) simp_all
    from running_update [OF this] show ?thesis unfolding keeps_def update_runs_def Let_def by simp
  qed
qed

lemma running_frame: "(\<And>Y. keeps (\<lambda>s. db_runs s = Y) m) \<Longrightarrow> keeps (running i c) m"
  by (simp add: keeps_def running_def)

interpretation running_stays: work_law "running i c" for i c
  by unfold_locales
     (assumption | rule running_laws | rule running_frame, simp add: keeps_def statement_defs Let_def)+

lemma running_delete: "j \<noteq> c \<Longrightarrow> keeps (running i c) (delete_card j)"
  unfolding delete_card_def by (intro tx_keeps running_laws running_stays.place)

interpretation active_delete: delete_law "active_in X" i for X i
  by unfold_locales (rule active_in_laws)

subsection \<open>The context\<close>

lemma frame_eq: "(\<And>X. keeps (\<lambda>s. f s = X) m) \<Longrightarrow> f (snd (m s)) = f s"
  by (simp add: keeps_def)

lemma context_inv_frame: "context_inv s \<Longrightarrow> schema_ok t \<Longrightarrow> context_part t = context_part s \<Longrightarrow> context_inv t"
  by (simp add: context_inv_def context_part_def project_exists_def board_in_project_def)

lemma store_inv_columns: "store_inv s \<Longrightarrow> board_inv t \<Longrightarrow> db_columns t = db_columns s \<Longrightarrow> store_inv t"
  by (simp add: store_inv_def compact_board_def board_columns_def targets_local_def column_boards_def)

lemma keeps_ctx_column:
  assumes "keeps store_inv m" and "\<And>X. keeps (\<lambda>s. context_part s = X) m"
  shows "keeps ctx_ok m"
  unfolding keeps_def ctx_ok_def
proof (intro allI impI conjI)
  fix s assume s: "store_inv s \<and> context_inv s"
  then show t: "store_inv (snd (m s))" using assms(1) by (simp add: keeps_def)
  show "context_inv (snd (m s))"
    using s store_invD(2) [OF t] frame_eq [OF assms(2)] by (blast intro: context_inv_frame)
qed

lemma keeps_ctx_work:
  assumes "keeps board_inv m" and "\<And>X. keeps (\<lambda>s. db_columns s = X) m" and "\<And>X. keeps (\<lambda>s. context_part s = X) m"
  shows "keeps ctx_ok m"
proof (rule keeps_ctx_column [OF _ assms(3)])
  show "keeps store_inv m"
    unfolding keeps_def
  proof (intro allI impI)
    fix s assume s: "store_inv s"
    then have "board_inv (snd (m s))" using assms(1) store_invD(1) by (simp add: keeps_def)
    with s frame_eq [OF assms(2)] show "store_inv (snd (m s))" by (blast intro: store_inv_columns)
  qed
qed

lemma keeps_ctx_quiet:
  assumes "keeps schema_ok m" and "\<And>X. keeps (\<lambda>s. (db_cards s, db_columns s, context_part s) = X) m"
  shows "keeps ctx_ok m"
proof (rule keeps_ctx_work)
  have f: "db_cards (snd (m s)) = db_cards s \<and> db_columns (snd (m s)) = db_columns s \<and> context_part (snd (m s)) = context_part s"
    for s using frame_eq [OF assms(2), of s] by simp
  then show "keeps (\<lambda>s. db_columns s = X) m" "keeps (\<lambda>s. context_part s = Y) m" for X Y
    by (simp_all add: keeps_def)
  show "keeps board_inv m"
    unfolding keeps_def
  proof (intro allI impI)
    fix s assume s: "board_inv s"
    then have "schema_ok (snd (m s))" using assms(1) board_invD by (simp add: keeps_def)
    then show "board_inv (snd (m s))" using board_inv_frame(1) [OF s] f by blast
  qed
qed

lemma keeps_comment_edits:
  "keeps ctx_ok (update_comment i body)" "keeps ctx_ok (soft_delete_comment i)"
  "keeps audit_inv (update_comment i body)" "keeps audit_inv (soft_delete_comment i)"
proof -
  have st: "keeps P (update_comments A f)" "keeps P (\<lambda>s. update_comments (C s) (k s) s)"
      "keeps P (\<lambda>s. insert_history (h s) s)" "keeps P (\<lambda>s. update_history (B s) (g s) s)"
    if "\<And>A f. keeps P (update_comments A f)" "\<And>h. keeps P (insert_history h)" "\<And>B g. keeps P (update_history B g)"
    for P :: "db \<Rightarrow> bool" and A f C k h B g
    using that by (simp_all add: keeps_def)
  have q: "keeps (\<lambda>s. (db_cards s, db_columns s, context_part s) = X) (update_comments A f)"
    "keeps (\<lambda>s. (db_cards s, db_columns s, context_part s) = X) (insert_history h)"
    "keeps (\<lambda>s. (db_cards s, db_columns s, context_part s) = X) (update_history B g)" for X A f h B g
    by (auto simp: keeps_def update_comments_def insert_history_def update_history_def context_part_def)
  note q = st [of "\<lambda>s. (db_cards s, db_columns s, context_part s) = X" for X, OF q]
    st [OF keeps_update_comments keeps_insert_history keeps_update_history]
  show "keeps ctx_ok (update_comment i body)" "keeps ctx_ok (soft_delete_comment i)"
    unfolding update_comment_def soft_delete_comment_def require_comment_def
    by (intro keeps_ctx_quiet; intro tx_keeps q)+
  show "keeps audit_inv (update_comment i body)" "keeps audit_inv (soft_delete_comment i)"
    unfolding keeps_wp
    by (auto intro!: wp_mono [OF update_comment_wp] wp_mono [OF soft_delete_comment_wp] simp: comment_edited_def)
qed

end
