(* ===== verification/Daemon_State.thy ===== *)
theory Daemon_State
  imports Store_Steps Engine_Decisions Harness "HOL-Library.AList"
begin

text \<open>
  The state of the daemon (\<open>board-daemon/src/state.rs\<close>, \<open>store.rs\<close>): the database, the scheduler's
  bookkeeping of started runs, the watched panes, and the effects it has sent out (events, wake-ups,
  notifications, kills), in order. A method on \<open>Arc<Daemon>\<close> is a computation over this state; a
  block under the scheduler and the store lock is one such computation, so what interleaves are
  these blocks. A \<open>HashMap\<close> is an association list: its order stands for the unspecified iteration order.

  What the process reads from outside (clocks, UUIDs, the antigravity catalogue, the session
  registry, the JSON encoder) is the record \<open>env\<close>, an argument of the operations, so it may differ from one
  call to the next. An \<open>Instant\<close> is an \<open>int\<close> of nanoseconds.
\<close>

section \<open>Runs in memory\<close>

record runtime_handle =
  rh_pane_id :: "string option"
  rh_workspace_id :: "string option"
  rh_anchor_pane_id :: "string option"
  rh_pid :: "int option"
  rh_herdr_socket :: "string option"
  rh_captured_session_id :: "string option"

record active_run =
  ar_card_id :: int
  ar_handle :: runtime_handle
  ar_started :: int
  ar_timeout_deadline :: "int option"
  ar_idle_since :: "int option"
  ar_awaiting_since :: "int option"
  ar_is_local :: bool
  ar_pane_id :: "string option"

definition ns_per_ms :: int where "ns_per_ms = 1000000"
definition ns_per_sec :: int where "ns_per_sec = 1000000000"

definition saturating_duration_since :: "int \<Rightarrow> int \<Rightarrow> int" where
  "saturating_duration_since now earlier = max 0 (now - earlier)"

definition instant_checked_add :: "int \<Rightarrow> int \<Rightarrow> int \<Rightarrow> int option" where
  \<comment> \<open>\<open>hi\<close> is the last representable instant\<close>
  "instant_checked_add hi t d = (if t + d \<le> hi then Some (t + d) else None)"

definition instant_checked_sub :: "int \<Rightarrow> int \<Rightarrow> int \<Rightarrow> int option" where
  "instant_checked_sub lo t d = (if lo \<le> t - d then Some (t - d) else None)"

definition reconstruct_deadline :: "int \<Rightarrow> int \<Rightarrow> int \<Rightarrow> int option \<Rightarrow> int option" where
  "reconstruct_deadline hi adopted_at wall_now_ms deadline_at_ms =
     Option.bind deadline_at_ms (\<lambda>ms.
       instant_checked_add hi adopted_at (max (i64_saturating_sub ms wall_now_ms) 0 * ns_per_ms))"

definition reconstruct_awaiting_since :: "int \<Rightarrow> int \<Rightarrow> int \<Rightarrow> int option \<Rightarrow> int option" where
  "reconstruct_awaiting_since lo adopted_at wall_now_ms paused_at_ms =
     map_option (\<lambda>paused.
       case instant_checked_sub lo adopted_at (max (i64_saturating_sub wall_now_ms paused) 0 * ns_per_ms) of
         Some t \<Rightarrow> t | None \<Rightarrow> adopted_at) paused_at_ms"

definition enter_awaiting :: "int \<Rightarrow> active_run \<Rightarrow> active_run" where
  "enter_awaiting now a = a\<lparr>ar_idle_since := None, ar_awaiting_since := Some now\<rparr>"

definition leave_awaiting :: "int \<Rightarrow> active_run \<Rightarrow> active_run" where
  "leave_awaiting now a =
     (case ar_awaiting_since a of
        None \<Rightarrow> a
      | Some paused \<Rightarrow>
          a\<lparr>ar_awaiting_since := None,
            ar_timeout_deadline := map_option (\<lambda>d. d + saturating_duration_since now paused) (ar_timeout_deadline a)\<rparr>)"

section \<open>The daemon\<close>

record sched =
  sc_active :: "(int \<times> active_run) list"
  sc_chain_hops :: "(int \<times> nat) list"

record watch_state =
  wt_panes_by_socket :: "(string \<times> string list) list"  \<comment> \<open>in socket order\<close>
  wt_generation :: nat

datatype board_changed_reason =
    CardMoved | CardCreated | CardUpdated | CardDeleted | CardArchived | ColumnChanged | CommentAdded
  | RunStarted | RunEnded | RunBlocked | BoardArchived | BoardRestored | ProjectArchived | ProjectRestored

datatype event =
    EvBoardChanged board_changed_reason "int option" "int option" "int option"
    \<comment> \<open>board, card, column\<close>
  | EvRunEnded int int run_outcome
  | EvLocalStateChanged "string option" bool

datatype effect =
    Emit event
  | WakeDispatch
  | Notify string "string option"
  | Kill runtime_handle

record daemon =
  dm_db :: db
  dm_sched :: sched
  dm_watch :: watch_state
  dm_effects :: "effect list"
  dm_claims :: "(run \<times> card) list"  \<comment> \<open>\<open>claimed\<close>, the local of the dispatch pass in flight\<close>

record env =
  en_config :: config
  en_timeout_unit_secs :: nat
  en_now :: int
  en_instant_min :: int
  en_instant_max :: int
  en_wall_now_ms :: int
  en_uuid :: string
  en_agy_models :: "model_info list option"
  en_argv_json :: "string list \<Rightarrow> string"
  en_parse_argv :: "string \<Rightarrow> string list option"
  en_agent_config :: agent_config
  en_socket_path :: string
  en_exe :: string
  en_herdr :: bool  \<comment> \<open>a Herdr client is connected\<close>
  en_default_socket :: string
  en_registry :: "(string option \<Rightarrow> string + (string \<times> string)) option"
    \<comment> \<open>the session registry: a session's name and socket, or why it does not resolve\<close>
  en_space_check :: "string \<Rightarrow> space_kind \<Rightarrow> string option \<Rightarrow> string option \<Rightarrow> string + unit"
    \<comment> \<open>the read-only workspace check, against the herdr server on a socket\<close>

type_synonym 'a op = "(daemon, error, 'a) tx"

definition on_db :: "'a store \<Rightarrow> 'a op" where
  "on_db m = (\<lambda>d. case m (dm_db d) of (r, s) \<Rightarrow> (r, d\<lparr>dm_db := s\<rparr>))"

definition ask :: "(db \<Rightarrow> 'a) \<Rightarrow> 'a op" where
  "ask f = readT (\<lambda>d. f (dm_db d))"

definition effectT :: "effect \<Rightarrow> unit op" where
  "effectT x = modifyT (\<lambda>d. d\<lparr>dm_effects := dm_effects d @ [x]\<rparr>)"

definition emit :: "event \<Rightarrow> unit op" where
  "emit ev = effectT (Emit ev)"

definition emit_changed :: "board_changed_reason \<Rightarrow> int option \<Rightarrow> int option \<Rightarrow> unit op" where
  "emit_changed reason card_id column_id = emit (EvBoardChanged reason None card_id column_id)"

definition emit_changed_board :: "board_changed_reason \<Rightarrow> int \<Rightarrow> int option \<Rightarrow> int option \<Rightarrow> unit op" where
  "emit_changed_board reason board_id card_id column_id =
     emit (EvBoardChanged reason (Some board_id) card_id column_id)"

definition emit_run_ended :: "int \<Rightarrow> int \<Rightarrow> run_outcome \<Rightarrow> unit op" where
  "emit_run_ended card_id run_id out =
     thenT (emit (EvRunEnded card_id run_id out)) (emit_changed RunEnded (Some card_id) None)"

definition wake_dispatch :: "unit op" where
  "wake_dispatch = effectT WakeDispatch"

definition notify :: "env \<Rightarrow> string \<Rightarrow> string option \<Rightarrow> unit op" where
  "notify e title body = (if en_herdr e then effectT (Notify title body) else returnT ())"

definition watched_panes :: "string \<Rightarrow> (int \<times> active_run) list \<Rightarrow> (string \<times> string list) list" where
  "watched_panes default_socket active =
     (let at = (\<lambda>a. set_if (rh_herdr_socket (ar_handle a)) default_socket);
          panes = List.map_filter (\<lambda>(_, a). map_option (\<lambda>p. (at a, p)) (ar_pane_id a)) active
      in map (\<lambda>sock. (sock, sort (map snd (filter (\<lambda>(s, _). s = sock) panes))))
           (sort (remdups (map fst panes))))"

definition refresh_watch :: "env \<Rightarrow> unit op" where
  "refresh_watch e = modifyT (\<lambda>d.
     let grouped = watched_panes (en_default_socket e) (sc_active (dm_sched d))
     in if wt_panes_by_socket (dm_watch d) \<noteq> grouped
        then d\<lparr>dm_watch := \<lparr>wt_panes_by_socket = grouped, wt_generation = wt_generation (dm_watch d) + 1\<rparr>\<rparr>
        else d)"

definition find_active :: "daemon \<Rightarrow> int \<Rightarrow> active_run option" where
  "find_active d i = map_of (sc_active (dm_sched d)) i"

definition put_active :: "int \<Rightarrow> active_run \<Rightarrow> unit op" where
  "put_active i a = modifyT (\<lambda>d. d\<lparr>dm_sched := (dm_sched d)\<lparr>sc_active := AList.update i a (sc_active (dm_sched d))\<rparr>\<rparr>)"

definition drop_active :: "int \<Rightarrow> unit op" where
  "drop_active i = modifyT (\<lambda>d. d\<lparr>dm_sched := (dm_sched d)\<lparr>sc_active := AList.delete i (sc_active (dm_sched d))\<rparr>\<rparr>)"

definition chain_hops_of :: "daemon \<Rightarrow> int \<Rightarrow> nat" where
  "chain_hops_of d c = (case map_of (sc_chain_hops (dm_sched d)) c of Some h \<Rightarrow> h | None \<Rightarrow> 0)"

definition set_chain_hops :: "int \<Rightarrow> nat option \<Rightarrow> unit op" where
  \<comment> \<open>insert, or remove on \<open>None\<close>\<close>
  "set_chain_hops c h = modifyT (\<lambda>d. d\<lparr>dm_sched := (dm_sched d)\<lparr>sc_chain_hops :=
     (case h of Some n \<Rightarrow> AList.update c n (sc_chain_hops (dm_sched d))
      | None \<Rightarrow> AList.delete c (sc_chain_hops (dm_sched d)))\<rparr>\<rparr>)"

section \<open>Judgements\<close>

lemma wp_on_db [tx_simps]:
  "wp (on_db m) Q E = (\<lambda>d. wp m (\<lambda>x s. Q x (d\<lparr>dm_db := s\<rparr>)) (\<lambda>e s. E e (d\<lparr>dm_db := s\<rparr>)) (dm_db d))"
  by (rule ext) (simp add: wp_def on_db_def split: prod.splits sum.splits)

lemma wp_ask [tx_simps]: "wp (ask f) Q E = (\<lambda>d. Q (f (dm_db d)) d)"
  by (simp add: ask_def tx_simps)

lemma keeps_on_db: "keeps P m \<Longrightarrow> (\<And>d s. Q (d\<lparr>dm_db := s\<rparr>) = P s) \<Longrightarrow> (\<And>d. Q d = P (dm_db d)) \<Longrightarrow> keeps Q (on_db m)"
  by (simp add: keeps_def on_db_def split: prod.splits) (metis snd_conv)

lemma on_db_db: "dm_db (snd (on_db m d)) = snd (m (dm_db d))" "fst (on_db m d) = fst (m (dm_db d))"
  by (simp_all add: on_db_def split: prod.splits)

definition changes_only_effects :: "'a op \<Rightarrow> bool" where
  "changes_only_effects m \<longleftrightarrow> (\<forall>d. dm_db (snd (m d)) = dm_db d \<and> dm_sched (snd (m d)) = dm_sched d \<and>
     dm_claims (snd (m d)) = dm_claims d)"

lemmas effect_defs = emit_def emit_changed_def emit_changed_board_def emit_run_ended_def wake_dispatch_def
  notify_def effectT_def refresh_watch_def

lemma outward_effects:
  "changes_only_effects (emit ev)" "changes_only_effects (emit_changed re c k)"
  "changes_only_effects (emit_changed_board re b c k)" "changes_only_effects (emit_run_ended j i out)"
  "changes_only_effects wake_dispatch" "changes_only_effects (notify e title body)"
  "changes_only_effects (refresh_watch e)" "changes_only_effects (effectT x)"
  by (simp_all add: changes_only_effects_def effect_defs tx_defs Let_def)

section \<open>Timeouts and review\<close>

lemma leave_after_enter:
  assumes "t \<le> u"
  shows "ar_timeout_deadline (leave_awaiting u (enter_awaiting t a)) = map_option (\<lambda>d. d + (u - t)) (ar_timeout_deadline a)"
    and "ar_awaiting_since (leave_awaiting u (enter_awaiting t a)) = None"
    and "ar_idle_since (leave_awaiting u (enter_awaiting t a)) = None"
  using assms by (simp_all add: leave_awaiting_def enter_awaiting_def saturating_duration_since_def)

lemma reconstruct_deadline_bounds:
  assumes "reconstruct_deadline hi t wall (Some ms) = Some u" "in_i64 (ms - wall)"
  shows "u = t + max 0 (ms - wall) * ns_per_ms"
  using assms by (auto simp: reconstruct_deadline_def instant_checked_add_def i64_saturating_sub_def clamp64_id split: if_splits)

end
