(* ===== verification/Daemon_Dispatch.thy ===== *)
theory Daemon_Dispatch
  imports Daemon_State
begin

text \<open>
  The life of a run inside the daemon (\<open>board-daemon/src/dispatch\<close>): queueing (\<open>enqueue.rs\<close>), the dispatch pass with
  its claims (\<open>pass.rs\<close>), the launch and the registration of its handle (\<open>launch_plan.rs\<close>) and finalization (\<open>finalize.rs\<close>).
  Each block under the scheduler and store locks is one operation. A launch is asynchronous: the pass
  claims runs, and \<open>complete_launch\<close> is what happens when the spawner has answered.
\<close>

section \<open>Queueing\<close>

definition archived_board_msg :: "int \<Rightarrow> message" where
  "archived_board_msg i = [T ''archived board must be restored first: `board board restore '', N i, T ''`'']"

definition archived_project_msg :: "string \<Rightarrow> message" where
  "archived_project_msg scope = [T ''archived project must be restored first: `board project restore '', S scope, T ''`'']"

definition scope_label :: "project \<Rightarrow> string" where
  "scope_label p = set_if (pj_scope_path p) ''(Global)''"

definition require_restored :: "int \<Rightarrow> board op" where
  \<comment> \<open>the board and its project are not archived\<close>
  "require_restored i =
     bindT (on_db (get_board i)) (\<lambda>b.
     thenT (ensureT (bd_archived_at b = None) (InvalidState (archived_board_msg (bd_id b))))
     (bindT (on_db (get_project (bd_project_id b))) (\<lambda>p.
      thenT (ensureT (pj_archived_at p = None) (InvalidState (archived_project_msg (scope_label p))))
      (returnT b))))"

definition quote :: string where "quote = [CHR 0x27]"

fun map_harness_err :: "harness_error \<Rightarrow> error" where
  "map_harness_err (HUnknownHarness h) = BadRequest [T ''unknown harness: '', S h]"
| "map_harness_err MissingMintedSession = BadRequest [T ''mint session requested without a uuid'']"
| "map_harness_err MissingForkTargetSession = BadRequest [T ''Pi fork requested without a new session uuid'']"
| "map_harness_err PiPermissionModeUnsupported = BadRequest [T ''pi does not support permission modes'']"
| "map_harness_err OpenCodeEffortRequiresModel = BadRequest
     [T ''opencode effort requires a model: effort rides the herdr-board agent's per-model variant, so set a model on the card or column'']"
| "map_harness_err (ResumeUnsupported h) = InvalidState
     [T (''harness '' @ quote), S h, T (quote @ '' cannot resume a recorded conversation, so this run's closed pane cannot be reopened; retry the card instead to start a new run'')]"
| "map_harness_err (ResumeLegacyArgv h) = InvalidState
     [T (''harness '' @ quote), S h, T (quote @ '' recorded a legacy all-in-one command line that embeds the task text, so this run cannot be reopened without re-running it; retry the card to start a new run instead'')]"
| "map_harness_err MissingResumeSession = InvalidState
     [T ''this run recorded no harness conversation id, so there is nothing to resume; retry the card instead to start a new run'']"

definition antigravity_validation_config :: "env \<Rightarrow> string \<Rightarrow> config" where
  "antigravity_validation_config e harness =
     (if harness = ''antigravity'' then (en_config e)\<lparr>cf_agy_models := en_agy_models e\<rparr> else en_config e)"

definition target_session :: "env \<Rightarrow> session_plan \<Rightarrow> string option" where
  "target_session e plan = (case plan of Resume _ \<Rightarrow> None | _ \<Rightarrow> Some (en_uuid e))"

definition recorded_session :: "harness_invocation \<Rightarrow> string \<Rightarrow> session_plan \<Rightarrow> string option \<Rightarrow> string option" where
  \<comment> \<open>a built-in harness that mints its own conversation records none\<close>
  "recorded_session i harness plan minted =
     or_else (hi_resulting_session_id i)
       (if is_builtin_harness harness then None
        else case plan of Mint \<Rightarrow> minted | Resume sid \<Rightarrow> Some sid | Fork sid \<Rightarrow> Some sid)"

definition prepare_enqueue_values :: "env \<Rightarrow> db \<Rightarrow> card \<Rightarrow> int \<Rightarrow> bool \<Rightarrow> error + enqueue_run" where
  "prepare_enqueue_values e s c column_id is_retry =
     (case find_column s column_id of
        None \<Rightarrow> Inl (NotFound [T ''column '', N column_id])
      | Some column \<Rightarrow>
          let comments = list_comments s (cd_id c);
              used = (decide_resumability (cd_session_id c) (list_runs s (cd_id c)) comments = Resumable);
              cfg = antigravity_validation_config e (set_if (col_harness_override column) (cd_harness c))
          in case validate_effective_settings c column cfg of
               Inl v \<Rightarrow> Inl (Validation v)
             | Inr _ \<Rightarrow>
                 (case effective_settings c column of
                    Inl v \<Rightarrow> Inl (Validation v)
                  | Inr settings \<Rightarrow>
                      let prompt = assemble_prompt (cd_description c) comments;
                          plan = plan_session (if used then cd_session_id c else None) (es_fresh_session settings) is_retry;
                          target = target_session e plan
                      in case build_invocation (en_agent_config e) (es_harness settings) (en_config e) settings plan target prompt of
                           Inl h \<Rightarrow> Inl (map_harness_err h)
                         | Inr i \<Rightarrow>
                             Inr \<lparr>er_card_id = cd_id c, er_column_id = column_id, er_harness = es_harness settings,
                                  er_argv_json = en_argv_json e (hi_argv i), er_prompt_snapshot = prompt,
                                  er_system_prompt_snapshot = Some (case hi_system_prompt i of Some p \<Rightarrow> p
                                      | None \<Rightarrow> protocol_system_prompt (es_system_prompt settings)),
                                  er_launch_spec = Some (run_launch_spec_v1 (invocation_spec i)),
                                  er_session_id = recorded_session i (es_harness settings) plan target,
                                  er_session = cd_session c\<rparr>))"

definition dispatch_enqueue_run :: "env \<Rightarrow> int \<Rightarrow> int \<Rightarrow> bool \<Rightarrow> run op" where
  "dispatch_enqueue_run e card_id column_id is_retry =
     bindT (on_db (require_card card_id)) (\<lambda>c.
     thenT (ensureT (cd_archived_at c = None) (InvalidState [T ''archived card must be restored before starting a run'']))
     (bindT (require_restored (cd_board_id c)) (\<lambda>b.
      bindT (on_db (require_column column_id)) (\<lambda>k.
      bindT (on_db (get_board (col_board_id k))) (\<lambda>tb.
      thenT (ensureT (\<not> (bd_archived_at tb \<noteq> None \<and> bd_id tb \<noteq> bd_id b)) (InvalidState (archived_board_msg (bd_id tb))))
      (bindT (ask (\<lambda>s. find_open_run s card_id)) (\<lambda>open.
       thenT (ensureT (open = None) (InvalidState [T ''card has an open run; complete or cancel it before starting another'']))
       (thenT (ensureT (cd_column_id c = column_id) (InvalidState [T ''card moved to another column while its run was being prepared'']))
       (bindT (queryT (\<lambda>d. prepare_enqueue_values e (dm_db d) c column_id is_retry)) (\<lambda>p.
        on_db (Store_Runs.enqueue_run p)))))))))))"

section \<open>The dispatch pass\<close>

fun claim :: "nat \<Rightarrow> space_key list \<Rightarrow> nat \<Rightarrow> (run \<times> card) list \<Rightarrow> (run \<times> card) list" where
  \<comment> \<open>one FIFO head per free space, while capacity lasts\<close>
  "claim mx busy active_count [] = []"
| "claim mx busy active_count ((r, c) # queued) =
     (if mx \<le> active_count then []
      else let key = space_key_from_card c
           in if key \<in> set busy then claim mx busy active_count queued
              else (r, c) # claim mx (key # busy) (active_count + 1) queued)"

definition max_concurrent :: "env \<Rightarrow> nat" where
  "max_concurrent e = max (cf_max_concurrent (en_config e)) 1"

definition pass_claims :: "env \<Rightarrow> db \<Rightarrow> (run \<times> card) list" where
  "pass_claims e s =
     (case active_runs_with_cards s of
        Inl _ \<Rightarrow> []
      | Inr active \<Rightarrow>
          (case queued_runs_with_cards s of
             Inl _ \<Rightarrow> []
           | Inr queued \<Rightarrow>
               claim (max_concurrent e) (map (\<lambda>(_, c). space_key_from_card c) active) (length active) queued))"

definition begin_dispatch_pass :: "env \<Rightarrow> unit op" where
  \<comment> \<open>under the pass mutex: the previous pass has no claim left\<close>
  "begin_dispatch_pass e = modifyT (\<lambda>d. if dm_claims d = [] then d\<lparr>dm_claims := pass_claims e (dm_db d)\<rparr> else d)"

definition launch_session :: "run \<Rightarrow> card \<Rightarrow> string option" where
  "launch_session r c = (if rn_launch_spec r \<noteq> None then rn_session r else cd_session c)"

section \<open>Registering a launched run\<close>

definition i64_saturating_mul :: "int \<Rightarrow> int \<Rightarrow> int" where "i64_saturating_mul a b = clamp64 (a * b)"

definition timeout_ms :: "env \<Rightarrow> column \<Rightarrow> int option" where
  "timeout_ms e k = map_option (\<lambda>m. i64_saturating_mul (i64_saturating_mul (max m 0) (wrap64 (int (en_timeout_unit_secs e)))) 1000)
     (col_timeout_minutes k)"

definition register_section :: "int \<Rightarrow> runtime_handle \<Rightarrow> int \<Rightarrow> int option \<Rightarrow> int option \<Rightarrow> bool op" where
  "register_section run_id handle started deadline deadline_at_ms =
     bindT (on_db (get_run run_id)) (\<lambda>r.
     bindT (on_db (get_card (rn_card_id r))) (\<lambda>c.
     if rn_ended_at r \<noteq> None \<or> rn_started_at r \<noteq> None then returnT False
     else bindT (queryT (\<lambda>_. ok_or (NotFound [T ''card '', N (rn_card_id r)]) c)) (\<lambda>c.
       thenT (on_db (promote_run_with_anchor run_id (rh_workspace_id handle) (rh_pane_id handle)
                (rh_anchor_pane_id handle) deadline_at_ms (rh_captured_session_id handle)))
       (thenT (put_active run_id
          \<lparr>ar_card_id = cd_id c, ar_handle = handle, ar_started = started, ar_timeout_deadline = deadline,
           ar_idle_since = None, ar_awaiting_since = None, ar_is_local = (rh_pid handle \<noteq> None),
           ar_pane_id = rh_pane_id handle\<rparr>)
       (returnT True)))))"

definition register_spawned_run :: "int \<Rightarrow> runtime_handle \<Rightarrow> int \<Rightarrow> int option \<Rightarrow> int option \<Rightarrow> bool op" where
  \<comment> \<open>a handle that was not registered is killed\<close>
  "register_spawned_run run_id handle started deadline deadline_at_ms d =
     (case register_section run_id handle started deadline deadline_at_ms d of
        (Inr True, d') \<Rightarrow> (Inr True, d')
      | (r, d') \<Rightarrow> (r, snd (effectT (Kill handle) d')))"

definition fail_queued_run :: "env \<Rightarrow> int \<Rightarrow> string \<Rightarrow> unit op" where
  "fail_queued_run e run_id reason =
     bindT (on_db (finalize_run_uow
        \<lparr>fz_run_id = run_id, fz_outcome = OutcomeFail, fz_summary = Some reason, fz_comments = [(''system'', reason)],
         fz_target_column_id = None, fz_final_status = Failed, fz_final_awaiting_reason = None, fz_next = None\<rparr>)) (\<lambda>fx.
     thenT (refresh_watch e)
     (thenT (emit_run_ended (cd_id (fe_card fx)) run_id OutcomeFail)
      wake_dispatch))"

definition antigravity_warning :: "string option \<Rightarrow> string option \<Rightarrow> string option" where
  "antigravity_warning requested captured =
     (case (requested, captured) of
        (Some old, Some new) \<Rightarrow>
          if new \<noteq> old then Some (''Antigravity conversation '' @ old @ '' no longer exists; agy started conversation '' @ new @
            '' instead, which is now recorded '' @ em_dash @ '' run focus and retry target '' @ new @ ''.'') else None
      | (Some old, None) \<Rightarrow> Some (''No Antigravity conversation id was captured for this run (is the herdr antigravity_cli integration installed?); if agy started a new conversation because '' @ old @
            '' no longer exists it cannot be detected, and the run keeps the recorded id '' @ old @ ''.'')
      | (None, None) \<Rightarrow> Some ''No Antigravity conversation id was captured (is the herdr antigravity_cli integration installed?); run focus and retry of this run may be unavailable.''
      | (None, Some _) \<Rightarrow> None)"

definition drop_claim :: "int \<Rightarrow> unit op" where
  "drop_claim run_id = modifyT (\<lambda>d. d\<lparr>dm_claims := filter (\<lambda>(r, _). rn_id r \<noteq> run_id) (dm_claims d)\<rparr>)"

datatype spawn_result = SpawnFailed string | Spawned runtime_handle

definition record_warning :: "run \<Rightarrow> card \<Rightarrow> runtime_handle \<Rightarrow> unit op" where
  \<comment> \<open>a comment that cannot be written is only logged\<close>
  "record_warning r c handle d =
     (case (if rn_harness r = ''antigravity'' then antigravity_warning (rn_session_id r) (rh_captured_session_id handle) else None) of
        None \<Rightarrow> (Inr (), d)
      | Some body \<Rightarrow> (Inr (), snd (on_db (add_comment (cd_id c) ''system'' body) d)))"

definition finish_spawn :: "env \<Rightarrow> run \<Rightarrow> card \<Rightarrow> column \<Rightarrow> spawn_result \<Rightarrow> bool op" where
  \<comment> \<open>\<open>spawn_one\<close> from the moment the session, the workspace and the spawner have answered\<close>
  "finish_spawn e r c k res =
     (case res of
        SpawnFailed reason \<Rightarrow> thenT (fail_queued_run e (rn_id r) reason) (returnT False)
      | Spawned handle \<Rightarrow>
          bindT (register_spawned_run (rn_id r) handle (en_now e)
             (Option.bind (timeout_ms e k) (\<lambda>ms. instant_checked_add (en_instant_max e) (en_now e) (ms * ns_per_ms)))
             (map_option (i64_saturating_add (en_wall_now_ms e)) (timeout_ms e k))) (\<lambda>registered.
          if \<not> registered then returnT False
          else thenT (record_warning r c handle)
            (thenT (refresh_watch e)
            (thenT (emit_changed RunStarted (Some (cd_id c)) (Some (rn_column_id r)))
            (returnT True)))))"

definition complete_launch :: "env \<Rightarrow> run \<Rightarrow> card \<Rightarrow> column \<Rightarrow> spawn_result \<Rightarrow> unit op" where
  \<comment> \<open>the pass joins the launch; a failed one is only logged\<close>
  "complete_launch e r c k res d = drop_claim (rn_id r) (snd (finish_spawn e r c k res d))"

section \<open>Finalization\<close>

record transition_plan =
  tp_comments :: "string list"
  tp_target_column_id :: "int option"
  tp_final_status :: card_status
  tp_next :: "enqueue_run option"
  tp_next_hops :: "nat option"
  tp_notify :: "(string \<times> string) option"

definition destination_archived :: "db \<Rightarrow> card \<Rightarrow> bool" where
  "destination_archived s c \<longleftrightarrow>
     cd_archived_at c \<noteq> None \<or>
     (case find_board s (cd_board_id c) of None \<Rightarrow> False
      | Some b \<Rightarrow> bd_archived_at b \<noteq> None \<or>
          (case find_project s (bd_project_id b) of None \<Rightarrow> False | Some p \<Rightarrow> pj_archived_at p \<noteq> None))"

definition plan_transition :: "env \<Rightarrow> daemon \<Rightarrow> int \<Rightarrow> run \<Rightarrow> card \<Rightarrow> run_outcome \<Rightarrow> int option \<Rightarrow> error + transition_plan" where
  "plan_transition e d run_id existing c outcome elapsed =
     (let s = dm_db d in case find_column s (rn_column_id existing) of
        None \<Rightarrow> Inl (NotFound [T ''column '', N (rn_column_id existing)])
      | Some current \<Rightarrow>
          let cols = list_columns s (cd_board_id c);
              dec = decide_transition current cols outcome elapsed;
              base = \<lparr>tp_comments = [td_system_comment dec], tp_target_column_id = td_target_column_id dec,
                      tp_final_status = td_new_status dec, tp_next = None, tp_next_hops = None, tp_notify = None\<rparr>
          in case td_target_column_id dec of
               None \<Rightarrow> Inr base
             | Some target_id \<Rightarrow>
                 if td_enqueue dec then
                   if destination_archived s c then
                     Inr (base\<lparr>tp_comments := tp_comments base @ [''archived board must be restored first: auto-hop suppressed''],
                               tp_final_status := Failed\<rparr>)
                   else (case decide_auto_hop (chain_hops_of d (cd_id c)) dec of
                       HopContinue hop \<Rightarrow>
                         (case prepare_enqueue_values e s (c\<lparr>cd_column_id := target_id\<rparr>) target_id False of
                            Inl err \<Rightarrow> Inl err
                          | Inr n \<Rightarrow> Inr (base\<lparr>tp_next := Some n, tp_next_hops := Some hop\<rparr>))
                     | HopStop msg \<Rightarrow> Inr (base\<lparr>tp_comments := tp_comments base @ [msg], tp_final_status := Failed\<rparr>)
                     | HopReset \<Rightarrow> Inl (InvalidState [T ''run '', N run_id, T '': auto-hop decision reset an enqueueing transition'']))
                 else (case List.find (\<lambda>k. col_id k = target_id) cols of
                     Some t \<Rightarrow> Inr (if col_trigger t = Manual
                        then base\<lparr>tp_notify := Some (''Card #'' @ show_int (cd_id c) @ '' ready for review'', ''Entered '' @ col_name t)\<rparr>
                        else base)
                   | None \<Rightarrow> Inr base))"

definition stay_plan :: "run_outcome \<Rightarrow> transition_plan" where
  "stay_plan outcome =
     \<lparr>tp_comments = [], tp_target_column_id = None,
      tp_final_status = (if outcome = OutcomeOk then Idle else Failed),
      tp_next = None, tp_next_hops = None, tp_notify = None\<rparr>"

definition still_due :: "daemon \<Rightarrow> int \<Rightarrow> run \<Rightarrow> int \<Rightarrow> bool" where
  "still_due d run_id existing classified_at \<longleftrightarrow>
     (case find_active d run_id of None \<Rightarrow> False
      | Some a \<Rightarrow> ar_card_id a = rn_card_id existing \<and>
          (case ar_timeout_deadline a of None \<Rightarrow> False | Some deadline \<Rightarrow> deadline \<le> classified_at)) \<and>
     rn_started_at existing \<noteq> None \<and>
     \<not> (case find_card (dm_db d) (rn_card_id existing) of None \<Rightarrow> False | Some c \<Rightarrow> cd_status c = Awaiting)"

definition elapsed_secs :: "env \<Rightarrow> daemon \<Rightarrow> int \<Rightarrow> int option" where
  "elapsed_secs e d run_id =
     map_option (\<lambda>a. saturating_duration_since (en_now e) (ar_started a) div ns_per_sec) (find_active d run_id)"

datatype finalize_result =
    Already run card
  | NotDue
  | Finalized "active_run option" finalize_effects "(string \<times> string) option"

definition finalize_section ::
  "env \<Rightarrow> int \<Rightarrow> run_outcome \<Rightarrow> string option \<Rightarrow> string option \<Rightarrow> bool \<Rightarrow> int option \<Rightarrow> finalize_result op" where
  "finalize_section e run_id outcome summary extra_comment transition timeout_at =
     bindT (on_db (get_run run_id)) (\<lambda>existing.
     if rn_ended_at existing \<noteq> None then bindT (on_db (require_card (rn_card_id existing))) (\<lambda>c. returnT (Already existing c))
     else bindT (readT (\<lambda>d. case timeout_at of None \<Rightarrow> True | Some at \<Rightarrow> still_due d run_id existing at)) (\<lambda>due.
       if \<not> due then returnT NotDue
       else bindT (on_db (require_card (rn_card_id existing))) (\<lambda>c.
         bindT (queryT (\<lambda>d. if transition
            then plan_transition e d run_id existing c outcome (elapsed_secs e d run_id)
            else Inr (stay_plan outcome))) (\<lambda>plan.
         bindT (on_db (finalize_run_uow
            \<lparr>fz_run_id = run_id, fz_outcome = outcome, fz_summary = summary,
             fz_comments = map (\<lambda>body. (''system'', body)) (case_option [] (\<lambda>x. [x]) extra_comment @ tp_comments plan),
             fz_target_column_id = tp_target_column_id plan, fz_final_status = tp_final_status plan,
             fz_final_awaiting_reason = None, fz_next = tp_next plan\<rparr>)) (\<lambda>fx.
         bindT (readT (\<lambda>d. find_active d run_id)) (\<lambda>removed.
         thenT (drop_active run_id)
         (thenT (set_chain_hops (cd_id c) (tp_next_hops plan))
         (returnT (Finalized removed fx (tp_notify plan))))))))))"

definition finalize_run_inner ::
  "env \<Rightarrow> int \<Rightarrow> run_outcome \<Rightarrow> string option \<Rightarrow> string option \<Rightarrow> bool \<Rightarrow> bool \<Rightarrow> int option \<Rightarrow> (run \<times> card) option op" where
  "finalize_run_inner e run_id outcome summary extra_comment kill transition timeout_at =
     bindT (finalize_section e run_id outcome summary extra_comment transition timeout_at) (\<lambda>res.
     case res of
       Already r c \<Rightarrow> returnT (Some (r, c))
     | NotDue \<Rightarrow> returnT None
     | Finalized removed fx note \<Rightarrow>
         thenT (refresh_watch e)
         (thenT (case removed of None \<Rightarrow> returnT ()
                 | Some a \<Rightarrow> if kill then effectT (Kill (ar_handle a)) else returnT ())
         (thenT (case note of None \<Rightarrow> returnT () | Some (title, body) \<Rightarrow> notify e title (Some body))
         (thenT (emit_run_ended (cd_id (fe_card fx)) run_id outcome)
         (thenT wake_dispatch
         (returnT (Some (fe_finished_run fx, fe_card fx))))))))"

definition dispatch_finalize_run ::
  "env \<Rightarrow> int \<Rightarrow> run_outcome \<Rightarrow> string option \<Rightarrow> string option \<Rightarrow> bool \<Rightarrow> bool \<Rightarrow> (run \<times> card) op" where
  "dispatch_finalize_run e run_id outcome summary extra_comment kill transition =
     bindT (finalize_run_inner e run_id outcome summary extra_comment kill transition None) (\<lambda>res.
     queryT (\<lambda>_. ok_or (InvalidState [T ''run '', N run_id, T '' could not be claimed'']) res))"

definition finalize_run_timeout ::
  "env \<Rightarrow> int \<Rightarrow> int \<Rightarrow> run_outcome \<Rightarrow> string option \<Rightarrow> string option \<Rightarrow> bool \<Rightarrow> bool \<Rightarrow> (run \<times> card) option op" where
  "finalize_run_timeout e run_id timeout_at outcome summary extra_comment kill transition =
     finalize_run_inner e run_id outcome summary extra_comment kill transition (Some timeout_at)"

end
