(* ===== verification/Daemon_Watch.thy ===== *)
theory Daemon_Watch
  imports Daemon_Dispatch
begin

text \<open>
  What the daemon does with what it observes (\<open>board-daemon/src/watchers\<close>, \<open>supervisor.rs\<close>,
  \<open>recovery.rs\<close>): agent signals, the timeout and idle ticker, Herdr events, the liveness poll of local
  children, and the reconciliation of open runs after a restart.
\<close>

section \<open>Signals\<close>

datatype signal_guard = NoGuard | IdleGuard (observed_idle_since: int) (guard_now: int) (guard_grace: int)

fun guard_holds :: "signal_guard \<Rightarrow> active_run \<Rightarrow> bool" where
  "guard_holds NoGuard a = True"
| "guard_holds (IdleGuard observed now grace) a \<longleftrightarrow>
     ar_idle_since a = Some observed \<and> grace \<le> saturating_duration_since now observed"

definition write_signal :: "env \<Rightarrow> card \<Rightarrow> signal_decision \<Rightarrow> card store" where
  "write_signal e c dec =
     (case sd_awaiting_reason dec of
        Some reason \<Rightarrow>
          if cd_status c \<noteq> Awaiting then pause_run_timeout (cd_id c) reason (en_wall_now_ms e)
          else set_card_awaiting (cd_id c) reason
      | None \<Rightarrow>
          if cd_status c = Awaiting then resume_run_timeout (cd_id c) (sd_new_status dec) (en_wall_now_ms e)
          else set_card_status (cd_id c) (sd_new_status dec))"

definition signal_bookkeeping :: "env \<Rightarrow> card_status \<Rightarrow> card_status \<Rightarrow> active_run \<Rightarrow> active_run" where
  "signal_bookkeeping e before after a =
     (if before \<noteq> Awaiting \<and> after = Awaiting then enter_awaiting (en_now e) a
      else if before = Awaiting \<and> after \<noteq> Awaiting then leave_awaiting (en_now e) a
      else a)"

definition signal_section :: "env \<Rightarrow> int \<Rightarrow> int \<Rightarrow> agent_signal \<Rightarrow> signal_guard \<Rightarrow> signal_decision option op" where
  "signal_section e run_id card_id sig guard d =
     (case find_active d run_id of
        None \<Rightarrow> (Inr None, d)
      | Some a \<Rightarrow>
          if ar_card_id a \<noteq> card_id \<or> \<not> guard_holds guard a then (Inr None, d)
          else case find_run (dm_db d) run_id of
            None \<Rightarrow> (Inr None, d)
          | Some r \<Rightarrow>
              if rn_card_id r \<noteq> card_id \<or> rn_started_at r = None \<or> rn_ended_at r \<noteq> None then (Inr None, d)
              else case find_card (dm_db d) card_id of
                None \<Rightarrow> (Inr None, d)
              | Some c \<Rightarrow>
                  (case decide_signal (cd_status c) sig of
                     None \<Rightarrow> (Inr None, d)
                   | Some dec \<Rightarrow>
                       (case on_db (write_signal e c dec) d of
                          (Inl _, d') \<Rightarrow> (Inr None, d')
                        | (Inr _, d') \<Rightarrow>
                            thenT (put_active run_id (signal_bookkeeping e (cd_status c) (sd_new_status dec) a))
                              (returnT (Some dec)) d')))"

definition apply_signal_guarded :: "env \<Rightarrow> int \<Rightarrow> int \<Rightarrow> agent_signal \<Rightarrow> signal_guard \<Rightarrow> unit op" where
  "apply_signal_guarded e run_id card_id sig guard =
     bindT (signal_section e run_id card_id sig guard) (\<lambda>res.
     case res of
       None \<Rightarrow> returnT ()
     | Some dec \<Rightarrow>
         thenT (emit_changed (if sd_new_status dec = Blocked then RunBlocked else CardUpdated) (Some card_id) None)
         (case sd_emit_notification dec of
            None \<Rightarrow> returnT ()
          | Some msg \<Rightarrow> notify e (''Card #'' @ show_int card_id @ '': '' @ msg) None))"

definition apply_signal :: "env \<Rightarrow> int \<Rightarrow> int \<Rightarrow> agent_signal \<Rightarrow> unit op" where
  "apply_signal e run_id card_id sig = apply_signal_guarded e run_id card_id sig NoGuard"

definition idle_grace :: "env \<Rightarrow> int" where
  "idle_grace e = int (cf_idle_grace_seconds (en_config e)) * ns_per_sec"

definition apply_idle_expired :: "env \<Rightarrow> int \<Rightarrow> int \<Rightarrow> int \<Rightarrow> int \<Rightarrow> unit op" where
  "apply_idle_expired e run_id card_id observed now =
     apply_signal_guarded e run_id card_id SigIdleExpired (IdleGuard observed now (idle_grace e))"

section \<open>The timeout and idle ticker\<close>

record candidate =
  cn_run_id :: int
  cn_card_id :: int
  cn_elapsed :: int
  cn_timed_out :: bool
  cn_observed_idle_since :: "int option"

definition classify :: "env \<Rightarrow> int \<Rightarrow> db \<Rightarrow> int \<times> active_run \<Rightarrow> candidate option" where
  "classify e now s ia =
     (case ia of (run_id, a) \<Rightarrow>
        if (case find_card s (ar_card_id a) of None \<Rightarrow> False | Some c \<Rightarrow> cd_status c = Awaiting) then None
        else
          let timed_out = (case ar_timeout_deadline a of None \<Rightarrow> False | Some dl \<Rightarrow> dl \<le> now);
              idle = (if timed_out then None
                      else case ar_idle_since a of None \<Rightarrow> None
                        | Some t \<Rightarrow> if idle_grace e \<le> saturating_duration_since now t then Some t else None)
          in if timed_out \<or> idle \<noteq> None
             then Some \<lparr>cn_run_id = run_id, cn_card_id = ar_card_id a,
                        cn_elapsed = saturating_duration_since now (ar_started a),
                        cn_timed_out = timed_out, cn_observed_idle_since = idle\<rparr>
             else None)"

definition classify_candidates :: "env \<Rightarrow> int \<Rightarrow> daemon \<Rightarrow> candidate list" where
  "classify_candidates e now d = List.map_filter (classify e now (dm_db d)) (sc_active (dm_sched d))"

definition attempt :: "'a op \<Rightarrow> unit op" where
  \<comment> \<open>a failure is only logged\<close>
  "attempt m d = (Inr (), snd (m d))"

definition timeout_msg :: "candidate \<Rightarrow> string" where
  "timeout_msg c = ''run timed out after '' @ format_duration (Some (cn_elapsed c div ns_per_sec)) @ ''; applying on_fail''"

definition apply_candidate :: "env \<Rightarrow> int \<Rightarrow> candidate \<Rightarrow> unit op" where
  "apply_candidate e now c =
     (if cn_timed_out c then
        attempt (finalize_run_timeout e (cn_run_id c) now OutcomeFail (Some (timeout_msg c)) (Some (timeout_msg c)) True True)
      else case cn_observed_idle_since c of
        None \<Rightarrow> returnT ()
      | Some t \<Rightarrow> apply_idle_expired e (cn_run_id c) (cn_card_id c) t now)"

definition check_at :: "env \<Rightarrow> int \<Rightarrow> unit op" where
  "check_at e now = bindT (readT (classify_candidates e now)) (\<lambda>cs. forT cs (apply_candidate e now))"

section \<open>Herdr events\<close>

datatype agent_status = AgIdle | AgWorking | AgBlocked | AgDone | AgUnknown

datatype herdr_event =
    AgentStatusChanged string agent_status
  | PaneExited string
  | OtherEvent

definition run_open :: "db \<Rightarrow> int \<Rightarrow> bool" where
  "run_open s run_id \<longleftrightarrow> (case find_run s run_id of None \<Rightarrow> False | Some r \<Rightarrow> rn_started_at r \<noteq> None \<and> rn_ended_at r = None)"

definition effective_herdr_socket :: "env \<Rightarrow> string option \<Rightarrow> string" where
  "effective_herdr_socket e sock = set_if sock (en_default_socket e)"

definition find_run_by_pane :: "env \<Rightarrow> daemon \<Rightarrow> string \<Rightarrow> string \<Rightarrow> int option" where
  "find_run_by_pane e d pane_id source_socket =
     map_option fst (List.find (\<lambda>(_, a). ar_pane_id a = Some pane_id \<and>
        effective_herdr_socket e (rh_herdr_socket (ar_handle a)) = source_socket) (sc_active (dm_sched d)))"

definition clear_idle :: "int \<Rightarrow> unit op" where
  "clear_idle run_id = bindT (readT (\<lambda>d. find_active d run_id)) (\<lambda>a.
     case a of None \<Rightarrow> returnT () | Some a \<Rightarrow> put_active run_id (a\<lparr>ar_idle_since := None\<rparr>))"

definition arm_idle :: "env \<Rightarrow> int \<Rightarrow> unit op" where
  "arm_idle e run_id = bindT (readT (\<lambda>d. (find_active d run_id, dm_db d))) (\<lambda>(a, s).
     case a of
       None \<Rightarrow> returnT ()
     | Some a \<Rightarrow>
         if \<not> (case find_card s (ar_card_id a) of None \<Rightarrow> False | Some c \<Rightarrow> cd_status c = Awaiting) \<and> ar_idle_since a = None
         then put_active run_id (a\<lparr>ar_idle_since := Some (en_now e)\<rparr>) else returnT ())"

definition pane_exit_msg :: string where "pane_exit_msg = ''pane exited without board done''"

definition finalize_exited :: "env \<Rightarrow> int \<Rightarrow> string \<Rightarrow> unit op" where
  "finalize_exited e run_id msg = attempt (dispatch_finalize_run e run_id OutcomeFail (Some msg) (Some msg) False False)"

definition handle_event_from_socket :: "env \<Rightarrow> string \<Rightarrow> herdr_event \<Rightarrow> unit op" where
  "handle_event_from_socket e source_socket ev =
     (case ev of
        AgentStatusChanged pane_id status \<Rightarrow>
          bindT (readT (\<lambda>d. Option.bind (find_run_by_pane e d pane_id source_socket)
              (\<lambda>i. map_option (\<lambda>a. (i, ar_card_id a)) (find_active d i)))) (\<lambda>found.
          case found of
            None \<Rightarrow> returnT ()
          | Some (run_id, card_id) \<Rightarrow>
              (case status of
                 AgWorking \<Rightarrow> thenT (clear_idle run_id) (apply_signal e run_id card_id SigWorking)
               | AgBlocked \<Rightarrow> thenT (clear_idle run_id) (apply_signal e run_id card_id SigBlocked)
               | AgDone \<Rightarrow> thenT (clear_idle run_id) (apply_signal e run_id card_id SigDone)
               | AgIdle \<Rightarrow> arm_idle e run_id
               | AgUnknown \<Rightarrow> returnT ()))
      | PaneExited pane_id \<Rightarrow>
          bindT (readT (\<lambda>d. (find_run_by_pane e d pane_id source_socket, dm_db d))) (\<lambda>(found, s).
          case found of
            None \<Rightarrow> returnT ()
          | Some run_id \<Rightarrow> if run_open s run_id then finalize_exited e run_id pane_exit_msg else returnT ())
      | OtherEvent \<Rightarrow> returnT ())"

definition reconcile_socket :: "env \<Rightarrow> string \<Rightarrow> string list \<Rightarrow> (string \<times> agent_status) list option \<Rightarrow> unit op" where
  \<comment> \<open>no snapshot is no knowledge; a pane the snapshot omits has exited\<close>
  "reconcile_socket e socket watched view =
     (case view of
        None \<Rightarrow> returnT ()
      | Some panes \<Rightarrow> forT watched (\<lambda>pane_id. handle_event_from_socket e socket
          (case map_of panes pane_id of Some status \<Rightarrow> AgentStatusChanged pane_id status | None \<Rightarrow> PaneExited pane_id)))"

section \<open>Local children\<close>

definition poll_local :: "env \<Rightarrow> (int \<Rightarrow> runtime_handle \<Rightarrow> bool) \<Rightarrow> unit op" where
  \<comment> \<open>\<open>alive\<close> is the spawner's answer; no answer counts as dead\<close>
  "poll_local e alive =
     bindT (readT (\<lambda>d. filter (\<lambda>(_, a). ar_is_local a) (sc_active (dm_sched d)))) (\<lambda>locals.
     forT locals (\<lambda>(run_id, a).
       if alive run_id (ar_handle a) then returnT ()
       else bindT (ask (\<lambda>s. run_open s run_id)) (\<lambda>open.
         if open then finalize_exited e run_id pane_exit_msg
         else thenT (drop_active run_id) (refresh_watch e))))"

section \<open>Reconciliation\<close>

datatype session_target = DefaultSession string | ResolvedSession string | UnresolvedSession

datatype runtime_probe = ProbeAlive agent_status | ProbeGone | ProbeUnknown

definition resolve_session_target :: "env \<Rightarrow> string option \<Rightarrow> session_target" where
  "resolve_session_target e session =
     (case session of
        None \<Rightarrow> DefaultSession (en_default_socket e)
      | Some _ \<Rightarrow>
          (case en_registry e of
             None \<Rightarrow> UnresolvedSession
           | Some resolve \<Rightarrow>
               (case resolve session of Inr (_, socket) \<Rightarrow> ResolvedSession socket | Inl _ \<Rightarrow> UnresolvedSession)))"

definition observe :: "(string \<times> agent_status) list \<Rightarrow> string \<Rightarrow> runtime_probe" where
  "observe panes pane_id =
     (case List.find (\<lambda>(i, _). i = pane_id) panes of Some (_, status) \<Rightarrow> ProbeAlive status | None \<Rightarrow> ProbeGone)"

definition probe_run :: "(session_target \<Rightarrow> (string \<times> agent_status) list option) \<Rightarrow> session_target \<Rightarrow> run \<Rightarrow> runtime_probe" where
  "probe_run view target r =
     (case (target, rn_herdr_pane_id r) of
        (UnresolvedSession, _) \<Rightarrow> ProbeUnknown
      | (_, None) \<Rightarrow> ProbeUnknown
      | (_, Some pane_id) \<Rightarrow> (case view target of None \<Rightarrow> ProbeUnknown | Some panes \<Rightarrow> observe panes pane_id))"

definition same_open_run :: "db \<Rightarrow> run \<Rightarrow> int \<Rightarrow> run option" where
  "same_open_run s observed card_id =
     (case find_run s (rn_id observed) of
        None \<Rightarrow> None
      | Some r \<Rightarrow>
          (case find_card s card_id of
             None \<Rightarrow> None
           | Some c \<Rightarrow>
               if rn_started_at r \<noteq> None \<and> rn_ended_at r = None \<and> rn_card_id r = rn_card_id observed \<and>
                  cd_id c = rn_card_id r \<and> rn_session r = rn_session observed \<and>
                  rn_herdr_pane_id r = rn_herdr_pane_id observed
               then Some r else None))"

definition adopted :: "env \<Rightarrow> run \<Rightarrow> card \<Rightarrow> string option \<Rightarrow> active_run" where
  "adopted e r c socket =
     \<lparr>ar_card_id = cd_id c,
      ar_handle = \<lparr>rh_pane_id = rn_herdr_pane_id r, rh_workspace_id = rn_herdr_workspace_id r,
         rh_anchor_pane_id = rn_herdr_anchor_pane_id r, rh_pid = None, rh_herdr_socket = socket,
         rh_captured_session_id = rn_session_id r\<rparr>,
      ar_started = en_now e,
      ar_timeout_deadline = reconstruct_deadline (en_instant_max e) (en_now e) (en_wall_now_ms e) (rn_timeout_deadline_at_ms r),
      ar_idle_since = None,
      ar_awaiting_since = reconstruct_awaiting_since (en_instant_min e) (en_now e) (en_wall_now_ms e) (rn_timeout_paused_at_ms r),
      ar_is_local = False, ar_pane_id = rn_herdr_pane_id r\<rparr>"

fun status_signal :: "agent_status \<Rightarrow> agent_signal option" where
  "status_signal AgDone = Some SigDone"
| "status_signal AgBlocked = Some SigBlocked"
| "status_signal AgWorking = Some SigWorking"
| "status_signal AgIdle = None"
| "status_signal AgUnknown = None"

definition adopt_current :: "env \<Rightarrow> run \<Rightarrow> card \<Rightarrow> run \<Rightarrow> string option \<Rightarrow> agent_status \<Rightarrow> unit op" where
  "adopt_current e r c current socket status =
     bindT (readT (\<lambda>d. find_active d (rn_id r))) (\<lambda>present.
     if present \<noteq> None then returnT ()
     else thenT (put_active (rn_id r) (adopted e current c socket))
       (thenT (refresh_watch e)
       (case status_signal status of
          None \<Rightarrow> returnT ()
        | Some sig \<Rightarrow> apply_signal e (rn_id r) (cd_id c) sig)))"

definition adopt_alive :: "env \<Rightarrow> run \<Rightarrow> card \<Rightarrow> session_target \<Rightarrow> agent_status \<Rightarrow> unit op" where
  "adopt_alive e r c target status =
     bindT (ask (\<lambda>s. same_open_run s r (cd_id c))) (\<lambda>current.
     case current of
       None \<Rightarrow> returnT ()
     | Some r' \<Rightarrow>
         (case target of
            DefaultSession _ \<Rightarrow> adopt_current e r c r' None status
          | ResolvedSession socket \<Rightarrow> adopt_current e r c r' (Some socket) status
          | UnresolvedSession \<Rightarrow> returnT ()))"

definition restart_msg :: string where "restart_msg = ''daemon restart: pane exited''"

definition apply_observation :: "env \<Rightarrow> run \<Rightarrow> card \<Rightarrow> session_target \<Rightarrow> runtime_probe \<Rightarrow> unit op" where
  "apply_observation e r c target probe =
     (case probe of
        ProbeUnknown \<Rightarrow> returnT ()
      | ProbeGone \<Rightarrow>
          bindT (ask (\<lambda>s. same_open_run s r (cd_id c))) (\<lambda>current.
          if current = None then returnT () else finalize_exited e (rn_id r) restart_msg)
      | ProbeAlive status \<Rightarrow> adopt_alive e r c target status)"

definition reconcile_once :: "env \<Rightarrow> (session_target \<Rightarrow> (string \<times> agent_status) list option) \<Rightarrow> unit op" where
  "reconcile_once e view =
     bindT (ask active_runs_with_cards) (\<lambda>active.
     case active of
       Inl _ \<Rightarrow> returnT ()
     | Inr rows \<Rightarrow> forT rows (\<lambda>(r, c).
         let target = resolve_session_target e (rn_session r)
         in apply_observation e r c target (probe_run view target r)))"

definition lost_msg :: string where "lost_msg = ''daemon restart: run lost''"

definition adopt_socket :: "env \<Rightarrow> string option \<Rightarrow> string option" where
  "adopt_socket e session =
     (case en_registry e of
        None \<Rightarrow> None
      | Some resolve \<Rightarrow>
          (case resolve session of
             Inl _ \<Rightarrow> None
           | Inr (_, socket) \<Rightarrow> if socket \<noteq> en_default_socket e then Some socket else None))"

definition adopt_runs :: "env \<Rightarrow> (run \<Rightarrow> bool) \<Rightarrow> unit op" where
  \<comment> \<open>the local spawner's start: a run whose pane answers is adopted, any other is lost\<close>
  "adopt_runs e alive =
     bindT (ask active_runs_with_cards) (\<lambda>active.
     case active of
       Inl _ \<Rightarrow> returnT ()
     | Inr rows \<Rightarrow> forT rows (\<lambda>(r, c).
         if rn_herdr_pane_id r \<noteq> None \<and> alive r
         then thenT (put_active (rn_id r) (adopted e r c (adopt_socket e (rn_session r)))) (refresh_watch e)
         else finalize_exited e (rn_id r) lost_msg))"

end
