(* ===== verification/Daemon_Ops.thy ===== *)
theory Daemon_Ops
  imports Daemon_Watch Store_Columns Store_Comments Store_Projects
begin

text \<open>
  The request handlers (\<open>board-daemon/src/ops\<close>) for cards, comments, columns, boards, projects and
  runs. A handler checks, makes at most one call of the store under the locks, and only then sends
  its events and wakes the dispatcher. The reply is the value that the handler encodes as JSON.
\<close>

section \<open>Display labels\<close>

definition permission_label :: "string \<Rightarrow> string" where
  "permission_label mode =
     (if mode = ''ask-for-approval'' then ''Ask for approval''
      else if mode = ''approve-for-me'' then ''Approve for me''
      else if mode = ''full-access'' then ''Full access''
      else if mode = ''sandbox'' then ''Sandbox''
      else if mode = ''always-proceed'' then ''Always proceed''
      else mode)"

definition session_label :: "string option \<Rightarrow> string option \<Rightarrow> string" where
  "session_label session resolved = set_if session (set_if resolved ''default session'')"

definition labels_of_card :: "card \<Rightarrow> string option \<Rightarrow> card_labels" where
  "labels_of_card c resolved =
     \<lparr>lb_session = session_label (cd_session c) resolved,
      lb_effort = (case cd_effort c of Some x \<Rightarrow> effort_str x | None \<Rightarrow> default_effort_label),
      lb_permission = (case cd_permission_mode c of Some m \<Rightarrow> permission_label m | None \<Rightarrow> default_permission_label),
      lb_model = set_if (cd_model c) default_model_label\<rparr>"

definition stamp_card_labels :: "env \<Rightarrow> card \<Rightarrow> card" where
  "stamp_card_labels e c =
     c\<lparr>cd_labels := labels_of_card c
        (if cd_session c \<noteq> None then None
         else case en_registry e of
           None \<Rightarrow> None
         | Some resolve \<Rightarrow> (case resolve None of Inr (name, _) \<Rightarrow> Some name | Inl _ \<Rightarrow> None))\<rparr>"

definition validT :: "validation_error + unit \<Rightarrow> unit op" where
  "validT r = queryT (\<lambda>_. case r of Inl v \<Rightarrow> Inl (Validation v) | Inr _ \<Rightarrow> Inr ())"

section \<open>Cards\<close>

definition default_harness :: string where "default_harness = ''pi''"

definition find_selected_project :: "db \<Rightarrow> project option" where
  "find_selected_project s = Option.bind (db_selection s) (find_project s)"

definition create_guard :: "db \<Rightarrow> card_create_params \<Rightarrow> error + unit" where
  \<comment> \<open>no new card on an archived board, nor in an archived project\<close>
  "create_guard s p =
     (let board_id = set_if (kc_board_id p) board_id_default;
          open_project = (\<lambda>pr. case pr of
             Some q \<Rightarrow> if pj_archived_at q \<noteq> None then Inl (InvalidState (archived_project_msg (scope_label q))) else Inr ()
           | None \<Rightarrow> Inr ())
      in case find_board s board_id of
           Some b \<Rightarrow>
             if bd_archived_at b \<noteq> None then Inl (InvalidState (archived_board_msg board_id))
             else open_project (find_project s (bd_project_id b))
         | None \<Rightarrow>
             if kc_board_id p \<noteq> None then Inr () else open_project (find_selected_project s))"

definition pending_create_card :: "card_create_params \<Rightarrow> card store" where
  "pending_create_card p =
     (let board_id = set_if (kc_board_id p) board_id_default in
      bindT (default_column_id board_id) (\<lambda>default_col.
      let column_id = set_if (kc_column_id p) default_col in
      bindT (require_column column_id) (\<lambda>k.
      thenT (ensureT (col_board_id k = board_id) (InvalidState (wrong_board column_id (col_board_id k) board_id)))
      (returnT (new_card board_id column_id 0 p [])))))"

definition validate_card_create :: "env \<Rightarrow> card_create_params \<Rightarrow> validation_error + unit" where
  "validate_card_create e p =
     (let harness = set_if (kc_harness p) default_harness
      in validate_card_values harness (kc_model p) (kc_effort p) (kc_permission_mode p)
           (set_if (kc_space_kind p) Workspace) (kc_space_ref p) (kc_space_cwd p) (antigravity_validation_config e harness))"

definition card_create_section :: "env \<Rightarrow> card_create_params \<Rightarrow> (card \<times> bool) op" where
  "card_create_section e p =
     bindT (on_db (pending_create_card p)) (\<lambda>pending.
     bindT (on_db (require_column (cd_column_id pending))) (\<lambda>k.
     if ed_enqueue (decide_entry k (cd_status pending) False) then
       bindT (queryT (\<lambda>d. prepare_enqueue_values e (dm_db d) pending (cd_column_id pending) False)) (\<lambda>prepared.
       bindT (on_db (create_card_and_enqueue p prepared)) (\<lambda>(c, _).
       thenT (set_chain_hops (cd_id c) None) (returnT (c, True))))
     else bindT (on_db (create_card p)) (\<lambda>c. returnT (c, False))))"

definition card_create :: "env \<Rightarrow> card_create_params \<Rightarrow> card op" where
  "card_create e p =
     thenT (validT (validate_card_create e p))
     (thenT (queryT (\<lambda>d. create_guard (dm_db d) p))
     (bindT (card_create_section e p) (\<lambda>(c, enqueue).
      thenT (emit_changed CardCreated (Some (cd_id c)) (Some (cd_column_id c)))
      (thenT (if enqueue then wake_dispatch else returnT ())
      (returnT (stamp_card_labels e c))))))"

definition card_duplicate :: "env \<Rightarrow> int \<Rightarrow> card op" where
  "card_duplicate e i =
     bindT (on_db (require_card i)) (\<lambda>c.
     thenT (require_restored (cd_board_id c))
     (thenT (on_db (require_card i))
     (bindT (on_db (duplicate_card i)) (\<lambda>copy.
      thenT (emit_changed CardCreated (Some (cd_id copy)) (Some (cd_column_id copy)))
      (returnT (stamp_card_labels e copy))))))"

definition edits_locked :: "card_update_params \<Rightarrow> bool" where
  "edits_locked p \<longleftrightarrow>
     ku_harness p \<noteq> None \<or> \<not> is_unchanged (ku_model p) \<or> \<not> is_unchanged (ku_effort p) \<or>
     \<not> is_unchanged (ku_permission_mode p) \<or> \<not> is_unchanged (ku_session p) \<or> ku_space_kind p \<noteq> None \<or>
     \<not> is_unchanged (ku_space_ref p) \<or> \<not> is_unchanged (ku_space_cwd p)"

definition card_update :: "env \<Rightarrow> card_update_params \<Rightarrow> card op" where
  "card_update e p =
     bindT (on_db (require_card (ku_id p))) (\<lambda>c.
     thenT (validT (validate_card_edit (cd_status c) (edits_locked p)))
     (bindT (ask (\<lambda>s. find_open_run s (ku_id p))) (\<lambda>open.
      thenT (ensureT (\<not> (edits_locked p \<and> open \<noteq> None))
         (InvalidState [T ''card has an open run; cannot edit harness/space fields'']))
      (thenT (let merged = merge_card_update c p in
              validT (validate_card_settings merged (antigravity_validation_config e (cd_harness merged))))
      (bindT (on_db (update_card p)) (\<lambda>u.
       thenT (emit_changed CardUpdated (Some (cd_id u)) None)
       (returnT (stamp_card_labels e u))))))))"

definition card_delete :: "int \<Rightarrow> bool op" where
  "card_delete i =
     thenT (on_db (require_card i))
     (bindT (ask (\<lambda>s. find_open_run s i)) (\<lambda>open.
      thenT (ensureT (open = None) (InvalidState [T ''card has an open run; cancel it first'']))
      (thenT (on_db (delete_card i))
      (thenT (emit_changed CardDeleted (Some i) None)
      (returnT True)))))"

definition card_archive :: "env \<Rightarrow> int \<Rightarrow> bool \<Rightarrow> card op" where
  "card_archive e i archived =
     bindT (on_db (require_card i)) (\<lambda>c.
     thenT (if archived then
              thenT (validT (validate_card_archive (cd_status c)))
              (bindT (ask (\<lambda>s. find_open_run s i)) (\<lambda>open.
               ensureT (open = None) (InvalidState [T ''card has an open run; cancel it before archiving''])))
            else returnT ())
     (bindT (on_db (set_card_archived i archived)) (\<lambda>u.
      thenT (emit_changed CardArchived (Some i) None)
      (returnT (stamp_card_labels e u)))))"

record card_move_params =
  mv_id :: int
  mv_column_id :: int
  mv_board_id :: "int option"
  mv_position :: "int option"

definition declared_board_msg :: "int \<Rightarrow> int \<Rightarrow> int \<Rightarrow> message" where
  "declared_board_msg col actual declared =
     [T ''column '', N col, T '' belongs to board '', N actual, T '', declared destination board is '', N declared]"

definition transfer_checks :: "env \<Rightarrow> card \<Rightarrow> column \<Rightarrow> int \<Rightarrow> unit op" where
  \<comment> \<open>before a card changes board: the settings it would run with, its session and its workspace\<close>
  "transfer_checks e c target declared =
     thenT (on_db (get_board declared))
     (thenT (ensureT (col_board_id target = declared)
        (InvalidState (declared_board_msg (col_id target) (col_board_id target) declared)))
     (thenT (validT (validate_effective_settings c target
        (antigravity_validation_config e (set_if (col_harness_override target) (cd_harness c)))))
     (case en_registry e of
        None \<Rightarrow> returnT ()
      | Some resolve \<Rightarrow>
          (case resolve (cd_session c) of
             Inl m \<Rightarrow> throwT (InvalidState [T ''cannot move: session does not resolve: '', S m])
           | Inr (_, socket) \<Rightarrow>
               if ed_enqueue (decide_entry target (cd_status c) False) then
                 (case en_space_check e socket (cd_space_kind c) (cd_space_ref c) (cd_space_cwd c) of
                    Inl m \<Rightarrow> throwT (InvalidState [T ''cannot move: workspace does not resolve: '', S m])
                  | Inr _ \<Rightarrow> returnT ())
               else returnT ()))))"

definition place_moved :: "env \<Rightarrow> card_move_params \<Rightarrow> card \<Rightarrow> column \<Rightarrow> (card \<times> bool) op" where
  \<comment> \<open>the one store call of a move to another column\<close>
  "place_moved e p current target =
     (let cross = (case mv_board_id p of Some b \<Rightarrow> b \<noteq> cd_board_id current | None \<Rightarrow> False);
          board = set_if (mv_board_id p) (cd_board_id current);
          entry = decide_entry target (cd_status current) False
      in thenT (if cross then transfer_checks e current target board else returnT ())
        (if ed_enqueue entry then
           bindT (queryT (\<lambda>d. prepare_enqueue_values e (dm_db d) current (mv_column_id p) False)) (\<lambda>prepared.
           bindT (on_db (if cross then transfer_card_and_enqueue (mv_id p) board (mv_column_id p) (mv_position p) prepared
                         else move_card_and_enqueue (mv_id p) (mv_column_id p) (mv_position p) prepared)) (\<lambda>(c, _).
           thenT (set_chain_hops (cd_id c) None) (returnT (c, True))))
         else bindT (on_db (if cross then transfer_card (mv_id p) board (mv_column_id p) (mv_position p)
                            else move_card (mv_id p) (mv_column_id p) (mv_position p))) (\<lambda>c.
           returnT (c, False))))"

definition card_move :: "env \<Rightarrow> card_move_params \<Rightarrow> card op" where
  "card_move e p =
     bindT (on_db (require_card (mv_id p))) (\<lambda>current.
     thenT (ensureT (cd_archived_at current = None) (InvalidState [T ''archived card must be restored before moving'']))
     (bindT (on_db (get_board (cd_board_id current))) (\<lambda>src.
      thenT (ensureT (bd_archived_at src = None) (InvalidState (archived_board_msg (bd_id src))))
      (bindT (on_db (require_column (mv_column_id p))) (\<lambda>target.
       thenT (require_restored (col_board_id target))
       (if mv_column_id p = cd_column_id current then
          bindT (on_db (move_card (mv_id p) (mv_column_id p) (mv_position p))) (\<lambda>c.
          thenT (emit_changed_board CardMoved (cd_board_id current) (Some (cd_id c)) (Some (mv_column_id p)))
          (returnT (stamp_card_labels e c)))
        else
          bindT (place_moved e p current target) (\<lambda>(c, enqueue).
          thenT (if cd_board_id current \<noteq> col_board_id target
                 then emit_changed_board CardMoved (cd_board_id current) (Some (cd_id c)) (Some (cd_column_id current))
                 else returnT ())
          (thenT (emit_changed_board CardMoved (col_board_id target) (Some (cd_id c)) (Some (mv_column_id p)))
          (thenT (if enqueue then wake_dispatch else returnT ())
          (returnT (stamp_card_labels e c)))))))))))"

definition card_get :: "env \<Rightarrow> int \<Rightarrow> card_detail op" where
  "card_get e i =
     bindT (on_db (require_card i)) (\<lambda>c.
     ask (\<lambda>s. \<lparr>dt_card = stamp_card_labels e c, dt_comments = list_comments s i, dt_runs = list_runs s i\<rparr>))"

definition card_list :: "env \<Rightarrow> int option \<Rightarrow> int option \<Rightarrow> visibility option \<Rightarrow> card list op" where
  "card_list e board column view =
     (let board_id = set_if board board_id_default; v = set_if view VisActive in
      bindT (case column of
         Some k \<Rightarrow>
           bindT (on_db (require_column k)) (\<lambda>c.
           thenT (ensureT (col_board_id c = board_id) (InvalidState (wrong_board k (col_board_id c) board_id)))
           (ask (\<lambda>s. list_cards_in_column_visible s k v)))
       | None \<Rightarrow> ask (\<lambda>s. list_cards_visible s board_id v)) (\<lambda>cs.
      returnT (map (stamp_card_labels e) cs)))"

section \<open>Columns\<close>

definition column_create :: "env \<Rightarrow> column_create_params \<Rightarrow> column op" where
  "column_create e p =
     thenT (validT (validate_column_values (cc_harness_override p) (cc_model_override p) (cc_effort_override p)
        (cc_permission_override p) (antigravity_validation_config e (set_if (cc_harness_override p) [])) ColumnOverride))
     (bindT (on_db (create_column p)) (\<lambda>k.
      thenT (emit_changed ColumnChanged None (Some (col_id k)))
      (returnT k)))"

definition column_update :: "env \<Rightarrow> column_update_params \<Rightarrow> column op" where
  "column_update e p =
     bindT (on_db (require_column (cu_id p))) (\<lambda>current.
     let merged = merge_column_update current p in
     thenT (validT (validate_column_update current merged p
        (antigravity_validation_config e (set_if (col_harness_override merged) []))))
     (bindT (on_db (update_column p)) (\<lambda>k.
      thenT (emit_changed ColumnChanged None (Some (col_id k)))
      (returnT k))))"

definition column_reorder :: "int \<Rightarrow> int \<Rightarrow> column list op" where
  "column_reorder i position =
     bindT (on_db (reorder_column i position)) (\<lambda>ks.
     thenT (emit_changed ColumnChanged None None) (returnT ks))"

definition column_delete :: "int \<Rightarrow> int option \<Rightarrow> bool op" where
  "column_delete i dest =
     bindT (ask (\<lambda>s. (column_cards s i, column_has_open_run s i))) (\<lambda>(cards, has_open_run).
     thenT (validT (validate_column_delete (cards \<noteq> []) has_open_run dest))
     (thenT (on_db (delete_column i dest))
     (thenT (emit_changed ColumnChanged None None)
     (returnT True))))"

section \<open>Comments\<close>

definition agent_author :: "int \<Rightarrow> string" where "agent_author i = ''agent:'' @ show_int i"

definition require_agent_run :: "int \<Rightarrow> int \<Rightarrow> string \<Rightarrow> unit op" where
  "require_agent_run actor card_id author =
     thenT (ensureT (author = agent_author actor)
        (InvalidState [T ''agent run '', N actor, T '' may only act as '', S (agent_author actor)]))
     (bindT (ask (\<lambda>s. find_run s actor)) (\<lambda>found.
      case found of
        None \<Rightarrow>
          bindT (on_db (require_card card_id)) (\<lambda>c.
          bindT (ask (\<lambda>s. find_open_run s card_id)) (\<lambda>open.
          ensureT (cd_harness c = ''fake'' \<and> open = None) (NotFound [T ''run '', N actor])))
      | Some r \<Rightarrow>
          thenT (ensureT (rn_card_id r = card_id)
             (InvalidState [T ''agent run '', N actor, T '' does not belong to comment card '', N card_id]))
          (ensureT (rn_ended_at r = None) (InvalidState [T ''agent run '', N actor, T '' is no longer open'']))))"

definition comment_for_mutation :: "int \<Rightarrow> int option \<Rightarrow> comment op" where
  "comment_for_mutation i actor =
     bindT (on_db (require_comment i)) (\<lambda>m.
     thenT (case actor of None \<Rightarrow> returnT () | Some a \<Rightarrow> require_agent_run a (cm_card_id m) (cm_author m))
     (returnT m))"

record comment_add_params =
  ca_card_id :: int
  ca_body :: string
  ca_author :: "string option"
  ca_actor_run_id :: "int option"
  ca_actor_pane_id :: "string option"

definition stated_author :: "comment_add_params \<Rightarrow> string op" where
  "stated_author p =
     (case ca_actor_run_id p of
        Some i \<Rightarrow> thenT (require_agent_run i (ca_card_id p) (set_if (ca_author p) (agent_author i))) (returnT (agent_author i))
      | None \<Rightarrow> returnT (set_if (ca_author p) ''user''))"

definition comment_author :: "comment_add_params \<Rightarrow> string op" where
  \<comment> \<open>the pane of the open run vouches for the run; otherwise the stated run is checked\<close>
  "comment_author p =
     bindT (ask (\<lambda>s. find_open_run s (ca_card_id p))) (\<lambda>open.
     case (ca_actor_pane_id p, open) of
       (Some pane, Some r) \<Rightarrow> if rn_herdr_pane_id r = Some pane then returnT (agent_author (rn_id r)) else stated_author p
     | _ \<Rightarrow> stated_author p)"

definition comment_add :: "comment_add_params \<Rightarrow> comment op" where
  "comment_add p =
     bindT (on_db (require_card (ca_card_id p))) (\<lambda>c.
     bindT (comment_author p) (\<lambda>author.
     bindT (on_db (add_comment (cd_id c) author (ca_body p))) (\<lambda>m.
     thenT (emit_changed_board CommentAdded (cd_board_id c) (Some (cd_id c)) None)
     (returnT m))))"

definition comment_get :: "int \<Rightarrow> comment op" where
  "comment_get i = on_db (require_comment i)"

definition comment_update :: "int \<Rightarrow> string \<Rightarrow> int option \<Rightarrow> comment op" where
  "comment_update i body actor =
     bindT (comment_for_mutation i actor) (\<lambda>m.
     bindT (on_db (require_card (cm_card_id m))) (\<lambda>c.
     bindT (on_db (update_comment (cm_id m) body)) (\<lambda>u.
     thenT (emit_changed_board CommentAdded (cd_board_id c) (Some (cd_id c)) None)
     (returnT u))))"

definition comment_delete :: "int \<Rightarrow> int option \<Rightarrow> bool op" where
  "comment_delete i actor =
     bindT (comment_for_mutation i actor) (\<lambda>m.
     bindT (on_db (require_card (cm_card_id m))) (\<lambda>c.
     thenT (on_db (soft_delete_comment (cm_id m)))
     (thenT (emit_changed_board CommentAdded (cd_board_id c) (Some (cd_id c)) None)
     (returnT True))))"

definition op_comment_history :: "int \<Rightarrow> comment_history list op" where
  "op_comment_history i = thenT (on_db (require_comment i)) (ask (\<lambda>s. list_comment_history s i))"

section \<open>Runs\<close>

definition run_lifecycle_facts :: "run \<Rightarrow> card \<Rightarrow> int option \<Rightarrow> lifecycle_facts" where
  "run_lifecycle_facts r c supplied =
     \<lparr>lf_open_run_id = Some (rn_id r), lf_supplied_run_id = supplied, lf_started = (rn_started_at r \<noteq> None),
      lf_harness = (if is_builtin_harness (rn_harness r) then BuiltIn else Configured), lf_card_status = cd_status c\<rparr>"

fun lifecycle_rejection_error :: "int \<Rightarrow> lifecycle_rejection \<Rightarrow> error" where
  "lifecycle_rejection_error c NoOpenRun = NotFound [T ''no active run for card '', N c]"
| "lifecycle_rejection_error c QueuedBuiltinCompletion = NotFound [T ''no active run for card '', N c]"
| "lifecycle_rejection_error c QueuedCompletionRequiresRunId =
     InvalidState [T ''queued run for card '', N c, T '' requires run_id'']"
| "lifecycle_rejection_error c (SuppliedRunIdMismatch expected supplied) =
     InvalidState [T ''no active run for card '', N c, T '': run '', N supplied, T '' does not match active run '', N expected]"
| "lifecycle_rejection_error c PaneExitRequiresRunId =
     InvalidState [T ''pane-exited callback for card '', N c, T '' must supply a run id'']"
| "lifecycle_rejection_error c PaneExitBuiltin =
     InvalidState [T ''pane-exited callback is only valid for configured harnesses'']"
| "lifecycle_rejection_error c TimeoutBeforeStart = InvalidState [T ''run for card '', N c, T '' has not started'']"
| "lifecycle_rejection_error c TimeoutPaused = InvalidState [T ''run for card '', N c, T '' is awaiting review'']"

definition lifecycle_plan :: "int \<Rightarrow> run \<Rightarrow> card \<Rightarrow> int option \<Rightarrow> lifecycle_action \<Rightarrow> finalize_plan op" where
  "lifecycle_plan card_id r c supplied action =
     (case decide_lifecycle (run_lifecycle_facts r c supplied) action of
        Finalize plan \<Rightarrow> returnT plan
      | Reject why \<Rightarrow> throwT (lifecycle_rejection_error card_id why))"

record run_done_params =
  rd_card_id :: int
  rd_outcome :: run_outcome
  rd_summary :: "string option"
  rd_run_id :: "int option"
  rd_actor_pane_id :: "string option"

definition no_active_run :: "int \<Rightarrow> card \<Rightarrow> run store" where
  "no_active_run card_id c =
     bindT (if cd_status c = Idle then bindT (require_column (cd_column_id c)) (\<lambda>k. returnT (col_trigger k = Manual))
            else returnT False) (\<lambda>manual_idle.
     throwT (NotFound (if manual_idle
       then [T ''no active run for card '', N card_id, T ''; manual column: close via board move '', N card_id, T '' <column>'']
       else [T ''no active run for card '', N card_id])))"

definition run_done_plan :: "run_done_params \<Rightarrow> (run \<times> finalize_plan) op" where
  "run_done_plan p =
     bindT (on_db (require_card (rd_card_id p))) (\<lambda>c.
     bindT (ask (\<lambda>s. find_open_run s (rd_card_id p))) (\<lambda>open.
     bindT (case open of Some r \<Rightarrow> returnT r | None \<Rightarrow> on_db (no_active_run (rd_card_id p) c)) (\<lambda>r.
     let actor = (case rd_actor_pane_id p of
           Some pane \<Rightarrow> if rn_herdr_pane_id r = Some pane then Some (rn_id r) else rd_run_id p
         | None \<Rightarrow> rd_run_id p)
     in bindT (lifecycle_plan (rd_card_id p) r c actor (ActDone (rd_outcome p))) (\<lambda>plan. returnT (r, plan)))))"

definition run_done :: "env \<Rightarrow> run_done_params \<Rightarrow> (run \<times> card) op" where
  "run_done e p =
     bindT (run_done_plan p) (\<lambda>(r, plan).
     dispatch_finalize_run e (rn_id r) (fp_outcome plan) (rd_summary p) None (fp_kill plan) (fp_transition plan))"

definition run_pane_exited :: "env \<Rightarrow> int \<Rightarrow> int \<Rightarrow> (run \<times> card) op" where
  "run_pane_exited e card_id run_id =
     bindT (queryT (\<lambda>d. ok_or (NotFound [T ''no open run for card '', N card_id]) (find_open_run (dm_db d) card_id))) (\<lambda>r.
     bindT (on_db (require_card card_id)) (\<lambda>c.
     bindT (lifecycle_plan card_id r c (Some run_id) ActPaneExited) (\<lambda>plan.
     dispatch_finalize_run e (rn_id r) (fp_outcome plan)
       (Some ''configured harness exited without calling board done'') (Some pane_exit_msg)
       (fp_kill plan) (fp_transition plan))))"

definition cancel_queued_section :: "int \<Rightarrow> finalize_effects op" where
  "cancel_queued_section card_id =
     bindT (queryT (\<lambda>d. ok_or (NotFound [T ''no active or queued run for card '', N card_id])
        (case find_open_run (dm_db d) card_id of
           None \<Rightarrow> None
         | Some r \<Rightarrow> if rn_started_at r = None then Some r else None))) (\<lambda>queued.
     bindT (on_db (finalize_run_uow
        \<lparr>fz_run_id = rn_id queued, fz_outcome = Cancelled, fz_summary = Some ''cancelled by user'',
         fz_comments = [(''system'', ''queued run cancelled by user'')], fz_target_column_id = None,
         fz_final_status = Failed, fz_final_awaiting_reason = None, fz_next = None\<rparr>)) (\<lambda>fx.
     thenT (set_chain_hops card_id None) (returnT fx)))"

definition run_cancel :: "env \<Rightarrow> int \<Rightarrow> (run \<times> card) op" where
  "run_cancel e card_id =
     bindT (ask (\<lambda>s. find_active_run s card_id)) (\<lambda>active.
     case active of
       Some r \<Rightarrow> dispatch_finalize_run e (rn_id r) Cancelled (Some ''cancelled by user'') None True False
     | None \<Rightarrow>
         bindT (cancel_queued_section card_id) (\<lambda>fx.
         thenT (refresh_watch e)
         (thenT (emit_run_ended card_id (rn_id (fe_finished_run fx)) Cancelled)
         (thenT wake_dispatch
         (returnT (fe_finished_run fx, fe_card fx))))))"

definition retry_section :: "int \<Rightarrow> card op" where
  "retry_section card_id =
     bindT (on_db (require_card card_id)) (\<lambda>c.
     thenT (ensureT (cd_archived_at c = None) (InvalidState [T ''archived card must be restored before retrying'']))
     (thenT (require_restored (cd_board_id c))
     (bindT (ask (\<lambda>s. find_open_run s card_id)) (\<lambda>open.
      thenT (ensureT (open = None) (InvalidState [T ''card has an open run; complete or cancel it before retrying'']))
      (thenT (set_chain_hops card_id None) (returnT c))))))"

definition run_retry :: "env \<Rightarrow> int \<Rightarrow> (run \<times> card) op" where
  "run_retry e card_id =
     bindT (retry_section card_id) (\<lambda>c.
     bindT (dispatch_enqueue_run e card_id (cd_column_id c) True) (\<lambda>r.
     thenT wake_dispatch
     (thenT (emit_changed CardUpdated (Some card_id) None)
     (bindT (on_db (require_card card_id)) (\<lambda>c'. returnT (r, c'))))))"

section \<open>Boards\<close>

record board_snapshot =
  bs_board :: board
  bs_columns :: "column list"
  bs_cards :: "card list"
  bs_active_runs :: "(int \<times> string option) list"

definition board_snapshot_of :: "env \<Rightarrow> int \<Rightarrow> board_snapshot op" where
  "board_snapshot_of e i =
     bindT (on_db (get_board i)) (\<lambda>b.
     ask (\<lambda>s. \<lparr>bs_board = b, bs_columns = list_columns s i,
               bs_cards = map (stamp_card_labels e) (list_cards_visible s i VisAll),
               bs_active_runs = active_run_summaries s i\<rparr>))"

definition op_board_open :: "env \<Rightarrow> string \<Rightarrow> board_snapshot op" where
  "op_board_open e scope = bindT (on_db (open_board scope)) (\<lambda>b. board_snapshot_of e (bd_id b))"

definition op_board_archive :: "(string \<Rightarrow> string) \<Rightarrow> int \<Rightarrow> bool \<Rightarrow> board op" where
  "op_board_archive lower i archived =
     bindT (on_db (set_board_archived lower i archived)) (\<lambda>b.
     thenT (emit_changed_board (if archived then BoardArchived else BoardRestored) (bd_id b) None None)
     (returnT b))"

definition op_board_create :: "env \<Rightarrow> int \<Rightarrow> string \<Rightarrow> board_snapshot op" where
  "op_board_create e project_id name = bindT (on_db (create_board project_id name)) (\<lambda>b. board_snapshot_of e (bd_id b))"

definition op_board_select :: "env \<Rightarrow> int \<Rightarrow> board_snapshot op" where
  "op_board_select e i =
     thenT (require_restored i)
     (bindT (on_db (select_board i)) (\<lambda>(_, b). board_snapshot_of e (bd_id b)))"

definition op_board_rename :: "int \<Rightarrow> string \<Rightarrow> board op" where
  "op_board_rename i name =
     bindT (on_db (rename_board i name)) (\<lambda>b.
     thenT (emit_changed_board ColumnChanged (bd_id b) None None)
     (returnT b))"

definition op_board_get :: "env \<Rightarrow> int option \<Rightarrow> board_snapshot op" where
  "op_board_get e i = board_snapshot_of e (set_if i board_id_default)"

definition daemon_counts :: "(int \<times> int) op" where
  \<comment> \<open>the run counts of \<open>daemon.status\<close>\<close>
  "daemon_counts = ask (\<lambda>s. (count_active_runs s, count_queued_runs s))"

section \<open>The pipeline template\<close>

definition plan_prompt :: string where
  "plan_prompt =
     ''You are in the PLAN stage. Use /quick-planner style planning: produce a written'' @ nl @
     ''implementation plan and save it under docs/plans/ (or .plans/). Do not write code.'' @ nl @
     ''When finished you MUST run:'' @ nl @
     ''  board comment $BOARD_CARD_ID '' @ dq @ ''Plan ready at <filepath>. <3-line summary>'' @ dq @ nl @
     ''  board done $BOARD_CARD_ID --outcome ok''"

definition execute_prompt :: string where
  "execute_prompt =
     ''You are in the EXECUTE stage. Implement the plan referenced in the card comments.'' @ nl @
     ''Run tests. When finished:'' @ nl @
     ''  board comment $BOARD_CARD_ID '' @ dq @ ''<what changed, files touched, test results>'' @ dq @ nl @
     ''  board done $BOARD_CARD_ID --outcome ok    # or --outcome fail with reasons''"

definition review_prompt :: string where
  "review_prompt =
     ''You are in the REVIEW stage. Review the diff against the card description and the'' @ nl @
     ''plan/execution comments. Be adversarial. Then:'' @ nl @
     ''  board comment $BOARD_CARD_ID '' @ dq @ ''<verdict + findings>'' @ dq @ nl @
     ''  board done $BOARD_CARD_ID --outcome ok    # ok = ship to human; fail = back to Execute''"

definition template_column :: "int \<Rightarrow> string \<Rightarrow> trigger \<Rightarrow> string option \<Rightarrow> string option \<Rightarrow> column_create_params" where
  "template_column board_id name trigger prompt model =
     \<lparr>cc_name = name, cc_board_id = Some board_id, cc_position = None, cc_system_prompt = prompt,
      cc_trigger = Some trigger, cc_on_success = None, cc_on_fail = None, cc_fresh_session = None,
      cc_harness_override = None, cc_model_override = model, cc_effort_override = None,
      cc_permission_override = None, cc_timeout_minutes = None\<rparr>"

definition pipeline_specs :: "int \<Rightarrow> column_create_params list" where
  "pipeline_specs b =
     [template_column b ''Plan'' Auto (Some plan_prompt) None,
      template_column b ''Execute'' Auto (Some execute_prompt) None,
      template_column b ''Review'' Auto (Some review_prompt) (Some ''opus''),
      template_column b ''Human Review'' Manual None None,
      template_column b ''Done'' Manual None None]"

definition pipeline_wiring :: "int \<Rightarrow> column_wiring list" where
  "pipeline_wiring todo =
     [\<lparr>cw_column_index = 0, cw_on_success = Some (Created 1), cw_on_fail = Some (Existing todo)\<rparr>,
      \<lparr>cw_column_index = 1, cw_on_success = Some (Created 2), cw_on_fail = None\<rparr>,
      \<lparr>cw_column_index = 2, cw_on_success = Some (Created 3), cw_on_fail = Some (Created 1)\<rparr>]"

definition template_apply :: "string \<Rightarrow> int option \<Rightarrow> column list op" where
  "template_apply name board =
     (let board_id = set_if board board_id_default in
      thenT (ensureT (name = ''pipeline'') (BadRequest [T ''unknown template: '', S name]))
      (thenT (require_restored board_id)
      (thenT (on_db (get_board board_id))
      (bindT (queryT (\<lambda>d. case list_columns (dm_db d) board_id of
          [todo] \<Rightarrow>
            if col_name todo = ''Todo'' \<and> list_cards_visible (dm_db d) board_id VisAll = [] then Inr (col_id todo)
            else Inl (InvalidState [T ''template.apply requires an empty board (only the seed Todo column, no cards)''])
        | _ \<Rightarrow> Inl (InvalidState [T ''template.apply requires an empty board (only the seed Todo column, no cards)'']))) (\<lambda>todo.
       bindT (on_db (apply_template_columns board_id (pipeline_specs board_id) (pipeline_wiring todo))) (\<lambda>ks.
       thenT (emit_changed_board ColumnChanged board_id None None)
       (returnT ks)))))))"

section \<open>Projects\<close>

definition op_project_archive :: "(string \<Rightarrow> string) \<Rightarrow> string \<Rightarrow> bool \<Rightarrow> project op" where
  \<comment> \<open>boards learn of their project's archive one by one\<close>
  "op_project_archive lower scope archived =
     bindT (on_db (set_project_archived lower scope archived)) (\<lambda>p.
     thenT (if archived then
              thenT (emit_changed_board ProjectArchived 0 None None)
              (bindT (ask (\<lambda>s. list_boards_for_project_filtered s (pj_id p) (Some VisAll))) (\<lambda>bs.
               forT bs (\<lambda>b. emit_changed_board ProjectArchived (bd_id b) None None)))
            else emit_changed_board ProjectRestored 0 None None)
     (returnT p))"

definition project_open_result :: "env \<Rightarrow> project \<times> board \<Rightarrow> (project \<times> board_snapshot) op" where
  "project_open_result e pb =
     bindT (board_snapshot_of e (bd_id (snd pb))) (\<lambda>snap. returnT (fst pb, snap))"

definition op_project_open :: "env \<Rightarrow> string \<Rightarrow> (project \<times> board_snapshot) op" where
  "op_project_open e scope =
     thenT (queryT (\<lambda>d. case find_project_by_scope (dm_db d) scope of
        Some p \<Rightarrow> if pj_archived_at p \<noteq> None then Inl (InvalidState (archived_project_msg scope)) else Inr ()
      | None \<Rightarrow> Inr ()))
     (bindT (on_db (open_project_context scope)) (project_open_result e))"

definition op_project_create :: "env \<Rightarrow> (string \<Rightarrow> error + unit) \<Rightarrow> string \<Rightarrow> (project \<times> board_snapshot) op" where
  \<comment> \<open>\<open>check_dir\<close> asks the file system whether the folder exists\<close>
  "op_project_create e check_dir scope =
     thenT (queryT (\<lambda>_. check_dir scope))
     (bindT (on_db (create_project_context scope)) (project_open_result e))"

definition op_project_select :: "env \<Rightarrow> string \<Rightarrow> int option \<Rightarrow> (project \<times> board_snapshot) op" where
  "op_project_select e scope board =
     bindT (on_db (require_project_by_scope scope)) (\<lambda>p.
     thenT (ensureT (pj_archived_at p = None) (InvalidState (archived_project_msg scope)))
     (thenT (case board of
               None \<Rightarrow> returnT ()
             | Some i \<Rightarrow> bindT (on_db (get_board i)) (\<lambda>b.
                 ensureT (bd_archived_at b = None) (InvalidState (archived_board_msg i))))
     (bindT (on_db (select_project_by_scope scope board)) (project_open_result e))))"

definition op_project_selected :: "env \<Rightarrow> (project \<times> board_snapshot) option op" where
  "op_project_selected e =
     bindT (ask db_selection) (\<lambda>sel.
     case sel of
       None \<Rightarrow> returnT None
     | Some i \<Rightarrow>
         bindT (on_db (get_project i)) (\<lambda>p.
         bindT (on_db (project_context_board (pj_id p))) (\<lambda>b.
         bindT (board_snapshot_of e (bd_id b)) (\<lambda>snap.
         returnT (Some (p, snap))))))"

end
