(* ===== verification/Store_Machine.thy ===== *)
theory Store_Machine
  imports Store_Steps
begin

text \<open>
  Every call that changes the store, the states that sequences of calls reach from a fresh database,
  and the life of a run. \<open>db_now\<close> moves between calls and the test hook \<open>db_fault\<close> may inject a
  fault at any time.
\<close>

section \<open>The calls\<close>

datatype store_call =
    MoveCard int int "int option"
  | TransferCard int int int "int option"
  | CreateCard card_create_params
  | CreateCardEnqueue card_create_params enqueue_run
  | DuplicateCard int
  | DeleteCard int
  | MoveCardEnqueue int int "int option" enqueue_run
  | TransferCardEnqueue int int int "int option" enqueue_run
  | UpdateCard card_update_params
  | ArchiveCard int bool
  | SetStatus int card_status
  | SetAwaiting int awaiting_reason
  | SetSession int string
  | PauseTimeout int awaiting_reason int
  | ResumeTimeout int card_status int
  | AddComment int string string
  | UpdateComment int string
  | DeleteComment int
  | EnqueueRun enqueue_run
  | PromoteRun int "string option" "string option" "string option" "int option" "string option"
  | CaptureSession int string
  | FinalizeRun finalize_run
  | CreateColumn column_create_params
  | UpdateColumn column_update_params
  | ReorderColumn int int
  | DeleteColumn int "int option"
  | ApplyTemplate int "column_create_params list" "column_wiring list"
  | GetOrCreateProject string
  | OpenBoard string
  | CreateProject string
  | OpenProject string
  | SelectProject string "int option"
  | SelectBoard int
  | CreateBoard int string
  | RenameBoard int string
  | ArchiveBoard int bool
  | ArchiveProject string bool

definition void :: "'a store \<Rightarrow> unit store" where
  "void m = thenT m (returnT ())"

fun apply_call :: "(string \<Rightarrow> string) \<Rightarrow> store_call \<Rightarrow> unit store" where
  "apply_call lower (MoveCard i c p) = void (move_card i c p)"
| "apply_call lower (TransferCard i b c p) = void (transfer_card i b c p)"
| "apply_call lower (CreateCard p) = void (create_card p)"
| "apply_call lower (CreateCardEnqueue p r) = void (create_card_and_enqueue p r)"
| "apply_call lower (DuplicateCard i) = void (duplicate_card i)"
| "apply_call lower (DeleteCard i) = delete_card i"
| "apply_call lower (MoveCardEnqueue i c p r) = void (move_card_and_enqueue i c p r)"
| "apply_call lower (TransferCardEnqueue i b c p r) = void (transfer_card_and_enqueue i b c p r)"
| "apply_call lower (UpdateCard u) = void (update_card u)"
| "apply_call lower (ArchiveCard i a) = void (set_card_archived i a)"
| "apply_call lower (SetStatus i st) = void (set_card_status i st)"
| "apply_call lower (SetAwaiting i re) = void (set_card_awaiting i re)"
| "apply_call lower (SetSession i sid) = void (set_card_session i sid)"
| "apply_call lower (PauseTimeout i re now) = void (pause_run_timeout i re now)"
| "apply_call lower (ResumeTimeout i st now) = void (resume_run_timeout i st now)"
| "apply_call lower (AddComment i author body) = void (add_comment i author body)"
| "apply_call lower (UpdateComment i body) = void (update_comment i body)"
| "apply_call lower (DeleteComment i) = void (soft_delete_comment i)"
| "apply_call lower (EnqueueRun p) = void (Store_Runs.enqueue_run p)"
| "apply_call lower (PromoteRun i w pn an dl cap) = void (promote_run_with_anchor i w pn an dl cap)"
| "apply_call lower (CaptureSession i sid) = void (promote_captured_session i sid)"
| "apply_call lower (FinalizeRun p) = void (finalize_run_uow p)"
| "apply_call lower (CreateColumn p) = void (create_column p)"
| "apply_call lower (UpdateColumn u) = void (update_column u)"
| "apply_call lower (ReorderColumn i p) = void (reorder_column i p)"
| "apply_call lower (DeleteColumn i d) = delete_column i d"
| "apply_call lower (ApplyTemplate b specs ws) = void (apply_template_columns b specs ws)"
| "apply_call lower (GetOrCreateProject sc) = void (get_or_create_project sc)"
| "apply_call lower (OpenBoard sc) = void (open_board sc)"
| "apply_call lower (CreateProject sc) = void (create_project_context sc)"
| "apply_call lower (OpenProject sc) = void (open_project_context sc)"
| "apply_call lower (SelectProject sc b) = void (select_project_by_scope sc b)"
| "apply_call lower (SelectBoard i) = void (select_board i)"
| "apply_call lower (CreateBoard p name) = void (create_board p name)"
| "apply_call lower (RenameBoard i name) = void (rename_board i name)"
| "apply_call lower (ArchiveBoard i a) = void (set_board_archived lower i a)"
| "apply_call lower (ArchiveProject sc a) = void (set_project_archived lower sc a)"

lemma keeps_void: "keeps P m \<Longrightarrow> keeps P (void m)"
  unfolding void_def by (intro tx_keeps)

lemma snd_void: "snd (void m s) = snd (m s)"
  by (auto simp: void_def thenT_def bindT_def returnT_def split: prod.splits sum.splits)

section \<open>The remaining context operations\<close>

lemma readonly_context_board: "readonly (project_context_board p)"
  by (auto simp: readonly_def project_context_board_def bindT_def readT_def main_board_def require_def queryT_def
      returnT_def get_board_def split: option.splits sum.splits)

lemma select_project_wp:
  assumes inv: "ctx_ok s"
  shows "wp (select_project_by_scope sc bo)
    (\<lambda>(p, b) t. lands_on (pj_id p) (bd_id b) t \<and> find_project_by_scope s sc = Some p \<and> bd_project_id b = pj_id p \<and>
       (\<forall>i. bo = Some i \<longrightarrow> bd_id b = i) \<and> (bo = None \<longrightarrow> bd_archived_at b = None) \<and> same_work s t)
    (\<lambda>_ t. t = s) s" (is "wp _ ?Q ?E s")
proof (cases "find_project_by_scope s sc")
  case None
  then show ?thesis by (simp add: select_project_by_scope_def require_project_by_scope_def tx_simps)
next
  case (Some p)
  have last: "wp (thenT (transaction (remember_context (pj_id p) (bd_id b))) (returnT (p, b))) ?Q ?E s"
    if "board_in_project s (pj_id p) (bd_id b)" "bd_project_id b = pj_id p" "\<forall>i. bo = Some i \<longrightarrow> bd_id b = i"
      "bo = None \<longrightarrow> bd_archived_at b = None" for b
    using remember_ctx [OF inv that(1)] lands_on_remembered [OF inv that(1)] remembered_work [of s "pj_id p" "bd_id b"] that Some
    by (simp add: wp_def thenT_def bindT_def transaction_def returnT_def)
  show ?thesis
  proof (cases bo)
    case None
    have "wp (project_context_board (pj_id p))
        (\<lambda>b. wp (thenT (transaction (remember_context (pj_id p) (bd_id b))) (returnT (p, b))) ?Q ?E) ?E s"
    proof (rule wp_atomicI [OF readonly_atomic [OF readonly_context_board]])
      fix b t assume r: "project_context_board (pj_id p) s = (Inr b, t)"
      have "context_inv s" using inv by (simp add: ctx_ok_def)
      note m = project_context_board_ok [OF this r]
      show "wp (thenT (transaction (remember_context (pj_id p) (bd_id b))) (returnT (p, b))) ?Q ?E t"
        unfolding m(1) using m(2-4) None by (intro last) simp_all
    qed simp
    then show ?thesis
      using Some None by (simp add: select_project_by_scope_def require_project_by_scope_def wp_bind wp_lookups wp_basic)
  next
    case bo: (Some i)
    show ?thesis
    proof (cases "find_board s i")
      case None
      then show ?thesis
        using Some bo by (simp add: select_project_by_scope_def require_project_by_scope_def tx_simps)
    next
      case b: (Some b)
      obtain r where r: "r \<in> set (db_boards s)" "br_id r = i" "bd_id b = i" "br_project_id r = bd_project_id b"
        using find_board_row [OF b] by blast
      then have "board_in_project s (bd_project_id b) (bd_id b)" by (auto simp: board_in_project_def)
      with last [of b] r(3) Some bo b show ?thesis
        by (cases "bd_project_id b = pj_id p") (simp_all add: select_project_by_scope_def require_project_by_scope_def wp_bind wp_lookups wp_basic
            wp_then [of "ensureT x y" for x y])
    qed
  qed
qed

lemma keeps_context_calls:
  "keeps ctx_ok (get_or_create_project sc)" "keeps ctx_ok (open_board sc)" "keeps ctx_ok (create_project_context sc)"
  "keeps ctx_ok (open_project_context sc)" "keeps ctx_ok (select_project_by_scope sc bo)" "keeps ctx_ok (select_board i)"
  "keeps ctx_ok (create_board p name)" "keeps ctx_ok (rename_board i name)" "keeps ctx_ok (set_board_archived lower i ar)"
  "keeps ctx_ok (set_project_archived lower sc ar)"
proof -
  show g: "keeps ctx_ok (get_or_create_project sc)"
    unfolding keeps_wp by (auto intro!: wp_mono [OF get_or_create_project_wp])
  show "keeps ctx_ok (open_board sc)"
    unfolding open_board_def by (intro tx_keeps g keeps_readonly readonly_context_board)
  show "keeps ctx_ok (create_project_context sc)"
    unfolding keeps_wp by (auto intro!: wp_mono [OF create_project_context_wp] simp: lands_on_def)
  show "keeps ctx_ok (open_project_context sc)"
    unfolding keeps_wp by (auto intro!: wp_mono [OF open_project_context_wp] simp: lands_on_def)
  show "keeps ctx_ok (select_project_by_scope sc bo)"
    unfolding keeps_wp by (auto intro!: wp_mono [OF select_project_wp] simp: lands_on_def)
  show "keeps ctx_ok (select_board i)"
    unfolding keeps_wp by (auto intro!: wp_mono [OF select_board_wp] simp: lands_on_def)
  show "keeps ctx_ok (create_board p name)"
    unfolding keeps_wp by (auto intro!: wp_mono [OF create_board_wp] simp: board_created_def lands_on_def)
  show "keeps ctx_ok (rename_board i name)"
    unfolding keeps_wp by (auto intro!: wp_mono [OF rename_board_wp])
  show "keeps ctx_ok (set_board_archived lower i ar)"
    unfolding keeps_wp by (auto intro!: wp_mono [OF set_board_archived_wp] simp: board_archived_spec_def)
  show "keeps ctx_ok (set_project_archived lower sc ar)"
    unfolding keeps_wp by (auto intro!: wp_mono [OF set_project_archived_wp])
qed

section \<open>Every call keeps the invariants\<close>

definition db_ok :: "db \<Rightarrow> bool" where
  "db_ok s \<longleftrightarrow> ctx_ok s \<and> audit_inv s"

lemma keeps_inv_add_comment: "keeps board_inv (add_comment i author body)"
  unfolding add_comment_def require_comment_def by (intro tx_keeps)

lemma keeps_store_columns:
  "keeps store_inv (create_column p)" "keeps store_inv (update_column u)" "keeps store_inv (reorder_column i pos)"
  "keeps store_inv (delete_column i d)" "keeps store_inv (apply_template_columns b specs ws)"
  unfolding keeps_wp
  by (auto intro!: wp_mono [OF create_column_wp] wp_mono [OF update_column_wp] wp_mono [OF reorder_column_wp]
      wp_mono [OF delete_column_wp] wp_mono [OF apply_template_wp]
      simp: column_created_def column_updated_def column_moved_def column_deleted_def)

lemma call_keeps_ctx: "keeps ctx_ok (apply_call lower c)"
proof (cases c)
  case (UpdateComment i body) then show ?thesis by (simp add: keeps_void keeps_comment_edits)
next
  case (DeleteComment i) then show ?thesis by (simp add: keeps_void keeps_comment_edits)
qed (simp_all only: apply_call.simps,
    (intro keeps_void keeps_context_calls | rule keeps_void keeps_ctx_column keeps_ctx_work
       keeps_store_columns keeps_inv_edits keeps_inv_moves keeps_run_ops keeps_inv_add_comment
       columns_frame.card_ops columns_frame.run_ops columns_frame.finalize columns_frame.promote columns_delete.delete columns_edit.edit context_edit.edit context_frame.card_ops
       context_runs.run_ops context_runs.finalize context_runs.promote context_delete.delete
       context_frame.column_ops)+)

lemma call_keeps_audit:
  assumes "db_ok s"
  shows "audit_inv (snd (apply_call lower c s))"
proof -
  have ctx: "audit_inv (snd (m s))"
    if "keeps ctx_ok m" "\<And>X. keeps (\<lambda>s. (db_comments s, db_history s) = X) m" for m :: "'a store"
  proof (rule audit_inv_frame)
    show "schema_ok (snd (m s))" using assms that(1) store_invD(2) by (simp add: keeps_def db_ok_def ctx_ok_def)
    show "db_comments (snd (m s)) = db_comments s" "db_history (snd (m s)) = db_history s"
      using frame_eq [OF that(2), of s] by simp_all
  qed (use assms in \<open>simp add: db_ok_def\<close>)
  have law: "audit_inv (snd (m s))" if "keeps audit_inv m" for m :: "'a store"
    using assms that by (simp add: keeps_def db_ok_def)
  show ?thesis
    by (cases c; simp add: snd_void;
        ((rule ctx, rule keeps_context_calls, rule trail_frame.context_ops) |
         (rule law, rule audit.card_ops audit_edit.edit audit_runs.run_ops audit_runs.finalize audit_runs.promote audit_delete.delete audit.column_ops keeps_comment_edits)))
qed

lemma call_keeps_ok: "keeps db_ok (apply_call lower c)"
  using call_keeps_ctx call_keeps_audit by (auto simp: keeps_def db_ok_def)

section \<open>Reachable stores\<close>

definition fresh_db :: "string \<Rightarrow> db" where
  "fresh_db now =
     \<lparr>db_projects = [\<lparr>pr_id = board_id_default, pr_scope_path = None, pr_archived_at = None\<rparr>],
      db_boards = [\<lparr>br_id = board_id_default, br_project_id = board_id_default, br_name = ''main'', br_archived_at = None\<rparr>],
      db_columns =
        [\<lparr>col_id = 1, col_board_id = board_id_default, col_name = ''Todo'', col_position = 0, col_system_prompt = None,
          col_trigger = Manual, col_on_success = None, col_on_fail = None, col_fresh_session = False,
          col_harness_override = None, col_model_override = None, col_effort_override = None,
          col_permission_override = None, col_timeout_minutes = None\<rparr>],
      db_cards = [], db_comments = [], db_history = [], db_runs = [], db_selection = None, db_board_selection = [],
      db_project_recents = [], db_board_recents = [], db_now = now, db_fault = (\<lambda>_. None)\<rparr>"

lemma lane_single:
  "lane key grp pos g [x] = (if grp x = g then [x] else [])"
  by (simp add: lane_def)

lemma fresh_ok: "db_ok (fresh_db now)"
proof -
  have sch: "schema_ok (fresh_db now)"
    by (simp add: schema_ok_def fresh_db_def column_fk_def column_targets_fk_def opt_in_def)
  have empty: "db_cards (fresh_db now) = []" "db_selection (fresh_db now) = None" "db_board_selection (fresh_db now) = []"
    "db_project_recents (fresh_db now) = []" "db_board_recents (fresh_db now) = []" "db_comments (fresh_db now) = []"
    "db_history (fresh_db now) = []" by (simp_all add: fresh_db_def)
  have "store_inv (fresh_db now)"
    unfolding store_inv_def board_inv_def
    by (intro conjI allI sch)
       (simp_all add: empty compact_board_def board_columns_def fresh_db_def lane_single card_places_def
          compact_cards_def compact_column_def column_cards_def lane_def targets_local_def local_target_def)
  moreover have "context_inv (fresh_db now)"
    unfolding context_inv_def empty
    by (intro conjI allI sch exI [of _ "[]"]) (simp_all add: fresh_db_def ranked_def valid_recents_def)
  moreover have "audit_inv (fresh_db now)"
    using sch by (simp add: audit_inv_def empty)
  ultimately show ?thesis by (simp add: db_ok_def ctx_ok_def)
qed

inductive reachable :: "(string \<Rightarrow> string) \<Rightarrow> db \<Rightarrow> bool" for lower :: "string \<Rightarrow> string" where
  fresh: "reachable lower (fresh_db now)"
| call: "reachable lower s \<Longrightarrow> apply_call lower c s = (r, t) \<Longrightarrow> reachable lower t"
| tick: "reachable lower s \<Longrightarrow> reachable lower (s\<lparr>db_now := now, db_fault := f\<rparr>)"

lemma db_ok_tick: "db_ok (s\<lparr>db_now := now, db_fault := f\<rparr>) = db_ok s"
proof -
  let ?t = "s\<lparr>db_now := now, db_fault := f\<rparr>"
  have fk: "card_fk ?t = card_fk s" "run_fk ?t = run_fk s" "column_fk ?t = column_fk s"
    by (simp_all add: fun_eq_iff card_fk_def run_fk_def column_fk_def)
  have sch: "schema_ok ?t = schema_ok s" by (simp add: schema_ok_def fk)
  have "store_inv ?t = store_inv s"
    by (simp add: store_inv_def board_inv_def sch compact_board_def board_columns_def compact_cards_def compact_column_def
        column_cards_def targets_local_def card_places_def column_boards_def)
  moreover have "context_inv ?t = context_inv s"
    by (simp add: context_inv_def sch project_exists_def board_in_project_def)
  ultimately show ?thesis by (simp add: db_ok_def ctx_ok_def audit_inv_def sch)
qed

lemma reachable_ok: "reachable lower s \<Longrightarrow> db_ok s"
proof (induction rule: reachable.induct)
  case (call s c r t)
  then show ?case using call_keeps_ok by (rule_tac keepsD)
qed (simp_all add: fresh_ok db_ok_tick)

section \<open>The life of a run\<close>

inductive run_step :: "run \<Rightarrow> run \<Rightarrow> bool" where
  start: "queued_open r \<Longrightarrow> run_step r (promoted s w pn an dl cap r)"
| capture: "open_run r \<Longrightarrow> run_step r (r\<lparr>rn_session_id := Some sid\<rparr>)"
| pause: "active_open r \<Longrightarrow> run_step r (r\<lparr>rn_timeout_paused_at_ms := or_else (rn_timeout_paused_at_ms r) (Some now)\<rparr>)"
| resume: "open_run r \<Longrightarrow> run_step r (r\<lparr>rn_timeout_deadline_at_ms := d, rn_timeout_paused_at_ms := None\<rparr>)"
| close: "open_run r \<Longrightarrow> run_step r (closed s out summary r)"

lemma run_step_open: "run_step r r' \<Longrightarrow> open_run r"
  by (auto elim!: run_step.cases simp: queued_open_def active_open_def open_run_def)

lemma run_step_same:
  "run_step r r' \<Longrightarrow> rn_id r' = rn_id r \<and> rn_card_id r' = rn_card_id r \<and> rn_column_id r' = rn_column_id r \<and>
     rn_harness r' = rn_harness r \<and> rn_argv_json r' = rn_argv_json r \<and> rn_prompt_snapshot r' = rn_prompt_snapshot r \<and>
     rn_launch_spec r' = rn_launch_spec r"
  by (auto elim!: run_step.cases simp: promoted_def closed_def)

lemma run_step_started: "run_step r r' \<Longrightarrow> rn_started_at r \<noteq> None \<Longrightarrow> rn_started_at r' = rn_started_at r"
  by (auto elim!: run_step.cases simp: queued_open_def closed_def)

definition runs_follow :: "db \<Rightarrow> db \<Rightarrow> bool" where
  \<comment> \<open>each run stayed or took one step, new ones are queued, and only a deleted card loses its runs\<close>
  "runs_follow s t \<longleftrightarrow>
     (\<forall>r' \<in> set (db_runs t). (\<exists>r \<in> set (db_runs s). r' = r \<or> run_step r r') \<or>
        (queued_open r' \<and> rn_id r' \<notin> rn_id ` set (db_runs s))) \<and>
     (\<forall>r \<in> set (db_runs s). (\<exists>r' \<in> set (db_runs t). r' = r \<or> run_step r r') \<or> rn_card_id r \<notin> cd_id ` set (db_cards t))"

lemma runs_follow_same: "db_runs t = db_runs s \<Longrightarrow> runs_follow s t"
  by (auto simp: runs_follow_def)

lemma runs_follow_update:
  assumes "db_runs t = update_where A g (db_runs s)" and "\<And>r. r \<in> set (db_runs s) \<Longrightarrow> A r \<Longrightarrow> run_step r (g r)"
  shows "runs_follow s t"
proof -
  have "\<exists>r \<in> set (db_runs s). r' = r \<or> run_step r r'" if "r' \<in> set (db_runs t)" for r'
    using that assms by (auto simp: update_where_def)
  moreover have "\<exists>r' \<in> set (db_runs t). r' = r \<or> run_step r r'" if "r \<in> set (db_runs s)" for r
    using that assms by (intro bexI [of _ "if A r then g r else r"]) (simp_all add: update_where_def)
  ultimately show ?thesis by (auto simp: runs_follow_def)
qed

lemma queued_run_open: "queued_open (set_rn_id i (queued_run c p))" "rn_id (set_rn_id i q) = i"
  by (simp_all add: queued_open_def set_rn_id_def queued_run_def)

lemma runs_follow_insert:
  assumes "runs_follow s t" and "db_runs u = insert_row rn_id set_rn_id (queued_run c p) (db_runs t)"
    and "rn_id ` set (db_runs t) = rn_id ` set (db_runs s)" and "cd_id ` set (db_cards u) = cd_id ` set (db_cards t)"
  shows "runs_follow s u"
  using assms next_id_notin [of rn_id "db_runs t"]
  by (simp add: runs_follow_def runs_t.set_insert queued_run_open)

lemma runs_follow_new:
  assumes "db_runs u = insert_row rn_id set_rn_id (queued_run c p) (db_runs s)"
  shows "runs_follow s u"
  using assms next_id_notin [of rn_id "db_runs s"]
  by (auto simp: runs_follow_def runs_t.set_insert queued_run_open)

lemma wp_snd: "wp m (\<lambda>_. R) (\<lambda>_. R) s \<Longrightarrow> R (snd (m s))"
  by (cases "m s"; cases "fst (m s)") (auto simp: wp_def)

lemma update_runs_run:
  assumes "\<And>r. A r \<Longrightarrow> rn_id (g r) = rn_id r \<and> rn_card_id (g r) = rn_card_id r \<and> rn_column_id (g r) = rn_column_id r \<and>
      (rn_ended_at (g r) = None \<longrightarrow> rn_ended_at r = None)"
  shows "update_runs A g s = (Inr (length (filter A (db_runs s))), s\<lparr>db_runs := update_where A g (db_runs s)\<rparr>)"
  using assms by (auto simp: update_runs_def update_where_def Let_def split: option.splits intro!: run.equality)

lemma update_card_where_same_runs: "update_card_where i f s = (r, t) \<Longrightarrow> db_runs t = db_runs s"
  by (auto simp: update_card_where_def update_cards_def Let_def split: if_splits)

lemma pause_follow: "runs_follow s (snd (pause_run_timeout i re now s))"
proof -
  let ?A = "\<lambda>r. rn_card_id r = i \<and> active_open r"
  let ?g = "\<lambda>r. r\<lparr>rn_timeout_paused_at_ms := or_else (rn_timeout_paused_at_ms r) (Some now)\<rparr>"
  have u: "update_runs ?A ?g t = (Inr (length (filter ?A (db_runs t))), t\<lparr>db_runs := update_where ?A ?g (db_runs t)\<rparr>)" for t
    by (rule update_runs_run) simp
  have *: "runs_follow s t" if "db_runs t = update_where ?A ?g (db_runs s)" for t
    by (rule runs_follow_update [OF that]) (simp add: run_step.pause)
  have "wp (pause_run_timeout i re now) (\<lambda>_. runs_follow s) (\<lambda>_. runs_follow s) s"
    unfolding pause_run_timeout_def
    by (auto simp: tx_simps wp_def [of "update_card_where x y" for x y] wp_def [of "update_runs x y" for x y] u
        runs_follow_same intro: * dest!: update_card_where_same_runs split: prod.splits sum.splits option.splits)
  then show ?thesis by (rule wp_snd)
qed

lemma resume_follow: "runs_follow s (snd (resume_run_timeout i st now s))"
proof -
  let ?A = "\<lambda>r. rn_card_id r = i \<and> open_run r"
  let ?g = "\<lambda>d r. r\<lparr>rn_timeout_deadline_at_ms := d, rn_timeout_paused_at_ms := None\<rparr>"
  have u: "update_runs ?A (?g d) t = (Inr (length (filter ?A (db_runs t))), t\<lparr>db_runs := update_where ?A (?g d) (db_runs t)\<rparr>)" for t d
    by (rule update_runs_run) simp
  have *: "runs_follow s t" if "db_runs t = update_where ?A (?g d) (db_runs s)" for t d
    by (rule runs_follow_update [OF that]) (simp add: run_step.resume)
  have "wp (resume_run_timeout i st now) (\<lambda>_. runs_follow s) (\<lambda>_. runs_follow s) s"
    unfolding resume_run_timeout_def
    by (auto simp: tx_simps wp_def [of "update_card_where x y" for x y] wp_def [of "update_runs x y" for x y] u
        wp_def [of "case x of None \<Rightarrow> y | Some z \<Rightarrow> w z" for x y w] returnT_def
        runs_follow_same intro: * dest!: update_card_where_same_runs split: prod.splits sum.splits option.splits)
  then show ?thesis by (rule wp_snd)
qed

lemma find_run_unique:
  "schema_ok s \<Longrightarrow> find_run s i = Some r \<Longrightarrow> q \<in> set (db_runs s) \<Longrightarrow> rn_id q = i \<Longrightarrow> q = r"
  using find_run_Some [of s i q] by simp

lemma promote_follow:
  assumes inv: "board_inv s"
  shows "runs_follow s (snd (promote_run_with_anchor i w pn an dl cap s))"
proof (rule wp_snd, rule wp_mono [OF promote_run_wp [OF inv]])
  fix r t assume a: "can_promote s i \<and> board_inv t \<and> order_of t = order_of s \<and> find_run t i = Some r \<and>
       rn_started_at r = Some (db_now s) \<and> open_run r \<and> rn_timeout_deadline_at_ms r = dl \<and>
       rn_herdr_pane_id r = pn \<and> (cap \<noteq> None \<longrightarrow> rn_session_id r = cap) \<and>
       db_runs t = update_where (\<lambda>r. rn_id r = i) (promoted s w pn an dl cap) (db_runs s) \<and>
       (\<exists>c. find_card t (rn_card_id r) = Some c \<and> cd_status c = Running \<and> (cap \<noteq> None \<longrightarrow> cd_session_id c = cap))"
  then have "\<And>q. q \<in> set (db_runs s) \<Longrightarrow> rn_id q = i \<Longrightarrow> queued_open q"
    using find_run_unique [OF board_invD [OF inv]] unfolding can_promote_def by blast
  moreover have "db_runs t = update_where (\<lambda>r. rn_id r = i) (promoted s w pn an dl cap) (db_runs s)" using a by blast
  ultimately show "runs_follow s t"
    by (intro runs_follow_update [where A = "\<lambda>r. rn_id r = i"]) (auto intro: run_step.start)
qed (simp add: runs_follow_same)

lemma capture_follow:
  assumes inv: "board_inv s"
  shows "runs_follow s (snd (promote_captured_session i sid s))"
proof (rule wp_snd, rule wp_mono [OF promote_captured_session_wp [OF inv]])
  fix r t assume a: "board_inv t \<and> order_of t = order_of s \<and> find_run t i = Some r \<and> open_run r \<and>
       rn_session_id r = Some sid \<and>
       db_runs t = update_where (\<lambda>r. rn_id r = i) (\<lambda>r. r\<lparr>rn_session_id := Some sid\<rparr>) (db_runs s) \<and>
       (\<exists>c. find_card t (rn_card_id r) = Some c \<and> cd_session_id c = Some sid)"
  have "open_run q" if q: "q \<in> set (db_runs s)" "rn_id q = i" for q
  proof -
    have "find_run s i = Some q" using q find_run_Some [OF board_invD [OF inv]] by blast
    then have "find_run t i = Some (q\<lparr>rn_session_id := Some sid\<rparr>)"
      using a q(2) find_run_update [of "\<lambda>r. r\<lparr>rn_session_id := Some sid\<rparr>" t i s i] by simp
    with a show ?thesis by (auto simp: open_run_def)
  qed
  then show "runs_follow s t"
    using a by (intro runs_follow_update [where A = "\<lambda>r. rn_id r = i" and g = "\<lambda>r. r\<lparr>rn_session_id := Some sid\<rparr>"])
      (auto intro: run_step.capture)
qed (simp add: runs_follow_same)

lemma finalize_follow:
  assumes inv: "board_inv s"
  shows "runs_follow s (snd (finalize_run_uow p s))"
proof -
  have "wp (finalize_run_uow p) (\<lambda>_. runs_follow s) (\<lambda>_. runs_follow s) s"
    unfolding finalize_run_uow_def wp_bind wp_transaction
  proof (rule wpI)
    fix x t assume b: "finalize_body p s = (Inr x, t)"
    obtain i nx where x: "x = (i, nx)" by fastforce
    define rows where "rows = update_where (\<lambda>r. rn_id r = fz_run_id p) (closed s (fz_outcome p) (fz_summary p)) (db_runs s)"
    note * = finalize_body_ok [OF inv b [unfolded x]]
    have op: "open_run q" if "q \<in> set (db_runs s)" "rn_id q = fz_run_id p" for q
      using *(1) that find_run_unique [OF board_invD [OF inv]] by blast
    let ?u = "s\<lparr>db_runs := rows, db_cards := db_cards t\<rparr>"
    have u: "runs_follow s ?u"
      by (rule runs_follow_update [where A = "\<lambda>r. rn_id r = fz_run_id p" and g = "closed s (fz_outcome p) (fz_summary p)"])
         (simp_all add: rows_def op run_step.close)
    have ids: "rn_id ` set (db_runs ?u) = rn_id ` set (db_runs s)"
      by (simp add: rows_def image_update_where)
    have f: "runs_follow s t"
    proof (cases "fz_next p")
      case None
      then have "db_runs t = rows" using *(4) [OF rows_def] by simp
      then show ?thesis using u by (simp add: runs_follow_def)
    next
      case (Some n)
      then have "db_runs t = insert_row rn_id set_rn_id (queued_run i n) (db_runs ?u)"
        using *(4) [OF rows_def] by simp
      from runs_follow_insert [OF u this ids] show ?thesis by simp
    qed
    show "wp (case x of (card_id, nid) \<Rightarrow> bindT (require_card card_id) (\<lambda>c. bindT (get_run (fz_run_id p)) (\<lambda>r.
          bindT (case nid of None \<Rightarrow> returnT None | Some i \<Rightarrow> bindT (get_run i) (\<lambda>q. returnT (Some q))) (\<lambda>q.
          returnT \<lparr>fe_card = c, fe_finished_run = r, fe_next_run = q\<rparr>)))) (\<lambda>_. runs_follow s) (\<lambda>_. runs_follow s) t"
      using f by (cases nx) (auto simp: x tx_simps split: option.splits)
  qed (simp add: runs_follow_same)
  then show ?thesis by (rule wp_snd)
qed

lemma queue_follow:
  assumes inv: "board_inv s"
  shows "runs_follow s (snd (Store_Runs.enqueue_run p s))" "runs_follow s (snd (move_card_and_enqueue i c pos p s))"
    "runs_follow s (snd (transfer_card_and_enqueue i b c pos p s))" "runs_follow s (snd (create_card_and_enqueue kp p s))"
    "runs_follow s (snd (delete_card i s))"
proof -
  show "runs_follow s (snd (delete_card i s))"
  proof (rule wp_snd, rule wp_mono [OF delete_card_wp [OF inv]])
    fix x t assume "find_card s i \<noteq> None \<and> board_inv t \<and> i \<notin> cd_id ` set (db_cards t) \<and>
       (\<forall>col. order_of t col = filter (\<lambda>j. j \<noteq> i) (order_of s col)) \<and>
       db_runs t = filter (\<lambda>r. rn_card_id r \<noteq> i) (db_runs s) \<and>
       db_comments t = filter (\<lambda>m. cm_card_id m \<noteq> i) (db_comments s)"
    then show "runs_follow s t" by (auto simp: runs_follow_def)
  qed (simp add: runs_follow_same)
qed (rule wp_snd, rule wp_mono [OF enqueue_run_wp [OF inv]] wp_mono [OF move_card_and_enqueue_wp [OF inv]]
    wp_mono [OF transfer_card_and_enqueue_wp [OF inv]] wp_mono [OF create_card_and_enqueue_wp [OF inv]],
    blast intro: runs_follow_new, simp add: runs_follow_same)+

lemma comment_edits_runs:
  "keeps (\<lambda>s. db_runs s = X) (update_comment i body)" "keeps (\<lambda>s. db_runs s = X) (soft_delete_comment i)"
proof -
  have q: "keeps (\<lambda>s. db_runs s = X) (update_comments A f)" "keeps (\<lambda>s. db_runs s = X) (\<lambda>s. update_comments (C s) (k s) s)"
    "keeps (\<lambda>s. db_runs s = X) (\<lambda>s. insert_history (h s) s)" "keeps (\<lambda>s. db_runs s = X) (\<lambda>s. update_history (B s) (g s) s)"
    for A f C k h B g
    by (auto simp: keeps_def update_comments_def insert_history_def update_history_def)
  show "keeps (\<lambda>s. db_runs s = X) (update_comment i body)" "keeps (\<lambda>s. db_runs s = X) (soft_delete_comment i)"
    unfolding update_comment_def soft_delete_comment_def require_comment_def by (intro tx_keeps q)+
qed

lemma call_runs_follow:
  assumes "db_ok s"
  shows "runs_follow s (snd (apply_call lower c s))"
proof -
  have inv: "board_inv s" using assms by (simp add: db_ok_def ctx_ok_def store_inv_def)
  have same: "runs_follow s (snd (m s))" if "\<And>X. keeps (\<lambda>s. db_runs s = X) m" for m :: "'a store"
    using frame_eq [OF that] by (rule runs_follow_same)
  have work: "runs_follow s (snd (m s))" if "\<And>X. keeps (\<lambda>s. (db_cards s, db_runs s) = X) m" for m :: "'a store"
    using frame_eq [OF that, of s] by (intro runs_follow_same) simp
  show ?thesis
    by (cases c; simp add: snd_void;
        (rule queue_follow [OF inv] promote_follow [OF inv] capture_follow [OF inv] finalize_follow [OF inv]
           pause_follow resume_follow |
         (rule work, rule work_frame.context_ops) |
         (rule same, rule runs_frame.card_ops runs_edit.edit runs_frame.column_ops comment_edits_runs)))
qed

section \<open>Sequences of calls\<close>

lemma call_keeps_card:
  assumes "c \<noteq> DeleteCard i"
  shows "keeps (has_card i) (apply_call lower c)"
proof -
  have work: "keeps (has_card i) m" if "\<And>X. keeps (\<lambda>s. (db_cards s, db_runs s) = X) m" for m :: "'a store"
    using frame_eq [OF that] by (simp add: keeps_def has_card_def)
  have quiet: "keeps (has_card i) (update_comment j body)" "keeps (has_card i) (soft_delete_comment j)" for j body
  proof -
    have q: "keeps (has_card i) (update_comments A f)" "keeps (has_card i) (\<lambda>s. update_comments (C s) (k s) s)"
      "keeps (has_card i) (\<lambda>s. insert_history (h s) s)" "keeps (has_card i) (\<lambda>s. update_history (B s) (g s) s)"
      for A f C k h B g
      by (auto simp: keeps_def has_card_def update_comments_def insert_history_def update_history_def)
    show "keeps (has_card i) (update_comment j body)" "keeps (has_card i) (soft_delete_comment j)"
      unfolding update_comment_def soft_delete_comment_def require_comment_def by (intro tx_keeps q)+
  qed
  show ?thesis
    using assms
    apply (cases c; simp; (intro keeps_void)?)
    apply (
        (rule card_stays.card_ops card_stays_edit.edit card_stays.column_ops card_stays_runs.run_ops card_stays_runs.finalize card_stays_runs.promote quiet |
         (rule delete_other_card, simp) | (rule work, rule work_frame.context_ops)))+
    done
qed

fun run_calls :: "(string \<Rightarrow> string) \<Rightarrow> store_call list \<Rightarrow> db \<Rightarrow> db" where
  "run_calls lower [] s = s"
| "run_calls lower (c # cs) s = run_calls lower cs (snd (apply_call lower c s))"

lemma run_calls_ok: "db_ok s \<Longrightarrow> db_ok (run_calls lower cs s)"
  using call_keeps_ok by (induction cs arbitrary: s) (auto simp: keeps_def)

lemma run_calls_reachable: "reachable lower s \<Longrightarrow> reachable lower (run_calls lower cs s)"
  by (induction cs arbitrary: s) (auto intro: reachable.call prod.collapse [symmetric])

lemma ended_run_stays:
  "db_ok s \<Longrightarrow> r \<in> set (db_runs s) \<Longrightarrow> \<not> open_run r \<Longrightarrow> DeleteCard (rn_card_id r) \<notin> set cs \<Longrightarrow>
   r \<in> set (db_runs (run_calls lower cs s))"
proof (induction cs arbitrary: s)
  case (Cons c cs)
  let ?t = "snd (apply_call lower c s)"
  have ok: "db_ok ?t" using Cons.prems(1) call_keeps_ok by (simp add: keeps_def)
  have "has_card (rn_card_id r) s"
    using Cons.prems(1,2) by (auto simp: has_card_def db_ok_def ctx_ok_def store_inv_def board_inv_def schema_ok_def run_fk_def)
  then have "has_card (rn_card_id r) ?t"
    using Cons.prems(4) call_keeps_card [of c "rn_card_id r" lower] by (auto simp: keeps_def)
  then have "r \<in> set (db_runs ?t)"
    using call_runs_follow [OF Cons.prems(1), of lower c] Cons.prems(2,3) run_step_open
    by (fastforce simp: runs_follow_def has_card_def)
  with Cons ok show ?case by simp
qed simp

end
