(* ===== verification/Store_Calls.thy ===== *)
theory Store_Calls
  imports Store_Machine
begin

text \<open>
  What one call of the store leaves alone: the space of a card, the runs that are running, and that none
  starts unless it is promoted. The daemon's invariant rests on these.
\<close>

definition space_free :: "card_update_params \<Rightarrow> bool" where
  "space_free u \<longleftrightarrow> is_unchanged (ku_session u) \<and> ku_space_kind u = None \<and> is_unchanged (ku_space_ref u)"

lemma is_unchanged_iff: "is_unchanged p \<longleftrightarrow> p = Unchanged"
  by (cases p) simp_all

lemma merged_space: "space_free u \<Longrightarrow> space_key_from_card (write_config (merge_store_update c u) c) = space_key_from_card c"
  by (simp add: space_free_def is_unchanged_iff space_key_from_card_def write_config_def merge_store_update_def Let_def set_if_def)

lemma update_card_space:
  assumes ok: "schema_ok s" and space: "in_space i k s" and free: "ku_id u = i \<Longrightarrow> space_free u"
  shows "in_space i k (snd (update_card u s))"
proof (cases "find_card s (ku_id u)")
  case None
  then show ?thesis using space by (simp add: update_card_def bindT_def require_card_def require_def queryT_def ok_or_def)
next
  case (Some c)
  let ?v = "merge_store_update c u"
  have id: "cd_id ?v = ku_id u"
    using Some find_card_Some [OF ok] by (simp add: merge_store_update_def Let_def)
  have "in_space i k t" if t: "db_cards t = db_cards s \<or> db_cards t = update_where (\<lambda>r. cd_id r = ku_id u)
      (\<lambda>r. (touch s (write_config ?v r))\<lparr>cd_id := cd_id r\<rparr>) (db_cards s)" for t
    using t
  proof
    assume "db_cards t = db_cards s"
    then show ?thesis using space by (simp add: in_space_def)
  next
    let ?h = "\<lambda>r. (touch s (write_config ?v r))\<lparr>cd_id := cd_id r\<rparr>"
    assume t: "db_cards t = update_where (\<lambda>r. cd_id r = ku_id u) ?h (db_cards s)"
    obtain r where r: "r \<in> set (db_cards s)" "cd_id r = i" "space_key_from_card r = k"
      using space by (auto simp: in_space_def)
    show ?thesis
    proof (cases "ku_id u = i")
      case True
      then have "r = c" using r Some find_card_Some [OF ok, of "ku_id u"] lookup_eq [OF schema_okD(3) [OF ok]]
        by (metis find_card_def option.inject)
      then have "space_key_from_card (?h r) = k"
        using merged_space [OF free [OF True], of c] r(3)
        by (simp add: space_key_from_card_def touch_def)
      then show ?thesis
        unfolding in_space_def t using r True by (intro bexI [of _ "?h r"]) (auto simp: update_where_def touch_def)
    next
      case False
      then show ?thesis unfolding in_space_def t using r by (intro bexI [of _ r]) (auto simp: update_where_def)
    qed
  qed
  then show ?thesis
    using Some id
    by (auto simp: update_card_def tx_defs require_card_def require_def ok_or_def update_card_where_def update_cards_def Let_def
        split: option.splits if_splits)
qed

lemma call_keeps_space:
  assumes "db_ok s" and "c \<noteq> DeleteCard i" and "\<And>u. c = UpdateCard u \<Longrightarrow> ku_id u = i \<Longrightarrow> space_free u"
    and "in_space i k s"
  shows "in_space i k (snd (apply_call lower c s))"
proof (cases "\<exists>u. c = UpdateCard u")
  case True
  then obtain u where u: "c = UpdateCard u" ..
  have "schema_ok s" using assms(1) by (simp add: db_ok_def ctx_ok_def store_inv_def board_inv_def)
  from update_card_space [OF this assms(4), of u] assms(3) show ?thesis by (simp add: u snd_void)
next
  case False
  have work: "keeps (in_space i k) m" if "\<And>X. keeps (\<lambda>s. (db_cards s, db_runs s) = X) m" for m :: "'a store"
    using frame_eq [OF that] by (simp add: keeps_def in_space_def)
  have quiet: "keeps (in_space i k) (update_comment j body)" "keeps (in_space i k) (soft_delete_comment j)" for j body
  proof -
    have q: "keeps (in_space i k) (update_comments A f)" "keeps (in_space i k) (\<lambda>s. update_comments (C s) (k' s) s)"
      "keeps (in_space i k) (\<lambda>s. insert_history (h s) s)" "keeps (in_space i k) (\<lambda>s. update_history (B s) (g s) s)"
      for A f C k' h B g
      by (auto simp: keeps_def in_space_def update_comments_def insert_history_def update_history_def)
    show "keeps (in_space i k) (update_comment j body)" "keeps (in_space i k) (soft_delete_comment j)"
      unfolding update_comment_def soft_delete_comment_def require_comment_def by (intro tx_keeps q)+
  qed
  have "keeps (in_space i k) (apply_call lower c)"
    using assms(2) False
    apply (cases c; simp; (intro keeps_void)?)
    apply ((rule space_stays.card_ops space_stays.column_ops space_stays_runs.run_ops space_stays_runs.finalize
        space_stays_runs.promote quiet | (rule delete_other_space, simp) | (rule work, rule work_frame.context_ops)))+
    done
  then show ?thesis using assms(4) by (simp add: keeps_def)
qed

lemma runs_frame_law:
  assumes "\<And>X. keeps (\<lambda>s. db_runs s = X) m"
  shows "keeps (active_in X) m" "keeps (running i j) m"
  using frame_eq [OF assms] by (simp_all add: keeps_def active_in_def running_def)

lemma work_frame_law: "(\<And>X. keeps (\<lambda>s. (db_cards s, db_runs s) = X) m) \<Longrightarrow> keeps (\<lambda>s. db_runs s = X) m"
  by (simp add: keeps_def) (metis prod.inject)

lemmas quiet_runs = runs_frame.card_ops runs_edit.edit runs_frame.column_ops comment_edits_runs

lemma call_keeps_active:
  assumes "\<nexists>i w pn an dl cap. c = PromoteRun i w pn an dl cap"
  shows "keeps (active_in X) (apply_call lower c)"
  using assms
  apply (cases c; simp; (intro keeps_void)?)
  apply ((rule active_frame.run_ops active_frame.finalize active_delete.delete |
     (rule runs_frame_law, rule quiet_runs) | (rule runs_frame_law, rule work_frame_law, rule work_frame.context_ops)))+
  done

lemma call_keeps_running:
  assumes "\<nexists>i w pn an dl cap. c = PromoteRun i w pn an dl cap" and "\<nexists>p. c = FinalizeRun p" and "c \<noteq> DeleteCard j"
  shows "keeps (running i j) (apply_call lower c)"
  using assms
  apply (cases c; simp; (intro keeps_void)?)
  apply ((rule running_stays.run_ops | (rule running_delete, simp) |
     (rule runs_frame_law, rule quiet_runs) | (rule runs_frame_law, rule work_frame_law, rule work_frame.context_ops)))+
  done

section \<open>Finalization and promotion\<close>

lemma finalize_commits:
  assumes "finalize_run_uow p s = (Inr e, t)"
  shows "\<exists>x. finalize_body p s = (Inr x, t)"
  using assms unfolding finalize_run_uow_def bindT_ok_iff transaction_ok_iff
  by (auto simp: require_card_def require_def get_run_def tx_ok queryT_def split: prod.splits option.splits)

lemma finalize_runs:
  assumes inv: "board_inv s" and f: "finalize_run_uow p s = (Inr e, t)"
  shows "r \<in> set (db_runs s) \<Longrightarrow> rn_id r \<noteq> fz_run_id p \<Longrightarrow> r \<in> set (db_runs t)"
    and "\<exists>r \<in> set (db_runs s). rn_id r = fz_run_id p \<and> open_run r"
proof -
  obtain i nx where b: "finalize_body p s = (Inr (i, nx), t)" using finalize_commits [OF f] by auto
  define rows where "rows = update_where (\<lambda>r. rn_id r = fz_run_id p) (closed s (fz_outcome p) (fz_summary p)) (db_runs s)"
  note * = finalize_body_ok [OF inv b]
  show "\<exists>r \<in> set (db_runs s). rn_id r = fz_run_id p \<and> open_run r"
    using *(1) find_run_Some [OF board_invD [OF inv]] by blast
  show "r \<in> set (db_runs t)" if "r \<in> set (db_runs s)" "rn_id r \<noteq> fz_run_id p"
  proof -
    have "r \<in> set rows" using that by (auto simp: rows_def update_where_def)
    then show ?thesis using *(4) [OF rows_def] by (auto simp: runs_t.set_insert split: option.splits)
  qed
qed

lemma finalize_keeps_running:
  assumes "board_inv s" and "running i c s" and "i \<noteq> fz_run_id p"
  shows "running i c (snd (finalize_run_uow p s))"
proof (cases "fst (finalize_run_uow p s)")
  case (Inl e)
  then have "finalize_run_uow p s = (Inl e, snd (finalize_run_uow p s))" by (metis prod.collapse)
  from wp_error [OF finalize_run_wp [OF assms(1)] this] assms(2) show ?thesis by simp
next
  case (Inr e)
  then have "finalize_run_uow p s = (Inr e, snd (finalize_run_uow p s))" by (metis prod.collapse)
  from finalize_runs(1) [OF assms(1) this] assms(2,3) show ?thesis by (auto simp: running_def)
qed

lemma promote_runs:
  assumes inv: "board_inv s" and p: "promote_run_with_anchor i w pn an dl cap s = (Inr r, t)"
  shows "can_promote s i"
    and "db_runs t = update_where (\<lambda>r. rn_id r = i) (promoted s w pn an dl cap) (db_runs s)"
  using wp_ok [OF promote_run_wp [OF inv] p] by simp_all

end
