(* ===== verification/Daemon_Steps.thy ===== *)
theory Daemon_Steps
  imports Daemon_Ops Store_Calls
begin

text \<open>
  The daemon as a state machine. \<open>dstep\<close> lists the blocks that run under the scheduler and store
  locks; between two of them anything else may run. \<open>daemon_inv\<close> is what every block keeps: the store is
  sound, started runs and claimed ones are in pairwise different spaces and within the concurrency limit, and the
  scheduler only tracks started open runs. \<open>handle_request\<close> routes a request (\<open>ops/mod.rs\<close>), and every
  handler, event and ticker is a sequence of blocks.
\<close>

section \<open>Claims of a pass\<close>

lemma claim_subset: "set (claim mx busy n q) \<subseteq> set q"
  by (induction mx busy n q rule: claim.induct) (auto simp: Let_def)

lemma claim_distinct: "distinct (map f q) \<Longrightarrow> distinct (map f (claim mx busy n q))"
proof (induction mx busy n q rule: claim.induct)
  case (2 mx busy n r c q)
  have "f (r, c) \<notin> f ` set (claim mx b m q)" for b m
    using 2(3) claim_subset [of mx b m q] by auto
  then show ?case using 2 by (auto simp: Let_def)
qed simp

lemma claim_capacity: "n \<le> mx \<Longrightarrow> n + length (claim mx busy n q) \<le> mx"
  by (induction mx busy n q rule: claim.induct) (auto simp: Let_def)

abbreviation claim_space :: "run \<times> card \<Rightarrow> space_key" where
  "claim_space rc \<equiv> space_key_from_card (snd rc)"

lemma claim_spaces:
  "distinct (map claim_space (claim mx busy n q)) \<and> set (map claim_space (claim mx busy n q)) \<inter> set busy = {}"
proof (induction mx busy n q rule: claim.induct)
  case (2 mx busy n r c q)
  show ?case
  proof (cases "mx \<le> n \<or> space_key_from_card c \<in> set busy")
    case False
    with 2(2) show ?thesis by (fastforce simp: Let_def)
  qed (use 2(1) in \<open>auto simp: Let_def\<close>)
qed simp

lemma claim_maximal:
  assumes "rc \<in> set q" and "rc \<notin> set (claim mx busy n q)"
  shows "mx \<le> n + length (claim mx busy n q) \<or> claim_space rc \<in> set busy \<union> claim_space ` set (claim mx busy n q)"
  using assms
proof (induction mx busy n q rule: claim.induct)
  case (2 mx busy n r c q)
  show ?case
  proof (cases "mx \<le> n \<or> space_key_from_card c \<in> set busy")
    case False
    then show ?thesis using 2 by (cases "rc = (r, c)") (auto simp: Let_def)
  qed (use 2 in \<open>cases "rc = (r, c)"; auto simp: Let_def\<close>)
qed simp

lemma claim_busy: "claim_space rc \<in> set busy \<Longrightarrow> rc \<notin> set (claim mx busy n q)"
  using claim_spaces [of mx busy n q] by (force dest: image_eqI [where f = claim_space])

lemma claim_first:
  assumes "rc \<in> set (claim mx busy n (q1 @ rc # q2))" and "rc \<notin> set q1" and "x \<in> set q1"
  shows "claim_space x \<noteq> claim_space rc"
  using assms
proof (induction q1 arbitrary: busy n)
  case (Cons y q1)
  obtain r1 c1 where y: "y = (r1, c1)" by fastforce
  show ?case
  proof (cases "x = y")
    case True
    then show ?thesis using Cons.prems(1,2) claim_busy [of rc] y by (auto simp: Let_def split: if_splits)
  next
    case False
    then show ?thesis using Cons y by (auto simp: Let_def split: if_splits)
  qed
qed simp

section \<open>Rows with their cards\<close>

lemma open_runs_with_cards_Inr:
  assumes ok: "schema_ok s" and "open_runs_with_cards P s = Inr rows"
  shows "map (rn_id \<circ> fst) rows = map rn_id (sort_key rn_id (filter P (db_runs s)))"
    and "\<forall>(r, c) \<in> set rows. r \<in> set (db_runs s) \<and> P r \<and> find_card s (rn_card_id r) = Some c"
proof -
  let ?f = "\<lambda>(run_id, card_id) acc.
        case find_run s run_id of None \<Rightarrow> Inl (NotFound [T ''run '', N run_id])
        | Some r \<Rightarrow> (case find_card s card_id of None \<Rightarrow> Inl (NotFound [T ''card '', N card_id])
           | Some c \<Rightarrow> (case acc of Inl e \<Rightarrow> Inl e | Inr rows \<Rightarrow> Inr ((r, c) # rows)))"
  have *: "map (rn_id \<circ> fst) rows = map rn_id qs \<and>
       (\<forall>(r, c) \<in> set rows. r \<in> set qs \<and> find_card s (rn_card_id r) = Some c)"
    if "set qs \<subseteq> set (db_runs s)" "foldr ?f (map (\<lambda>r. (rn_id r, rn_card_id r)) qs) (Inr []) = Inr rows" for qs rows
    using that
  proof (induction qs arbitrary: rows)
    case (Cons q qs)
    have q: "find_run s (rn_id q) = Some q" using Cons.prems(1) find_run_Some [OF ok] by simp
    obtain c rows' where r: "rows = (q, c) # rows'" "find_card s (rn_card_id q) = Some c"
      "foldr ?f (map (\<lambda>r. (rn_id r, rn_card_id r)) qs) (Inr []) = Inr rows'"
      using Cons.prems(2) q by (simp split: option.splits sum.splits) blast
    from Cons.IH [OF _ r(3)] Cons.prems(1) r(1,2) show ?case by auto
  qed simp
  from * [of "sort_key rn_id (filter P (db_runs s))" rows] assms(2)
  show "map (rn_id \<circ> fst) rows = map rn_id (sort_key rn_id (filter P (db_runs s)))"
    and "\<forall>(r, c) \<in> set rows. r \<in> set (db_runs s) \<and> P r \<and> find_card s (rn_card_id r) = Some c"
    by (auto simp: open_runs_with_cards_def)
qed

lemma open_runs_with_cards_total:
  assumes ok: "schema_ok s"
  shows "\<exists>rows. open_runs_with_cards P s = Inr rows"
proof -
  have "\<exists>rows. foldr (\<lambda>(run_id, card_id) acc.
        case find_run s run_id of None \<Rightarrow> Inl (NotFound [T ''run '', N run_id])
        | Some r \<Rightarrow> (case find_card s card_id of None \<Rightarrow> Inl (NotFound [T ''card '', N card_id])
           | Some c \<Rightarrow> (case acc of Inl e \<Rightarrow> Inl e | Inr rows \<Rightarrow> Inr ((r, c) # rows))))
       (map (\<lambda>r. (rn_id r, rn_card_id r)) qs) (Inr []) = Inr rows" if "set qs \<subseteq> set (db_runs s)" for qs
    using that
  proof (induction qs)
    case (Cons q qs)
    have q: "find_run s (rn_id q) = Some q" using Cons.prems find_run_Some [OF ok] by simp
    obtain c where "find_card s (rn_card_id q) = Some c"
      using run_card_exists [OF ok q] find_card_None [of s] by blast
    with q Cons show ?case by auto
  qed simp
  then show ?thesis unfolding open_runs_with_cards_def by (auto simp del: foldr_map)
qed

lemma find_card_space: "schema_ok s \<Longrightarrow> find_card s j = Some c \<Longrightarrow> in_space j k s \<longleftrightarrow> space_key_from_card c = k"
  using find_card_Some card_unique by (fastforce simp: in_space_def)

section \<open>The invariant\<close>

definition started_ids :: "db \<Rightarrow> int set" where
  "started_ids s = {i. \<exists>j. running i j s}"

definition occupancy :: "nat \<Rightarrow> (int \<Rightarrow> space_key) \<Rightarrow> db \<Rightarrow> (run \<times> card) list \<Rightarrow> bool" where
  \<comment> \<open>\<open>\<sigma>\<close> gives each started or claimed run a space of its own, and there are at most \<open>mx\<close> of them\<close>
  "occupancy mx \<sigma> s cl \<longleftrightarrow>
     (\<forall>i j. running i j s \<longrightarrow> in_space j (\<sigma> i) s) \<and>
     (\<forall>(r, c) \<in> set cl. \<sigma> (rn_id r) = space_key_from_card c \<and>
        (\<exists>q \<in> set (db_runs s). rn_id q = rn_id r \<and> rn_card_id q = rn_card_id r \<and>
           (open_run q \<longrightarrow> queued_open q \<and> in_space (rn_card_id r) (\<sigma> (rn_id r)) s))) \<and>
     distinct (map (rn_id \<circ> fst) cl) \<and>
     inj_on \<sigma> (started_ids s \<union> (rn_id \<circ> fst) ` set cl) \<and>
     card (started_ids s) + length cl \<le> mx"

definition sched_ok :: "db \<Rightarrow> sched \<Rightarrow> bool" where
  "sched_ok s sc \<longleftrightarrow>
     distinct (map fst (sc_active sc)) \<and>
     (\<forall>(i, a) \<in> set (sc_active sc). running i (ar_card_id a) s) \<and>
     (\<forall>(c, h) \<in> set (sc_chain_hops sc). 0 < h \<and> h \<le> max_auto_hops)"

definition daemon_inv :: "nat \<Rightarrow> daemon \<Rightarrow> bool" where
  "daemon_inv mx d \<longleftrightarrow> db_ok (dm_db d) \<and> sched_ok (dm_db d) (dm_sched d) \<and> (\<exists>\<sigma>. occupancy mx \<sigma> (dm_db d) (dm_claims d))"

lemma db_ok_board: "db_ok s \<Longrightarrow> board_inv s" and db_ok_schema: "db_ok s \<Longrightarrow> schema_ok s"
  by (simp_all add: db_ok_def ctx_ok_def store_inv_def board_inv_def)

lemma same_run: "schema_ok s \<Longrightarrow> q \<in> set (db_runs s) \<Longrightarrow> r \<in> set (db_runs s) \<Longrightarrow> rn_id q = rn_id r \<Longrightarrow> q = r"
  using schema_okD(4) by (auto simp: distinct_map inj_on_def)

lemma finite_started [simp]: "finite (started_ids s)"
  by (rule finite_subset [of _ "rn_id ` set (db_runs s)"]) (auto simp: started_ids_def running_def)

lemma occupancyD:
  assumes "occupancy mx \<sigma> s cl"
  shows "running i j s \<Longrightarrow> in_space j (\<sigma> i) s"
    and "(r, c) \<in> set cl \<Longrightarrow> \<sigma> (rn_id r) = space_key_from_card c"
    and "(r, c) \<in> set cl \<Longrightarrow> \<exists>q \<in> set (db_runs s). rn_id q = rn_id r \<and> rn_card_id q = rn_card_id r \<and>
           (open_run q \<longrightarrow> queued_open q \<and> in_space (rn_card_id r) (\<sigma> (rn_id r)) s)"
    and "distinct (map (rn_id \<circ> fst) cl)"
    and "inj_on \<sigma> (started_ids s \<union> (rn_id \<circ> fst) ` set cl)"
    and "card (started_ids s) + length cl \<le> mx"
  using assms unfolding occupancy_def by blast+

lemma occupancy_fewer:
  assumes "occupancy mx \<sigma> s cl" and "cl' = filter P cl"
  shows "occupancy mx \<sigma> s cl'"
proof -
  have sub: "set cl' \<subseteq> set cl" using assms(2) by auto
  have "inj_on \<sigma> (started_ids s \<union> (rn_id \<circ> fst) ` set cl')"
    by (rule inj_on_subset [OF occupancyD(5) [OF assms(1)]]) (use sub in blast)
  moreover have "distinct (map (rn_id \<circ> fst) cl')"
    unfolding assms(2) by (rule distinct_map_filter [OF occupancyD(4) [OF assms(1)]])
  moreover have "card (started_ids s) + length cl' \<le> mx"
    using occupancyD(6) [OF assms(1)] length_filter_le [of P cl] unfolding assms(2) by linarith
  ultimately show ?thesis
    using assms(1) sub unfolding occupancy_def by blast
qed

lemma occupancy_frame:
  assumes ok: "schema_ok s" and occ: "occupancy mx \<sigma> s cl" and follow: "runs_follow s t"
    and act: "\<And>i j. running i j t \<Longrightarrow> running i j s"
    and space: "\<And>j k q. q \<in> set (db_runs s) \<Longrightarrow> rn_card_id q = j \<Longrightarrow> open_run q \<Longrightarrow> in_space j k s \<Longrightarrow> in_space j k t"
    and cards: "\<And>r c. (r, c) \<in> set cl \<Longrightarrow> has_card (rn_card_id r) t"
  shows "occupancy mx \<sigma> t cl"
proof -
  have sub: "started_ids t \<subseteq> started_ids s" using act by (auto simp: started_ids_def)
  have "in_space j (\<sigma> i) t" if r: "running i j t" for i j
  proof -
    obtain q where "q \<in> set (db_runs s)" "rn_card_id q = j" "open_run q"
      using act [OF r] by (auto simp: running_def active_open_def)
    moreover have "in_space j (\<sigma> i) s" using act [OF r] by (rule occupancyD(1) [OF occ])
    ultimately show ?thesis by (rule space)
  qed
  moreover have "\<exists>q \<in> set (db_runs t). rn_id q = rn_id r \<and> rn_card_id q = rn_card_id r \<and>
      (open_run q \<longrightarrow> queued_open q \<and> in_space (rn_card_id r) (\<sigma> (rn_id r)) t)" if r: "(r, c) \<in> set cl" for r c
  proof -
    obtain q where q: "q \<in> set (db_runs s)" "rn_id q = rn_id r" "rn_card_id q = rn_card_id r"
      "open_run q \<longrightarrow> queued_open q \<and> in_space (rn_card_id r) (\<sigma> (rn_id r)) s"
      using occupancyD(3) [OF occ r] by blast
    obtain q' where q': "q' \<in> set (db_runs t)" "q' = q \<or> run_step q q'"
      using follow q(1,3) cards [OF r] by (auto simp: runs_follow_def has_card_def)
    have same: "rn_id q' = rn_id r" "rn_card_id q' = rn_card_id r" using q' q(2,3) run_step_same by auto
    moreover have "queued_open q' \<and> in_space (rn_card_id r) (\<sigma> (rn_id r)) t" if o: "open_run q'"
    proof
      have oq: "open_run q" using q'(2) run_step_open o by auto
      then show "in_space (rn_card_id r) (\<sigma> (rn_id r)) t" using q space by blast
      show "queued_open q'"
      proof (rule ccontr)
        assume "\<not> queued_open q'"
        then have "running (rn_id r) (rn_card_id r) t"
          using o q'(1) same by (auto simp: running_def active_open_def queued_open_def open_run_def)
        from act [OF this] obtain p where "p \<in> set (db_runs s)" "rn_id p = rn_id r" "active_open p"
          by (auto simp: running_def)
        with same_run [OF ok this(1) q(1)] q(2,4) oq show False by (simp add: active_open_def queued_open_def)
      qed
    qed
    ultimately show ?thesis using q'(1) by blast
  qed
  moreover have "inj_on \<sigma> (started_ids t \<union> (rn_id \<circ> fst) ` set cl)"
    by (rule inj_on_subset [OF occupancyD(5) [OF occ]]) (use sub in blast)
  moreover have "card (started_ids t) + length cl \<le> mx" using occupancyD(6) [OF occ] card_mono [OF finite_started sub] by linarith
  ultimately show ?thesis using occupancyD(2,4) [OF occ] unfolding occupancy_def by blast
qed

section \<open>Calls of the store\<close>

definition harmless :: "db \<Rightarrow> (run \<times> card) list \<Rightarrow> store_call \<Rightarrow> bool" where
  \<comment> \<open>starts no run; deletes no card with an open or claimed run; moves none with an open run to another space\<close>
  "harmless s cl c \<longleftrightarrow>
     (\<nexists>i w pn an dl cap. c = PromoteRun i w pn an dl cap) \<and>
     (\<forall>i. c = DeleteCard i \<longrightarrow> find_open_run s i = None \<and> i \<notin> (rn_card_id \<circ> fst) ` set cl) \<and>
     (\<forall>u. c = UpdateCard u \<longrightarrow> space_free u \<or> find_open_run s (ku_id u) = None)"

lemma open_run_found: "schema_ok s \<Longrightarrow> q \<in> set (db_runs s) \<Longrightarrow> open_run q \<Longrightarrow> find_open_run s (rn_card_id q) \<noteq> None"
  by (simp add: find_open_run_unique)

lemma running_open: "schema_ok s \<Longrightarrow> running i j s \<Longrightarrow> find_open_run s j \<noteq> None"
  using open_run_found by (auto simp: running_def active_open_def)

lemma call_active:
  assumes "\<nexists>i w pn an dl cap. c = PromoteRun i w pn an dl cap" and "running i j (snd (apply_call lower c s))"
  shows "running i j s"
proof -
  have "active_in {(i, j). running i j s} s" by (auto simp: active_in_def running_def)
  then have "active_in {(i, j). running i j s} (snd (apply_call lower c s))"
    using call_keeps_active [OF assms(1)] by (simp add: keeps_def)
  then show ?thesis using assms(2) by (auto simp: active_in_def running_def [of i j "snd (apply_call lower c s)"])
qed

lemma occupancy_call:
  assumes ok: "db_ok s" and occ: "occupancy mx \<sigma> s cl" and h: "harmless s cl c"
  shows "occupancy mx \<sigma> (snd (apply_call lower c s)) cl"
proof (rule occupancy_frame [OF db_ok_schema [OF ok] occ call_runs_follow [OF ok]])
  show "running i j s" if "running i j (snd (apply_call lower c s))" for i j
    using call_active [OF _ that] h by (simp add: harmless_def)
next
  fix j k q
  assume q: "q \<in> set (db_runs s)" "rn_card_id q = j" "open_run q" and sp: "in_space j k s"
  have "find_open_run s j \<noteq> None" using open_run_found [OF db_ok_schema [OF ok] q(1,3)] q(2) by simp
  then have "c \<noteq> DeleteCard j" "\<And>u. c = UpdateCard u \<Longrightarrow> ku_id u = j \<Longrightarrow> space_free u"
    using h by (auto simp: harmless_def)
  from call_keeps_space [OF ok this sp] show "in_space j k (snd (apply_call lower c s))" by blast
next
  fix r k assume r: "(r, k) \<in> set cl"
  then have "c \<noteq> DeleteCard (rn_card_id r)" using h by (force simp: harmless_def)
  moreover have "has_card (rn_card_id r) s"
  proof -
    obtain q where q: "q \<in> set (db_runs s)" "rn_card_id q = rn_card_id r" using occupancyD(3) [OF occ r] by blast
    then have "find_run s (rn_id q) = Some q" by (simp add: find_run_Some [OF db_ok_schema [OF ok]])
    from run_card_exists [OF db_ok_schema [OF ok] this] q(2) show ?thesis by (simp add: has_card_def)
  qed
  ultimately show "has_card (rn_card_id r) (snd (apply_call lower c s))"
    using call_keeps_card by (auto simp: keeps_def)
qed

lemma sched_call:
  assumes ok: "db_ok s" and sc: "sched_ok s sc" and h: "harmless s cl c" and nf: "\<nexists>p. c = FinalizeRun p"
  shows "sched_ok (snd (apply_call lower c s)) sc"
proof -
  have "running i (ar_card_id a) (snd (apply_call lower c s))" if "(i, a) \<in> set (sc_active sc)" for i a
  proof -
    have r: "running i (ar_card_id a) s" using sc that by (auto simp: sched_ok_def)
    have "find_open_run s (ar_card_id a) \<noteq> None" by (rule running_open [OF db_ok_schema [OF ok] r])
    then have "c \<noteq> DeleteCard (ar_card_id a)" using h by (auto simp: harmless_def)
    with call_keeps_running [of c "ar_card_id a" i lower] h nf r show ?thesis by (auto simp: harmless_def keeps_def)
  qed
  then show ?thesis using sc by (auto simp: sched_ok_def)
qed

lemma daemon_inv_db:
  "daemon_inv mx (d\<lparr>dm_db := s\<rparr>) \<longleftrightarrow> db_ok s \<and> sched_ok s (dm_sched d) \<and> (\<exists>\<sigma>. occupancy mx \<sigma> s (dm_claims d))"
  by (simp add: daemon_inv_def)

lemma on_db_snd: "snd (on_db m d) = d\<lparr>dm_db := snd (m (dm_db d))\<rparr>"
  by (simp add: on_db_def split: prod.splits)

lemma daemon_call:
  assumes inv: "daemon_inv mx d" and h: "harmless (dm_db d) (dm_claims d) c" and nf: "\<nexists>p. c = FinalizeRun p"
  shows "daemon_inv mx (snd (on_db (apply_call lower c) d))"
proof -
  obtain \<sigma> where i: "db_ok (dm_db d)" "sched_ok (dm_db d) (dm_sched d)" "occupancy mx \<sigma> (dm_db d) (dm_claims d)"
    using inv by (auto simp: daemon_inv_def)
  have "db_ok (snd (apply_call lower c (dm_db d)))" using call_keeps_ok i(1) by (simp add: keeps_def)
  with occupancy_call [OF i(1,3) h] sched_call [OF i(1,2) h nf] show ?thesis
    unfolding on_db_snd daemon_inv_db by blast
qed

section \<open>Promotion, passes and finalization\<close>

lemma running_update_other:
  assumes "\<And>r. A r \<Longrightarrow> \<not> active_open r" and "running i j s" and "db_runs t = update_where A g (db_runs s)"
  shows "running i j t"
  using assms by (auto simp: running_def update_where_def)

lemma promote_daemon:
  assumes ok: "db_ok s" and occ: "occupancy mx \<sigma> s cl" and sc: "sched_ok s sc" and rc: "(r, c) \<in> set cl"
    and p: "promote_run_with_anchor (rn_id r) w pn an dl cap s = (Inr x, t)"
  shows "db_ok t" and "occupancy mx \<sigma> t (filter (\<lambda>(q, _). rn_id q \<noteq> rn_id r) cl)" and "sched_ok t sc"
    and "running (rn_id r) (rn_card_id r) t"
proof -
  let ?i = "rn_id r" and ?j = "rn_card_id r" and ?cl = "filter (\<lambda>(q, _). rn_id q \<noteq> rn_id r) cl"
  note sch = db_ok_schema [OF ok]
  obtain q where q: "q \<in> set (db_runs s)" "rn_id q = ?i" "rn_card_id q = ?j"
    "open_run q \<longrightarrow> queued_open q \<and> in_space ?j (\<sigma> ?i) s" using occupancyD(3) [OF occ rc] by blast
  have can: "can_promote s ?i" and runs: "db_runs t = update_where (\<lambda>r. rn_id r = ?i) (promoted s w pn an dl cap) (db_runs s)"
    using promote_runs [OF db_ok_board [OF ok] p] by blast+
  have qo: "queued_open q" using can same_run [OF sch _ q(1)] q(2) find_run_Some [OF sch] by (auto simp: can_promote_def)
  then have o: "open_run q" by (simp add: queued_open_def open_run_def)
  have snd: "snd (apply_call lower (PromoteRun ?i w pn an dl cap) s) = t" for lower
    using p by (simp add: snd_void)
  have "db_ok (snd (apply_call (\<lambda>x. x) (PromoteRun ?i w pn an dl cap) s))"
    using call_keeps_ok ok unfolding keeps_def by blast
  then show okt: "db_ok t" unfolding snd .
  have old: "running a b t" if ab: "running a b s" for a b
  proof -
    obtain p where p: "p \<in> set (db_runs s)" "rn_id p = a" "rn_card_id p = b" "active_open p" using ab by (auto simp: running_def)
    then have "a \<noteq> ?i" using same_run [OF sch p(1) q(1)] q(2) qo by (auto simp: active_open_def queued_open_def)
    then show ?thesis using p by (auto simp: running_def runs update_where_def)
  qed
  have new: "running a b s \<or> (a = ?i \<and> b = ?j)" if "running a b t" for a b
    using that same_run [OF sch _ q(1)] q(2,3)
    by (auto simp: running_def runs update_where_def promoted_def split: if_splits)
  have "promoted s w pn an dl cap q \<in> set (db_runs t)" using q by (force simp: runs update_where_def)
  then show i: "running ?i ?j t"
    using q o unfolding running_def by (intro bexI) (auto simp: promoted_def active_open_def open_run_def)
  show "sched_ok t sc" using sc old by (auto simp: sched_ok_def)
  have notin: "?i \<notin> started_ids s"
    using same_run [OF sch _ q(1)] q(2) qo by (auto simp: started_ids_def running_def active_open_def queued_open_def)
  have ids: "started_ids t = insert ?i (started_ids s)"
    using old new i unfolding started_ids_def by blast
  have sp: "in_space a b t" if "in_space a b s" for a b
  proof -
    have "keeps (in_space a b) (promote_run_with_anchor ?i w pn an dl cap)" by (rule space_stays_runs.promote)
    from keepsD [OF this that p] show ?thesis .
  qed
  have len: "length cl = Suc (length ?cl)"
  proof -
    have "length (filter (\<lambda>p. \<not> (rn_id (fst p) \<noteq> ?i)) cl) = 1"
    proof -
      have "filter (\<lambda>p. \<not> (rn_id (fst p) \<noteq> ?i)) cl = [(r, c)]"
        using occupancyD(4) [OF occ] rc by (induction cl) (auto simp: filter_empty_conv image_iff)
      then show ?thesis by simp
    qed
    moreover have "?cl = filter (\<lambda>p. rn_id (fst p) \<noteq> ?i) cl" by (intro filter_cong) auto
    ultimately show ?thesis using sum_length_filter_compl [of "\<lambda>p. rn_id (fst p) \<noteq> ?i" cl] by simp
  qed
  have "in_space b (\<sigma> a) t" if "running a b t" for a b
    using new [OF that] occupancyD(1) [OF occ] sp q(4) o by blast
  moreover have "\<exists>p \<in> set (db_runs t). rn_id p = rn_id u \<and> rn_card_id p = rn_card_id u \<and>
      (open_run p \<longrightarrow> queued_open p \<and> in_space (rn_card_id u) (\<sigma> (rn_id u)) t)" if "(u, v) \<in> set ?cl" for u v
  proof -
    have u: "(u, v) \<in> set cl" "rn_id u \<noteq> ?i" using that by auto
    obtain p where "p \<in> set (db_runs s)" "rn_id p = rn_id u" "rn_card_id p = rn_card_id u"
      "open_run p \<longrightarrow> queued_open p \<and> in_space (rn_card_id u) (\<sigma> (rn_id u)) s" using occupancyD(3) [OF occ u(1)] by blast
    then show ?thesis using u(2) sp by (intro bexI [of _ p]) (auto simp: runs update_where_def)
  qed
  moreover have "inj_on \<sigma> (started_ids t \<union> (rn_id \<circ> fst) ` set ?cl)"
    by (rule inj_on_subset [OF occupancyD(5) [OF occ]]) (use ids rc in force)
  moreover have "card (started_ids t) + length ?cl \<le> mx"
    using occupancyD(6) [OF occ] notin len by (simp add: ids)
  moreover have "distinct (map (rn_id \<circ> fst) ?cl)" by (rule distinct_map_filter [OF occupancyD(4) [OF occ]])
  moreover have "\<sigma> (rn_id u) = space_key_from_card v" if "(u, v) \<in> set ?cl" for u v
    using that occupancyD(2) [OF occ] by auto
  ultimately show "occupancy mx \<sigma> t ?cl" unfolding occupancy_def by blast
qed

lemma started_ids_rows: "started_ids s = rn_id ` set (filter active_open (db_runs s))"
  by (auto simp: started_ids_def running_def)

lemma pass_daemon:
  assumes ok: "db_ok s" and occ: "occupancy mx \<sigma> s []" and mx: "max_concurrent e = mx"
  shows "\<exists>\<sigma>'. occupancy mx \<sigma>' s (pass_claims e s)"
proof -
  note sch = db_ok_schema [OF ok]
  obtain active where act: "open_runs_with_cards active_open s = Inr active" using open_runs_with_cards_total [OF sch] by blast
  obtain queued where que: "open_runs_with_cards queued_open s = Inr queued" using open_runs_with_cards_total [OF sch] by blast
  note A = open_runs_with_cards_Inr [OF sch act] and Q = open_runs_with_cards_Inr [OF sch que]
  define cl where "cl = pass_claims e s"
  let ?busy = "map (\<lambda>(_, c). space_key_from_card c) active"
  have cl: "cl = claim mx ?busy (length active) queued"
    by (simp add: cl_def pass_claims_def active_runs_with_cards_def queued_runs_with_cards_def act que mx)
  have ids: "distinct (map rn_id (filter P (db_runs s)))" for P
    using schema_okD(4) [OF sch] by (rule distinct_map_filter)
  have "(rn_id \<circ> fst) ` set active = started_ids s"
    using arg_cong [OF A(1), of set] by (simp add: started_ids_rows)
  moreover have "distinct (map (rn_id \<circ> fst) active)" unfolding A(1) using ids by (simp add: distinct_map)
  ultimately have n: "length active = card (started_ids s)" by (metis distinct_card length_map set_map)
  have dq: "distinct (map (rn_id \<circ> fst) queued)" unfolding Q(1) using ids by (simp add: distinct_map)
  have dcl: "distinct (map (rn_id \<circ> fst) cl)" unfolding cl by (rule claim_distinct [OF dq])
  have row: "r \<in> set (db_runs s)" "queued_open r" "find_card s (rn_card_id r) = Some c" "in_space (rn_card_id r) (space_key_from_card c) s"
    if "(r, c) \<in> set cl" for r c
    using that Q(2) claim_subset [of mx ?busy "length active" queued] find_card_space [OF sch] by (fastforce simp: cl)+
  have notin: "rn_id r \<notin> started_ids s" if "(r, c) \<in> set cl" for r c
    using row [OF that] same_run [OF sch] by (force simp: started_ids_rows queued_open_def active_open_def)
  define m where "m = map (\<lambda>(r, c). (rn_id r, space_key_from_card c)) cl"
  define \<tau> where "\<tau> = (\<lambda>i. if i \<in> started_ids s then \<sigma> i else the (map_of m i))"
  have sig: "\<tau> (rn_id r) = space_key_from_card c" if "(r, c) \<in> set cl" for r c
  proof -
    have "map fst m = map (rn_id \<circ> fst) cl" by (auto simp: m_def)
    then have "distinct (map fst m)" using dcl by simp
    moreover have "(rn_id r, space_key_from_card c) \<in> set m" using that by (force simp: m_def)
    ultimately have "map_of m (rn_id r) = Some (space_key_from_card c)" by (rule map_of_is_SomeI)
    then show ?thesis using notin [OF that] by (simp add: \<tau>_def)
  qed
  have busy: "\<sigma> i \<in> set ?busy" if i: "i \<in> started_ids s" for i
  proof -
    obtain r c where r: "(r, c) \<in> set active" "rn_id r = i"
      using i arg_cong [OF A(1), of set] by (force simp: started_ids_rows)
    then have "running i (rn_card_id r) s" and c: "find_card s (rn_card_id r) = Some c" using A(2) by (auto simp: running_def)
    from occupancyD(1) [OF occ this(1)] have "space_key_from_card c = \<sigma> i" using find_card_space [OF sch c] by simp
    with r show ?thesis by force
  qed
  have sp: "distinct (map claim_space cl)" "set (map claim_space cl) \<inter> set ?busy = {}"
    using claim_spaces unfolding cl by blast+
  have "inj_on \<tau> (started_ids s \<union> (rn_id \<circ> fst) ` set cl)"
  proof (rule inj_on_Un [THEN iffD2], intro conjI)
    show "inj_on \<tau> (started_ids s)" using occupancyD(5) [OF occ] by (auto simp: inj_on_def \<tau>_def)
    show "inj_on \<tau> ((rn_id \<circ> fst) ` set cl)"
    proof (rule inj_onI)
      fix a b assume "a \<in> (rn_id \<circ> fst) ` set cl" "b \<in> (rn_id \<circ> fst) ` set cl" and eq: "\<tau> a = \<tau> b"
      then obtain r c r' c' where rc: "(r, c) \<in> set cl" "a = rn_id r" "(r', c') \<in> set cl" "b = rn_id r'" by auto
      then have "claim_space (r, c) = claim_space (r', c')" using sig eq by simp
      then have "(r, c) = (r', c')" using sp(1) rc(1,3) unfolding distinct_map by (blast dest: inj_onD)
      with rc show "a = b" by simp
    qed
    show "\<tau> ` (started_ids s - (rn_id \<circ> fst) ` set cl) \<inter> \<tau> ` ((rn_id \<circ> fst) ` set cl - started_ids s) = {}"
    proof -
      have "\<tau> a \<noteq> \<tau> (rn_id r)" if a: "a \<in> started_ids s" and rc: "(r, c) \<in> set cl" for a r c
      proof -
        have "claim_space (r, c) \<in> set (map claim_space cl)" using rc by (metis image_eqI set_map)
        then have "claim_space (r, c) \<notin> set ?busy" using sp(2) by blast
        then have "space_key_from_card c \<notin> set ?busy" by simp
        then show ?thesis using busy [OF a] sig [OF rc] a by (metis \<tau>_def)
      qed
      then show ?thesis by auto
    qed
  qed
  moreover have "in_space j (\<tau> i) s" if "running i j s" for i j
    using occupancyD(1) [OF occ that] that by (auto simp: \<tau>_def started_ids_def)
  moreover have "card (started_ids s) + length cl \<le> mx"
    using claim_capacity [of "length active" mx ?busy queued] occupancyD(6) [OF occ] by (simp add: n cl)
  moreover have "\<exists>q \<in> set (db_runs s). rn_id q = rn_id r \<and> rn_card_id q = rn_card_id r \<and>
      (open_run q \<longrightarrow> queued_open q \<and> in_space (rn_card_id r) (\<tau> (rn_id r)) s)" if "(r, c) \<in> set cl" for r c
    using row [OF that] sig [OF that] by auto
  ultimately have "occupancy mx \<tau> s cl" using dcl sig unfolding occupancy_def by blast
  then show ?thesis unfolding cl_def by blast
qed

lemma plan_hops:
  "plan_transition e d i r c out el = Inr plan \<Longrightarrow> tp_next_hops plan = Some h \<Longrightarrow> 0 < h \<and> h \<le> max_auto_hops"
  by (auto simp: plan_transition_def Let_def decide_auto_hop_continue
      split: option.splits if_splits auto_hop_decision.splits sum.splits)

definition ends_run :: "int \<Rightarrow> daemon \<Rightarrow> daemon \<Rightarrow> bool" where
  \<comment> \<open>the run is finalized and leaves the scheduler\<close>
  "ends_run i d d' \<longleftrightarrow>
     (\<exists>p fx s' c h. fz_run_id p = i \<and> finalize_run_uow p (dm_db d) = (Inr fx, s') \<and> (\<forall>n. h = Some n \<longrightarrow> 0 < n \<and> n \<le> max_auto_hops) \<and>
        d' = snd (set_chain_hops c h (snd (drop_active i (d\<lparr>dm_db := s'\<rparr>)))))"

lemma wp_sched:
  "wp (drop_active i) Q E = (\<lambda>d. Q () (snd (drop_active i d)))"
  "wp (put_active i a) Q E = (\<lambda>d. Q () (snd (put_active i a d)))"
  "wp (set_chain_hops c h) Q E = (\<lambda>d. Q () (snd (set_chain_hops c h d)))"
  by (simp_all add: fun_eq_iff drop_active_def put_active_def set_chain_hops_def wp_def modifyT_def)

lemma finalize_section_ends:
  assumes ok: "db_ok (dm_db d)"
  shows "wp (finalize_section e i out summary extra tr at) (\<lambda>_ d'. d' = d \<or> ends_run i d d') (\<lambda>_ d'. d' = d) d"
proof -
  have fin: "wp (finalize_run_uow p) (\<lambda>fx s'. snd (set_chain_hops c h (snd (drop_active i (d\<lparr>dm_db := s'\<rparr>)))) = d \<or>
         ends_run i d (snd (set_chain_hops c h (snd (drop_active i (d\<lparr>dm_db := s'\<rparr>))))))
      (\<lambda>_ s'. d\<lparr>dm_db := s'\<rparr> = d) (dm_db d)"
    if "fz_run_id p = i" "\<forall>n. h = Some n \<longrightarrow> 0 < n \<and> n \<le> max_auto_hops" for p c h
  proof (rule wpI)
    fix fx s' assume "finalize_run_uow p (dm_db d) = (Inr fx, s')"
    then show "snd (set_chain_hops c h (snd (drop_active i (d\<lparr>dm_db := s'\<rparr>)))) = d \<or> ends_run i d (snd (set_chain_hops c h (snd (drop_active i (d\<lparr>dm_db := s'\<rparr>)))))"
      using that unfolding ends_run_def by blast
  next
    fix err s' assume "finalize_run_uow p (dm_db d) = (Inl err, s')"
    from wp_error [OF finalize_run_wp [OF db_ok_board [OF ok]] this] show "d\<lparr>dm_db := s'\<rparr> = d" by simp
  qed
  show ?thesis
    unfolding finalize_section_def
    by (simp add: wp_bind wp_then wp_basic wp_on_db wp_lookups wp_sched wp_if split: option.splits)
      (auto simp: stay_plan_def split: sum.splits dest: plan_hops intro!: fin)
qed

lemma delete_entries:
  "distinct (map fst xs) \<Longrightarrow> distinct (map fst (AList.delete i xs))"
  "set (AList.delete i xs) = {p \<in> set xs. fst p \<noteq> i}"
  by (simp_all add: AList.distinct_delete) (induction xs, auto)

lemma update_entries:
  "set (AList.update i a xs) \<subseteq> insert (i, a) (set xs)"
  by (induction xs) auto

lemma update_keeps_entry: "distinct (map fst xs) \<Longrightarrow> set (AList.update i a xs) = insert (i, a) {p \<in> set xs. fst p \<noteq> i}"
  by (induction xs) (auto simp: image_iff)

lemma ends_run_keeps:
  assumes inv: "daemon_inv mx d" and e: "ends_run i d d'"
  shows "daemon_inv mx d'"
proof -
  obtain p fx s' c h where p: "fz_run_id p = i" "finalize_run_uow p (dm_db d) = (Inr fx, s')"
    "\<forall>n. h = Some n \<longrightarrow> 0 < n \<and> n \<le> max_auto_hops"
    and d': "d' = snd (set_chain_hops c h (snd (drop_active i (d\<lparr>dm_db := s'\<rparr>))))"
    using e unfolding ends_run_def by blast
  obtain \<sigma> where ok: "db_ok (dm_db d)" and sc: "sched_ok (dm_db d) (dm_sched d)" and occ: "occupancy mx \<sigma> (dm_db d) (dm_claims d)"
    using inv by (auto simp: daemon_inv_def)
  have s': "s' = snd (apply_call (\<lambda>x. x) (FinalizeRun p) (dm_db d))" using p(2) by (simp add: snd_void)
  have ok': "db_ok s'" unfolding s' using call_keeps_ok ok by (simp add: keeps_def del: apply_call.simps)
  have occ': "occupancy mx \<sigma> s' (dm_claims d)"
    unfolding s' by (rule occupancy_call [OF ok occ]) (simp add: harmless_def)
  have run: "running j k s'" if "running j k (dm_db d)" "j \<noteq> i" for j k
    using finalize_keeps_running [OF db_ok_board [OF ok] that(1), of p] that(2) p by simp
  have "sched_ok s' (dm_sched d')"
    using sc run p(3) delete_entries(2) [of i] update_entries
    by (cases h) (fastforce simp: sched_ok_def d' set_chain_hops_def drop_active_def modifyT_def delete_entries)+
  moreover have "dm_db d' = s'" "dm_claims d' = dm_claims d"
    by (simp_all add: d' set_chain_hops_def drop_active_def modifyT_def)
  ultimately show ?thesis using ok' occ' by (auto simp: daemon_inv_def)
qed

section \<open>The steps of the daemon\<close>

fun plain_call :: "store_call \<Rightarrow> bool" where
  \<comment> \<open>the calls that handlers make without a guard of their own\<close>
  "plain_call (PromoteRun i w pn an dl cap) = False"
| "plain_call (FinalizeRun p) = False"
| "plain_call (DeleteCard i) = False"
| "plain_call (UpdateCard u) = False"
| "plain_call c = True"

inductive dstep :: "(string \<Rightarrow> string) \<Rightarrow> nat \<Rightarrow> daemon \<Rightarrow> daemon \<Rightarrow> bool" for lower :: "string \<Rightarrow> string" and mx :: nat where
  call: "plain_call c \<Longrightarrow> dstep lower mx d (snd (on_db (apply_call lower c) d))"
| edit: "(edits_locked u \<longrightarrow> find_open_run (dm_db d) (ku_id u) = None) \<Longrightarrow> dstep lower mx d (snd (on_db (update_card u) d))"
| delete: "find_open_run (dm_db d) i = None \<Longrightarrow> i \<notin> (rn_card_id \<circ> fst) ` set (dm_claims d) \<Longrightarrow>
    dstep lower mx d (snd (on_db (delete_card i) d))"
| finalize: "dstep lower mx d (snd (finalize_section e i out summary extra tr at d))"
| cancel: "dstep lower mx d (snd (cancel_queued_section c d))"
| reset: "dstep lower mx d (snd (set_chain_hops c None d))"
| signal: "dstep lower mx d (snd (signal_section e i c sig g d))"
| track: "find_active d i = Some a \<Longrightarrow> ar_card_id b = ar_card_id a \<Longrightarrow> dstep lower mx d (snd (put_active i b d))"
| adopt: "running i (ar_card_id a) (dm_db d) \<Longrightarrow> dstep lower mx d (snd (put_active i a d))"
| forget: "dstep lower mx d (snd (drop_active i d))"
| pass: "max_concurrent e = mx \<Longrightarrow> dstep lower mx d (snd (begin_dispatch_pass e d))"
| launch: "(r, c) \<in> set (dm_claims d) \<Longrightarrow> dstep lower mx d (snd (complete_launch e r c k res d))"
| abandon: "dstep lower mx d (snd (drop_claim i d))"
| outward: "dm_db d' = dm_db d \<Longrightarrow> dm_sched d' = dm_sched d \<Longrightarrow> dm_claims d' = dm_claims d \<Longrightarrow> dstep lower mx d d'"

lemma sched_entry: "find_active d i = Some a \<Longrightarrow> (i, a) \<in> set (sc_active (dm_sched d))"
  by (simp add: find_active_def map_of_SomeD)

lemma put_active_keeps:
  assumes inv: "daemon_inv mx d" and r: "running i (ar_card_id a) (dm_db d)"
  shows "daemon_inv mx (snd (put_active i a d))"
  using inv r
  by (auto simp: daemon_inv_def sched_ok_def put_active_def modifyT_def AList.distinct_update update_keeps_entry)

lemma tracked_running: "daemon_inv mx d \<Longrightarrow> find_active d i = Some a \<Longrightarrow> running i (ar_card_id a) (dm_db d)"
  by (auto simp: daemon_inv_def sched_ok_def dest: sched_entry)

lemma drop_keeps:
  "daemon_inv mx d \<Longrightarrow> daemon_inv mx (snd (drop_active i d))"
  "daemon_inv mx d \<Longrightarrow> daemon_inv mx (snd (set_chain_hops c None d))"
  by (auto simp: daemon_inv_def sched_ok_def drop_active_def set_chain_hops_def modifyT_def delete_entries)

lemma drop_claim_keeps: "daemon_inv mx d \<Longrightarrow> daemon_inv mx (snd (drop_claim i d))"
  using occupancy_fewer by (fastforce simp: daemon_inv_def drop_claim_def modifyT_def)

lemma daemon_inv_same:
  "dm_db d' = dm_db d \<Longrightarrow> dm_sched d' = dm_sched d \<Longrightarrow> dm_claims d' = dm_claims d \<Longrightarrow> daemon_inv mx d \<Longrightarrow> daemon_inv mx d'"
  by (simp add: daemon_inv_def)

lemma keeps_effects: "changes_only_effects m \<Longrightarrow> keeps (daemon_inv mx) m"
  unfolding keeps_def changes_only_effects_def using daemon_inv_same by blast

lemma plain_harmless: "plain_call c \<Longrightarrow> harmless s cl c \<and> (\<nexists>p. c = FinalizeRun p)"
  by (cases c) (auto simp: harmless_def)

lemma plain_keeps: "plain_call c \<Longrightarrow> keeps (daemon_inv mx) (on_db (apply_call lower c))"
  using daemon_call plain_harmless by (auto simp: keeps_def)

subsection \<open>Every step keeps the invariant\<close>

lemma edit_keeps:
  assumes "edits_locked u \<longrightarrow> find_open_run (dm_db d) (ku_id u) = None" and "daemon_inv mx d"
  shows "daemon_inv mx (snd (on_db (update_card u) d))"
proof -
  have "harmless (dm_db d) (dm_claims d) (UpdateCard u)"
    using assms(1) by (auto simp: harmless_def edits_locked_def space_free_def)
  from daemon_call [OF assms(2) this, of "\<lambda>x. x"] show ?thesis by (simp add: on_db_snd snd_void)
qed

lemma delete_keeps:
  assumes "find_open_run (dm_db d) i = None" "i \<notin> (rn_card_id \<circ> fst) ` set (dm_claims d)" and "daemon_inv mx d"
  shows "daemon_inv mx (snd (on_db (delete_card i) d))"
proof -
  have "harmless (dm_db d) (dm_claims d) (DeleteCard i)" using assms(1,2) by (auto simp: harmless_def)
  from daemon_call [OF assms(3) this, of "\<lambda>x. x"] show ?thesis by (simp add: on_db_snd)
qed

lemma finalize_queued_keeps:
  assumes inv: "daemon_inv mx d" and q: "\<And>j. \<not> running (fz_run_id p) j (dm_db d)"
  shows "daemon_inv mx (snd (on_db (finalize_run_uow p) d))"
proof -
  obtain \<sigma> where ok: "db_ok (dm_db d)" and sc: "sched_ok (dm_db d) (dm_sched d)" and occ: "occupancy mx \<sigma> (dm_db d) (dm_claims d)"
    using inv by (auto simp: daemon_inv_def)
  let ?s = "snd (finalize_run_uow p (dm_db d))"
  have s: "?s = snd (apply_call (\<lambda>x. x) (FinalizeRun p) (dm_db d))" by (simp add: snd_void)
  have "db_ok ?s" unfolding s using call_keeps_ok ok by (simp add: keeps_def del: apply_call.simps)
  moreover have "occupancy mx \<sigma> ?s (dm_claims d)"
    unfolding s by (rule occupancy_call [OF ok occ]) (simp add: harmless_def)
  moreover have "running i j ?s" if "running i j (dm_db d)" for i j
    by (rule finalize_keeps_running [OF db_ok_board [OF ok] that]) (use q that in blast)
  then have "sched_ok ?s (dm_sched d)" using sc unfolding sched_ok_def by blast
  ultimately show ?thesis unfolding on_db_snd daemon_inv_db by blast
qed

lemma cancel_keeps: "keeps (daemon_inv mx) (cancel_queued_section c)"
  unfolding keeps_def
proof (intro allI impI)
  fix d assume inv: "daemon_inv mx d"
  show "daemon_inv mx (snd (cancel_queued_section c d))"
  proof (cases "case find_open_run (dm_db d) c of None \<Rightarrow> None | Some r \<Rightarrow> if rn_started_at r = None then Some r else None")
    case None
    then show ?thesis using inv by (simp add: cancel_queued_section_def bindT_def queryT_def ok_or_def)
  next
    case (Some r)
    then have r: "r \<in> set (db_runs (dm_db d))" "rn_started_at r = None"
      by (auto simp: find_open_run_def dest!: find_SomeD split: option.splits if_splits)
    have sch: "schema_ok (dm_db d)" using inv db_ok_schema by (simp add: daemon_inv_def)
    have q: "\<not> running (rn_id r) j (dm_db d)" for j
      using same_run [OF sch _ r(1)] r(2) by (auto simp: running_def active_open_def)
    show ?thesis
      using finalize_queued_keeps [OF inv, of "\<lparr>fz_run_id = rn_id r, fz_outcome = Cancelled, fz_summary = Some ''cancelled by user'',
         fz_comments = [(''system'', ''queued run cancelled by user'')], fz_target_column_id = None,
         fz_final_status = Failed, fz_final_awaiting_reason = None, fz_next = None\<rparr>"] q Some drop_keeps(2)
      by (auto simp: cancel_queued_section_def bindT_def thenT_def queryT_def ok_or_def returnT_def set_chain_hops_def modifyT_def
          split: prod.splits sum.splits)
  qed
qed

lemma write_signal_call: "\<exists>c. plain_call c \<and> (\<forall>lower s. snd (apply_call lower c s) = snd (write_signal e k dec s))"
proof -
  consider (pause) r where "write_signal e k dec = pause_run_timeout (cd_id k) r (en_wall_now_ms e)"
    | (await) r where "write_signal e k dec = set_card_awaiting (cd_id k) r"
    | (resume) "write_signal e k dec = resume_run_timeout (cd_id k) (sd_new_status dec) (en_wall_now_ms e)"
    | (status) "write_signal e k dec = set_card_status (cd_id k) (sd_new_status dec)"
    by (cases "sd_awaiting_reason dec"; cases "cd_status k = Awaiting") (auto simp: write_signal_def)
  then show ?thesis
  proof cases
    case pause then show ?thesis by (intro exI [of _ "PauseTimeout (cd_id k) r (en_wall_now_ms e)"]) (simp add: snd_void)
  next
    case await then show ?thesis by (intro exI [of _ "SetAwaiting (cd_id k) r"]) (simp add: snd_void)
  next
    case resume then show ?thesis
      by (intro exI [of _ "ResumeTimeout (cd_id k) (sd_new_status dec) (en_wall_now_ms e)"]) (simp add: snd_void)
  next
    case status then show ?thesis by (intro exI [of _ "SetStatus (cd_id k) (sd_new_status dec)"]) (simp add: snd_void)
  qed
qed

lemma bookkeeping_card: "ar_card_id (signal_bookkeeping e b a x) = ar_card_id x"
  by (simp add: signal_bookkeeping_def enter_awaiting_def leave_awaiting_def split: option.split)

lemma write_signal_keeps: "daemon_inv mx d \<Longrightarrow> daemon_inv mx (snd (on_db (write_signal e k dec) d))"
proof -
  assume inv: "daemon_inv mx d"
  obtain c where c: "plain_call c" "\<forall>lower s. snd (apply_call lower c s) = snd (write_signal e k dec s)"
    using write_signal_call by blast
  from plain_keeps [OF c(1), of mx "\<lambda>x. x"] inv have "daemon_inv mx (snd (on_db (apply_call (\<lambda>x. x) c) d))" by (simp add: keeps_def)
  then show ?thesis using c(2) by (simp add: on_db_snd)
qed

lemma then_put: "thenT (put_active i a) m d = m (snd (put_active i a d))"
  by (simp add: thenT_def bindT_def put_active_def modifyT_def)

lemma signal_section_keeps: "keeps (daemon_inv mx) (signal_section e i c sig g)"
  unfolding keeps_def
proof (intro allI impI)
  fix d assume inv: "daemon_inv mx d"
  have book: "daemon_inv mx (snd (put_active i (signal_bookkeeping e x y a) d'))"
    if a: "find_active d i = Some a" and w: "on_db (write_signal e k dec) d = (r, d')" for a k dec r d' x y
  proof -
    have inv': "daemon_inv mx d'" using write_signal_keeps [OF inv, of e k dec] w by simp
    have "dm_sched d' = dm_sched d" using w by (auto simp: on_db_def split: prod.splits)
    then have "find_active d' i = Some a" using a by (simp add: find_active_def)
    from put_active_keeps [OF inv'] tracked_running [OF inv' this] show ?thesis by (simp add: bookkeeping_card)
  qed
  have same: "daemon_inv mx d'" if "on_db (write_signal e k dec) d = (r, d')" for k dec r d'
    using write_signal_keeps [OF inv, of e k dec] that by simp
  show "daemon_inv mx (snd (signal_section e i c sig g d))"
    using inv by (auto simp: signal_section_def then_put returnT_def intro: same book split: option.splits sum.splits prod.splits)
qed

definition inv_without :: "nat \<Rightarrow> int \<Rightarrow> daemon \<Rightarrow> bool" where
  "inv_without mx i d \<longleftrightarrow> daemon_inv mx (snd (drop_claim i d))"

lemma drop_claim_parts:
  "dm_db (snd (drop_claim i d)) = dm_db d" "dm_sched (snd (drop_claim i d)) = dm_sched d"
  "dm_claims (snd (drop_claim i d)) = filter (\<lambda>(r, _). rn_id r \<noteq> i) (dm_claims d)"
  by (simp_all add: drop_claim_def modifyT_def)

lemma without_effects: "changes_only_effects m \<Longrightarrow> keeps (inv_without mx i) m"
  unfolding keeps_def changes_only_effects_def inv_without_def
  using daemon_inv_same by (metis drop_claim_parts)

lemma drop_claim_db: "snd (drop_claim i (snd (on_db m d))) = snd (on_db m (snd (drop_claim i d)))"
  by (simp add: on_db_snd drop_claim_def modifyT_def)

lemma drop_claim_put: "snd (drop_claim j (snd (put_active i a d))) = snd (put_active i a (snd (drop_claim j d)))"
  by (cases d) (simp add: put_active_def drop_claim_def modifyT_def)

lemma without_add_comment: "inv_without mx i d \<Longrightarrow> inv_without mx i (snd (on_db (add_comment c a b) d))"
  using plain_keeps [of "AddComment c a b" mx "\<lambda>x. x"]
  unfolding inv_without_def drop_claim_db by (simp add: keeps_def on_db_snd snd_void)

lemma register_without:
  assumes inv: "daemon_inv mx d" and rc: "(r, c) \<in> set (dm_claims d)"
  shows "inv_without mx (rn_id r) (snd (register_section (rn_id r) h st dl dlm d))"
proof -
  obtain \<sigma> where ok: "db_ok (dm_db d)" and sc: "sched_ok (dm_db d) (dm_sched d)" and occ: "occupancy mx \<sigma> (dm_db d) (dm_claims d)"
    using inv by (auto simp: daemon_inv_def)
  have w: "wp (register_section (rn_id r) h st dl dlm) (\<lambda>_. inv_without mx (rn_id r)) (\<lambda>_. inv_without mx (rn_id r)) d"
  proof -
    have stay: "inv_without mx (rn_id r) d" using drop_claim_keeps [OF inv] by (simp add: inv_without_def)
    have promote: "wp (promote_run_with_anchor (rn_id r) w pn an dl' cap)
        (\<lambda>x t. inv_without mx (rn_id r) (snd (put_active (rn_id r) a (d\<lparr>dm_db := t\<rparr>)))) (\<lambda>_ t. inv_without mx (rn_id r) (d\<lparr>dm_db := t\<rparr>)) (dm_db d)"
      if a: "ar_card_id a = rn_card_id r" for w pn an dl' cap a
    proof (rule wpI)
      fix x t assume p: "promote_run_with_anchor (rn_id r) w pn an dl' cap (dm_db d) = (Inr x, t)"
      have i: "daemon_inv mx (snd (drop_claim (rn_id r) (d\<lparr>dm_db := t\<rparr>)))"
        unfolding daemon_inv_def drop_claim_parts using promote_daemon(1-3) [OF ok occ sc rc p] by auto
      have "running (rn_id r) (ar_card_id a) t" unfolding a by (rule promote_daemon(4) [OF ok occ sc rc p])
      with put_active_keeps [OF i, of "rn_id r" a]
      show "inv_without mx (rn_id r) (snd (put_active (rn_id r) a (d\<lparr>dm_db := t\<rparr>)))"
        by (simp add: inv_without_def drop_claim_parts drop_claim_put)
    next
      fix e t assume "promote_run_with_anchor (rn_id r) w pn an dl' cap (dm_db d) = (Inl e, t)"
      from wp_error [OF promote_run_wp [OF db_ok_board [OF ok]] this] stay
      show "inv_without mx (rn_id r) (d\<lparr>dm_db := t\<rparr>)" by simp
    qed
    obtain q where q: "q \<in> set (db_runs (dm_db d))" "rn_id q = rn_id r" "rn_card_id q = rn_card_id r"
      using occupancyD(3) [OF occ rc] by blast
    have card: "rn_card_id x = rn_card_id r" if "find_run (dm_db d) (rn_id r) = Some x" for x
      using that find_run_Some [OF db_ok_schema [OF ok]] same_run [OF db_ok_schema [OF ok] _ q(1)] q(2,3) by auto
    have key: "cd_id c' = j" if "find_card (dm_db d) j = Some c'" for c' j
      using that find_card_Some [OF db_ok_schema [OF ok]] by auto
    show ?thesis
      unfolding register_section_def
      by (simp add: wp_bind wp_then wp_basic wp_on_db wp_lookups wp_sched wp_if ok_or_def stay split: option.splits)
         (auto simp: card key stay intro!: promote)
  qed
  then show ?thesis by (rule wp_snd)
qed

lemma register_spawned_without:
  assumes "daemon_inv mx d" and "(r, c) \<in> set (dm_claims d)"
  shows "inv_without mx (rn_id r) (snd (register_spawned_run (rn_id r) h st dl dlm d))"
proof -
  obtain x d' where x: "register_section (rn_id r) h st dl dlm d = (x, d')" by fastforce
  have "inv_without mx (rn_id r) d'" using register_without [OF assms, of h st dl dlm] x by simp
  moreover have "inv_without mx (rn_id r) (snd (effectT (Kill h) d'))"
    using keepsD [OF without_effects [OF outward_effects(8)] calculation] by (metis prod.collapse)
  ultimately show ?thesis
    using x by (auto simp: register_spawned_run_def split: sum.splits bool.splits)
qed

lemma claim_not_running:
  assumes "daemon_inv mx d" and "(r, c) \<in> set (dm_claims d)"
  shows "\<not> running (rn_id r) j (dm_db d)"
proof -
  obtain \<sigma> where ok: "db_ok (dm_db d)" and occ: "occupancy mx \<sigma> (dm_db d) (dm_claims d)"
    using assms(1) by (auto simp: daemon_inv_def)
  obtain q where q: "q \<in> set (db_runs (dm_db d))" "rn_id q = rn_id r" "open_run q \<longrightarrow> queued_open q"
    using occupancyD(3) [OF occ assms(2)] by blast
  show ?thesis
  proof
    assume "running (rn_id r) j (dm_db d)"
    then obtain p where p: "p \<in> set (db_runs (dm_db d))" "rn_id p = rn_id r" "active_open p" by (auto simp: running_def)
    with same_run [OF db_ok_schema [OF ok] p(1) q(1)] q show False by (simp add: active_open_def queued_open_def)
  qed
qed

lemma launch_keeps:
  assumes inv: "daemon_inv mx d" and rc: "(r, c) \<in> set (dm_claims d)"
  shows "daemon_inv mx (snd (complete_launch e r c k res d))"
proof -
  have "inv_without mx (rn_id r) (snd (finish_spawn e r c k res d))"
  proof (cases res)
    case (SpawnFailed reason)
    have "daemon_inv mx (snd (fail_queued_run e (rn_id r) reason d))"
    proof -
      let ?p = "\<lparr>fz_run_id = rn_id r, fz_outcome = OutcomeFail, fz_summary = Some reason, fz_comments = [(''system'', reason)],
         fz_target_column_id = None, fz_final_status = Failed, fz_final_awaiting_reason = None, fz_next = None\<rparr>"
      have "daemon_inv mx (snd (on_db (finalize_run_uow ?p) d))"
        by (rule finalize_queued_keeps [OF inv]) (simp add: claim_not_running [OF inv rc])
      moreover have "keeps (daemon_inv mx) (thenT (refresh_watch e) (thenT (emit_run_ended c (rn_id r) OutcomeFail) wake_dispatch))" for c
        by (intro keeps_then keeps_effects outward_effects)
      ultimately show ?thesis
        unfolding fail_queued_run_def keeps_def by (auto simp: bindT_def split: prod.splits sum.splits)
    qed
    then have "inv_without mx (rn_id r) (snd (fail_queued_run e (rn_id r) reason d))"
      using drop_claim_keeps by (simp add: inv_without_def)
    then show ?thesis
      by (auto simp: finish_spawn_def SpawnFailed thenT_def bindT_def returnT_def split: prod.splits sum.splits)
  next
    case (Spawned h)
    have rest: "keeps (inv_without mx (rn_id r)) (if \<not> registered then returnT False
          else thenT (record_warning r c h) (thenT (refresh_watch e)
            (thenT (emit_changed RunStarted (Some (cd_id c)) (Some (rn_column_id r))) (returnT True))))" for registered
    proof -
      have "keeps (inv_without mx (rn_id r)) (record_warning r c h)"
        using without_add_comment by (auto simp: keeps_def record_warning_def split: option.splits)
      then show ?thesis by (intro tx_keeps; (assumption | intro without_effects outward_effects)?)
    qed
    let ?reg = "register_spawned_run (rn_id r) h (en_now e)
             (Option.bind (timeout_ms e k) (\<lambda>ms. instant_checked_add (en_instant_max e) (en_now e) (ms * ns_per_ms)))
             (map_option (i64_saturating_add (en_wall_now_ms e)) (timeout_ms e k))"
    obtain x d1 where x: "?reg d = (x, d1)" by fastforce
    have i: "inv_without mx (rn_id r) d1" using register_spawned_without [OF inv rc] x by (metis snd_conv)
    show ?thesis
    proof (cases x)
      case (Inl err)
      then show ?thesis using i x by (simp add: finish_spawn_def Spawned bindT_def)
    next
      case (Inr registered)
      then show ?thesis using i x rest [of registered] unfolding keeps_def by (simp add: finish_spawn_def Spawned bindT_def)
    qed
  qed
  then show ?thesis by (simp add: complete_launch_def inv_without_def)
qed

theorem dstep_keeps: "dstep lower mx d d' \<Longrightarrow> daemon_inv mx d \<Longrightarrow> daemon_inv mx d'"
proof (induction rule: dstep.induct)
  case (call c d) then show ?case using plain_keeps by (simp add: keeps_def)
next
  case (finalize d e i out summary extra tr at)
  then have ok: "db_ok (dm_db d)" by (simp add: daemon_inv_def)
  have "wp (finalize_section e i out summary extra tr at) (\<lambda>_. daemon_inv mx) (\<lambda>_. daemon_inv mx) d"
    by (rule wp_mono [OF finalize_section_ends [OF ok]]) (use finalize ends_run_keeps in auto)
  then show ?case by (rule wp_snd)
next
  case (delete d i) then show ?case by (intro delete_keeps)
next
  case (signal d e i c sig g) then show ?case using signal_section_keeps by (simp add: keeps_def)
next
  case (cancel d c) then show ?case using cancel_keeps by (simp add: keeps_def)
next
  case (track d i a b) then show ?case using put_active_keeps tracked_running by metis
next
  case (pass e d)
  then obtain \<sigma> where i: "db_ok (dm_db d)" "sched_ok (dm_db d) (dm_sched d)" "occupancy mx \<sigma> (dm_db d) (dm_claims d)"
    by (auto simp: daemon_inv_def)
  then show ?case
    using pass_daemon [OF i(1) _ pass(1)] by (auto simp: begin_dispatch_pass_def modifyT_def daemon_inv_def)
qed (auto intro: edit_keeps delete_keeps put_active_keeps drop_keeps launch_keeps drop_claim_keeps daemon_inv_same)

end
