(* ===== verification/Daemon_Machine.thy ===== *)
theory Daemon_Machine
  imports Daemon_Steps
begin

text \<open>
  Requests and background work as sequences of blocks. \<open>handle_request\<close> is the routing table of
  \<open>ops/mod.rs\<close> on decoded parameters. Every handler, Herdr event, tick and reconciliation only takes steps of
  \<open>dstep\<close> (\<open>reaches\<close>), so what \<open>daemon_inv\<close> says holds between any two blocks of any interleaving.
  \<open>dreach\<close> adds restarts, the clock and injected database faults.
\<close>

section \<open>Routing\<close>

datatype request =
    DaemonStatus
  | BoardOpen string
  | BoardRename int string
  | BoardCreate int string
  | BoardSelect int
  | BoardArchive int bool
  | BoardGet "int option"
  | ProjectArchive string bool
  | ProjectOpen string
  | ProjectCreate string
  | ProjectSelect string "int option"
  | ProjectSelected
  | ColumnCreate column_create_params
  | ColumnUpdate column_update_params
  | ColumnReorder int int
  | ColumnDelete int "int option"
  | TemplateApply string "int option"
  | CardCreate card_create_params
  | CardDuplicate int
  | CardUpdate card_update_params
  | CardDelete int
  | CardArchive int bool
  | CardMove card_move_params
  | CardGet int
  | CardList "int option" "int option" "visibility option"
  | CommentAdd comment_add_params
  | CommentGet int
  | CommentUpdate int string "int option"
  | CommentDelete int "int option"
  | CommentHistory int
  | RunDone run_done_params
  | RunPaneExited int int
  | RunCancel int
  | RunRetry int

definition discard :: "'a op \<Rightarrow> unit op" where
  "discard m = thenT m (returnT ())"

fun handle_request :: "(string \<Rightarrow> string) \<Rightarrow> (string \<Rightarrow> error + unit) \<Rightarrow> env \<Rightarrow> request \<Rightarrow> unit op" where
  "handle_request lower dir e DaemonStatus = discard daemon_counts"
| "handle_request lower dir e (BoardOpen sc) = discard (op_board_open e sc)"
| "handle_request lower dir e (BoardRename i n) = discard (op_board_rename i n)"
| "handle_request lower dir e (BoardCreate p n) = discard (op_board_create e p n)"
| "handle_request lower dir e (BoardSelect i) = discard (op_board_select e i)"
| "handle_request lower dir e (BoardArchive i a) = discard (op_board_archive lower i a)"
| "handle_request lower dir e (BoardGet i) = discard (op_board_get e i)"
| "handle_request lower dir e (ProjectArchive sc a) = discard (op_project_archive lower sc a)"
| "handle_request lower dir e (ProjectOpen sc) = discard (op_project_open e sc)"
| "handle_request lower dir e (ProjectCreate sc) = discard (op_project_create e dir sc)"
| "handle_request lower dir e (ProjectSelect sc b) = discard (op_project_select e sc b)"
| "handle_request lower dir e ProjectSelected = discard (op_project_selected e)"
| "handle_request lower dir e (ColumnCreate p) = discard (column_create e p)"
| "handle_request lower dir e (ColumnUpdate p) = discard (column_update e p)"
| "handle_request lower dir e (ColumnReorder i p) = discard (column_reorder i p)"
| "handle_request lower dir e (ColumnDelete i t) = discard (column_delete i t)"
| "handle_request lower dir e (TemplateApply n b) = discard (template_apply n b)"
| "handle_request lower dir e (CardCreate p) = discard (card_create e p)"
| "handle_request lower dir e (CardDuplicate i) = discard (card_duplicate e i)"
| "handle_request lower dir e (CardUpdate p) = discard (card_update e p)"
| "handle_request lower dir e (CardDelete i) = discard (card_delete i)"
| "handle_request lower dir e (CardArchive i a) = discard (card_archive e i a)"
| "handle_request lower dir e (CardMove p) = discard (card_move e p)"
| "handle_request lower dir e (CardGet i) = discard (card_get e i)"
| "handle_request lower dir e (CardList b c v) = discard (card_list e b c v)"
| "handle_request lower dir e (CommentAdd p) = discard (comment_add p)"
| "handle_request lower dir e (CommentGet i) = discard (comment_get i)"
| "handle_request lower dir e (CommentUpdate i b a) = discard (comment_update i b a)"
| "handle_request lower dir e (CommentDelete i a) = discard (comment_delete i a)"
| "handle_request lower dir e (CommentHistory i) = discard (op_comment_history i)"
| "handle_request lower dir e (RunDone p) = discard (run_done e p)"
| "handle_request lower dir e (RunPaneExited c r) = discard (run_pane_exited e c r)"
| "handle_request lower dir e (RunCancel c) = discard (run_cancel e c)"
| "handle_request lower dir e (RunRetry c) = discard (run_retry e c)"

section \<open>Sequences of steps\<close>

definition reaches :: "(string \<Rightarrow> string) \<Rightarrow> nat \<Rightarrow> daemon \<Rightarrow> daemon \<Rightarrow> bool" where
  "reaches lower mx d = (dstep lower mx)\<^sup>*\<^sup>* d"

lemma reaches_step: "reaches lower mx d0 d \<Longrightarrow> dstep lower mx d d' \<Longrightarrow> reaches lower mx d0 d'"
  by (simp add: reaches_def)

lemma reaches_inv: "reaches lower mx d d' \<Longrightarrow> daemon_inv mx d \<Longrightarrow> daemon_inv mx d'"
  unfolding reaches_def by (induction rule: rtranclp_induct) (auto intro: dstep_keeps)

lemma keeps_block: "(\<And>d. dstep lower mx d (snd (m d))) \<Longrightarrow> keeps (reaches lower mx d0) m"
  by (simp add: keeps_def reaches_step)

lemma block_call: "plain_call c \<Longrightarrow> (\<And>s. snd (m s) = snd (apply_call lower c s)) \<Longrightarrow> keeps (reaches lower mx d0) (on_db m)"
  using dstep.call [of c lower mx] by (intro keeps_block) (simp add: on_db_snd)

lemma keeps_outward: "changes_only_effects m \<Longrightarrow> keeps (reaches lower mx d0) m"
  by (intro keeps_block dstep.outward) (simp_all add: changes_only_effects_def)

lemma keeps_effect_steps:
  "keeps (reaches lower mx d0) (emit ev)" "keeps (reaches lower mx d0) (emit_changed re c k)"
  "keeps (reaches lower mx d0) (emit_changed_board re b c k)" "keeps (reaches lower mx d0) (emit_run_ended j i out)"
  "keeps (reaches lower mx d0) wake_dispatch" "keeps (reaches lower mx d0) (notify e title body)"
  "keeps (reaches lower mx d0) (refresh_watch e)" "keeps (reaches lower mx d0) (effectT x)"
  by (rule keeps_outward, rule outward_effects)+

lemma keeps_block_steps:
  "keeps (reaches lower mx d0) (finalize_section e i out summary extra tr at)"
  "keeps (reaches lower mx d0) (cancel_queued_section c)"
  "keeps (reaches lower mx d0) (set_chain_hops c None)"
  "keeps (reaches lower mx d0) (signal_section e i c sig g)"
  "keeps (reaches lower mx d0) (drop_active i)"
  by (rule keeps_block, rule dstep.intros)+

lemma keeps_call_steps:
  "keeps (reaches lower mx d0) (on_db (move_card i c p))"
  "keeps (reaches lower mx d0) (on_db (transfer_card i b c p))"
  "keeps (reaches lower mx d0) (on_db (create_card kp))"
  "keeps (reaches lower mx d0) (on_db (create_card_and_enqueue kp er))"
  "keeps (reaches lower mx d0) (on_db (duplicate_card i))"
  "keeps (reaches lower mx d0) (on_db (move_card_and_enqueue i c p er))"
  "keeps (reaches lower mx d0) (on_db (transfer_card_and_enqueue i b c p er))"
  "keeps (reaches lower mx d0) (on_db (set_card_archived i a))"
  "keeps (reaches lower mx d0) (on_db (add_comment i author body))"
  "keeps (reaches lower mx d0) (on_db (update_comment i body))"
  "keeps (reaches lower mx d0) (on_db (soft_delete_comment i))"
  "keeps (reaches lower mx d0) (on_db (Store_Runs.enqueue_run er))"
  "keeps (reaches lower mx d0) (on_db (create_column cp))"
  "keeps (reaches lower mx d0) (on_db (update_column u))"
  "keeps (reaches lower mx d0) (on_db (reorder_column i pos))"
  "keeps (reaches lower mx d0) (on_db (delete_column i q))"
  "keeps (reaches lower mx d0) (on_db (apply_template_columns b specs ws))"
  "keeps (reaches lower mx d0) (on_db (open_board sc))"
  "keeps (reaches lower mx d0) (on_db (create_project_context sc))"
  "keeps (reaches lower mx d0) (on_db (open_project_context sc))"
  "keeps (reaches lower mx d0) (on_db (select_project_by_scope sc bo))"
  "keeps (reaches lower mx d0) (on_db (select_board i))"
  "keeps (reaches lower mx d0) (on_db (create_board pj name))"
  "keeps (reaches lower mx d0) (on_db (rename_board i name))"
  "keeps (reaches lower mx d0) (on_db (set_board_archived lower i a))"
  "keeps (reaches lower mx d0) (on_db (set_project_archived lower sc a))"
  by (rule block_call [where c = "MoveCard i c p"] block_call [where c = "TransferCard i b c p"] block_call [where c = "CreateCard kp"]
      block_call [where c = "CreateCardEnqueue kp er"] block_call [where c = "DuplicateCard i"]
      block_call [where c = "MoveCardEnqueue i c p er"] block_call [where c = "TransferCardEnqueue i b c p er"]
      block_call [where c = "ArchiveCard i a"] block_call [where c = "AddComment i author body"]
      block_call [where c = "UpdateComment i body"] block_call [where c = "DeleteComment i"]
      block_call [where c = "EnqueueRun er"] block_call [where c = "CreateColumn cp"]
      block_call [where c = "UpdateColumn u"] block_call [where c = "ReorderColumn i pos"]
      block_call [where c = "DeleteColumn i q"] block_call [where c = "ApplyTemplate b specs ws"]
      block_call [where c = "OpenBoard sc"] block_call [where c = "CreateProject sc"]
      block_call [where c = "OpenProject sc"] block_call [where c = "SelectProject sc bo"]
      block_call [where c = "SelectBoard i"] block_call [where c = "CreateBoard pj name"]
      block_call [where c = "RenameBoard i name"] block_call [where c = "ArchiveBoard i a"]
      block_call [where c = "ArchiveProject sc a"]; simp add: snd_void; fail)+

section \<open>Reads\<close>

lemma keeps_read: "(\<And>P. keeps P m) \<Longrightarrow> keeps Q (on_db m)"
proof -
  assume k: "\<And>P. keeps P m"
  have "snd (m s) = s" for s using k [of "\<lambda>t. t = s"] by (simp add: keeps_def)
  then show ?thesis by (simp add: keeps_def on_db_snd)
qed

lemma keeps_ask [tx_keeps]: "keeps P (ask f)"
  by (simp add: ask_def keeps_simple)

lemma keeps_validT [tx_keeps]: "keeps P (validT v)"
  by (simp add: validT_def keeps_simple)

lemma keeps_case_prod [tx_keeps]: "(\<And>a b. x = (a, b) \<Longrightarrow> keeps P (f a b)) \<Longrightarrow> keeps P (case x of (a, b) \<Rightarrow> f a b)"
  by (cases x) simp

lemma keeps_case_sum [tx_keeps]:
  "(\<And>a. x = Inl a \<Longrightarrow> keeps P (f a)) \<Longrightarrow> (\<And>b. x = Inr b \<Longrightarrow> keeps P (g b)) \<Longrightarrow> keeps P (case x of Inl a \<Rightarrow> f a | Inr b \<Rightarrow> g b)"
  by (cases x) simp_all

lemma keeps_context_reads: "keeps P (project_context_board i)" "keeps P (require_project_by_scope sc)"
  using readonly_context_board by (simp_all add: keeps_readonly require_project_by_scope_def)

lemma keeps_pending: "keeps P (pending_create_card p)" "keeps P (no_active_run c k)" "keeps P (require_comment i)"
  unfolding pending_create_card_def no_active_run_def require_comment_def Let_def
  by (intro tx_keeps keeps_default_column)+

lemma keeps_db_reads:
  "keeps P (on_db (require_card i))" "keeps P (on_db (require_column i))" "keeps P (on_db (get_board i))"
  "keeps P (on_db (get_project i))" "keeps P (on_db (get_run i))" "keeps P (on_db (require_comment i))"
  "keeps P (on_db (project_context_board i))" "keeps P (on_db (require_project_by_scope sc))"
  "keeps P (on_db (pending_create_card p))" "keeps P (on_db (no_active_run i k))"
  by (rule keeps_read, rule tx_keeps keeps_context_reads keeps_pending)+

lemma keeps_require_restored: "keeps P (require_restored i)"
  unfolding require_restored_def by (intro tx_keeps keeps_db_reads)

lemma keeps_db_if: "keeps P (on_db m) \<Longrightarrow> keeps P (on_db k) \<Longrightarrow> keeps P (on_db (if b then m else k))"
  by simp

section \<open>Handlers\<close>

lemmas handler_rules = tx_keeps keeps_db_reads keeps_require_restored keeps_effect_steps keeps_block_steps keeps_call_steps keeps_db_if

lemma finalize_steps:
  "keeps (reaches lower mx d0) (finalize_run_inner e i out summary extra kill tr at)"
  "keeps (reaches lower mx d0) (dispatch_finalize_run e i out summary extra kill tr)"
  "keeps (reaches lower mx d0) (finalize_run_timeout e i now out summary extra kill tr)"
proof -
  show f: "keeps (reaches lower mx d0) (finalize_run_inner e i out summary extra kill tr at)" for at
  proof -
    have "keeps (reaches lower mx d0) (case res of Already r c \<Rightarrow> returnT (Some (r, c)) | NotDue \<Rightarrow> returnT None
        | Finalized removed fx note \<Rightarrow>
         thenT (refresh_watch e)
         (thenT (case removed of None \<Rightarrow> returnT () | Some a \<Rightarrow> if kill then effectT (Kill (ar_handle a)) else returnT ())
         (thenT (case note of None \<Rightarrow> returnT () | Some (title, body) \<Rightarrow> notify e title (Some body))
         (thenT (emit_run_ended (cd_id (fe_card fx)) i out)
         (thenT wake_dispatch
         (returnT (Some (fe_finished_run fx, fe_card fx))))))))" for res
      by (cases res) (simp_all, (intro handler_rules)+)
    then show ?thesis unfolding finalize_run_inner_def by (intro handler_rules)
  qed
  show "keeps (reaches lower mx d0) (dispatch_finalize_run e i out summary extra kill tr)"
    "keeps (reaches lower mx d0) (finalize_run_timeout e i now out summary extra kill tr)"
    unfolding dispatch_finalize_run_def finalize_run_timeout_def by (intro handler_rules f)+
qed

lemma board_handlers:
  "keeps (reaches lower mx d0) (board_snapshot_of e i)"
  "keeps (reaches lower mx d0) (op_board_open e sc)" "keeps (reaches lower mx d0) (op_board_rename i n)"
  "keeps (reaches lower mx d0) (op_board_create e pj n)" "keeps (reaches lower mx d0) (op_board_select e i)"
  "keeps (reaches lower mx d0) (op_board_archive lower i a)" "keeps (reaches lower mx d0) (op_board_get e bi)"
  "keeps (reaches lower mx d0) (op_project_archive lower sc a)" "keeps (reaches lower mx d0) (op_project_open e sc)"
  "keeps (reaches lower mx d0) (op_project_create e dir sc)" "keeps (reaches lower mx d0) (op_project_select e sc bi)"
  "keeps (reaches lower mx d0) (op_project_selected e)" "keeps (reaches lower mx d0) daemon_counts"
  unfolding board_snapshot_of_def op_board_open_def op_board_rename_def op_board_create_def op_board_select_def
    op_board_archive_def op_board_get_def op_project_archive_def op_project_open_def op_project_create_def
    op_project_select_def op_project_selected_def daemon_counts_def project_open_result_def case_prod_beta Let_def
  by (intro handler_rules)+

lemma column_handlers:
  "keeps (reaches lower mx d0) (column_create e cp)" "keeps (reaches lower mx d0) (column_update e u)"
  "keeps (reaches lower mx d0) (column_reorder i pos)" "keeps (reaches lower mx d0) (column_delete i q)"
  "keeps (reaches lower mx d0) (template_apply n b)"
  unfolding column_create_def column_update_def column_reorder_def column_delete_def template_apply_def case_prod_beta Let_def
  by (intro handler_rules)+

lemma comment_handlers:
  "keeps (reaches lower mx d0) (comment_add ca)" "keeps (reaches lower mx d0) (comment_get i)"
  "keeps (reaches lower mx d0) (comment_update i b ac)" "keeps (reaches lower mx d0) (comment_delete i ac)"
  "keeps (reaches lower mx d0) (op_comment_history i)"
  unfolding comment_add_def comment_get_def comment_update_def comment_delete_def op_comment_history_def comment_for_mutation_def
    comment_author_def stated_author_def require_agent_run_def
  by (intro handler_rules)+

lemma card_handlers:
  "keeps (reaches lower mx d0) (card_create e p)" "keeps (reaches lower mx d0) (card_duplicate e i)"
  "keeps (reaches lower mx d0) (card_archive e i a)" "keeps (reaches lower mx d0) (card_move e mv)"
  "keeps (reaches lower mx d0) (card_get e i)" "keeps (reaches lower mx d0) (card_list e b c v)"
  unfolding card_create_def card_duplicate_def card_archive_def card_move_def card_get_def card_list_def
    card_create_section_def place_moved_def transfer_checks_def case_prod_beta Let_def
  by (intro handler_rules)+

lemma run_handlers:
  "keeps (reaches lower mx d0) (run_done e p)" "keeps (reaches lower mx d0) (run_pane_exited e c r)"
  "keeps (reaches lower mx d0) (run_cancel e c)" "keeps (reaches lower mx d0) (run_retry e c)"
proof -
  have plan: "keeps (reaches lower mx d0) (lifecycle_plan c r k s a)" for c r k s a
    by (cases "decide_lifecycle (run_lifecycle_facts r k s) a") (simp_all add: lifecycle_plan_def keeps_simple)
  show "keeps (reaches lower mx d0) (run_done e p)" "keeps (reaches lower mx d0) (run_pane_exited e c r)"
    "keeps (reaches lower mx d0) (run_cancel e c)" "keeps (reaches lower mx d0) (run_retry e c)"
    unfolding run_done_def run_pane_exited_def run_cancel_def run_retry_def run_done_plan_def retry_section_def
      dispatch_enqueue_run_def case_prod_beta Let_def
    by (intro handler_rules finalize_steps plan)+
qed

lemma reaches_then:
  assumes "\<And>x. keeps (reaches lower mx d0) (k x)" and "reaches lower mx d0 (snd (m d))"
  shows "reaches lower mx d0 (snd (bindT m k d))"
  using assms by (auto simp: bindT_def keeps_def split: prod.splits sum.splits)

lemma wp_const: "wp m (\<lambda>_. R) (\<lambda>_. R) d = R (snd (m d))"
  by (simp add: wp_def split: prod.splits sum.splits)

lemma card_update_steps: "keeps (reaches lower mx d0) (card_update e p)"
  unfolding keeps_wp
proof (intro allI impI)
  fix d assume d: "reaches lower mx d0 d"
  define tail where "tail = bindT (on_db (update_card p)) (\<lambda>u.
       thenT (emit_changed CardUpdated (Some (cd_id u)) None) (returnT (stamp_card_labels e u)))"
  have t: "wp tail (\<lambda>_. reaches lower mx d0) (\<lambda>_. reaches lower mx d0) d"
    if "edits_locked p \<longrightarrow> find_open_run (dm_db d) (ku_id p) = None"
    unfolding wp_const tail_def using reaches_step [OF d dstep.edit [OF that]]
    by (intro reaches_then) (intro handler_rules)
  show "wp (card_update e p) (\<lambda>_. reaches lower mx d0) (\<lambda>_. reaches lower mx d0) d"
    unfolding card_update_def tail_def [symmetric] validT_def Let_def
    by (simp add: wp_bind wp_then wp_basic wp_ask wp_on_db wp_lookups d t split: option.splits sum.splits)
qed

lemma card_delete_steps:
  assumes d: "reaches lower mx d0 d" and i: "i \<notin> (rn_card_id \<circ> fst) ` set (dm_claims d)"
  shows "reaches lower mx d0 (snd (card_delete i d))"
proof -
  define tail where "tail = thenT (on_db (delete_card i)) (thenT (emit_changed CardDeleted (Some i) None) (returnT True))"
  have t: "wp tail (\<lambda>_. reaches lower mx d0) (\<lambda>_. reaches lower mx d0) d" if "find_open_run (dm_db d) i = None"
    unfolding wp_const tail_def thenT_def [of "on_db m" for m]
    using reaches_step [OF d dstep.delete [OF that i]] by (intro reaches_then) (intro handler_rules)
  have "wp (card_delete i) (\<lambda>_. reaches lower mx d0) (\<lambda>_. reaches lower mx d0) d"
    unfolding card_delete_def tail_def [symmetric]
    by (simp add: wp_bind wp_then wp_basic wp_ask wp_on_db wp_lookups d t split: option.splits)
  then show ?thesis unfolding wp_const .
qed

section \<open>Background work\<close>

lemma keeps_attempt: "keeps P m \<Longrightarrow> keeps P (attempt m)"
  by (simp add: keeps_def attempt_def)

lemma finalize_exited_steps: "keeps (reaches lower mx d0) (finalize_exited e i msg)"
  unfolding finalize_exited_def by (intro keeps_attempt finalize_steps)

lemma signal_steps:
  "keeps (reaches lower mx d0) (apply_signal e i c sig)" "keeps (reaches lower mx d0) (apply_idle_expired e i c t now)"
  unfolding apply_signal_def apply_idle_expired_def apply_signal_guarded_def by (intro handler_rules)+

lemma idle_steps: "keeps (reaches lower mx d0) (clear_idle i)" "keeps (reaches lower mx d0) (arm_idle e i)"
proof -
  have track: "reaches lower mx d0 (snd (put_active i b d))"
    if "reaches lower mx d0 d" "find_active d i = Some a" "ar_card_id b = ar_card_id a" for a b d
    using reaches_step [OF that(1) dstep.track [OF that(2,3)]] .
  show "keeps (reaches lower mx d0) (clear_idle i)" "keeps (reaches lower mx d0) (arm_idle e i)"
    unfolding keeps_def
    by (auto simp: clear_idle_def arm_idle_def bindT_def readT_def returnT_def split: option.splits intro: track)
qed

lemma event_steps: "keeps (reaches lower mx d0) (handle_event_from_socket e sock ev)"
proof (cases ev)
  case (AgentStatusChanged pane status)
  then show ?thesis
    by (cases status) (simp_all add: handle_event_from_socket_def, (intro handler_rules signal_steps idle_steps)+)
next
  case (PaneExited pane)
  then show ?thesis by (simp add: handle_event_from_socket_def) (intro handler_rules finalize_exited_steps)
qed (simp add: handle_event_from_socket_def keeps_simple)

lemma watch_steps:
  "keeps (reaches lower mx d0) (reconcile_socket e sock watched view)"
  "keeps (reaches lower mx d0) (check_at e now)"
  "keeps (reaches lower mx d0) (poll_local e alive)"
  unfolding reconcile_socket_def check_at_def poll_local_def apply_candidate_def case_prod_beta
  by (intro handler_rules event_steps signal_steps finalize_steps keeps_attempt finalize_exited_steps)+

lemma same_open_run_running:
  assumes "same_open_run s r j = Some r'"
  shows "running (rn_id r) j s"
proof -
  have "find_run s (rn_id r) = Some r'" "rn_started_at r' \<noteq> None" "rn_ended_at r' = None"
    and c: "\<exists>c. find_card s j = Some c \<and> cd_id c = rn_card_id r'"
    using assms by (auto simp: same_open_run_def split: option.splits if_splits)
  then have "r' \<in> set (db_runs s) \<and> rn_id r' = rn_id r" by (simp add: find_run_def lookup_Some)
  moreover have "rn_card_id r' = j" using c by (auto simp: find_card_def dest: lookup_Some)
  ultimately show ?thesis
    using \<open>rn_started_at r' \<noteq> None\<close> \<open>rn_ended_at r' = None\<close> by (auto simp: running_def active_open_def open_run_def)
qed

lemma adopt_steps: "keeps (reaches lower mx d0) (adopt_alive e r c target status)"
  unfolding keeps_def
proof (intro allI impI)
  fix d assume d: "reaches lower mx d0 d"
  have cur: "reaches lower mx d0 (snd (adopt_current e r c r' socket status d))"
    if r': "same_open_run (dm_db d) r (cd_id c) = Some r'" for r' socket
  proof -
    have "reaches lower mx d0 (snd (put_active (rn_id r) (adopted e r' c socket) d))"
      by (rule reaches_step [OF d dstep.adopt]) (use same_open_run_running [OF r'] in \<open>simp add: adopted_def\<close>)
    moreover have "keeps (reaches lower mx d0) (thenT (refresh_watch e)
       (case status_signal status of None \<Rightarrow> returnT () | Some sig \<Rightarrow> apply_signal e (rn_id r) (cd_id c) sig))"
      by (intro handler_rules signal_steps)
    ultimately show ?thesis
      using d by (auto simp: adopt_current_def bindT_def readT_def returnT_def then_put keeps_def)
  qed
  show "reaches lower mx d0 (snd (adopt_alive e r c target status d))"
    using d cur by (auto simp: adopt_alive_def bindT_def ask_def readT_def returnT_def split: option.splits session_target.splits)
qed

lemma reconcile_steps: "keeps (reaches lower mx d0) (reconcile_once e view)"
proof -
  have "keeps (reaches lower mx d0) (apply_observation e r c target probe)" for r c target probe
    by (cases probe) (simp_all add: apply_observation_def keeps_simple adopt_steps,
        (intro handler_rules finalize_exited_steps)?)
  then show ?thesis unfolding reconcile_once_def case_prod_beta Let_def by (intro handler_rules)
qed

subsection \<open>Adoption at start-up\<close>

lemma effects_keep_db: "changes_only_effects m \<Longrightarrow> keeps (\<lambda>d. dm_db d = X) m"
  by (simp add: changes_only_effects_def keeps_def)

lemma finalize_exited_db:
  assumes ok: "db_ok (dm_db d)"
  shows "dm_db (snd (finalize_exited e i msg d)) = dm_db d \<or>
    (\<exists>p fx. fz_run_id p = i \<and> finalize_run_uow p (dm_db d) = (Inr fx, dm_db (snd (finalize_exited e i msg d))))"
proof -
  let ?R = "\<lambda>s. s = dm_db d \<or> (\<exists>p fx. fz_run_id p = i \<and> finalize_run_uow p (dm_db d) = (Inr fx, s))"
  let ?sec = "finalize_section e i OutcomeFail (Some msg) (Some msg) False None"
  obtain x d1 where x: "?sec d = (x, d1)" by fastforce
  have "wp ?sec (\<lambda>_ d'. ?R (dm_db d')) (\<lambda>_ d'. ?R (dm_db d')) d"
    by (rule wp_mono [OF finalize_section_ends [OF ok]])
       (auto simp: ends_run_def set_chain_hops_def drop_active_def modifyT_def)
  then have 1: "?R (dm_db d1)" using wp_snd [of ?sec "\<lambda>d'. ?R (dm_db d')" d] x by simp
  have tail: "keeps (\<lambda>d. dm_db d = dm_db d1) (case res of Already r c \<Rightarrow> returnT (Some (r, c)) | NotDue \<Rightarrow> returnT None
        | Finalized removed fx note \<Rightarrow>
         thenT (refresh_watch e)
         (thenT (case removed of None \<Rightarrow> returnT () | Some a \<Rightarrow> if False then effectT (Kill (ar_handle a)) else returnT ())
         (thenT (case note of None \<Rightarrow> returnT () | Some (title, body) \<Rightarrow> notify e title (Some body))
         (thenT (emit_run_ended (cd_id (fe_card fx)) i OutcomeFail)
         (thenT wake_dispatch
         (returnT (Some (fe_finished_run fx, fe_card fx))))))))" for res
    by (cases res) (simp_all add: keeps_simple, (intro tx_keeps effects_keep_db outward_effects)?)
  have "dm_db (snd (finalize_run_inner e i OutcomeFail (Some msg) (Some msg) False False None d)) = dm_db d1"
    using tail x by (cases x) (simp_all add: finalize_run_inner_def bindT_def keeps_def)
  then have "dm_db (snd (finalize_exited e i msg d)) = dm_db d1"
    by (auto simp: finalize_exited_def attempt_def dispatch_finalize_run_def bindT_def queryT_def split: prod.splits sum.splits)
  with 1 show ?thesis by simp
qed

lemma finalize_exited_ok:
  assumes ok: "db_ok (dm_db d)"
  shows "db_ok (dm_db (snd (finalize_exited e i msg d)))"
proof -
  consider "dm_db (snd (finalize_exited e i msg d)) = dm_db d"
    | p fx where "fz_run_id p = i" "finalize_run_uow p (dm_db d) = (Inr fx, dm_db (snd (finalize_exited e i msg d)))"
    using finalize_exited_db [OF ok] by blast
  then show ?thesis
  proof cases
    case 2
    have "db_ok (snd (apply_call (\<lambda>x. x) (FinalizeRun p) (dm_db d)))" using call_keeps_ok ok unfolding keeps_def by blast
    then show ?thesis using 2(2) by (simp add: snd_void)
  qed (use ok in simp)
qed

lemma finalize_exited_others:
  assumes ok: "db_ok (dm_db d)" and r: "running j c (dm_db d)" "j \<noteq> i"
  shows "running j c (dm_db (snd (finalize_exited e i msg d)))"
  using finalize_exited_db [OF ok, of e i msg] finalize_keeps_running [OF db_ok_board [OF ok] r(1)] r
  by (metis snd_conv)

lemma adopt_loop:
  assumes "reaches lower mx d0 d" and "db_ok (dm_db d)" and "distinct (map (rn_id \<circ> fst) rows)"
    and "\<And>r c. (r, c) \<in> set rows \<Longrightarrow> running (rn_id r) (cd_id c) (dm_db d)"
  shows "reaches lower mx d0 (snd (forT rows (\<lambda>(r, c).
         if rn_herdr_pane_id r \<noteq> None \<and> alive r
         then thenT (put_active (rn_id r) (adopted e r c (adopt_socket e (rn_session r)))) (refresh_watch e)
         else finalize_exited e (rn_id r) lost_msg) d))"
  using assms
proof (induction rows arbitrary: d)
  case (Cons rc rows)
  obtain r c where rc: "rc = (r, c)" by fastforce
  let ?body = "\<lambda>(r, c). if rn_herdr_pane_id r \<noteq> None \<and> alive r
         then thenT (put_active (rn_id r) (adopted e r c (adopt_socket e (rn_session r)))) (refresh_watch e)
         else finalize_exited e (rn_id r) lost_msg"
  have step: "reaches lower mx d0 (snd (?body rc d))"
  proof (cases "rn_herdr_pane_id r \<noteq> None \<and> alive r")
    case True
    have "reaches lower mx d0 (snd (put_active (rn_id r) (adopted e r c (adopt_socket e (rn_session r))) d))"
      by (rule reaches_step [OF Cons.prems(1) dstep.adopt]) (use Cons.prems(4) in \<open>simp add: adopted_def rc\<close>)
    then show ?thesis using True keeps_effect_steps(7) [of lower mx d0 e] by (simp add: rc then_put keeps_def)
  next
    case False
    then show ?thesis
      using finalize_exited_steps [of lower mx d0 e "rn_id r" lost_msg] Cons.prems(1) by (auto simp: rc keeps_def)
  qed
  have ok: "db_ok (dm_db (snd (?body rc d)))"
    and run: "\<And>r' c'. (r', c') \<in> set rows \<Longrightarrow> running (rn_id r') (cd_id c') (dm_db (snd (?body rc d)))"
  proof -
    have same: "dm_db (snd (?body rc d)) = dm_db d" if "rn_herdr_pane_id r \<noteq> None \<and> alive r"
      using that by (simp add: rc then_put) (simp add: refresh_watch_def modifyT_def put_active_def Let_def)
    have gone: "snd (?body rc d) = snd (finalize_exited e (rn_id r) lost_msg d)" if "\<not> (rn_herdr_pane_id r \<noteq> None \<and> alive r)"
      unfolding rc using that by auto
    have here: "running (rn_id r) (cd_id c) (dm_db d)" using Cons.prems(4) rc by simp
    show "db_ok (dm_db (snd (?body rc d)))"
    proof (cases "rn_herdr_pane_id r \<noteq> None \<and> alive r")
      case True then show ?thesis unfolding same [OF True] by (rule_tac Cons.prems(2))
    next
      case False
      show ?thesis unfolding gone [OF False] by (rule finalize_exited_ok [OF Cons.prems(2)])
    qed
    fix r' c' assume r': "(r', c') \<in> set rows"
    then have ne: "rn_id r' \<noteq> rn_id r" using Cons.prems(3) rc by force
    have there: "running (rn_id r') (cd_id c') (dm_db d)" using Cons.prems(4) r' by simp
    show "running (rn_id r') (cd_id c') (dm_db (snd (?body rc d)))"
    proof (cases "rn_herdr_pane_id r \<noteq> None \<and> alive r")
      case True then show ?thesis unfolding same [OF True] by (rule_tac there)
    next
      case False
      show ?thesis unfolding gone [OF False] by (rule finalize_exited_others [OF Cons.prems(2) there ne])
    qed
  qed
  have "reaches lower mx d0 (snd (forT rows ?body (snd (?body rc d))))"
    by (rule Cons.IH [OF step ok]) (use Cons.prems(3) run in simp_all)
  then show ?case
    using step by (auto simp: thenT_def bindT_def split: prod.splits sum.splits)
qed (simp add: returnT_def)

lemma adopt_runs_steps:
  assumes "db_ok (dm_db d)"
  shows "reaches lower mx d (snd (adopt_runs e alive d))"
proof -
  have d: "reaches lower mx d d" by (simp add: reaches_def)
  note sch = db_ok_schema [OF assms]
  obtain rows where rows: "active_runs_with_cards (dm_db d) = Inr rows"
    using open_runs_with_cards_total [OF sch] unfolding active_runs_with_cards_def by blast
  note A = open_runs_with_cards_Inr [OF sch rows [unfolded active_runs_with_cards_def]]
  have "distinct (map (rn_id \<circ> fst) rows)"
    unfolding A(1) using schema_okD(4) [OF sch] by (simp add: distinct_map inj_on_def)
  moreover have "running (rn_id r) (cd_id c) (dm_db d)" if "(r, c) \<in> set rows" for r c
    using A(2) that find_card_Some [OF sch] by (force simp: running_def)
  ultimately show ?thesis
    unfolding adopt_runs_def using adopt_loop [OF d assms, of rows alive e] rows
    by (simp add: bindT_def ask_def readT_def)
qed

section \<open>Every request is a sequence of blocks\<close>

definition claimed_cards :: "daemon \<Rightarrow> int set" where
  "claimed_cards d = (rn_card_id \<circ> fst) ` set (dm_claims d)"

lemma request_steps:
  assumes "\<And>i. rq = CardDelete i \<Longrightarrow> i \<notin> claimed_cards d"
  shows "reaches lower mx d (snd (handle_request lower dir e rq d))"
proof -
  have d: "reaches lower mx d d" by (simp add: reaches_def)
  have dis: "snd (discard m d) = snd (m d)" for m :: "'a op"
    by (simp add: discard_def thenT_def bindT_def returnT_def split: prod.splits sum.splits)
  show ?thesis
  proof (cases "\<exists>i. rq = CardDelete i")
    case True
    then show ?thesis using card_delete_steps [OF d] assms by (auto simp: dis claimed_cards_def)
  next
    case False
    then have "keeps (reaches lower mx d) (handle_request lower dir e rq)"
      by (cases rq; simp only: handle_request.simps discard_def;
          (intro keeps_then tx_keeps board_handlers column_handlers comment_handlers card_handlers run_handlers card_update_steps)?)
         blast
    then show ?thesis using d by (simp add: keeps_def)
  qed
qed

section \<open>Reachable daemons\<close>

definition idle_daemon :: "db \<Rightarrow> daemon" where
  \<comment> \<open>\<open>Daemon::new\<close>: nothing is remembered but the database\<close>
  "idle_daemon s =
     \<lparr>dm_db = s, dm_sched = \<lparr>sc_active = [], sc_chain_hops = []\<rparr>,
      dm_watch = \<lparr>wt_panes_by_socket = [], wt_generation = 0\<rparr>, dm_effects = [], dm_claims = []\<rparr>"

inductive dreach :: "(string \<Rightarrow> string) \<Rightarrow> nat \<Rightarrow> daemon \<Rightarrow> bool" for lower :: "string \<Rightarrow> string" and mx :: nat where
  boot: "dreach lower mx (idle_daemon (fresh_db now))"
| step: "dreach lower mx d \<Longrightarrow> dstep lower mx d d' \<Longrightarrow> dreach lower mx d'"
| tick: "dreach lower mx d \<Longrightarrow> dreach lower mx (d\<lparr>dm_db := (dm_db d)\<lparr>db_now := now, db_fault := f\<rparr>\<rparr>)"
| restart: "dreach lower mx d \<Longrightarrow> dreach lower mx (idle_daemon (dm_db d))"

lemma tick_frame:
  "running i j (s\<lparr>db_now := now, db_fault := f\<rparr>) = running i j s"
  "in_space j k (s\<lparr>db_now := now, db_fault := f\<rparr>) = in_space j k s"
  "started_ids (s\<lparr>db_now := now, db_fault := f\<rparr>) = started_ids s"
  by (simp_all add: running_def in_space_def started_ids_def)

lemma dreach_inv: "dreach lower mx d \<Longrightarrow> daemon_inv mx d"
proof (induction rule: dreach.induct)
  case (boot now)
  have none: "\<not> running i j (fresh_db now)" for i j by (simp add: running_def fresh_db_def)
  then have "started_ids (fresh_db now) = {}" by (simp add: started_ids_def)
  then show ?case
    using fresh_ok none by (simp add: daemon_inv_def idle_daemon_def sched_ok_def occupancy_def)
next
  case (step d d') then show ?case using dstep_keeps by blast
next
  case (tick d now f)
  then show ?case
    by (simp add: daemon_inv_db db_ok_tick sched_ok_def occupancy_def tick_frame)
       (simp add: daemon_inv_def sched_ok_def occupancy_def)
next
  case (restart d)
  then obtain \<sigma> where "db_ok (dm_db d)" "occupancy mx \<sigma> (dm_db d) (dm_claims d)" by (auto simp: daemon_inv_def)
  with occupancy_fewer [OF this(2), of "[]" "\<lambda>_. False"] show ?case
    by (auto simp: daemon_inv_def idle_daemon_def sched_ok_def)
qed

lemma dreach_reaches: "dreach lower mx d \<Longrightarrow> reaches lower mx d d' \<Longrightarrow> dreach lower mx d'"
  unfolding reaches_def by (rotate_tac, induction rule: rtranclp_induct) (auto intro: dreach.step)

end
