(* ===== verification/Daemon_Properties.thy ===== *)
theory Daemon_Properties
  imports Daemon_Machine Sample_Store
begin

text \<open>
  The properties of the daemon, each with a witness on a concrete daemon: two cards are queued, a pass has
  claimed the first, its launch has answered.
\<close>

section \<open>A concrete daemon\<close>

definition sample_env :: env where
  "sample_env =
     \<lparr>en_config = default_config, en_timeout_unit_secs = 60, en_now = 1000, en_instant_min = 0, en_instant_max = 10 ^ 18,
      en_wall_now_ms = 5000, en_uuid = ''u9'', en_agy_models = None, en_argv_json = (\<lambda>_. ''[]''),
      en_parse_argv = (\<lambda>_. None), en_agent_config = (\<lambda>_ _. []), en_socket_path = ''/run/board.sock'', en_exe = ''board'',
      en_herdr = True, en_default_socket = ''/run/herdr.sock'', en_registry = None, en_space_check = (\<lambda>_ _ _ _. Inr ())\<rparr>"

definition sample_handle :: runtime_handle where
  "sample_handle =
     \<lparr>rh_pane_id = Some ''p1'', rh_workspace_id = Some ''w1'', rh_anchor_pane_id = None, rh_pid = None,
      rh_herdr_socket = None, rh_captured_session_id = None\<rparr>"

definition sample_queue :: "store_call list" where
  \<comment> \<open>cards 1 and 2 share a space, card 3 has one of its own; each has a queued run\<close>
  "sample_queue =
     [CreateCard sample_new_card, CreateCard sample_new_card, CreateCard (sample_new_card\<lparr>kc_space_ref := Some ''w2''\<rparr>),
      EnqueueRun (sample_new_run 1 1), EnqueueRun (sample_new_run 2 1), EnqueueRun (sample_new_run 3 1)]"

definition sample_idle :: daemon where
  "sample_idle = idle_daemon (run_calls id sample_queue (fresh_db ''t0''))"

definition sample_pass :: daemon where
  "sample_pass = snd (begin_dispatch_pass sample_env sample_idle)"

definition launch_next :: "env \<Rightarrow> spawn_result \<Rightarrow> daemon \<Rightarrow> daemon" where
  "launch_next e res d =
     (case dm_claims d of [] \<Rightarrow> d
      | (r, c) # _ \<Rightarrow> snd (complete_launch e r c (sample_column 1 1 ''Todo'' 0 None) res d))"

definition sample_running :: daemon where
  "sample_running = launch_next sample_env (Spawned sample_handle) sample_pass"

lemma dreach_calls:
  "list_all plain_call cs \<Longrightarrow> dreach lower mx (idle_daemon s) \<Longrightarrow> dreach lower mx (idle_daemon (run_calls lower cs s))"
proof (induction cs arbitrary: s)
  case (Cons c cs)
  have "dreach lower mx (snd (on_db (apply_call lower c) (idle_daemon s)))"
    by (rule dreach.step [OF Cons.prems(2) dstep.call]) (use Cons.prems(1) in simp)
  moreover have "snd (on_db (apply_call lower c) (idle_daemon s)) = idle_daemon (snd (apply_call lower c s))"
    by (simp add: on_db_snd idle_daemon_def)
  ultimately show ?case using Cons by simp
qed simp

lemma launch_next_reach: "dreach lower mx d \<Longrightarrow> dreach lower mx (launch_next e res d)"
  by (auto simp: launch_next_def intro!: dreach.step [OF _ dstep.launch] split: list.splits)

lemma sample_reach: "dreach id 3 sample_idle" "dreach id 3 sample_pass" "dreach id 3 sample_running"
proof -
  show i: "dreach id 3 sample_idle"
    unfolding sample_idle_def by (rule dreach_calls [OF _ dreach.boot]) code_simp
  have "max_concurrent sample_env = 3" by code_simp
  then show p: "dreach id 3 sample_pass" unfolding sample_pass_def using dreach.step [OF i dstep.pass] by simp
  show "dreach id 3 sample_running" unfolding sample_running_def by (rule launch_next_reach [OF p])
qed

section \<open>Concurrency\<close>



text \<open>
  C11: Nothing escapes the blocks. Every request, Herdr event, timeout tick, liveness poll,
  reconciliation and start-up adoption on a reachable daemon, whatever its parameters, environment and
  outcome, only takes steps of \<open>dstep\<close> and so ends in a reachable daemon. The one request left out is
  \<open>card.delete\<close> of a card whose run a pass has claimed (see \<open>recycled_run_is_promoted\<close>).
\<close>

theorem requests_are_blocks:
  assumes d: "dreach lower mx d" and del: "\<And>i. rq = CardDelete i \<Longrightarrow> i \<notin> claimed_cards d"
  shows "dreach lower mx (snd (handle_request lower dir e rq d)) \<and>
    dreach lower mx (snd (handle_event_from_socket e sock ev d)) \<and>
    dreach lower mx (snd (reconcile_socket e sock watched view d)) \<and>
    dreach lower mx (snd (check_at e now d)) \<and> dreach lower mx (snd (poll_local e alive d)) \<and>
    dreach lower mx (snd (reconcile_once e snapshots d)) \<and> dreach lower mx (snd (adopt_runs e answers d))"
proof -
  have refl: "reaches lower mx d d" by (simp add: reaches_def)
  have ok: "db_ok (dm_db d)" using dreach_inv [OF d] by (simp add: daemon_inv_def)
  have go: "dreach lower mx (snd (m d))" if "keeps (reaches lower mx d) m" for m :: "unit op"
    using that refl dreach_reaches [OF d] by (simp add: keeps_def)
  show ?thesis
    using dreach_reaches [OF d request_steps [OF del]] dreach_reaches [OF d adopt_runs_steps [OF ok]]
      go [OF event_steps] go [OF watch_steps(1)] go [OF watch_steps(2)] go [OF watch_steps(3)] go [OF reconcile_steps]
    by blast
qed

theorem requests_are_blocks_witness:
  "dreach id 3 (snd (handle_request id (\<lambda>_. Inr ()) sample_env (RunCancel 1) sample_running)) \<and>
   map rn_outcome (db_runs (dm_db (snd (handle_request id (\<lambda>_. Inr ()) sample_env (RunCancel 1) sample_running)))) =
     [Some Cancelled, None, None]"
proof
  show "dreach id 3 (snd (handle_request id (\<lambda>_. Inr ()) sample_env (RunCancel 1) sample_running))"
    by (rule requests_are_blocks [OF sample_reach(3), THEN conjunct1]) simp
  show "map rn_outcome (db_runs (dm_db (snd (handle_request id (\<lambda>_. Inr ()) sample_env (RunCancel 1) sample_running)))) =
     [Some Cancelled, None, None]" by code_simp
qed

section \<open>The pass\<close>

text \<open>
  C5: What a dispatch pass claims on a sound store: only queued runs, each with its card; never more than
  the limit allows beside the started ones; every claim in a space of its own that no started run
  occupies; the oldest queued run of its space; and as many as possible: a queued run that is left out found the
  limit reached, or its space taken by a started run or by a claim.
\<close>

theorem pass_claims_spec:
  assumes ok: "db_ok s"
  shows "let cl = pass_claims e s; started = filter active_open (db_runs s) in
    (\<forall>(r, c) \<in> set cl. r \<in> set (db_runs s) \<and> queued_open r \<and> find_card s (rn_card_id r) = Some c) \<and>
    (length started \<le> max_concurrent e \<longrightarrow> length started + length cl \<le> max_concurrent e) \<and>
    (max_concurrent e \<le> length started \<longrightarrow> cl = []) \<and>
    distinct (map claim_space cl) \<and>
    (\<forall>q \<in> set started. \<forall>c'. find_card s (rn_card_id q) = Some c' \<longrightarrow> space_key_from_card c' \<notin> set (map claim_space cl)) \<and>
    (\<forall>q \<in> set (db_runs s). \<forall>c'. queued_open q \<and> find_card s (rn_card_id q) = Some c' \<longrightarrow>
       (\<forall>(r, c) \<in> set cl. space_key_from_card c' = space_key_from_card c \<longrightarrow> rn_id r \<le> rn_id q) \<and>
       ((q, c') \<in> set cl \<or> max_concurrent e \<le> length started + length cl \<or>
        space_key_from_card c' \<in> set (map claim_space cl) \<or>
        (\<exists>p \<in> set started. \<exists>k. find_card s (rn_card_id p) = Some k \<and> space_key_from_card k = space_key_from_card c')))"
proof -
  define cl where "cl = pass_claims e s"
  define started where "started = filter active_open (db_runs s)"
  note sch = db_ok_schema [OF ok]
  obtain active where act: "open_runs_with_cards active_open s = Inr active" using open_runs_with_cards_total [OF sch] by blast
  obtain queued where que: "open_runs_with_cards queued_open s = Inr queued" using open_runs_with_cards_total [OF sch] by blast
  note A = open_runs_with_cards_Inr [OF sch act] and Q = open_runs_with_cards_Inr [OF sch que]
  define busy where "busy = map (\<lambda>(_, c). space_key_from_card c) active"
  have cl: "cl = claim (max_concurrent e) busy (length active) queued"
    by (simp add: cl_def pass_claims_def active_runs_with_cards_def queued_runs_with_cards_def act que busy_def)
  have n: "length active = length started"
    using arg_cong [OF A(1), of length] by (simp add: started_def)
  have rowA: "\<exists>c. (q, c) \<in> set active" if "q \<in> set started" for q
  proof -
    have "rn_id q \<in> set (map (rn_id \<circ> fst) active)" using that unfolding A(1) by (simp add: started_def)
    then obtain p c where pc: "(p, c) \<in> set active" "rn_id p = rn_id q" by auto
    then have "p = q" using A(2) that same_run [OF sch] by (fastforce simp: started_def)
    with pc show ?thesis by blast
  qed
  have rowQ: "(q, c') \<in> set queued" if "q \<in> set (db_runs s)" "queued_open q" "find_card s (rn_card_id q) = Some c'" for q c'
  proof -
    have "rn_id q \<in> set (map (rn_id \<circ> fst) queued)" using that unfolding Q(1) by simp
    then obtain p c where pc: "(p, c) \<in> set queued" "rn_id p = rn_id q" by auto
    then have "p = q" using Q(2) that same_run [OF sch] by fastforce
    with pc that Q(2) show ?thesis by fastforce
  qed
  have sub: "(r, c) \<in> set queued" if "(r, c) \<in> set cl" for r c
    using that claim_subset unfolding cl by blast
  have 1: "\<forall>(r, c) \<in> set cl. r \<in> set (db_runs s) \<and> queued_open r \<and> find_card s (rn_card_id r) = Some c"
    using sub Q(2) by fastforce
  have 2: "length started + length cl \<le> max_concurrent e" if "length started \<le> max_concurrent e"
    using claim_capacity [of "length active" "max_concurrent e" busy queued] that n by (simp add: cl)
  have 3: "cl = []" if "max_concurrent e \<le> length started"
    using that n by (cases queued) (auto simp: cl)
  have 4: "distinct (map claim_space cl)" "set (map claim_space cl) \<inter> set busy = {}"
    using claim_spaces unfolding cl by blast+
  have 5: "space_key_from_card c' \<in> set busy" if "q \<in> set started" "find_card s (rn_card_id q) = Some c'" for q c'
    using rowA [OF that(1)] A(2) that(2) by (fastforce simp: busy_def)
  have dq: "distinct (map (rn_id \<circ> fst) queued)" and sorted: "sorted (map (rn_id \<circ> fst) queued)"
    unfolding Q(1) using schema_okD(4) [OF sch] by (simp_all add: distinct_map inj_on_def)
  have 6: "rn_id r \<le> rn_id q"
    if q: "(q, c') \<in> set queued" and r: "(r, c) \<in> set cl" and same: "space_key_from_card c' = space_key_from_card c" for q c' r c
  proof (rule ccontr)
    assume less: "\<not> rn_id r \<le> rn_id q"
    obtain q1 q2 where split: "queued = q1 @ (r, c) # q2" using split_list [OF sub [OF r]] by blast
    have "(r, c) \<notin> set q1" using dq by (force simp: split)
    moreover have "(q, c') \<in> set q1"
      using q less sorted by (force simp: split sorted_append)
    ultimately show False using claim_first [of "(r, c)" "max_concurrent e" busy "length active" q1 q2 "(q, c')"] r same
      by (simp add: cl split)
  qed
  have 7: "(q, c') \<in> set cl \<or> max_concurrent e \<le> length started + length cl \<or> space_key_from_card c' \<in> set (map claim_space cl) \<or>
      (\<exists>p \<in> set started. \<exists>k. find_card s (rn_card_id p) = Some k \<and> space_key_from_card k = space_key_from_card c')"
    if q: "(q, c') \<in> set queued" for q c'
  proof (cases "(q, c') \<in> set cl")
    case False
    from claim_maximal [OF q False [unfolded cl]]
    consider "max_concurrent e \<le> length started + length cl" | "space_key_from_card c' \<in> set busy"
      | "space_key_from_card c' \<in> set (map claim_space cl)"
      by (auto simp: cl n)
    then show ?thesis
    proof cases
      case 2
      then obtain p k where "(p, k) \<in> set active" "space_key_from_card k = space_key_from_card c'" by (auto simp: busy_def)
      moreover from this(1) have "p \<in> set started" "find_card s (rn_card_id p) = Some k" using A(2) by (auto simp: started_def)
      ultimately show ?thesis by blast
    qed auto
  qed simp
  show ?thesis
    unfolding Let_def cl_def [symmetric] started_def [symmetric]
    using 1 2 3 4 5 6 [OF rowQ] 7 [OF rowQ] by (intro conjI) blast+
qed

theorem pass_claims_spec_witness:
  "map (\<lambda>(r, c). rn_id r) (pass_claims sample_env (dm_db sample_idle)) = [1, 3] \<and>
   list_all (\<lambda>(r, c). queued_open r) (pass_claims sample_env (dm_db sample_idle))"
proof
  show "map (\<lambda>(r, c). rn_id r) (pass_claims sample_env (dm_db sample_idle)) = [1, 3]" by code_simp
  have "db_ok (dm_db sample_idle)" using dreach_inv [OF sample_reach(1)] by (simp add: daemon_inv_def)
  from pass_claims_spec [OF this, of sample_env, unfolded Let_def]
  show "list_all (\<lambda>(r, c). queued_open r) (pass_claims sample_env (dm_db sample_idle))" unfolding list_all_iff by blast
qed

text \<open>
  A known hole in the limit. Run ids are recycled (\<open>INTEGER PRIMARY KEY\<close> without
  \<open>AUTOINCREMENT\<close>), and a launch registers by id alone. When the queued run of a claim is cancelled, its
  card deleted and another card created and queued while the spawner is still busy, the new run gets the old id,
  and the old launch starts it with its own pane: here a second run starts in the space of run 1.
\<close>

theorem recycled_run_is_promoted:
  "let d = foldl (\<lambda>d rq. snd (handle_request id (\<lambda>_. Inr ()) sample_env rq d)) sample_running
         [RunCancel 3, CardDelete 3, CardCreate sample_new_card, RunRetry 3];
       d' = launch_next sample_env (Spawned (sample_handle\<lparr>rh_pane_id := Some ''p2''\<rparr>)) d
   in map (\<lambda>r. (rn_id r, rn_card_id r, rn_started_at r = None)) (db_runs (dm_db d)) = [(1, 1, False), (2, 2, True), (3, 3, True)] \<and>
      map (\<lambda>r. (rn_id r, rn_started_at r = None, rn_herdr_pane_id r)) (db_runs (dm_db d')) =
        [(1, False, Some ''p1''), (2, True, None), (3, False, Some ''p2'')] \<and>
      map_option space_key_from_card (find_card (dm_db d') 1) = map_option space_key_from_card (find_card (dm_db d') 3)"
  by code_simp

section \<open>Finalization\<close>

lemma finalize_section_result:
  assumes ok: "db_ok (dm_db d)"
  shows "wp (finalize_section e i out summary extra tr at)
    (\<lambda>res d'. case res of
        Already r c \<Rightarrow> d' = d \<and> find_run (dm_db d) i = Some r \<and> \<not> open_run r \<and> find_card (dm_db d) (rn_card_id r) = Some c
      | NotDue \<Rightarrow> at \<noteq> None
      | Finalized removed fx nt \<Rightarrow>
          \<exists>p. fz_run_id p = i \<and> fz_outcome p = out \<and> finalize_spec p (dm_db d) fx (dm_db d') \<and> find_active d' i = None)
    (\<lambda>_ _. True) d"
proof -
  have fin: "wp (finalize_run_uow p) (\<lambda>fx s'.
        \<exists>p'. fz_run_id p' = i \<and> fz_outcome p' = out \<and>
          finalize_spec p' (dm_db d) fx (dm_db (snd (set_chain_hops c h (snd (drop_active i (d\<lparr>dm_db := s'\<rparr>)))))) \<and>
          find_active (snd (set_chain_hops c h (snd (drop_active i (d\<lparr>dm_db := s'\<rparr>))))) i = None) (\<lambda>_ _. True) (dm_db d)"
    if "fz_run_id p = i" "fz_outcome p = out" for p c h
    by (rule wp_mono [OF finalize_run_wp [OF db_ok_board [OF ok]]])
       (use that in \<open>auto simp: set_chain_hops_def drop_active_def modifyT_def find_active_def delete_conv'\<close>)
  show ?thesis
    unfolding finalize_section_def
    by (simp add: wp_bind wp_then wp_basic wp_on_db wp_lookups wp_sched wp_if split: option.splits)
      (auto simp: open_run_def split: sum.splits intro!: fin)
qed

lemma finalize_tail:
  "\<exists>d'. (thenT (refresh_watch e)
       (thenT (case removed of None \<Rightarrow> returnT () | Some a \<Rightarrow> if kill then effectT (Kill (ar_handle a)) else returnT ())
       (thenT (case nt of None \<Rightarrow> returnT () | Some (title, body) \<Rightarrow> notify e title (Some body))
       (thenT (emit_run_ended j i out) (thenT wake_dispatch (returnT x)))))) d = (Inr x, d') \<and>
     dm_db d' = dm_db d \<and> dm_sched d' = dm_sched d"
  by (cases removed; cases nt; cases kill; cases "en_herdr e") (simp_all add: effect_defs tx_defs Let_def split: prod.splits)

text \<open>
  C6: A run is finalized once. When a finalization (done, cancelled, pane exit, reconciliation) has returned a
  run, that run is ended and no longer tracked if this call ended it; a second finalization with any
  outcome, transition or kill flag returns the same run and card and changes nothing: no event, no kill, no
  notification, no wake-up.
\<close>

theorem run_is_finalized_once:
  assumes ok: "db_ok (dm_db d)" and f: "dispatch_finalize_run e i out summary extra kill tr d = (Inr (r, c), d')"
  shows "find_run (dm_db d') i = Some r \<and> \<not> open_run r \<and>
    (find_run (dm_db d) i \<noteq> Some r \<longrightarrow> rn_outcome r = Some out \<and> find_active d' i = None) \<and>
    dispatch_finalize_run e' i out' summary' extra' kill' tr' d' = (Inr (r, c), d')"
proof -
  have again: "dispatch_finalize_run e' i out' summary' extra' kill' tr' u = (Inr (r, c), u)"
    if "find_run (dm_db u) i = Some r" "\<not> open_run r" "find_card (dm_db u) (rn_card_id r) = Some c" for u r c
    using that by (simp add: dispatch_finalize_run_def finalize_run_inner_def finalize_section_def bindT_def on_db_def get_run_def
        require_card_def require_def queryT_def ok_or_def returnT_def open_run_def)
  have inner: "finalize_run_inner e i out summary extra kill tr None d = (Inr (Some (r, c)), d')"
    using f by (auto simp: dispatch_finalize_run_def bindT_def queryT_def ok_or_def split: prod.splits sum.splits option.splits)
  obtain x d1 where x: "finalize_section e i out summary extra tr None d = (x, d1)" by fastforce
  obtain res where res: "x = Inr res" using inner x by (cases x) (auto simp: finalize_run_inner_def bindT_def)
  note post = wp_ok [OF finalize_section_result [OF ok] x [unfolded res]]
  show ?thesis
  proof (cases res)
    case (Already r' c')
    then have "d' = d" "r' = r" "c' = c" using inner x res post by (auto simp: finalize_run_inner_def bindT_def returnT_def)
    then show ?thesis using post Already again [of d r c] by simp
  next
    case NotDue
    then show ?thesis using post by simp
  next
    case (Finalized removed fx nt)
    then obtain p where p: "fz_run_id p = i" "fz_outcome p = out" "finalize_spec p (dm_db d) fx (dm_db d1)" "find_active d1 i = None"
      using post by auto
    have tail: "dm_db d' = dm_db d1 \<and> dm_sched d' = dm_sched d1 \<and> r = fe_finished_run fx \<and> c = fe_card fx"
      using inner x res Finalized finalize_tail [where e = e and removed = removed and kill = kill and nt = nt and j = "cd_id (fe_card fx)" and i = i and out = out and x = "Some (fe_finished_run fx, fe_card fx)" and d = d1]
      by (auto simp: finalize_run_inner_def bindT_def)
    obtain q where q: "find_run (dm_db d) i = Some q" "open_run q" "rn_card_id q = cd_id (fe_card fx)"
      "fe_finished_run fx = closed (dm_db d) out (fz_summary p) q"
      using p by (auto simp: finalize_spec_def Let_def)
    have stored: "find_card (dm_db d1) (cd_id (fe_card fx)) = Some (fe_card fx)" "find_run (dm_db d1) i = Some (fe_finished_run fx)"
      using p(1,3) by (simp_all add: finalize_spec_def Let_def)
    have closed: "rn_card_id (fe_finished_run fx) = cd_id (fe_card fx)" "\<not> open_run (fe_finished_run fx)"
      "rn_outcome (fe_finished_run fx) = Some out"
      using q(3) by (simp_all add: q(4) closed_def open_run_def)
    have r: "find_run (dm_db d') i = Some r" "find_card (dm_db d') (rn_card_id r) = Some c" "\<not> open_run r" "rn_outcome r = Some out"
      using tail stored closed by simp_all
    then show ?thesis using again [of d' r c] p(4) tail by (simp add: find_active_def)
  qed
qed

theorem run_is_finalized_once_witness:
  "\<exists>r c d'. dispatch_finalize_run sample_env 1 OutcomeOk None None True False sample_running = (Inr (r, c), d') \<and>
     dispatch_finalize_run sample_env 1 Cancelled None None True True d' = (Inr (r, c), d') \<and>
     dm_effects d' = dm_effects sample_running @ [Kill sample_handle, Emit (EvRunEnded 1 1 OutcomeOk),
       Emit (EvBoardChanged RunEnded None (Some 1) None), WakeDispatch]"
proof -
  let ?f = "dispatch_finalize_run sample_env 1 OutcomeOk None None True False sample_running"
  have k: "\<not> isl (fst ?f)" "dm_effects (snd ?f) = dm_effects sample_running @ [Kill sample_handle, Emit (EvRunEnded 1 1 OutcomeOk),
       Emit (EvBoardChanged RunEnded None (Some 1) None), WakeDispatch]"
    by code_simp+
  then obtain r c where f: "?f = (Inr (r, c), snd ?f)" by (metis isl_def prod.collapse sumE surj_pair)
  have "db_ok (dm_db sample_running)" using dreach_inv [OF sample_reach(3)] by (simp add: daemon_inv_def)
  from run_is_finalized_once [OF this f] f k(2) show ?thesis by (metis snd_conv)
qed


definition sample_review :: daemon where
  \<comment> \<open>the agent of run 1 reports done\<close>
  "sample_review = snd (handle_event_from_socket sample_env ''/run/herdr.sock'' (AgentStatusChanged ''p1'' AgDone) sample_running)"


section \<open>Archived boards\<close>

lemma db_read_run:
  "bindT (on_db (require_card i)) k d = (case find_card (dm_db d) i of None \<Rightarrow> (Inl (NotFound [T ''card '', N i]), d) | Some x \<Rightarrow> k x d)"
  "bindT (on_db (require_column i)) kc d = (case find_column (dm_db d) i of None \<Rightarrow> (Inl (NotFound [T ''column '', N i]), d) | Some x \<Rightarrow> kc x d)"
  "bindT (on_db (get_board i)) kb d = (case find_board (dm_db d) i of None \<Rightarrow> (Inl (NotFound [T ''board '', N i]), d) | Some x \<Rightarrow> kb x d)"
  "thenT (ensureT b err) m d = (if b then m d else (Inl err, d))"
  "thenT (validT v) m d = (case v of Inl x \<Rightarrow> (Inl (Validation x), d) | Inr _ \<Rightarrow> m d)"
  "thenT (queryT f) m d = (case f d of Inl x \<Rightarrow> (Inl x, d) | Inr _ \<Rightarrow> m d)"
  by (simp_all add: bindT_def thenT_def on_db_def lookup_ops require_def queryT_def ok_or_def ensureT_def returnT_def throwT_def validT_def
      split: option.splits sum.splits)

lemma archived_not_restored:
  assumes "find_board (dm_db d) i = Some b" and "bd_archived_at b \<noteq> None"
  shows "bindT (require_restored i) k d = (Inl (InvalidState (archived_board_msg (bd_id b))), d)"
    and "thenT (require_restored i) m d = (Inl (InvalidState (archived_board_msg (bd_id b))), d)"
proof -
  have "require_restored i d = (Inl (InvalidState (archived_board_msg (bd_id b))), d)"
    using assms by (auto simp: require_restored_def db_read_run)
  then show "bindT (require_restored i) k d = (Inl (InvalidState (archived_board_msg (bd_id b))), d)"
    "thenT (require_restored i) m d = (Inl (InvalidState (archived_board_msg (bd_id b))), d)"
    by (simp_all add: bindT_def thenT_def)
qed



section \<open>Who may change a comment\<close>

lemma ask_run [simp]: "bindT (ask f) k d = k (f (dm_db d)) d"
  by (simp add: bindT_def ask_def readT_def)

lemma ensure_run [simp]: "ensureT b err d = (if b then (Inr (), d) else (Inl err, d))"
  by (simp add: ensureT_def returnT_def throwT_def)

definition agent_may :: "db \<Rightarrow> int \<Rightarrow> int \<Rightarrow> bool" where
  \<comment> \<open>run \<open>a\<close> may act on the comments of card \<open>j\<close>: it is the card's open run, or unknown while a \<open>fake\<close> card is idle\<close>
  "agent_may s a j =
     (case find_run s a of
        Some r \<Rightarrow> rn_card_id r = j \<and> open_run r
      | None \<Rightarrow> find_open_run s j = None \<and> map_option cd_harness (find_card s j) = Some ''fake'')"

lemma require_agent_run_run:
  "require_agent_run a j author d = (Inr u, d2) \<Longrightarrow> author = agent_author a \<and> d2 = d \<and> agent_may (dm_db d) a j"
  unfolding require_agent_run_def agent_may_def db_read_run(4) ask_run
  by (simp add: db_read_run open_run_def split: if_splits option.splits)

lemma require_agent_run_reads: "require_agent_run a j author d = (x, d2) \<Longrightarrow> d2 = d"
  unfolding require_agent_run_def db_read_run(4) ask_run by (simp add: db_read_run split: option.splits if_splits)

lemma comment_for_mutation_reads: "comment_for_mutation i (Some a) d = (x, d2) \<Longrightarrow> d2 = d"
  by (auto simp: comment_for_mutation_def bindT_def thenT_def on_db_def require_comment_def require_def
      queryT_def ok_or_def returnT_def dest: require_agent_run_reads split: option.splits prod.splits sum.splits)

lemma stated_author_run:
  assumes "ca_actor_run_id p = Some a"
  shows "stated_author p d = (Inr author, d2) \<Longrightarrow> author = agent_author a \<and> d2 = d \<and> agent_may (dm_db d) a (ca_card_id p)"
    and "stated_author p d = (Inl err, d2) \<Longrightarrow> d2 = d"
  using assms by (auto simp: stated_author_def thenT_def bindT_def returnT_def split: prod.splits sum.splits
      dest: require_agent_run_run require_agent_run_reads)

lemma stated_comment_author: "ca_actor_pane_id p = None \<Longrightarrow> comment_author p d = stated_author p d"
  by (simp add: comment_author_def)

lemma comment_for_mutation_run:
  "comment_for_mutation i (Some a) d = (Inr old, d1) \<Longrightarrow>
    find_comment (dm_db d) i = Some old \<and> cm_author old = agent_author a \<and> agent_may (dm_db d) a (cm_card_id old)"
  by (auto simp: comment_for_mutation_def bindT_def thenT_def on_db_def require_comment_def require_def
      queryT_def ok_or_def returnT_def dest!: require_agent_run_run split: option.splits prod.splits sum.splits)

definition run_comment :: "int \<Rightarrow> int \<Rightarrow> string \<Rightarrow> string option \<Rightarrow> comment_add_params" where
  \<comment> \<open>what run \<open>a\<close> sends to comment on card \<open>j\<close>\<close>
  "run_comment a j body w =
     \<lparr>ca_card_id = j, ca_body = body, ca_author = w, ca_actor_run_id = Some a, ca_actor_pane_id = None\<rparr>"



end
