(* ===== verification/Text_Hygiene.thy ===== *)
theory Text_Hygiene
  imports Rust_Std
begin

text \<open>
  \<open>crates/board-core/src/text.rs\<close>: the characters that must never reach a terminal or a pane border, and the
  three functions that drop them; and the session name in a herdr socket path (\<open>paths.rs\<close>).
\<close>

section \<open>Character classes\<close>

definition is_control :: "int \<Rightarrow> bool" where
  \<comment> \<open>\<open>char::is_control\<close>: C0, DEL and C1\<close>
  "is_control c \<longleftrightarrow> (0 \<le> c \<and> c \<le> 0x1F) \<or> (0x7F \<le> c \<and> c \<le> 0x9F)"

definition is_format_char :: "int \<Rightarrow> bool" where
  "is_format_char c \<longleftrightarrow>
     c = 0xAD \<or> c = 0x061C \<or> c = 0x180E \<or> (0x200B \<le> c \<and> c \<le> 0x200F) \<or> (0x2028 \<le> c \<and> c \<le> 0x202E) \<or>
     (0x2060 \<le> c \<and> c \<le> 0x206F) \<or> c = 0xFEFF \<or> (0xFFF9 \<le> c \<and> c \<le> 0xFFFB) \<or> (0xE0000 \<le> c \<and> c \<le> 0xE007F)"

definition keep_chars :: "(int \<Rightarrow> bool) \<Rightarrow> string \<Rightarrow> string" where
  \<comment> \<open>\<open>s.chars().filter(p).collect()\<close>\<close>
  "keep_chars p s = concat (map snd (filter (\<lambda>x. p (fst x)) (utf8_chars s)))"

definition strip_control_and_format :: "string \<Rightarrow> string" where
  "strip_control_and_format s = keep_chars (\<lambda>c. \<not> is_control c \<and> \<not> is_format_char c) s"

definition strip_control_keep_lines :: "string \<Rightarrow> string" where
  "strip_control_keep_lines s = keep_chars (\<lambda>c. \<not> ((is_control c \<and> c \<noteq> 9 \<and> c \<noteq> 10) \<or> is_format_char c)) s"

fun map_insert :: "string \<Rightarrow> 'a \<Rightarrow> (string \<times> 'a) list \<Rightarrow> (string \<times> 'a) list" where
  \<comment> \<open>\<open>BTreeMap::insert\<close> on the entries in key order\<close>
  "map_insert k v [] = [(k, v)]"
| "map_insert k v ((l, w) # es) =
     (if k = l then (k, v) # es else if k < l then (k, v) # (l, w) # es else (l, w) # map_insert k v es)"

definition map_collect :: "(string \<times> 'a) list \<Rightarrow> (string \<times> 'a) list" where
  "map_collect es = fold (\<lambda>(k, v) m. map_insert k v m) es []"

fun sanitise_json :: "json \<Rightarrow> json" where
  "sanitise_json (JStr s) = JStr (strip_control_keep_lines s)"
| "sanitise_json (JArr xs) = JArr (map sanitise_json xs)"
| "sanitise_json (JObj es) = JObj (map_collect (map (\<lambda>(k, v). (strip_control_keep_lines k, sanitise_json v)) es))"
| "sanitise_json v = v"

section \<open>The text that is left\<close>

lemma utf8_chars_filtered:
  "utf8_chars (concat (map snd (filter P (utf8_chars s)))) = filter P (utf8_chars s)"
proof (induction s rule: utf8_chars.induct)
  case (2 c cs)
  define b where "b = (of_char c :: int)"
  define k where "k = (if b < 128 then 0 else if b < 224 then 1 else if b < 240 then 2 else 3 :: nat)"
  define lead where "lead = (if b < 128 then b else if b < 224 then b mod 32 else if b < 240 then b mod 16 else b mod 8)"
  have unfold: "utf8_chars (c # ds) =
      (foldl (\<lambda>acc x. acc * 64 + of_char x mod 64) lead (take k ds), c # take k ds) # utf8_chars (drop k ds)" for ds
    by (simp add: Let_def b_def k_def lead_def)
  let ?rest = "concat (map snd (filter P (utf8_chars (drop k cs))))"
  have IH: "utf8_chars ?rest = filter P (utf8_chars (drop k cs))"
    using "2.IH" [OF b_def k_def lead_def] .
  have rest: "length cs < k \<Longrightarrow> ?rest = []" by simp
  have "take k (take k cs @ ?rest) = take k cs" "drop k (take k cs @ ?rest) = ?rest"
    using rest by (cases "length cs < k"; simp)+
  then have "utf8_chars (c # take k cs @ ?rest) =
      (foldl (\<lambda>acc x. acc * 64 + of_char x mod 64) lead (take k cs), c # take k cs) # filter P (utf8_chars (drop k cs))"
    by (simp only: unfold IH)
  moreover define x where "x = (foldl (\<lambda>acc x. acc * 64 + of_char x mod 64) lead (take k cs), c # take k cs)"
  ultimately have put: "utf8_chars (snd x @ ?rest) = x # filter P (utf8_chars (drop k cs))" by simp
  have "utf8_chars (c # cs) = x # utf8_chars (drop k cs)" by (simp only: unfold x_def)
  then show ?case using put IH by (simp only: filter.simps) simp
qed simp

lemma utf8_keep_chars: "utf8_chars (keep_chars p s) = filter (\<lambda>x. p (fst x)) (utf8_chars s)"
  by (simp add: keep_chars_def utf8_chars_filtered)

lemma keep_chars_idem: "keep_chars p (keep_chars p s) = keep_chars p s"
  unfolding keep_chars_def [of p "keep_chars p s"] utf8_keep_chars by (simp add: keep_chars_def)

definition printable :: "int \<Rightarrow> bool" where
  \<comment> \<open>what may reach a terminal: no control character, no format character\<close>
  "printable c \<longleftrightarrow> \<not> is_control c \<and> \<not> is_format_char c"

definition clean_text :: "string \<Rightarrow> bool" where
  \<comment> \<open>printable, but for tabs and line ends\<close>
  "clean_text s \<longleftrightarrow> list_all (\<lambda>(c, _). printable c \<or> c = 9 \<or> c = 10) (utf8_chars s)"

fun json_strings :: "json \<Rightarrow> string set" where
  \<comment> \<open>every string of a value, keys included\<close>
  "json_strings (JStr s) = {s}"
| "json_strings (JArr xs) = \<Union> (set (map json_strings xs))"
| "json_strings (JObj es) = fst ` set es \<union> \<Union> (set (map (\<lambda>(k, v). json_strings v) es))"
| "json_strings v = {}"

lemma set_map_insert: "set (map_insert k v es) \<subseteq> insert (k, v) (set es)"
  by (induction es) (auto split: if_splits)

lemma set_map_collect: "set (map_collect es) \<subseteq> set es"
proof -
  have "set (fold (\<lambda>(k, v) m. map_insert k v m) es m) \<subseteq> set es \<union> set m" for m
    by (induction es arbitrary: m) (use set_map_insert in \<open>fastforce simp: case_prod_beta\<close>)+
  then show ?thesis unfolding map_collect_def by fastforce
qed

lemma clean_keep_lines: "clean_text (strip_control_keep_lines s)"
  by (auto simp: clean_text_def strip_control_keep_lines_def utf8_keep_chars list_all_iff printable_def is_format_char_def)

lemma sanitised_strings_clean: "t \<in> json_strings (sanitise_json v) \<Longrightarrow> clean_text t"
proof (induction v arbitrary: t)
  case (JObj es)
  then obtain k w where e: "(k, w) \<in> set es"
    and "t = strip_control_keep_lines k \<or> t \<in> json_strings (sanitise_json w)"
    using set_map_collect [of "map (\<lambda>(k, v). (strip_control_keep_lines k, sanitise_json v)) es"] by fastforce
  then show ?case using JObj.IH [OF e] clean_keep_lines by fastforce
qed (auto simp: clean_keep_lines)


end
