(* ===== verification/Engine_Grouping.thy ===== *)
theory Engine_Grouping
  imports Text_Hygiene
begin

text \<open>
  \<open>crates/board-core/src/engine/grouping.rs\<close>: Linear issues plus the grouping in force become the board view,
  tabs of columns with swimlanes. The mapping types are those of \<open>db/linear_state.rs\<close>, the result types those
  of \<open>protocol.rs\<close>. A \<open>BTreeMap\<close> is its entries in key order; the key order of strings is bytewise. Unicode
  lower-casing is the parameter \<open>lower\<close>.
\<close>

section \<open>Issues\<close>

record issue_node =
  nd_id :: string
  nd_name :: string

record issue_state =
  ist_id :: string
  ist_name :: string
  ist_kind :: string

record issue_team =
  itm_id :: string
  itm_key :: string
  itm_name :: string

record issue_cycle =
  icy_id :: string
  icy_number :: "int option"
  icy_name :: string

record issue_parent =
  ipa_id :: string
  ipa_identifier :: string

record issue_label =
  ilb_id :: string
  ilb_name :: string
  ilb_parent :: "issue_node option"

record grouping_issue =
  gi_id :: string
  gi_identifier :: string
  gi_title :: string
  gi_updated_at :: string
  gi_state :: "issue_state option"
  gi_team :: "issue_team option"
  gi_project :: "issue_node option"
  gi_project_milestone :: "issue_node option"
  gi_cycle :: "issue_cycle option"
  gi_assignee :: "issue_node option"
  gi_priority :: "int option"
  gi_parent :: "issue_parent option"
  gi_labels :: "issue_label list"

record workflow_state =
  ws_id :: string
  ws_name :: string
  ws_kind :: string

record view_preferences =
  vp_layout :: "string option"
  vp_issue_grouping :: "string option"
  vp_issue_sub_grouping :: "string option"
  vp_column_order_board :: "string list"
  vp_hidden_columns :: "string list"
  vp_hidden_rows :: "string list"

record grouping_mapping =
  gm_levels :: "(string \<times> string) list"
  gm_filter :: "(string \<times> json) list"

record space_grouping =
  sg_space :: string
  sg_mapping :: grouping_mapping

record grouping_config =
  gc_global :: grouping_mapping
  gc_spaces :: "space_grouping list"

datatype board_grouping =
    ConfiguredBoard grouping_mapping "string option"
  | ViewBoard view_preferences "workflow_state list"
  | TeamBoard "workflow_state list"

section \<open>The view\<close>

record linear_lane =
  ln_key :: string
  ln_label :: string
  ln_issues :: "string list"

record linear_group =
  lg_key :: string
  lg_label :: string
  lg_kind :: "string option"
  lg_issues :: "string list"
  lg_lanes :: "linear_lane list"

record linear_tab =
  lt_key :: string
  lt_label :: string
  lt_groups :: "linear_group list"

definition choose_grouping :: "grouping_config option \<Rightarrow> string \<Rightarrow> view_preferences option \<Rightarrow> workflow_state list \<Rightarrow> board_grouping" where
  \<comment> \<open>a space override replaces the global mapping; nothing merges\<close>
  "choose_grouping config space view states =
     (case config of
        Some c \<Rightarrow>
          (case List.find (\<lambda>s. sg_space s = space) (gc_spaces c) of
             Some entry \<Rightarrow> ConfiguredBoard (sg_mapping entry) None
           | None \<Rightarrow> ConfiguredBoard (gc_global c) (Some space))
      | None \<Rightarrow> (case view of Some v \<Rightarrow> ViewBoard v states | None \<Rightarrow> TeamBoard states))"

section \<open>Keys and their order\<close>

definition issue_identifier :: "grouping_issue \<Rightarrow> string" where
  "issue_identifier issue = (if gi_identifier issue = [] then gi_id issue else gi_identifier issue)"

definition natural :: "string \<Rightarrow> string \<times> int" where
  "natural s =
     (case rsplit_once (CHR ''-'') s of
        Some (prefix, number) \<Rightarrow>
          if number \<noteq> [] \<and> list_all is_digit number
          then (case parse_i64 number of Some n \<Rightarrow> (prefix, n) | None \<Rightarrow> (s, 0))
          else (s, 0)
      | None \<Rightarrow> (s, 0))"

datatype sort_key = SortKey (sk_none: bool) (sk_rank: int) (sk_prefix: string) (sk_number: int) (sk_text: string) (sk_id: string)

definition sk_fields :: "sort_key \<Rightarrow> bool \<times> int \<times> string \<times> int \<times> string \<times> string" where
  "sk_fields k = (sk_none k, sk_rank k, sk_prefix k, sk_number k, sk_text k, sk_id k)"

lemma sk_fields_inject: "sk_fields a = sk_fields b \<Longrightarrow> a = b"
  by (cases a; cases b) (simp add: sk_fields_def)

instantiation sort_key :: linorder
begin

definition less_eq_sort_key :: "sort_key \<Rightarrow> sort_key \<Rightarrow> bool" where
  \<comment> \<open>the derived \<open>Ord\<close>: field by field in declaration order\<close>
  "less_eq_sort_key a b \<longleftrightarrow> sk_fields a \<le> sk_fields b"

definition less_sort_key :: "sort_key \<Rightarrow> sort_key \<Rightarrow> bool" where
  "less_sort_key a b \<longleftrightarrow> sk_fields a < sk_fields b"

instance
  by standard (auto simp: less_eq_sort_key_def less_sort_key_def dest: antisym sk_fields_inject)

end

record issue_group =
  gr_key :: string
  gr_label :: string
  gr_kind :: "string option"
  gr_sort :: sort_key

definition group_order :: "issue_group \<Rightarrow> sort_key \<times> string \<times> string" where
  "group_order g = (gr_sort g, gr_label g, gr_key g)"

section \<open>The group of an issue\<close>

definition none_group :: "string \<Rightarrow> issue_group" where
  "none_group kind =
     (let field = (case strip_prefix ''label-group:'' kind of Some f \<Rightarrow> f | None \<Rightarrow> kind)
      in \<lparr>gr_key = [], gr_label = ''No '' @ field, gr_kind = None, gr_sort = SortKey True 0 [] 0 [] []\<rparr>)"

definition named :: "(string \<Rightarrow> string) \<Rightarrow> string \<Rightarrow> string \<Rightarrow> int \<Rightarrow> issue_group" where
  \<comment> \<open>the callers' sort keys differ from the default in the rank only\<close>
  "named lower i name rank =
     (let label = (if name = [] then i else name)
      in \<lparr>gr_key = i, gr_label = label, gr_kind = None, gr_sort = SortKey False rank [] 0 (lower label) i\<rparr>)"

definition priority_name :: "int \<Rightarrow> string option" where
  "priority_name p =
     (if p = 1 then Some ''Urgent'' else if p = 2 then Some ''High'' else if p = 3 then Some ''Medium''
      else if p = 4 then Some ''Low'' else None)"

definition state_types :: "string list" where
  "state_types = [''triage'', ''backlog'', ''unstarted'', ''started'', ''completed'', ''canceled'']"

fun position_of :: "'a \<Rightarrow> 'a list \<Rightarrow> nat" where
  \<comment> \<open>the length when absent\<close>
  "position_of x [] = 0"
| "position_of x (y # ys) = (if x = y then 0 else Suc (position_of x ys))"

definition state_rank :: "string \<Rightarrow> int" where
  "state_rank kind = int (position_of kind state_types)"

definition by_id :: "(string \<Rightarrow> string) \<Rightarrow> issue_node option \<Rightarrow> issue_group option" where
  "by_id lower node =
     (case node of None \<Rightarrow> None | Some n \<Rightarrow> if nd_id n = [] then None else Some (named lower (nd_id n) (nd_name n) 0))"

fun first_min :: "('a \<Rightarrow> 'k :: linorder) \<Rightarrow> 'a list \<Rightarrow> 'a option" where
  \<comment> \<open>\<open>Iterator::min_by\<close>: the first of the least\<close>
  "first_min f [] = None"
| "first_min f (x # xs) = (case first_min f xs of None \<Rightarrow> Some x | Some y \<Rightarrow> if f y < f x then Some y else Some x)"

definition label_group :: "(string \<Rightarrow> string) \<Rightarrow> grouping_issue \<Rightarrow> string \<Rightarrow> issue_group option" where
  "label_group lower issue name =
     first_min (\<lambda>g. (sk_text (gr_sort g), gr_key g))
       (map (\<lambda>l. named lower (ilb_id l) (ilb_name l) 0)
         (filter (\<lambda>l. ilb_id l \<noteq> [] \<and> (case ilb_parent l of None \<Rightarrow> False | Some p \<Rightarrow> nd_name p = name)) (gi_labels issue)))"

definition team_group :: "(string \<Rightarrow> string) \<Rightarrow> grouping_issue \<Rightarrow> issue_group option" where
  "team_group lower issue =
     (case gi_team issue of None \<Rightarrow> None | Some t \<Rightarrow> if itm_id t = [] then None else Some (named lower (itm_id t) (itm_key t) 0))"

definition parent_group :: "grouping_issue \<Rightarrow> issue_group option" where
  "parent_group issue =
     (case gi_parent issue of None \<Rightarrow> None
      | Some p \<Rightarrow> if ipa_id p = [] then None
          else let label = (if ipa_identifier p = [] then ipa_id p else ipa_identifier p); (prefix, number) = natural label
               in Some \<lparr>gr_key = ipa_id p, gr_label = label, gr_kind = None, gr_sort = SortKey False 0 prefix number [] (ipa_id p)\<rparr>)"

definition cycle_group :: "(string \<Rightarrow> string) \<Rightarrow> grouping_issue \<Rightarrow> issue_group option" where
  "cycle_group lower issue =
     (case gi_cycle issue of None \<Rightarrow> None
      | Some c \<Rightarrow> if icy_id c = [] then None
          else let name = (if icy_name c \<noteq> [] then icy_name c
                           else case icy_number c of Some n \<Rightarrow> ''Cycle '' @ show_int n | None \<Rightarrow> icy_id c)
               in Some (named lower (icy_id c) name (case icy_number c of Some n \<Rightarrow> n | None \<Rightarrow> 0)))"

definition state_group :: "(string \<Rightarrow> string) \<Rightarrow> grouping_issue \<Rightarrow> issue_group option" where
  "state_group lower issue =
     (case gi_state issue of None \<Rightarrow> None
      | Some s \<Rightarrow> if ist_id s = [] then None
          else Some (named lower (ist_id s) (ist_name s) (state_rank (ist_kind s))
                      \<lparr>gr_kind := if ist_kind s = [] then None else Some (ist_kind s)\<rparr>))"

definition priority_group :: "grouping_issue \<Rightarrow> issue_group option" where
  "priority_group issue =
     (case gi_priority issue of None \<Rightarrow> None
      | Some p \<Rightarrow> map_option (\<lambda>name. \<lparr>gr_key = show_int p, gr_label = name, gr_kind = None, gr_sort = SortKey False p [] 0 [] []\<rparr>)
                    (priority_name p))"

definition field_group :: "(string \<Rightarrow> string) \<Rightarrow> grouping_issue \<Rightarrow> string \<Rightarrow> issue_group" where
  "field_group lower issue kind =
     (case (if kind = ''team'' then team_group lower issue
            else if kind = ''project'' then by_id lower (gi_project issue)
            else if kind = ''assignee'' then by_id lower (gi_assignee issue)
            else if kind = ''milestone'' then by_id lower (gi_project_milestone issue)
            else if kind = ''parent'' then parent_group issue
            else if kind = ''cycle'' then cycle_group lower issue
            else if kind = ''state'' then state_group lower issue
            else if kind = ''priority'' then priority_group issue
            else case strip_prefix ''label-group:'' kind of Some name \<Rightarrow> label_group lower issue name | None \<Rightarrow> None) of
        Some g \<Rightarrow> g | None \<Rightarrow> none_group kind)"

section \<open>A configured board\<close>

definition field_level :: "grouping_mapping \<Rightarrow> string \<Rightarrow> string option" where
  "field_level mapping level =
     (case map_of (gm_levels mapping) level of
        Some kind \<Rightarrow> if kind \<noteq> ''ticket'' \<and> kind \<noteq> ''sub-ticket'' then Some kind else None
      | None \<Rightarrow> None)"

fun first_by :: "('a \<Rightarrow> 'k) \<Rightarrow> 'a list \<Rightarrow> 'a list" where
  \<comment> \<open>the first of each key: \<open>entry(key).or_insert(group)\<close>\<close>
  "first_by key [] = []"
| "first_by key (x # xs) = x # filter (\<lambda>y. key y \<noteq> key x) (first_by key xs)"

definition distinct_groups :: "issue_group list \<Rightarrow> issue_group list" where
  "distinct_groups gs = sort_key group_order (sort_key gr_key (first_by gr_key gs))"

record placed =
  pl_issue :: grouping_issue
  pl_tab :: "issue_group option"
  pl_column :: "issue_group option"
  pl_row :: "issue_group option"

definition cell_order :: "grouping_issue \<Rightarrow> bool \<Rightarrow> (string \<times> int) \<times> bool \<times> (string \<times> int)" where
  "cell_order issue sub_ticket =
     (let own = natural (issue_identifier issue) in
      case gi_parent issue of
        Some p \<Rightarrow> if sub_ticket \<and> ipa_id p \<noteq> [] \<and> ipa_identifier p \<noteq> [] then (natural (ipa_identifier p), True, own)
                  else (own, False, own)
      | None \<Rightarrow> (own, False, own))"

abbreviation key_of :: "issue_group option \<Rightarrow> string option" where
  "key_of g \<equiv> map_option gr_key g"

definition in_space :: "(string \<Rightarrow> string) \<Rightarrow> grouping_mapping \<Rightarrow> string option \<Rightarrow> grouping_issue \<Rightarrow> bool" where
  "in_space lower mapping space issue =
     (case (field_level mapping ''space'', space) of
        (Some kind, Some s) \<Rightarrow> gr_label (field_group lower issue kind) = s
      | _ \<Rightarrow> True)"

definition place_issues :: "(string \<Rightarrow> string) \<Rightarrow> grouping_issue list \<Rightarrow> grouping_mapping \<Rightarrow> string option \<Rightarrow> placed list" where
  "place_issues lower issues mapping space =
     (let sub_ticket = (''sub-ticket'' \<in> set (map snd (gm_levels mapping)));
          sorted_issues = sort_key (\<lambda>i. (cell_order i sub_ticket, gi_id i)) issues
      in map (\<lambda>issue. \<lparr>pl_issue = issue,
                pl_tab = map_option (field_group lower issue) (field_level mapping ''tab''),
                pl_column = map_option (field_group lower issue) (field_level mapping ''column''),
                pl_row = map_option (field_group lower issue) (field_level mapping ''row'')\<rparr>)
           (filter (in_space lower mapping space) sorted_issues))"

definition option_values :: "'a option list \<Rightarrow> 'a list" where
  "option_values xs = List.map_filter (\<lambda>x. x) xs"

definition placed_ids :: "placed list \<Rightarrow> string list" where
  "placed_ids ps = map (\<lambda>p. issue_identifier (pl_issue p)) ps"

definition lane_of :: "placed list \<Rightarrow> issue_group \<Rightarrow> linear_lane" where
  "lane_of in_column row =
     \<lparr>ln_key = gr_key row, ln_label = gr_label row,
      ln_issues = placed_ids (filter (\<lambda>p. key_of (pl_row p) = Some (gr_key row)) in_column)\<rparr>"

definition column_of :: "placed list \<Rightarrow> issue_group list \<Rightarrow> issue_group option \<Rightarrow> linear_group" where
  "column_of in_tab rows column =
     (let in_column = filter (\<lambda>p. key_of (pl_column p) = key_of column) in_tab
      in \<lparr>lg_key = (case column of Some g \<Rightarrow> gr_key g | None \<Rightarrow> []),
          lg_label = (case column of Some g \<Rightarrow> gr_label g | None \<Rightarrow> ''Issues''),
          lg_kind = (case column of Some g \<Rightarrow> gr_kind g | None \<Rightarrow> None),
          lg_issues = placed_ids in_column,
          lg_lanes = map (lane_of in_column) rows\<rparr>)"

definition tab_of :: "string option \<Rightarrow> placed list \<Rightarrow> string option \<times> string \<Rightarrow> linear_tab" where
  "tab_of column_kind ps tab =
     (let in_tab = filter (\<lambda>p. key_of (pl_tab p) = fst tab) ps;
          columns = (case column_kind of Some _ \<Rightarrow> map Some (distinct_groups (option_values (map pl_column in_tab))) | None \<Rightarrow> [None]);
          rows = distinct_groups (option_values (map pl_row in_tab))
      in \<lparr>lt_key = (case fst tab of Some k \<Rightarrow> k | None \<Rightarrow> []), lt_label = snd tab,
          lt_groups = map (column_of in_tab rows) columns\<rparr>)"

definition configured :: "(string \<Rightarrow> string) \<Rightarrow> grouping_issue list \<Rightarrow> grouping_mapping \<Rightarrow> string option \<Rightarrow> linear_tab list" where
  "configured lower issues mapping space =
     (let ps = place_issues lower issues mapping space;
          tabs = (case field_level mapping ''tab'' of
                    Some _ \<Rightarrow> map (\<lambda>g. (Some (gr_key g), gr_label g)) (distinct_groups (option_values (map pl_tab ps)))
                  | None \<Rightarrow> [(None, ''Board'')])
      in map (tab_of (field_level mapping ''column'') ps) tabs)"

section \<open>A board without a grouping config\<close>

definition view_groupings :: "string list" where
  "view_groupings = [''workflowState'', ''assignee'', ''priority'', ''label'', ''project'']"

definition or_id :: "string \<Rightarrow> string \<Rightarrow> string" where
  "or_id name i = (if name = [] then i else name)"

definition node_key :: "issue_node option \<Rightarrow> string \<Rightarrow> string \<Rightarrow> string \<times> string" where
  "node_key node key label =
     (case node of
        Some n \<Rightarrow> if nd_id n = [] then (key, label) else (nd_id n, or_id (nd_name n) (nd_id n))
      | None \<Rightarrow> (key, label))"

definition label_keys :: "issue_label list \<Rightarrow> (string \<times> string) list" where
  "label_keys ls = map (\<lambda>l. (ilb_id l, or_id (ilb_name l) (ilb_id l))) (filter (\<lambda>l. ilb_id l \<noteq> []) ls)"

definition state_key :: "issue_state option \<Rightarrow> workflow_state list \<Rightarrow> string \<times> string" where
  "state_key state states =
     (let s = (case state of Some x \<Rightarrow> x | None \<Rightarrow> \<lparr>ist_id = [], ist_name = [], ist_kind = []\<rparr>)
      in (ist_id s,
          case List.find (\<lambda>w. ws_id w = ist_id s) states of
            Some w \<Rightarrow> if ws_name w = [] then or_id (ist_name s) (ist_id s) else ws_name w
          | None \<Rightarrow> or_id (ist_name s) (ist_id s)))"

definition view_keys :: "grouping_issue \<Rightarrow> string \<Rightarrow> workflow_state list \<Rightarrow> (string \<times> string) list" where
  "view_keys issue grouping states =
     (if grouping = ''assignee'' then [node_key (gi_assignee issue) ''unassigned'' ''Unassigned'']
      else if grouping = ''priority'' then
        (let p = (case gi_priority issue of Some p \<Rightarrow> p | None \<Rightarrow> 0)
         in [(show_int p, if p = 0 then ''No priority'' else case priority_name p of Some n \<Rightarrow> n | None \<Rightarrow> show_int p)])
      else if grouping = ''label'' then
        (if label_keys (gi_labels issue) = [] then [(''nolabel'', ''No label'')] else label_keys (gi_labels issue))
      else if grouping = ''project'' then [node_key (gi_project issue) ''noproject'' ''No project'']
      else [state_key (gi_state issue) states])"

definition note_keys :: "(string \<times> string) list \<Rightarrow> (string \<times> string) list \<Rightarrow> (string \<times> string) list" where
  \<comment> \<open>\<open>labels\<close> and \<open>appearance\<close> of the loop: the label of each key, in order of first appearance\<close>
  "note_keys keys seen = fold (\<lambda>(k, l) seen. if k \<in> fst ` set seen then seen else seen @ [(k, l)]) keys seen"

definition push_new :: "string list \<Rightarrow> string list \<Rightarrow> string list" where
  "push_new keys order = fold (\<lambda>k order. if k \<in> set order then order else order @ [k]) keys order"

record member =
  mb_id :: string
  mb_columns :: "string list"
  mb_rows :: "string list option"

definition member_of :: "workflow_state list \<Rightarrow> string \<Rightarrow> string option \<Rightarrow> grouping_issue \<Rightarrow> member" where
  "member_of states grouping sub issue =
     \<lparr>mb_id = issue_identifier issue, mb_columns = map fst (view_keys issue grouping states),
      mb_rows = map_option (\<lambda>g. map fst (view_keys issue g states)) sub\<rparr>"

definition usable_view :: "view_preferences option \<Rightarrow> view_preferences option" where
  \<comment> \<open>\<open>view.filter(|_| usable)\<close>\<close>
  "usable_view view =
     (case view of None \<Rightarrow> None
      | Some v \<Rightarrow> (case vp_issue_grouping v of Some g \<Rightarrow> if g \<in> set view_groupings then Some v else None | None \<Rightarrow> None))"

definition view_grouping :: "view_preferences option \<Rightarrow> string" where
  "view_grouping view =
     (case view of None \<Rightarrow> ''workflowState''
      | Some v \<Rightarrow> (case vp_issue_grouping v of Some g \<Rightarrow> g | None \<Rightarrow> ''workflowState''))"

definition view_sub_grouping :: "view_preferences option \<Rightarrow> string option" where
  "view_sub_grouping view =
     (case view of None \<Rightarrow> None
      | Some v \<Rightarrow> (case vp_issue_sub_grouping v of Some g \<Rightarrow> if g \<in> set view_groupings then Some g else None | None \<Rightarrow> None))"

definition column_order :: "view_preferences option \<Rightarrow> workflow_state list \<Rightarrow> string list \<Rightarrow> string list" where
  \<comment> \<open>\<open>order\<close> with its duplicates; \<open>appearance\<close> goes last\<close>
  "column_order view states appearance =
     (let wanted = (case view of Some v \<Rightarrow> vp_column_order_board v | None \<Rightarrow> []);
          order = (if view_grouping view \<noteq> ''workflowState'' then filter (\<lambda>k. k \<notin> ws_id ` set states) wanted
                   else if wanted = []
                   then map ws_id (filter (\<lambda>s. view \<noteq> None \<or> ws_kind s \<noteq> ''canceled'') states)
                   else wanted)
      in push_new appearance order)"

definition row_order :: "string \<Rightarrow> workflow_state list \<Rightarrow> string list \<Rightarrow> string list \<Rightarrow> string list" where
  "row_order g states row_appearance hidden_rows =
     (let rows = (if g = ''workflowState'' then map ws_id (filter (\<lambda>s. ws_id s \<in> set row_appearance) states) else [])
      in filter (\<lambda>k. k \<notin> set hidden_rows) (push_new row_appearance rows))"

definition view_column ::
  "workflow_state list \<Rightarrow> string \<Rightarrow> member list \<Rightarrow> (string \<times> string) list \<Rightarrow> string list option \<Rightarrow>
   (string \<times> string) list \<Rightarrow> string list \<Rightarrow> string \<Rightarrow> linear_group" where
  "view_column states grouping members labels lanes row_labels hidden_rows key =
     (let found = List.find (\<lambda>s. ws_id s = key) states;
          here = filter (\<lambda>m. key \<in> set (mb_columns m)) members
      in \<lparr>lg_key = key,
          lg_label = (case map_of labels key of Some l \<Rightarrow> l
                      | None \<Rightarrow> (case found of Some s \<Rightarrow> or_id (ws_name s) key | None \<Rightarrow> key)),
          lg_kind = (if grouping = ''workflowState''
                     then (case found of Some s \<Rightarrow> if ws_kind s = [] then None else Some (ws_kind s) | None \<Rightarrow> None)
                     else None),
          lg_issues = map mb_id (filter (\<lambda>m. case mb_rows m of None \<Rightarrow> True
                        | Some rows \<Rightarrow> list_ex (\<lambda>r. r \<notin> set hidden_rows) rows) here),
          lg_lanes = map (\<lambda>row. \<lparr>ln_key = row, ln_label = (case map_of row_labels row of Some l \<Rightarrow> l | None \<Rightarrow> []),
                        ln_issues = map mb_id (filter (\<lambda>m. case mb_rows m of None \<Rightarrow> False | Some rows \<Rightarrow> row \<in> set rows) here)\<rparr>)
                      (case lanes of Some rows \<Rightarrow> rows | None \<Rightarrow> [])\<rparr>)"

definition fallback :: "grouping_issue list \<Rightarrow> view_preferences option \<Rightarrow> workflow_state list \<Rightarrow> linear_tab list" where
  "fallback issues given states =
     (let view = usable_view given;
          grouping = view_grouping view;
          sub = view_sub_grouping view;
          hidden_columns = (case view of Some v \<Rightarrow> vp_hidden_columns v | None \<Rightarrow> []);
          hidden_rows = (case view of Some v \<Rightarrow> vp_hidden_rows v | None \<Rightarrow> []);
          labels = fold (\<lambda>i. note_keys (view_keys i grouping states)) issues [];
          row_labels = (case sub of Some g \<Rightarrow> fold (\<lambda>i. note_keys (view_keys i g states)) issues [] | None \<Rightarrow> []);
          members = map (member_of states grouping sub) issues;
          order = column_order view states (map fst labels);
          lanes = map_option (\<lambda>g. row_order g states (map fst row_labels) hidden_rows) sub;
          shown = filter (\<lambda>k. k \<notin> set hidden_columns) (first_by (\<lambda>k. k) order)
      in [\<lparr>lt_key = [], lt_label = ''Board'',
           lt_groups = map (view_column states grouping members labels lanes row_labels hidden_rows) shown\<rparr>])"

definition group_board :: "(string \<Rightarrow> string) \<Rightarrow> grouping_issue list \<Rightarrow> board_grouping \<Rightarrow> linear_tab list" where
  "group_board lower issues grouping =
     (case grouping of
        ConfiguredBoard mapping space \<Rightarrow> configured lower issues mapping space
      | ViewBoard view states \<Rightarrow> fallback issues (Some view) states
      | TeamBoard states \<Rightarrow> fallback issues None states)"

end
