(* ===== verification/Grouping_Properties.thy ===== *)
theory Grouping_Properties
  imports Engine_Grouping
begin

text \<open>
  What the grouping engine promises: every issue is shown, once, in a place found by its keys; the keys of a strip are
  distinct and the "No .." group comes last; a configured board does not depend on the order Linear answers in.
\<close>

section \<open>Groups\<close>

lemma named_key [simp]: "gr_key (named lower i n r) = i" "sk_none (gr_sort (named lower i n r)) = False"
  by (simp_all add: named_def Let_def)

lemma show_int_nonempty [simp]: "show_int i \<noteq> []"
  using show_nat_nonempty by (simp add: show_int_def)

definition group_ok :: "issue_group \<Rightarrow> bool" where
  "group_ok g \<longleftrightarrow> (sk_none (gr_sort g) \<longleftrightarrow> gr_key g = [])"

lemma first_min_in: "first_min f xs = Some x \<Longrightarrow> x \<in> set xs"
  by (induction xs arbitrary: x) (auto split: option.splits if_splits)

lemma named_ok [simp]: "i \<noteq> [] \<Longrightarrow> group_ok (named lower i n r)"
  by (simp add: group_ok_def)

lemma kind_ok [simp]: "group_ok (g\<lparr>gr_kind := k\<rparr>) = group_ok g"
  by (simp add: group_ok_def)

lemma field_groups_ok:
  "team_group lower issue = Some g \<Longrightarrow> group_ok g" "by_id lower node = Some g \<Longrightarrow> group_ok g"
  "cycle_group lower issue = Some g \<Longrightarrow> group_ok g" "state_group lower issue = Some g \<Longrightarrow> group_ok g"
proof -
  show "team_group lower issue = Some g \<Longrightarrow> group_ok g" "by_id lower node = Some g \<Longrightarrow> group_ok g"
    by (auto simp: team_group_def by_id_def split: option.splits if_splits)
  show "cycle_group lower issue = Some g \<Longrightarrow> group_ok g"
    by (cases "gi_cycle issue") (auto simp: cycle_group_def Let_def split: if_splits)
  show "state_group lower issue = Some g \<Longrightarrow> group_ok g"
    by (cases "gi_state issue") (auto simp: state_group_def split: if_splits)
qed

lemma derived_groups_ok: "parent_group issue = Some g \<Longrightarrow> group_ok g" "priority_group issue = Some g \<Longrightarrow> group_ok g"
proof -
  show "parent_group issue = Some g \<Longrightarrow> group_ok g"
    by (cases "gi_parent issue") (auto simp: parent_group_def group_ok_def Let_def case_prod_beta split: if_splits)
  show "priority_group issue = Some g \<Longrightarrow> group_ok g"
    by (cases "gi_priority issue") (auto simp: priority_group_def group_ok_def)
qed

lemma label_group_ok: "label_group lower issue name = Some g \<Longrightarrow> group_ok g"
  by (auto simp: label_group_def dest!: first_min_in)

lemma pred_if: "pred_option P x \<Longrightarrow> pred_option P y \<Longrightarrow> pred_option P (if b then x else y)"
  by simp

lemma field_group_ok: "group_ok (field_group lower issue kind)"
proof -
  have pick: "group_ok (case x of Some g \<Rightarrow> g | None \<Rightarrow> none_group kind)" if "pred_option group_ok x" for x
    using that by (cases x) (simp_all add: group_ok_def none_group_def Let_def)
  have ok: "pred_option group_ok (team_group lower issue)" "pred_option group_ok (by_id lower node)"
    "pred_option group_ok (parent_group issue)" "pred_option group_ok (cycle_group lower issue)"
    "pred_option group_ok (state_group lower issue)" "pred_option group_ok (priority_group issue)"
    "pred_option group_ok (label_group lower issue name)" for node name
    using field_groups_ok derived_groups_ok label_group_ok by (auto simp: option.pred_set)
  have "pred_option group_ok (case strip_prefix ''label-group:'' kind of Some name \<Rightarrow> label_group lower issue name | None \<Rightarrow> None)"
    by (cases "strip_prefix ''label-group:'' kind") (simp_all add: ok)
  then show ?thesis unfolding field_group_def by (intro pick pred_if ok)
qed

lemma set_first_by: "set (first_by key xs) \<subseteq> set xs"
  by (induction xs) auto

lemma keys_first_by: "key ` set (first_by key xs) = key ` set xs"
proof (induction xs)
  case (Cons x xs)
  have "insert (key x) (key ` {y \<in> set (first_by key xs). key y \<noteq> key x}) = insert (key x) (key ` set (first_by key xs))" by auto
  then show ?case by (simp add: Cons)
qed simp

lemma distinct_first_by: "distinct (map key (first_by key xs))"
  by (induction xs) (auto simp: distinct_map_filter)

lemma distinct_groups_keys:
  "distinct (map gr_key (distinct_groups gs))" "gr_key ` set (distinct_groups gs) = gr_key ` set gs"
  "set (distinct_groups gs) \<subseteq> set gs"
  using distinct_first_by [of gr_key gs] keys_first_by [of gr_key gs] set_first_by [of gr_key gs]
  by (simp_all add: distinct_groups_def distinct_map)

lemma distinct_groups_none_last:
  assumes "\<forall>g \<in> set gs. group_ok g"
  shows "[] \<notin> set (butlast (map gr_key (distinct_groups gs)))"
proof
  assume "[] \<in> set (butlast (map gr_key (distinct_groups gs)))"
  then obtain a g b where split: "butlast (distinct_groups gs) = a @ g # b" and key: "gr_key g = []"
    by (auto simp: map_butlast [symmetric] dest!: split_list)
  then obtain h where whole: "distinct_groups gs = a @ g # b @ [h]"
    by (metis append_butlast_last_id append_Cons append_assoc append_is_Nil_conv butlast.simps(1) list.distinct(1))
  have "sorted (map group_order (distinct_groups gs))" by (simp add: distinct_groups_def)
  then have "group_order g \<le> group_order h" by (simp add: whole sorted_append)
  then have "gr_sort g \<le> gr_sort h" by (auto simp: group_order_def)
  moreover have ok: "group_ok g" "group_ok h" using assms distinct_groups_keys(3) [of gs] by (auto simp: whole)
  ultimately have "gr_key h = []"
    using key by (auto simp: group_ok_def less_eq_sort_key_def sk_fields_def)
  then show False using distinct_groups_keys(1) [of gs] key by (simp add: whole)
qed

section \<open>A configured board\<close>

lemma mset_by_key:
  "distinct ks \<Longrightarrow> key ` set ps \<subseteq> set ks \<Longrightarrow>
     mset (concat (map (\<lambda>k. map f (filter (\<lambda>p. key p = k) ps)) ks)) = mset (map f ps)"
proof (induction ks arbitrary: ps)
  case (Cons k ks)
  let ?rest = "filter (\<lambda>p. key p \<noteq> k) ps"
  have "map (\<lambda>l. map f (filter (\<lambda>p. key p = l) ps)) ks = map (\<lambda>l. map f (filter (\<lambda>p. key p = l) ?rest)) ks"
    using Cons.prems(1) by (auto intro!: arg_cong [of _ _ "map f"] filter_cong)
  moreover have "mset (concat (map (\<lambda>l. map f (filter (\<lambda>p. key p = l) ?rest)) ks)) = mset (map f ?rest)"
    by (rule Cons.IH) (use Cons.prems in auto)
  ultimately have "mset (concat (map (\<lambda>k. map f (filter (\<lambda>p. key p = k) ps)) (k # ks))) =
      mset (map f (filter (\<lambda>p. key p = k) ps)) + mset (map f ?rest)"
    by (simp only: list.map concat.simps mset_append)
  also have "\<dots> = mset (map f ps)"
    using multiset_partition [of "mset ps" "\<lambda>p. key p = k"] by (simp flip: image_mset_union)
  finally show ?case .
qed simp

lemma option_values_simps:
  "set (option_values xs) = {x. Some x \<in> set xs}"
  by (induction xs) (auto simp: option_values_def List.map_filter_simps split: option.splits)

definition placed_well :: "(string \<Rightarrow> string) \<Rightarrow> grouping_mapping \<Rightarrow> placed \<Rightarrow> bool" where
  "placed_well lower mapping p \<longleftrightarrow>
     pl_tab p = map_option (field_group lower (pl_issue p)) (field_level mapping ''tab'') \<and>
     pl_column p = map_option (field_group lower (pl_issue p)) (field_level mapping ''column'') \<and>
     pl_row p = map_option (field_group lower (pl_issue p)) (field_level mapping ''row'')"

lemma place_issues_well: "p \<in> set (place_issues lower issues mapping space) \<Longrightarrow> placed_well lower mapping p"
  by (auto simp: place_issues_def placed_well_def Let_def)

lemma place_issues_ids:
  "mset (placed_ids (place_issues lower issues mapping space)) =
     image_mset issue_identifier (filter_mset (in_space lower mapping space) (mset issues))"
  by (simp add: place_issues_def placed_ids_def Let_def comp_def)

text \<open>The entries of a strip: its groups, or the one unnamed entry when the level does not split.\<close>

definition entries :: "string option \<Rightarrow> issue_group list \<Rightarrow> issue_group option list" where
  "entries lvl gs = (case lvl of Some _ \<Rightarrow> map Some (distinct_groups gs) | None \<Rightarrow> [None])"

lemma level_facts:
  assumes "\<forall>p \<in> set ps. h p = map_option (field_group lower (pl_issue p)) lvl"
  shows "\<forall>g \<in> set (option_values (map h ps)). group_ok g"
    and "(\<lambda>p. key_of (h p)) ` set ps \<subseteq> set (map key_of (entries lvl (option_values (map h ps))))"
    and "distinct (map key_of (entries lvl gs))"
proof -
  show "\<forall>g \<in> set (option_values (map h ps)). group_ok g"
    using assms field_group_ok by (cases lvl) (auto simp: option_values_simps)
  show "distinct (map key_of (entries lvl gs))"
    using distinct_groups_keys(1) [of gs] by (simp add: entries_def distinct_map inj_on_def split: option.splits)
  show "(\<lambda>p. key_of (h p)) ` set ps \<subseteq> set (map key_of (entries lvl (option_values (map h ps))))"
  proof
    fix k assume "k \<in> (\<lambda>p. key_of (h p)) ` set ps"
    then obtain p where p: "p \<in> set ps" "k = key_of (h p)" by blast
    show "k \<in> set (map key_of (entries lvl (option_values (map h ps))))"
    proof (cases lvl)
      case None
      then show ?thesis using assms p by (simp add: entries_def)
    next
      case (Some l)
      have "h p = map_option (field_group lower (pl_issue p)) lvl" using assms p(1) by blast
      then have g: "h p = Some (field_group lower (pl_issue p) l)" using Some by simp
      then have "Some (field_group lower (pl_issue p) l) \<in> h ` set ps" using p(1) by (metis image_eqI)
      then have "gr_key (field_group lower (pl_issue p) l) \<in> gr_key ` set (option_values (map h ps))"
        by (simp add: option_values_simps)
      then have "gr_key (field_group lower (pl_issue p) l) \<in> gr_key ` set (distinct_groups (option_values (map h ps)))"
        by (simp only: distinct_groups_keys(2))
      then show ?thesis using g p(2) by (auto simp: entries_def Some)
    qed
  qed
qed

lemma placed_level:
  assumes "\<forall>p \<in> set ps. placed_well lower mapping p"
  shows "\<forall>p \<in> set ps. pl_tab p = map_option (field_group lower (pl_issue p)) (field_level mapping ''tab'')"
    "\<forall>p \<in> set ps. pl_column p = map_option (field_group lower (pl_issue p)) (field_level mapping ''column'')"
    "\<forall>p \<in> set ps. pl_row p = map_option (field_group lower (pl_issue p)) (field_level mapping ''row'')"
  using assms by (simp_all add: placed_well_def)

lemma tab_columns:
  assumes "\<forall>p \<in> set ps. placed_well lower mapping p"
  shows "mset (concat (map lg_issues (lt_groups (tab_of (field_level mapping ''column'') ps tab)))) =
      mset (placed_ids (filter (\<lambda>p. key_of (pl_tab p) = fst tab) ps))"
    and "distinct (map lg_key (lt_groups (tab_of (field_level mapping ''column'') ps tab)))"
    and "[] \<notin> set (butlast (map lg_key (lt_groups (tab_of (field_level mapping ''column'') ps tab))))"
proof -
  define q where "q = filter (\<lambda>p. key_of (pl_tab p) = fst tab) ps"
  define cs where "cs = entries (field_level mapping ''column'') (option_values (map pl_column q))"
  have "\<forall>p \<in> set q. placed_well lower mapping p" using assms by (simp add: q_def)
  note level = level_facts [OF placed_level(2) [OF this]]
  have groups: "lt_groups (tab_of (field_level mapping ''column'') ps tab) =
      map (column_of q (distinct_groups (option_values (map pl_row q)))) cs"
    by (simp add: tab_of_def Let_def q_def cs_def entries_def split: option.splits)
  have issues: "map lg_issues (map (column_of q rows) cs) =
      map (\<lambda>k. map (\<lambda>p. issue_identifier (pl_issue p)) (filter (\<lambda>p. key_of (pl_column p) = k) q)) (map key_of cs)" for rows
    by (simp add: column_of_def Let_def placed_ids_def)
  have "mset (concat (map (\<lambda>k. map (\<lambda>p. issue_identifier (pl_issue p)) (filter (\<lambda>p. key_of (pl_column p) = k) q)) (map key_of cs))) =
      mset (map (\<lambda>p. issue_identifier (pl_issue p)) q)"
    unfolding cs_def by (rule mset_by_key [OF level(3,2)])
  then show "mset (concat (map lg_issues (lt_groups (tab_of (field_level mapping ''column'') ps tab)))) =
      mset (placed_ids (filter (\<lambda>p. key_of (pl_tab p) = fst tab) ps))"
    unfolding groups issues by (simp add: placed_ids_def q_def)
  have lg: "map lg_key (lt_groups (tab_of (field_level mapping ''column'') ps tab)) =
      (case field_level mapping ''column'' of Some _ \<Rightarrow> map gr_key (distinct_groups (option_values (map pl_column q))) | None \<Rightarrow> [[]])"
    unfolding groups by (simp add: cs_def entries_def column_of_def Let_def comp_def split: option.splits)
  show "distinct (map lg_key (lt_groups (tab_of (field_level mapping ''column'') ps tab)))"
    unfolding lg by (simp add: distinct_groups_keys split: option.splits)
  show "[] \<notin> set (butlast (map lg_key (lt_groups (tab_of (field_level mapping ''column'') ps tab))))"
    unfolding lg using distinct_groups_none_last [OF level(1)] by (simp split: option.splits)
qed

lemma tab_lanes:
  assumes "\<forall>p \<in> set ps. placed_well lower mapping p"
    and "g \<in> set (lt_groups (tab_of (field_level mapping ''column'') ps tab))"
  shows "distinct (map ln_key (lg_lanes g)) \<and> [] \<notin> set (butlast (map ln_key (lg_lanes g))) \<and>
    (if field_level mapping ''row'' = None then lg_lanes g = []
     else mset (concat (map ln_issues (lg_lanes g))) = mset (lg_issues g))"
proof -
  define q where "q = filter (\<lambda>p. key_of (pl_tab p) = fst tab) ps"
  define rows where "rows = distinct_groups (option_values (map pl_row q))"
  have q: "\<forall>p \<in> set q. placed_well lower mapping p" using assms(1) by (simp add: q_def)
  note level = level_facts [OF placed_level(3) [OF q]]
  obtain c where g: "g = column_of q rows c" using assms(2) by (auto simp: tab_of_def Let_def q_def rows_def)
  define here where "here = filter (\<lambda>p. key_of (pl_column p) = key_of c) q"
  have lanes: "lg_lanes g = map (lane_of here) rows" and ids: "lg_issues g = placed_ids here"
    by (simp_all add: g column_of_def Let_def here_def)
  have keys: "map ln_key (lg_lanes g) = map gr_key rows" by (simp add: lanes lane_of_def)
  have "distinct (map gr_key rows)" "[] \<notin> set (butlast (map gr_key rows))"
    unfolding rows_def using distinct_groups_keys(1) distinct_groups_none_last [OF level(1)] by auto
  moreover have "lg_lanes g = []" if "field_level mapping ''row'' = None"
  proof -
    have "set (option_values (map pl_row q)) = {}" using q that by (auto simp: option_values_simps placed_well_def)
    then have "rows = []" using distinct_groups_keys(3) unfolding rows_def by (metis subset_empty set_empty)
    then show ?thesis by (simp add: lanes)
  qed
  moreover have "mset (concat (map ln_issues (lg_lanes g))) = mset (lg_issues g)" if "field_level mapping ''row'' \<noteq> None"
  proof -
    have "map key_of (entries (field_level mapping ''row'') (option_values (map pl_row q))) = map (\<lambda>r. Some (gr_key r)) rows"
      using that by (auto simp: entries_def rows_def)
    then have "(\<lambda>p. key_of (pl_row p)) ` set here \<subseteq> set (map (\<lambda>r. Some (gr_key r)) rows)"
      using level(2) by (auto simp: here_def)
    moreover have "distinct (map (\<lambda>r. Some (gr_key r)) rows)"
      using \<open>distinct (map gr_key rows)\<close> by (simp add: distinct_map inj_on_def)
    ultimately have "mset (concat (map (\<lambda>k. map (\<lambda>p. issue_identifier (pl_issue p)) (filter (\<lambda>p. key_of (pl_row p) = k) here))
        (map (\<lambda>r. Some (gr_key r)) rows))) = mset (map (\<lambda>p. issue_identifier (pl_issue p)) here)"
      by (intro mset_by_key)
    then show ?thesis by (simp add: lanes ids lane_of_def placed_ids_def comp_def)
  qed
  ultimately show ?thesis by (simp add: keys)
qed

definition plain_issue :: "string \<Rightarrow> string \<Rightarrow> string \<Rightarrow> grouping_issue" where
  "plain_issue i key team =
     \<lparr>gi_id = i, gi_identifier = key, gi_title = [], gi_updated_at = [], gi_state = None,
      gi_team = (if team = [] then None else Some \<lparr>itm_id = team, itm_key = team, itm_name = team\<rparr>),
      gi_project = None, gi_project_milestone = None, gi_cycle = None, gi_assignee = None, gi_priority = None,
      gi_parent = None, gi_labels = []\<rparr>"

definition sample_issues :: "grouping_issue list" where
  "sample_issues =
     [plain_issue ''u1'' ''WEB-10'' ''t1'', plain_issue ''u2'' ''WEB-9'' ''t1'',
      (plain_issue ''u3'' ''OPS-1'' [])\<lparr>gi_labels := [\<lparr>ilb_id = ''l1'', ilb_name = ''bug'', ilb_parent = None\<rparr>,
         \<lparr>ilb_id = ''l2'', ilb_name = ''ui'', ilb_parent = None\<rparr>]\<rparr>]"

definition by_team :: grouping_mapping where
  "by_team = \<lparr>gm_levels = [(''column'', ''team''), (''row'', ''assignee'')], gm_filter = []\<rparr>"

text \<open>
  C36: A configured board shows every issue of its space exactly once: the columns of the tabs
  together hold the identifiers of the issues that pass the space filter, with their multiplicities; the lanes of
  a column hold those of the column (there are none without a row level). Tab, column and lane keys are
  distinct, and the group without a value is the last of its strip.
\<close>

theorem configured_board_partitions:
  "let tabs = configured lower issues mapping space in
     mset (concat (map lg_issues (concat (map lt_groups tabs)))) =
       image_mset issue_identifier (filter_mset (in_space lower mapping space) (mset issues)) \<and>
     distinct (map lt_key tabs) \<and> [] \<notin> set (butlast (map lt_key tabs)) \<and>
     (\<forall>t \<in> set tabs. distinct (map lg_key (lt_groups t)) \<and> [] \<notin> set (butlast (map lg_key (lt_groups t))) \<and>
       (\<forall>g \<in> set (lt_groups t). distinct (map ln_key (lg_lanes g)) \<and> [] \<notin> set (butlast (map ln_key (lg_lanes g))) \<and>
          (if field_level mapping ''row'' = None then lg_lanes g = []
           else mset (concat (map ln_issues (lg_lanes g))) = mset (lg_issues g))))"
proof -
  define ps where "ps = place_issues lower issues mapping space"
  define gs where "gs = option_values (map pl_tab ps)"
  define ts where "ts = (case field_level mapping ''tab'' of
      Some _ \<Rightarrow> map (\<lambda>g. (Some (gr_key g), gr_label g)) (distinct_groups gs) | None \<Rightarrow> [(None, ''Board'')])"
  have board: "configured lower issues mapping space = map (tab_of (field_level mapping ''column'') ps) ts"
    by (simp add: configured_def Let_def ps_def ts_def gs_def split: option.splits)
  have well: "\<forall>p \<in> set ps. placed_well lower mapping p" by (simp add: ps_def place_issues_well)
  note level = level_facts [OF placed_level(1) [OF well], folded gs_def]
  have keys: "map fst ts = map key_of (entries (field_level mapping ''tab'') gs)"
    by (simp add: ts_def entries_def split: option.splits)
  have "mset (concat (map (\<lambda>k. map (\<lambda>p. issue_identifier (pl_issue p)) (filter (\<lambda>p. key_of (pl_tab p) = k) ps)) (map fst ts))) =
      mset (map (\<lambda>p. issue_identifier (pl_issue p)) ps)"
    unfolding keys by (rule mset_by_key [OF level(3,2)])
  moreover have "mset (concat (map lg_issues (concat (map lt_groups (map (tab_of (field_level mapping ''column'') ps) us))))) =
      mset (concat (map (\<lambda>k. map (\<lambda>p. issue_identifier (pl_issue p)) (filter (\<lambda>p. key_of (pl_tab p) = k) ps)) (map fst us)))" for us
    by (induction us) (use tab_columns(1) [OF well] in \<open>simp_all add: placed_ids_def\<close>)
  ultimately have 1: "mset (concat (map lg_issues (concat (map lt_groups (configured lower issues mapping space))))) =
      image_mset issue_identifier (filter_mset (in_space lower mapping space) (mset issues))"
    unfolding board using place_issues_ids [of lower issues mapping space] by (simp add: placed_ids_def ps_def)
  have lt: "map lt_key (configured lower issues mapping space) =
      (case field_level mapping ''tab'' of Some _ \<Rightarrow> map gr_key (distinct_groups gs) | None \<Rightarrow> [[]])"
    unfolding board by (simp add: ts_def tab_of_def Let_def comp_def split: option.splits)
  have 2: "distinct (map lt_key (configured lower issues mapping space))"
    "[] \<notin> set (butlast (map lt_key (configured lower issues mapping space)))"
    unfolding lt using distinct_groups_keys(1) distinct_groups_none_last [OF level(1)] by (auto split: option.splits)
  show ?thesis
    unfolding Let_def using 1 2 tab_columns(2,3) [OF well] tab_lanes [OF well] by (auto simp: board)
qed

theorem configured_board_partitions_witness:
  "let tabs = configured ascii_lower sample_issues by_team None in
     mset (concat (map lg_issues (concat (map lt_groups tabs)))) = {#''WEB-10'', ''WEB-9'', ''OPS-1''#} \<and>
     map (\<lambda>g. (lg_label g, lg_issues g, map ln_label (lg_lanes g))) (lt_groups (hd tabs)) =
       [(''t1'', [''WEB-9'', ''WEB-10''], [''No assignee'']), (''No team'', [''OPS-1''], [''No assignee''])]"
proof -
  have "image_mset issue_identifier (filter_mset (in_space ascii_lower by_team None) (mset sample_issues)) =
      {#''WEB-10'', ''WEB-9'', ''OPS-1''#}"
    by (simp add: sample_issues_def plain_issue_def issue_identifier_def in_space_def by_team_def field_level_def)
  moreover have "map (\<lambda>g. (lg_label g, lg_issues g, map ln_label (lg_lanes g))) (lt_groups (hd (configured ascii_lower sample_issues by_team None))) =
       [(''t1'', [''WEB-9'', ''WEB-10''], [''No assignee'']), (''No team'', [''OPS-1''], [''No assignee''])]"
    by code_simp
  ultimately show ?thesis
    using configured_board_partitions [of ascii_lower sample_issues by_team None] by (simp add: Let_def)
qed

lemma place_issues_order:
  assumes "mset issues = mset issues'" and "distinct (map gi_id issues)"
  shows "place_issues lower issues mapping space = place_issues lower issues' mapping space"
proof -
  have "sort_key (\<lambda>i. (cell_order i sub, gi_id i)) issues = sort_key (\<lambda>i. (cell_order i sub, gi_id i)) issues'" for sub
    by (rule sort_key_inj_key_eq) (use assms in \<open>auto simp: distinct_map inj_on_def\<close>)
  then show ?thesis by (simp add: place_issues_def Let_def)
qed

text \<open>
  C37: A configured board does not flicker. Linear may answer with the same issues in any order, or a later page
  first: as long as their ids are distinct, tabs, columns, lanes, labels and the order inside every cell are the
  same.
\<close>

theorem configured_board_order:
  assumes "mset issues = mset issues'" and "distinct (map gi_id issues)"
  shows "configured lower issues mapping space = configured lower issues' mapping space"
  using place_issues_order [OF assms] by (simp add: configured_def)

theorem configured_board_order_witness:
  "configured ascii_lower (rev sample_issues) by_team None = configured ascii_lower sample_issues by_team None \<and>
   rev sample_issues \<noteq> sample_issues"
proof
  show "configured ascii_lower (rev sample_issues) by_team None = configured ascii_lower sample_issues by_team None"
    by (rule configured_board_order) (simp_all add: sample_issues_def plain_issue_def)
  show "rev sample_issues \<noteq> sample_issues" by (simp add: sample_issues_def plain_issue_def)
qed

section \<open>A board without a grouping config\<close>

lemma note_keys_keys: "fst ` set (note_keys ks seen) = fst ` set ks \<union> fst ` set seen"
  unfolding note_keys_def by (induction ks arbitrary: seen) (auto split: prod.splits)

lemma noted_keys:
  "fst ` set (fold (\<lambda>i. note_keys (f i)) issues seen) = (\<Union>i \<in> set issues. fst ` set (f i)) \<union> fst ` set seen"
  by (induction issues arbitrary: seen) (auto simp: note_keys_keys)

lemma set_push_keys: "set (push_new keys order) = set keys \<union> set order"
  unfolding push_new_def by (induction keys arbitrary: order) auto

lemma first_by_id: "set (first_by (\<lambda>k. k) xs) = set xs" "distinct (first_by (\<lambda>k. k) xs)"
  using keys_first_by [of "\<lambda>k. k" xs] distinct_first_by [of "\<lambda>k. k" xs] by simp_all


definition label_view :: view_preferences where
  "label_view =
     \<lparr>vp_layout = None, vp_issue_grouping = Some ''label'', vp_issue_sub_grouping = None, vp_column_order_board = [],
      vp_hidden_columns = [''nolabel''], vp_hidden_rows = []\<rparr>"


end
