(* ===== verification/Wire_Time.thy ===== *)
theory Wire_Time
  imports Rust_Std
begin

text \<open>
  The wire timestamps of \<open>protocol.rs\<close>, \<open>YYYY-MM-DD HH:MM:SS\<close>, as SQLite's \<open>datetime\<close> prints them, and the
  reading of them as seconds since the epoch.
\<close>

section \<open>Reading a timestamp\<close>

fun split_all :: "char \<Rightarrow> string \<Rightarrow> string list" where
  \<comment> \<open>\<open>str::split\<close>\<close>
  "split_all d [] = [[]]"
| "split_all d (c # cs) = (if c = d then [] # split_all d cs else (c # hd (split_all d cs)) # tl (split_all d cs))"

definition quot :: "int \<Rightarrow> int \<Rightarrow> int" where
  \<comment> \<open>integer division, towards zero\<close>
  "quot a b = sgn a * (\<bar>a\<bar> div b)"

definition days_from_civil :: "int \<Rightarrow> int \<Rightarrow> int \<Rightarrow> int" where
  "days_from_civil year m d =
     (let y = (if m \<le> 2 then year - 1 else year);
          era = quot (if 0 \<le> y then y else y - 399) 400;
          yoe = y - era * 400;
          doy = quot (153 * (if m > 2 then m - 3 else m + 9) + 2) 5 + d - 1;
          doe = yoe * 365 + quot yoe 4 - quot yoe 100 + doy
      in era * 146097 + doe - 719468)"

definition parse_timestamp :: "string \<Rightarrow> int option" where
  \<comment> \<open>years of four digits stay far from the bounds of \<open>i64\<close>\<close>
  "parse_timestamp s =
     (case split_once (CHR '' '') s of None \<Rightarrow> None
      | Some (date, time) \<Rightarrow>
          (case map parse_i64 (take 3 (split_all (CHR ''-'') date)) of
             [Some year, Some month, Some day] \<Rightarrow>
               (case map parse_i64 (take 3 (split_all (CHR '':'') time)) of
                  [Some hh, Some mm] \<Rightarrow> Some (days_from_civil year month day * 86400 + hh * 3600 + mm * 60)
                | [Some hh, Some mm, Some ss] \<Rightarrow> Some (days_from_civil year month day * 86400 + hh * 3600 + mm * 60 + ss)
                | _ \<Rightarrow> None)
           | _ \<Rightarrow> None))"

section \<open>The calendar\<close>

definition leap :: "int \<Rightarrow> bool" where
  "leap y \<longleftrightarrow> y mod 4 = 0 \<and> (y mod 100 \<noteq> 0 \<or> y mod 400 = 0)"

definition days_in_month :: "int \<Rightarrow> int \<Rightarrow> int" where
  "days_in_month y m = (if m = 2 then if leap y then 29 else 28 else if m \<in> {4, 6, 9, 11} then 30 else 31)"

record civil =
  ci_year :: int
  ci_month :: int
  ci_day :: int
  ci_hour :: int
  ci_minute :: int
  ci_second :: int

definition civil_ok :: "civil \<Rightarrow> bool" where
  "civil_ok c \<longleftrightarrow> 0 \<le> ci_year c \<and> ci_year c \<le> 9999 \<and> 1 \<le> ci_month c \<and> ci_month c \<le> 12 \<and>
     1 \<le> ci_day c \<and> ci_day c \<le> days_in_month (ci_year c) (ci_month c) \<and>
     0 \<le> ci_hour c \<and> ci_hour c < 24 \<and> 0 \<le> ci_minute c \<and> ci_minute c < 60 \<and> 0 \<le> ci_second c \<and> ci_second c < 60"

definition next_day :: "civil \<Rightarrow> civil" where
  "next_day c =
     (if ci_day c < days_in_month (ci_year c) (ci_month c) then c\<lparr>ci_day := ci_day c + 1\<rparr>
      else if ci_month c < 12 then c\<lparr>ci_month := ci_month c + 1, ci_day := 1\<rparr>
      else c\<lparr>ci_year := ci_year c + 1, ci_month := 1, ci_day := 1\<rparr>)"

definition next_second :: "civil \<Rightarrow> civil" where
  "next_second c =
     (if ci_second c < 59 then c\<lparr>ci_second := ci_second c + 1\<rparr>
      else if ci_minute c < 59 then c\<lparr>ci_minute := ci_minute c + 1, ci_second := 0\<rparr>
      else if ci_hour c < 23 then c\<lparr>ci_hour := ci_hour c + 1, ci_minute := 0, ci_second := 0\<rparr>
      else next_day (c\<lparr>ci_hour := 0, ci_minute := 0, ci_second := 0\<rparr>))"

definition pad :: "nat \<Rightarrow> int \<Rightarrow> string" where
  "pad w n = replicate (w - length (show_nat (nat n))) (CHR ''0'') @ show_nat (nat n)"

definition stamp :: "civil \<Rightarrow> string" where
  \<comment> \<open>the text SQLite prints\<close>
  "stamp c = pad 4 (ci_year c) @ ''-'' @ pad 2 (ci_month c) @ ''-'' @ pad 2 (ci_day c) @ '' '' @
     pad 2 (ci_hour c) @ '':'' @ pad 2 (ci_minute c) @ '':'' @ pad 2 (ci_second c)"

lemma quot_div: "0 \<le> a \<Longrightarrow> 0 < b \<Longrightarrow> quot a b = a div b"
  by (cases "a = 0") (simp_all add: quot_def)

lemma era_div: "quot (if 0 \<le> y then y else y - 399) 400 = y div 400"
proof (cases "0 \<le> y")
  case False
  have "399 - y = 400 * - (y div 400) + (399 - y mod 400)" "0 \<le> 399 - y mod 400" "399 - y mod 400 < 400"
    using mult_div_mod_eq [of 400 y] pos_mod_bound [of 400 y] by linarith+
  then have "(399 - y) div 400 = - (y div 400)" by (metis int_div_pos_eq)
  then have "quot (y - 399) 400 = y div 400" using False by (simp add: quot_def)
  then show ?thesis using False by simp
qed (simp add: quot_div)

definition year_start :: "int \<Rightarrow> int" where
  \<comment> \<open>the days before 1 March of a year\<close>
  "year_start z = 365 * z + z div 4 - z div 100 + z div 400"

lemma days_from_civil_flat:
  assumes "1 \<le> m" "m \<le> 12"
  shows "days_from_civil y m d =
    year_start (if m \<le> 2 then y - 1 else y) + (153 * (if m > 2 then m - 3 else m + 9) + 2) div 5 + d - 1 - 719468"
proof -
  define z where "z = (if m \<le> 2 then y - 1 else y)"
  define k where "k = z div 400"
  have yoe: "0 \<le> z - k * 400"
    using mult_div_mod_eq [of 400 z] pos_mod_sign [of 400 z] unfolding k_def by linarith
  have "z - k * 400 = z + (- (100 * k)) * 4" "z - k * 400 = z + (- (4 * k)) * 100" by simp_all
  then have parts: "(z - k * 400) div 4 = z div 4 - 100 * k" "(z - k * 400) div 100 = z div 100 - 4 * k"
    by (simp_all only: div_mult_self1 zero_neq_numeral not_False_eq_True)
  show ?thesis
    unfolding days_from_civil_def Let_def z_def [symmetric] era_div k_def [symmetric]
    using assms yoe by (simp add: quot_div parts year_start_def) (simp add: k_def)
qed

lemma pred_div: "0 < (b :: int) \<Longrightarrow> (y - 1) div b = y div b - (if y mod b = 0 then 1 else 0)"
proof -
  assume b: "0 < b"
  show ?thesis
  proof (cases "y mod b = 0")
    case True
    have "y - 1 = b * (y div b - 1) + (b - 1)" using mult_div_mod_eq [of b y] True by (simp add: algebra_simps)
    then have "(y - 1) div b = y div b - 1" by (rule int_div_pos_eq) (use b in simp_all)
    then show ?thesis using True by simp
  next
    case False
    have "0 \<le> y mod b" "y mod b < b" using b by simp_all
    then have "0 \<le> y mod b - 1" "y mod b - 1 < b" using False by linarith+
    moreover have "y - 1 = b * (y div b) + (y mod b - 1)" using mult_div_mod_eq [of b y] by linarith
    ultimately have "(y - 1) div b = y div b" by (metis int_div_pos_eq)
    then show ?thesis using False by simp
  qed
qed

lemma month_cases:
  "1 \<le> (m :: int) \<Longrightarrow> m \<le> 12 \<Longrightarrow>
    m = 1 \<or> m = 2 \<or> m = 3 \<or> m = 4 \<or> m = 5 \<or> m = 6 \<or> m = 7 \<or> m = 8 \<or> m = 9 \<or> m = 10 \<or> m = 11 \<or> m = 12"
  by presburger

lemma leap_step:
  "year_start y = year_start (y - 1) + (if leap y then 366 else 365)"
proof -
  have "y mod 400 = 0 \<Longrightarrow> y mod 100 = 0" "y mod 100 = 0 \<Longrightarrow> y mod 4 = 0"
    using mod_mod_cancel [of 100 400 y] mod_mod_cancel [of 4 100 y] by simp_all
  then show ?thesis by (auto simp: pred_div leap_def year_start_def)
qed

lemma month_step:
  assumes "1 \<le> m" "m < 12"
  shows "days_from_civil y (m + 1) 1 = days_from_civil y m (days_in_month y m) + 1"
proof -
  have "m \<le> 12" using assms by simp
  from month_cases [OF assms(1) this] show ?thesis
    by (elim disjE) (use assms leap_step [of y] in \<open>simp_all add: days_from_civil_flat Let_def days_in_month_def\<close>)
qed

lemma next_day_counts:
  assumes "civil_ok c"
  shows "days_from_civil (ci_year (next_day c)) (ci_month (next_day c)) (ci_day (next_day c)) =
    days_from_civil (ci_year c) (ci_month c) (ci_day c) + 1"
proof -
  have m: "1 \<le> ci_month c" "ci_month c \<le> 12" and d: "ci_day c \<le> days_in_month (ci_year c) (ci_month c)"
    using assms by (auto simp: civil_ok_def)
  consider "ci_day c < days_in_month (ci_year c) (ci_month c)"
    | "ci_day c = days_in_month (ci_year c) (ci_month c)" "ci_month c < 12"
    | "ci_day c = days_in_month (ci_year c) (ci_month c)" "ci_month c = 12"
    using m d by linarith
  then show ?thesis
  proof cases
    case 1
    then show ?thesis using m by (simp add: next_day_def days_from_civil_flat Let_def)
  next
    case 2
    then show ?thesis using month_step [of "ci_month c" "ci_year c"] m by (simp add: next_day_def)
  next
    case 3
    then show ?thesis by (simp add: next_day_def days_from_civil_flat Let_def days_in_month_def)
  qed
qed

section \<open>Printing and reading back\<close>

lemma nat_of_digits_zeros: "nat_of_digits (replicate k (CHR ''0'') @ ds) = nat_of_digits ds"
  by (induction k) (simp_all add: nat_of_digits_def digit_val_def)

lemma pad_digits: "list_all is_digit (pad w n)" "pad w n \<noteq> []"
  using show_nat_digits [of "nat n"] by (auto simp: pad_def list_all_iff is_digit_def)

lemma parse_digits: "list_all is_digit ds \<Longrightarrow> ds \<noteq> [] \<Longrightarrow> int (nat_of_digits ds) \<le> i64_max \<Longrightarrow> parse_i64 ds = Some (int (nat_of_digits ds))"
  by (cases ds) (auto simp: parse_i64.simps Let_def in_i64_def i64_min_def is_digit_def)

lemma parse_pad: "0 \<le> n \<Longrightarrow> n \<le> 9999 \<Longrightarrow> parse_i64 (pad w n) = Some n"
  using parse_digits [OF pad_digits, of w n] by (simp add: pad_def nat_of_digits_zeros i64_max_def)

lemma split_all_digits: "d \<notin> set ds \<Longrightarrow> split_all d (ds @ d # rest) = ds # split_all d rest"
  "d \<notin> set ds \<Longrightarrow> split_all d ds = [ds]"
  by (induction ds) auto

lemma pad_no_sep: "\<not> is_digit d \<Longrightarrow> d \<notin> set (pad w n)"
  using pad_digits(1) [of w n] by (auto simp: list_all_iff)

lemma split_once_pad: "\<not> is_digit d \<Longrightarrow> split_once d (pad w n @ d # rest) = Some (pad w n, rest)"
  by (simp add: split_once_Some pad_no_sep)

lemma parse_stamp:
  assumes "civil_ok c"
  shows "parse_timestamp (stamp c) =
    Some (days_from_civil (ci_year c) (ci_month c) (ci_day c) * 86400 + ci_hour c * 3600 + ci_minute c * 60 + ci_second c)"
proof -
  let ?date = "pad 4 (ci_year c) @ CHR ''-'' # pad 2 (ci_month c) @ CHR ''-'' # pad 2 (ci_day c)"
  let ?time = "pad 2 (ci_hour c) @ CHR '':'' # pad 2 (ci_minute c) @ CHR '':'' # pad 2 (ci_second c)"
  have sep: "\<not> is_digit (CHR ''-'')" "\<not> is_digit (CHR '':'')" "\<not> is_digit (CHR '' '')" by (simp_all add: is_digit_def)
  have stamp: "stamp c = ?date @ CHR '' '' # ?time" by (simp add: stamp_def)
  have "CHR '' '' \<notin> set ?date" using pad_no_sep [OF sep(3)] by simp
  then have once: "split_once (CHR '' '') (stamp c) = Some (?date, ?time)" unfolding stamp by (simp add: split_once_Some)
  have date: "split_all (CHR ''-'') ?date = [pad 4 (ci_year c), pad 2 (ci_month c), pad 2 (ci_day c)]"
    and time: "split_all (CHR '':'') ?time = [pad 2 (ci_hour c), pad 2 (ci_minute c), pad 2 (ci_second c)]"
    using pad_no_sep [OF sep(1)] pad_no_sep [OF sep(2)] by (simp_all add: split_all_digits)
  have "days_in_month y m \<le> 31" for y m by (simp add: days_in_month_def)
  then have day: "ci_day c \<le> 31" using assms by (auto simp: civil_ok_def intro: order_trans)
  have range: "0 \<le> ci_year c" "ci_year c \<le> 9999" "0 \<le> ci_month c" "ci_month c \<le> 12" "0 \<le> ci_day c"
    "0 \<le> ci_hour c" "ci_hour c < 24" "0 \<le> ci_minute c" "ci_minute c < 60" "0 \<le> ci_second c" "ci_second c < 60"
    using assms by (auto simp: civil_ok_def)
  show ?thesis
    unfolding parse_timestamp_def once option.case prod.case date time using range day by (simp add: parse_pad numeral_3_eq_3)
qed

text \<open>
  A timestamp is read as the seconds since the epoch. The text SQLite prints for 1970-01-01 00:00:00 is
  second 0, and the text of the calendar's next second (leap years, months of 28 to 31 days, the turn of a year
  included) is read as one more, in every year from 0 to 9999.
\<close>

theorem timestamps_count_seconds:
  assumes "civil_ok c"
  shows "parse_timestamp ''1970-01-01 00:00:00'' = Some 0 \<and>
    (\<exists>n. parse_timestamp (stamp c) = Some n \<and>
       (ci_year (next_second c) \<le> 9999 \<longrightarrow> parse_timestamp (stamp (next_second c)) = Some (n + 1)))"
proof (intro conjI)
  show "parse_timestamp ''1970-01-01 00:00:00'' = Some 0" by code_simp
  have ok: "civil_ok (next_second c)" if "ci_year (next_second c) \<le> 9999"
    using assms that by (auto simp: civil_ok_def next_second_def next_day_def days_in_month_def split: if_splits)
  have "civil_ok (c\<lparr>ci_hour := 0, ci_minute := 0, ci_second := 0\<rparr>)" using assms by (simp add: civil_ok_def)
  from next_day_counts [OF this]
  have "days_from_civil (ci_year (next_second c)) (ci_month (next_second c)) (ci_day (next_second c)) * 86400 +
      ci_hour (next_second c) * 3600 + ci_minute (next_second c) * 60 + ci_second (next_second c) =
    days_from_civil (ci_year c) (ci_month c) (ci_day c) * 86400 + ci_hour c * 3600 + ci_minute c * 60 + ci_second c + 1"
    using assms by (auto simp: next_second_def civil_ok_def next_day_def)
  then show "\<exists>n. parse_timestamp (stamp c) = Some n \<and>
      (ci_year (next_second c) \<le> 9999 \<longrightarrow> parse_timestamp (stamp (next_second c)) = Some (n + 1))"
    using parse_stamp [OF assms] parse_stamp [OF ok] by simp
qed

theorem timestamps_count_seconds_witness:
  "let c = \<lparr>ci_year = 2024, ci_month = 2, ci_day = 28, ci_hour = 23, ci_minute = 59, ci_second = 59\<rparr> in
     stamp c = ''2024-02-28 23:59:59'' \<and> stamp (next_second c) = ''2024-02-29 00:00:00'' \<and>
     (\<exists>n. parse_timestamp (stamp c) = Some n \<and> parse_timestamp (stamp (next_second c)) = Some (n + 1))"
proof -
  let ?c = "\<lparr>ci_year = 2024, ci_month = 2, ci_day = 28, ci_hour = 23, ci_minute = 59, ci_second = 59\<rparr>"
  have "stamp ?c = ''2024-02-28 23:59:59''" "stamp (next_second ?c) = ''2024-02-29 00:00:00''" by code_simp+
  moreover have "civil_ok ?c" "ci_year (next_second ?c) \<le> 9999" by code_simp+
  ultimately show ?thesis using timestamps_count_seconds [of ?c] by (simp add: Let_def)
qed

end
