(* ===== verification/Linear_State.thy ===== *)
theory Linear_State
  imports Engine_Grouping Engine_Validation Wire_Time
begin

text \<open>
  The types and checks of \<open>crates/board-core/src/db/linear_state.rs\<close>: bindings, marks, notes, show-requests,
  activity and the grouping mappings with their validation. The three
  owner fields of a row are one \<open>linear_owner\<close>. \<open>shown\<close> is the fragment \<open>J\<close> of a message (its cut at 80
  characters is presentation). Whether 36 characters are a UUID is the parameter \<open>uuid\<close> (crate \<open>uuid\<close>).
\<close>

section \<open>Enumerations\<close>

datatype worktree_state = Bound | Misplaced | Stale

fun worktree_state_str :: "worktree_state \<Rightarrow> string" where
  "worktree_state_str Bound = ''bound''"
| "worktree_state_str Misplaced = ''misplaced''"
| "worktree_state_str Stale = ''stale''"

definition parse_worktree_state :: "string \<Rightarrow> worktree_state option" where
  "parse_worktree_state s =
     (if s = ''bound'' then Some Bound else if s = ''misplaced'' then Some Misplaced else if s = ''stale'' then Some Stale else None)"

datatype mark_kind = Attention | Question | DoneMark | Suggestion

fun mark_kind_str :: "mark_kind \<Rightarrow> string" where
  "mark_kind_str Attention = ''attention''"
| "mark_kind_str Question = ''question''"
| "mark_kind_str DoneMark = ''done''"
| "mark_kind_str Suggestion = ''suggestion''"

definition parse_mark_kind :: "string \<Rightarrow> mark_kind option" where
  "parse_mark_kind s =
     (if s = ''attention'' then Some Attention else if s = ''question'' then Some Question else if s = ''done'' then Some DoneMark
      else if s = ''suggestion'' then Some Suggestion else None)"

datatype show_outcome = Accepted | Rejected | Withdrawn | Expired

fun show_outcome_str :: "show_outcome \<Rightarrow> string" where
  "show_outcome_str Accepted = ''accepted''"
| "show_outcome_str Rejected = ''rejected''"
| "show_outcome_str Withdrawn = ''withdrawn''"
| "show_outcome_str Expired = ''expired''"

definition parse_show_outcome :: "string \<Rightarrow> show_outcome option" where
  "parse_show_outcome s =
     (if s = ''accepted'' then Some Accepted else if s = ''rejected'' then Some Rejected else if s = ''withdrawn'' then Some Withdrawn
      else if s = ''expired'' then Some Expired else None)"

datatype pane_placement = TabPane | SplitPane

fun pane_placement_str :: "pane_placement \<Rightarrow> string" where
  "pane_placement_str TabPane = ''tab''"
| "pane_placement_str SplitPane = ''split''"

definition parse_pane_placement :: "string \<Rightarrow> pane_placement option" where
  "parse_pane_placement s = (if s = ''tab'' then Some TabPane else if s = ''split'' then Some SplitPane else None)"

interpretation worktree_state_enum: str_enum worktree_state_str parse_worktree_state
proof
  show "parse_worktree_state (worktree_state_str v) = Some v" for v by (cases v) (simp_all add: parse_worktree_state_def)
qed

interpretation mark_kind_enum: str_enum mark_kind_str parse_mark_kind
proof
  show "parse_mark_kind (mark_kind_str v) = Some v" for v by (cases v) (simp_all add: parse_mark_kind_def)
qed

interpretation show_outcome_enum: str_enum show_outcome_str parse_show_outcome
proof
  show "parse_show_outcome (show_outcome_str v) = Some v" for v by (cases v) (simp_all add: parse_show_outcome_def)
qed

interpretation pane_placement_enum: str_enum pane_placement_str parse_pane_placement
proof
  show "parse_pane_placement (pane_placement_str v) = Some v" for v by (cases v) (simp_all add: parse_pane_placement_def)
qed

section \<open>Rows\<close>

record resolved_grouping =
  rg_space :: "string option"
  rg_mapping :: grouping_mapping

record space_binding =
  sb_session :: string
  sb_space :: string
  sb_project_id :: string
  sb_display_name :: "string option"
  sb_team_ids :: "string list"
  sb_view :: "json option"

record worktree_binding =
  wb_path :: string
  wb_issue :: string
  wb_state :: worktree_state
  wb_branch :: "string option"
  wb_tab :: "string option"
  wb_display_name :: "string option"
  wb_team_ids :: "string list"
  wb_view :: "json option"
  wb_carried :: "(string \<times> json) list"

record session_scope =
  ss_session_id :: string
  ss_team_id :: string
  ss_team_key :: "string option"

record linear_owner =
  ow_socket :: "string option"
  ow_pane :: "string option"
  ow_claude :: "string option"

definition is_anonymous :: "linear_owner \<Rightarrow> bool" where
  "is_anonymous w \<longleftrightarrow> ow_socket w = None \<and> ow_pane w = None \<and> ow_claude w = None"

record mark =
  mk_id :: int
  mk_space :: string
  mk_issue :: string
  mk_kind :: mark_kind
  mk_text :: "string option"
  mk_detail :: "json option"
  mk_created_by :: "string option"
  mk_created_at :: string
  mk_owner :: linear_owner

record linear_note =
  nt_id :: int
  nt_space :: string
  nt_issue :: string
  nt_body :: string
  nt_author :: string
  nt_created_at :: string
  nt_owner :: linear_owner

record show_request =
  sh_id :: int
  sh_space :: string
  sh_issue :: string
  sh_reason :: "string option"
  sh_requested_by :: "string option"
  sh_created_at :: string
  sh_acknowledged_at :: "string option"
  sh_owner :: linear_owner
  sh_expires_at :: "string option"
  sh_outcome :: "show_outcome option"

record activity_claims =
  ac_socket :: "string option"
  ac_pane :: "string option"
  ac_workspace :: "string option"
  ac_card_id :: "int option"
  ac_run_id :: "int option"

record linear_activity =
  av_id :: int
  av_space :: "string option"
  av_tool_name :: string
  av_issue :: "string option"
  av_claims :: activity_claims
  av_created_at :: string

record board_pane =
  bp_socket :: string
  bp_pane_id :: string
  bp_context_key :: string
  bp_placement :: pane_placement
  bp_workspace_id :: "string option"
  bp_origin_pane_id :: "string option"
  bp_created_at :: string

record new_mark =
  nm_session :: string
  nm_space :: string
  nm_issue :: string
  nm_kind :: mark_kind
  nm_text :: "string option"
  nm_detail :: "json option"
  nm_created_by :: "string option"
  nm_owner :: linear_owner

record new_show_request =
  ns_session :: string
  ns_space :: string
  ns_issue :: string
  ns_reason :: "string option"
  ns_requested_by :: "string option"
  ns_owner :: linear_owner
  ns_expires_at :: int

record new_activity =
  na_session :: string
  na_space :: "string option"
  na_tool_name :: string
  na_issue :: "string option"
  na_claims :: activity_claims

record new_board_pane =
  np_socket :: string
  np_pane_id :: string
  np_context_key :: string
  np_placement :: pane_placement
  np_workspace_id :: "string option"
  np_origin_pane_id :: "string option"

section \<open>Expiry\<close>

definition is_overdue :: "'a show_request_scheme \<Rightarrow> int \<Rightarrow> bool" where
  \<comment> \<open>a request with no readable expiry never expires\<close>
  "is_overdue r now \<longleftrightarrow>
     (case sh_expires_at r of None \<Rightarrow> False | Some s \<Rightarrow> (case parse_timestamp s of None \<Rightarrow> False | Some expires \<Rightarrow> expires \<le> now))"

definition is_pending :: "'a show_request_scheme \<Rightarrow> int \<Rightarrow> bool" where
  "is_pending r now \<longleftrightarrow> sh_outcome r = None \<and> sh_acknowledged_at r = None \<and> \<not> is_overdue r now"

section \<open>Checks\<close>

definition grouping_levels :: "string list" where
  "grouping_levels = [''space'', ''tab'', ''column'', ''row'']"

definition grouping_field_kinds :: "string list" where
  "grouping_field_kinds = [''team'', ''project'', ''milestone'', ''cycle'', ''assignee'', ''state'', ''priority'', ''parent'']"

definition grouping_filter_keys :: "string list" where
  "grouping_filter_keys =
     [''team'', ''project'', ''milestone'', ''cycle'', ''assignee'', ''state'', ''parent'', ''label'', ''state-type'', ''priority'']"

definition activity_keep :: nat where "activity_keep = 500"

definition recent_resolved :: nat where "recent_resolved = 20"

definition text_ok :: "string \<Rightarrow> bool" where
  "text_ok s \<longleftrightarrow> s \<noteq> [] \<and> \<not> list_ex (\<lambda>(c, _). is_control c) (utf8_chars s)"

definition refuse_unless :: "bool \<Rightarrow> message \<Rightarrow> error + unit" where
  "refuse_unless b m = (if b then Inr () else Inl (BadRequest m))"

definition require_text :: "string \<Rightarrow> string \<Rightarrow> error + unit" where
  "require_text v what =
     refuse_unless (text_ok v) [T what, T '' is '', J (JStr v), T ''; it must be non-empty text without control characters'']"

definition require_optional_text :: "string option \<Rightarrow> string \<Rightarrow> error + unit" where
  "require_optional_text v what = (case v of None \<Rightarrow> Inr () | Some s \<Rightarrow> require_text s what)"

definition require_absolute_path :: "string \<Rightarrow> string \<Rightarrow> error + unit" where
  "require_absolute_path v what =
     then_check (require_text v what)
       (refuse_unless (take 1 v = ''/'') [T what, T '' is '', J (JStr v), T ''; it must be an absolute path''])"

definition is_ascii_alnum :: "char \<Rightarrow> bool" where
  "is_ascii_alnum c \<longleftrightarrow>
     (let n = (of_char c :: nat) in (48 \<le> n \<and> n \<le> 57) \<or> (65 \<le> n \<and> n \<le> 90) \<or> (97 \<le> n \<and> n \<le> 122))"

definition is_ascii_upper :: "char \<Rightarrow> bool" where
  "is_ascii_upper c \<longleftrightarrow> (let n = (of_char c :: nat) in 65 \<le> n \<and> n \<le> 90)"

definition is_issue_identifier :: "(string \<Rightarrow> bool) \<Rightarrow> string \<Rightarrow> bool" where
  "is_issue_identifier uuid v =
     (if length v = 36 then uuid v
      else case split_once (CHR ''-'') v of None \<Rightarrow> False
        | Some (team, number) \<Rightarrow>
            1 \<le> length team \<and> length team \<le> 10 \<and> is_ascii_upper (hd team) \<and>
            list_all (\<lambda>c. is_ascii_upper c \<or> is_digit c) team \<and>
            1 \<le> length number \<and> length number \<le> 9 \<and> hd number \<noteq> CHR ''0'' \<and> list_all is_digit number)"

definition require_issue :: "(string \<Rightarrow> bool) \<Rightarrow> string \<Rightarrow> error + unit" where
  "require_issue uuid v =
     refuse_unless (is_issue_identifier uuid v)
       [T ''issue '', J (JStr v), T '' is neither a Linear issue key (like WEB-123) nor an issue UUID'']"

fun split_at_str :: "string \<Rightarrow> string \<Rightarrow> (string \<times> string) option" where
  \<comment> \<open>\<open>split_once\<close> on a string\<close>
  "split_at_str p [] = (if p = [] then Some ([], []) else None)"
| "split_at_str p (c # cs) =
     (if take (length p) (c # cs) = p then Some ([], drop (length p) (c # cs))
      else map_option (\<lambda>(a, b). (c # a, b)) (split_at_str p cs))"

definition is_scope_key :: "string \<Rightarrow> bool" where
  "is_scope_key v =
     (let id_ok = (\<lambda>i. i \<noteq> [] \<and> list_all (\<lambda>b. is_ascii_alnum b \<or> b = CHR ''-'' \<or> b = CHR ''_'') i)
      in case strip_prefix ''project-'' v of
           Some rest \<Rightarrow>
             (case split_at_str ''.team-'' rest of
                Some (project, team) \<Rightarrow> id_ok project \<and> id_ok team
              | None \<Rightarrow> id_ok rest \<and> CHR ''.'' \<notin> set rest)
         | None \<Rightarrow> (case strip_prefix ''team-'' v of Some i \<Rightarrow> id_ok i | None \<Rightarrow> False))"

definition is_name_byte :: "char \<Rightarrow> bool" where
  "is_name_byte b \<longleftrightarrow> is_ascii_alnum b \<or> b \<in> set ''_-.:''"

definition is_space_id :: "string \<Rightarrow> bool" where
  "is_space_id s \<longleftrightarrow> 1 \<le> length s \<and> length s \<le> 64 \<and> list_all is_name_byte s"

definition is_tool_name :: "string \<Rightarrow> bool" where
  "is_tool_name s \<longleftrightarrow> 1 \<le> length s \<and> length s \<le> 128 \<and> list_all is_name_byte s"

fun join_with :: "string \<Rightarrow> string list \<Rightarrow> string" where
  "join_with sep [] = []"
| "join_with sep [x] = x"
| "join_with sep (x # xs) = x @ sep @ join_with sep xs"

definition allowed_kinds :: string where
  "allowed_kinds =
     ''a single-valued field ('' @ join_with '', '' grouping_field_kinds @
     ''), a label group (label-group:<name>), ticket, or sub-ticket''"

definition check_kind :: "string \<Rightarrow> message \<Rightarrow> error + unit" where
  "check_kind kind at =
     (if kind \<in> set grouping_field_kinds \<or> kind = ''ticket'' \<or> kind = ''sub-ticket'' then Inr ()
      else case strip_prefix ''label-group:'' kind of
        Some name \<Rightarrow>
          refuse_unless (text_ok name)
            (at @ [T '' is '', J (JStr kind), T '', a label-group with no usable name; a level is '', T allowed_kinds])
      | None \<Rightarrow>
          Inl (BadRequest (at @ [T '' is '', J (JStr kind), T '', which is not a level kind; a level is '', T allowed_kinds])))"

definition check_filter_value :: "string \<Rightarrow> json \<Rightarrow> message \<Rightarrow> error + unit" where
  "check_filter_value key item at =
     (if key = ''priority''
      then refuse_unless (case as_u64 item of Some p \<Rightarrow> p \<le> 4 | None \<Rightarrow> False)
             (at @ [T '' holds '', J item, T ''; a priority is an integer from 0 to 4''])
      else case as_str item of
        Some text \<Rightarrow>
          if text = [] then Inl (BadRequest (at @ [T '' holds an empty string, which is refused rather than read as absent'']))
          else if text_ok text
          then refuse_unless (\<not> (key = ''state-type'' \<and> text \<notin> set state_types))
                 (at @ [T '' holds '', J item, T ''; a state type is one of '', T (join_with '', '' state_types)])
          else Inl (BadRequest (at @ [T '' holds '', J item, T ''; a value is a non-empty string without control characters'']))
      | None \<Rightarrow> Inl (BadRequest (at @ [T '' holds '', J item, T ''; a value is a non-empty string without control characters''])))"

fun check_all :: "('a \<Rightarrow> error + unit) \<Rightarrow> 'a list \<Rightarrow> error + unit" where
  "check_all f [] = Inr ()"
| "check_all f (x # xs) = then_check (f x) (check_all f xs)"

fun filter_items :: "json \<Rightarrow> json list" where
  "filter_items (JArr items) = items"
| "filter_items v = [v]"

definition check_filter_entry :: "message \<Rightarrow> string \<times> json \<Rightarrow> error + unit" where
  "check_filter_entry whose entry =
     (let (key, v) = entry; at = whose @ [T '' key '', J (JStr key)] in
      then_check
        (refuse_unless (key \<in> set grouping_filter_keys)
           (whose @ [T '' has unknown filter key '', J (JStr key), T ''; allowed: '', T (join_with '', '' grouping_filter_keys)]))
      (then_check
        (refuse_unless (v \<noteq> JArr []) (at @ [T '' is an empty list; leave the key out instead'']))
        (check_all (\<lambda>item. check_filter_value key item at) (filter_items v))))"

definition check_filter :: "(string \<times> json) list \<Rightarrow> message \<Rightarrow> error + unit" where
  "check_filter fs whose =
     then_check (refuse_unless (fs \<noteq> []) (whose @ [T '' names no keys; a board filter must select something'']))
       (check_all (check_filter_entry whose) fs)"

fun check_levels :: "message \<Rightarrow> (string \<times> string) list \<Rightarrow> (string \<times> string) list \<Rightarrow> error + unit" where
  \<comment> \<open>the loop over the levels, \<open>seen\<close> mapping the kinds met to their levels\<close>
  "check_levels whose seen [] = Inr ()"
| "check_levels whose seen ((level, kind) # rest) =
     then_check
       (refuse_unless (level \<in> set grouping_levels)
          (whose @ [T '' has unknown level '', J (JStr level), T ''; the levels are '', T (join_with '', '' grouping_levels)]))
     (then_check (check_kind kind (whose @ [T '' level '', S level]))
     (case map_of seen kind of
        Some first \<Rightarrow>
          Inl (BadRequest (whose @ [T '' sets levels '', S first, T '' and '', S level, T '' to the same kind '', J (JStr kind),
                 T ''; levels must be distinct'']))
      | None \<Rightarrow> check_levels whose ((kind, level) # seen) rest))"

definition validate_as :: "grouping_mapping \<Rightarrow> message \<Rightarrow> error + unit" where
  "validate_as m whose =
     then_check (refuse_unless (gm_levels m \<noteq> []) (whose @ [T '' levels names no level; a mapping needs at least one level'']))
     (then_check (check_levels whose [] (gm_levels m)) (check_filter (gm_filter m) (whose @ [T '' filter''])))"

definition validate_space_name :: "string \<Rightarrow> error + unit" where
  "validate_space_name space =
     refuse_unless (text_ok space)
       [T ''space name '', J (JStr space), T '' is refused; a space name is non-empty text without control characters'']"

fun validate_spaces :: "string list \<Rightarrow> space_grouping list \<Rightarrow> error + unit" where
  "validate_spaces names [] = Inr ()"
| "validate_spaces names (entry # rest) =
     then_check (validate_space_name (sg_space entry))
     (then_check
       (refuse_unless (sg_space entry \<notin> set names) [T ''space '', J (JStr (sg_space entry)), T '' is mapped more than once''])
     (then_check (validate_as (sg_mapping entry) [T ''the mapping for space '', J (JStr (sg_space entry))])
       (validate_spaces (sg_space entry # names) rest)))"

definition validate_config :: "grouping_config \<Rightarrow> error + unit" where
  "validate_config c =
     then_check (validate_as (gc_global c) [T ''the global mapping'']) (validate_spaces [] (gc_spaces c))"

definition validate_team_ids :: "string list \<Rightarrow> error + unit" where
  "validate_team_ids ids = check_all (\<lambda>i. require_text i ''team id'') ids"

end
