(* ===== verification/Linear_Store.thy ===== *)
theory Linear_Store
  imports Linear_State Row_Tables "HOL-Library.Option_ord"
begin

text \<open>
  The operations of \<open>crates/board-core/src/db/linear_state.rs\<close> on the ten \<open>linear_*\<close> tables of \<open>schema.sql\<close>. A table
  is its rows in rowid order, which is also the order of the ids; the columns that the row type of the source does
  not carry (herdr session, change time, position) extend the record. A JSON column holds the value itself.
  \<open>datetime('now')\<close> and \<open>datetime(n, 'unixepoch')\<close> are the fields \<open>ld_now\<close> and \<open>ld_datetime\<close>.
\<close>

section \<open>Tables\<close>

record grouping_row =
  gg_id :: int
  gg_space :: "string option"
  gg_position :: int
  gg_mapping :: grouping_mapping
  gg_updated_at :: string

record space_binding_row = space_binding +
  sb_updated_at :: string

record worktree_binding_row = worktree_binding +
  wb_updated_at :: string

record session_scope_row = session_scope +
  ss_updated_at :: string

record scope_repo_row =
  sr_scope_key :: string
  sr_repo_path :: string
  sr_position :: int

record mark_row = mark +
  mk_session :: string

record note_row = linear_note +
  nt_session :: string

record show_row = show_request +
  sh_session :: string

record activity_row = linear_activity +
  av_session :: string

record ldb =
  ld_grouping :: "grouping_row list"
  ld_space_bindings :: "space_binding_row list"
  ld_worktree_bindings :: "worktree_binding_row list"
  ld_session_scopes :: "session_scope_row list"
  ld_scope_repos :: "scope_repo_row list"
  ld_marks :: "mark_row list"
  ld_notes :: "note_row list"
  ld_shows :: "show_row list"
  ld_activity :: "activity_row list"
  ld_panes :: "board_pane list"
  ld_now :: string
  ld_datetime :: "int \<Rightarrow> string option"

type_synonym 'a lstore = "(ldb, error, 'a) tx"

definition checkT :: "error + unit \<Rightarrow> 'a lstore \<Rightarrow> 'a lstore" where
  \<comment> \<open>\<open>check(..)?; rest\<close>\<close>
  "checkT v m = thenT (queryT (\<lambda>_. v)) m"

definition upsert :: "('r \<Rightarrow> 'k) \<Rightarrow> 'r \<Rightarrow> 'r list \<Rightarrow> 'r list" where
  \<comment> \<open>\<open>INSERT .. ON CONFLICT (key) DO UPDATE SET\<close> every other column: the row keeps its rowid\<close>
  "upsert key r rows =
     (if key r \<in> key ` set rows then map (\<lambda>x. if key x = key r then r else x) rows else rows @ [r])"

definition delete_rows :: "('r \<Rightarrow> bool) \<Rightarrow> (ldb \<Rightarrow> 'r list) \<Rightarrow> ('r list \<Rightarrow> ldb \<Rightarrow> ldb) \<Rightarrow> bool lstore" where
  \<comment> \<open>\<open>execute("DELETE ..")? > 0\<close>\<close>
  "delete_rows P get put =
     (\<lambda>s. (Inr (list_ex P (get s)), put (filter (\<lambda>r. \<not> P r) (get s)) s))"

section \<open>Grouping\<close>

definition global_row :: "ldb \<Rightarrow> grouping_row option" where
  "global_row s = List.find (\<lambda>r. gg_space r = None) (ld_grouping s)"

definition space_rows :: "ldb \<Rightarrow> grouping_row list" where
  "space_rows s = sort_key gg_position (filter (\<lambda>r. gg_space r \<noteq> None) (ld_grouping s))"

definition get_grouping_config :: "ldb \<Rightarrow> grouping_config option" where
  "get_grouping_config s =
     map_option (\<lambda>g. \<lparr>gc_global = gg_mapping g,
         gc_spaces = map (\<lambda>r. \<lparr>sg_space = the (gg_space r), sg_mapping = gg_mapping r\<rparr>) (space_rows s)\<rparr>) (global_row s)"

definition grouping_for_space :: "ldb \<Rightarrow> string \<Rightarrow> resolved_grouping option" where
  "grouping_for_space s space =
     (case List.find (\<lambda>r. gg_space r = Some space) (ld_grouping s) of
        Some r \<Rightarrow> Some \<lparr>rg_space = Some space, rg_mapping = gg_mapping r\<rparr>
      | None \<Rightarrow> map_option (\<lambda>g. \<lparr>rg_space = None, rg_mapping = gg_mapping g\<rparr>) (global_row s))"

definition grouping_conflict :: "grouping_row \<Rightarrow> grouping_row \<Rightarrow> bool" where
  \<comment> \<open>the three unique indexes: one global row, one row per space, one space row per position\<close>
  "grouping_conflict x y \<longleftrightarrow> gg_space x = gg_space y \<or> (gg_space x \<noteq> None \<and> gg_space y \<noteq> None \<and> gg_position x = gg_position y)"

definition insert_grouping :: "string option \<Rightarrow> int \<Rightarrow> grouping_mapping \<Rightarrow> unit lstore" where
  "insert_grouping space pos m = (\<lambda>s.
     let r = \<lparr>gg_id = next_id gg_id (ld_grouping s), gg_space = space, gg_position = pos, gg_mapping = m, gg_updated_at = ld_now s\<rparr>
     in if list_ex (grouping_conflict r) (ld_grouping s) then (Inl (Sqlite UniqueViolation), s)
        else (Inr (), s\<lparr>ld_grouping := ld_grouping s @ [r]\<rparr>))"

definition update_grouping :: "string option \<Rightarrow> grouping_mapping \<Rightarrow> unit lstore" where
  \<comment> \<open>the \<open>DO UPDATE\<close> of both upserts: the position stays\<close>
  "update_grouping space m = modifyT (\<lambda>s. s\<lparr>ld_grouping :=
     map (\<lambda>r. if gg_space r = space then r\<lparr>gg_mapping := m, gg_updated_at := ld_now s\<rparr> else r) (ld_grouping s)\<rparr>)"

definition upsert_grouping :: "string option \<Rightarrow> (ldb \<Rightarrow> int) \<Rightarrow> grouping_mapping \<Rightarrow> unit lstore" where
  "upsert_grouping space pos m = (\<lambda>s.
     if space \<in> gg_space ` set (ld_grouping s) then update_grouping space m s else insert_grouping space (pos s) m s)"

definition set_grouping_global :: "grouping_mapping \<Rightarrow> unit lstore" where
  "set_grouping_global m = checkT (validate_as m [T ''the global mapping'']) (upsert_grouping None (\<lambda>_. 0) m)"

definition set_grouping_space :: "string \<Rightarrow> grouping_mapping \<Rightarrow> unit lstore" where
  "set_grouping_space space m =
     checkT (validate_space_name space)
     (checkT (validate_as m [T ''the mapping for space '', J (JStr space)])
     (transaction
       (thenT (queryT (\<lambda>s. refuse_unless (global_row s \<noteq> None)
           [T ''space '', J (JStr space),
            T '' cannot be mapped before a global mapping exists; a space mapping replaces the global one, so one must exist'']))
         (upsert_grouping (Some space) (\<lambda>s. end_position (\<lambda>r. gg_space r \<noteq> None) gg_position True (ld_grouping s)) m))))"

definition remove_grouping_space :: "string \<Rightarrow> bool lstore" where
  "remove_grouping_space space = delete_rows (\<lambda>r. gg_space r = Some space) ld_grouping (\<lambda>x s. s\<lparr>ld_grouping := x\<rparr>)"

fun insert_space_rows :: "int \<Rightarrow> space_grouping list \<Rightarrow> unit lstore" where
  "insert_space_rows i [] = returnT ()"
| "insert_space_rows i (e # es) = thenT (insert_grouping (Some (sg_space e)) i (sg_mapping e)) (insert_space_rows (i + 1) es)"

definition replace_grouping :: "grouping_config \<Rightarrow> unit lstore" where
  "replace_grouping c =
     checkT (validate_config c)
     (transaction
       (thenT (modifyT (\<lambda>s. s\<lparr>ld_grouping := []\<rparr>))
       (thenT (insert_grouping None 0 (gc_global c)) (insert_space_rows 0 (gc_spaces c)))))"

section \<open>Bindings and scopes\<close>

abbreviation sb_key :: "'a space_binding_scheme \<Rightarrow> string \<times> string" where
  "sb_key b \<equiv> (sb_session b, sb_space b)"

definition set_space_binding :: "space_binding \<Rightarrow> unit lstore" where
  "set_space_binding b =
     checkT (require_text (sb_session b) ''herdr session'')
     (checkT (require_text (sb_space b) ''space'')
     (checkT (require_text (sb_project_id b) ''project id'')
     (checkT (require_optional_text (sb_display_name b) ''display name'')
     (checkT (validate_team_ids (sb_team_ids b))
     (modifyT (\<lambda>s. s\<lparr>ld_space_bindings :=
        upsert sb_key (space_binding.extend b (space_binding_row.fields (ld_now s))) (ld_space_bindings s)\<rparr>))))))"

definition space_binding :: "ldb \<Rightarrow> string \<Rightarrow> string \<Rightarrow> space_binding option" where
  "space_binding s session space =
     map_option space_binding.truncate (List.find (\<lambda>r. sb_key r = (session, space)) (ld_space_bindings s))"

definition list_space_bindings :: "ldb \<Rightarrow> space_binding list" where
  "list_space_bindings s = map space_binding.truncate (sort_key sb_key (ld_space_bindings s))"

definition remove_space_binding :: "string \<Rightarrow> string \<Rightarrow> bool lstore" where
  "remove_space_binding session space =
     delete_rows (\<lambda>r. sb_key r = (session, space)) ld_space_bindings (\<lambda>x s. s\<lparr>ld_space_bindings := x\<rparr>)"

definition set_worktree_binding :: "(string \<Rightarrow> bool) \<Rightarrow> worktree_binding \<Rightarrow> unit lstore" where
  "set_worktree_binding uuid b =
     checkT (require_absolute_path (wb_path b) ''worktree path'')
     (checkT (require_issue uuid (wb_issue b))
     (checkT (require_optional_text (wb_branch b) ''branch'')
     (checkT (require_optional_text (wb_tab b) ''tab'')
     (checkT (require_optional_text (wb_display_name b) ''display name'')
     (checkT (validate_team_ids (wb_team_ids b))
     (modifyT (\<lambda>s. s\<lparr>ld_worktree_bindings :=
        upsert wb_path (worktree_binding.extend b (worktree_binding_row.fields (ld_now s))) (ld_worktree_bindings s)\<rparr>)))))))"

definition worktree_binding :: "ldb \<Rightarrow> string \<Rightarrow> worktree_binding option" where
  "worktree_binding s path =
     map_option worktree_binding.truncate (List.find (\<lambda>r. wb_path r = path) (ld_worktree_bindings s))"

definition list_worktree_bindings :: "ldb \<Rightarrow> worktree_binding list" where
  "list_worktree_bindings s = map worktree_binding.truncate (sort_key wb_path (ld_worktree_bindings s))"

definition worktree_binding_since :: "ldb \<Rightarrow> string \<Rightarrow> string option" where
  "worktree_binding_since s path = map_option wb_updated_at (List.find (\<lambda>r. wb_path r = path) (ld_worktree_bindings s))"

definition remove_worktree_binding :: "string \<Rightarrow> bool lstore" where
  "remove_worktree_binding path =
     delete_rows (\<lambda>r. wb_path r = path) ld_worktree_bindings (\<lambda>x s. s\<lparr>ld_worktree_bindings := x\<rparr>)"

definition set_session_scope :: "session_scope \<Rightarrow> unit lstore" where
  "set_session_scope c =
     checkT (require_text (ss_session_id c) ''session id'')
     (checkT (require_text (ss_team_id c) ''team id'')
     (checkT (require_optional_text (ss_team_key c) ''team key'')
     (modifyT (\<lambda>s. s\<lparr>ld_session_scopes :=
        upsert ss_session_id (session_scope.extend c (session_scope_row.fields (ld_now s))) (ld_session_scopes s)\<rparr>))))"

definition session_scope :: "ldb \<Rightarrow> string \<Rightarrow> session_scope option" where
  "session_scope s i = map_option session_scope.truncate (List.find (\<lambda>r. ss_session_id r = i) (ld_session_scopes s))"

definition remove_session_scope :: "string \<Rightarrow> bool lstore" where
  "remove_session_scope i = delete_rows (\<lambda>r. ss_session_id r = i) ld_session_scopes (\<lambda>x s. s\<lparr>ld_session_scopes := x\<rparr>)"

definition add_scope_repo :: "string \<Rightarrow> string \<Rightarrow> unit lstore" where
  "add_scope_repo key path =
     checkT (refuse_unless (is_scope_key key)
       [T ''scope key '', J (JStr key), T '' is refused; a scope key is project-<id>.team-<id>, team-<id> or project-<id>''])
     (checkT (require_absolute_path path ''repository path'')
     (modifyT (\<lambda>s.
        if (key, path) \<in> (\<lambda>r. (sr_scope_key r, sr_repo_path r)) ` set (ld_scope_repos s) then s
        else s\<lparr>ld_scope_repos := ld_scope_repos s @
          [\<lparr>sr_scope_key = key, sr_repo_path = path,
            sr_position = end_position sr_scope_key sr_position key (ld_scope_repos s)\<rparr>]\<rparr>)))"

definition scope_repos :: "ldb \<Rightarrow> string \<Rightarrow> string list" where
  "scope_repos s key = map sr_repo_path (sort_key sr_position (filter (\<lambda>r. sr_scope_key r = key) (ld_scope_repos s)))"

definition remove_scope_repo :: "string \<Rightarrow> string \<Rightarrow> bool lstore" where
  "remove_scope_repo key path =
     delete_rows (\<lambda>r. sr_scope_key r = key \<and> sr_repo_path r = path) ld_scope_repos (\<lambda>x s. s\<lparr>ld_scope_repos := x\<rparr>)"

section \<open>Marks\<close>

definition set_mk_id :: "int \<Rightarrow> mark_row \<Rightarrow> mark_row" where "set_mk_id i r = r\<lparr>mk_id := i\<rparr>"
definition set_nt_id :: "int \<Rightarrow> note_row \<Rightarrow> note_row" where "set_nt_id i r = r\<lparr>nt_id := i\<rparr>"
definition set_sh_id :: "int \<Rightarrow> show_row \<Rightarrow> show_row" where "set_sh_id i r = r\<lparr>sh_id := i\<rparr>"
definition set_av_id :: "int \<Rightarrow> activity_row \<Rightarrow> activity_row" where "set_av_id i r = r\<lparr>av_id := i\<rparr>"

interpretation marks_t: keyed mk_id set_mk_id by unfold_locales (simp add: set_mk_id_def)
interpretation notes_t: keyed nt_id set_nt_id by unfold_locales (simp add: set_nt_id_def)
interpretation shows_t: keyed sh_id set_sh_id by unfold_locales (simp add: set_sh_id_def)
interpretation activity_t: keyed av_id set_av_id by unfold_locales (simp add: set_av_id_def)

definition new_mark_row :: "ldb \<Rightarrow> new_mark \<Rightarrow> mark_row" where
  "new_mark_row s m =
     \<lparr>mk_id = next_id mk_id (ld_marks s), mk_space = nm_space m, mk_issue = nm_issue m, mk_kind = nm_kind m,
      mk_text = nm_text m, mk_detail = nm_detail m, mk_created_by = nm_created_by m, mk_created_at = ld_now s,
      mk_owner = nm_owner m, mk_session = nm_session m\<rparr>"

definition add_mark :: "(string \<Rightarrow> bool) \<Rightarrow> new_mark \<Rightarrow> mark lstore" where
  "add_mark uuid m =
     checkT (require_text (nm_space m) ''space'')
     (checkT (require_issue uuid (nm_issue m))
     (checkT (require_optional_text (nm_created_by m) ''mark author'')
     (checkT (require_text (nm_session m) ''herdr session'')
     (\<lambda>s. (Inr (mark.truncate (new_mark_row s m)), s\<lparr>ld_marks := ld_marks s @ [new_mark_row s m]\<rparr>)))))"

definition marks_where :: "ldb \<Rightarrow> (mark_row \<Rightarrow> bool) \<Rightarrow> mark list" where
  \<comment> \<open>\<open>{MARK_SELECT} WHERE .. ORDER BY id\<close>\<close>
  "marks_where s P = map mark.truncate (sort_key mk_id (filter P (ld_marks s)))"

definition list_marks :: "ldb \<Rightarrow> string \<Rightarrow> string \<Rightarrow> mark list" where
  "list_marks s session space = marks_where s (\<lambda>r. mk_session r = session \<and> mk_space r = space)"

definition space_issue_marks :: "ldb \<Rightarrow> string \<Rightarrow> string \<Rightarrow> string \<Rightarrow> mark list" where
  "space_issue_marks s session space issue =
     marks_where s (\<lambda>r. mk_session r = session \<and> mk_space r = space \<and> mk_issue r = issue)"

definition issue_marks :: "ldb \<Rightarrow> string \<Rightarrow> mark list" where
  "issue_marks s issue = marks_where s (\<lambda>r. mk_issue r = issue)"

definition find_mark :: "ldb \<Rightarrow> int \<Rightarrow> mark option" where
  "find_mark s i = map_option mark.truncate (lookup mk_id i (ld_marks s))"

definition remove_mark :: "int \<Rightarrow> bool lstore" where
  "remove_mark i = delete_rows (\<lambda>r. mk_id r = i) ld_marks (\<lambda>x s. s\<lparr>ld_marks := x\<rparr>)"

section \<open>Notes\<close>

definition new_note_row :: "ldb \<Rightarrow> string \<Rightarrow> string \<Rightarrow> string \<Rightarrow> string \<Rightarrow> string \<Rightarrow> linear_owner \<Rightarrow> note_row" where
  "new_note_row s session space issue body author owner =
     \<lparr>nt_id = next_id nt_id (ld_notes s), nt_space = space, nt_issue = issue, nt_body = body, nt_author = author,
      nt_created_at = ld_now s, nt_owner = owner, nt_session = session\<rparr>"

definition add_note ::
  "(string \<Rightarrow> bool) \<Rightarrow> string \<Rightarrow> string \<Rightarrow> string \<Rightarrow> string \<Rightarrow> string \<Rightarrow> linear_owner \<Rightarrow> linear_note lstore" where
  "add_note uuid session space issue body author owner =
     checkT (require_text space ''space'')
     (checkT (require_issue uuid issue)
     (checkT (require_text author ''note author'')
     (checkT (require_text session ''herdr session'')
     (checkT (refuse_unless (body \<noteq> []) [T ''a note body must not be empty''])
     (\<lambda>s. let r = new_note_row s session space issue body author owner
          in (Inr (linear_note.truncate r), s\<lparr>ld_notes := ld_notes s @ [r]\<rparr>))))))"

definition find_note :: "ldb \<Rightarrow> int \<Rightarrow> linear_note option" where
  "find_note s i = map_option linear_note.truncate (lookup nt_id i (ld_notes s))"

definition list_notes :: "ldb \<Rightarrow> string \<Rightarrow> string \<Rightarrow> string option \<Rightarrow> linear_note list" where
  "list_notes s session space issue =
     map linear_note.truncate (sort_key nt_id (filter (\<lambda>r. nt_session r = session \<and> nt_space r = space \<and>
        (case issue of None \<Rightarrow> True | Some i \<Rightarrow> nt_issue r = i)) (ld_notes s)))"

definition remove_note :: "int \<Rightarrow> bool lstore" where
  "remove_note i = delete_rows (\<lambda>r. nt_id r = i) ld_notes (\<lambda>x s. s\<lparr>ld_notes := x\<rparr>)"

section \<open>Show requests\<close>

definition new_show_row :: "ldb \<Rightarrow> new_show_request \<Rightarrow> show_row" where
  "new_show_row s r =
     \<lparr>sh_id = next_id sh_id (ld_shows s), sh_space = ns_space r, sh_issue = ns_issue r, sh_reason = ns_reason r,
      sh_requested_by = ns_requested_by r, sh_created_at = ld_now s, sh_acknowledged_at = None, sh_owner = ns_owner r,
      sh_expires_at = ld_datetime s (ns_expires_at r), sh_outcome = None, sh_session = ns_session r\<rparr>"

definition add_show_request :: "(string \<Rightarrow> bool) \<Rightarrow> new_show_request \<Rightarrow> show_request lstore" where
  "add_show_request uuid r =
     checkT (require_text (ns_space r) ''space'')
     (checkT (require_issue uuid (ns_issue r))
     (checkT (require_optional_text (ns_requested_by r) ''requester'')
     (checkT (require_text (ns_session r) ''herdr session'')
     (\<lambda>s. (Inr (show_request.truncate (new_show_row s r)), s\<lparr>ld_shows := ld_shows s @ [new_show_row s r]\<rparr>)))))"

definition find_show :: "ldb \<Rightarrow> int \<Rightarrow> show_request option" where
  "find_show s i = map_option show_request.truncate (lookup sh_id i (ld_shows s))"

definition update_open_show :: "int \<Rightarrow> (show_row \<Rightarrow> show_row) \<Rightarrow> bool lstore" where
  \<comment> \<open>\<open>UPDATE .. WHERE id = ?1 AND outcome IS NULL AND acknowledged_at IS NULL\<close>\<close>
  "update_open_show i f = (\<lambda>s.
     let P = (\<lambda>r. sh_id r = i \<and> sh_outcome r = None \<and> sh_acknowledged_at r = None)
     in (Inr (list_ex P (ld_shows s)), s\<lparr>ld_shows := update_where P f (ld_shows s)\<rparr>))"

definition refresh_show_request :: "int \<Rightarrow> string option \<Rightarrow> string option \<Rightarrow> int \<Rightarrow> bool lstore" where
  "refresh_show_request i reason requested_by expires_at =
     checkT (require_optional_text requested_by ''requester'')
     (\<lambda>s. update_open_show i (\<lambda>r. r\<lparr>sh_reason := reason, sh_requested_by := requested_by,
            sh_expires_at := ld_datetime s expires_at\<rparr>) s)"

definition open_show_requests :: "ldb \<Rightarrow> (string \<times> string) option \<Rightarrow> show_request list" where
  "open_show_requests s scope =
     map show_request.truncate (sort_key sh_id (filter (\<lambda>r.
        (case scope of None \<Rightarrow> True | Some (session, space) \<Rightarrow> sh_session r = session \<and> sh_space r = space) \<and>
        sh_outcome r = None \<and> sh_acknowledged_at r = None) (ld_shows s)))"

definition pending_show_requests :: "ldb \<Rightarrow> string \<Rightarrow> string \<Rightarrow> int \<Rightarrow> show_request list" where
  "pending_show_requests s session space now =
     filter (\<lambda>r. is_pending r now) (open_show_requests s (Some (session, space)))"

definition recent_resolved_show_requests :: "ldb \<Rightarrow> string \<Rightarrow> string \<Rightarrow> show_request list" where
  "recent_resolved_show_requests s session space =
     map show_request.truncate (take recent_resolved (rev (sort_key (\<lambda>r. (sh_acknowledged_at r, sh_id r))
       (filter (\<lambda>r. sh_session r = session \<and> sh_space r = space \<and> sh_outcome r \<noteq> None) (ld_shows s)))))"

definition close_show_request :: "int \<Rightarrow> show_outcome \<Rightarrow> bool lstore" where
  "close_show_request i outcome =
     (\<lambda>s. update_open_show i (\<lambda>r. r\<lparr>sh_outcome := Some outcome, sh_acknowledged_at := Some (ld_now s)\<rparr>) s)"

fun expire_loop :: "int \<Rightarrow> show_request list \<Rightarrow> string list \<Rightarrow> string list lstore" where
  "expire_loop now [] spaces = returnT spaces"
| "expire_loop now (r # rs) spaces =
     (if is_overdue r now
      then bindT (close_show_request (sh_id r) Expired) (\<lambda>closed.
             expire_loop now rs (if closed then sh_space r # spaces else spaces))
      else expire_loop now rs spaces)"

definition sorted_set :: "string list \<Rightarrow> string list" where
  \<comment> \<open>a \<open>BTreeSet\<close>\<close>
  "sorted_set xs = sort (remdups xs)"

definition expire_overdue :: "int \<Rightarrow> string list lstore" where
  "expire_overdue now =
     transaction (bindT (readT (\<lambda>s. open_show_requests s None)) (\<lambda>rs.
       bindT (expire_loop now rs []) (\<lambda>spaces. returnT (sorted_set spaces))))"

section \<open>Activity\<close>

definition new_activity_row :: "ldb \<Rightarrow> new_activity \<Rightarrow> activity_row" where
  "new_activity_row s a =
     \<lparr>av_id = next_id av_id (ld_activity s), av_space = na_space a, av_tool_name = na_tool_name a, av_issue = na_issue a,
      av_claims = na_claims a, av_created_at = ld_now s, av_session = na_session a\<rparr>"

definition activity_of :: "string \<Rightarrow> string option \<Rightarrow> activity_row \<Rightarrow> bool" where
  "activity_of session space r \<longleftrightarrow> av_session r = session \<and> av_space r = space"

definition newest_activity :: "ldb \<Rightarrow> string \<Rightarrow> string option \<Rightarrow> nat \<Rightarrow> activity_row list" where
  \<comment> \<open>\<open>ORDER BY id DESC LIMIT\<close>\<close>
  "newest_activity s session space n = take n (rev (sort_key av_id (filter (activity_of session space) (ld_activity s))))"

definition prune_activity :: "string \<Rightarrow> string option \<Rightarrow> nat \<Rightarrow> ldb \<Rightarrow> ldb" where
  "prune_activity session space keep s =
     s\<lparr>ld_activity := filter (\<lambda>r. \<not> (activity_of session space r \<and>
        av_id r \<notin> set (map av_id (newest_activity s session space keep)))) (ld_activity s)\<rparr>"

definition record_activity :: "(string \<Rightarrow> bool) \<Rightarrow> new_activity \<Rightarrow> linear_activity lstore" where
  "record_activity uuid a =
     checkT (require_optional_text (na_space a) ''space'')
     (checkT (require_text (na_session a) ''herdr session'')
     (checkT (refuse_unless (is_tool_name (na_tool_name a))
       [T ''tool name '', J (JStr (na_tool_name a)),
        T '' is refused; a tool name is 1 to 128 ASCII letters, digits, `_`, `-`, `.` or `:`''])
     (checkT (case na_issue a of None \<Rightarrow> Inr () | Some i \<Rightarrow> require_issue uuid i)
     (checkT (require_optional_text (ac_socket (na_claims a)) ''herdr socket claim'')
     (checkT (require_optional_text (ac_pane (na_claims a)) ''herdr pane claim'')
     (checkT (require_optional_text (ac_workspace (na_claims a)) ''herdr workspace claim'')
     (transaction
       (bindT (\<lambda>s. (Inr (new_activity_row s a), s\<lparr>ld_activity := ld_activity s @ [new_activity_row s a]\<rparr>)) (\<lambda>r.
        thenT (modifyT (prune_activity (na_session a) (na_space a) activity_keep))
        (queryT (\<lambda>s. case lookup av_id (av_id r) (ld_activity s) of
            None \<Rightarrow> Inl (Sqlite NoRow) | Some x \<Rightarrow> Inr (linear_activity.truncate x))))))))))))"

definition list_activity :: "ldb \<Rightarrow> string \<Rightarrow> string option \<Rightarrow> nat \<Rightarrow> linear_activity list" where
  "list_activity s session space limit = map linear_activity.truncate (newest_activity s session space limit)"

section \<open>Board panes\<close>

abbreviation bp_key :: "board_pane \<Rightarrow> string \<times> string" where
  "bp_key p \<equiv> (bp_socket p, bp_pane_id p)"

definition record_board_pane :: "new_board_pane \<Rightarrow> board_pane lstore" where
  \<comment> \<open>\<open>INSERT OR REPLACE\<close>: the old row goes, the new one has the newest rowid\<close>
  "record_board_pane p =
     checkT (require_text (np_socket p) ''herdr socket'')
     (checkT (require_text (np_pane_id p) ''pane id'')
     (checkT (require_text (np_context_key p) ''board context'')
     (checkT (require_optional_text (np_workspace_id p) ''workspace id'')
     (checkT (require_optional_text (np_origin_pane_id p) ''origin pane id'')
     (\<lambda>s. let r = \<lparr>bp_socket = np_socket p, bp_pane_id = np_pane_id p, bp_context_key = np_context_key p,
                    bp_placement = np_placement p, bp_workspace_id = np_workspace_id p,
                    bp_origin_pane_id = np_origin_pane_id p, bp_created_at = ld_now s\<rparr>
          in (Inr r, s\<lparr>ld_panes := filter (\<lambda>x. bp_key x \<noteq> bp_key r) (ld_panes s) @ [r]\<rparr>))))))"

definition board_pane_for_context :: "ldb \<Rightarrow> string \<Rightarrow> string \<Rightarrow> board_pane option" where
  "board_pane_for_context s socket context_key =
     (case rev (filter (\<lambda>p. bp_socket p = socket \<and> bp_context_key p = context_key) (ld_panes s)) of
        [] \<Rightarrow> None | p # _ \<Rightarrow> Some p)"

definition list_board_panes :: "ldb \<Rightarrow> string \<Rightarrow> board_pane list" where
  "list_board_panes s socket = filter (\<lambda>p. bp_socket p = socket) (ld_panes s)"

definition remove_board_pane :: "string \<Rightarrow> string \<Rightarrow> bool lstore" where
  "remove_board_pane socket pane = delete_rows (\<lambda>p. bp_key p = (socket, pane)) ld_panes (\<lambda>x s. s\<lparr>ld_panes := x\<rparr>)"

end
