(* ===== verification/Linear_Writes.thy ===== *)
theory Linear_Writes
  imports Linear_Store
begin

text \<open>
  The units of work of \<open>crates/board-core/src/db/linear_writes.rs\<close>: every write cleans the text it stores, checks what
  it names, and returns what it changed. What they need of the machine is the record \<open>host\<close>: the file system
  (\<open>canonicalize\<close>, whether a directory has a \<open>.git\<close>), the UUID parser, and \<open>serde_json\<close>'s tokenizer and typed decoder.
\<close>

section \<open>The machine\<close>

datatype raw_json = RLeaf json | RArr "raw_json list" | RObj "(string \<times> raw_json) list"
  \<comment> \<open>what the tokenizer hands to the visitor: an object may repeat a key\<close>

record host =
  ho_uuid :: "string \<Rightarrow> bool"
  ho_canonicalize :: "string \<Rightarrow> string + string"
  ho_has_git :: "string \<Rightarrow> bool"
  ho_tokens :: "string \<Rightarrow> string + raw_json"
  ho_decode_config :: "json \<Rightarrow> string + grouping_config"
  ho_decode_mapping :: "json \<Rightarrow> string + grouping_mapping"

section \<open>Rejections\<close>

datatype rejection =
    Refused message
  | UnknownIssue string string
  | IssueBoundElsewhere string string
  | Missing message
  | ShowRequestAnswered int "show_outcome option"

datatype local_error = Rejection rejection | StoreError error

type_synonym 'a local = "(ldb, local_error, 'a) tx"

definition storeT :: "'a lstore \<Rightarrow> 'a local" where
  \<comment> \<open>\<open>?\<close> on a store result\<close>
  "storeT m = (\<lambda>s. case m s of (Inl e, t) \<Rightarrow> (Inl (StoreError e), t) | (Inr x, t) \<Rightarrow> (Inr x, t))"

definition rejectT :: "rejection \<Rightarrow> 'a local" where
  "rejectT r = throwT (Rejection r)"

definition local_check :: "bool \<Rightarrow> rejection \<Rightarrow> unit local" where
  "local_check b r = ensureT b (Rejection r)"

fun rejection_message :: "rejection \<Rightarrow> message" where
  "rejection_message (Refused m) = m"
| "rejection_message (UnknownIssue space issue) = [T ''issue '', S issue, T '' is not a card the board knows in space '', S space]"
| "rejection_message (IssueBoundElsewhere issue holder) =
     [T ''issue '', S issue, T '' is already bound to '', S holder, T ''; unbind it there first'']"
| "rejection_message (Missing m) = m"
| "rejection_message (ShowRequestAnswered i outcome) =
     [T ''show request '', N i, T '' is no longer pending: it was '',
      S (case outcome of None \<Rightarrow> ''answered'' | Some x \<Rightarrow> show_outcome_str x)]"

fun local_state_error :: "local_error \<Rightarrow> error" where
  \<comment> \<open>\<open>ops/errors.rs\<close>: the code the client sees\<close>
  "local_state_error (StoreError e) = e"
| "local_state_error (Rejection r) =
     (case r of
        Refused _ \<Rightarrow> BadRequest (rejection_message r)
      | UnknownIssue _ _ \<Rightarrow> NotFound (rejection_message r)
      | Missing _ \<Rightarrow> NotFound (rejection_message r)
      | IssueBoundElsewhere _ _ \<Rightarrow> InvalidState (rejection_message r)
      | ShowRequestAnswered _ _ \<Rightarrow> InvalidState (rejection_message r))"

section \<open>Checks and cleaning\<close>

definition check_issue :: "host \<Rightarrow> string \<Rightarrow> unit local" where
  "check_issue h issue =
     local_check (is_issue_identifier (ho_uuid h) issue)
       (Refused [T ''issue '', D issue, T '' is neither a Linear issue key (like WEB-123) nor an issue UUID''])"

definition check_space :: "string \<Rightarrow> unit local" where
  "check_space space =
     local_check (text_ok space)
       (Refused [T ''space '', D space, T '' is refused; a space is non-empty text without control characters''])"

definition is_linear_id :: "string \<Rightarrow> bool" where
  "is_linear_id i \<longleftrightarrow> 1 \<le> length i \<and> length i \<le> 64 \<and> is_ascii_alnum (hd i) \<and>
     list_all (\<lambda>b. is_ascii_alnum b \<or> b = CHR ''_'' \<or> b = CHR ''-'') i"

definition check_linear_id :: "string \<Rightarrow> string \<Rightarrow> unit local" where
  "check_linear_id i what =
     local_check (is_linear_id i)
       (Refused [T what, T '' '', D i,
          T '' is refused; it must be 1 to 64 ASCII letters, digits, `_` or `-`, starting with a letter or digit''])"

definition opt_line :: "string option \<Rightarrow> string option" where
  "opt_line text = map_option strip_control_and_format text"

definition clean_claims :: "activity_claims \<Rightarrow> activity_claims" where
  "clean_claims c =
     \<lparr>ac_socket = opt_line (ac_socket c), ac_pane = opt_line (ac_pane c), ac_workspace = opt_line (ac_workspace c),
      ac_card_id = ac_card_id c, ac_run_id = ac_run_id c\<rparr>"

definition non_empty :: "string option \<Rightarrow> string option" where
  \<comment> \<open>\<open>.filter(|s| !s.is_empty())\<close>\<close>
  "non_empty x = (case x of None \<Rightarrow> None | Some s \<Rightarrow> if s = [] then None else Some s)"

definition claimed_space :: "string option \<Rightarrow> activity_claims \<Rightarrow> string option" where
  "claimed_space space c = non_empty (opt_line (or_else space (ac_workspace c)))"

definition clean_owner :: "linear_owner \<Rightarrow> linear_owner" where
  "clean_owner w =
     \<lparr>ow_socket = non_empty (opt_line (ow_socket w)), ow_pane = non_empty (opt_line (ow_pane w)),
      ow_claude = non_empty (opt_line (ow_claude w))\<rparr>"

definition require_owner :: "linear_owner \<Rightarrow> string \<Rightarrow> linear_owner local" where
  "require_owner w what =
     thenT (local_check (\<not> is_anonymous (clean_owner w))
        (Refused [T what, T '' needs the caller's herdr socket, pane or Claude session; a row written without them can only be cleared on the board'']))
     (returnT (clean_owner w))"

definition strip_suffix :: "string \<Rightarrow> string \<Rightarrow> string option" where
  "strip_suffix p s = map_option rev (strip_prefix (rev p) (rev s))"

definition session_name_from_socket :: "string option \<Rightarrow> string option" where
  \<comment> \<open>the tail \<open>sessions/<name>/herdr.sock\<close>\<close>
  "session_name_from_socket path =
     (case path of None \<Rightarrow> None
      | Some p \<Rightarrow>
          (case strip_suffix ''/herdr.sock'' p of None \<Rightarrow> None
           | Some rest \<Rightarrow>
               (case rsplit_once (CHR ''/'') rest of None \<Rightarrow> None
                | Some (parent, name) \<Rightarrow>
                    if last (split_all (CHR ''/'') parent) = ''sessions'' \<and> name \<noteq> [] then Some name else None)))"

definition herdr_session :: "string option \<Rightarrow> string" where
  "herdr_session socket = (case session_name_from_socket socket of Some n \<Rightarrow> n | None \<Rightarrow> ''default'')"

definition claimed_session :: "activity_claims \<Rightarrow> string option" where
  "claimed_session c = map_option (\<lambda>s. herdr_session (Some s)) (ac_socket c)"

fun path_ancestors :: "string list \<Rightarrow> string list" where
  \<comment> \<open>\<open>Path::ancestors\<close> of an absolute path, given by its components from the last to the first\<close>
  "path_ancestors [] = [''/'']"
| "path_ancestors (c # cs) = concat (map (\<lambda>x. ''/'' @ x) (rev (c # cs))) # path_ancestors cs"

definition path_components :: "string \<Rightarrow> string list" where
  "path_components p = filter (\<lambda>c. c \<noteq> []) (split_all (CHR ''/'') p)"

definition resolve_worktree :: "host \<Rightarrow> string \<Rightarrow> rejection + string" where
  "resolve_worktree h cwd =
     (if take 1 cwd \<noteq> ''/'' \<or> list_ex (\<lambda>(c, _). is_control c) (utf8_chars cwd)
      then Inl (Refused [T ''cwd '', D cwd, T '' is refused; it must be an absolute path''])
      else case ho_canonicalize h cwd of
        Inl e \<Rightarrow> Inl (Refused [T ''cwd '', D cwd, T '' cannot be resolved: '', S e])
      | Inr canonical \<Rightarrow>
          (case List.find (ho_has_git h) (path_ancestors (rev (path_components canonical))) of
             None \<Rightarrow> Inl (Refused [T ''cwd '', S canonical, T '' is not inside a git worktree''])
           | Some root \<Rightarrow> Inr root))"

definition try_worktree :: "host \<Rightarrow> string option \<Rightarrow> string option" where
  \<comment> \<open>\<open>p.cwd.as_deref().and_then(|cwd| resolve_worktree(cwd).ok())\<close>\<close>
  "try_worktree h cwd =
     (case cwd of None \<Rightarrow> None | Some c \<Rightarrow> (case resolve_worktree h c of Inl _ \<Rightarrow> None | Inr p \<Rightarrow> Some p))"

definition is_save_issue :: "string \<Rightarrow> bool" where
  "is_save_issue tool \<longleftrightarrow> tool = ''save_issue'' \<or> strip_suffix ''__save_issue'' tool \<noteq> None"

section \<open>Grouping text\<close>

fun strict_value :: "raw_json \<Rightarrow> string + json"
  and strict_items :: "raw_json list \<Rightarrow> json list \<Rightarrow> string + json"
  and strict_entries :: "(string \<times> raw_json) list \<Rightarrow> (string \<times> json) list \<Rightarrow> string + json" where
  "strict_value (RLeaf v) = Inr v"
| "strict_value (RArr xs) = strict_items xs []"
| "strict_value (RObj es) = strict_entries es []"
| "strict_items [] out = Inr (JArr out)"
| "strict_items (x # xs) out = (case strict_value x of Inl e \<Rightarrow> Inl e | Inr v \<Rightarrow> strict_items xs (out @ [v]))"
| "strict_entries [] out = Inr (JObj out)"
| "strict_entries ((k, x) # es) out =
     (if k \<in> fst ` set out then Inl (''duplicate key '' @ k)
      else case strict_value x of Inl e \<Rightarrow> Inl e | Inr v \<Rightarrow> strict_entries es (map_insert k v out))"

definition parse_grouping :: "host \<Rightarrow> (json \<Rightarrow> string + 'a) \<Rightarrow> string \<Rightarrow> string \<Rightarrow> rejection + 'a" where
  "parse_grouping h decode text what =
     (case (case ho_tokens h text of Inl e \<Rightarrow> Inl e | Inr raw \<Rightarrow> strict_value raw) of
        Inl e \<Rightarrow> Inl (Refused [T what, T '' is not valid JSON: '', S e])
      | Inr v \<Rightarrow>
          (case decode (sanitise_json v) of
             Inl e \<Rightarrow> Inl (Refused [T what, T '' is not a grouping '', T what, T '': '', S e])
           | Inr x \<Rightarrow> Inr x))"

section \<open>Reads\<close>

record linear_state =
  ls_space :: string
  ls_space_bindings :: "space_binding list"
  ls_worktree_bindings :: "worktree_binding list"
  ls_grouping :: "resolved_grouping option"
  ls_marks :: "mark list"
  ls_notes :: "linear_note list"
  ls_shows :: "show_request list"
  ls_resolved :: "show_request list"

definition linear_state :: "ldb \<Rightarrow> string \<Rightarrow> string \<Rightarrow> int \<Rightarrow> linear_state" where
  "linear_state s session space now =
     \<lparr>ls_space = space,
      ls_space_bindings = (case space_binding s session space of None \<Rightarrow> [] | Some b \<Rightarrow> [b]),
      ls_worktree_bindings = list_worktree_bindings s, ls_grouping = grouping_for_space s space,
      ls_marks = list_marks s session space, ls_notes = list_notes s session space None,
      ls_shows = pending_show_requests s session space now,
      ls_resolved = recent_resolved_show_requests s session space\<rparr>"

definition issue_has_local_state :: "ldb \<Rightarrow> string \<Rightarrow> string \<Rightarrow> string \<Rightarrow> bool" where
  "issue_has_local_state s session space issue \<longleftrightarrow>
     list_ex (\<lambda>b. wb_issue b = issue) (ld_worktree_bindings s) \<or>
     list_ex (\<lambda>a. av_session a = session \<and> av_space a = Some space \<and> av_issue a = Some issue) (ld_activity s)"

definition require_known :: "host \<Rightarrow> string \<Rightarrow> string \<Rightarrow> string \<Rightarrow> bool \<Rightarrow> unit local" where
  "require_known h session space issue known_elsewhere =
     thenT (check_space space)
     (thenT (check_issue h issue)
     (\<lambda>s. local_check (known_elsewhere \<or> issue_has_local_state s session space issue) (UnknownIssue space issue) s))"

definition issue_holder :: "ldb \<Rightarrow> string \<Rightarrow> string \<Rightarrow> string option" where
  "issue_holder s issue except_path =
     (case sort (map wb_path (filter (\<lambda>b. wb_issue b = issue \<and> wb_path b \<noteq> except_path) (ld_worktree_bindings s))) of
        [] \<Rightarrow> None | p # _ \<Rightarrow> Some p)"

section \<open>Binding a worktree\<close>

record 'a linear_change =
  lc_before :: "'a option"
  lc_after :: "'a option"

record 'a linear_replace =
  lr_before :: "'a list"
  lr_after :: 'a

record linear_bound =
  lb_change :: "worktree_binding linear_change"
  lb_cleared :: "mark list"

record linear_bind_params =
  bi_cwd :: string
  bi_issue :: string
  bi_space :: "string option"
  bi_branch :: "string option"
  bi_tab :: "string option"
  bi_display_name :: "string option"
  bi_claims :: activity_claims

fun remove_marks :: "int list \<Rightarrow> unit lstore" where
  "remove_marks [] = returnT ()"
| "remove_marks (i # is) = thenT (remove_mark i) (remove_marks is)"

definition names_worktree :: "string \<Rightarrow> mark \<Rightarrow> bool" where
  "names_worktree path m \<longleftrightarrow>
     (case mk_detail m of None \<Rightarrow> False
      | Some d \<Rightarrow> (case json_get ''worktree_path'' d of None \<Rightarrow> False | Some v \<Rightarrow> as_str v = Some path))"

definition clear_suggestions_naming :: "string \<Rightarrow> string \<Rightarrow> mark list lstore" where
  "clear_suggestions_naming issue path =
     bindT (readT (\<lambda>s. filter (\<lambda>m. mk_kind m = Suggestion) (issue_marks s issue))) (\<lambda>suggestions.
     if \<not> list_ex (names_worktree path) suggestions then returnT []
     else thenT (remove_marks (map mk_id suggestions)) (returnT suggestions))"

definition bound_to :: "linear_bind_params \<Rightarrow> string \<Rightarrow> worktree_binding option \<Rightarrow> worktree_binding" where
  \<comment> \<open>a re-bind keeps the teams, the view and the carried fields\<close>
  "bound_to p path before =
     \<lparr>wb_path = path, wb_issue = bi_issue p, wb_state = Bound, wb_branch = opt_line (bi_branch p), wb_tab = opt_line (bi_tab p),
      wb_display_name = opt_line (bi_display_name p),
      wb_team_ids = (case before of Some b \<Rightarrow> wb_team_ids b | None \<Rightarrow> []),
      wb_view = (case before of Some b \<Rightarrow> wb_view b | None \<Rightarrow> None),
      wb_carried = (case before of Some b \<Rightarrow> wb_carried b | None \<Rightarrow> [])\<rparr>"

definition linear_bind :: "host \<Rightarrow> linear_bind_params \<Rightarrow> linear_bound local" where
  "linear_bind h p =
     thenT (check_issue h (bi_issue p))
     (case resolve_worktree h (bi_cwd p) of
        Inl r \<Rightarrow> rejectT r
      | Inr path \<Rightarrow>
          transaction
            (bindT (readT (\<lambda>s. issue_holder s (bi_issue p) path)) (\<lambda>holder.
             thenT (case holder of Some other \<Rightarrow> rejectT (IssueBoundElsewhere (bi_issue p) other) | None \<Rightarrow> returnT ())
             (bindT (readT (\<lambda>s. worktree_binding s path)) (\<lambda>before.
             thenT (storeT (set_worktree_binding (ho_uuid h) (bound_to p path before)))
             (bindT (readT (\<lambda>s. worktree_binding s path)) (\<lambda>after.
             bindT (storeT (clear_suggestions_naming (bi_issue p) path)) (\<lambda>cleared.
             returnT \<lparr>lb_change = \<lparr>lc_before = before, lc_after = after\<rparr>, lb_cleared = cleared\<rparr>))))))))"

record linear_space_bind_params =
  lsb_space :: string
  lsb_project :: string
  lsb_view :: "string option"
  lsb_claims :: activity_claims

definition linear_space_bind :: "linear_space_bind_params \<Rightarrow> space_binding linear_change local" where
  "linear_space_bind p =
     (let session = (case claimed_session (clean_claims (lsb_claims p)) of Some x \<Rightarrow> x | None \<Rightarrow> ''default'') in
      thenT (check_space (lsb_space p))
      (thenT (check_linear_id (lsb_project p) ''project id'')
      (thenT (case lsb_view p of Some v \<Rightarrow> check_linear_id v ''view id'' | None \<Rightarrow> returnT ())
      (transaction
        (bindT (readT (\<lambda>s. space_binding s session (lsb_space p))) (\<lambda>before.
         thenT (storeT (set_space_binding
           \<lparr>sb_session = session, sb_space = lsb_space p, sb_project_id = lsb_project p,
            sb_display_name = (case before of Some b \<Rightarrow> sb_display_name b | None \<Rightarrow> None),
            sb_team_ids = (case before of Some b \<Rightarrow> if sb_project_id b = lsb_project p then sb_team_ids b else [] | None \<Rightarrow> []),
            sb_view = map_option (\<lambda>i. JObj [(''id'', JStr i)]) (lsb_view p)\<rparr>))
         (bindT (readT (\<lambda>s. space_binding s session (lsb_space p))) (\<lambda>after.
          returnT \<lparr>lc_before = before, lc_after = after\<rparr>))))))))"

definition trim_slashes :: "string \<Rightarrow> string" where
  "trim_slashes s = rev (dropWhile (\<lambda>c. c = CHR ''/'') (rev s))"

definition linear_unbind :: "host \<Rightarrow> string \<Rightarrow> worktree_binding linear_change local" where
  "linear_unbind h cwd =
     bindT (\<lambda>s. case resolve_worktree h cwd of
         Inr path \<Rightarrow> (Inr path, s)
       | Inl r \<Rightarrow> (case worktree_binding s (trim_slashes cwd) of
             Some b \<Rightarrow> (Inr (wb_path b), s) | None \<Rightarrow> (Inl (Rejection r), s))) (\<lambda>path.
     bindT (queryT (\<lambda>s. case worktree_binding s path of
         Some b \<Rightarrow> Inr b | None \<Rightarrow> Inl (Rejection (Missing [T ''worktree '', S path, T '' has no binding''])))) (\<lambda>before.
     thenT (storeT (remove_worktree_binding path))
     (returnT \<lparr>lc_before = Some before, lc_after = None\<rparr>)))"

section \<open>The grouping config\<close>

record linear_grouping_set_params =
  gp_space :: "string option"
  gp_text :: "string option"

fun put_space :: "string \<Rightarrow> grouping_mapping \<Rightarrow> space_grouping list \<Rightarrow> space_grouping list" where
  \<comment> \<open>the first entry of the space, else a new last one\<close>
  "put_space space m [] = [\<lparr>sg_space = space, sg_mapping = m\<rparr>]"
| "put_space space m (e # es) = (if sg_space e = space then e\<lparr>sg_mapping := m\<rparr> # es else e # put_space space m es)"

definition changed_grouping :: "host \<Rightarrow> linear_grouping_set_params \<Rightarrow> grouping_config option \<Rightarrow> local_error + grouping_config" where
  "changed_grouping h p before =
     (case (gp_space p, gp_text p) of
        (None, None) \<Rightarrow> Inl (Rejection (Refused [T ''a grouping change without a space needs text: a whole grouping config'']))
      | (None, Some text) \<Rightarrow>
          (case parse_grouping h (ho_decode_config h) text ''config'' of Inl r \<Rightarrow> Inl (Rejection r) | Inr c \<Rightarrow> Inr c)
      | (Some space, Some text) \<Rightarrow>
          if \<not> text_ok space
          then Inl (Rejection (Refused [T ''space '', D space, T '' is refused; a space is non-empty text without control characters'']))
          else (case parse_grouping h (ho_decode_mapping h) text ''mapping'' of
             Inl r \<Rightarrow> Inl (Rejection r)
           | Inr m \<Rightarrow>
               (case before of
                  None \<Rightarrow> Inl (Rejection (Refused [T ''space '', D space,
                    T '' cannot be mapped before a global mapping exists; a space mapping replaces the global one, so one must exist'']))
                | Some c \<Rightarrow> Inr (c\<lparr>gc_spaces := put_space space m (gc_spaces c)\<rparr>)))
      | (Some space, None) \<Rightarrow>
          (case before of
             Some c \<Rightarrow>
               if list_ex (\<lambda>e. sg_space e = space) (gc_spaces c)
               then Inr (c\<lparr>gc_spaces := filter (\<lambda>e. sg_space e \<noteq> space) (gc_spaces c)\<rparr>)
               else Inl (Rejection (Missing [T ''space '', D space, T '' has no grouping override'']))
           | None \<Rightarrow> Inl (Rejection (Missing [T ''space '', D space, T '' has no grouping override'']))))"

definition linear_grouping_change :: "host \<Rightarrow> linear_grouping_set_params \<Rightarrow> bool \<Rightarrow> grouping_config linear_change local" where
  "linear_grouping_change h p write =
     bindT (readT get_grouping_config) (\<lambda>before.
     bindT (queryT (\<lambda>_. changed_grouping h p before)) (\<lambda>after.
     thenT (storeT (queryT (\<lambda>_. validate_config after)))
     (if \<not> write then returnT \<lparr>lc_before = before, lc_after = Some after\<rparr>
      else thenT (storeT (replace_grouping after))
        (bindT (readT get_grouping_config) (\<lambda>stored. returnT \<lparr>lc_before = before, lc_after = stored\<rparr>)))))"

section \<open>Marks and notes\<close>

definition replace_mark :: "host \<Rightarrow> new_mark \<Rightarrow> mark linear_replace local" where
  "replace_mark h m =
     transaction
       (bindT (readT (\<lambda>s. filter (\<lambda>x. mk_kind x = nm_kind m \<and> mk_owner x = nm_owner m)
                (space_issue_marks s (nm_session m) (nm_space m) (nm_issue m)))) (\<lambda>before.
        thenT (storeT (remove_marks (map mk_id before)))
        (bindT (storeT (add_mark (ho_uuid h) m)) (\<lambda>after.
         returnT \<lparr>lr_before = before, lr_after = after\<rparr>))))"

record linear_mark_set_params =
  ms_space :: string
  ms_issue :: string
  ms_kind :: mark_kind
  ms_text :: "string option"
  ms_created_by :: "string option"
  ms_owner :: linear_owner

definition linear_mark_set :: "host \<Rightarrow> linear_mark_set_params \<Rightarrow> bool \<Rightarrow> mark linear_replace local" where
  "linear_mark_set h p known_elsewhere =
     (let owner = clean_owner (ms_owner p); session = herdr_session (ow_socket owner) in
      thenT (local_check (ms_kind p \<noteq> Suggestion)
        (Refused [T ''mark kind suggestion is set only by the board, from a reported Linear write; a mark is attention, question or done'']))
      (thenT (require_known h session (ms_space p) (ms_issue p) known_elsewhere)
      (replace_mark h
        \<lparr>nm_session = session, nm_space = ms_space p, nm_issue = ms_issue p, nm_kind = ms_kind p,
         nm_text = map_option strip_control_keep_lines (ms_text p), nm_detail = None,
         nm_created_by = opt_line (ms_created_by p), nm_owner = owner\<rparr>)))"

record linear_mark_unmark_params =
  mu_space :: string
  mu_issue :: string
  mu_kind :: "mark_kind option"
  mu_owner :: linear_owner

definition linear_mark_unmark :: "host \<Rightarrow> linear_mark_unmark_params \<Rightarrow> mark list local" where
  "linear_mark_unmark h p =
     thenT (check_space (mu_space p))
     (thenT (check_issue h (mu_issue p))
     (bindT (require_owner (mu_owner p) ''unmark'') (\<lambda>owner.
      transaction
        (bindT (readT (\<lambda>s. filter (\<lambda>m. (case mu_kind p of None \<Rightarrow> True | Some k \<Rightarrow> k = mk_kind m) \<and> mk_owner m = owner)
                 (space_issue_marks s (herdr_session (ow_socket owner)) (mu_space p) (mu_issue p)))) (\<lambda>removed.
         thenT (storeT (remove_marks (map mk_id removed))) (returnT removed))))))"

fun clear_loop :: "int list \<Rightarrow> mark list \<Rightarrow> mark list lstore" where
  "clear_loop [] removed = returnT removed"
| "clear_loop (i # is) removed =
     bindT (readT (\<lambda>s. find_mark s i)) (\<lambda>found.
     case found of None \<Rightarrow> clear_loop is removed
     | Some m \<Rightarrow> thenT (remove_mark i) (clear_loop is (removed @ [m])))"

definition linear_mark_clear_ids :: "int list \<Rightarrow> mark list local" where
  "linear_mark_clear_ids is = transaction (storeT (clear_loop is []))"

definition linear_mark_clear :: "int \<Rightarrow> mark linear_change local" where
  "linear_mark_clear i =
     bindT (queryT (\<lambda>s. case find_mark s i of
         None \<Rightarrow> Inl (Rejection (Missing [T ''mark '', N i, T '' does not exist''])) | Some m \<Rightarrow> Inr m)) (\<lambda>before.
     thenT (storeT (remove_mark i)) (returnT \<lparr>lc_before = Some before, lc_after = None\<rparr>))"

record linear_note_set_params =
  np_space :: string
  np_issue :: string
  np_body :: string
  np_author :: string
  np_owner :: linear_owner

fun remove_notes :: "int list \<Rightarrow> unit lstore" where
  "remove_notes [] = returnT ()"
| "remove_notes (i # is) = thenT (remove_note i) (remove_notes is)"

definition linear_note_set :: "host \<Rightarrow> linear_note_set_params \<Rightarrow> bool \<Rightarrow> linear_note linear_replace local" where
  "linear_note_set h p known_elsewhere =
     (let owner = clean_owner (np_owner p); session = herdr_session (ow_socket owner);
          body = strip_control_keep_lines (np_body p); author = strip_control_and_format (np_author p) in
      thenT (require_known h session (np_space p) (np_issue p) known_elsewhere)
      (transaction
        (bindT (readT (\<lambda>s. filter (\<lambda>n. nt_author n = author) (list_notes s session (np_space p) (Some (np_issue p))))) (\<lambda>before.
         thenT (storeT (remove_notes (map nt_id before)))
         (bindT (storeT (add_note (ho_uuid h) session (np_space p) (np_issue p) body author owner)) (\<lambda>after.
          returnT \<lparr>lr_before = before, lr_after = after\<rparr>))))))"

definition linear_note_clear :: "int \<Rightarrow> linear_note linear_change local" where
  "linear_note_clear i =
     bindT (queryT (\<lambda>s. case find_note s i of
         None \<Rightarrow> Inl (Rejection (Missing [T ''note '', N i, T '' does not exist''])) | Some n \<Rightarrow> Inr n)) (\<lambda>before.
     thenT (storeT (remove_note i)) (returnT \<lparr>lc_before = Some before, lc_after = None\<rparr>))"

section \<open>Show requests\<close>

record linear_show_request_params =
  sp_space :: string
  sp_issue :: string
  sp_reason :: "string option"
  sp_requested_by :: "string option"
  sp_owner :: linear_owner

definition same_asker :: "string \<Rightarrow> linear_owner \<Rightarrow> show_request \<Rightarrow> bool" where
  "same_asker issue owner r \<longleftrightarrow> sh_issue r = issue \<and> sh_owner r = owner"

definition linear_show_request ::
  "host \<Rightarrow> linear_show_request_params \<Rightarrow> bool \<Rightarrow> int \<Rightarrow> int \<Rightarrow> show_request linear_change local" where
  "linear_show_request h p known_elsewhere now ttl_secs =
     (let owner = clean_owner (sp_owner p); session = herdr_session (ow_socket owner);
          reason = opt_line (sp_reason p); requested_by = opt_line (sp_requested_by p);
          expires_at = i64_saturating_add now ttl_secs in
      thenT (require_known h session (sp_space p) (sp_issue p) known_elsewhere)
      (transaction
        (bindT (readT (\<lambda>s. List.find (same_asker (sp_issue p) owner) (pending_show_requests s session (sp_space p) now))) (\<lambda>existing.
         case existing of
           Some before \<Rightarrow>
             thenT (storeT (refresh_show_request (sh_id before) reason requested_by expires_at))
             (bindT (readT (\<lambda>s. find_show s (sh_id before))) (\<lambda>after.
              returnT \<lparr>lc_before = Some before, lc_after = after\<rparr>))
         | None \<Rightarrow>
             bindT (storeT (add_show_request (ho_uuid h)
               \<lparr>ns_session = session, ns_space = sp_space p, ns_issue = sp_issue p, ns_reason = reason,
                ns_requested_by = requested_by, ns_owner = owner, ns_expires_at = expires_at\<rparr>)) (\<lambda>r.
             returnT \<lparr>lc_before = None, lc_after = Some r\<rparr>)))))"

definition close_pending :: "int \<Rightarrow> show_outcome \<Rightarrow> int \<Rightarrow> show_request linear_change local" where
  "close_pending i outcome now =
     bindT (queryT (\<lambda>s. case find_show s i of
         None \<Rightarrow> Inl (Rejection (Missing [T ''show request '', N i, T '' does not exist''])) | Some r \<Rightarrow> Inr r)) (\<lambda>before.
     bindT (if \<not> is_pending before now then returnT False else storeT (close_show_request i outcome)) (\<lambda>closed.
     if \<not> closed
     then rejectT (ShowRequestAnswered i (or_else (sh_outcome before) (if is_overdue before now then Some Expired else None)))
     else bindT (readT (\<lambda>s. find_show s i)) (\<lambda>after. returnT \<lparr>lc_before = Some before, lc_after = after\<rparr>)))"

definition linear_show_accept :: "int \<Rightarrow> int \<Rightarrow> show_request linear_change local" where
  "linear_show_accept i now = close_pending i Accepted now"

definition linear_show_dismiss :: "int \<Rightarrow> int \<Rightarrow> show_request linear_change local" where
  "linear_show_dismiss i now = close_pending i Rejected now"

record linear_show_withdraw_params =
  sw_space :: string
  sw_issue :: string
  sw_owner :: linear_owner

definition linear_show_withdraw :: "host \<Rightarrow> linear_show_withdraw_params \<Rightarrow> int \<Rightarrow> show_request linear_change local" where
  "linear_show_withdraw h p now =
     thenT (check_space (sw_space p))
     (thenT (check_issue h (sw_issue p))
     (bindT (require_owner (sw_owner p) ''withdraw'') (\<lambda>owner.
      bindT (queryT (\<lambda>s. case List.find (same_asker (sw_issue p) owner)
                (pending_show_requests s (herdr_session (ow_socket owner)) (sw_space p) now) of
          None \<Rightarrow> Inl (Rejection (Missing [T ''no pending show request of this caller's for '', S (sw_issue p), T '' in space '', S (sw_space p)]))
        | Some r \<Rightarrow> Inr r)) (\<lambda>r.
      close_pending (sh_id r) Withdrawn now))))"

section \<open>Sessions and activity\<close>

record linear_session_get_params =
  sg_get_space :: string
  sg_get_socket :: "string option"
  sg_get_cwd :: "string option"

record linear_session_result =
  sres_space :: string
  sres_bound :: bool
  sres_binding :: "(string \<times> string \<times> string option) option"
  sres_marks :: "mark list"
  sres_pending :: nat

definition linear_session_get :: "host \<Rightarrow> ldb \<Rightarrow> linear_session_get_params \<Rightarrow> int \<Rightarrow> linear_session_result" where
  \<comment> \<open>the binding as worktree, issue and time; the count of pending requests, cut at \<open>u32::MAX\<close>\<close>
  "linear_session_get h s p now =
     (let empty = \<lparr>sres_space = sg_get_space p, sres_bound = False, sres_binding = None, sres_marks = [], sres_pending = 0\<rparr> in
      case map_option (\<lambda>x. herdr_session (Some x)) (sg_get_socket p) of None \<Rightarrow> empty
      | Some session \<Rightarrow>
          if space_binding s session (sg_get_space p) = None then empty
          else let found = empty\<lparr>sres_bound := True,
                   sres_pending := min (length (pending_show_requests s session (sg_get_space p) now)) (2 ^ 32 - 1)\<rparr> in
            (case try_worktree h (sg_get_cwd p) of None \<Rightarrow> found
             | Some path \<Rightarrow>
                 (case worktree_binding s path of None \<Rightarrow> found
                  | Some b \<Rightarrow> found\<lparr>sres_marks := space_issue_marks s session (sg_get_space p) (wb_issue b),
                        sres_binding := Some (wb_path b, wb_issue b, worktree_binding_since s path)\<rparr>)))"

datatype activity_outcome = Linked | Suggested | Recorded

record activity_params =
  ap_tool_name :: string
  ap_issue :: "string option"
  ap_space :: "string option"
  ap_cwd :: "string option"
  ap_claims :: activity_claims

record activity_result =
  ar_activity :: linear_activity
  ar_outcome :: activity_outcome
  ar_binding :: "worktree_binding linear_change option"
  ar_mark :: "mark linear_replace option"
  ar_cleared :: "mark list"

definition opt_json :: "string option \<Rightarrow> json" where
  "opt_json x = (case x of None \<Rightarrow> JNull | Some s \<Rightarrow> JStr s)"

definition opt_json_int :: "int option \<Rightarrow> json" where
  "opt_json_int x = (case x of None \<Rightarrow> JNull | Some i \<Rightarrow> JInt i)"

definition suggestion_detail :: "string option \<Rightarrow> string option \<Rightarrow> activity_claims \<Rightarrow> json" where
  "suggestion_detail worktree cwd c =
     sanitise_json (JObj (map_collect
       [(''worktree_path'', opt_json worktree), (''cwd'', opt_json cwd), (''herdr_socket'', opt_json (ac_socket c)),
        (''herdr_pane_id'', opt_json (ac_pane c)), (''herdr_workspace_id'', opt_json (ac_workspace c)),
        (''card_id'', opt_json_int (ac_card_id c)), (''run_id'', opt_json_int (ac_run_id c))]))"

definition no_owner :: linear_owner where
  "no_owner = \<lparr>ow_socket = None, ow_pane = None, ow_claude = None\<rparr>"

definition known_session :: "ldb \<Rightarrow> activity_claims \<Rightarrow> string \<Rightarrow> bool" where
  "known_session s c space \<longleftrightarrow>
     (case (claimed_session c, ac_pane c) of (Some session, Some _) \<Rightarrow> space_binding s session space \<noteq> None | _ \<Rightarrow> False)"

definition recorded :: "linear_activity \<Rightarrow> activity_result" where
  "recorded a = \<lparr>ar_activity = a, ar_outcome = Recorded, ar_binding = None, ar_mark = None, ar_cleared = []\<rparr>"

definition suggest_issue ::
  "host \<Rightarrow> activity_params \<Rightarrow> activity_claims \<Rightarrow> linear_activity \<Rightarrow> string \<Rightarrow> string \<Rightarrow> string option \<Rightarrow> activity_result local" where
  "suggest_issue h p claims a issue space worktree =
     bindT (replace_mark h
       \<lparr>nm_session = herdr_session (ac_socket claims), nm_space = space, nm_issue = issue, nm_kind = Suggestion, nm_text = None,
        nm_detail = Some (suggestion_detail worktree (ap_cwd p) claims), nm_created_by = Some (ap_tool_name p), nm_owner = no_owner\<rparr>) (\<lambda>m.
     returnT \<lparr>ar_activity = a, ar_outcome = Suggested, ar_binding = None, ar_mark = Some m, ar_cleared = []\<rparr>)"

definition link_issue ::
  "host \<Rightarrow> activity_claims \<Rightarrow> linear_activity \<Rightarrow> string \<Rightarrow> string \<Rightarrow> string \<Rightarrow> activity_result local" where
  "link_issue h claims a issue space path =
     bindT (linear_bind h
       \<lparr>bi_cwd = path, bi_issue = issue, bi_space = Some space, bi_branch = None, bi_tab = None, bi_display_name = None,
        bi_claims = claims\<rparr>) (\<lambda>b.
     returnT \<lparr>ar_activity = a, ar_outcome = Linked, ar_binding = Some (lb_change b), ar_mark = None, ar_cleared = lb_cleared b\<rparr>)"

definition link_or_suggest ::
  "host \<Rightarrow> activity_params \<Rightarrow> activity_claims \<Rightarrow> linear_activity \<Rightarrow> string \<Rightarrow> string \<Rightarrow> activity_result local" where
  "link_or_suggest h p claims a issue space = (\<lambda>s.
     case try_worktree h (ap_cwd p) of
       None \<Rightarrow> suggest_issue h p claims a issue space None s
     | Some path \<Rightarrow>
         if (case worktree_binding s path of None \<Rightarrow> False | Some b \<Rightarrow> wb_issue b = issue) then (Inr (recorded a), s)
         else if known_session s claims space \<and> worktree_binding s path = None \<and> issue_holder s issue path = None
         then link_issue h claims a issue space path s
         else suggest_issue h p claims a issue space (Some path) s)"

definition linear_activity_record :: "host \<Rightarrow> activity_params \<Rightarrow> activity_result local" where
  "linear_activity_record h p =
     (let claims = clean_claims (ap_claims p); space = claimed_space (ap_space p) claims in
      thenT (case ap_issue p of Some issue \<Rightarrow> check_issue h issue | None \<Rightarrow> returnT ())
      (bindT (storeT (record_activity (ho_uuid h)
         \<lparr>na_session = herdr_session (ac_socket claims), na_space = space, na_tool_name = ap_tool_name p, na_issue = ap_issue p,
          na_claims = claims\<rparr>)) (\<lambda>a.
       case (ap_issue p, space) of
         (Some issue, Some sp) \<Rightarrow>
           if is_save_issue (ap_tool_name p) then link_or_suggest h p claims a issue sp else returnT (recorded a)
       | _ \<Rightarrow> returnT (recorded a))))"

definition linear_activity_list :: "ldb \<Rightarrow> string option \<Rightarrow> nat option \<Rightarrow> string option \<Rightarrow> linear_activity list" where
  "linear_activity_list s space limit socket =
     list_activity s (herdr_session socket) space (min (case limit of Some n \<Rightarrow> n | None \<Rightarrow> 50) activity_keep)"

end
