(* ===== verification/Linear_Cache.thy ===== *)
theory Linear_Cache
  imports Linear_Writes
begin

text \<open>
  \<open>crates/board-daemon/src/linear/cache.rs\<close>: one shared Linear read per space, and the debounced refetch that
  follows a reported write. Every function here is what one caller does while it holds the mutex; who runs when
  is the step relation. An \<open>Instant\<close> is a natural number, a thread a natural number. The plan of a read and what it returns are type
  parameters, as in the source. \<open>Condvar::wait\<close> gives up the lock in the state \<open>Waiting\<close>; \<open>notify_all\<close> and
  spurious wake-ups put a waiter back at the top of its loop.
\<close>

section \<open>The snapshot cache\<close>

record space_cache_key =
  sk_session :: string
  sk_space :: string

record ('p, 't) cache_entry =
  ce_plan :: 'p
  ce_good :: "('t \<times> nat) option"
  ce_error :: "string option"
  ce_attempted :: "nat option"
  ce_invalidated :: "nat option"
  ce_in_flight :: bool

type_synonym ('k, 'p, 't) entries = "'k \<Rightarrow> ('p, 't) cache_entry option"

record 't cache_read =
  cr_good :: "('t \<times> nat) option"
  cr_error :: "string option"

definition entry_fresh :: "('p, 't) cache_entry \<Rightarrow> 'p \<Rightarrow> nat \<Rightarrow> nat \<Rightarrow> bool" where
  "entry_fresh e plan ttl now \<longleftrightarrow>
     (case ce_attempted e of None \<Rightarrow> False
      | Some attempted \<Rightarrow> ce_plan e = plan \<and> now - attempted < ttl \<and>
          (case ce_invalidated e of None \<Rightarrow> True | Some at \<Rightarrow> at < attempted))"

definition entry_read :: "('p, 't) cache_entry \<Rightarrow> nat \<Rightarrow> 't cache_read" where
  "entry_read e now = \<lparr>cr_good = map_option (\<lambda>(v, at). (v, now - at)) (ce_good e), cr_error = ce_error e\<rparr>"

datatype 't claim_result = Served "'t cache_read" | MustWait | Claim

definition new_entry :: "'p \<Rightarrow> ('p, 't) cache_entry" where
  "new_entry plan =
     \<lparr>ce_plan = plan, ce_good = None, ce_error = None, ce_attempted = None, ce_invalidated = None, ce_in_flight = True\<rparr>"

definition claim_entry :: "'p \<Rightarrow> ('p, 't) cache_entry \<Rightarrow> ('p, 't) cache_entry" where
  "claim_entry plan e =
     (if ce_plan e \<noteq> plan then e\<lparr>ce_plan := plan, ce_good := None, ce_error := None, ce_in_flight := True\<rparr>
      else e\<lparr>ce_in_flight := True\<rparr>)"

definition read_loop :: "'k \<Rightarrow> 'p \<Rightarrow> nat \<Rightarrow> nat \<Rightarrow> ('k, 'p, 't) entries \<Rightarrow> 't claim_result \<times> ('k, 'p, 't) entries" where
  \<comment> \<open>one turn of the loop of \<open>read\<close>\<close>
  "read_loop key plan ttl now es =
     (case es key of
        Some e \<Rightarrow>
          if entry_fresh e plan ttl now then (Served (entry_read e now), es)
          else if ce_in_flight e then (MustWait, es)
          else (Claim, es(key \<mapsto> claim_entry plan e))
      | None \<Rightarrow> (Claim, es(key \<mapsto> new_entry plan)))"

definition finished_entry :: "nat \<Rightarrow> nat \<Rightarrow> string + 't \<Rightarrow> ('p, 't) cache_entry \<Rightarrow> ('p, 't) cache_entry" where
  "finished_entry started now outcome e =
     (case outcome of
        Inr v \<Rightarrow> e\<lparr>ce_in_flight := False, ce_attempted := Some started, ce_good := Some (v, now), ce_error := None\<rparr>
      | Inl msg \<Rightarrow> e\<lparr>ce_in_flight := False, ce_attempted := Some started, ce_error := Some msg\<rparr>)"

definition read_finish ::
  "'k \<Rightarrow> nat \<Rightarrow> nat \<Rightarrow> string + 't \<Rightarrow> ('k, 'p, 't) entries \<Rightarrow> 't cache_read \<times> ('k, 'p, 't) entries" where
  \<comment> \<open>the second half of \<open>read\<close>, after the fetch\<close>
  "read_finish key started now outcome es =
     (case es key of
        Some e \<Rightarrow> let e' = finished_entry started now outcome e in (entry_read e' now, es(key \<mapsto> e'))
      | None \<Rightarrow>
          (case outcome of
             Inr v \<Rightarrow> (\<lparr>cr_good = Some (v, 0), cr_error = None\<rparr>, es)
           | Inl msg \<Rightarrow> (\<lparr>cr_good = None, cr_error = Some msg\<rparr>, es)))"

definition drop_in_flight :: "'k \<Rightarrow> ('k, 'p, 't) entries \<Rightarrow> ('k, 'p, 't) entries" where
  \<comment> \<open>the guard \<open>InFlight\<close>, when the fetch unwinds\<close>
  "drop_in_flight key es = (case es key of None \<Rightarrow> es | Some e \<Rightarrow> es(key \<mapsto> e\<lparr>ce_in_flight := False\<rparr>))"

definition cache_invalidate :: "'k \<Rightarrow> nat \<Rightarrow> ('k, 'p, 't) entries \<Rightarrow> 'p option \<times> ('k, 'p, 't) entries" where
  "cache_invalidate key now es =
     (case es key of None \<Rightarrow> (None, es) | Some e \<Rightarrow> (Some (ce_plan e), es(key \<mapsto> e\<lparr>ce_invalidated := Some now\<rparr>)))"

definition cache_plan :: "'k \<Rightarrow> ('k, 'p, 't) entries \<Rightarrow> 'p option" where
  "cache_plan key es = map_option ce_plan (es key)"

definition cache_remove :: "'k \<Rightarrow> ('k, 'p, 't) entries \<Rightarrow> ('k, 'p, 't) entries" where
  "cache_remove key es = es(key := None)"

definition peek_good :: "'k \<Rightarrow> ('k, 'p, 't) entries \<Rightarrow> ('t \<times> 'p) option" where
  "peek_good key es =
     (case es key of None \<Rightarrow> None
      | Some e \<Rightarrow> if ce_error e = None then map_option (\<lambda>(v, _). (v, ce_plan e)) (ce_good e) else None)"

definition find_good :: "'k \<Rightarrow> ('t \<Rightarrow> 'r option) \<Rightarrow> ('k, 'p, 't) entries \<Rightarrow> 'r option" where
  "find_good key pick es =
     (case es key of None \<Rightarrow> None
      | Some e \<Rightarrow> (case ce_good e of None \<Rightarrow> None | Some (v, _) \<Rightarrow> pick v))"

section \<open>Readers, one mutex and one condition variable\<close>

datatype ('k, 'p, 't) reader =
    Idle
  | Looping 'k 'p "nat option"  \<comment> \<open>about to take the lock; the last invalidation when the read began\<close>
  | Waiting 'k 'p "nat option"
  | Claimed 'k 'p "nat option"  \<comment> \<open>the entry is marked in flight, the clock not yet read\<close>
  | Fetching 'k 'p "nat option" nat
  | Returned 'k 'p "nat option" "'t cache_read" nat
  | Unwound

record ('k, 'p, 't) cache_state =
  ca_entries :: "('k, 'p, 't) entries"
  ca_now :: nat
  ca_threads :: "nat \<Rightarrow> ('k, 'p, 't) reader"
  ca_reported :: "'k \<Rightarrow> nat option"
    \<comment> \<open>not in the program: when each key was last invalidated\<close>

definition wake :: "('k, 'p, 't) reader \<Rightarrow> ('k, 'p, 't) reader" where
  "wake r = (case r of Waiting k p since \<Rightarrow> Looping k p since | _ \<Rightarrow> r)"

definition notify_all :: "(nat \<Rightarrow> ('k, 'p, 't) reader) \<Rightarrow> nat \<Rightarrow> ('k, 'p, 't) reader" where
  "notify_all threads = (\<lambda>i. wake (threads i))"

definition after_loop :: "'k \<Rightarrow> 'p \<Rightarrow> nat option \<Rightarrow> nat \<Rightarrow> 't claim_result \<Rightarrow> ('k, 'p, 't) reader" where
  "after_loop k p since now r =
     (case r of Served x \<Rightarrow> Returned k p since x now | MustWait \<Rightarrow> Waiting k p since | Claim \<Rightarrow> Claimed k p since)"

text \<open>
  \<open>fetched p started finished v\<close> is what Linear may answer to a fetch of the plan \<open>p\<close> between two times; \<open>removals\<close> says
  whether \<open>remove\<close> is called at all.
\<close>

inductive cache_step ::
  "bool \<Rightarrow> nat \<Rightarrow> ('p \<Rightarrow> nat \<Rightarrow> nat \<Rightarrow> 't \<Rightarrow> bool) \<Rightarrow> ('k, 'p, 't) cache_state \<Rightarrow> ('k, 'p, 't) cache_state \<Rightarrow> bool"
  for removals :: bool and ttl :: nat and fetched :: "'p \<Rightarrow> nat \<Rightarrow> nat \<Rightarrow> 't \<Rightarrow> bool" where
  tick: "cache_step removals ttl fetched s (s\<lparr>ca_now := ca_now s + d\<rparr>)"
| begin_read: "ca_threads s i = Idle \<Longrightarrow>
    cache_step removals ttl fetched s (s\<lparr>ca_threads := (ca_threads s)(i := Looping k p (ca_reported s k))\<rparr>)"
| take_turn: "ca_threads s i = Looping k p since \<Longrightarrow> read_loop k p ttl (ca_now s) (ca_entries s) = (r, es) \<Longrightarrow>
    cache_step removals ttl fetched s
      (s\<lparr>ca_entries := es, ca_threads := (ca_threads s)(i := after_loop k p since (ca_now s) r)\<rparr>)"
| start_fetch: "ca_threads s i = Claimed k p since \<Longrightarrow>
    cache_step removals ttl fetched s (s\<lparr>ca_threads := (ca_threads s)(i := Fetching k p since (ca_now s))\<rparr>)"
| finish_fetch: "ca_threads s i = Fetching k p since started \<Longrightarrow>
    (case outcome of Inl _ \<Rightarrow> True | Inr v \<Rightarrow> fetched p started (ca_now s) v) \<Longrightarrow>
    read_finish k started (ca_now s) outcome (ca_entries s) = (r, es) \<Longrightarrow>
    cache_step removals ttl fetched s
      (s\<lparr>ca_entries := es, ca_threads := (notify_all (ca_threads s))(i := Returned k p since r (ca_now s))\<rparr>)"
| unwind: "ca_threads s i = Fetching k p since started \<Longrightarrow>
    cache_step removals ttl fetched s
      (s\<lparr>ca_entries := drop_in_flight k (ca_entries s), ca_threads := (notify_all (ca_threads s))(i := Unwound)\<rparr>)"
| spurious: "ca_threads s i = Waiting k p since \<Longrightarrow>
    cache_step removals ttl fetched s (s\<lparr>ca_threads := (ca_threads s)(i := Looping k p since)\<rparr>)"
| invalidate: "cache_invalidate k (ca_now s) (ca_entries s) = (r, es) \<Longrightarrow>
    cache_step removals ttl fetched s
      (s\<lparr>ca_entries := es, ca_reported := (ca_reported s)(k \<mapsto> ca_now s)\<rparr>)"
| remove_key: "removals \<Longrightarrow>
    cache_step removals ttl fetched s
      (s\<lparr>ca_entries := cache_remove k (ca_entries s), ca_threads := notify_all (ca_threads s)\<rparr>)"

inductive cache_reachable ::
  "bool \<Rightarrow> nat \<Rightarrow> ('p \<Rightarrow> nat \<Rightarrow> nat \<Rightarrow> 't \<Rightarrow> bool) \<Rightarrow> ('k, 'p, 't) cache_state \<Rightarrow> bool"
  for removals :: bool and ttl :: nat and fetched :: "'p \<Rightarrow> nat \<Rightarrow> nat \<Rightarrow> 't \<Rightarrow> bool" where
  start: "cache_reachable removals ttl fetched
    \<lparr>ca_entries = Map.empty, ca_now = now, ca_threads = (\<lambda>_. Idle), ca_reported = Map.empty\<rparr>"
| step: "cache_reachable removals ttl fetched s \<Longrightarrow> cache_step removals ttl fetched s t \<Longrightarrow> cache_reachable removals ttl fetched t"

definition in_flight :: "'k \<Rightarrow> ('k, 'p, 't) reader \<Rightarrow> bool" where
  "in_flight k r \<longleftrightarrow> (case r of Claimed k' p since \<Rightarrow> k' = k | Fetching k' p since started \<Rightarrow> k' = k | _ \<Rightarrow> False)"

definition waits :: "'k \<Rightarrow> ('k, 'p, 't) reader \<Rightarrow> bool" where
  "waits k r \<longleftrightarrow> (case r of Waiting k' p since \<Rightarrow> k' = k | _ \<Rightarrow> False)"

lemma waits_simps [simp]:
  "\<not> waits k Idle" "\<not> waits k (Looping k' p since)" "waits k (Waiting k' p since) \<longleftrightarrow> k' = k"
  "\<not> waits k (Claimed k' p since)" "\<not> waits k (Fetching k' p since started)"
  "\<not> waits k (Returned k' p since r now)" "\<not> waits k Unwound"
  by (simp_all add: waits_def)

lemma in_flight_simps [simp]:
  "\<not> in_flight k Idle" "\<not> in_flight k (Looping k' p since)" "\<not> in_flight k (Waiting k' p since)"
  "in_flight k (Claimed k' p since) \<longleftrightarrow> k' = k" "in_flight k (Fetching k' p since started) \<longleftrightarrow> k' = k"
  "\<not> in_flight k (Returned k' p since r now)" "\<not> in_flight k Unwound"
  by (simp_all add: in_flight_def)

lemma wake_simps [simp]:
  "wake Idle = Idle" "wake (Looping k p since) = Looping k p since" "wake (Waiting k p since) = Looping k p since"
  "wake (Claimed k p since) = Claimed k p since" "wake (Fetching k p since n) = Fetching k p since n"
  "wake (Returned k p since r n) = Returned k p since r n" "wake Unwound = Unwound"
  by (simp_all add: wake_def)

lemma wake_in_flight [simp]: "in_flight k (wake r) = in_flight k r"
  by (cases r) simp_all

lemma wake_not_waiting [simp]: "\<not> waits k (wake r)"
  by (cases r) simp_all

lemma wake_eqs [simp]:
  "wake r = Claimed k p since \<longleftrightarrow> r = Claimed k p since" "wake r = Fetching k p since n \<longleftrightarrow> r = Fetching k p since n"
  "wake r = Returned k p since x n \<longleftrightarrow> r = Returned k p since x n"
  by (cases r; simp)+

section \<open>A waiting reader is never stranded\<close>

definition busy :: "('k, 'p, 't) entries \<Rightarrow> 'k \<Rightarrow> bool" where
  "busy es k \<longleftrightarrow> (case es k of None \<Rightarrow> False | Some e \<Rightarrow> ce_in_flight e)"

definition served_inv :: "('k, 'p, 't) cache_state \<Rightarrow> bool" where
  "served_inv s \<longleftrightarrow>
     (\<forall>i k. waits k (ca_threads s i) \<longrightarrow> busy (ca_entries s) k) \<and>
     (\<forall>k. busy (ca_entries s) k \<longrightarrow> (\<exists>j. in_flight k (ca_threads s j)))"

lemma busy_read_finish: "read_finish k started now outcome es = (r, es') \<Longrightarrow> busy es' j = (j \<noteq> k \<and> busy es j)"
  by (auto simp: read_finish_def busy_def Let_def finished_entry_def split: option.splits sum.splits if_splits)

lemma busy_ops [simp]:
  "busy (drop_in_flight k es) j = (j \<noteq> k \<and> busy es j)" "busy (cache_remove k es) j = (j \<noteq> k \<and> busy es j)"
  by (auto simp: drop_in_flight_def cache_remove_def busy_def split: option.splits if_splits)

lemma busy_invalidate: "cache_invalidate k now es = (r, es') \<Longrightarrow> busy es' j = busy es j"
  by (auto simp: cache_invalidate_def busy_def split: option.splits if_splits)

lemma busy_read_loop:
  assumes "read_loop k p ttl now es = (r, es')"
  shows "case r of Served _ \<Rightarrow> es' = es | MustWait \<Rightarrow> es' = es \<and> busy es k
    | Claim \<Rightarrow> \<not> busy es k \<and> (\<forall>j. busy es' j = (j = k \<or> busy es j))"
  using assms by (auto simp: read_loop_def busy_def claim_entry_def new_entry_def split: option.splits if_splits)

lemma served_inv_change:
  assumes "served_inv s" "\<And>k. busy es k \<Longrightarrow> busy (ca_entries s) k \<Longrightarrow> in_flight k (ca_threads s i) \<Longrightarrow> in_flight k r"
    and "\<And>k. busy es k \<Longrightarrow> \<not> busy (ca_entries s) k \<Longrightarrow> in_flight k r"
    and "\<And>j. j \<noteq> i \<Longrightarrow> threads j = ca_threads s j \<or> threads j = wake (ca_threads s j)" "threads i = r"
    and "\<And>j k. waits k (threads j) \<Longrightarrow> busy es k"
  shows "served_inv (s\<lparr>ca_entries := es, ca_threads := threads\<rparr>)"
proof -
  have "\<exists>j. in_flight k (threads j)" if k: "busy es k" for k
  proof (cases "busy (ca_entries s) k")
    case True
    then obtain j where j: "in_flight k (ca_threads s j)" using assms(1) by (auto simp: served_inv_def)
    show ?thesis
    proof (cases "j = i")
      case True
      then show ?thesis using assms(2) [OF k \<open>busy (ca_entries s) k\<close>] j assms(5) by blast
    next
      case False
      then have "in_flight k (threads j)" using assms(4) [OF False] j by auto
      then show ?thesis by blast
    qed
  next
    case False
    then show ?thesis using assms(3) [OF k] assms(5) by blast
  qed
  then show ?thesis using assms(6) by (auto simp: served_inv_def)
qed

lemma served_inv_thread:
  assumes "served_inv s" "\<And>k. in_flight k (ca_threads s i) \<Longrightarrow> in_flight k r" "\<And>k. \<not> waits k r"
  shows "served_inv (s\<lparr>ca_threads := (ca_threads s)(i := r)\<rparr>)"
proof -
  have "served_inv (s\<lparr>ca_entries := ca_entries s, ca_threads := (ca_threads s)(i := r)\<rparr>)"
    by (rule served_inv_change [OF assms(1), where i = i]) (use assms in \<open>auto simp: served_inv_def split: if_splits\<close>)
  then show ?thesis by simp
qed

lemma notified_not_waiting [simp]: "(notify_all threads)(i := r) = (\<lambda>j. if j = i then r else wake (threads j))"
  by (auto simp: notify_all_def)

lemma cache_step_served:
  assumes "cache_step removals ttl fetched s t" and inv: "served_inv s"
  shows "served_inv t"
  using assms(1)
proof cases
  case (begin_read i k p)
  show ?thesis unfolding begin_read(1) by (rule served_inv_thread [OF inv]) (use begin_read(2) in simp_all)
next
  case (take_turn i k p since r es)
  note loop = busy_read_loop [OF take_turn(3)]
  have idle: "\<not> in_flight k' (ca_threads s i)" for k' using take_turn(2) by simp
  have waiters: "busy (ca_entries s) k'" if "waits k' (ca_threads s i')" for i' k' using inv that by (auto simp: served_inv_def)
  show ?thesis unfolding take_turn(1)
  proof (rule served_inv_change [OF inv, where i = i and r = "after_loop k p since (ca_now s) r"])
    show "in_flight k' (after_loop k p since (ca_now s) r)" if "busy es k'" "\<not> busy (ca_entries s) k'" for k'
      using loop that by (cases r) (simp_all add: after_loop_def)
    show "busy es k'" if "waits k' (((ca_threads s)(i := after_loop k p since (ca_now s) r)) i')" for i' k'
      using that loop waiters [of k' i'] by (cases r; cases "i' = i") (simp_all add: after_loop_def)
  qed (simp_all add: idle)
next
  case (start_fetch i k p since)
  show ?thesis unfolding start_fetch(1) by (rule served_inv_thread [OF inv]) (use start_fetch(2) in simp_all)
next
  case (finish_fetch i k p since started outcome r es)
  note busy = busy_read_finish [OF finish_fetch(4)]
  show ?thesis unfolding finish_fetch(1)
    by (rule served_inv_change [OF inv, where i = i]) (use finish_fetch(2) busy in \<open>auto split: if_splits\<close>)
next
  case (unwind i k p since started)
  show ?thesis unfolding unwind(1)
    by (rule served_inv_change [OF inv, where i = i]) (use unwind(2) in \<open>auto split: if_splits\<close>)
next
  case (spurious i k p since)
  show ?thesis unfolding spurious(1) by (rule served_inv_thread [OF inv]) (use spurious(2) in simp_all)
next
  case (invalidate k r es)
  then show ?thesis using inv busy_invalidate [OF invalidate(2)] by (simp add: served_inv_def)
next
  case (remove_key k)
  then show ?thesis using inv by (auto simp: served_inv_def notify_all_def)
qed (use inv in \<open>simp add: served_inv_def\<close>)

lemma cache_reachable_served: "cache_reachable removals ttl fetched s \<Longrightarrow> served_inv s"
proof (induction rule: cache_reachable.induct)
  case (start now)
  then show ?case by (simp add: served_inv_def busy_def)
next
  case (step s t)
  then show ?case by (blast intro: cache_step_served)
qed

section \<open>One fetch at a time, and no stale answer\<close>

text \<open>Without \<open>remove\<close>, a thread that fetches owns the entry of its key.\<close>

definition no_later :: "nat option \<Rightarrow> nat \<Rightarrow> bool" where
  "no_later since n \<longleftrightarrow> (case since of None \<Rightarrow> True | Some i \<Rightarrow> i \<le> n)"

definition owned :: "('k, 'p, 't) entries \<Rightarrow> 'k \<Rightarrow> 'p \<Rightarrow> bool" where
  "owned es k p \<longleftrightarrow> (case es k of None \<Rightarrow> False | Some e \<Rightarrow> ce_in_flight e \<and> ce_plan e = p)"

definition good_entry :: "('p \<Rightarrow> nat \<Rightarrow> nat \<Rightarrow> 't \<Rightarrow> bool) \<Rightarrow> nat option \<Rightarrow> ('p, 't) cache_entry \<Rightarrow> bool" where
  \<comment> \<open>an answer without an error is of the last attempt, made for the plan; a report is recorded or older than the attempt\<close>
  "good_entry fetched reported e \<longleftrightarrow>
     (ce_error e = None \<longrightarrow> (case ce_good e of None \<Rightarrow> True
        | Some (v, at) \<Rightarrow> (\<exists>a. ce_attempted e = Some a \<and> fetched (ce_plan e) a at v))) \<and>
     (reported = ce_invalidated e \<or> (ce_invalidated e = None \<and> (case ce_attempted e of None \<Rightarrow> True | Some a \<Rightarrow> no_later reported a)))"

definition reader_ok ::
  "('p \<Rightarrow> nat \<Rightarrow> nat \<Rightarrow> 't \<Rightarrow> bool) \<Rightarrow> ('k, 'p, 't) entries \<Rightarrow> ('k \<Rightarrow> nat option) \<Rightarrow> ('k, 'p, 't) reader \<Rightarrow> bool" where
  "reader_ok fetched es reported r \<longleftrightarrow>
     (case r of
        Looping k p since \<Rightarrow> no_later since (case reported k of None \<Rightarrow> 0 | Some j \<Rightarrow> j)
      | Waiting k p since \<Rightarrow> no_later since (case reported k of None \<Rightarrow> 0 | Some j \<Rightarrow> j)
      | Claimed k p since \<Rightarrow> no_later since (case reported k of None \<Rightarrow> 0 | Some j \<Rightarrow> j) \<and> owned es k p
      | Fetching k p since started \<Rightarrow> no_later since started \<and> owned es k p \<and>
          (case es k of None \<Rightarrow> True | Some e \<Rightarrow> ce_invalidated e = None \<longrightarrow> no_later (reported k) started)
      | Returned k p since x t \<Rightarrow> cr_error x = None \<longrightarrow>
          (case cr_good x of None \<Rightarrow> True | Some (v, age) \<Rightarrow> \<exists>a f. fetched p a f v \<and> age = t - f \<and> no_later since a)
      | _ \<Rightarrow> True)"

definition fresh_inv :: "('p \<Rightarrow> nat \<Rightarrow> nat \<Rightarrow> 't \<Rightarrow> bool) \<Rightarrow> ('k, 'p, 't) cache_state \<Rightarrow> bool" where
  "fresh_inv fetched s \<longleftrightarrow>
     (\<forall>k e. ca_entries s k = Some e \<longrightarrow> good_entry fetched (ca_reported s k) e) \<and>
     (\<forall>k. no_later (ca_reported s k) (ca_now s)) \<and>
     (\<forall>i. reader_ok fetched (ca_entries s) (ca_reported s) (ca_threads s i)) \<and>
     (\<forall>i j k. in_flight k (ca_threads s i) \<longrightarrow> in_flight k (ca_threads s j) \<longrightarrow> i = j)"

lemma fresh_invD:
  assumes "fresh_inv fetched s"
  shows "ca_entries s k = Some e \<Longrightarrow> good_entry fetched (ca_reported s k) e" "no_later (ca_reported s k) (ca_now s)"
    "reader_ok fetched (ca_entries s) (ca_reported s) (ca_threads s i)"
    "in_flight k (ca_threads s i) \<Longrightarrow> in_flight k (ca_threads s j) \<Longrightarrow> i = j"
  using assms by (auto simp: fresh_inv_def)

lemma no_later_mono: "no_later since n \<Longrightarrow> n \<le> m \<Longrightarrow> no_later since m"
  by (auto simp: no_later_def split: option.splits)

lemma no_later_None [simp]: "no_later None n"
  by (simp add: no_later_def)

lemma no_later_Some [simp]: "no_later (Some i) n \<longleftrightarrow> i \<le> n"
  by (simp add: no_later_def)

lemma reader_ok_wake [simp]: "reader_ok fetched es reported (wake r) = reader_ok fetched es reported r"
  by (cases r) (simp_all add: reader_ok_def)

lemma owned_busy: "owned es k p \<Longrightarrow> busy es k"
  by (auto simp: owned_def busy_def split: option.splits)

lemma reader_ok_busy: "reader_ok fetched es reported r \<Longrightarrow> in_flight k r \<Longrightarrow> busy es k"
  by (cases r) (auto simp: reader_ok_def owned_busy)

text \<open>Changing the entry of one key leaves the readers of the others alone.\<close>

lemma reader_ok_other:
  assumes "reader_ok fetched es reported r" "\<And>k'. k' \<noteq> k \<Longrightarrow> es' k' = es k'" "\<not> in_flight k r"
  shows "reader_ok fetched es' reported r"
  using assms by (cases r) (auto simp: reader_ok_def owned_def)

lemma fresh_inv_change:
  assumes inv: "fresh_inv fetched s"
    and entries: "\<And>k'. k' \<noteq> k \<Longrightarrow> es k' = ca_entries s k'" "\<And>e. es k = Some e \<Longrightarrow> good_entry fetched (ca_reported s k) e"
    and others: "\<And>j. j \<noteq> i \<Longrightarrow> threads j = ca_threads s j \<or> threads j = wake (ca_threads s j)"
    and mine: "threads i = r" "reader_ok fetched es (ca_reported s) r"
    and alone: "es = ca_entries s \<or> (\<forall>j. j \<noteq> i \<longrightarrow> \<not> in_flight k (ca_threads s j))"
    and grip: "\<And>k'. in_flight k' r \<Longrightarrow> in_flight k' (ca_threads s i) \<or> (\<forall>j. j \<noteq> i \<longrightarrow> \<not> in_flight k' (ca_threads s j))"
  shows "fresh_inv fetched (s\<lparr>ca_entries := es, ca_threads := threads\<rparr>)"
proof -
  have ok: "reader_ok fetched es (ca_reported s) (threads j)" for j
  proof (cases "j = i")
    case False
    then have "reader_ok fetched es (ca_reported s) (ca_threads s j)"
      using alone fresh_invD(3) [OF inv, of j] by (auto intro: reader_ok_other [OF _ entries(1)])
    then show ?thesis using others [OF False] by auto
  qed (use mine in simp)
  have flight: "in_flight k' (threads j) = in_flight k' (ca_threads s j)" if "j \<noteq> i" for j k' using others [OF that] by auto
  have single: "a = b" if ab: "in_flight k' (threads a)" "in_flight k' (threads b)" for a b k'
  proof (rule ccontr)
    assume ne: "a \<noteq> b"
    show False
    proof (cases "a = i \<or> b = i")
      case True
      then obtain j where j: "j \<noteq> i" "in_flight k' (threads j)" "in_flight k' r" using ne ab mine(1) by metis
      then show False using grip [OF j(3)] flight [OF j(1)] fresh_invD(4) [OF inv, of k' i j] by auto
    next
      case False
      then show False using ab flight ne fresh_invD(4) [OF inv, of k' a b] by auto
    qed
  qed
  show ?thesis
    using ok single fresh_invD(1,2) [OF inv] entries by (simp add: fresh_inv_def) metis
qed

lemma good_new_entry: "good_entry fetched reported (new_entry p)"
  by (simp add: good_entry_def new_entry_def)

lemma good_claimed_entry: "good_entry fetched reported e \<Longrightarrow> good_entry fetched reported (claim_entry p e)"
  by (auto simp: good_entry_def claim_entry_def split: option.splits)

lemma claim_fields [simp]:
  "ce_plan (claim_entry p e) = p" "ce_plan (new_entry p) = p" "ce_in_flight (claim_entry p e)" "ce_in_flight (new_entry p)"
  by (simp_all add: claim_entry_def new_entry_def)

lemma good_finished_entry:
  assumes "good_entry fetched reported e" "ce_invalidated e = None \<longrightarrow> no_later reported started"
    and "case outcome of Inl _ \<Rightarrow> True | Inr v \<Rightarrow> fetched (ce_plan e) started now v"
  shows "good_entry fetched reported (finished_entry started now outcome e)"
  using assms by (cases outcome) (auto simp: good_entry_def finished_entry_def)

lemma served_is_good:
  assumes good: "good_entry fetched reported e" and fresh: "entry_fresh e p ttl now" and since: "no_later since (case reported of None \<Rightarrow> 0 | Some j \<Rightarrow> j)"
    and no_error: "cr_error (entry_read e now) = None"
  shows "case cr_good (entry_read e now) of None \<Rightarrow> True | Some (v, age) \<Rightarrow> \<exists>a f. fetched p a f v \<and> age = now - f \<and> no_later since a"
proof (cases "ce_good e")
  case None
  then show ?thesis by (simp add: entry_read_def)
next
  case (Some x)
  obtain v at where x: "x = (v, at)" by (cases x)
  from fresh obtain a where a: "ce_attempted e = Some a" "ce_plan e = p" "case ce_invalidated e of None \<Rightarrow> True | Some at \<Rightarrow> at < a"
    by (auto simp: entry_fresh_def split: option.splits)
  have "ce_error e = None" using no_error by (simp add: entry_read_def)
  then have v: "fetched p a at v" using good Some x a(1,2) by (auto simp: good_entry_def)
  have "no_later reported a" using good a(1,3) by (auto simp: good_entry_def split: option.splits)
  then have "no_later since a" using since by (auto simp: no_later_def split: option.splits)
  then show ?thesis using v Some x by (auto simp: entry_read_def)
qed

lemma fresh_inv_thread:
  assumes inv: "fresh_inv fetched s" and mine: "reader_ok fetched (ca_entries s) (ca_reported s) r"
    and grip: "\<And>k. in_flight k r \<Longrightarrow> in_flight k (ca_threads s i)"
  shows "fresh_inv fetched (s\<lparr>ca_threads := (ca_threads s)(i := r)\<rparr>)"
proof -
  have "fresh_inv fetched (s\<lparr>ca_entries := ca_entries s, ca_threads := (ca_threads s)(i := r)\<rparr>)"
    by (rule fresh_inv_change [OF inv, where i = i and r = r]) (use mine grip fresh_invD(1) [OF inv] in auto)
  then show ?thesis by simp
qed

lemma reader_since: "no_later (reported k) (case reported k of None \<Rightarrow> 0 | Some j \<Rightarrow> j)"
  by (simp add: no_later_def split: option.split)

lemma fresh_take_turn:
  assumes inv: "fresh_inv fetched s" and i: "ca_threads s i = Looping k p since"
    and loop: "read_loop k p ttl (ca_now s) (ca_entries s) = (r, es)"
  shows "fresh_inv fetched (s\<lparr>ca_entries := es, ca_threads := (ca_threads s)(i := after_loop k p since (ca_now s) r)\<rparr>)"
proof -
  have since: "no_later since (case ca_reported s k of None \<Rightarrow> 0 | Some j \<Rightarrow> j)"
    using fresh_invD(3) [OF inv, of i] i by (simp add: reader_ok_def)
  show ?thesis
  proof (cases r)
    case (Served x)
    then obtain e where e: "ca_entries s k = Some e" "entry_fresh e p ttl (ca_now s)" "x = entry_read e (ca_now s)" "es = ca_entries s"
      using loop by (auto simp: read_loop_def split: option.splits if_splits)
    have "fresh_inv fetched (s\<lparr>ca_threads := (ca_threads s)(i := after_loop k p since (ca_now s) r)\<rparr>)"
      by (rule fresh_inv_thread [OF inv])
        (use served_is_good [OF fresh_invD(1) [OF inv e(1)] e(2) since] Served e(3) in \<open>simp_all add: after_loop_def reader_ok_def\<close>)
    then show ?thesis using e(4) by simp
  next
    case MustWait
    then have "es = ca_entries s" using loop by (auto simp: read_loop_def split: option.splits if_splits)
    moreover have "fresh_inv fetched (s\<lparr>ca_threads := (ca_threads s)(i := after_loop k p since (ca_now s) r)\<rparr>)"
      by (rule fresh_inv_thread [OF inv]) (use MustWait since in \<open>simp_all add: after_loop_def reader_ok_def\<close>)
    ultimately show ?thesis by simp
  next
    case Claim
    have free: "\<not> busy (ca_entries s) k" using busy_read_loop [OF loop] Claim by simp
    then have alone: "\<not> in_flight k (ca_threads s j)" for j using reader_ok_busy [OF fresh_invD(3) [OF inv, of j]] by blast
    have "owned es k p" "\<And>k'. k' \<noteq> k \<Longrightarrow> es k' = ca_entries s k'" "\<And>e. es k = Some e \<Longrightarrow> good_entry fetched (ca_reported s k) e"
      using loop Claim fresh_invD(1) [OF inv, of k]
      by (auto simp: read_loop_def owned_def good_claimed_entry good_new_entry split: option.splits if_splits)
    then show ?thesis
      by (intro fresh_inv_change [OF inv, where i = i and k = k and r = "Claimed k p since"])
        (use Claim since alone in \<open>auto simp: after_loop_def reader_ok_def\<close>)
  qed
qed

lemma fresh_finish:
  assumes inv: "fresh_inv fetched s" and i: "ca_threads s i = Fetching k p since started"
    and outcome: "case outcome of Inl _ \<Rightarrow> True | Inr v \<Rightarrow> fetched p started (ca_now s) v"
    and finish: "read_finish k started (ca_now s) outcome (ca_entries s) = (r, es)"
  shows "fresh_inv fetched (s\<lparr>ca_entries := es, ca_threads := (notify_all (ca_threads s))(i := Returned k p since r (ca_now s))\<rparr>)"
proof -
  have mine: "no_later since started" "owned (ca_entries s) k p"
    "case ca_entries s k of None \<Rightarrow> True | Some e \<Rightarrow> ce_invalidated e = None \<longrightarrow> no_later (ca_reported s k) started"
    using fresh_invD(3) [OF inv, of i] i by (auto simp: reader_ok_def)
  then obtain e where e: "ca_entries s k = Some e" "ce_plan e = p" by (auto simp: owned_def split: option.splits)
  have good: "good_entry fetched (ca_reported s k) (finished_entry started (ca_now s) outcome e)"
    by (rule good_finished_entry [OF fresh_invD(1) [OF inv e(1)]]) (use mine(3) e outcome in auto)
  have r: "r = entry_read (finished_entry started (ca_now s) outcome e) (ca_now s)"
    "es = (ca_entries s)(k \<mapsto> finished_entry started (ca_now s) outcome e)"
    using finish e(1) by (auto simp: read_finish_def Let_def)
  have ret: "reader_ok fetched es (ca_reported s) (Returned k p since r (ca_now s))"
    using outcome mine(1) by (cases outcome) (auto simp: reader_ok_def r entry_read_def finished_entry_def)
  have alone: "\<not> in_flight k (ca_threads s j)" if "j \<noteq> i" for j using fresh_invD(4) [OF inv, of k i j] i that by auto
  show ?thesis
    by (rule fresh_inv_change [OF inv, where i = i and k = k and r = "Returned k p since r (ca_now s)"])
      (use r(2) good ret alone in auto)
qed

lemma fresh_unwind:
  assumes inv: "fresh_inv fetched s" and i: "ca_threads s i = Fetching k p since started"
  shows "fresh_inv fetched (s\<lparr>ca_entries := drop_in_flight k (ca_entries s), ca_threads := (notify_all (ca_threads s))(i := Unwound)\<rparr>)"
proof -
  have alone: "\<not> in_flight k (ca_threads s j)" if "j \<noteq> i" for j using fresh_invD(4) [OF inv, of k i j] i that by auto
  have "good_entry fetched (ca_reported s k) e" if "drop_in_flight k (ca_entries s) k = Some e" for e
    using that fresh_invD(1) [OF inv, of k] by (auto simp: drop_in_flight_def good_entry_def split: option.splits)
  then show ?thesis
    by (intro fresh_inv_change [OF inv, where i = i and k = k and r = Unwound])
      (use alone in \<open>auto simp: drop_in_flight_def reader_ok_def split: option.split\<close>)
qed

lemma reader_ok_reported:
  assumes "reader_ok fetched es reported r" "no_later (reported k) now" "cache_invalidate k now es = (x, es')"
  shows "reader_ok fetched es' (reported(k \<mapsto> now)) r"
proof (cases r)
  case (Fetching k' p since started)
  then show ?thesis using assms by (cases "k' = k") (auto simp: reader_ok_def cache_invalidate_def owned_def split: option.splits)
next
  case (Claimed k' p since)
  then show ?thesis using assms
    by (cases "k' = k") (auto simp: reader_ok_def cache_invalidate_def owned_def no_later_def split: option.splits)
qed (use assms in \<open>auto simp: reader_ok_def no_later_def split: option.splits if_splits\<close>)

lemma fresh_invalidate:
  assumes inv: "fresh_inv fetched s" and run: "cache_invalidate k (ca_now s) (ca_entries s) = (x, es)"
  shows "fresh_inv fetched (s\<lparr>ca_entries := es, ca_reported := (ca_reported s)(k \<mapsto> ca_now s)\<rparr>)"
proof -
  have "good_entry fetched (((ca_reported s)(k \<mapsto> ca_now s)) k') e" if "es k' = Some e" for k' e
    using that run fresh_invD(1) [OF inv, of k'] by (auto simp: cache_invalidate_def good_entry_def split: option.splits if_splits)
  moreover have "reader_ok fetched es ((ca_reported s)(k \<mapsto> ca_now s)) (ca_threads s j)" for j
    by (rule reader_ok_reported [OF fresh_invD(3,2) [OF inv] run])
  ultimately show ?thesis using fresh_invD(2,4) [OF inv] by (auto simp: fresh_inv_def)
qed

lemma cache_step_fresh:
  assumes "cache_step False ttl fetched s t" and inv: "fresh_inv fetched s"
  shows "fresh_inv fetched t"
  using assms(1)
proof cases
  case (tick d)
  then show ?thesis using inv by (auto simp: fresh_inv_def intro: no_later_mono)
next
  case (begin_read i k p)
  show ?thesis unfolding begin_read(1) by (rule fresh_inv_thread [OF inv]) (simp_all add: reader_ok_def reader_since)
next
  case (take_turn i k p since r es)
  show ?thesis unfolding take_turn(1) by (rule fresh_take_turn [OF inv take_turn(2,3)])
next
  case (start_fetch i k p since)
  have now: "no_later (ca_reported s k) (ca_now s)" by (rule fresh_invD(2) [OF inv])
  moreover have mine: "no_later since (case ca_reported s k of None \<Rightarrow> 0 | Some j \<Rightarrow> j)" "owned (ca_entries s) k p"
    using fresh_invD(3) [OF inv, of i] start_fetch(2) by (auto simp: reader_ok_def)
  ultimately have "no_later since (ca_now s)" by (auto simp: no_later_def split: option.splits)
  then show ?thesis unfolding start_fetch(1)
    by (intro fresh_inv_thread [OF inv]) (use now mine start_fetch(2) in \<open>auto simp: reader_ok_def split: option.split\<close>)
next
  case (finish_fetch i k p since started outcome r es)
  show ?thesis unfolding finish_fetch(1) by (rule fresh_finish [OF inv finish_fetch(2-4)])
next
  case (unwind i k p since started)
  show ?thesis unfolding unwind(1) by (rule fresh_unwind [OF inv unwind(2)])
next
  case (spurious i k p since)
  show ?thesis unfolding spurious(1)
    by (rule fresh_inv_thread [OF inv]) (use fresh_invD(3) [OF inv, of i] spurious(2) in \<open>simp_all add: reader_ok_def\<close>)
next
  case (invalidate k r es)
  show ?thesis unfolding invalidate(1) by (rule fresh_invalidate [OF inv invalidate(2)])
qed simp

lemma cache_reachable_fresh:
  assumes "cache_reachable removals ttl fetched s" "\<not> removals"
  shows "fresh_inv fetched s"
  using assms
proof (induction rule: cache_reachable.induct)
  case (start now)
  then show ?case by (simp add: fresh_inv_def reader_ok_def)
next
  case (step s t)
  then show ?case using cache_step_fresh by (cases removals) auto
qed

section \<open>The debouncer\<close>

datatype pass = PassWaiting | PassRunning bool

type_synonym 'k passes = "'k \<Rightarrow> pass option"

definition schedule_pass :: "'k \<Rightarrow> 'k passes \<Rightarrow> bool \<times> 'k passes" where
  \<comment> \<open>whether a thread is spawned\<close>
  "schedule_pass key ps =
     (case ps key of
        Some PassWaiting \<Rightarrow> (False, ps)
      | Some (PassRunning again) \<Rightarrow> (False, ps(key \<mapsto> PassRunning True))
      | None \<Rightarrow> (True, ps(key \<mapsto> PassWaiting)))"

definition start_pass :: "'k \<Rightarrow> 'k passes \<Rightarrow> 'k passes" where
  "start_pass key ps = ps(key \<mapsto> PassRunning False)"

definition end_pass :: "'k \<Rightarrow> 'k passes \<Rightarrow> bool \<times> 'k passes" where
  \<comment> \<open>whether the thread goes round again\<close>
  "end_pass key ps =
     (if ps key = Some (PassRunning True) then (True, ps(key \<mapsto> PassWaiting)) else (False, ps(key := None)))"

definition clear_pass :: "'k \<Rightarrow> 'k passes \<Rightarrow> 'k passes" where
  \<comment> \<open>\<open>ClearPass\<close>, when the work panics\<close>
  "clear_pass key ps = ps(key := None)"

datatype 'k worker = NoWorker | Sleeping 'k | Working 'k

record 'k debounce_state =
  de_passes :: "'k passes"
  de_workers :: "nat \<Rightarrow> 'k worker"
  de_owed :: "'k set"
    \<comment> \<open>not in the program: the keys scheduled since a pass for them last started\<close>
  de_done :: "'k list"

inductive debounce_step :: "bool \<Rightarrow> 'k debounce_state \<Rightarrow> 'k debounce_state \<Rightarrow> bool" for panics :: bool where
  schedule_new: "schedule_pass k (de_passes d) = (True, ps) \<Longrightarrow> de_workers d i = NoWorker \<Longrightarrow>
    debounce_step panics d
      (d\<lparr>de_passes := ps, de_workers := (de_workers d)(i := Sleeping k), de_owed := insert k (de_owed d)\<rparr>)"
| schedule_old: "schedule_pass k (de_passes d) = (False, ps) \<Longrightarrow>
    debounce_step panics d (d\<lparr>de_passes := ps, de_owed := insert k (de_owed d)\<rparr>)"
| start_work: "de_workers d i = Sleeping k \<Longrightarrow>
    debounce_step panics d
      (d\<lparr>de_passes := start_pass k (de_passes d), de_workers := (de_workers d)(i := Working k), de_owed := de_owed d - {k}\<rparr>)"
| work_again: "de_workers d i = Working k \<Longrightarrow> end_pass k (de_passes d) = (True, ps) \<Longrightarrow>
    debounce_step panics d (d\<lparr>de_passes := ps, de_workers := (de_workers d)(i := Sleeping k)\<rparr>)"
| work_done: "de_workers d i = Working k \<Longrightarrow> end_pass k (de_passes d) = (False, ps) \<Longrightarrow>
    debounce_step panics d
      (d\<lparr>de_passes := ps, de_workers := (de_workers d)(i := NoWorker), de_done := k # de_done d\<rparr>)"
| work_panics: "panics \<Longrightarrow> de_workers d i = Working k \<Longrightarrow>
    debounce_step panics d
      (d\<lparr>de_passes := clear_pass k (de_passes d), de_workers := (de_workers d)(i := NoWorker), de_done := k # de_done d\<rparr>)"

inductive debounce_reachable :: "bool \<Rightarrow> 'k debounce_state \<Rightarrow> bool" for panics :: bool where
  start: "debounce_reachable panics \<lparr>de_passes = Map.empty, de_workers = (\<lambda>_. NoWorker), de_owed = {}, de_done = []\<rparr>"
| step: "debounce_reachable panics d \<Longrightarrow> debounce_step panics d e \<Longrightarrow> debounce_reachable panics e"

definition worker_pass :: "'k worker \<Rightarrow> ('k \<times> bool) option" where
  \<comment> \<open>the key of a worker, and whether it works on it\<close>
  "worker_pass w = (case w of NoWorker \<Rightarrow> None | Sleeping k \<Rightarrow> Some (k, False) | Working k \<Rightarrow> Some (k, True))"

definition pass_runs :: "pass \<Rightarrow> bool" where
  "pass_runs p \<longleftrightarrow> p \<noteq> PassWaiting"

definition debounce_inv :: "'k debounce_state \<Rightarrow> bool" where
  "debounce_inv d \<longleftrightarrow>
     (\<forall>i k w. worker_pass (de_workers d i) = Some (k, w) \<longrightarrow> map_option pass_runs (de_passes d k) = Some w) \<and>
     (\<forall>k p. de_passes d k = Some p \<longrightarrow> (\<exists>i. worker_pass (de_workers d i) = Some (k, pass_runs p))) \<and>
     (\<forall>i j k v w. worker_pass (de_workers d i) = Some (k, v) \<longrightarrow> worker_pass (de_workers d j) = Some (k, w) \<longrightarrow> i = j)"

lemma worker_pass_simps [simp]:
  "worker_pass NoWorker = None" "worker_pass (Sleeping k) = Some (k, False)" "worker_pass (Working k) = Some (k, True)"
  "pass_runs PassWaiting = False" "pass_runs (PassRunning b) = True"
  by (simp_all add: worker_pass_def pass_runs_def)

lemma debounce_invD:
  assumes "debounce_inv d"
  shows "worker_pass (de_workers d i) = Some (k, w) \<Longrightarrow> map_option pass_runs (de_passes d k) = Some w"
    "de_passes d k = Some p \<Longrightarrow> \<exists>i. worker_pass (de_workers d i) = Some (k, pass_runs p)"
    "worker_pass (de_workers d i) = Some (k, v) \<Longrightarrow> worker_pass (de_workers d j) = Some (k, w) \<Longrightarrow> i = j"
  using assms by (auto simp: debounce_inv_def)

text \<open>One worker changes together with the pass of its key.\<close>

lemma debounce_inv_change:
  assumes inv: "debounce_inv d"
    and before: "worker_pass (de_workers d i) = None \<and> de_passes d k = None \<or> (\<exists>w. worker_pass (de_workers d i) = Some (k, w))"
    and after: "worker_pass r = map_option (\<lambda>p. (k, pass_runs p)) x"
  shows "debounce_inv (d\<lparr>de_passes := (de_passes d)(k := x), de_workers := (de_workers d)(i := r)\<rparr>)"
proof -
  have other: "k' \<noteq> k" if "j \<noteq> i" "worker_pass (de_workers d j) = Some (k', w)" for j k' w
    using before that debounce_invD(1,3) [OF inv] by fastforce
  have mine: "k' = k" if "worker_pass (de_workers d i) = Some (k', w)" for k' w using before that by auto
  have "map_option pass_runs (((de_passes d)(k := x)) k') = Some w" if "worker_pass (((de_workers d)(i := r)) j) = Some (k', w)" for j k' w
    using that after other debounce_invD(1) [OF inv] by (cases x) (auto split: if_splits)
  moreover have "\<exists>j. worker_pass (((de_workers d)(i := r)) j) = Some (k', pass_runs p)" if p: "((de_passes d)(k := x)) k' = Some p" for k' p
  proof (cases "k' = k")
    case True
    then show ?thesis using p after by (intro exI [of _ i]) auto
  next
    case False
    then obtain j where "worker_pass (de_workers d j) = Some (k', pass_runs p)" using p debounce_invD(2) [OF inv] by auto
    then show ?thesis using False mine by (intro exI [of _ j]) auto
  qed
  moreover have "a = b" if "worker_pass (((de_workers d)(i := r)) a) = Some (k', v)" "worker_pass (((de_workers d)(i := r)) b) = Some (k', w)" for a b k' v w
    using that after other debounce_invD(3) [OF inv] by (cases x; cases "a = i"; cases "b = i") auto
  ultimately show ?thesis unfolding debounce_inv_def by (simp del: fun_upd_apply)
qed

lemma debounce_inv_marked:
  assumes inv: "debounce_inv d" and same: "de_passes d k = Some p" "pass_runs p = pass_runs q"
  shows "debounce_inv (d\<lparr>de_passes := (de_passes d)(k \<mapsto> q)\<rparr>)"
proof -
  obtain i where i: "worker_pass (de_workers d i) = Some (k, pass_runs p)" using debounce_invD(2) [OF inv same(1)] by blast
  have "debounce_inv (d\<lparr>de_passes := (de_passes d)(k := Some q), de_workers := (de_workers d)(i := de_workers d i)\<rparr>)"
    by (rule debounce_inv_change [OF inv]) (use i same(2) in auto)
  then show ?thesis by simp
qed

lemma debounce_inv_owed [simp]: "debounce_inv (d\<lparr>de_owed := x\<rparr>) = debounce_inv d" "debounce_inv (d\<lparr>de_done := y\<rparr>) = debounce_inv d"
  by (simp_all add: debounce_inv_def)

lemma debounce_step_inv:
  assumes "debounce_step panics d e" and inv: "debounce_inv d"
  shows "debounce_inv e"
  using assms(1)
proof cases
  case (schedule_new k ps i)
  then have new: "de_passes d k = None" "ps = (de_passes d)(k := Some PassWaiting)"
    by (auto simp: schedule_pass_def split: option.splits pass.splits)
  have "debounce_inv (d\<lparr>de_passes := (de_passes d)(k := Some PassWaiting), de_workers := (de_workers d)(i := Sleeping k)\<rparr>)"
    by (rule debounce_inv_change [OF inv]) (use new(1) schedule_new(3) in simp_all)
  then show ?thesis using schedule_new(1) new(2) by simp
next
  case (schedule_old k ps)
  then show ?thesis using inv by (auto simp: schedule_pass_def split: option.splits pass.splits intro: debounce_inv_marked)
next
  case (start_work i k)
  have "debounce_inv (d\<lparr>de_passes := (de_passes d)(k := Some (PassRunning False)), de_workers := (de_workers d)(i := Working k)\<rparr>)"
    by (rule debounce_inv_change [OF inv]) (use start_work(2) in auto)
  then show ?thesis using start_work(1) by (simp add: start_pass_def)
next
  case (work_again i k ps)
  have "debounce_inv (d\<lparr>de_passes := (de_passes d)(k := Some PassWaiting), de_workers := (de_workers d)(i := Sleeping k)\<rparr>)"
    by (rule debounce_inv_change [OF inv]) (use work_again(2) in auto)
  then show ?thesis using work_again(1,3) by (auto simp: end_pass_def split: if_splits)
next
  case (work_done i k ps)
  have "debounce_inv (d\<lparr>de_passes := (de_passes d)(k := None), de_workers := (de_workers d)(i := NoWorker)\<rparr>)"
    by (rule debounce_inv_change [OF inv]) (use work_done(2) in auto)
  then show ?thesis using work_done(1,3) by (auto simp: end_pass_def split: if_splits)
next
  case (work_panics i k)
  have "debounce_inv (d\<lparr>de_passes := (de_passes d)(k := None), de_workers := (de_workers d)(i := NoWorker)\<rparr>)"
    by (rule debounce_inv_change [OF inv]) (use work_panics(3) in auto)
  then show ?thesis using work_panics(1) by (simp add: clear_pass_def)
qed

lemma debounce_reachable_inv: "debounce_reachable panics d \<Longrightarrow> debounce_inv d"
proof (induction rule: debounce_reachable.induct)
  case start
  then show ?case by (simp add: debounce_inv_def)
next
  case (step d e)
  then show ?case by (blast intro: debounce_step_inv)
qed

text \<open>What is owed is recorded in the pass, as long as no work panics.\<close>

definition owed_inv :: "'k debounce_state \<Rightarrow> bool" where
  "owed_inv d \<longleftrightarrow> (\<forall>k \<in> de_owed d. de_passes d k = Some PassWaiting \<or> de_passes d k = Some (PassRunning True))"

lemma debounce_step_owed:
  assumes "debounce_step False d e" and inv: "debounce_inv d" and owed: "owed_inv d"
  shows "owed_inv e"
  using assms(1)
proof cases
  case (work_done i k ps)
  then obtain b where "de_passes d k = Some (PassRunning b)"
    using debounce_invD(1) [OF inv, of i k True] by (auto simp: pass_runs_def) (metis pass.exhaust)
  then show ?thesis using work_done owed by (auto simp: owed_inv_def end_pass_def split: if_splits)
qed (use owed in \<open>auto simp: owed_inv_def schedule_pass_def start_pass_def end_pass_def split: option.splits pass.splits if_splits\<close>)

lemma debounce_reachable_owed:
  assumes "debounce_reachable panics d" "\<not> panics"
  shows "owed_inv d"
  using assms
proof (induction rule: debounce_reachable.induct)
  case start
  then show ?case by (simp add: owed_inv_def)
next
  case (step d e)
  have "debounce_inv d" by (rule debounce_reachable_inv [OF step(1)])
  moreover have "debounce_step False d e" using step(2,4) by simp
  ultimately show ?case using debounce_step_owed step(3,4) by blast
qed

end
