(* ===== verification/Linear_Client.thy ===== *)
theory Linear_Client
  imports Linear_Cache
begin

text \<open>
  boardd's Linear client: the filters it sends (\<open>engine/grouping.rs\<close>, \<open>issue_filter\<close>), the calls it makes
  (\<open>linear/client.rs\<close>, \<open>linear/queries.rs\<close>), the key it sends them with (\<open>linear/credential.rs\<close>) and what one space's board
  reads (\<open>linear/read.rs\<close>). The HTTP agent is a parameter: the reply to the n-th request. A GraphQL query is the name
  of the Rust function that builds its text; the text itself is not modelled. Times are milliseconds.
\<close>

section \<open>JSON access\<close>

definition json_at :: "json \<Rightarrow> string \<Rightarrow> json" where
  \<comment> \<open>\<open>v[key]\<close>: \<open>Null\<close> when there is none\<close>
  "json_at v k = (case json_get k v of Some w \<Rightarrow> w | None \<Rightarrow> JNull)"

fun as_arr :: "json \<Rightarrow> json list option" where
  "as_arr (JArr xs) = Some xs"
| "as_arr _ = None"

fun as_bool :: "json \<Rightarrow> bool option" where
  "as_bool (JBool b) = Some b"
| "as_bool _ = None"

fun is_obj :: "json \<Rightarrow> bool" where
  "is_obj (JObj es) = True"
| "is_obj _ = False"

definition json_elem :: "json \<Rightarrow> nat \<Rightarrow> json" where
  \<comment> \<open>\<open>v[i]\<close>\<close>
  "json_elem v i = (case as_arr v of None \<Rightarrow> JNull | Some xs \<Rightarrow> if i < length xs then xs ! i else JNull)"

definition jobj1 :: "string \<Rightarrow> json \<Rightarrow> json" where
  "jobj1 k v = JObj [(k, v)]"

definition json_in :: "string list \<Rightarrow> json" where
  "json_in vs = jobj1 ''in'' (JArr (map JStr vs))"

section \<open>The filter of a mapping\<close>

definition filter_values :: "json \<Rightarrow> json list" where
  "filter_values raw = (case raw of JArr xs \<Rightarrow> xs | v \<Rightarrow> [v])"

definition filter_strings :: "json \<Rightarrow> string list" where
  "filter_strings raw = List.map_filter as_str (filter_values raw)"

definition id_or :: "string \<Rightarrow> string list \<Rightarrow> json" where
  "id_or field vs = jobj1 ''or'' (JArr [jobj1 ''id'' (json_in vs), jobj1 field (json_in vs)])"

definition ascii_alpha :: "char \<Rightarrow> bool" where
  "ascii_alpha c \<longleftrightarrow> is_ascii_alnum c \<and> \<not> is_digit c"

definition ascii_upper_char :: "char \<Rightarrow> char" where
  "ascii_upper_char c = (let n = (of_char c :: nat) in if 97 \<le> n \<and> n \<le> 122 then char_of (n - 32) else c)"

definition parent_key :: "string \<Rightarrow> (string \<times> nat) option" where
  "parent_key v =
     (case split_once (CHR ''-'') v of None \<Rightarrow> None
      | Some (team, number) \<Rightarrow>
          if 1 \<le> length team \<and> length team \<le> 10 \<and> ascii_alpha (hd team) \<and> list_all is_ascii_alnum team \<and>
             1 \<le> length number \<and> length number \<le> 9 \<and> list_all is_digit number
          then Some (map ascii_upper_char team, nat_of_digits number) else None)"

definition assignee_alts :: "string list \<Rightarrow> json list" where
  "assignee_alts vs =
     (let rest = filter (\<lambda>v. v \<noteq> ''me'') vs in
      (if ''me'' \<in> set vs then [jobj1 ''isMe'' (jobj1 ''eq'' (JBool True))] else []) @
      (if rest = [] then []
       else [jobj1 ''id'' (json_in rest), jobj1 ''name'' (json_in rest), jobj1 ''displayName'' (json_in rest),
             jobj1 ''email'' (json_in rest)]))"

definition parent_alts :: "string list \<Rightarrow> json list" where
  "parent_alts vs =
     (let ids = filter (\<lambda>v. parent_key v = None) vs in
      (if ids = [] then [] else [jobj1 ''id'' (json_in ids)]) @
      map (\<lambda>(team, number). jobj1 ''and'' (JArr
          [jobj1 ''team'' (jobj1 ''key'' (jobj1 ''eq'' (JStr team))), jobj1 ''number'' (jobj1 ''eq'' (JInt (int number)))]))
        (List.map_filter parent_key vs))"

definition clause :: "string \<Rightarrow> json \<Rightarrow> json" where
  "clause key raw =
     (let vs = filter_strings raw in
      if key = ''team'' then
        jobj1 ''team'' (jobj1 ''or'' (JArr [jobj1 ''id'' (json_in vs), jobj1 ''key'' (json_in vs), jobj1 ''name'' (json_in vs)]))
      else if key = ''project'' then jobj1 ''project'' (id_or ''name'' vs)
      else if key = ''milestone'' then jobj1 ''projectMilestone'' (id_or ''name'' vs)
      else if key = ''cycle'' then jobj1 ''cycle'' (id_or ''name'' vs)
      else if key = ''state'' then jobj1 ''state'' (id_or ''name'' vs)
      else if key = ''label'' then jobj1 ''labels'' (jobj1 ''some'' (id_or ''name'' vs))
      else if key = ''state-type'' then jobj1 ''state'' (jobj1 ''type'' (json_in vs))
      else if key = ''assignee'' then
        (case assignee_alts vs of [alt] \<Rightarrow> jobj1 ''assignee'' alt | alts \<Rightarrow> jobj1 ''assignee'' (jobj1 ''or'' (JArr alts)))
      else jobj1 ''parent'' (jobj1 ''or'' (JArr (parent_alts vs))))"

definition clause_keys :: "string list" where
  "clause_keys =
     [''team'', ''project'', ''milestone'', ''cycle'', ''assignee'', ''state'', ''parent'', ''label'', ''state-type'']"

definition issue_filter :: "grouping_mapping \<Rightarrow> json" where
  "issue_filter m =
     (let given = map_of (gm_filter m) in
      jobj1 ''and'' (JArr
        (List.map_filter (\<lambda>k. map_option (clause k) (given k)) clause_keys @
         (if given ''state'' = None \<and> given ''state-type'' = None
          then [jobj1 ''state'' (jobj1 ''type'' (jobj1 ''nin'' (JArr [JStr ''triage'', JStr ''backlog''])))] else []) @
         (case given ''priority'' of None \<Rightarrow> [] | Some raw \<Rightarrow> [jobj1 ''priority'' (jobj1 ''in'' (JArr (filter_values raw)))]))))"

section \<open>The key\<close>

datatype keychain_read = KeyFound string | KeyAbsent | KeyTimedOut | KeyUnsupported

datatype credential_source = FromKeychain | FromEnvironment | FromSecretsFile

record resolver =
  rv_env_key :: "string option"
  rv_secrets :: "string option"  \<comment> \<open>what the secrets file holds, when there is one that can be read\<close>
  rv_skip_until :: "nat option"

definition api_key :: "string \<Rightarrow> string option" where
  "api_key v = (if trim v = [] then None else Some (trim v))"

definition lines_of :: "string \<Rightarrow> string list" where
  \<comment> \<open>\<open>str::lines\<close>; the carriage return before a line end goes too\<close>
  "lines_of s = map (\<lambda>l. case strip_suffix [CHR 0x0D] l of Some r \<Rightarrow> r | None \<Rightarrow> l)
     (let parts = split_all (CHR 0x0A) s in if last parts = [] then butlast parts else parts)"

definition parse_secrets :: "string \<Rightarrow> string option" where
  "parse_secrets contents =
     (case List.find (\<lambda>l. strip_prefix ''LINEAR_API_KEY='' l \<noteq> None) (lines_of contents) of None \<Rightarrow> None
      | Some l \<Rightarrow> api_key (filter (\<lambda>c. c \<notin> {CHR 0x22, CHR 0x27, CHR '' '', CHR 0x0D}) (drop (length ''LINEAR_API_KEY='') l)))"

definition keychain_backoff :: nat where "keychain_backoff = 60000"

definition resolve_key :: "nat \<Rightarrow> (unit \<Rightarrow> keychain_read) \<Rightarrow> resolver \<Rightarrow> (string \<times> credential_source) option \<times> resolver" where
  "resolve_key now read r =
     (let fallback = (case rv_env_key r of
            Some k \<Rightarrow> Some (k, FromEnvironment)
          | None \<Rightarrow> (case rv_secrets r of None \<Rightarrow> None | Some c \<Rightarrow> map_option (\<lambda>k. (k, FromSecretsFile)) (parse_secrets c))) in
      if (case rv_skip_until r of None \<Rightarrow> False | Some until \<Rightarrow> now < until) then (fallback, r)
      else case read () of
        KeyFound k \<Rightarrow> (Some (k, FromKeychain), r)
      | KeyTimedOut \<Rightarrow> (fallback, r\<lparr>rv_skip_until := Some (now + keychain_backoff)\<rparr>)
      | _ \<Rightarrow> (fallback, r))"

section \<open>Where requests may go\<close>

datatype linear_error =
    NoCredential | Auth | LinearNotFound | RateLimited | Unavailable string | InsecureUrl string

definition linear_error_str :: "linear_error \<Rightarrow> string" where
  "linear_error_str e =
     (case e of
        NoCredential \<Rightarrow> ''no Linear API key: none in the keychain, LINEAR_API_KEY or ~/.secrets''
      | Auth \<Rightarrow> ''Linear refused the API key''
      | LinearNotFound \<Rightarrow> ''Linear has no such item''
      | RateLimited \<Rightarrow> ''Linear rate limit reached; try again later''
      | Unavailable why \<Rightarrow> ''Linear is unavailable: '' @ why
      | InsecureUrl url \<Rightarrow> ''refusing Linear API URL '' @ url @ '': plain http is allowed only to a loopback host'')"

definition before_char :: "char list \<Rightarrow> string \<Rightarrow> string" where
  \<comment> \<open>\<open>s.split(...).next()\<close>\<close>
  "before_char stops s = takeWhile (\<lambda>c. c \<notin> set stops) s"

definition check_url :: "string \<Rightarrow> linear_error + bool" where
  "check_url url =
     (if strip_prefix ''https://'' url \<noteq> None then Inr False
      else case strip_prefix ''http://'' url of
        None \<Rightarrow> Inl (InsecureUrl (strip_control_and_format url))
      | Some rest \<Rightarrow>
          (let authority = before_char ''/?#'' rest in
           if CHR ''@'' \<in> set authority then Inl (InsecureUrl (strip_control_and_format url))
           else let host = (case strip_prefix ''['' authority of
                    Some bracketed \<Rightarrow> before_char '']'' bracketed
                  | None \<Rightarrow> before_char '':'' authority) in
             if host \<in> {''127.0.0.1'', ''localhost'', ''::1''} then Inr True
             else Inl (InsecureUrl (strip_control_and_format url))))"

section \<open>One call\<close>

datatype transport_error =
    NetTimeout | NetIoTimedOut | NetIo string | HostNotFound | ConnectionFailed | BodyExceedsLimit | TlsFailed | OtherNet

datatype http_body = Unreadable transport_error | NotJson | JsonBody json

datatype http_reply = NoReply transport_error | Reply int "string option" http_body
  \<comment> \<open>status, the \<open>retry-after\<close> header when it is text, the body\<close>

record linear_settings =
  cf_timeout_text :: string  \<comment> \<open>the \<open>Debug\<close> text of the timeout\<close>
  cf_rate_limit_retries :: nat
  cf_rate_limit_backoff :: int
  cf_page_cap :: nat
  cf_page_size :: nat

definition default_settings :: linear_settings where
  "default_settings =
     \<lparr>cf_timeout_text = ''8s'', cf_rate_limit_retries = 1, cf_rate_limit_backoff = 500, cf_page_cap = 10, cf_page_size = 50\<rparr>"

datatype attempt = Limited "int option" | Failed linear_error

definition transport_reason :: "linear_settings \<Rightarrow> transport_error \<Rightarrow> string" where
  "transport_reason cf e =
     (case e of
        NetTimeout \<Rightarrow> ''no answer within '' @ cf_timeout_text cf
      | NetIoTimedOut \<Rightarrow> ''no answer within '' @ cf_timeout_text cf
      | NetIo kind \<Rightarrow> ''connection failed ('' @ kind @ '')''
      | HostNotFound \<Rightarrow> ''host not found''
      | ConnectionFailed \<Rightarrow> ''connection failed''
      | BodyExceedsLimit \<Rightarrow> ''response too large''
      | TlsFailed \<Rightarrow> ''TLS failed''
      | OtherNet \<Rightarrow> ''request failed'')"

definition short_code :: "string \<Rightarrow> bool" where
  \<comment> \<open>\<open>is_identifier\<close>\<close>
  "short_code code \<longleftrightarrow> code \<noteq> [] \<and> length code \<le> 40 \<and>
     list_all (\<lambda>c. (ascii_alpha c \<and> ascii_upper_char c = c) \<or> c = CHR ''_'' \<or> is_digit c) code"

definition http_status_error :: "int \<Rightarrow> linear_error" where
  "http_status_error status = Unavailable (''HTTP '' @ show_int status)"

definition malformed :: linear_error where
  "malformed = Unavailable ''unreadable response''"

definition graphql_error :: "json \<Rightarrow> int \<Rightarrow> attempt" where
  "graphql_error e status =
     (let code = (case as_str (json_at (json_at e ''extensions'') ''code'') of Some c \<Rightarrow> c | None \<Rightarrow> []) in
      if code = ''RATELIMITED'' then Limited None
      else if code \<in> {''AUTHENTICATION_ERROR'', ''FORBIDDEN''} then Failed Auth
      else if code \<in> {''INPUT_ERROR'', ''NOT_FOUND''} then Failed LinearNotFound
      else if status = 401 \<or> status = 403 then Failed Auth
      else if short_code code then Failed (Unavailable (''Linear answered '' @ strip_control_and_format code))
      else Failed (Unavailable (''Linear answered an error (HTTP '' @ show_int status @ '')'')))"

definition parse_u64 :: "string \<Rightarrow> nat option" where
  "parse_u64 s =
     (let ds = (case s of c # cs \<Rightarrow> if c = CHR ''+'' then cs else s | [] \<Rightarrow> []) in
      if ds \<noteq> [] \<and> list_all is_digit ds \<and> nat_of_digits ds < 2 ^ 64 then Some (nat_of_digits ds) else None)"

definition retry_after_ms :: "string option \<Rightarrow> int option" where
  "retry_after_ms h = (case h of None \<Rightarrow> None | Some v \<Rightarrow> map_option (\<lambda>s. 1000 * int s) (parse_u64 (trim v)))"

definition success :: "int \<Rightarrow> bool" where "success status \<longleftrightarrow> 200 \<le> status \<and> status < 300"

definition read_reply :: "linear_settings \<Rightarrow> http_reply \<Rightarrow> attempt + json" where
  \<comment> \<open>\<open>post\<close>, from the agent's answer on\<close>
  "read_reply cf reply =
     (case reply of
        NoReply e \<Rightarrow> Inl (Failed (Unavailable (transport_reason cf e)))
      | Reply status retry_after body \<Rightarrow>
          if status = 429 then Inl (Limited (retry_after_ms retry_after))
          else case body of
            Unreadable e \<Rightarrow> Inl (Failed (Unavailable (transport_reason cf e)))
          | NotJson \<Rightarrow> Inl (Failed (if success status then malformed else http_status_error status))
          | JsonBody parsed \<Rightarrow>
              (case as_arr (json_at parsed ''errors'') of
                 Some (first # _) \<Rightarrow> Inl (graphql_error first status)
               | _ \<Rightarrow>
                   if status = 401 \<or> status = 403 then Inl (Failed Auth)
                   else if \<not> success status then Inl (Failed (http_status_error status))
                   else (case json_get ''data'' parsed of
                       Some data \<Rightarrow> if is_obj data then Inr (sanitise_json data) else Inl (Failed malformed)
                     | None \<Rightarrow> Inl (Failed malformed))))"

datatype linear_query =
    QIssues | QProject | QProjects | QViews | QView | QTeams | QIssue

record wire =
  wi_sent :: "(string \<times> linear_query \<times> json) list"
    \<comment> \<open>the requests of this client so far: key, query, variables\<close>
  wi_waited :: "int list"

type_synonym net = "nat \<Rightarrow> string \<Rightarrow> linear_query \<Rightarrow> json \<Rightarrow> http_reply"
  \<comment> \<open>what comes back for the n-th request\<close>

type_synonym 'a call = "(wire, linear_error, 'a) tx"

definition max_backoff :: int where "max_backoff = 5000"

fun execute_loop :: "linear_settings \<Rightarrow> net \<Rightarrow> string \<Rightarrow> linear_query \<Rightarrow> json \<Rightarrow> nat \<Rightarrow> json call" where
  \<comment> \<open>with the retries that are left\<close>
  "execute_loop cf net key q vars left w =
     (let t = w\<lparr>wi_sent := wi_sent w @ [(key, q, vars)]\<rparr> in
      case read_reply cf (net (length (wi_sent w)) key q vars) of
        Inr data \<Rightarrow> (Inr data, t)
      | Inl (Failed e) \<Rightarrow> (Inl e, t)
      | Inl (Limited after) \<Rightarrow>
          (case left of
             0 \<Rightarrow> (Inl RateLimited, t)
           | Suc n \<Rightarrow>
               (let wait = min (case after of Some a \<Rightarrow> a | None \<Rightarrow> cf_rate_limit_backoff cf) max_backoff in
                execute_loop cf net key q vars n (t\<lparr>wi_waited := wi_waited t @ [wait]\<rparr>))))"

declare execute_loop.simps [simp del]

definition execute_query :: "linear_settings \<Rightarrow> net \<Rightarrow> string \<Rightarrow> linear_query \<Rightarrow> json \<Rightarrow> json call" where
  "execute_query cf net key q vars = execute_loop cf net key q vars (cf_rate_limit_retries cf)"

section \<open>Paging\<close>

record page =
  pg_nodes :: "json list"
  pg_partial :: bool

definition page_variables :: "linear_settings \<Rightarrow> (string \<times> json) list \<Rightarrow> string option \<Rightarrow> json" where
  "page_variables cf vars after =
     JObj (map_insert ''after'' (case after of None \<Rightarrow> JNull | Some c \<Rightarrow> JStr c) (map_insert ''n'' (JInt (int (cf_page_size cf))) vars))"

fun paged_loop ::
  "linear_settings \<Rightarrow> net \<Rightarrow> string \<Rightarrow> linear_query \<Rightarrow> string \<Rightarrow> (string \<times> json) list \<Rightarrow> nat \<Rightarrow> string option \<Rightarrow> json list \<Rightarrow> page call" where
  \<comment> \<open>with the pages that are left\<close>
  "paged_loop cf net key q connection vars 0 after nodes = returnT \<lparr>pg_nodes = nodes, pg_partial = True\<rparr>"
| "paged_loop cf net key q connection vars (Suc n) after nodes =
     bindT (execute_query cf net key q (page_variables cf vars after)) (\<lambda>data.
     let conn = json_at data connection in
     case as_arr (json_at conn ''nodes'') of
       None \<Rightarrow> throwT malformed
     | Some batch \<Rightarrow>
         if as_bool (json_at (json_at conn ''pageInfo'') ''hasNextPage'') \<noteq> Some True
         then returnT \<lparr>pg_nodes = nodes @ batch, pg_partial = False\<rparr>
         else (case as_str (json_at (json_at conn ''pageInfo'') ''endCursor'') of
             Some cursor \<Rightarrow>
               if cursor = [] then returnT \<lparr>pg_nodes = nodes @ batch, pg_partial = True\<rparr>
               else paged_loop cf net key q connection vars n (Some cursor) (nodes @ batch)
           | None \<Rightarrow> returnT \<lparr>pg_nodes = nodes @ batch, pg_partial = True\<rparr>))"

definition paged :: "linear_settings \<Rightarrow> net \<Rightarrow> string \<Rightarrow> linear_query \<Rightarrow> string \<Rightarrow> (string \<times> json) list \<Rightarrow> page call" where
  "paged cf net key q connection vars = paged_loop cf net key q connection vars (cf_page_cap cf) None []"

section \<open>Queries\<close>

definition found :: "json \<Rightarrow> linear_error + json" where
  "found v = (if is_obj v then Inr v else Inl LinearNotFound)"

definition issues_matching :: "linear_settings \<Rightarrow> net \<Rightarrow> string \<Rightarrow> json \<Rightarrow> page call" where
  "issues_matching cf net key filter_json = paged cf net key QIssues ''issues'' [(''filter'', filter_json)]"

definition project_issues_filter :: "string \<Rightarrow> json" where
  "project_issues_filter project =
     JObj [(''project'', jobj1 ''id'' (jobj1 ''eq'' (JStr project))),
           (''state'', jobj1 ''type'' (jobj1 ''neq'' (JStr ''canceled'')))]"

definition project_issues :: "linear_settings \<Rightarrow> net \<Rightarrow> string \<Rightarrow> string \<Rightarrow> page call" where
  "project_issues cf net key project = issues_matching cf net key (project_issues_filter project)"

definition view_filter :: "json \<Rightarrow> json" where
  "view_filter v = (if is_obj (json_at v ''filterData'') then json_at v ''filterData'' else JObj [])"

definition issues_in_view :: "linear_settings \<Rightarrow> net \<Rightarrow> string \<Rightarrow> json \<Rightarrow> page call" where
  "issues_in_view cf net key v = paged cf net key QIssues ''issues'' [(''filter'', view_filter v)]"

definition by_id_query :: "linear_settings \<Rightarrow> net \<Rightarrow> string \<Rightarrow> linear_query \<Rightarrow> string \<Rightarrow> string \<Rightarrow> json call" where
  "by_id_query cf net key q field i =
     bindT (execute_query cf net key q (jobj1 ''id'' (JStr i))) (\<lambda>data. queryT (\<lambda>_. found (json_at data field)))"

definition project_with :: "linear_settings \<Rightarrow> net \<Rightarrow> string \<Rightarrow> string \<Rightarrow> json call" where
  "project_with cf net key project = by_id_query cf net key QProject ''project'' project"

definition view_with :: "linear_settings \<Rightarrow> net \<Rightarrow> string \<Rightarrow> string \<Rightarrow> json call" where
  "view_with cf net key v = by_id_query cf net key QView ''customView'' v"

definition issue_with :: "linear_settings \<Rightarrow> net \<Rightarrow> string \<Rightarrow> string \<Rightarrow> json call" where
  "issue_with cf net key i = by_id_query cf net key QIssue ''issue'' i"

definition projects_with :: "linear_settings \<Rightarrow> net \<Rightarrow> string \<Rightarrow> page call" where
  "projects_with cf net key =
     paged cf net key QProjects ''projects''
       [(''filter'', jobj1 ''members'' (jobj1 ''some'' (jobj1 ''isMe'' (jobj1 ''eq'' (JBool True)))))]"

definition views_with :: "linear_settings \<Rightarrow> net \<Rightarrow> string \<Rightarrow> page call" where
  "views_with cf net key = paged cf net key QViews ''customViews'' []"

definition teams_with :: "linear_settings \<Rightarrow> net \<Rightarrow> string \<Rightarrow> page call" where
  "teams_with cf net key = paged cf net key QTeams ''teams'' []"

section \<open>One space's read\<close>

record fetch_plan =
  fp_project_id :: string
  fp_view_id :: "string option"
  fp_filter :: "json option"
  fp_label :: string

record space_read =
  rd_project :: "json option"
  rd_view_status :: string
  rd_view :: "json option"
  rd_issues :: "json list"
  rd_partial :: bool

definition supported_view_groupings :: "string list" where
  "supported_view_groupings = [''workflowState'', ''assignee'', ''priority'', ''label'', ''project'']"

fun names_project :: "string \<Rightarrow> json \<Rightarrow> bool" where
  "names_project project (JArr ns) = (\<exists>n \<in> set ns. names_project project n)"
| "names_project project (JObj es) =
     (\<exists>e \<in> set es.
        if fst e = ''project'' then
          as_str (json_at (json_at (snd e) ''id'') ''eq'') = Some project \<or>
          (case as_arr (json_at (json_at (snd e) ''id'') ''in'') of None \<Rightarrow> False
           | Some ids \<Rightarrow> list_ex (\<lambda>v. as_str v = Some project) ids)
        else (fst e = ''and'' \<or> fst e = ''or'') \<and> names_project project (snd e))"
| "names_project project _ = False"

definition view_status :: "json \<Rightarrow> string \<Rightarrow> string" where
  "view_status v project =
     (let grouping = (case as_str (json_at (json_at v ''viewPreferencesValues'') ''issueGrouping'') of Some g \<Rightarrow> g | None \<Rightarrow> []) in
      if json_at v ''archivedAt'' \<noteq> JNull then ''archived''
      else if \<not> names_project project (json_at v ''filterData'') then ''not_in_project''
      else if grouping \<in> set supported_view_groupings then ''ok''
      else ''unsupported_grouping'')"

definition catch_not_found :: "json call \<Rightarrow> json option call" where
  "catch_not_found m = (\<lambda>w. case m w of
       (Inr v, t) \<Rightarrow> (Inr (Some v), t)
     | (Inl LinearNotFound, t) \<Rightarrow> (Inr None, t)
     | (Inl e, t) \<Rightarrow> (Inl e, t))"

definition fetch_space :: "linear_settings \<Rightarrow> net \<Rightarrow> string option \<Rightarrow> fetch_plan \<Rightarrow> space_read call" where
  \<comment> \<open>\<open>key\<close> is what one resolve of the credential gave\<close>
  "fetch_space cf net key plan =
     (case key of
        None \<Rightarrow> throwT NoCredential
      | Some k \<Rightarrow>
          bindT (case (fp_view_id plan, fp_filter plan) of
              (Some view_id, None) \<Rightarrow> bindT (catch_not_found (view_with cf net k view_id)) (\<lambda>v.
                returnT (case v of Some view \<Rightarrow> (view_status view (fp_project_id plan), Some view) | None \<Rightarrow> (''not_found'', None)))
            | _ \<Rightarrow> returnT (''none'', None)) (\<lambda>(status, view).
          bindT (case (fp_filter plan, view) of
              (Some f, _) \<Rightarrow> issues_matching cf net k f
            | (None, Some v) \<Rightarrow>
                if status = ''ok'' then issues_in_view cf net k v else project_issues cf net k (fp_project_id plan)
            | (None, None) \<Rightarrow> project_issues cf net k (fp_project_id plan)) (\<lambda>page.
          bindT (catch_not_found (project_with cf net k (fp_project_id plan))) (\<lambda>project.
          returnT \<lparr>rd_project = project, rd_view_status = status, rd_view = view, rd_issues = pg_nodes page,
                   rd_partial = pg_partial page\<rparr>))))"

end
