(* ===== verification/Linear_Native.thy ===== *)
theory Linear_Native
  imports Linear_Client Daemon_Watch
begin

text \<open>
  \<open>crates/board-daemon/src/ops/linear/native.rs\<close> and \<open>ops/linear.rs\<close>: local state, herdr's session snapshot and one read of
  Linear become the board document of a space; the lists and the issue page. herdr's answer and the result of the
  cached read are arguments; the typed decoders of serde are the fields of one record. A \<open>BTreeMap\<close> is its entries in key order.
\<close>

section \<open>Values\<close>

definition json_text :: "json \<Rightarrow> string option" where
  \<comment> \<open>\<open>text\<close>: non-empty text\<close>
  "json_text v = non_empty (as_str v)"

definition json_str_or_empty :: "json \<Rightarrow> string" where
  \<comment> \<open>\<open>as_str().unwrap_or("")\<close>\<close>
  "json_str_or_empty v = (case as_str v of Some s \<Rightarrow> s | None \<Rightarrow> [])"

record decoders =
  de_issue :: "json \<Rightarrow> grouping_issue option"
  de_states :: "json \<Rightarrow> workflow_state list option"
  de_preferences :: "json \<Rightarrow> view_preferences option"
  de_lower :: "string \<Rightarrow> string"
  de_float :: "string \<Rightarrow> int"  \<comment> \<open>the text of a float, cast to \<open>i64\<close>\<close>

fun json_int :: "decoders \<Rightarrow> json \<Rightarrow> int option" where
  \<comment> \<open>\<open>as_i64\<close>, else \<open>as_f64\<close> cast, which saturates\<close>
  "json_int d (JInt i) = Some (clamp64 i)"
| "json_int d (JFloat t) = Some (de_float d t)"
| "json_int d _ = None"

definition json_list :: "json \<Rightarrow> json list" where
  "json_list v = (case as_arr v of Some xs \<Rightarrow> xs | None \<Rightarrow> [])"

definition json_nodes :: "json \<Rightarrow> json list" where
  "json_nodes v = json_list (json_at v ''nodes'')"

definition json_names :: "json \<Rightarrow> string list" where
  "json_names v = List.map_filter (\<lambda>n. json_text (json_at n ''name'')) (json_list v)"

section \<open>herdr's session\<close>

record herdr_workspace =
  hw_id :: string
  hw_label :: string

record herdr_tab =
  ht_id :: string
  ht_workspace :: string
  ht_label :: string

record herdr_pane =
  hp_id :: string
  hp_tab :: string
  hp_status :: agent_status

record session_snapshot =
  hs_version :: string
  hs_workspaces :: "herdr_workspace list"
  hs_tabs :: "herdr_tab list"
  hs_panes :: "herdr_pane list"
  hs_agents :: "(string \<times> agent_status) list"  \<comment> \<open>pane and status\<close>

definition snapshot_pane_statuses :: "session_snapshot \<Rightarrow> string \<Rightarrow> agent_status option" where
  \<comment> \<open>the agent's status, else the pane's; of two panes with one id the last\<close>
  "snapshot_pane_statuses s pane =
     map_option (\<lambda>p. case map_of (hs_agents s) (hp_id p) of Some st \<Rightarrow> st | None \<Rightarrow> hp_status p)
       (List.find (\<lambda>p. hp_id p = pane) (rev (hs_panes s)))"

definition agent_status_name :: "agent_status \<Rightarrow> string" where
  "agent_status_name s =
     (case s of AgIdle \<Rightarrow> ''idle'' | AgWorking \<Rightarrow> ''working'' | AgBlocked \<Rightarrow> ''blocked'' | AgDone \<Rightarrow> ''done'' | AgUnknown \<Rightarrow> ''unknown'')"

section \<open>The document\<close>

record doc_issue_state =
  dis_id :: "string option"
  dis_name :: "string option"
  dis_kind :: "string option"

record doc_assignee =
  das_id :: "string option"
  das_name :: "string option"

record doc_tab_ref =
  dtr_id :: string
  dtr_label :: "string option"

record doc_binding =
  db_worktree_path :: string
  db_state :: string
  db_tab :: "doc_tab_ref option"
  db_panes :: "string list"

record doc_issue =
  di_id :: "string option"
  di_identifier :: string
  di_title :: string
  di_url :: "string option"
  di_state :: doc_issue_state
  di_assignee :: "doc_assignee option"
  di_priority :: "int option"
  di_labels :: "string list"
  di_stale :: bool
  di_bindings :: "doc_binding list"

record doc_unmapped =
  du_tab_id :: string
  du_label :: "string option"
  du_reason :: string
  du_panes :: "string list"

record doc_workspace =
  dw_id :: string
  dw_label :: string
  dw_live :: "bool option"

record doc_mapping =
  dm_status :: string
  dm_source :: string
  dm_space :: string
  dm_tab :: string
  dm_pane :: string

record doc_record =
  dr_status :: string
  dr_state :: "string option"
  dr_project_id :: "string option"

record doc_project =
  dp_id :: "string option"
  dp_name :: "string option"
  dp_team_key :: "string option"
  dp_url :: "string option"

record doc_layout =
  dl_grouping :: string
  dl_column_order :: "string list"
  dl_hidden :: "string list"

record doc_view =
  dv_status :: string
  dv_id :: "string option"
  dv_name :: "string option"
  dv_layout :: "doc_layout option"

record doc_source =
  ds_status :: string
  ds_cache_age :: "int option"
  ds_truncated :: bool
  ds_message :: "string option"

record doc_herdr =
  dh_status :: string
  dh_version :: "string option"

record linear_snapshot =
  sn_schema :: nat
  sn_workspace :: doc_workspace
  sn_mapping :: doc_mapping
  sn_record :: doc_record
  sn_project :: doc_project
  sn_view :: doc_view
  sn_linear :: doc_source
  sn_herdr :: doc_herdr
  sn_groups :: "linear_group list"
  sn_tabs :: "linear_tab list"
  sn_issues :: "(string \<times> doc_issue) list"
  sn_unmapped :: "doc_unmapped list"
  sn_pane_status :: "(string \<times> string) list"

definition empty_snapshot :: linear_snapshot where
  \<comment> \<open>\<open>LinearSnapshot::default()\<close>\<close>
  "empty_snapshot =
     \<lparr>sn_schema = 0, sn_workspace = \<lparr>dw_id = [], dw_label = [], dw_live = None\<rparr>,
      sn_mapping = \<lparr>dm_status = [], dm_source = [], dm_space = [], dm_tab = [], dm_pane = []\<rparr>,
      sn_record = \<lparr>dr_status = [], dr_state = None, dr_project_id = None\<rparr>,
      sn_project = \<lparr>dp_id = None, dp_name = None, dp_team_key = None, dp_url = None\<rparr>,
      sn_view = \<lparr>dv_status = [], dv_id = None, dv_name = None, dv_layout = None\<rparr>,
      sn_linear = \<lparr>ds_status = [], ds_cache_age = None, ds_truncated = False, ds_message = None\<rparr>,
      sn_herdr = \<lparr>dh_status = [], dh_version = None\<rparr>,
      sn_groups = [], sn_tabs = [], sn_issues = [], sn_unmapped = [], sn_pane_status = []\<rparr>"

definition pane_ids :: "linear_snapshot \<Rightarrow> string list" where
  "pane_ids doc =
     first_by (\<lambda>p. p) (concat (map (\<lambda>(_, i). concat (map db_panes (di_bindings i))) (sn_issues doc)) @
       concat (map du_panes (sn_unmapped doc)))"

section \<open>Local state\<close>

record local_state =
  lo_binding :: "space_binding option"
  lo_config :: "grouping_config option"
  lo_worktrees :: "worktree_binding list"
  lo_no_bindings :: bool

definition read_local :: "ldb \<Rightarrow> string \<Rightarrow> string \<Rightarrow> local_state" where
  "read_local s session space =
     \<lparr>lo_binding = space_binding s session space, lo_config = get_grouping_config s, lo_worktrees = list_worktree_bindings s,
      lo_no_bindings = (list_worktree_bindings s = [] \<and> list_space_bindings s = [])\<rparr>"

definition space_label :: "session_snapshot option \<Rightarrow> space_binding option \<Rightarrow> string \<Rightarrow> string" where
  "space_label herdr binding space =
     (case or_else
         (non_empty (case herdr of None \<Rightarrow> None | Some s \<Rightarrow> map_option hw_label (List.find (\<lambda>w. hw_id w = space) (hs_workspaces s))))
         (non_empty (case binding of None \<Rightarrow> None | Some b \<Rightarrow> sb_display_name b)) of
        Some label \<Rightarrow> label | None \<Rightarrow> space)"

definition mapping_in_force :: "grouping_config \<Rightarrow> string \<Rightarrow> string \<times> grouping_mapping" where
  "mapping_in_force c label =
     (case List.find (\<lambda>e. sg_space e = label) (gc_spaces c) of
        Some e \<Rightarrow> (''space'', sg_mapping e) | None \<Rightarrow> (''global'', gc_global c))"

definition plan_for :: "space_binding \<Rightarrow> grouping_config option \<Rightarrow> string \<Rightarrow> fetch_plan" where
  "plan_for b config label =
     (let f = map_option (\<lambda>c. issue_filter (snd (mapping_in_force c label))) config in
      \<lparr>fp_project_id = sb_project_id b,
       fp_view_id = (case f of Some _ \<Rightarrow> None
         | None \<Rightarrow> (case sb_view b of None \<Rightarrow> None | Some v \<Rightarrow> json_text (json_at v ''id''))),
       fp_filter = f, fp_label = label\<rparr>)"

definition default_mapping :: doc_mapping where
  "default_mapping =
     \<lparr>dm_status = ''ok'', dm_source = ''default'', dm_space = ''project'', dm_tab = ''work'', dm_pane = ''session''\<rparr>"

definition mapping_doc :: "grouping_config option \<Rightarrow> string \<Rightarrow> doc_mapping" where
  "mapping_doc config label =
     (case config of None \<Rightarrow> default_mapping
      | Some c \<Rightarrow>
          (case mapping_in_force c label of (source, m) \<Rightarrow>
            (let level = (\<lambda>k. case map_of (gm_levels m) k of Some v \<Rightarrow> v | None \<Rightarrow> []) in
             \<lparr>dm_status = ''ok'', dm_source = source, dm_space = level ''space'', dm_tab = level ''tab'', dm_pane = level ''column''\<rparr>)))"

section \<open>From Linear\<close>

definition doc_state :: "json \<Rightarrow> doc_issue_state" where
  "doc_state v =
     \<lparr>dis_id = json_text (json_at v ''id''), dis_name = json_text (json_at v ''name''), dis_kind = json_text (json_at v ''type'')\<rparr>"

definition doc_assignee_of :: "json \<Rightarrow> doc_assignee option" where
  "doc_assignee_of v =
     (if is_obj v then Some \<lparr>das_id = json_text (json_at v ''id''), das_name = json_text (json_at v ''name'')\<rparr> else None)"

definition linear_issue :: "decoders \<Rightarrow> json \<Rightarrow> string \<Rightarrow> bool \<Rightarrow> doc_issue" where
  "linear_issue d n i stale =
     \<lparr>di_id = json_text (json_at n ''id''), di_identifier = i, di_title = json_str_or_empty (json_at n ''title''),
      di_url = json_text (json_at n ''url''), di_state = doc_state (json_at n ''state''),
      di_assignee = doc_assignee_of (json_at n ''assignee''), di_priority = json_int d (json_at n ''priority''),
      di_labels = json_names (json_at (json_at n ''labels'') ''nodes''), di_stale = stale, di_bindings = []\<rparr>"

definition layout_of :: "string \<Rightarrow> json \<Rightarrow> doc_layout" where
  "layout_of status prefs =
     (let full = status \<noteq> ''unsupported_grouping''; texts = (\<lambda>v. List.map_filter json_text (json_list v)) in
      \<lparr>dl_grouping = json_str_or_empty (json_at prefs ''issueGrouping''),
       dl_column_order = (if full then texts (json_at prefs ''columnOrderBoard'') else []),
       dl_hidden = (if full then texts (json_at prefs ''hiddenColumns'') else [])\<rparr>)"

definition fill_tabs :: "linear_tab list \<Rightarrow> linear_snapshot \<Rightarrow> linear_snapshot" where
  \<comment> \<open>\<open>grouping::fill_snapshot\<close>\<close>
  "fill_tabs tabs doc = doc\<lparr>sn_groups := (case tabs of [] \<Rightarrow> [] | t # _ \<Rightarrow> lt_groups t), sn_tabs := tabs\<rparr>"

definition fill_source :: "string option \<Rightarrow> nat \<Rightarrow> bool \<Rightarrow> linear_snapshot \<Rightarrow> linear_snapshot" where
  \<comment> \<open>an error keeps the last good data, marked stale with its age in seconds\<close>
  "fill_source err age partial doc =
     (case err of
        Some _ \<Rightarrow> doc\<lparr>sn_linear := (sn_linear doc)\<lparr>ds_status := ''unavailable'', ds_cache_age := Some (min (int (age div 1000)) i64_max),
            ds_message := err\<rparr>\<rparr>
      | None \<Rightarrow> doc\<lparr>sn_linear := (sn_linear doc)\<lparr>ds_status := (if partial then ''truncated'' else ''ok''), ds_truncated := partial\<rparr>\<rparr>)"

definition fill_view :: "fetch_plan \<Rightarrow> space_read \<Rightarrow> linear_snapshot \<Rightarrow> linear_snapshot" where
  "fill_view plan data doc =
     (if fp_view_id plan = None then doc
      else (let doc = doc\<lparr>sn_view := (sn_view doc)\<lparr>dv_status := rd_view_status data\<rparr>\<rparr> in
        case rd_view data of
          Some v \<Rightarrow>
            if rd_view_status data \<in> {''ok'', ''archived'', ''unsupported_grouping''}
            then doc\<lparr>sn_view := (sn_view doc)\<lparr>dv_layout := Some (layout_of (rd_view_status data) (json_at v ''viewPreferencesValues''))\<rparr>\<rparr>
            else doc
        | None \<Rightarrow> doc))"

definition first_team :: "space_read \<Rightarrow> json" where
  "first_team data = (case rd_project data of None \<Rightarrow> JNull | Some p \<Rightarrow> json_elem (json_at (json_at p ''teams'') ''nodes'') 0)"

fun find_map :: "('a \<Rightarrow> 'b option) \<Rightarrow> 'a list \<Rightarrow> 'b option" where
  "find_map f [] = None"
| "find_map f (x # xs) = (case f x of Some y \<Rightarrow> Some y | None \<Rightarrow> find_map f xs)"

definition fill_project :: "space_read \<Rightarrow> linear_snapshot \<Rightarrow> linear_snapshot" where
  "fill_project data doc =
     (let doc = (case rd_project data of None \<Rightarrow> doc
          | Some p \<Rightarrow> doc\<lparr>sn_project := (sn_project doc)\<lparr>dp_name := json_text (json_at p ''name''), dp_url := json_text (json_at p ''url'')\<rparr>\<rparr>) in
      doc\<lparr>sn_project := (sn_project doc)\<lparr>dp_team_key := or_else (json_text (json_at (first_team data) ''key''))
        (find_map (\<lambda>i. json_text (json_at (json_at i ''team'') ''key'')) (rd_issues data))\<rparr>\<rparr>)"

definition decoded_issues :: "decoders \<Rightarrow> json list \<Rightarrow> grouping_issue list" where
  "decoded_issues d ns = filter (\<lambda>i. gi_identifier i \<noteq> []) (List.map_filter (de_issue d) ns)"

definition board_tabs :: "decoders \<Rightarrow> space_read \<Rightarrow> grouping_config option \<Rightarrow> string \<Rightarrow> linear_tab list" where
  "board_tabs d data config label =
     (let states = (case de_states d (json_at (json_at (first_team data) ''states'') ''nodes'') of Some s \<Rightarrow> s | None \<Rightarrow> []);
          prefs = (case rd_view data of None \<Rightarrow> None
            | Some v \<Rightarrow> if rd_view_status data = ''ok'' then de_preferences d (json_at v ''viewPreferencesValues'') else None) in
      group_board (de_lower d) (decoded_issues d (rd_issues data)) (choose_grouping config label prefs states))"

definition listed_issues :: "linear_tab list \<Rightarrow> string list" where
  "listed_issues tabs = concat (map (\<lambda>t. concat (map lg_issues (lt_groups t))) tabs)"

definition issue_details :: "decoders \<Rightarrow> bool \<Rightarrow> string list \<Rightarrow> json list \<Rightarrow> (string \<times> doc_issue) list \<Rightarrow> (string \<times> doc_issue) list" where
  "issue_details d stale listed ns m =
     fold (\<lambda>n m. case json_text (json_at n ''identifier'') of None \<Rightarrow> m
        | Some i \<Rightarrow> if i \<in> set listed then map_insert i (linear_issue d n i stale) m else m) ns m"

definition fill_from_linear ::
  "decoders \<Rightarrow> space_read cache_read \<Rightarrow> grouping_config option \<Rightarrow> fetch_plan \<Rightarrow> linear_snapshot \<Rightarrow> linear_snapshot" where
  "fill_from_linear d r config plan doc =
     (case cr_good r of
        None \<Rightarrow> doc\<lparr>sn_linear := (sn_linear doc)\<lparr>ds_status := ''unavailable'', ds_message := cr_error r\<rparr>\<rparr>
      | Some (data, age) \<Rightarrow>
          (let doc = fill_project data (fill_view plan data (fill_source (cr_error r) age (rd_partial data) doc));
               tabs = board_tabs d data config (fp_label plan) in
           fill_tabs tabs
             (doc\<lparr>sn_issues := issue_details d (cr_error r \<noteq> None) (listed_issues tabs) (rd_issues data) (sn_issues doc)\<rparr>)))"

section \<open>Worktrees, tabs and panes\<close>

definition panes_in :: "session_snapshot option \<Rightarrow> string \<Rightarrow> string list" where
  "panes_in herdr tab = (case herdr of None \<Rightarrow> [] | Some s \<Rightarrow> map hp_id (filter (\<lambda>p. hp_tab p = tab) (hs_panes s)))"

definition tab_label :: "session_snapshot option \<Rightarrow> string \<Rightarrow> string option" where
  "tab_label herdr tab =
     non_empty (case herdr of None \<Rightarrow> None | Some s \<Rightarrow> map_option ht_label (List.find (\<lambda>t. ht_id t = tab) (hs_tabs s)))"

definition doc_binding_of :: "session_snapshot option \<Rightarrow> worktree_binding \<Rightarrow> doc_binding" where
  "doc_binding_of herdr wt =
     (let tab = non_empty (wb_tab wt) in
      \<lparr>db_worktree_path = wb_path wt, db_state = worktree_state_str (wb_state wt),
       db_tab = map_option (\<lambda>t. \<lparr>dtr_id = t, dtr_label = tab_label herdr t\<rparr>) tab,
       db_panes = (case tab of None \<Rightarrow> [] | Some t \<Rightarrow> panes_in herdr t)\<rparr>)"

definition push_binding :: "string \<Rightarrow> doc_binding \<Rightarrow> (string \<times> doc_issue) list \<Rightarrow> (string \<times> doc_issue) list" where
  "push_binding issue b m = map (\<lambda>(k, i). (k, if k = issue then i\<lparr>di_bindings := di_bindings i @ [b]\<rparr> else i)) m"

record claims =
  cl_issues :: "(string \<times> doc_issue) list"
  cl_claimed :: "string list"
  cl_unlisted :: "(string \<times> string) list"  \<comment> \<open>the first state to claim a tab for an issue that is not listed\<close>

definition attach_one :: "session_snapshot option \<Rightarrow> worktree_binding \<Rightarrow> claims \<Rightarrow> claims" where
  "attach_one herdr wt c =
     (if wb_issue wt \<in> fst ` set (cl_issues c) then
        c\<lparr>cl_issues := push_binding (wb_issue wt) (doc_binding_of herdr wt) (cl_issues c),
          cl_claimed := (case non_empty (wb_tab wt) of None \<Rightarrow> cl_claimed c | Some t \<Rightarrow> t # cl_claimed c)\<rparr>
      else (case non_empty (wb_tab wt) of None \<Rightarrow> c
        | Some t \<Rightarrow> if t \<in> fst ` set (cl_unlisted c) then c
                    else c\<lparr>cl_unlisted := map_insert t (worktree_state_str (wb_state wt)) (cl_unlisted c)\<rparr>))"

definition unmapped_tabs :: "session_snapshot \<Rightarrow> string \<Rightarrow> claims \<Rightarrow> doc_unmapped list" where
  "unmapped_tabs s space c =
     map (\<lambda>t. \<lparr>du_tab_id = ht_id t, du_label = non_empty (Some (ht_label t)),
               du_reason = (case map_of (cl_unlisted c) (ht_id t) of Some r \<Rightarrow> r | None \<Rightarrow> ''no_binding''),
               du_panes = panes_in (Some s) (ht_id t)\<rparr>)
       (filter (\<lambda>t. ht_workspace t = space \<and> ht_id t \<noteq> [] \<and> ht_id t \<notin> set (cl_claimed c)) (hs_tabs s))"

definition attach_all :: "session_snapshot option \<Rightarrow> worktree_binding list \<Rightarrow> (string \<times> doc_issue) list \<Rightarrow> claims" where
  "attach_all herdr worktrees issues =
     fold (attach_one herdr) (sort_key wb_path worktrees) \<lparr>cl_issues = issues, cl_claimed = [], cl_unlisted = []\<rparr>"

definition attach_bindings :: "worktree_binding list \<Rightarrow> session_snapshot option \<Rightarrow> string \<Rightarrow> linear_snapshot \<Rightarrow> linear_snapshot" where
  "attach_bindings worktrees herdr space doc =
     (let c = attach_all herdr worktrees (sn_issues doc);
          doc = doc\<lparr>sn_issues := cl_issues c\<rparr> in
      case herdr of None \<Rightarrow> doc | Some s \<Rightarrow> doc\<lparr>sn_unmapped := unmapped_tabs s space c\<rparr>)"

definition pane_status :: "session_snapshot option \<Rightarrow> string list \<Rightarrow> (string \<times> string) list" where
  "pane_status herdr ids =
     map_collect (map (\<lambda>i. (i, case (case herdr of None \<Rightarrow> None | Some s \<Rightarrow> snapshot_pane_statuses s i) of
         Some st \<Rightarrow> agent_status_name st | None \<Rightarrow> ''unknown'')) ids)"

section \<open>The snapshot\<close>

definition start_document :: "session_snapshot option \<Rightarrow> local_state \<Rightarrow> string \<Rightarrow> string \<Rightarrow> linear_snapshot" where
  "start_document herdr local space label =
     empty_snapshot\<lparr>sn_schema := 1,
       sn_workspace := \<lparr>dw_id = space, dw_label = label,
         dw_live = map_option (\<lambda>s. list_ex (\<lambda>w. hw_id w = space) (hs_workspaces s)) herdr\<rparr>,
       sn_mapping := mapping_doc (lo_config local) label,
       sn_view := (sn_view empty_snapshot)\<lparr>dv_status := ''none''\<rparr>,
       sn_linear := (sn_linear empty_snapshot)\<lparr>ds_status := ''unknown''\<rparr>,
       sn_herdr := \<lparr>dh_status = (if herdr = None then ''unavailable'' else ''ok''),
         dh_version = (case herdr of None \<Rightarrow> None | Some s \<Rightarrow> non_empty (Some (hs_version s)))\<rparr>\<rparr>"

definition unbound_document :: "local_state \<Rightarrow> string option \<Rightarrow> linear_snapshot \<Rightarrow> linear_snapshot" where
  \<comment> \<open>with the directory of the plugin's store, when there is one\<close>
  "unbound_document local store doc =
     (let doc = doc\<lparr>sn_record := \<lparr>dr_status = ''missing'', dr_state = Some ''unbound'', dr_project_id = None\<rparr>\<rparr> in
      case (lo_no_bindings local, store) of
        (True, Some dir) \<Rightarrow> doc\<lparr>sn_linear := (sn_linear doc)\<lparr>ds_status := ''not_imported'',
          ds_message := Some (''the board holds no bindings and the work plugin's store at '' @ dir @
            '' has not been imported; run `board import work-store`'')\<rparr>\<rparr>
      | _ \<Rightarrow> doc)"

definition bound_document :: "space_binding \<Rightarrow> fetch_plan \<Rightarrow> linear_snapshot \<Rightarrow> linear_snapshot" where
  "bound_document b plan doc =
     (let doc = doc\<lparr>sn_record := \<lparr>dr_status = ''ok'', dr_state = Some ''bound'', dr_project_id = Some (sb_project_id b)\<rparr>,
                   sn_project := (sn_project doc)\<lparr>dp_id := Some (sb_project_id b)\<rparr>\<rparr> in
      if fp_view_id plan = None then doc
      else doc\<lparr>sn_view := (sn_view doc)\<lparr>dv_id := fp_view_id plan,
        dv_name := (case sb_view b of None \<Rightarrow> None | Some v \<Rightarrow> json_text (json_at v ''name'')), dv_status := ''unreadable''\<rparr>\<rparr>)"

definition snapshot_doc ::
  "decoders \<Rightarrow> session_snapshot option \<Rightarrow> local_state \<Rightarrow> string option \<Rightarrow> (fetch_plan \<Rightarrow> space_read cache_read) \<Rightarrow> string \<Rightarrow> linear_snapshot" where
  "snapshot_doc d herdr local store reading space =
     (let label = space_label herdr (lo_binding local) space;
          doc = start_document herdr local space label in
      case lo_binding local of
        None \<Rightarrow> unbound_document local store doc
      | Some b \<Rightarrow>
          (let plan = plan_for b (lo_config local) label;
               doc = attach_bindings (lo_worktrees local) herdr space
                 (fill_from_linear d (reading plan) (lo_config local) plan (bound_document b plan doc)) in
           doc\<lparr>sn_pane_status := pane_status herdr (pane_ids doc)\<rparr>))"

section \<open>What the cache already knows\<close>

definition resolved_issue :: "string \<Rightarrow> space_read \<Rightarrow> string option" where
  \<comment> \<open>the identifier of an issue given by its identifier or its id\<close>
  "resolved_issue issue r =
     (case List.find (\<lambda>n. as_str (json_at n ''identifier'') = Some issue \<or> as_str (json_at n ''id'') = Some issue) (rd_issues r) of
        None \<Rightarrow> None | Some n \<Rightarrow> as_str (json_at n ''identifier''))"

definition resolve_issue ::
  "(space_cache_key, fetch_plan, space_read) entries \<Rightarrow> string option \<Rightarrow> string \<Rightarrow> string \<Rightarrow> string option" where
  "resolve_issue es socket space issue =
     find_good \<lparr>sk_session = herdr_session socket, sk_space = space\<rparr> (resolved_issue issue) es"

definition column_of_issue :: "linear_tab list \<Rightarrow> string \<Rightarrow> string option" where
  "column_of_issue tabs issue =
     map_option lg_label (List.find (\<lambda>g. issue \<in> set (lg_issues g) \<or> list_ex (\<lambda>l. issue \<in> set (ln_issues l)) (lg_lanes g))
       (concat (map lt_groups tabs)))"

definition cached_column ::
  "decoders \<Rightarrow> ldb \<Rightarrow> (space_cache_key, fetch_plan, space_read) entries \<Rightarrow> string option \<Rightarrow> string \<Rightarrow> string \<Rightarrow> string option" where
  "cached_column d s es socket space issue =
     (case peek_good \<lparr>sk_session = herdr_session socket, sk_space = space\<rparr> es of None \<Rightarrow> None
      | Some (data, plan) \<Rightarrow>
          column_of_issue (sn_tabs (fill_from_linear d \<lparr>cr_good = Some (data, 0), cr_error = None\<rparr> (get_grouping_config s) plan
            empty_snapshot)) issue)"

section \<open>Lists\<close>

datatype list_status = ListOk | ListUnavailable | ListPartial

record 'r list_envelope =
  le_status :: list_status
  le_message :: "string option"
  le_rows :: "'r list"

datatype list_kind = ListSpaces | ListProjects | ListViews

definition list_kind_name :: "list_kind \<Rightarrow> string" where
  "list_kind_name k = (case k of ListSpaces \<Rightarrow> ''spaces'' | ListProjects \<Rightarrow> ''projects'' | ListViews \<Rightarrow> ''views'')"

definition checked_list_id :: "list_kind \<Rightarrow> string option \<Rightarrow> error + string option" where
  "checked_list_id kind given =
     (case (kind, non_empty given) of
        (ListViews, None) \<Rightarrow> Inl (BadRequest [T ''linear.list kind views requires a project id''])
      | (ListViews, Some i) \<Rightarrow>
          if is_linear_id i then Inr (Some i)
          else Inl (BadRequest [T ''linear.list project id must be 1 to 64 ASCII letters, digits, `_` or `-`, starting with a letter or digit''])
      | (k, Some _) \<Rightarrow> Inl (BadRequest [T ''linear.list kind '', T (list_kind_name k), T '' takes no id''])
      | (_, None) \<Rightarrow> Inr None)"

definition checked_issue_id :: "string \<Rightarrow> error + string" where
  "checked_issue_id issue =
     (if is_linear_id (trim issue) then Inr (trim issue)
      else Inl (BadRequest [T ''linear.issue requires an issue id of 1 to 64 ASCII letters, digits, `_` or `-`, starting with a letter or digit'']))"

definition checked_workspace_id :: "string \<Rightarrow> error + string" where
  "checked_workspace_id i =
     (if trim i = [] then Inl (BadRequest [T ''linear.snapshot requires a non-empty workspace_id'']) else Inr (trim i))"

record space_row =
  spr_id :: string
  spr_label :: string
  spr_live :: "bool option"
  spr_state :: string
  spr_project_id :: "string option"
  spr_project_name :: "string option"

definition space_row_of :: "(string \<Rightarrow> space_binding option) \<Rightarrow> string \<Rightarrow> string \<Rightarrow> bool \<Rightarrow> space_row" where
  "space_row_of bindings i label live =
     \<lparr>spr_id = i, spr_label = (if label = [] then i else label), spr_live = Some live,
      spr_state = (if bindings i = None then ''unbound'' else ''bound''),
      spr_project_id = map_option sb_project_id (bindings i),
      spr_project_name = (case bindings i of None \<Rightarrow> None | Some b \<Rightarrow> sb_display_name b)\<rparr>"

definition space_rows_listed :: "herdr_workspace list \<Rightarrow> (string \<times> space_binding) list \<Rightarrow> space_row list" where
  \<comment> \<open>the live spaces, each once, then the bindings without one\<close>
  "space_rows_listed live bindings =
     (let seen = first_by hw_id (filter (\<lambda>w. hw_id w \<noteq> []) live) in
      map (\<lambda>w. space_row_of (map_of bindings) (hw_id w) (hw_label w) True) seen @
      map (\<lambda>i. space_row_of (map_of bindings) i [] False) (filter (\<lambda>i. i \<notin> set (map hw_id seen)) (map fst bindings)))"

definition list_spaces :: "ldb \<Rightarrow> string option \<Rightarrow> string option \<Rightarrow> (unit + herdr_workspace list) \<Rightarrow> space_row list_envelope" where
  \<comment> \<open>the raw and the normalized origin; what herdr listed\<close>
  "list_spaces s raw origin live =
     (case origin of
        None \<Rightarrow> \<lparr>le_status = ListUnavailable, le_message = Some ''no herdr session to list: the request named no origin socket'', le_rows = []\<rparr>
      | Some _ \<Rightarrow>
          (case live of
             Inl _ \<Rightarrow> \<lparr>le_status = ListUnavailable, le_message = Some ''herdr did not list its spaces'', le_rows = []\<rparr>
           | Inr ws \<Rightarrow>
               \<lparr>le_status = ListOk, le_message = None,
                le_rows = space_rows_listed ws
                  (map_collect (map (\<lambda>b. (sb_space b, b)) (filter (\<lambda>b. sb_session b = herdr_session raw) (list_space_bindings s))))\<rparr>))"

definition paged_status :: "bool \<Rightarrow> string \<Rightarrow> list_status \<times> string option" where
  "paged_status partial what =
     (if partial then (ListPartial, Some (''listed the first pages of '' @ what @ '' only; one past them can be chosen by its id''))
      else (ListOk, None))"

definition listed_page :: "linear_error + page \<Rightarrow> string \<Rightarrow> (json list \<Rightarrow> 'r list) \<Rightarrow> 'r list_envelope" where
  "listed_page answer what rows =
     (case answer of
        Inl e \<Rightarrow> \<lparr>le_status = ListUnavailable, le_message = Some (linear_error_str e), le_rows = []\<rparr>
      | Inr p \<Rightarrow> \<lparr>le_status = fst (paged_status (pg_partial p) what), le_message = snd (paged_status (pg_partial p) what),
                   le_rows = rows (pg_nodes p)\<rparr>)"

definition project_rows :: "json list \<Rightarrow> (string \<times> string \<times> string option) list" where
  "project_rows ns = List.map_filter (\<lambda>n. map_option
       (\<lambda>i. (i, json_str_or_empty (json_at n ''name''), json_text (json_at (json_elem (json_at (json_at n ''teams'') ''nodes'') 0) ''key'')))
       (json_text (json_at n ''id''))) ns"

definition view_rows :: "string \<Rightarrow> json list \<Rightarrow> (string \<times> string) list" where
  "view_rows project ns = List.map_filter (\<lambda>n. map_option (\<lambda>i. (i, json_str_or_empty (json_at n ''name''))) (json_text (json_at n ''id'')))
     (filter (\<lambda>n. names_project project (json_at n ''filterData'')) (filter (\<lambda>n. json_at n ''archivedAt'' = JNull) ns))"

section \<open>The issue page\<close>

record linked_issue =
  lk_id :: "string option"
  lk_identifier :: string
  lk_title :: string
  lk_state :: doc_issue_state

record issue_relation =
  rl_type :: string
  rl_direction :: string
  rl_issue :: linked_issue

record issue_comment =
  ic_id :: "string option"
  ic_body :: string
  ic_created_at :: "string option"
  ic_author :: "string option"
  ic_parent_id :: "string option"

record history_event =
  hv_id :: "string option"
  hv_created_at :: "string option"
  hv_actor :: "string option"
  hv_from_state :: "string option"
  hv_to_state :: "string option"
  hv_from_assignee :: "string option"
  hv_to_assignee :: "string option"
  hv_from_priority :: "int option"
  hv_to_priority :: "int option"
  hv_added :: "string list"
  hv_removed :: "string list"

record issue_detail =
  dt_issue :: doc_issue  \<comment> \<open>the fields a board card has too\<close>
  dt_description :: "string option"
  dt_updated_at :: "string option"
  dt_due_date :: "string option"
  dt_estimate :: "json option"
  dt_project :: "doc_assignee option"
  dt_milestone :: "doc_assignee option"
  dt_cycle :: "(string option \<times> int option \<times> string option) option"
  dt_parent :: "linked_issue option"
  dt_children :: "linked_issue list"
  dt_relations :: "issue_relation list"
  dt_comments :: "issue_comment list"
  dt_history :: "history_event list"

definition linked_of :: "json \<Rightarrow> linked_issue" where
  "linked_of v =
     \<lparr>lk_id = json_text (json_at v ''id''), lk_identifier = json_str_or_empty (json_at v ''identifier''),
      lk_title = json_str_or_empty (json_at v ''title''), lk_state = doc_state (json_at v ''state'')\<rparr>"

definition connections :: "(string \<times> string) list" where
  "connections =
     [(''children'', ''children''), (''relations'', ''relations''), (''relations'', ''inverseRelations''),
      (''comments'', ''comments''), (''history'', ''history'')]"

definition truncated_connections :: "json \<Rightarrow> string list" where
  "truncated_connections node =
     first_by (\<lambda>n. n) (map fst (filter (\<lambda>(_, c). as_bool (json_at (json_at (json_at node c) ''pageInfo'') ''hasNextPage'') = Some True)
       connections))"

definition relation_of :: "string \<Rightarrow> string \<Rightarrow> json \<Rightarrow> issue_relation" where
  "relation_of direction field r =
     \<lparr>rl_type = json_str_or_empty (json_at r ''type''), rl_direction = direction, rl_issue = linked_of (json_at r field)\<rparr>"

definition history_of :: "decoders \<Rightarrow> json \<Rightarrow> history_event" where
  "history_of d h =
     \<lparr>hv_id = json_text (json_at h ''id''), hv_created_at = json_text (json_at h ''createdAt''),
      hv_actor = json_text (json_at (json_at h ''actor'') ''name''), hv_from_state = json_text (json_at (json_at h ''fromState'') ''name''),
      hv_to_state = json_text (json_at (json_at h ''toState'') ''name''),
      hv_from_assignee = json_text (json_at (json_at h ''fromAssignee'') ''name''),
      hv_to_assignee = json_text (json_at (json_at h ''toAssignee'') ''name''),
      hv_from_priority = json_int d (json_at h ''fromPriority''), hv_to_priority = json_int d (json_at h ''toPriority''),
      hv_added = json_names (json_at h ''addedLabels''), hv_removed = json_names (json_at h ''removedLabels'')\<rparr>"

definition shows_change :: "history_event \<Rightarrow> bool" where
  "shows_change h \<longleftrightarrow> hv_from_state h \<noteq> None \<or> hv_to_state h \<noteq> None \<or> hv_from_assignee h \<noteq> None \<or> hv_to_assignee h \<noteq> None \<or>
     hv_from_priority h \<noteq> hv_to_priority h \<or> hv_added h \<noteq> [] \<or> hv_removed h \<noteq> []"

definition comment_of :: "json \<Rightarrow> issue_comment" where
  "comment_of c =
     \<lparr>ic_id = json_text (json_at c ''id''), ic_body = json_str_or_empty (json_at c ''body''),
      ic_created_at = json_text (json_at c ''createdAt''), ic_author = json_text (json_at (json_at c ''user'') ''name''),
      ic_parent_id = json_text (json_at (json_at c ''parent'') ''id'')\<rparr>"

definition json_number :: "json \<Rightarrow> json option" where
  \<comment> \<open>\<open>as_f64\<close>, kept as the number it reads\<close>
  "json_number v = (case v of JInt _ \<Rightarrow> Some v | JFloat _ \<Rightarrow> Some v | _ \<Rightarrow> None)"

definition issue_detail_of :: "decoders \<Rightarrow> json \<Rightarrow> issue_detail" where
  "issue_detail_of d node =
     \<lparr>dt_issue = linear_issue d node (json_str_or_empty (json_at node ''identifier'')) False,
      dt_description = json_text (json_at node ''description''), dt_updated_at = json_text (json_at node ''updatedAt''),
      dt_due_date = json_text (json_at node ''dueDate''), dt_estimate = json_number (json_at node ''estimate''),
      dt_project = doc_assignee_of (json_at node ''project''), dt_milestone = doc_assignee_of (json_at node ''projectMilestone''),
      dt_cycle = (let c = json_at node ''cycle'' in
        if is_obj c then Some (json_text (json_at c ''id''), json_int d (json_at c ''number''), json_text (json_at c ''name'')) else None),
      dt_parent = (if is_obj (json_at node ''parent'') then Some (linked_of (json_at node ''parent'')) else None),
      dt_children = map linked_of (json_nodes (json_at node ''children'')),
      dt_relations = map (relation_of ''outward'' ''relatedIssue'') (json_nodes (json_at node ''relations'')) @
        map (relation_of ''inward'' ''issue'') (json_nodes (json_at node ''inverseRelations'')),
      dt_comments = map comment_of (json_nodes (json_at node ''comments'')),
      dt_history = filter shows_change (map (history_of d) (json_nodes (json_at node ''history'')))\<rparr>"

record issue_document =
  idoc_status :: string
  idoc_message :: "string option"
  idoc_truncated :: "string list"
  idoc_issue :: "issue_detail option"

definition issue_document_of :: "decoders \<Rightarrow> linear_error + json \<Rightarrow> issue_document" where
  "issue_document_of d answer =
     (case answer of
        Inr node \<Rightarrow>
          (let cut = truncated_connections node in
           \<lparr>idoc_status = (if cut = [] then ''ok'' else ''partial''), idoc_message = None, idoc_truncated = cut,
            idoc_issue = Some (issue_detail_of d node)\<rparr>)
      | Inl e \<Rightarrow> \<lparr>idoc_status = ''unavailable'', idoc_message = Some (linear_error_str e), idoc_truncated = [], idoc_issue = None\<rparr>)"

end
