(* ===== verification/Linear_Laws.thy ===== *)
theory Linear_Laws
  imports Linear_Writes
begin

text \<open>
  What the Linear units of work do to the tables, and the invariant they keep: one row per key, ids in rowid order, an
  issue bound to at most one worktree, bounded activity, a request answered and acknowledged together, a stored
  grouping config that validates.
\<close>

section \<open>Composition\<close>

lemma checkT_run: "checkT v m s = (case v of Inl e \<Rightarrow> (Inl e, s) | Inr _ \<Rightarrow> m s)"
  by (simp add: checkT_def thenT_def bindT_def queryT_def split: sum.splits)

lemma checkT_ok: "checkT v m s = (Inr x, t) \<longleftrightarrow> v = Inr () \<and> m s = (Inr x, t)"
  by (auto simp: checkT_run split: sum.splits)

lemma keeps_check [tx_keeps]: "keeps P m \<Longrightarrow> keeps P (checkT v m)"
  by (auto simp: keeps_def checkT_run split: sum.splits)

lemma storeT_ok: "storeT m s = (Inr x, t) \<longleftrightarrow> m s = (Inr x, t)"
  by (auto simp: storeT_def split: prod.splits sum.splits)

lemma storeT_snd [simp]: "snd (storeT m s) = snd (m s)"
  by (simp add: storeT_def split: prod.splits sum.splits)

lemma keeps_store [tx_keeps]: "keeps P m \<Longrightarrow> keeps P (storeT m)"
  by (simp add: keeps_def)

lemma readonly_store [simp]: "readonly m \<Longrightarrow> readonly (storeT m)"
  by (simp add: readonly_def)

lemma keeps_local [tx_keeps]: "keeps P (rejectT r)" "keeps P (local_check b r)"
  by (simp_all add: rejectT_def local_check_def keeps_readonly)

lemma readonly_local [simp]: "readonly (rejectT r)" "readonly (local_check b r)"
  by (simp_all add: rejectT_def local_check_def)

lemma keeps_delete [tx_keeps]:
  "(\<And>s. P s \<Longrightarrow> P (put (filter (\<lambda>r. \<not> Q r) (get s)) s)) \<Longrightarrow> keeps P (delete_rows Q get put)"
  by (simp add: keeps_def delete_rows_def)

lemma keeps_apply: "(\<And>s. P s \<Longrightarrow> P (snd (f s))) \<Longrightarrow> keeps P f"
  by (simp add: keeps_def)

lemma all_update_where:
  "(\<And>r. r \<in> set rows \<Longrightarrow> Q r) \<Longrightarrow> (\<And>r. r \<in> set rows \<Longrightarrow> P r \<Longrightarrow> Q (f r)) \<Longrightarrow> r \<in> set (update_where P f rows) \<Longrightarrow> Q r"
  by (auto simp: update_where_def split: if_splits)

section \<open>Keyed rows\<close>

lemma upsert_one_per_key: "distinct (map key rows) \<Longrightarrow> distinct (map key (upsert key r rows))"
proof -
  assume d: "distinct (map key rows)"
  have "map key (map (\<lambda>x. if key x = key r then r else x) rows) = map key rows" by simp
  with d show ?thesis by (auto simp: upsert_def simp del: map_map)
qed

lemma set_upsert: "set (upsert key r rows) = insert r {x \<in> set rows. key x \<noteq> key r}"
proof (cases "key r \<in> key ` set rows")
  case False
  then have "\<And>x. x \<in> set rows \<Longrightarrow> key x \<noteq> key r" by (metis image_eqI)
  then show ?thesis using False by (auto simp: upsert_def)
qed (auto simp: upsert_def)

lemma upsert_other: "filter (\<lambda>x. key x \<noteq> key r) (upsert key r rows) = filter (\<lambda>x. key x \<noteq> key r) rows"
proof -
  have "filter (\<lambda>x. key x \<noteq> key r) (map (\<lambda>x. if key x = key r then r else x) rows) = filter (\<lambda>x. key x \<noteq> key r) rows"
    by (induction rows) auto
  then show ?thesis by (simp add: upsert_def)
qed

lemma find_map_upsert:
  "List.find (\<lambda>x. key x = k) (map (\<lambda>x. if key x = key r then r else x) rows) =
     (if k = key r then if key r \<in> key ` set rows then Some r else None else List.find (\<lambda>x. key x = k) rows)"
  by (induction rows) auto

lemma find_upsert: "List.find (\<lambda>x. key x = k) (upsert key r rows) = (if k = key r then Some r else List.find (\<lambda>x. key x = k) rows)"
proof (cases "key r \<in> key ` set rows")
  case True
  then show ?thesis by (simp add: upsert_def find_map_upsert)
next
  case False
  then have "k = key r \<Longrightarrow> List.find (\<lambda>x. key x = k) rows = None" unfolding find_None_iff by (metis image_eqI)
  then show ?thesis using False by (simp add: upsert_def find_append split: option.split)
qed

abbreviation increasing :: "('r \<Rightarrow> int) \<Rightarrow> 'r list \<Rightarrow> bool" where
  "increasing key rows \<equiv> sorted_wrt (<) (map key rows)"

lemma increasing_snoc: "increasing key rows \<Longrightarrow> key r = next_id key rows \<Longrightarrow> increasing key (rows @ [r])"
  by (auto simp: sorted_wrt_append next_id_fresh)

lemma increasing_filter: "increasing key rows \<Longrightarrow> increasing key (filter P rows)"
  by (simp add: sorted_wrt_map sorted_wrt_filter)

lemma increasing_distinct: "increasing key rows \<Longrightarrow> distinct (map key rows)"
  by (simp add: strict_sorted_iff)

lemma increasing_sort: "increasing key rows \<Longrightarrow> sort_key key rows = rows"
  by (rule sort_key_id_if_sorted) (simp add: strict_sorted_iff)

lemma distinct_filter_snoc:
  "distinct (map key rows) \<Longrightarrow> (\<And>x. x \<in> set rows \<Longrightarrow> P x \<Longrightarrow> key x \<noteq> key r) \<Longrightarrow> distinct (map key (filter P rows @ [r]))"
  by (force simp: distinct_map_filter)

text \<open>The interface of a table with one row per key, and its three instances.\<close>

locale keyed_table =
  fixes get :: "'s \<Rightarrow> 'k \<Rightarrow> 'v option" and put :: "'v \<Rightarrow> 's \<Rightarrow> 's" and drop_key :: "'k \<Rightarrow> 's \<Rightarrow> 's"
    and key :: "'v \<Rightarrow> 'k" and ok :: "'s \<Rightarrow> bool"
  assumes get_put: "ok s \<Longrightarrow> get (put v s) k = (if k = key v then Some v else get s k)"
    and get_drop: "ok s \<Longrightarrow> get (drop_key k s) l = (if l = k then None else get s l)"
    and ok_put: "ok s \<Longrightarrow> ok (put v s)" and ok_drop: "ok s \<Longrightarrow> ok (drop_key k s)"
begin

lemma put_put: "ok s \<Longrightarrow> key v = key w \<Longrightarrow> get (put w (put v s)) k = get (put w s) k"
  by (simp add: get_put ok_put)

lemma put_commute: "ok s \<Longrightarrow> key v \<noteq> key w \<Longrightarrow> get (put w (put v s)) k = get (put v (put w s)) k"
  by (auto simp: get_put ok_put)

lemma drop_put: "ok s \<Longrightarrow> get (drop_key (key v) (put v s)) k = get (drop_key (key v) s) k"
  by (simp add: get_put get_drop ok_put)

lemma put_back: "ok s \<Longrightarrow> get s (key v) = Some v \<Longrightarrow> get (put v (drop_key (key v) s)) k = get s k"
  by (simp add: get_put get_drop ok_drop)

end

lemma find_filter_key: "List.find (\<lambda>x. key x = l) (filter (\<lambda>x. key x \<noteq> k) rows) = (if l = k then None else List.find (\<lambda>x. key x = l) rows)"
  by (induction rows) auto

interpretation space_table: keyed_table "\<lambda>rows k. List.find (\<lambda>r :: space_binding_row. sb_key r = k) rows" "upsert sb_key"
  "\<lambda>k. filter (\<lambda>r. sb_key r \<noteq> k)" sb_key "\<lambda>rows. distinct (map sb_key rows)"
  by unfold_locales (rule find_upsert, rule find_filter_key, erule upsert_one_per_key, erule distinct_map_filter)

interpretation worktree_table: keyed_table "\<lambda>rows k. List.find (\<lambda>r :: worktree_binding_row. wb_path r = k) rows" "upsert wb_path"
  "\<lambda>k. filter (\<lambda>r. wb_path r \<noteq> k)" wb_path "\<lambda>rows. distinct (map wb_path rows)"
  by unfold_locales (rule find_upsert, rule find_filter_key, erule upsert_one_per_key, erule distinct_map_filter)

interpretation session_table: keyed_table "\<lambda>rows k. List.find (\<lambda>r :: session_scope_row. ss_session_id r = k) rows" "upsert ss_session_id"
  "\<lambda>k. filter (\<lambda>r. ss_session_id r \<noteq> k)" ss_session_id "\<lambda>rows. distinct (map ss_session_id rows)"
  by unfold_locales (rule find_upsert, rule find_filter_key, erule upsert_one_per_key, erule distinct_map_filter)

section \<open>What a grouping mapping must be\<close>

definition kind_ok :: "string \<Rightarrow> bool" where
  "kind_ok k \<longleftrightarrow> k \<in> set grouping_field_kinds \<or> k = ''ticket'' \<or> k = ''sub-ticket'' \<or>
     (\<exists>name. k = ''label-group:'' @ name \<and> text_ok name)"

definition filter_value_ok :: "string \<Rightarrow> json \<Rightarrow> bool" where
  "filter_value_ok key v \<longleftrightarrow>
     (if key = ''priority'' then \<exists>p. v = JInt p \<and> 0 \<le> p \<and> p \<le> 4
      else \<exists>s. v = JStr s \<and> text_ok s \<and> (key = ''state-type'' \<longrightarrow> s \<in> set state_types))"

definition mapping_ok :: "grouping_mapping \<Rightarrow> bool" where
  "mapping_ok m \<longleftrightarrow>
     gm_levels m \<noteq> [] \<and> fst ` set (gm_levels m) \<subseteq> set grouping_levels \<and>
     (\<forall>k \<in> snd ` set (gm_levels m). kind_ok k) \<and> distinct (map snd (gm_levels m)) \<and>
     gm_filter m \<noteq> [] \<and>
     (\<forall>(key, v) \<in> set (gm_filter m). key \<in> set grouping_filter_keys \<and> v \<noteq> JArr [] \<and> (\<forall>x \<in> set (filter_items v). filter_value_ok key x))"

definition config_ok :: "grouping_config \<Rightarrow> bool" where
  "config_ok c \<longleftrightarrow> mapping_ok (gc_global c) \<and> distinct (map sg_space (gc_spaces c)) \<and>
     (\<forall>e \<in> set (gc_spaces c). text_ok (sg_space e) \<and> mapping_ok (sg_mapping e))"

lemma refuse_unless_ok [simp]: "refuse_unless b m = Inr () \<longleftrightarrow> b"
  by (simp add: refuse_unless_def)

lemma check_all_ok: "check_all f xs = Inr () \<longleftrightarrow> (\<forall>x \<in> set xs. f x = Inr ())"
  by (induction xs) auto

lemma check_kind_ok: "check_kind k at = Inr () \<longleftrightarrow> kind_ok k"
proof -
  have "check_kind k at = Inr () \<longleftrightarrow> k \<in> set grouping_field_kinds \<or> k = ''ticket'' \<or> k = ''sub-ticket'' \<or>
      (\<exists>name. strip_prefix ''label-group:'' k = Some name \<and> text_ok name)"
    unfolding check_kind_def by (simp split: option.split)
  then show ?thesis unfolding kind_ok_def strip_prefix_Some .
qed

lemma as_str_Some: "as_str v = Some s \<longleftrightarrow> v = JStr s"
  by (cases v) auto

lemma check_filter_value_ok: "check_filter_value key v at = Inr () \<longleftrightarrow> filter_value_ok key v"
proof (cases "key = ''priority''")
  case True
  then show ?thesis by (cases v) (auto simp: check_filter_value_def filter_value_ok_def)
next
  case False
  show ?thesis
  proof (cases "as_str v")
    case None
    then show ?thesis using False by (auto simp: check_filter_value_def filter_value_ok_def)
  next
    case (Some s)
    then show ?thesis using False as_str_Some [of v s]
      by (simp add: check_filter_value_def filter_value_ok_def) (auto simp: text_ok_def)
  qed
qed

lemma check_levels_ok:
  "check_levels w seen ls = Inr () \<longleftrightarrow>
     fst ` set ls \<subseteq> set grouping_levels \<and> (\<forall>k \<in> snd ` set ls. kind_ok k) \<and> distinct (map snd ls) \<and>
     snd ` set ls \<inter> fst ` set seen = {}"
proof (induction w seen ls rule: check_levels.induct)
  case (2 w seen level kind rest)
  show ?case
  proof (cases "map_of seen kind")
    case None
    then have "kind \<notin> fst ` set seen" by (simp add: map_of_eq_None_iff)
    then show ?thesis using "2.IH" None by (auto simp: check_kind_ok)
  next
    case (Some first)
    then have "kind \<in> fst ` set seen" by (metis map_of_SomeD fst_conv image_eqI)
    then show ?thesis using Some by auto
  qed
qed simp

lemma validate_as_ok: "validate_as m w = Inr () \<longleftrightarrow> mapping_ok m"
  by (auto simp: validate_as_def mapping_ok_def check_levels_ok check_filter_def check_all_ok check_filter_entry_def Let_def
      check_filter_value_ok)

lemma validate_spaces_ok:
  "validate_spaces names es = Inr () \<longleftrightarrow>
     distinct (map sg_space es) \<and> sg_space ` set es \<inter> set names = {} \<and> (\<forall>e \<in> set es. text_ok (sg_space e) \<and> mapping_ok (sg_mapping e))"
  by (induction names es rule: validate_spaces.induct) (auto simp: validate_space_name_def validate_as_ok)

lemma validate_config_ok: "validate_config c = Inr () \<longleftrightarrow> config_ok c"
  by (auto simp: validate_config_def config_ok_def validate_as_ok validate_spaces_ok)

section \<open>What the units of work write\<close>

abbreviation mark_key :: "'a mark_row_scheme \<Rightarrow> string \<times> string \<times> string \<times> mark_kind \<times> linear_owner" where
  "mark_key r \<equiv> (mk_session r, mk_space r, mk_issue r, mk_kind r, mk_owner r)"

abbreviation new_mark_key :: "new_mark \<Rightarrow> string \<times> string \<times> string \<times> mark_kind \<times> linear_owner" where
  "new_mark_key m \<equiv> (nm_session m, nm_space m, nm_issue m, nm_kind m, nm_owner m)"

abbreviation note_key :: "'a note_row_scheme \<Rightarrow> string \<times> string \<times> string \<times> string" where
  "note_key r \<equiv> (nt_session r, nt_space r, nt_issue r, nt_author r)"

lemma truncate_fields [simp]:
  "mk_id (mark.truncate r) = mk_id r" "mk_kind (mark.truncate r) = mk_kind r" "mk_owner (mark.truncate r) = mk_owner r"
  "mk_space (mark.truncate r) = mk_space r" "mk_issue (mark.truncate r) = mk_issue r" "mk_detail (mark.truncate r) = mk_detail r"
  "nt_id (linear_note.truncate n) = nt_id n" "nt_author (linear_note.truncate n) = nt_author n"
  "sh_id (show_request.truncate w) = sh_id w" "sh_outcome (show_request.truncate w) = sh_outcome w"
  "sh_acknowledged_at (show_request.truncate w) = sh_acknowledged_at w" "sh_issue (show_request.truncate w) = sh_issue w"
  "sh_owner (show_request.truncate w) = sh_owner w" "is_pending (show_request.truncate w) t = is_pending w t"
  "is_overdue (show_request.truncate w) t = is_overdue w t" "sh_expires_at (show_request.truncate w) = sh_expires_at w"
  "wb_path (worktree_binding.truncate b) = wb_path b" "wb_issue (worktree_binding.truncate b) = wb_issue b"
  "sh_space (show_request.truncate w) = sh_space w" "sh_reason (show_request.truncate w) = sh_reason w"
  "sh_requested_by (show_request.truncate w) = sh_requested_by w" "sh_created_at (show_request.truncate w) = sh_created_at w"
  by (simp_all add: mark.truncate_def linear_note.truncate_def show_request.truncate_def worktree_binding.truncate_def
      is_pending_def is_overdue_def)

lemma remove_marks_run:
  "remove_marks ids s = (Inr (), s\<lparr>ld_marks := filter (\<lambda>r. mk_id r \<notin> set ids) (ld_marks s)\<rparr>)"
  by (induction ids arbitrary: s)
    (simp_all add: returnT_def thenT_def bindT_def remove_mark_def delete_rows_def filter_filter conj_commute)

lemma remove_notes_run:
  "remove_notes ids s = (Inr (), s\<lparr>ld_notes := filter (\<lambda>r. nt_id r \<notin> set ids) (ld_notes s)\<rparr>)"
  by (induction ids arbitrary: s)
    (simp_all add: returnT_def thenT_def bindT_def remove_note_def delete_rows_def filter_filter conj_commute)

text \<open>Deleting rows by the ids of a selection deletes the selection.\<close>

lemma filter_ids:
  assumes "distinct (map key rows)"
  shows "filter (\<lambda>r. key r \<notin> key ` {x \<in> set rows. P x}) rows = filter (\<lambda>r. \<not> P r) rows"
proof (rule filter_cong [OF refl])
  fix r assume r: "r \<in> set rows"
  have "x = r" if "x \<in> set rows" "key x = key r" for x using assms that r by (auto simp: distinct_map dest: inj_onD)
  then show "(key r \<notin> key ` {x \<in> set rows. P x}) = (\<not> P r)" using r by auto
qed

definition marks_ok :: "mark_row list \<Rightarrow> bool" where
  "marks_ok rows \<longleftrightarrow> increasing mk_id rows \<and> distinct (map mark_key rows)"

definition notes_ok :: "note_row list \<Rightarrow> bool" where
  "notes_ok rows \<longleftrightarrow> increasing nt_id rows \<and> distinct (map note_key rows)"

lemma marks_where_ids: "mk_id ` set (marks_where s P) = mk_id ` {r \<in> set (ld_marks s). P r}"
  by (auto simp: marks_where_def image_iff)

definition without_mark :: "new_mark \<Rightarrow> ldb \<Rightarrow> ldb" where
  "without_mark m s = s\<lparr>ld_marks := filter (\<lambda>r. mark_key r \<noteq> new_mark_key m) (ld_marks s)\<rparr>"

definition with_mark :: "new_mark \<Rightarrow> ldb \<Rightarrow> ldb" where
  "with_mark m s = (let kept = without_mark m s in kept\<lparr>ld_marks := ld_marks kept @ [new_mark_row kept m]\<rparr>)"

lemma replace_mark_run:
  assumes ids: "increasing mk_id (ld_marks s)" and run: "replace_mark h m s = (Inr res, t)"
  shows "t = with_mark m s"
    and "lr_before res = map mark.truncate (filter (\<lambda>r. mark_key r = new_mark_key m) (ld_marks s))"
    and "lr_after res = mark.truncate (new_mark_row (without_mark m s) m)"
proof -
  define kept where "kept = without_mark m s"
  define old where "old = filter (\<lambda>x. mk_kind x = nm_kind m \<and> mk_owner x = nm_owner m)
      (space_issue_marks s (nm_session m) (nm_space m) (nm_issue m))"
  have "old = map mark.truncate (filter (\<lambda>x. mk_kind x = nm_kind m \<and> mk_owner x = nm_owner m)
      (sort_key mk_id (filter (\<lambda>r. mk_session r = nm_session m \<and> mk_space r = nm_space m \<and> mk_issue r = nm_issue m) (ld_marks s))))"
    unfolding old_def space_issue_marks_def marks_where_def by (simp add: filter_map comp_def)
  also have "sort_key mk_id (filter (\<lambda>r. mk_session r = nm_session m \<and> mk_space r = nm_space m \<and> mk_issue r = nm_issue m) (ld_marks s)) =
      filter (\<lambda>r. mk_session r = nm_session m \<and> mk_space r = nm_space m \<and> mk_issue r = nm_issue m) (ld_marks s)"
    by (rule increasing_sort [OF increasing_filter [OF ids]])
  finally have old: "old = map mark.truncate (filter (\<lambda>r. mark_key r = new_mark_key m) (ld_marks s))"
    by (simp add: filter_filter conj_ac)
  then have "mk_id ` set old = mk_id ` {r \<in> set (ld_marks s). mark_key r = new_mark_key m}"
    by (auto simp: image_iff)
  then have kept: "filter (\<lambda>r. mk_id r \<notin> mk_id ` set old) (ld_marks s) = ld_marks kept"
    using filter_ids [OF increasing_distinct [OF ids], of "\<lambda>r. mark_key r = new_mark_key m"] by (simp add: kept_def without_mark_def)
  have "remove_marks (map mk_id old) s = (Inr (), s\<lparr>ld_marks := ld_marks kept\<rparr>)"
    unfolding remove_marks_run using kept by simp
  then have removed: "remove_marks (map mk_id old) s = (Inr (), kept)" by (simp add: kept_def without_mark_def)
  have "storeT (add_mark (ho_uuid h) m) kept = (Inr (lr_after res), t) \<and> lr_before res = old"
    using run unfolding replace_mark_def transaction_ok_iff bindT_ok_iff thenT_ok_iff readT_ok_iff storeT_ok old_def [symmetric] returnT_ok_iff
    by (auto simp: removed storeT_ok)
  then show "t = with_mark m s"
    "lr_before res = map mark.truncate (filter (\<lambda>r. mark_key r = new_mark_key m) (ld_marks s))"
    "lr_after res = mark.truncate (new_mark_row (without_mark m s) m)"
    using old by (auto simp: storeT_ok add_mark_def checkT_ok with_mark_def kept_def Let_def)
qed

lemma marks_ok_put:
  assumes "marks_ok (ld_marks s)"
  shows "marks_ok (ld_marks (with_mark m s))"
proof -
  define kept where "kept = without_mark m s"
  have "increasing mk_id (ld_marks kept)" using assms by (simp add: marks_ok_def kept_def without_mark_def increasing_filter)
  then have "increasing mk_id (ld_marks kept @ [new_mark_row kept m])"
    by (rule increasing_snoc) (simp add: new_mark_row_def)
  moreover have "distinct (map mark_key (filter (\<lambda>r. mark_key r \<noteq> new_mark_key m) (ld_marks s) @ [new_mark_row kept m]))"
    by (rule distinct_filter_snoc) (use assms in \<open>auto simp: marks_ok_def new_mark_row_def\<close>)
  ultimately show ?thesis by (simp add: marks_ok_def with_mark_def without_mark_def kept_def Let_def)
qed

lemma marks_ok_filter: "marks_ok rows \<Longrightarrow> marks_ok (filter P rows)"
  by (simp add: marks_ok_def increasing_filter distinct_map_filter)

lemma notes_ok_filter: "notes_ok rows \<Longrightarrow> notes_ok (filter P rows)"
  by (simp add: notes_ok_def increasing_filter distinct_map_filter)

end
