(* ===== verification/Linear_Machine.thy ===== *)
theory Linear_Machine
  imports Linear_Laws
begin

text \<open>
  The Linear local state as a machine: the units of work, the expiry sweep, the board panes and the import's guarded
  inserts as calls, what each writes, and the invariant of every reachable state.
\<close>

section \<open>The invariant\<close>

definition grouping_ok :: "grouping_row list \<Rightarrow> bool" where
  "grouping_ok rows \<longleftrightarrow>
     distinct (map gg_space rows) \<and> distinct (map gg_position (filter (\<lambda>r. gg_space r \<noteq> None) rows)) \<and>
     (rows \<noteq> [] \<longrightarrow> None \<in> gg_space ` set rows) \<and>
     (\<forall>r \<in> set rows. mapping_ok (gg_mapping r) \<and> (case gg_space r of None \<Rightarrow> True | Some n \<Rightarrow> text_ok n))"

definition worktrees_ok :: "worktree_binding_row list \<Rightarrow> bool" where
  "worktrees_ok rows \<longleftrightarrow> distinct (map wb_path rows) \<and> distinct (map wb_issue rows)"

definition shows_ok :: "show_row list \<Rightarrow> bool" where
  "shows_ok rows \<longleftrightarrow> increasing sh_id rows \<and> (\<forall>r \<in> set rows. sh_outcome r = None \<longleftrightarrow> sh_acknowledged_at r = None)"

definition activity_ok :: "activity_row list \<Rightarrow> bool" where
  "activity_ok rows \<longleftrightarrow>
     increasing av_id rows \<and> (\<forall>session space. length (filter (activity_of session space) rows) \<le> activity_keep)"

abbreviation repo_key :: "scope_repo_row \<Rightarrow> string \<times> string" where
  "repo_key r \<equiv> (sr_scope_key r, sr_repo_path r)"

definition linear_inv :: "ldb \<Rightarrow> bool" where
  "linear_inv s \<longleftrightarrow>
     grouping_ok (ld_grouping s) \<and> distinct (map sb_key (ld_space_bindings s)) \<and> worktrees_ok (ld_worktree_bindings s) \<and>
     distinct (map ss_session_id (ld_session_scopes s)) \<and> distinct (map repo_key (ld_scope_repos s)) \<and>
     marks_ok (ld_marks s) \<and> notes_ok (ld_notes s) \<and> shows_ok (ld_shows s) \<and> activity_ok (ld_activity s) \<and>
     distinct (map bp_key (ld_panes s))"

named_theorems linear_keeps "statements that keep the Linear invariant"

lemma linear_parts:
  assumes "linear_inv s"
  shows "grouping_ok (ld_grouping s)" "distinct (map sb_key (ld_space_bindings s))" "worktrees_ok (ld_worktree_bindings s)"
    "distinct (map ss_session_id (ld_session_scopes s))" "distinct (map repo_key (ld_scope_repos s))" "marks_ok (ld_marks s)"
    "notes_ok (ld_notes s)" "shows_ok (ld_shows s)" "activity_ok (ld_activity s)" "distinct (map bp_key (ld_panes s))"
  using assms by (auto simp: linear_inv_def)

lemma linear_puts:
  assumes "linear_inv s"
  shows "grouping_ok g \<Longrightarrow> linear_inv (s\<lparr>ld_grouping := g\<rparr>)" "distinct (map sb_key b) \<Longrightarrow> linear_inv (s\<lparr>ld_space_bindings := b\<rparr>)"
    "worktrees_ok w \<Longrightarrow> linear_inv (s\<lparr>ld_worktree_bindings := w\<rparr>)"
    "distinct (map ss_session_id c) \<Longrightarrow> linear_inv (s\<lparr>ld_session_scopes := c\<rparr>)"
    "distinct (map repo_key r) \<Longrightarrow> linear_inv (s\<lparr>ld_scope_repos := r\<rparr>)" "marks_ok m \<Longrightarrow> linear_inv (s\<lparr>ld_marks := m\<rparr>)"
    "notes_ok n \<Longrightarrow> linear_inv (s\<lparr>ld_notes := n\<rparr>)" "shows_ok h \<Longrightarrow> linear_inv (s\<lparr>ld_shows := h\<rparr>)"
    "activity_ok a \<Longrightarrow> linear_inv (s\<lparr>ld_activity := a\<rparr>)" "distinct (map bp_key p) \<Longrightarrow> linear_inv (s\<lparr>ld_panes := p\<rparr>)"
  using assms by (simp_all add: linear_inv_def)

section \<open>Statements\<close>

lemma keeps_space_binding [linear_keeps]: "keeps linear_inv (set_space_binding b)"
  unfolding set_space_binding_def by (intro tx_keeps linear_puts space_table.ok_put linear_parts)

lemma keeps_session_scope [linear_keeps]: "keeps linear_inv (set_session_scope c)"
  unfolding set_session_scope_def by (intro tx_keeps linear_puts session_table.ok_put linear_parts)

lemma keeps_scope_repo [linear_keeps]: "keeps linear_inv (add_scope_repo key path)"
  unfolding add_scope_repo_def
  by (intro tx_keeps) (auto simp: linear_inv_def image_iff)

lemma distinct_replace: "distinct (map key rows) \<Longrightarrow> distinct (map key (filter (\<lambda>x. key x \<noteq> key r) rows @ [r]))"
  by (rule distinct_filter_snoc) auto

lemma keeps_pane [linear_keeps]: "keeps linear_inv (record_board_pane p)"
  unfolding record_board_pane_def Let_def
  by (intro tx_keeps keeps_apply) (simp only: snd_conv, intro linear_puts distinct_replace linear_parts)

lemma keeps_removals [linear_keeps]:
  "keeps linear_inv (remove_board_pane socket pane)" "keeps linear_inv (remove_worktree_binding path)"
  "keeps linear_inv (remove_mark i)" "keeps linear_inv (remove_note i)" "keeps linear_inv (remove_space_binding session space)"
  "keeps linear_inv (remove_session_scope sid)" "keeps linear_inv (remove_scope_repo key repo)"
  unfolding remove_board_pane_def remove_worktree_binding_def remove_mark_def remove_note_def remove_space_binding_def
    remove_session_scope_def remove_scope_repo_def
  by (intro tx_keeps; auto simp: linear_inv_def worktrees_ok_def distinct_map_filter marks_ok_filter notes_ok_filter)+

lemma keeps_remove_lists [linear_keeps]:
  "keeps linear_inv (remove_marks is)" "keeps linear_inv (remove_notes is)" "keeps linear_inv (clear_loop is removed)"
proof -
  show "keeps linear_inv (remove_marks is)" by (induction "is") (auto intro!: tx_keeps linear_keeps)
  show "keeps linear_inv (remove_notes is)" by (induction "is") (auto intro!: tx_keeps linear_keeps)
  show "keeps linear_inv (clear_loop is removed)"
    by (induction "is" arbitrary: removed) (auto intro!: tx_keeps linear_keeps split: option.splits)
qed

lemma keeps_option [tx_keeps]: "(\<And>x. keeps P (f x)) \<Longrightarrow> keeps P m \<Longrightarrow> keeps P (case y of None \<Rightarrow> m | Some x \<Rightarrow> f x)"
  by (cases y) auto

lemma keeps_cond [tx_keeps]: "(b \<Longrightarrow> keeps P m) \<Longrightarrow> (\<not> b \<Longrightarrow> keeps P k) \<Longrightarrow> keeps P (if b then m else k)"
  by simp

text \<open>An atomic operation keeps what its successes keep.\<close>

lemma linear_keeps_success: "atomic m \<Longrightarrow> (\<And>s x t. linear_inv s \<Longrightarrow> m s = (Inr x, t) \<Longrightarrow> linear_inv t) \<Longrightarrow> keeps linear_inv m"
  by (rule hoare_atomic_keeps) (auto simp: hoare_def)

lemma keeps_replace_mark [linear_keeps]: "keeps linear_inv (replace_mark h m)"
proof (rule linear_keeps_success)
  fix s x t assume inv: "linear_inv s" and run: "replace_mark h m s = (Inr x, t)"
  have "marks_ok (ld_marks s)" by (rule linear_parts [OF inv])
  then have "t = with_mark m s" using replace_mark_run(1) [OF _ run] by (simp add: marks_ok_def)
  then show "linear_inv t" using inv marks_ok_put [OF \<open>marks_ok (ld_marks s)\<close>, of m]
    by (simp add: linear_inv_def with_mark_def without_mark_def Let_def)
qed (simp add: replace_mark_def)

section \<open>Show requests\<close>

lemma keeps_open_show:
  assumes "\<And>s r. sh_id (f s r) = sh_id r"
    and "\<And>s r. sh_outcome r = None \<Longrightarrow> sh_acknowledged_at r = None \<Longrightarrow> (sh_outcome (f s r) = None) = (sh_acknowledged_at (f s r) = None)"
  shows "keeps linear_inv (\<lambda>s. update_open_show i (f s) s)"
proof (rule keeps_apply)
  fix s assume inv: "linear_inv s"
  define P where "P r \<longleftrightarrow> sh_id r = i \<and> sh_outcome r = None \<and> sh_acknowledged_at r = None" for r :: show_row
  have rows: "shows_ok (ld_shows s)" by (rule linear_parts [OF inv])
  have "(sh_outcome r = None) = (sh_acknowledged_at r = None)" if "r \<in> set (update_where P (f s) (ld_shows s))" for r
    by (rule all_update_where [OF _ _ that]) (use rows assms(2) in \<open>auto simp: shows_ok_def P_def\<close>)
  then have "shows_ok (update_where P (f s) (ld_shows s))"
    using rows assms(1) by (simp add: shows_ok_def map_update_where)
  then show "linear_inv (snd (update_open_show i (f s) s))"
    using inv by (simp add: update_open_show_def P_def [abs_def] Let_def linear_inv_def)
qed

lemma keeps_close_show [linear_keeps]: "keeps linear_inv (close_show_request i outcome)"
  unfolding close_show_request_def by (rule keeps_open_show) simp_all

lemma keeps_refresh_show [linear_keeps]: "keeps linear_inv (refresh_show_request i reason who expires)"
  unfolding refresh_show_request_def by (intro tx_keeps keeps_open_show) simp_all

lemma keeps_add_show [linear_keeps]: "keeps linear_inv (add_show_request uuid r)"
proof -
  have "shows_ok (ld_shows s @ [new_show_row s r])" if "shows_ok (ld_shows s)" for s
    using that by (auto simp: shows_ok_def new_show_row_def intro!: increasing_snoc simp del: map_append)
  then show ?thesis unfolding add_show_request_def
    by (intro tx_keeps keeps_apply) (simp only: snd_conv, intro linear_puts linear_parts, auto dest: linear_parts)
qed

lemma keeps_expire [linear_keeps]: "keeps linear_inv (expire_overdue now)"
proof -
  have "keeps linear_inv (expire_loop now rs spaces)" for rs spaces
    by (induction rs arbitrary: spaces) (auto intro!: tx_keeps linear_keeps)
  then show ?thesis unfolding expire_overdue_def by (intro tx_keeps) 
qed

section \<open>Activity\<close>

lemma pruned_ids: "increasing av_id (ld_activity s) \<Longrightarrow> increasing av_id (ld_activity (prune_activity session space keep s))"
  by (simp add: prune_activity_def increasing_filter)

lemma pruned_activity:
  assumes ids: "increasing av_id (ld_activity s)"
    and rest: "\<And>session' space'. (session', space') \<noteq> (session, space) \<Longrightarrow> length (filter (activity_of session' space') (ld_activity s)) \<le> keep"
  shows "length (filter (activity_of session' space') (ld_activity (prune_activity session space keep s))) \<le> keep"
proof (cases "(session', space') = (session, space)")
  case False
  have "filter (activity_of session' space') (ld_activity (prune_activity session space keep s)) = filter (activity_of session' space') (ld_activity s)"
    using False by (auto simp: prune_activity_def filter_filter activity_of_def intro!: filter_cong)
  then show ?thesis using rest [OF False] by simp
next
  case True
  let ?rows = "filter (activity_of session space) (ld_activity (prune_activity session space keep s))"
  let ?newest = "map av_id (newest_activity s session space keep)"
  have "distinct (map av_id ?rows)"
    using ids by (simp add: prune_activity_def filter_filter increasing_distinct distinct_map_filter)
  then have "length ?rows = card (set (map av_id ?rows))" by (metis distinct_card length_map)
  also have "\<dots> \<le> card (set ?newest)" by (rule card_mono) (auto simp: prune_activity_def)
  also have "\<dots> \<le> length ?newest" by (rule card_length)
  also have "\<dots> \<le> keep" by (simp add: newest_activity_def)
  finally show ?thesis using True by simp
qed

lemma keeps_activity [linear_keeps]: "keeps linear_inv (record_activity uuid a)"
proof -
  let ?insert = "\<lambda>s. s\<lparr>ld_activity := ld_activity s @ [new_activity_row s a]\<rparr>"
  have step: "linear_inv (prune_activity (na_session a) (na_space a) activity_keep (?insert s))" if inv: "linear_inv s" for s
  proof -
    have old: "activity_ok (ld_activity s)" by (rule linear_parts [OF inv])
    have ids: "increasing av_id (ld_activity (?insert s))"
      using increasing_snoc [of av_id "ld_activity s" "new_activity_row s a"] old
      by (simp add: activity_ok_def new_activity_row_def)
    have "length (filter (activity_of session space) (ld_activity (?insert s))) \<le> activity_keep"
      if "(session, space) \<noteq> (na_session a, na_space a)" for session space
      using that old by (auto simp: activity_ok_def activity_of_def new_activity_row_def)
    note bound = pruned_activity [OF ids this]
    have "increasing av_id (ld_activity (prune_activity (na_session a) (na_space a) activity_keep (?insert s)))"
      by (rule pruned_ids [OF ids])
    with bound have rows: "activity_ok (ld_activity (prune_activity (na_session a) (na_space a) activity_keep (?insert s)))"
      unfolding activity_ok_def by blast
    have "prune_activity (na_session a) (na_space a) activity_keep (?insert s) =
        s\<lparr>ld_activity := ld_activity (prune_activity (na_session a) (na_space a) activity_keep (?insert s))\<rparr>"
      by (simp add: prune_activity_def)
    then show ?thesis using linear_puts(9) [OF inv rows] by (metis (no_types))
  qed
  have run: "keeps linear_inv (bindT (\<lambda>s. (Inr (new_activity_row s a), ?insert s)) (\<lambda>r.
        thenT (modifyT (prune_activity (na_session a) (na_space a) activity_keep)) (queryT (q r))))" for q
    by (rule keeps_apply) (simp add: bindT_def thenT_def modifyT_def queryT_def step)
  show ?thesis unfolding record_activity_def by (intro keeps_check keeps_transaction run)
qed

section \<open>Notes\<close>

definition with_note :: "string \<Rightarrow> string \<Rightarrow> string \<Rightarrow> string \<Rightarrow> string \<Rightarrow> linear_owner \<Rightarrow> ldb \<Rightarrow> ldb" where
  "with_note session space issue body author owner s =
     (let kept = s\<lparr>ld_notes := filter (\<lambda>r. note_key r \<noteq> (session, space, issue, author)) (ld_notes s)\<rparr>
      in kept\<lparr>ld_notes := ld_notes kept @ [new_note_row kept session space issue body author owner]\<rparr>)"

definition replace_note ::
  "host \<Rightarrow> string \<Rightarrow> string \<Rightarrow> string \<Rightarrow> string \<Rightarrow> string \<Rightarrow> linear_owner \<Rightarrow> linear_note linear_replace local" where
  "replace_note h session space issue body author owner =
     transaction
       (bindT (readT (\<lambda>s. filter (\<lambda>n. nt_author n = author) (list_notes s session space (Some issue)))) (\<lambda>before.
        thenT (storeT (remove_notes (map nt_id before)))
        (bindT (storeT (add_note (ho_uuid h) session space issue body author owner)) (\<lambda>after.
         returnT \<lparr>lr_before = before, lr_after = after\<rparr>))))"

lemma linear_note_set_replace:
  "linear_note_set h p known =
     (let owner = clean_owner (np_owner p); session = herdr_session (ow_socket owner) in
      thenT (require_known h session (np_space p) (np_issue p) known)
        (replace_note h session (np_space p) (np_issue p) (strip_control_keep_lines (np_body p))
          (strip_control_and_format (np_author p)) owner))"
  by (simp add: linear_note_set_def replace_note_def Let_def)

lemma replace_note_run:
  assumes ids: "increasing nt_id (ld_notes s)" and run: "replace_note h session space issue body author owner s = (Inr res, t)"
  shows "t = with_note session space issue body author owner s"
proof -
  define kept where "kept = s\<lparr>ld_notes := filter (\<lambda>r. note_key r \<noteq> (session, space, issue, author)) (ld_notes s)\<rparr>"
  define old where "old = filter (\<lambda>n. nt_author n = author) (list_notes s session space (Some issue))"
  have "old = map linear_note.truncate (filter (\<lambda>r. nt_author r = author)
      (sort_key nt_id (filter (\<lambda>r. nt_session r = session \<and> nt_space r = space \<and> nt_issue r = issue) (ld_notes s))))"
    unfolding old_def list_notes_def by (simp add: filter_map comp_def)
  then have "nt_id ` set old = nt_id ` {r \<in> set (ld_notes s). note_key r = (session, space, issue, author)}"
    by (auto simp: image_iff)
  then have "filter (\<lambda>r. nt_id r \<notin> nt_id ` set old) (ld_notes s) = ld_notes kept"
    using filter_ids [OF increasing_distinct [OF ids], of "\<lambda>r. note_key r = (session, space, issue, author)"] by (simp add: kept_def)
  then have removed: "remove_notes (map nt_id old) s = (Inr (), kept)"
    unfolding remove_notes_run by (simp add: kept_def)
  show ?thesis
    using run unfolding replace_note_def transaction_ok_iff bindT_ok_iff thenT_ok_iff readT_ok_iff storeT_ok old_def [symmetric] returnT_ok_iff
    by (auto simp: removed storeT_ok add_note_def checkT_ok with_note_def kept_def Let_def)
qed

lemma keeps_replace_note [linear_keeps]: "keeps linear_inv (replace_note h session space issue body author owner)"
proof (rule linear_keeps_success)
  fix s x t assume inv: "linear_inv s" and run: "replace_note h session space issue body author owner s = (Inr x, t)"
  define kept where "kept = s\<lparr>ld_notes := filter (\<lambda>r. note_key r \<noteq> (session, space, issue, author)) (ld_notes s)\<rparr>"
  let ?r = "new_note_row kept session space issue body author owner"
  have old: "notes_ok (ld_notes s)" by (rule linear_parts [OF inv])
  then have t: "t = kept\<lparr>ld_notes := ld_notes kept @ [?r]\<rparr>"
    using replace_note_run [OF _ run] by (simp add: notes_ok_def with_note_def kept_def Let_def)
  have "increasing nt_id (ld_notes kept)" using old by (simp add: notes_ok_def kept_def increasing_filter)
  then have "increasing nt_id (ld_notes kept @ [?r])" by (rule increasing_snoc) (simp add: new_note_row_def)
  moreover have "distinct (map note_key (filter (\<lambda>r. note_key r \<noteq> (session, space, issue, author)) (ld_notes s) @ [?r]))"
    by (rule distinct_filter_snoc) (use old in \<open>auto simp: notes_ok_def new_note_row_def\<close>)
  ultimately have "notes_ok (ld_notes kept @ [?r])" by (simp add: notes_ok_def kept_def)
  then show "linear_inv t" unfolding t using inv by (simp add: linear_inv_def kept_def)
qed (simp add: replace_note_def)

section \<open>Worktrees\<close>

lemma upsert_distinct_other:
  assumes keys: "distinct (map key rows)" and others: "distinct (map g rows)"
    and same: "\<And>x. x \<in> set rows \<Longrightarrow> g x = g r \<Longrightarrow> key x = key r"
  shows "distinct (map g (upsert key r rows))"
proof (cases "key r \<in> key ` set rows")
  case True
  have "x = y" if xy: "x \<in> set rows" "y \<in> set rows" and eq: "g (if key x = key r then r else x) = g (if key y = key r then r else y)" for x y
  proof (cases "key x = key r \<or> key y = key r")
    case True
    then have "key x = key y" using eq same [OF xy(1)] same [OF xy(2)] by (metis (full_types))
    then show ?thesis using keys xy by (auto simp: distinct_map dest: inj_onD)
  next
    case False
    then show ?thesis using eq others xy by (auto simp: distinct_map dest: inj_onD)
  qed
  then have "inj_on (\<lambda>x. g (if key x = key r then r else x)) (set rows)" by (rule inj_onI)
  moreover have "distinct rows" using keys by (simp add: distinct_map)
  ultimately have "distinct (map (\<lambda>x. g (if key x = key r then r else x)) rows)" unfolding distinct_map by blast
  then show ?thesis using True by (simp only: upsert_def if_True map_map comp_def)
next
  case False
  have "g r \<notin> g ` set rows"
  proof
    assume "g r \<in> g ` set rows"
    then obtain x where x: "x \<in> set rows" "g x = g r" by (metis imageE)
    then show False using False same [OF x] by (metis image_eqI)
  qed
  then show ?thesis using False others by (simp add: upsert_def)
qed

lemma issue_holder_None:
  "issue_holder s issue path = None \<longleftrightarrow> (\<forall>b \<in> set (ld_worktree_bindings s). wb_issue b = issue \<longrightarrow> wb_path b = path)"
proof -
  have "issue_holder s issue path = None \<longleftrightarrow> sort (map wb_path (filter (\<lambda>b. wb_issue b = issue \<and> wb_path b \<noteq> path) (ld_worktree_bindings s))) = []"
    unfolding issue_holder_def by (simp split: list.split)
  also have "\<dots> \<longleftrightarrow> set (sort (map wb_path (filter (\<lambda>b. wb_issue b = issue \<and> wb_path b \<noteq> path) (ld_worktree_bindings s)))) = {}"
    by (rule set_empty [symmetric])
  also have "\<dots> \<longleftrightarrow> (\<forall>b \<in> set (ld_worktree_bindings s). wb_issue b = issue \<longrightarrow> wb_path b = path)" by auto
  finally show ?thesis .
qed

lemma set_worktree_keeps:
  assumes inv: "linear_inv s" and free: "issue_holder s (wb_issue b) (wb_path b) = None"
  shows "linear_inv (snd (set_worktree_binding uuid b s))"
proof -
  have rows: "worktrees_ok (ld_worktree_bindings s)" by (rule linear_parts [OF inv])
  have "worktrees_ok (upsert wb_path r (ld_worktree_bindings s))" if "wb_path r = wb_path b" "wb_issue r = wb_issue b" for r
    unfolding worktrees_ok_def
    by (intro conjI upsert_one_per_key upsert_distinct_other) (use rows free that in \<open>auto simp: worktrees_ok_def issue_holder_None\<close>)
  then have "linear_inv (s\<lparr>ld_worktree_bindings := upsert wb_path r (ld_worktree_bindings s)\<rparr>)"
    if "wb_path r = wb_path b" "wb_issue r = wb_issue b" for r using inv that by (simp add: linear_inv_def)
  then show ?thesis using inv
    by (simp add: set_worktree_binding_def checkT_run modifyT_def worktree_binding.extend_def worktree_binding_row.fields_def split: sum.splits)
qed

lemma linear_bindT: "linear_inv (snd (m s)) \<Longrightarrow> (\<And>x. keeps linear_inv (k x)) \<Longrightarrow> linear_inv (snd (bindT m k s))"
  by (fastforce simp: bindT_def keeps_def split: prod.splits sum.splits dest: arg_cong [where f = snd])

lemma linear_thenT: "linear_inv (snd (m s)) \<Longrightarrow> keeps linear_inv k \<Longrightarrow> linear_inv (snd (thenT m k s))"
  by (simp add: thenT_def linear_bindT)

lemma keeps_clear_suggestions [linear_keeps]: "keeps linear_inv (clear_suggestions_naming issue path)"
  unfolding clear_suggestions_naming_def by (intro tx_keeps linear_keeps)

lemma keeps_checks [linear_keeps]:
  "keeps P (check_issue h issue)" "keeps P (check_space space)" "keeps P (check_linear_id i what)" "keeps P (require_owner w what)"
  "keeps P (require_known h session space issue known)"
  unfolding check_issue_def check_space_def check_linear_id_def require_owner_def require_known_def
  by (intro tx_keeps; simp add: keeps_def local_check_def ensureT_def tx_defs)+

lemma bind_read: "bindT (readT f) k s = k (f s) s"
  by (simp add: bindT_def readT_def)

lemma then_return: "thenT (returnT x) m s = m s"
  by (simp add: thenT_def bindT_def returnT_def)

lemma then_reject: "thenT (rejectT r) m s = (Inl (Rejection r), s)"
  by (simp add: thenT_def bindT_def rejectT_def throwT_def)

lemma keeps_bind_worktree [linear_keeps]: "keeps linear_inv (linear_bind h p)"
proof (cases "resolve_worktree h (bi_cwd p)")
  case (Inl r)
  then show ?thesis unfolding linear_bind_def by (auto intro!: tx_keeps linear_keeps)
next
  case (Inr path)
  have bound: "linear_inv (snd (thenT (storeT (set_worktree_binding (ho_uuid h) (bound_to p path before))) k s))"
    if "linear_inv s" "issue_holder s (bi_issue p) path = None" "keeps linear_inv k"
    for s before and k :: "linear_bound local"
    using that set_worktree_keeps [of s "bound_to p path before" "ho_uuid h"] by (intro linear_thenT) (simp_all add: bound_to_def)
  have run: "keeps linear_inv (bindT (readT (\<lambda>s. issue_holder s (bi_issue p) path)) (\<lambda>holder.
      thenT (case holder of Some other \<Rightarrow> rejectT (IssueBoundElsewhere (bi_issue p) other) | None \<Rightarrow> returnT ())
        (bindT (readT (\<lambda>s. worktree_binding s path)) (\<lambda>before.
          thenT (storeT (set_worktree_binding (ho_uuid h) (bound_to p path before))) (k before)))))"
    if "\<And>before. keeps linear_inv (k before)" for k :: "worktree_binding option \<Rightarrow> linear_bound local"
    by (intro keeps_apply) (simp add: bind_read then_return then_reject bound that split: option.split)
  show ?thesis unfolding linear_bind_def Inr sum.case
    by (intro keeps_then keeps_checks keeps_transaction run) (intro tx_keeps linear_keeps)
qed

lemma keeps_space_bind [linear_keeps]: "keeps linear_inv (linear_space_bind p)"
  unfolding linear_space_bind_def Let_def by (intro tx_keeps linear_keeps)

lemma keeps_unbind [linear_keeps]: "keeps linear_inv (linear_unbind h cwd)"
proof -
  have "keeps linear_inv (\<lambda>s. case resolve_worktree h cwd of Inr path \<Rightarrow> (Inr path, s)
       | Inl r \<Rightarrow> (case worktree_binding s (trim_slashes cwd) of Some b \<Rightarrow> (Inr (wb_path b), s) | None \<Rightarrow> (Inl (Rejection r), s)))"
    by (simp add: keeps_def split: sum.split option.split)
  then show ?thesis unfolding linear_unbind_def by (intro tx_keeps linear_keeps)
qed

section \<open>The grouping config\<close>

definition has_global :: "ldb \<Rightarrow> bool" where
  "has_global s \<longleftrightarrow> None \<in> gg_space ` set (ld_grouping s)"

abbreviation space_ok :: "string option \<Rightarrow> bool" where
  "space_ok space \<equiv> (case space of None \<Rightarrow> True | Some n \<Rightarrow> text_ok n)"

lemma grouping_ok_snoc:
  assumes "grouping_ok rows" "\<not> list_ex (grouping_conflict r) rows" "mapping_ok (gg_mapping r)" "space_ok (gg_space r)"
    "gg_space r = None \<or> None \<in> gg_space ` set rows"
  shows "grouping_ok (rows @ [r])"
proof -
  have "gg_space r \<notin> gg_space ` set rows"
    using assms(2) by (auto simp: list_ex_iff grouping_conflict_def image_iff)
  moreover have "gg_position r \<notin> gg_position ` {x \<in> set rows. gg_space x \<noteq> None}" if "gg_space r \<noteq> None"
    using assms(2) that by (auto simp: list_ex_iff grouping_conflict_def image_iff)
  moreover have "None \<in> gg_space ` set (rows @ [r])" using assms(5) by (auto simp: image_iff)
  ultimately show ?thesis using assms(1,3,4) unfolding grouping_ok_def by (auto simp del: image_eqI)
qed

lemma keeps_insert_grouping:
  assumes "mapping_ok m" "space_ok space"
  shows "keeps (\<lambda>s. linear_inv s \<and> (space = None \<or> has_global s)) (insert_grouping space pos m)"
proof (rule keeps_apply, elim conjE)
  fix s assume inv: "linear_inv s" and g: "space = None \<or> has_global s"
  let ?r = "\<lparr>gg_id = next_id gg_id (ld_grouping s), gg_space = space, gg_position = pos, gg_mapping = m, gg_updated_at = ld_now s\<rparr>"
  show "linear_inv (snd (insert_grouping space pos m s)) \<and> (space = None \<or> has_global (snd (insert_grouping space pos m s)))"
  proof (cases "list_ex (grouping_conflict ?r) (ld_grouping s)")
    case True
    then show ?thesis using inv g by (simp add: insert_grouping_def Let_def)
  next
    case False
    have "grouping_ok (ld_grouping s @ [?r])"
      by (rule grouping_ok_snoc [OF linear_parts(1) [OF inv] False]) (use assms g in \<open>auto simp: has_global_def\<close>)
    then show ?thesis using inv g False by (auto simp: insert_grouping_def Let_def has_global_def intro: linear_puts)
  qed
qed

lemma keeps_update_grouping:
  assumes "mapping_ok m"
  shows "keeps linear_inv (update_grouping space m)"
proof -
  have kept: "grouping_ok (map (\<lambda>r. if gg_space r = space then r\<lparr>gg_mapping := m, gg_updated_at := now\<rparr> else r) rows)" (is "grouping_ok (map ?f rows)")
    if ok: "grouping_ok rows" for rows now
  proof -
    have f: "gg_space (?f r) = gg_space r" "gg_position (?f r) = gg_position r" for r by simp_all
    have same: "map gg_space (map ?f rows) = map gg_space rows"
      "map gg_position (filter (\<lambda>r. gg_space r \<noteq> None) (map ?f rows)) = map gg_position (filter (\<lambda>r. gg_space r \<noteq> None) rows)"
      unfolding filter_map map_map comp_def f by (rule refl)+
    have "gg_space ` set (map ?f rows) = gg_space ` set rows" by (simp only: set_map [symmetric] same(1))
    moreover have "mapping_ok (gg_mapping r) \<and> space_ok (gg_space r)" if r: "r \<in> set (map ?f rows)" for r
      using r ok assms by (auto simp: grouping_ok_def)
    ultimately show ?thesis using ok unfolding grouping_ok_def same by (simp only: map_is_Nil_conv) blast
  qed
  show ?thesis unfolding update_grouping_def by (intro tx_keeps linear_puts kept linear_parts)
qed

lemma keeps_set_global [linear_keeps]: "keeps linear_inv (set_grouping_global m)"
proof (cases "validate_as m [T ''the global mapping'']")
  case (Inl e)
  then show ?thesis by (simp add: set_grouping_global_def checkT_def tx_defs thenT_def keeps_def)
next
  case (Inr u)
  then have "mapping_ok m" using validate_as_ok [of m "[T ''the global mapping'']"] by simp
  then have "keeps (\<lambda>s. linear_inv s \<and> (None = (None :: string option) \<or> has_global s)) (insert_grouping None 0 m)"
    "keeps linear_inv (update_grouping None m)"
    by (intro keeps_insert_grouping keeps_update_grouping; simp)+
  then have "keeps linear_inv (upsert_grouping None (\<lambda>_. 0) m)" by (simp add: keeps_def upsert_grouping_def)
  then show ?thesis unfolding set_grouping_global_def by (rule keeps_check)
qed

lemma keeps_set_space [linear_keeps]: "keeps linear_inv (set_grouping_space space m)"
proof (cases "validate_space_name space = Inr () \<and> mapping_ok m")
  case False
  then have "\<exists>e. set_grouping_space space m s = (Inl e, s)" for s
    by (auto simp: set_grouping_space_def checkT_run validate_as_ok split: sum.splits)
  then show ?thesis by (metis keeps_apply snd_conv)
next
  case True
  then have ok: "text_ok space" "mapping_ok m" by (simp_all add: validate_space_name_def)
  have "keeps linear_inv (thenT (queryT (\<lambda>s. refuse_unless (global_row s \<noteq> None) msg)) (upsert_grouping (Some space) pos m))" for pos msg
  proof (rule keeps_apply)
    fix s assume inv: "linear_inv s"
    show "linear_inv (snd (thenT (queryT (\<lambda>s. refuse_unless (global_row s \<noteq> None) msg)) (upsert_grouping (Some space) pos m) s))"
    proof (cases "global_row s")
      case None
      then show ?thesis using inv by (simp add: thenT_def bindT_def queryT_def refuse_unless_def)
    next
      case (Some g)
      then have "g \<in> set (ld_grouping s)" "gg_space g = None" by (auto simp: global_row_def dest: find_SomeD)
      then have "has_global s" unfolding has_global_def by (metis image_eqI)
      then have "linear_inv (snd (insert_grouping (Some space) (pos s) m s))"
        using keeps_insert_grouping [of m "Some space" "pos s"] ok inv by (simp add: keeps_def)
      moreover have "linear_inv (snd (update_grouping (Some space) m s))"
        using keeps_update_grouping [OF ok(2)] inv by (simp add: keeps_def)
      ultimately show ?thesis using Some
        by (simp add: thenT_def bindT_def queryT_def refuse_unless_def upsert_grouping_def)
    qed
  qed
  then show ?thesis unfolding set_grouping_space_def by (intro keeps_check keeps_transaction)
qed

lemma keeps_remove_space [linear_keeps]: "keeps linear_inv (remove_grouping_space space)"
proof -
  have kept: "grouping_ok (filter (\<lambda>r. gg_space r \<noteq> Some space) rows)" if ok: "grouping_ok rows" for rows
  proof -
    have global: "None \<in> gg_space ` set (filter (\<lambda>r. gg_space r \<noteq> Some space) rows)" if "filter (\<lambda>r. gg_space r \<noteq> Some space) rows \<noteq> []"
      using ok that by (auto simp: grouping_ok_def image_iff)
    have "filter (\<lambda>r. gg_space r \<noteq> None) (filter (\<lambda>r. gg_space r \<noteq> Some space) rows) =
        filter (\<lambda>r. gg_space r \<noteq> Some space) (filter (\<lambda>r. gg_space r \<noteq> None) rows)"
      by (simp only: filter_filter conj_commute)
    then have "distinct (map gg_position (filter (\<lambda>r. gg_space r \<noteq> None) (filter (\<lambda>r. gg_space r \<noteq> Some space) rows)))"
      using ok distinct_map_filter by (metis (no_types, lifting) grouping_ok_def)
    with global ok show ?thesis unfolding grouping_ok_def by (auto simp: distinct_map_filter simp del: filter_filter)
  qed
  show ?thesis unfolding remove_grouping_space_def by (intro tx_keeps linear_puts kept linear_parts)
qed

lemma keeps_replace_grouping [linear_keeps]: "keeps linear_inv (replace_grouping c)"
proof (cases "validate_config c = Inr ()")
  case False
  then show ?thesis by (auto simp: replace_grouping_def keeps_def checkT_run split: sum.splits)
next
  case True
  then have ok: "config_ok c" by (simp flip: validate_config_ok)
  define Q where "Q s \<longleftrightarrow> linear_inv s \<and> has_global s" for s
  have rows: "keeps Q (insert_space_rows i es)" if "\<forall>e \<in> set es. text_ok (sg_space e) \<and> mapping_ok (sg_mapping e)" for i es
    using that
  proof (induction es arbitrary: i)
    case (Cons e es)
    then have "keeps Q (insert_grouping (Some (sg_space e)) i (sg_mapping e))"
      using keeps_insert_grouping [of "sg_mapping e" "Some (sg_space e)" i] by (simp add: Q_def [abs_def])
    then show ?case using Cons by (auto intro: tx_keeps)
  qed (simp add: keeps_simple)
  have "keeps linear_inv (thenT (modifyT (\<lambda>s. s\<lparr>ld_grouping := []\<rparr>)) (thenT (insert_grouping None 0 (gc_global c)) (insert_space_rows 0 (gc_spaces c))))"
  proof (rule keeps_apply)
    fix s assume inv: "linear_inv s"
    let ?t = "s\<lparr>ld_grouping := []\<rparr>"
    have t: "linear_inv ?t" using inv by (simp add: linear_inv_def grouping_ok_def)
    obtain u where u: "insert_grouping None 0 (gc_global c) ?t = (Inr (), u)" "has_global u"
      by (simp add: insert_grouping_def Let_def has_global_def)
    moreover have "linear_inv (snd (insert_grouping None 0 (gc_global c) ?t))"
      using keeps_insert_grouping [of "gc_global c" None 0] ok t by (simp add: keeps_def config_ok_def)
    ultimately have "Q u" by (simp add: Q_def)
    then have "Q (snd (insert_space_rows 0 (gc_spaces c) u))"
      using rows [of "gc_spaces c" 0] ok by (simp add: keeps_def config_ok_def)
    then show "linear_inv (snd (thenT (modifyT (\<lambda>s. s\<lparr>ld_grouping := []\<rparr>))
        (thenT (insert_grouping None 0 (gc_global c)) (insert_space_rows 0 (gc_spaces c))) s))"
      using u by (simp add: thenT_def bindT_def modifyT_def Q_def)
  qed
  then show ?thesis unfolding replace_grouping_def by (intro keeps_check keeps_transaction)
qed

lemma keeps_grouping_change [linear_keeps]: "keeps linear_inv (linear_grouping_change h p write)"
  unfolding linear_grouping_change_def by (intro tx_keeps linear_keeps)

section \<open>The units of work\<close>

lemma keeps_mark_work [linear_keeps]:
  "keeps linear_inv (linear_mark_set h mp known)" "keeps linear_inv (linear_mark_unmark h up)"
  "keeps linear_inv (linear_mark_clear i)" "keeps linear_inv (linear_mark_clear_ids is)"
  unfolding linear_mark_set_def linear_mark_unmark_def linear_mark_clear_def linear_mark_clear_ids_def Let_def
  by (intro tx_keeps linear_keeps)+

lemma keeps_note_work [linear_keeps]: "keeps linear_inv (linear_note_set h np known)" "keeps linear_inv (linear_note_clear i)"
  unfolding linear_note_set_replace linear_note_clear_def Let_def by (intro tx_keeps linear_keeps)+

lemma keeps_close_pending [linear_keeps]: "keeps linear_inv (close_pending i outcome now)"
  unfolding close_pending_def by (intro tx_keeps linear_keeps)

lemma keeps_show_work [linear_keeps]:
  "keeps linear_inv (linear_show_request h sp known now ttl)" "keeps linear_inv (linear_show_accept i now)"
  "keeps linear_inv (linear_show_dismiss i now)" "keeps linear_inv (linear_show_withdraw h q now)"
  unfolding linear_show_request_def linear_show_accept_def linear_show_dismiss_def linear_show_withdraw_def Let_def
  by (intro tx_keeps linear_keeps)+

lemma keeps_activity_work [linear_keeps]: "keeps linear_inv (linear_activity_record h p)"
proof -
  have link: "keeps linear_inv (link_issue h claims a issue space path)" "keeps linear_inv (suggest_issue h p claims a issue space worktree)"
    for claims a issue space path worktree
    unfolding link_issue_def suggest_issue_def by (intro tx_keeps linear_keeps)+
  have "keeps linear_inv (link_or_suggest h p claims a issue space)" for claims a issue space
    using link by (auto simp: link_or_suggest_def keeps_def split: option.split)
  then show ?thesis unfolding linear_activity_record_def Let_def
    by (auto intro!: tx_keeps linear_keeps split: option.split)
qed

section \<open>Calls\<close>

text \<open>
  Every write the daemon issues on these tables: the handlers of \<open>ops/linear_state.rs\<close>, the expiry sweep, the board
  panes, and the inserts of the importer, which writes a worktree only when neither it nor its issue is bound.
\<close>

datatype linear_call =
    LBind linear_bind_params | LSpaceBind linear_space_bind_params | LUnbind string
  | LGrouping linear_grouping_set_params bool
  | LMarkSet linear_mark_set_params bool | LMarkUnmark linear_mark_unmark_params | LMarkClear int | LMarkClearIds "int list"
  | LNoteSet linear_note_set_params bool | LNoteClear int
  | LShowRequest linear_show_request_params bool int int | LShowAccept int int | LShowDismiss int int
  | LShowWithdraw linear_show_withdraw_params int | LExpire int
  | LActivity activity_params
  | LPane new_board_pane | LPaneGone string string
  | IGlobal grouping_mapping | ISpace string grouping_mapping | ISpaceBinding space_binding | IWorktree worktree_binding
  | ISession session_scope | IRepo string string

definition import_worktree :: "(string \<Rightarrow> bool) \<Rightarrow> worktree_binding \<Rightarrow> unit lstore" where
  "import_worktree uuid b = (\<lambda>s.
     if worktree_binding s (wb_path b) = None \<and> issue_holder s (wb_issue b) (wb_path b) = None
     then set_worktree_binding uuid b s else (Inr (), s))"

fun apply_linear :: "host \<Rightarrow> linear_call \<Rightarrow> ldb \<Rightarrow> ldb" where
  "apply_linear h (LBind p) s = snd (linear_bind h p s)"
| "apply_linear h (LSpaceBind p) s = snd (linear_space_bind p s)"
| "apply_linear h (LUnbind cwd) s = snd (linear_unbind h cwd s)"
| "apply_linear h (LGrouping p write) s = snd (linear_grouping_change h p write s)"
| "apply_linear h (LMarkSet p known) s = snd (linear_mark_set h p known s)"
| "apply_linear h (LMarkUnmark p) s = snd (linear_mark_unmark h p s)"
| "apply_linear h (LMarkClear i) s = snd (linear_mark_clear i s)"
| "apply_linear h (LMarkClearIds is) s = snd (linear_mark_clear_ids is s)"
| "apply_linear h (LNoteSet p known) s = snd (linear_note_set h p known s)"
| "apply_linear h (LNoteClear i) s = snd (linear_note_clear i s)"
| "apply_linear h (LShowRequest p known now ttl) s = snd (linear_show_request h p known now ttl s)"
| "apply_linear h (LShowAccept i now) s = snd (linear_show_accept i now s)"
| "apply_linear h (LShowDismiss i now) s = snd (linear_show_dismiss i now s)"
| "apply_linear h (LShowWithdraw p now) s = snd (linear_show_withdraw h p now s)"
| "apply_linear h (LExpire now) s = snd (expire_overdue now s)"
| "apply_linear h (LActivity p) s = snd (linear_activity_record h p s)"
| "apply_linear h (LPane p) s = snd (record_board_pane p s)"
| "apply_linear h (LPaneGone socket pane) s = snd (remove_board_pane socket pane s)"
| "apply_linear h (IGlobal m) s = snd (set_grouping_global m s)"
| "apply_linear h (ISpace space m) s = snd (set_grouping_space space m s)"
| "apply_linear h (ISpaceBinding b) s = snd (set_space_binding b s)"
| "apply_linear h (IWorktree b) s = snd (import_worktree (ho_uuid h) b s)"
| "apply_linear h (ISession c) s = snd (set_session_scope c s)"
| "apply_linear h (IRepo key path) s = snd (add_scope_repo key path s)"

lemma keeps_snd: "keeps P m \<Longrightarrow> P s \<Longrightarrow> P (snd (m s))"
  by (simp add: keeps_def)

lemma keeps_import_worktree [linear_keeps]: "keeps linear_inv (import_worktree uuid b)"
  by (rule keeps_apply) (simp add: import_worktree_def set_worktree_keeps)

lemma apply_linear_keeps: "linear_inv s \<Longrightarrow> linear_inv (apply_linear h c s)"
  by (cases c) (simp_all add: keeps_snd linear_keeps)

text \<open>Between two calls only the clock moves; every call sees its own machine.\<close>

inductive linear_reachable :: "ldb \<Rightarrow> bool" where
  empty: "ld_grouping s = [] \<Longrightarrow> ld_space_bindings s = [] \<Longrightarrow> ld_worktree_bindings s = [] \<Longrightarrow> ld_session_scopes s = [] \<Longrightarrow>
    ld_scope_repos s = [] \<Longrightarrow> ld_marks s = [] \<Longrightarrow> ld_notes s = [] \<Longrightarrow> ld_shows s = [] \<Longrightarrow> ld_activity s = [] \<Longrightarrow> ld_panes s = [] \<Longrightarrow>
    linear_reachable s"
| call: "linear_reachable s \<Longrightarrow> linear_reachable (apply_linear h c s)"
| tick: "linear_reachable s \<Longrightarrow> linear_reachable (s\<lparr>ld_now := t\<rparr>)"

lemma linear_reachable_inv: "linear_reachable s \<Longrightarrow> linear_inv s"
proof (induction rule: linear_reachable.induct)
  case (empty s)
  then show ?case
    by (simp add: linear_inv_def grouping_ok_def worktrees_ok_def marks_ok_def notes_ok_def shows_ok_def activity_ok_def)
next
  case (call s h c)
  then show ?case by (simp add: apply_linear_keeps)
next
  case (tick s t)
  then show ?case by (simp add: linear_inv_def)
qed

end
