(* ===== verification/Linear_Daemon.thy ===== *)
theory Linear_Daemon
  imports Linear_Native Linear_Machine Daemon_State
begin

text \<open>
  \<open>crates/board-daemon/src/ops/linear_state.rs\<close> and \<open>watchers/expiry.rs\<close>: the handlers that serve Linear-mode local state.
  Each takes one store lock for its unit of work, then announces what changed as \<open>local_state_changed\<close>. The events are in the
  order the daemon emits them; a refetch that starts a thread is its key.
\<close>

section \<open>State\<close>

record linear_daemon =
  la_db :: ldb
  la_cache :: "(space_cache_key, fetch_plan, space_read) entries"
  la_instant :: nat
  la_passes :: "space_cache_key passes"
  la_refetches :: "space_cache_key list"  \<comment> \<open>the debounced threads started\<close>
  la_events :: "event list"

record linear_env =
  le_host :: host
  le_now :: int
  le_show_ttl :: int
  le_decoders :: decoders

type_synonym 'a lop = "(linear_daemon, error, 'a) tx"

definition on_ldb :: "'a local \<Rightarrow> 'a lop" where
  \<comment> \<open>\<open>d.store.lock().f(..).map_err(ls)\<close>\<close>
  "on_ldb m = (\<lambda>d. case m (la_db d) of
       (Inl e, s) \<Rightarrow> (Inl (local_state_error e), d\<lparr>la_db := s\<rparr>)
     | (Inr x, s) \<Rightarrow> (Inr x, d\<lparr>la_db := s\<rparr>))"

section \<open>Announcements\<close>

definition announce :: "string option \<Rightarrow> unit lop" where
  "announce space = modifyT (\<lambda>d. d\<lparr>la_events := la_events d @ [EvLocalStateChanged space False]\<rparr>)"

definition announce_spaces :: "string list \<Rightarrow> unit lop" where
  "announce_spaces spaces = forT (sorted_set spaces) (\<lambda>sp. announce (Some sp))"

definition announce_cleared :: "string option \<Rightarrow> mark list \<Rightarrow> unit lop" where
  "announce_cleared primary cleared =
     (case primary of None \<Rightarrow> returnT () | Some p \<Rightarrow> announce_spaces (filter (\<lambda>sp. sp \<noteq> p) (map mk_space cleared)))"

section \<open>The cached read\<close>

definition resolve_known :: "string option \<Rightarrow> string \<Rightarrow> string \<Rightarrow> (bool \<times> string) lop" where
  \<comment> \<open>whether the cached read lists the issue, and the identifier to store\<close>
  "resolve_known socket space issue =
     readT (\<lambda>d. case resolve_issue (la_cache d) socket space issue of Some i \<Rightarrow> (True, i) | None \<Rightarrow> (False, issue))"

definition owner_socket :: "linear_owner \<Rightarrow> string option" where
  "owner_socket w = ow_socket (clean_owner w)"

definition schedule_refetch :: "string \<Rightarrow> string \<Rightarrow> unit lop" where
  "schedule_refetch session space =
     modifyT (\<lambda>d. let key = \<lparr>sk_session = session, sk_space = space\<rparr> in
       case cache_invalidate key (la_instant d) (la_cache d) of
         (None, es) \<Rightarrow> d\<lparr>la_cache := es\<rparr>
       | (Some _, es) \<Rightarrow>
           (case schedule_pass key (la_passes d) of (spawn, ps) \<Rightarrow>
             d\<lparr>la_cache := es, la_passes := ps, la_refetches := (if spawn then la_refetches d @ [key] else la_refetches d)\<rparr>))"

definition activity_recorded :: "activity_claims \<Rightarrow> string option \<Rightarrow> unit lop" where
  "activity_recorded claims space =
     (case space of None \<Rightarrow> returnT () | Some sp \<Rightarrow> schedule_refetch (herdr_session (ac_socket claims)) sp)"

section \<open>Handlers\<close>

definition op_state_get :: "linear_env \<Rightarrow> string option \<Rightarrow> string \<Rightarrow> linear_state lop" where
  "op_state_get e socket space = readT (\<lambda>d. linear_state (la_db d) (herdr_session socket) space (le_now e))"

definition op_bind :: "linear_env \<Rightarrow> linear_bind_params \<Rightarrow> linear_bound lop" where
  "op_bind e p =
     (let space = claimed_space (bi_space p) (clean_claims (bi_claims p)) in
      bindT (on_ldb (linear_bind (le_host e) p)) (\<lambda>bound.
      thenT (announce space) (thenT (announce_cleared space (lb_cleared bound)) (returnT bound))))"

definition op_space_bind :: "linear_env \<Rightarrow> linear_space_bind_params \<Rightarrow> space_binding linear_change lop" where
  "op_space_bind e p =
     bindT (on_ldb (linear_space_bind p)) (\<lambda>change. thenT (announce (Some (lsb_space p))) (returnT change))"

record linear_unbind_params =
  ub_cwd :: string
  ub_space :: "string option"
  ub_claims :: activity_claims

definition op_unbind :: "linear_env \<Rightarrow> linear_unbind_params \<Rightarrow> worktree_binding linear_change lop" where
  "op_unbind e p =
     (let space = claimed_space (ub_space p) (clean_claims (ub_claims p)) in
      bindT (on_ldb (linear_unbind (le_host e) (ub_cwd p))) (\<lambda>change. thenT (announce space) (returnT change)))"

definition op_grouping_get :: "string option \<Rightarrow> (grouping_config option \<times> resolved_grouping option) lop" where
  "op_grouping_get space =
     readT (\<lambda>d. (get_grouping_config (la_db d), case space of Some sp \<Rightarrow> grouping_for_space (la_db d) sp | None \<Rightarrow> None))"

definition op_grouping_set :: "linear_env \<Rightarrow> linear_grouping_set_params \<Rightarrow> grouping_config linear_change lop" where
  "op_grouping_set e p =
     bindT (on_ldb (linear_grouping_change (le_host e) p True)) (\<lambda>change. thenT (announce None) (returnT change))"

definition op_grouping_preview :: "linear_env \<Rightarrow> linear_grouping_set_params \<Rightarrow> grouping_config linear_change lop" where
  "op_grouping_preview e p = on_ldb (linear_grouping_change (le_host e) p False)"

definition op_mark_set :: "linear_env \<Rightarrow> linear_mark_set_params \<Rightarrow> mark linear_replace lop" where
  "op_mark_set e p =
     bindT (resolve_known (owner_socket (ms_owner p)) (ms_space p) (ms_issue p)) (\<lambda>(known, issue).
     bindT (on_ldb (linear_mark_set (le_host e) (p\<lparr>ms_issue := issue\<rparr>) known)) (\<lambda>change.
     thenT (announce (Some (mk_space (lr_after change)))) (returnT change)))"

datatype mark_clear_reply = ClearedOne "mark linear_change" | ClearedMany "mark list"

definition mark_clear_target :: "int option \<Rightarrow> int list option \<Rightarrow> error + (int + int list)" where
  "mark_clear_target i is =
     (case (i, is) of
        (Some i, None) \<Rightarrow> Inr (Inl i)
      | (None, Some is) \<Rightarrow> Inr (Inr is)
      | _ \<Rightarrow> Inl (BadRequest [T ''linear.mark.clear takes exactly one of `id` or `ids`'']))"

definition op_mark_clear :: "int option \<Rightarrow> int list option \<Rightarrow> mark_clear_reply lop" where
  "op_mark_clear i is =
     bindT (queryT (\<lambda>_. mark_clear_target i is)) (\<lambda>target.
     case target of
       Inl i \<Rightarrow>
         bindT (on_ldb (linear_mark_clear i)) (\<lambda>change.
         thenT (announce (map_option mk_space (lc_before change))) (returnT (ClearedOne change)))
     | Inr is \<Rightarrow>
         bindT (on_ldb (linear_mark_clear_ids is)) (\<lambda>removed.
         thenT (announce_spaces (map mk_space removed)) (returnT (ClearedMany removed))))"

definition op_mark_unmark :: "linear_env \<Rightarrow> linear_mark_unmark_params \<Rightarrow> mark list lop" where
  "op_mark_unmark e p =
     bindT (resolve_known (owner_socket (mu_owner p)) (mu_space p) (mu_issue p)) (\<lambda>(_, issue).
     bindT (on_ldb (linear_mark_unmark (le_host e) (p\<lparr>mu_issue := issue\<rparr>))) (\<lambda>removed.
     thenT (announce_spaces (map mk_space removed)) (returnT removed)))"

definition op_note_set :: "linear_env \<Rightarrow> linear_note_set_params \<Rightarrow> linear_note linear_replace lop" where
  "op_note_set e p =
     bindT (resolve_known (owner_socket (np_owner p)) (np_space p) (np_issue p)) (\<lambda>(known, issue).
     bindT (on_ldb (linear_note_set (le_host e) (p\<lparr>np_issue := issue\<rparr>) known)) (\<lambda>change.
     thenT (announce (Some (nt_space (lr_after change)))) (returnT change)))"

definition op_note_clear :: "int \<Rightarrow> linear_note linear_change lop" where
  "op_note_clear i =
     bindT (on_ldb (linear_note_clear i)) (\<lambda>change.
     thenT (announce (map_option nt_space (lc_before change))) (returnT change))"

definition op_show_request :: "linear_env \<Rightarrow> linear_show_request_params \<Rightarrow> show_request linear_change lop" where
  "op_show_request e p =
     bindT (resolve_known (owner_socket (sp_owner p)) (sp_space p) (sp_issue p)) (\<lambda>(known, issue).
     bindT (on_ldb (linear_show_request (le_host e) (p\<lparr>sp_issue := issue\<rparr>) known (le_now e) (le_show_ttl e))) (\<lambda>change.
     thenT (announce (map_option sh_space (lc_after change))) (returnT change)))"

definition op_show_accept :: "linear_env \<Rightarrow> int \<Rightarrow> show_request linear_change lop" where
  "op_show_accept e i =
     bindT (on_ldb (linear_show_accept i (le_now e))) (\<lambda>change.
     thenT (announce (map_option sh_space (lc_before change))) (returnT change))"

definition op_show_dismiss :: "linear_env \<Rightarrow> int \<Rightarrow> show_request linear_change lop" where
  "op_show_dismiss e i =
     bindT (on_ldb (linear_show_dismiss i (le_now e))) (\<lambda>change.
     thenT (announce (map_option sh_space (lc_before change))) (returnT change))"

definition op_show_withdraw :: "linear_env \<Rightarrow> linear_show_withdraw_params \<Rightarrow> show_request linear_change lop" where
  "op_show_withdraw e p =
     bindT (resolve_known (owner_socket (sw_owner p)) (sw_space p) (sw_issue p)) (\<lambda>(_, issue).
     bindT (on_ldb (linear_show_withdraw (le_host e) (p\<lparr>sw_issue := issue\<rparr>) (le_now e))) (\<lambda>change.
     thenT (announce (map_option sh_space (lc_before change))) (returnT change)))"

definition op_session_get :: "linear_env \<Rightarrow> linear_session_get_params \<Rightarrow> (linear_session_result \<times> string option) lop" where
  \<comment> \<open>with the column of the bound issue\<close>
  "op_session_get e p =
     readT (\<lambda>d. let r = linear_session_get (le_host e) (la_db d) p (le_now e) in
       (r, case sres_binding r of None \<Rightarrow> None
           | Some (_, issue, _) \<Rightarrow> cached_column (le_decoders e) (la_db d) (la_cache d) (sg_get_socket p) (sg_get_space p) issue))"

definition op_activity_record :: "linear_env \<Rightarrow> activity_params \<Rightarrow> activity_result lop" where
  "op_activity_record e p =
     (let claims = clean_claims (ap_claims p) in
      bindT (case (claimed_space (ap_space p) claims, ap_issue p) of
          (Some space, Some issue) \<Rightarrow>
            bindT (resolve_known (ac_socket claims) space issue) (\<lambda>(_, issue). returnT (p\<lparr>ap_issue := Some issue\<rparr>))
        | _ \<Rightarrow> returnT p) (\<lambda>p.
      bindT (on_ldb (linear_activity_record (le_host e) p)) (\<lambda>result.
      (let space = av_space (ar_activity result) in
       thenT (activity_recorded claims space)
       (thenT (announce space)
       (thenT (announce_cleared space (ar_cleared result)) (returnT result)))))))"

definition op_activity_list :: "string option \<Rightarrow> nat option \<Rightarrow> string option \<Rightarrow> linear_activity list lop" where
  "op_activity_list space limit socket = readT (\<lambda>d. linear_activity_list (la_db d) space limit socket)"

definition sweep_show_requests_at :: "int \<Rightarrow> string list lop" where
  \<comment> \<open>a failed sweep is logged and announces nothing\<close>
  "sweep_show_requests_at now = (\<lambda>d.
     case expire_overdue now (la_db d) of
       (Inl e, s) \<Rightarrow> (Inr [], d\<lparr>la_db := s\<rparr>)
     | (Inr spaces, s) \<Rightarrow> thenT (forT spaces (\<lambda>sp. announce (Some sp))) (returnT spaces) (d\<lparr>la_db := s\<rparr>))"

section \<open>Routing\<close>

datatype linear_request =
    ReqStateGet "string option" string
  | ReqBind linear_bind_params | ReqSpaceBind linear_space_bind_params | ReqUnbind linear_unbind_params
  | ReqGroupingGet "string option" | ReqGroupingSet linear_grouping_set_params | ReqGroupingPreview linear_grouping_set_params
  | ReqMarkSet linear_mark_set_params | ReqMarkClear "int option" "int list option" | ReqMarkUnmark linear_mark_unmark_params
  | ReqNoteSet linear_note_set_params | ReqNoteClear int
  | ReqShowRequest linear_show_request_params | ReqShowAccept int | ReqShowDismiss int | ReqShowWithdraw linear_show_withdraw_params
  | ReqSessionGet linear_session_get_params
  | ReqActivityRecord activity_params | ReqActivityList "string option" "nat option" "string option"

datatype linear_reply =
    RepState linear_state | RepBound linear_bound | RepSpaceBinding "space_binding linear_change"
  | RepWorktree "worktree_binding linear_change" | RepGrouping "grouping_config option \<times> resolved_grouping option"
  | RepGroupingChange "grouping_config linear_change" | RepMark "mark linear_replace" | RepMarkClear mark_clear_reply
  | RepMarks "mark list" | RepNote "linear_note linear_replace" | RepNoteChange "linear_note linear_change"
  | RepShow "show_request linear_change" | RepSession "linear_session_result \<times> string option"
  | RepActivity activity_result | RepActivities "linear_activity list"

definition mapT :: "('a \<Rightarrow> 'b) \<Rightarrow> 'a lop \<Rightarrow> 'b lop" where
  "mapT f m = bindT m (\<lambda>x. returnT (f x))"

fun handle_linear :: "linear_env \<Rightarrow> linear_request \<Rightarrow> linear_reply lop" where
  "handle_linear e (ReqStateGet socket space) = mapT RepState (op_state_get e socket space)"
| "handle_linear e (ReqBind p) = mapT RepBound (op_bind e p)"
| "handle_linear e (ReqSpaceBind p) = mapT RepSpaceBinding (op_space_bind e p)"
| "handle_linear e (ReqUnbind p) = mapT RepWorktree (op_unbind e p)"
| "handle_linear e (ReqGroupingGet space) = mapT RepGrouping (op_grouping_get space)"
| "handle_linear e (ReqGroupingSet p) = mapT RepGroupingChange (op_grouping_set e p)"
| "handle_linear e (ReqGroupingPreview p) = mapT RepGroupingChange (op_grouping_preview e p)"
| "handle_linear e (ReqMarkSet p) = mapT RepMark (op_mark_set e p)"
| "handle_linear e (ReqMarkClear i is) = mapT RepMarkClear (op_mark_clear i is)"
| "handle_linear e (ReqMarkUnmark p) = mapT RepMarks (op_mark_unmark e p)"
| "handle_linear e (ReqNoteSet p) = mapT RepNote (op_note_set e p)"
| "handle_linear e (ReqNoteClear i) = mapT RepNoteChange (op_note_clear i)"
| "handle_linear e (ReqShowRequest p) = mapT RepShow (op_show_request e p)"
| "handle_linear e (ReqShowAccept i) = mapT RepShow (op_show_accept e i)"
| "handle_linear e (ReqShowDismiss i) = mapT RepShow (op_show_dismiss e i)"
| "handle_linear e (ReqShowWithdraw p) = mapT RepShow (op_show_withdraw e p)"
| "handle_linear e (ReqSessionGet p) = mapT RepSession (op_session_get e p)"
| "handle_linear e (ReqActivityRecord p) = mapT RepActivity (op_activity_record e p)"
| "handle_linear e (ReqActivityList space limit socket) = mapT RepActivities (op_activity_list space limit socket)"

end
