(* ===== verification/Linear_Properties.thy ===== *)
theory Linear_Properties
  imports Linear_Machine
begin

text \<open>The properties of the Linear local state (\<open>db/linear_state.rs\<close>, \<open>db/linear_writes.rs\<close>).\<close>

section \<open>Stored grouping config\<close>

lemma insert_space_rows_run:
  assumes "distinct (map sg_space es)" "\<And>e. e \<in> set es \<Longrightarrow> Some (sg_space e) \<notin> gg_space ` set (ld_grouping s)"
    "\<And>r. r \<in> set (ld_grouping s) \<Longrightarrow> gg_space r \<noteq> None \<Longrightarrow> gg_position r < i"
  shows "\<exists>rows. insert_space_rows i es s = (Inr (), s\<lparr>ld_grouping := ld_grouping s @ rows\<rparr>) \<and>
    map gg_space rows = map (\<lambda>e. Some (sg_space e)) es \<and> map gg_mapping rows = map sg_mapping es \<and>
    sorted (map gg_position rows)\<and> (\<forall>r \<in> set rows. i \<le> gg_position r)"
  using assms
proof (induction es arbitrary: i s)
  case Nil
  have "insert_space_rows i [] s = (Inr (), s\<lparr>ld_grouping := ld_grouping s @ []\<rparr>)" by (simp add: returnT_def)
  then show ?case by (intro exI [of _ "[]"]) simp
next
  case (Cons e es)
  define r where "r = \<lparr>gg_id = next_id gg_id (ld_grouping s), gg_space = Some (sg_space e), gg_position = i,
      gg_mapping = sg_mapping e, gg_updated_at = ld_now s\<rparr>"
  define t where "t = s\<lparr>ld_grouping := ld_grouping s @ [r]\<rparr>"
  have old: "gg_space x \<noteq> Some (sg_space e)" if "x \<in> set (ld_grouping s)" for x
    using Cons.prems(2) [of e] that by (auto simp: image_iff)
  have "\<not> list_ex (grouping_conflict r) (ld_grouping s)"
    using old Cons.prems(3) by (fastforce simp: list_ex_iff grouping_conflict_def r_def)
  then have step: "insert_grouping (Some (sg_space e)) i (sg_mapping e) s = (Inr (), t)"
    by (simp add: insert_grouping_def Let_def t_def r_def)
  have "\<exists>rows. insert_space_rows (i + 1) es t = (Inr (), t\<lparr>ld_grouping := ld_grouping t @ rows\<rparr>) \<and>
      map gg_space rows = map (\<lambda>e. Some (sg_space e)) es \<and> map gg_mapping rows = map sg_mapping es \<and>
      sorted (map gg_position rows) \<and> (\<forall>x \<in> set rows. i + 1 \<le> gg_position x)"
  proof (rule Cons.IH)
    show "Some (sg_space e') \<notin> gg_space ` set (ld_grouping t)" if "e' \<in> set es" for e'
      using that Cons.prems(1) Cons.prems(2) [of e'] by (auto simp: t_def r_def) (metis image_eqI)
    show "gg_position x < i + 1" if "x \<in> set (ld_grouping t)" "gg_space x \<noteq> None" for x
      using that Cons.prems(3) by (fastforce simp: t_def r_def)
  qed (use Cons.prems(1) in simp)
  then obtain rows where rows: "insert_space_rows (i + 1) es t = (Inr (), t\<lparr>ld_grouping := ld_grouping t @ rows\<rparr>)"
      "map gg_space rows = map (\<lambda>e. Some (sg_space e)) es" "map gg_mapping rows = map sg_mapping es"
      "sorted (map gg_position rows)" "\<And>x. x \<in> set rows \<Longrightarrow> i + 1 \<le> gg_position x" by blast
  have "insert_space_rows i (e # es) s = (Inr (), s\<lparr>ld_grouping := ld_grouping s @ r # rows\<rparr>)"
    by (simp add: thenT_def bindT_def step rows(1)) (simp add: t_def)
  moreover have "sorted (map gg_position (r # rows)) \<and> (\<forall>x \<in> set (r # rows). i \<le> gg_position x)"
    using rows(4,5) by (fastforce simp: r_def)
  ultimately show ?case using rows(2,3) by (intro exI [of _ "r # rows"]) (simp add: r_def)
qed

lemma replace_grouping_run:
  assumes ok: "config_ok c"
  shows "\<exists>rows. replace_grouping c s = (Inr (), s\<lparr>ld_grouping := rows\<rparr>) \<and> get_grouping_config (s\<lparr>ld_grouping := rows\<rparr>) = Some c"
proof -
  define g where "g = \<lparr>gg_id = 1, gg_space = None, gg_position = 0, gg_mapping = gc_global c, gg_updated_at = ld_now s\<rparr>"
  define t where "t = s\<lparr>ld_grouping := [g]\<rparr>"
  have first: "insert_grouping None 0 (gc_global c) (s\<lparr>ld_grouping := []\<rparr>) = (Inr (), t)"
    by (simp add: insert_grouping_def Let_def next_id_def t_def g_def)
  have "distinct (map sg_space (gc_spaces c))" using ok by (simp add: config_ok_def)
  then obtain rows where rows: "insert_space_rows 0 (gc_spaces c) t = (Inr (), t\<lparr>ld_grouping := ld_grouping t @ rows\<rparr>)"
      "map gg_space rows = map (\<lambda>e. Some (sg_space e)) (gc_spaces c)" "map gg_mapping rows = map sg_mapping (gc_spaces c)"
      "sorted (map gg_position rows)"
    using insert_space_rows_run [of "gc_spaces c" t 0] by (auto simp: t_def g_def)
  have run: "replace_grouping c s = (Inr (), s\<lparr>ld_grouping := g # rows\<rparr>)"
    using ok rows(1) first
    by (simp add: replace_grouping_def checkT_run transaction_def thenT_def bindT_def modifyT_def flip: validate_config_ok)
      (simp add: t_def)
  have some: "gg_space r \<noteq> None" if "r \<in> set rows" for r
    using that arg_cong [OF rows(2), of set] by (force simp del: set_map simp: set_map)
  then have "filter (\<lambda>r. gg_space r \<noteq> None) (g # rows) = rows" by (simp add: g_def filter_id_conv)
  then have "space_rows (s\<lparr>ld_grouping := g # rows\<rparr>) = rows"
    using rows(4) by (simp add: space_rows_def sort_key_id_if_sorted)
  moreover have "map (\<lambda>r. \<lparr>sg_space = the (gg_space r), sg_mapping = gg_mapping r\<rparr>) rows = gc_spaces c"
  proof (rule nth_equalityI)
    show len: "length (map (\<lambda>r. \<lparr>sg_space = the (gg_space r), sg_mapping = gg_mapping r\<rparr>) rows) = length (gc_spaces c)"
      using arg_cong [OF rows(2), of length] by simp
    show "map (\<lambda>r. \<lparr>sg_space = the (gg_space r), sg_mapping = gg_mapping r\<rparr>) rows ! i = gc_spaces c ! i"
      if "i < length (map (\<lambda>r. \<lparr>sg_space = the (gg_space r), sg_mapping = gg_mapping r\<rparr>) rows)" for i
      using that len arg_cong [OF rows(2), of "\<lambda>l. l ! i"] arg_cong [OF rows(3), of "\<lambda>l. l ! i"] by simp
  qed
  ultimately have "get_grouping_config (s\<lparr>ld_grouping := g # rows\<rparr>) = Some c"
    by (simp add: get_grouping_config_def global_row_def g_def)
  with run show ?thesis by blast
qed

text \<open>
  C35: A grouping change writes exactly what its preview shows. The preview writes nothing; the write gives the same
  answer, refused or not; a refusal leaves the store as it was; and after a success the stored config, read back, is
  the answer's \<open>after\<close>, it passes the validation, and no other table has changed.
\<close>
theorem grouping_write_is_its_preview:
  "fst (linear_grouping_change h p True s) = fst (linear_grouping_change h p False s) \<and>
   snd (linear_grouping_change h p False s) = s \<and>
   (case linear_grouping_change h p True s of
      (Inl e, t) \<Rightarrow> t = s
    | (Inr change, t) \<Rightarrow>
        lc_before change = get_grouping_config s \<and> lc_after change = get_grouping_config t \<and>
        (case lc_after change of None \<Rightarrow> False | Some c \<Rightarrow> config_ok c) \<and> t = s\<lparr>ld_grouping := ld_grouping t\<rparr>)"
proof (cases "changed_grouping h p (get_grouping_config s)")
  case (Inl e)
  then show ?thesis by (simp add: linear_grouping_change_def bindT_def readT_def queryT_def)
next
  case (Inr c)
  show ?thesis
  proof (cases "validate_config c")
    case (Inl e)
    then show ?thesis using \<open>changed_grouping _ _ _ = _\<close>
      by (simp add: linear_grouping_change_def bindT_def thenT_def readT_def queryT_def storeT_def)
  next
    case (Inr u)
    then have ok: "config_ok c" by (simp flip: validate_config_ok)
    obtain rows where "replace_grouping c s = (Inr (), s\<lparr>ld_grouping := rows\<rparr>)"
        "get_grouping_config (s\<lparr>ld_grouping := rows\<rparr>) = Some c"
      using replace_grouping_run [OF ok] by blast
    then show ?thesis using \<open>changed_grouping _ _ _ = _\<close> Inr ok
      by (simp add: linear_grouping_change_def bindT_def thenT_def readT_def queryT_def storeT_def returnT_def)
  qed
qed

text \<open>
  The validator accepts exactly the configs the board can group by: a mapping names at least one level, every level
  is one of the four, every kind is a single-valued field, a label group with a usable name, a ticket or a sub-ticket,
  no kind is used twice, and the filter holds known keys with values of the right type; no space is mapped twice.
\<close>
theorem validator_accepts_good_configs: "validate_config c = Inr () \<longleftrightarrow> config_ok c"
  by (rule validate_config_ok)

section \<open>Every reachable state\<close>

lemma stored_config_ok:
  assumes "grouping_ok (ld_grouping s)"
  shows "case get_grouping_config s of None \<Rightarrow> ld_grouping s = [] | Some c \<Rightarrow> config_ok c"
proof (cases "global_row s")
  case None
  then have "None \<notin> gg_space ` set (ld_grouping s)" by (auto simp: global_row_def find_None_iff)
  then show ?thesis using assms None by (auto simp: get_grouping_config_def grouping_ok_def)
next
  case (Some g)
  define rows where "rows = space_rows s"
  have rows: "set rows = {r \<in> set (ld_grouping s). gg_space r \<noteq> None}" by (auto simp: rows_def space_rows_def)
  have "distinct (map gg_space rows)"
    using assms by (auto simp: rows_def space_rows_def grouping_ok_def distinct_map inj_on_def)
  then have "distinct (map (\<lambda>r. the (gg_space r)) rows)"
    using rows by (auto simp: distinct_map inj_on_def)
  moreover have "mapping_ok (gg_mapping g)" using Some assms by (auto simp: global_row_def grouping_ok_def dest!: find_SomeD)
  moreover have "text_ok (the (gg_space r)) \<and> mapping_ok (gg_mapping r)" if "r \<in> set rows" for r
    using that assms rows by (fastforce simp: grouping_ok_def split: option.splits)
  ultimately show ?thesis using Some by (auto simp: get_grouping_config_def config_ok_def comp_def simp flip: rows_def)
qed

text \<open>
  C23: The Linear local state stays sound whatever the clients, the importer and the sweeps do, in any order. A worktree is
  bound to one issue and an issue to one worktree; an asker has at most one mark of a kind on an issue of a space, an
  author one note; a show-request is answered exactly when it is acknowledged; a session keeps at most 500 activity
  rows of a space; and the stored grouping config, if there is one, passes its own validation.
\<close>
theorem linear_state_is_sound:
  assumes "linear_reachable s"
  shows "distinct (map wb_path (ld_worktree_bindings s)) \<and> distinct (map wb_issue (ld_worktree_bindings s)) \<and>
    distinct (map mark_key (ld_marks s)) \<and> distinct (map note_key (ld_notes s)) \<and>
    list_all (\<lambda>r. (sh_outcome r = None) = (sh_acknowledged_at r = None)) (ld_shows s) \<and>
    length (list_activity s session space n) \<le> 500 \<and>
    (case get_grouping_config s of None \<Rightarrow> ld_grouping s = [] | Some c \<Rightarrow> validate_config c = Inr ())"
proof -
  have inv: "linear_inv s" using assms by (rule linear_reachable_inv)
  have "length (list_activity s session space n) \<le> length (filter (activity_of session space) (ld_activity s))"
    by (simp add: list_activity_def newest_activity_def)
  also have "\<dots> \<le> 500" using linear_parts(9) [OF inv] by (simp add: activity_ok_def activity_keep_def)
  finally show ?thesis
    using linear_parts [OF inv] stored_config_ok [of s] validate_config_ok
    by (simp add: worktrees_ok_def marks_ok_def notes_ok_def shows_ok_def list_all_iff split: option.splits)
qed

section \<open>A sample machine\<close>

definition sample_host :: host where
  "sample_host = \<lparr>ho_uuid = (\<lambda>_. False), ho_canonicalize = Inr, ho_has_git = (\<lambda>p. p = ''/w/a'' \<or> p = ''/w/b''),
     ho_tokens = (\<lambda>_. Inl ''no text''), ho_decode_config = (\<lambda>_. Inl ''no config''), ho_decode_mapping = (\<lambda>_. Inl ''no mapping'')\<rparr>"

definition sample_ldb :: ldb where
  "sample_ldb = \<lparr>ld_grouping = [], ld_space_bindings = [], ld_worktree_bindings = [], ld_session_scopes = [], ld_scope_repos = [],
     ld_marks = [], ld_notes = [], ld_shows = [], ld_activity = [], ld_panes = [], ld_now = ''1970-01-01 00:00:00'',
     ld_datetime = (\<lambda>n. if n = 60 then Some ''1970-01-01 00:01:00'' else None)\<rparr>"

definition sample_owner :: linear_owner where
  "sample_owner = \<lparr>ow_socket = None, ow_pane = Some ''p1'', ow_claude = None\<rparr>"

definition sample_claims :: activity_claims where
  "sample_claims = \<lparr>ac_socket = None, ac_pane = None, ac_workspace = None, ac_card_id = None, ac_run_id = None\<rparr>"

definition sample_bind :: "string \<Rightarrow> string \<Rightarrow> linear_bind_params" where
  "sample_bind cwd issue = \<lparr>bi_cwd = cwd, bi_issue = issue, bi_space = None, bi_branch = None, bi_tab = None,
     bi_display_name = None, bi_claims = sample_claims\<rparr>"

definition sample_mark :: "mark_kind \<Rightarrow> linear_mark_set_params" where
  "sample_mark kind = \<lparr>ms_space = ''w1'', ms_issue = ''WEB-1'', ms_kind = kind, ms_text = None, ms_created_by = None, ms_owner = sample_owner\<rparr>"

definition sample_linear :: ldb where
  \<comment> \<open>one worktree bound, its issue marked twice by the same caller\<close>
  "sample_linear = apply_linear sample_host (LMarkSet (sample_mark Question) False)
     (apply_linear sample_host (LMarkSet (sample_mark Question) False)
       (apply_linear sample_host (LBind (sample_bind ''/w/a/src'' ''WEB-1'')) sample_ldb))"

lemma sample_linear_reachable: "linear_reachable sample_linear"
proof -
  have "linear_reachable sample_ldb" by (rule linear_reachable.empty) (simp_all add: sample_ldb_def)
  then show ?thesis unfolding sample_linear_def by (intro linear_reachable.call)
qed

theorem linear_state_is_sound_witness:
  "map wb_issue (ld_worktree_bindings sample_linear) = [''WEB-1''] \<and> length (ld_marks sample_linear) = 1 \<and>
   distinct (map mark_key (ld_marks sample_linear)) \<and> length (list_activity sample_linear ''default'' None 7) \<le> 500"
proof -
  have "map wb_issue (ld_worktree_bindings sample_linear) = [''WEB-1'']" "length (ld_marks sample_linear) = 1" by code_simp+
  then show ?thesis using linear_state_is_sound [OF sample_linear_reachable, of "''default''" None 7] by simp
qed

section \<open>Marks belong to who set them\<close>

definition own_mark :: "linear_owner \<Rightarrow> string \<Rightarrow> string \<Rightarrow> mark_kind option \<Rightarrow> mark_row \<Rightarrow> bool" where
  "own_mark owner space issue kind r \<longleftrightarrow>
     mk_owner r = owner \<and> mk_session r = herdr_session (ow_socket owner) \<and> mk_space r = space \<and> mk_issue r = issue \<and>
     (case kind of None \<Rightarrow> True | Some k \<Rightarrow> mk_kind r = k)"

lemma local_check_run: "local_check b r s = (if b then Inr () else Inl (Rejection r), s)"
  by (simp add: local_check_def ensureT_def returnT_def throwT_def)

lemma require_known_run:
  "(\<exists>e. require_known h session space issue known s = (Inl e, s)) \<or>
   (require_known h session space issue known s = (Inr (), s) \<and> (known \<or> issue_has_local_state s session space issue))"
  by (simp add: require_known_def thenT_def bindT_def check_space_def check_issue_def local_check_run)

lemma replace_mark_fails: "replace_mark h m s = (Inl e, t) \<Longrightarrow> t = s"
  by (auto simp: replace_mark_def transaction_def split: prod.splits sum.splits)

lemma mark_set_run:
  assumes reach: "linear_reachable s" and owner: "owner = clean_owner (ms_owner p)"
  shows "case linear_mark_set h p known s of
      (Inl e, t) \<Rightarrow> t = s
    | (Inr res, t) \<Rightarrow> ms_kind p \<noteq> Suggestion \<and> (known \<or> issue_has_local_state s (herdr_session (ow_socket owner)) (ms_space p) (ms_issue p)) \<and>
        lr_before res = map mark.truncate (filter (own_mark owner (ms_space p) (ms_issue p) (Some (ms_kind p))) (ld_marks s)) \<and>
        (\<exists>new. own_mark owner (ms_space p) (ms_issue p) (Some (ms_kind p)) new \<and> lr_after res = mark.truncate new \<and>
           t = s\<lparr>ld_marks := filter (\<lambda>r. \<not> own_mark owner (ms_space p) (ms_issue p) (Some (ms_kind p)) r) (ld_marks s) @ [new]\<rparr>)"
proof (cases "linear_mark_set h p known s")
  case (Pair r t)
  define session where "session = herdr_session (ow_socket owner)"
  define m where "m = \<lparr>nm_session = session, nm_space = ms_space p, nm_issue = ms_issue p, nm_kind = ms_kind p,
         nm_text = map_option strip_control_keep_lines (ms_text p), nm_detail = None,
         nm_created_by = opt_line (ms_created_by p), nm_owner = owner\<rparr>"
  have def: "linear_mark_set h p known = thenT (local_check (ms_kind p \<noteq> Suggestion)
        (Refused [T ''mark kind suggestion is set only by the board, from a reported Linear write; a mark is attention, question or done'']))
      (thenT (require_known h session (ms_space p) (ms_issue p) known) (replace_mark h m))"
    by (simp add: linear_mark_set_def Let_def m_def session_def owner)
  have mine: "mark_key r = new_mark_key m \<longleftrightarrow> own_mark owner (ms_space p) (ms_issue p) (Some (ms_kind p)) r" for r :: mark_row
    by (auto simp: m_def own_mark_def session_def)
  show ?thesis
  proof (cases r)
    case (Inl e)
    then show ?thesis using Pair require_known_run [of h session "ms_space p" "ms_issue p" known s] replace_mark_fails [of h m s]
      unfolding def by (auto simp: thenT_def bindT_def local_check_run split: if_splits)
  next
    case (Inr res)
    have ok: "ms_kind p \<noteq> Suggestion" "known \<or> issue_has_local_state s session (ms_space p) (ms_issue p)"
      "replace_mark h m s = (Inr res, t)"
      using Pair Inr require_known_run [of h session "ms_space p" "ms_issue p" known s]
      unfolding def by (auto simp: thenT_def bindT_def local_check_run split: if_splits)
    have ids: "increasing mk_id (ld_marks s)"
      using linear_parts(6) [OF linear_reachable_inv [OF reach]] by (simp add: marks_ok_def)
    note run = replace_mark_run [OF ids ok(3)]
    have "own_mark owner (ms_space p) (ms_issue p) (Some (ms_kind p)) (new_mark_row (without_mark m s) m)"
      by (simp add: new_mark_row_def mine [symmetric])
    moreover have "t = s\<lparr>ld_marks := filter (\<lambda>r. \<not> own_mark owner (ms_space p) (ms_issue p) (Some (ms_kind p)) r) (ld_marks s) @
        [new_mark_row (without_mark m s) m]\<rparr>"
      unfolding run(1) with_mark_def Let_def without_mark_def mine by simp
    moreover have "lr_before res = map mark.truncate (filter (own_mark owner (ms_space p) (ms_issue p) (Some (ms_kind p))) (ld_marks s))"
      unfolding run(2) mine by simp
    ultimately show ?thesis using Pair Inr ok(1,2) run(3) by (auto simp: session_def)
  qed
qed

lemma mark_unmark_run:
  assumes reach: "linear_reachable s" and owner: "owner = clean_owner (mu_owner q)"
  shows "case linear_mark_unmark h q s of
      (Inl e, t) \<Rightarrow> t = s
    | (Inr removed, t) \<Rightarrow> \<not> is_anonymous owner \<and>
        removed = map mark.truncate (filter (own_mark owner (mu_space q) (mu_issue q) (mu_kind q)) (ld_marks s)) \<and>
        t = s\<lparr>ld_marks := filter (\<lambda>r. \<not> own_mark owner (mu_space q) (mu_issue q) (mu_kind q) r) (ld_marks s)\<rparr>"
proof -
  define session where "session = herdr_session (ow_socket owner)"
  define old where "old = filter (\<lambda>m. (case mu_kind q of None \<Rightarrow> True | Some k \<Rightarrow> k = mk_kind m) \<and> mk_owner m = owner)
      (space_issue_marks s session (mu_space q) (mu_issue q))"
  have ids: "increasing mk_id (ld_marks s)"
    using linear_parts(6) [OF linear_reachable_inv [OF reach]] by (simp add: marks_ok_def)
  have "space_issue_marks s session (mu_space q) (mu_issue q) = map mark.truncate
      (filter (\<lambda>r. mk_session r = session \<and> mk_space r = mu_space q \<and> mk_issue r = mu_issue q) (ld_marks s))"
    unfolding space_issue_marks_def marks_where_def by (simp only: increasing_sort [OF increasing_filter [OF ids]])
  then have old: "old = map mark.truncate (filter (own_mark owner (mu_space q) (mu_issue q) (mu_kind q)) (ld_marks s))"
    by (auto simp: old_def filter_map comp_def own_mark_def session_def intro!: arg_cong [where f = "map mark.truncate"] filter_cong
        split: option.splits)
  then have "mk_id ` set old = mk_id ` {r \<in> set (ld_marks s). own_mark owner (mu_space q) (mu_issue q) (mu_kind q) r}"
    by (auto simp: image_iff)
  then have kept: "filter (\<lambda>r. mk_id r \<notin> mk_id ` set old) (ld_marks s) =
      filter (\<lambda>r. \<not> own_mark owner (mu_space q) (mu_issue q) (mu_kind q) r) (ld_marks s)"
    using filter_ids [OF increasing_distinct [OF ids]] by simp
  have "remove_marks (map mk_id old) s =
      (Inr (), s\<lparr>ld_marks := filter (\<lambda>r. \<not> own_mark owner (mu_space q) (mu_issue q) (mu_kind q) r) (ld_marks s)\<rparr>)"
    unfolding remove_marks_run by (simp add: kept)
  then show ?thesis
    using old [unfolded old_def]
    by (simp add: linear_mark_unmark_def check_space_def check_issue_def require_owner_def thenT_def bindT_def local_check_run
        readT_def returnT_def transaction_def storeT_def flip: owner session_def old_def)
qed

text \<open>
  C33: A caller changes only its own marks. Setting a mark replaces the caller's mark of that kind on that issue and space
  and no other row: the store afterwards is the old one without it and with the new one at the end, the answer's
  \<open>before\<close> and \<open>after\<close> are these rows, and the issue was known to the board. Unmarking removes exactly the caller's
  marks it names and needs a caller that can be told from others. A refusal changes nothing.
\<close>
theorem callers_change_own_marks:
  assumes "linear_reachable s" and "set_owner = clean_owner (ms_owner p)" and "unmark_owner = clean_owner (mu_owner q)"
  shows "(case linear_mark_set h p known s of
      (Inl e, t) \<Rightarrow> t = s
    | (Inr res, t) \<Rightarrow> ms_kind p \<noteq> Suggestion \<and>
        (known \<or> issue_has_local_state s (herdr_session (ow_socket set_owner)) (ms_space p) (ms_issue p)) \<and>
        lr_before res = map mark.truncate (filter (own_mark set_owner (ms_space p) (ms_issue p) (Some (ms_kind p))) (ld_marks s)) \<and>
        (\<exists>new. own_mark set_owner (ms_space p) (ms_issue p) (Some (ms_kind p)) new \<and> lr_after res = mark.truncate new \<and>
           t = s\<lparr>ld_marks := filter (\<lambda>r. \<not> own_mark set_owner (ms_space p) (ms_issue p) (Some (ms_kind p)) r) (ld_marks s) @ [new]\<rparr>)) \<and>
    (case linear_mark_unmark h q s of
      (Inl e, t) \<Rightarrow> t = s
    | (Inr removed, t) \<Rightarrow> \<not> is_anonymous unmark_owner \<and>
        removed = map mark.truncate (filter (own_mark unmark_owner (mu_space q) (mu_issue q) (mu_kind q)) (ld_marks s)) \<and>
        t = s\<lparr>ld_marks := filter (\<lambda>r. \<not> own_mark unmark_owner (mu_space q) (mu_issue q) (mu_kind q) r) (ld_marks s)\<rparr>)"
  by (intro conjI mark_set_run mark_unmark_run assms)

theorem callers_change_own_marks_witness:
  "(case linear_mark_set sample_host (sample_mark Question) False sample_linear of
      (Inl e, t) \<Rightarrow> False | (Inr res, t) \<Rightarrow> length (lr_before res) = 1 \<and> length (ld_marks t) = 1) \<and>
   (case linear_mark_unmark sample_host \<lparr>mu_space = ''w1'', mu_issue = ''WEB-1'', mu_kind = None, mu_owner = sample_owner\<rparr> sample_linear of
      (Inl e, t) \<Rightarrow> False | (Inr removed, t) \<Rightarrow> length removed = 1 \<and> ld_marks t = [])"
proof -
  let ?q = "\<lparr>mu_space = ''w1'', mu_issue = ''WEB-1'', mu_kind = None, mu_owner = sample_owner\<rparr>"
  have marks: "map (\<lambda>r. own_mark sample_owner ''w1'' ''WEB-1'' (Some Question) r) (ld_marks sample_linear) = [True]"
    "map (\<lambda>r. own_mark sample_owner ''w1'' ''WEB-1'' None r) (ld_marks sample_linear) = [True]" by code_simp+
  have ran: "\<not> isl (fst (linear_mark_set sample_host (sample_mark Question) False sample_linear))"
    "\<not> isl (fst (linear_mark_unmark sample_host ?q sample_linear))" by code_simp+
  have owner: "sample_owner = clean_owner (ms_owner (sample_mark Question))" "sample_owner = clean_owner (mu_owner ?q)" by code_simp+
  from marks obtain r where r: "ld_marks sample_linear = [r]" by (cases "ld_marks sample_linear") auto
  have "ms_space (sample_mark Question) = ''w1''" "ms_issue (sample_mark Question) = ''WEB-1''" "ms_kind (sample_mark Question) = Question"
    by (simp_all add: sample_mark_def)
  then show ?thesis
    using callers_change_own_marks [OF sample_linear_reachable owner, where h = sample_host and known = False] marks r ran
    by (auto split: prod.splits sum.splits)
qed

end
