(* ===== verification/Linear_Requests.thy ===== *)
theory Linear_Requests
  imports Linear_Properties
begin

text \<open>The properties of show-requests and of reported activity (\<open>db/linear_writes.rs\<close>).\<close>

section \<open>Answering\<close>

definition answer :: "show_outcome \<Rightarrow> string \<Rightarrow> show_row \<Rightarrow> show_row" where
  "answer outcome now r = r\<lparr>sh_outcome := Some outcome, sh_acknowledged_at := Some now\<rparr>"

lemma find_show_lookup: "find_show s i = map_option show_request.truncate (lookup sh_id i (ld_shows s))"
  by (simp add: find_show_def)

lemma close_show_run:
  assumes ids: "increasing sh_id (ld_shows s)" and r: "lookup sh_id i (ld_shows s) = Some r"
    and open_row: "sh_outcome r = None" "sh_acknowledged_at r = None"
  shows "close_show_request i outcome s = (Inr True, s\<lparr>ld_shows := update_where (\<lambda>x. sh_id x = i) (answer outcome (ld_now s)) (ld_shows s)\<rparr>)"
proof -
  have row: "r \<in> set (ld_shows s)" "sh_id r = i" using lookup_Some [OF r] by auto
  have only: "x = r" if "x \<in> set (ld_shows s)" "sh_id x = i" for x
    using increasing_distinct [OF ids] row that by (auto simp: distinct_map dest: inj_onD)
  have "update_where (\<lambda>x. sh_id x = i \<and> sh_outcome x = None \<and> sh_acknowledged_at x = None) (answer outcome (ld_now s)) (ld_shows s) =
      update_where (\<lambda>x. sh_id x = i) (answer outcome (ld_now s)) (ld_shows s)"
    unfolding update_where_def using only open_row by (intro map_cong) auto
  moreover have "list_ex (\<lambda>x. sh_id x = i \<and> sh_outcome x = None \<and> sh_acknowledged_at x = None) (ld_shows s)"
    using row open_row by (auto simp: list_ex_iff)
  ultimately show ?thesis by (simp add: close_show_request_def update_open_show_def Let_def answer_def [abs_def])
qed

lemma close_pending_run:
  assumes "shows_ok (ld_shows s)"
  shows "close_pending i outcome now s =
    (case lookup sh_id i (ld_shows s) of
       None \<Rightarrow> (Inl (Rejection (Missing [T ''show request '', N i, T '' does not exist''])), s)
     | Some r \<Rightarrow>
         if is_pending r now
         then (let t = s\<lparr>ld_shows := update_where (\<lambda>x. sh_id x = i) (answer outcome (ld_now s)) (ld_shows s)\<rparr>
               in (Inr \<lparr>lc_before = Some (show_request.truncate r), lc_after = Some (show_request.truncate (answer outcome (ld_now s) r))\<rparr>, t))
         else (Inl (Rejection (ShowRequestAnswered i (or_else (sh_outcome r) (if is_overdue r now then Some Expired else None)))), s))"
proof (cases "lookup sh_id i (ld_shows s)")
  case None
  then show ?thesis by (simp add: close_pending_def find_show_lookup bindT_def queryT_def)
next
  case (Some r)
  have ids: "increasing sh_id (ld_shows s)" using assms by (simp add: shows_ok_def)
  show ?thesis
  proof (cases "is_pending r now")
    case False
    then show ?thesis using Some
      by (simp add: close_pending_def find_show_lookup bindT_def queryT_def returnT_def rejectT_def throwT_def)
  next
    case True
    have "lookup sh_id i (update_where (\<lambda>x. sh_id x = i) (answer outcome (ld_now s)) (ld_shows s)) = Some (answer outcome (ld_now s) r)"
      using Some lookup_Some [OF Some] by (subst shows_t.lookup_update) (simp_all add: answer_def)
    moreover have "close_show_request i outcome s =
        (Inr True, s\<lparr>ld_shows := update_where (\<lambda>x. sh_id x = i) (answer outcome (ld_now s)) (ld_shows s)\<rparr>)"
      by (rule close_show_run [OF ids Some]) (use True in \<open>simp_all add: is_pending_def\<close>)
    ultimately show ?thesis using True Some
      by (simp add: close_pending_def find_show_lookup bindT_def queryT_def storeT_def readT_def returnT_def Let_def)
  qed
qed

lemma open_show_other:
  assumes "lookup sh_id i (ld_shows s) = Some r" "sh_outcome r \<noteq> None" "\<And>x. sh_id (f x) = sh_id x"
  shows "lookup sh_id i (ld_shows (snd (update_open_show j f s))) = Some r"
  using assms by (auto simp: update_open_show_def Let_def shows_t.lookup_update)

lemma close_other:
  assumes "lookup sh_id i (ld_shows s) = Some r" "sh_outcome r \<noteq> None"
  shows "lookup sh_id i (ld_shows (snd (close_show_request j outcome s))) = Some r"
  unfolding close_show_request_def by (rule open_show_other [OF assms]) simp

lemma expire_other:
  assumes r: "lookup sh_id i (ld_shows s) = Some r" "sh_outcome r \<noteq> None"
  shows "lookup sh_id i (ld_shows (snd (expire_overdue now s))) = Some r"
proof -
  have kept: "keeps (\<lambda>s. lookup sh_id i (ld_shows s) = Some r) (close_show_request j outcome)" for j outcome
    by (rule keeps_apply, rule close_other [OF _ r(2)])
  have "keeps (\<lambda>s. lookup sh_id i (ld_shows s) = Some r) (expire_loop now rs spaces)" for rs spaces
    by (induction rs arbitrary: spaces) (auto intro!: tx_keeps kept)
  then have "keeps (\<lambda>s. lookup sh_id i (ld_shows s) = Some r) (expire_overdue now)"
    unfolding expire_overdue_def by (intro tx_keeps)
  then show ?thesis using r(1) by (simp add: keeps_def)
qed

text \<open>
  C31: A show-request is answered once, and only while it waits. An answer succeeds only on a request that is stored, open
  and not overdue; it writes the outcome and the time to that row and to no other. From then on every answer to it, at any
  time, is refused with the outcome it has and changes nothing, and no expiry sweep changes its row.
\<close>
theorem show_request_answered_once:
  assumes "linear_reachable s" and "close_pending i outcome now s = (Inr change, t)"
  shows "\<exists>r. lookup sh_id i (ld_shows s) = Some r \<and> is_pending r now \<and>
    t = s\<lparr>ld_shows := map (\<lambda>x. if sh_id x = i then answer outcome (ld_now s) x else x) (ld_shows s)\<rparr> \<and>
    lookup sh_id i (ld_shows t) = Some (answer outcome (ld_now s) r) \<and>
    close_pending i other later t = (Inl (Rejection (ShowRequestAnswered i (Some outcome))), t) \<and>
    lookup sh_id i (ld_shows (snd (expire_overdue later t))) = lookup sh_id i (ld_shows t)"
proof -
  have inv: "linear_inv s" using assms(1) by (rule linear_reachable_inv)
  have rows: "shows_ok (ld_shows s)" by (rule linear_parts [OF inv])
  have "linear_inv (snd (close_pending i outcome now s))" by (rule keeps_snd [OF keeps_close_pending inv])
  then have rows': "shows_ok (ld_shows t)" using assms(2) linear_parts by simp
  from assms(2) obtain r where r: "lookup sh_id i (ld_shows s) = Some r" "is_pending r now"
      "t = s\<lparr>ld_shows := update_where (\<lambda>x. sh_id x = i) (answer outcome (ld_now s)) (ld_shows s)\<rparr>"
    unfolding close_pending_run [OF rows] by (auto simp: Let_def split: option.splits if_splits)
  then have t: "lookup sh_id i (ld_shows t) = Some (answer outcome (ld_now s) r)"
    using lookup_Some [OF r(1)] by (simp add: shows_t.lookup_update answer_def)
  have again: "close_pending i other later t = (Inl (Rejection (ShowRequestAnswered i (Some outcome))), t)"
    unfolding close_pending_run [OF rows'] t by (simp add: answer_def is_pending_def or_else_def)
  have "lookup sh_id i (ld_shows (snd (expire_overdue later t))) = Some (answer outcome (ld_now s) r)"
    by (rule expire_other [OF t]) (simp add: answer_def)
  then show ?thesis using r t again by (intro exI [of _ r]) (simp add: update_where_def)
qed

definition sample_show :: linear_show_request_params where
  "sample_show = \<lparr>sp_space = ''w1'', sp_issue = ''WEB-1'', sp_reason = Some ''look'', sp_requested_by = None, sp_owner = sample_owner\<rparr>"

definition sample_asked :: ldb where
  "sample_asked = apply_linear sample_host (LShowRequest sample_show False 0 60) sample_linear"

lemma sample_asked_reachable: "linear_reachable sample_asked"
  unfolding sample_asked_def by (rule linear_reachable.call [OF sample_linear_reachable])

theorem show_request_answered_once_witness:
  "\<exists>t. close_pending 1 Accepted 30 sample_asked = (Inr \<lparr>lc_before = find_show sample_asked 1, lc_after = find_show t 1\<rparr>, t) \<and>
     close_pending 1 Rejected 40 t = (Inl (Rejection (ShowRequestAnswered 1 (Some Accepted))), t)"
proof -
  define t where "t = snd (close_pending 1 Accepted 30 sample_asked)"
  have "fst (close_pending 1 Accepted 30 sample_asked) = Inr \<lparr>lc_before = find_show sample_asked 1, lc_after = find_show t 1\<rparr>"
    unfolding t_def by code_simp
  then have run: "close_pending 1 Accepted 30 sample_asked = (Inr \<lparr>lc_before = find_show sample_asked 1, lc_after = find_show t 1\<rparr>, t)"
    by (simp add: prod_eq_iff t_def)
  from show_request_answered_once [OF sample_asked_reachable run, of Rejected 40] run show ?thesis by blast
qed

section \<open>Asking\<close>

definition waiting :: "linear_owner \<Rightarrow> string \<Rightarrow> string \<Rightarrow> int \<Rightarrow> ldb \<Rightarrow> show_row list" where
  \<comment> \<open>the requests of this asker for this issue that an answer can still reach\<close>
  "waiting owner space issue now s =
     filter (\<lambda>r. sh_session r = herdr_session (ow_socket owner) \<and> sh_space r = space \<and> sh_issue r = issue \<and> sh_owner r = owner \<and>
       is_pending r now) (ld_shows s)"

definition refreshed :: "linear_show_request_params \<Rightarrow> ldb \<Rightarrow> int \<Rightarrow> show_row \<Rightarrow> show_row" where
  "refreshed p s expires_at r =
     r\<lparr>sh_reason := opt_line (sp_reason p), sh_requested_by := opt_line (sp_requested_by p), sh_expires_at := ld_datetime s expires_at\<rparr>"

lemma find_hd: "List.find P xs = (case filter P xs of [] \<Rightarrow> None | x # _ \<Rightarrow> Some x)"
  by (induction xs) auto

lemma find_waiting:
  assumes "increasing sh_id (ld_shows s)"
  shows "List.find (same_asker issue owner) (pending_show_requests s (herdr_session (ow_socket owner)) space now) =
    map_option show_request.truncate (case waiting owner space issue now s of [] \<Rightarrow> None | r # _ \<Rightarrow> Some r)"
proof -
  let ?P = "\<lambda>r. (sh_session r = herdr_session (ow_socket owner) \<and> sh_space r = space) \<and> sh_outcome r = None \<and> sh_acknowledged_at r = None"
  have "open_show_requests s (Some (herdr_session (ow_socket owner), space)) = map show_request.truncate (filter ?P (ld_shows s))"
    using increasing_sort [OF increasing_filter [OF assms, of ?P]] by (simp add: open_show_requests_def)
  then have "filter (same_asker issue owner) (pending_show_requests s (herdr_session (ow_socket owner)) space now) =
      map show_request.truncate (waiting owner space issue now s)"
    unfolding pending_show_requests_def waiting_def
    by (auto simp: filter_map comp_def same_asker_def is_pending_def intro!: arg_cong [where f = "map show_request.truncate"] filter_cong)
  then show ?thesis unfolding find_hd by (simp split: list.split)
qed

lemma length_filter_update:
  "(\<And>x. x \<in> set xs \<Longrightarrow> Q (f x) \<Longrightarrow> Q x) \<Longrightarrow> length (filter Q (map f xs)) \<le> length (filter Q xs)"
  by (induction xs) auto

text \<open>
  C34: Asking twice does not queue two requests. If the asker has a request for the issue that still waits, asking again
  keeps its id, its asker and its creation time, renews its reason and its expiry, and leaves every other row; if not, one
  new row with a fresh id is appended. Either way no asker gets a second waiting request for an issue.
\<close>
theorem asking_again_refreshes:
  assumes reach: "linear_reachable s" and owner: "owner = clean_owner (sp_owner p)"
    and run: "linear_show_request h p known now ttl s = (Inr change, t)"
  shows "(case waiting owner (sp_space p) (sp_issue p) now s of
      [] \<Rightarrow> \<exists>r. t = s\<lparr>ld_shows := ld_shows s @ [r]\<rparr> \<and> sh_id r \<notin> sh_id ` set (ld_shows s) \<and>
        change = \<lparr>lc_before = None, lc_after = Some (show_request.truncate r)\<rparr> \<and> sh_owner r = owner \<and> sh_issue r = sp_issue p \<and>
        sh_outcome r = None \<and> sh_created_at r = ld_now s \<and> sh_expires_at r = ld_datetime s (i64_saturating_add now ttl)
    | r # _ \<Rightarrow> t = s\<lparr>ld_shows := map (\<lambda>x. if sh_id x = sh_id r then refreshed p s (i64_saturating_add now ttl) x else x) (ld_shows s)\<rparr> \<and>
        change = \<lparr>lc_before = Some (show_request.truncate r),
          lc_after = Some (show_request.truncate (refreshed p s (i64_saturating_add now ttl) r))\<rparr>) \<and>
    length (waiting owner (sp_space p) (sp_issue p) now t) \<le> max 1 (length (waiting owner (sp_space p) (sp_issue p) now s))"
proof -
  define session where "session = herdr_session (ow_socket owner)"
  define e where "e = i64_saturating_add now ttl"
  have rows: "shows_ok (ld_shows s)" by (rule linear_parts [OF linear_reachable_inv [OF reach]])
  then have ids: "increasing sh_id (ld_shows s)" by (simp add: shows_ok_def)
  note find = find_waiting [OF ids, of "sp_issue p" owner "sp_space p" now, folded session_def]
  show ?thesis
  proof (cases "waiting owner (sp_space p) (sp_issue p) now s")
    case Nil
    define new where "new = \<lparr>ns_session = session, ns_space = sp_space p, ns_issue = sp_issue p, ns_reason = opt_line (sp_reason p),
        ns_requested_by = opt_line (sp_requested_by p), ns_owner = owner, ns_expires_at = e\<rparr>"
    have "t = s\<lparr>ld_shows := ld_shows s @ [new_show_row s new]\<rparr> \<and>
        change = \<lparr>lc_before = None, lc_after = Some (show_request.truncate (new_show_row s new))\<rparr>"
      using run require_known_run [of h session "sp_space p" "sp_issue p" known s] find Nil
      unfolding linear_show_request_def Let_def owner [symmetric] session_def [symmetric] e_def [symmetric] new_def [symmetric]
      by (auto simp: thenT_ok_iff transaction_ok_iff bind_read bindT_ok_iff storeT_ok returnT_ok_iff add_show_request_def checkT_ok)
    moreover have "sh_id (new_show_row s new) \<notin> sh_id ` set (ld_shows s)" by (simp add: new_show_row_def next_id_notin)
    ultimately show ?thesis using Nil
      by (auto simp: waiting_def new_show_row_def new_def e_def intro!: exI [of _ "new_show_row s new"])
  next
    case (Cons r rest)
    then have "r \<in> set (waiting owner (sp_space p) (sp_issue p) now s)" by simp
    then have r: "r \<in> set (ld_shows s)" "sh_outcome r = None" "sh_acknowledged_at r = None" "sh_issue r = sp_issue p" "sh_owner r = owner"
      "sh_space r = sp_space p" "sh_session r = session" "is_pending r now"
      by (auto simp: waiting_def session_def is_pending_def)
    have found: "lookup sh_id (sh_id r) (ld_shows s) = Some r" using r(1) increasing_distinct [OF ids] by (simp add: lookup_eq)
    have only: "x = r" if "x \<in> set (ld_shows s)" "sh_id x = sh_id r" for x
      using increasing_distinct [OF ids] r(1) that by (auto simp: distinct_map dest: inj_onD)
    define t' where "t' = s\<lparr>ld_shows := update_where (\<lambda>x. sh_id x = sh_id r) (refreshed p s e) (ld_shows s)\<rparr>"
    have same: "update_where (\<lambda>x. sh_id x = sh_id r \<and> sh_outcome x = None \<and> sh_acknowledged_at x = None) (refreshed p s e) (ld_shows s) =
        update_where (\<lambda>x. sh_id x = sh_id r) (refreshed p s e) (ld_shows s)"
    proof -
      have "(sh_id x = sh_id r \<and> sh_outcome x = None \<and> sh_acknowledged_at x = None) = (sh_id x = sh_id r)" if "x \<in> set (ld_shows s)" for x
        using only [OF that] r(2,3) by auto
      then show ?thesis unfolding update_where_def by (intro map_cong) auto
    qed
    then have step: "refresh_show_request (sh_id r) (opt_line (sp_reason p)) (opt_line (sp_requested_by p)) e s = (Inr b, u) \<Longrightarrow> u = t'" for b u
      by (auto simp: refresh_show_request_def checkT_ok update_open_show_def Let_def refreshed_def [abs_def] t'_def)
    have after: "find_show t' (sh_id r) = Some (show_request.truncate (refreshed p s e r))"
      using found by (simp add: find_show_lookup t'_def shows_t.lookup_update refreshed_def)
    have "t = t' \<and> change = \<lparr>lc_before = Some (show_request.truncate r), lc_after = Some (show_request.truncate (refreshed p s e r))\<rparr>"
      using run require_known_run [of h session "sp_space p" "sp_issue p" known s] find Cons step after
      unfolding linear_show_request_def Let_def owner [symmetric] session_def [symmetric] e_def [symmetric]
      by (auto simp: thenT_ok_iff transaction_ok_iff bind_read storeT_ok returnT_ok_iff)
    moreover have rows': "ld_shows t' = map (\<lambda>x. if sh_id x = sh_id r then refreshed p s e x else x) (ld_shows s)"
      by (simp add: t'_def update_where_def)
    moreover have "length (waiting owner (sp_space p) (sp_issue p) now t') \<le> length (waiting owner (sp_space p) (sp_issue p) now s)"
      unfolding waiting_def rows' by (rule length_filter_update) (use only r in \<open>auto split: if_splits simp: session_def\<close>)
    ultimately show ?thesis using Cons by (simp add: t'_def update_where_def e_def)
  qed
qed

theorem asking_again_refreshes_witness:
  "\<exists>t change. linear_show_request sample_host sample_show False 10 60 sample_asked = (Inr change, t) \<and>
     length (waiting sample_owner ''w1'' ''WEB-1'' 10 sample_asked) = 1 \<and> map sh_id (ld_shows t) = [1] \<and>
     length (waiting sample_owner ''w1'' ''WEB-1'' 10 t) \<le> 1"
proof -
  obtain r t where rt: "linear_show_request sample_host sample_show False 10 60 sample_asked = (r, t)" by (metis surj_pair)
  have "\<not> isl (fst (linear_show_request sample_host sample_show False 10 60 sample_asked))" by code_simp
  then obtain change where run: "linear_show_request sample_host sample_show False 10 60 sample_asked = (Inr change, t)"
    using rt by (cases r) auto
  have "map sh_id (ld_shows (snd (linear_show_request sample_host sample_show False 10 60 sample_asked))) = [1]"
    "length (waiting sample_owner ''w1'' ''WEB-1'' 10 sample_asked) = 1" by code_simp+
  moreover have "sample_owner = clean_owner (sp_owner sample_show)" by code_simp
  ultimately show ?thesis using asking_again_refreshes [OF sample_asked_reachable _ run, of sample_owner] run
    by (simp add: sample_show_def)
qed

section \<open>Paths\<close>

definition canonical_host :: "host \<Rightarrow> bool" where
  \<comment> \<open>\<open>canonicalize\<close> leaves its own answers, and the directories above them, as they are\<close>
  "canonical_host h \<longleftrightarrow>
     (\<forall>cwd q. ho_canonicalize h cwd = Inr q \<longrightarrow> (\<forall>a \<in> set (path_ancestors (rev (path_components q))). ho_canonicalize h a = Inr a))"

lemma split_all_append: "d \<notin> set x \<Longrightarrow> split_all d (x @ rest) = (x @ hd (split_all d rest)) # tl (split_all d rest)"
proof (induction x)
  case Nil
  have "split_all d rest \<noteq> []" by (cases rest) simp_all
  then show ?case by simp
qed auto

lemma split_all_parts: "c \<in> set (split_all d s) \<Longrightarrow> d \<notin> set c"
proof (induction s arbitrary: c)
  case (Cons x s)
  have "split_all d s \<noteq> []" by (cases s) simp_all
  then have "hd (split_all d s) \<in> set (split_all d s)" "set (tl (split_all d s)) \<subseteq> set (split_all d s)"
    by (simp_all add: list.set_sel(2) subsetI)
  then show ?case using Cons by (auto split: if_splits)
qed simp

abbreviation plain :: "string list \<Rightarrow> bool" where
  "plain cs \<equiv> (\<forall>c \<in> set cs. c \<noteq> [] \<and> CHR ''/'' \<notin> set c)"

lemma plain_components: "plain (path_components p)"
  using split_all_parts by (auto simp: path_components_def)

lemma split_joined: "plain cs \<Longrightarrow> split_all (CHR ''/'') (concat (map (\<lambda>x. ''/'' @ x) cs)) = [] # cs"
  by (induction cs) (simp_all add: split_all_append)

lemma components_joined: "plain cs \<Longrightarrow> path_components (concat (map (\<lambda>x. ''/'' @ x) cs)) = cs"
  unfolding path_components_def by (simp add: split_joined del: append_Cons append_Nil)

lemma ancestor_first: "plain cs \<Longrightarrow> a \<in> set (path_ancestors cs) \<Longrightarrow> \<exists>rest. path_ancestors (rev (path_components a)) = a # rest"
proof (induction cs)
  case Nil
  have "path_components ''/'' = []" by code_simp
  then show ?case using Nil by simp
next
  case (Cons c cs)
  show ?case
  proof (cases "a \<in> set (path_ancestors cs)")
    case True
    then show ?thesis using Cons by simp
  next
    case False
    then have a: "a = concat (map (\<lambda>x. ''/'' @ x) (rev (c # cs)))" using Cons.prems(2) unfolding path_ancestors.simps list.set by blast
    have parts: "path_components a = rev (c # cs)" unfolding a by (rule components_joined) (use Cons.prems(1) in auto)
    have "path_ancestors (rev (path_components a)) = a # path_ancestors cs"
      by (simp only: parts rev_rev_ident path_ancestors.simps a [symmetric])
    then show ?thesis by blast
  qed
qed

lemma resolve_again:
  assumes h: "canonical_host h" and cwd: "resolve_worktree h cwd = Inr path"
  shows "resolve_worktree h path = Inr path \<or> isl (resolve_worktree h path)"
proof -
  from cwd obtain q where q: "ho_canonicalize h cwd = Inr q" "List.find (ho_has_git h) (path_ancestors (rev (path_components q))) = Some path"
    by (auto simp: resolve_worktree_def split: if_splits sum.splits option.splits)
  then have path: "path \<in> set (path_ancestors (rev (path_components q)))" "ho_has_git h path" by (auto dest: find_SomeD)
  have "ho_canonicalize h path = Inr path" using h q(1) path(1) by (auto simp: canonical_host_def)
  moreover obtain rest where "path_ancestors (rev (path_components path)) = path # rest"
    using ancestor_first [OF _ path(1)] plain_components by auto
  ultimately show ?thesis using path(2) by (simp add: resolve_worktree_def)
qed

section \<open>Reported activity\<close>

abbreviation bound_rows :: "worktree_binding_row list \<Rightarrow> space_binding_row list \<Rightarrow> ldb \<Rightarrow> bool" where
  "bound_rows ws bs s \<equiv> ld_worktree_bindings s = ws \<and> ld_space_bindings s = bs"

lemma keeps_bound_rows:
  "keeps (bound_rows ws bs) (record_activity uuid a)" "keeps (bound_rows ws bs) (replace_mark h m)"
proof -
  show "keeps (bound_rows ws bs) (record_activity uuid a)"
    unfolding record_activity_def
    by (intro keeps_check keeps_transaction keeps_bind keeps_then keeps_modify keeps_simple)
      (simp_all add: keeps_def prune_activity_def)
  have "keeps (bound_rows ws bs) (remove_marks ids)" for ids by (simp add: keeps_def remove_marks_run)
  moreover have "keeps (bound_rows ws bs) (add_mark uuid m)" for uuid
    unfolding add_mark_def by (intro keeps_check) (simp add: keeps_def)
  ultimately show "keeps (bound_rows ws bs) (replace_mark h m)" unfolding replace_mark_def by (intro tx_keeps)
qed

lemma readonly_checks: "readonly (check_issue h i)" "readonly (check_space sp)"
  by (simp_all add: check_issue_def check_space_def)

lemma atomic_bind_worktree: "atomic (linear_bind h p)"
  unfolding linear_bind_def
  by (intro atomic_then_readonly readonly_checks) (auto simp: readonly_atomic split: sum.split)

lemma linear_bind_run:
  assumes run: "linear_bind h p s = (Inr b, t)" and path: "resolve_worktree h (bi_cwd p) = Inr path"
  shows "issue_holder s (bi_issue p) path = None" and "\<exists>r. wb_path r = path \<and> wb_issue r = bi_issue p \<and>
    ld_worktree_bindings t = upsert wb_path r (ld_worktree_bindings s)"
proof -
  let ?b = "bound_to p path (worktree_binding s path)"
  let ?r = "worktree_binding.extend ?b (worktree_binding_row.fields (ld_now s))"
  let ?u = "s\<lparr>ld_worktree_bindings := upsert wb_path ?r (ld_worktree_bindings s)\<rparr>"
  have marks: "ld_worktree_bindings v = ld_worktree_bindings u" if "clear_suggestions_naming issue path u = (Inr c, v)" for issue c u v
    using that by (auto simp: clear_suggestions_naming_def bind_read remove_marks_run thenT_ok_iff returnT_ok_iff split: if_splits)
  have none: "issue_holder s (bi_issue p) path = None"
    using run path by (auto simp: linear_bind_def thenT_ok_iff transaction_ok_iff bind_read rejectT_def throwT_def check_issue_def
        local_check_run returnT_ok_iff split: option.splits if_splits)
  then show "issue_holder s (bi_issue p) path = None" .
  obtain c where "clear_suggestions_naming (bi_issue p) path ?u = (Inr c, t)"
    using run path none
    by (auto simp: linear_bind_def thenT_ok_iff transaction_ok_iff bind_read then_return bindT_ok_iff check_issue_def local_check_run
        returnT_ok_iff storeT_ok set_worktree_binding_def checkT_ok modifyT_ok_iff split: if_splits)
  from marks [OF this] have "ld_worktree_bindings t = upsert wb_path ?r (ld_worktree_bindings s)" by simp
  then show "\<exists>r. wb_path r = path \<and> wb_issue r = bi_issue p \<and> ld_worktree_bindings t = upsert wb_path r (ld_worktree_bindings s)"
    by (intro exI [of _ ?r]) (simp add: worktree_binding.extend_def worktree_binding_row.fields_def bound_to_def)
qed

lemma activity_link_cases:
  assumes h: "canonical_host h" and bound: "bound_rows ws bs u"
    and same: "worktree_binding u = worktree_binding s" "issue_holder u = issue_holder s" "known_session u = known_session s"
  shows "case link_or_suggest h p claims a issue space u of
      (Inl e, t) \<Rightarrow> ld_worktree_bindings t = ws
    | (Inr res, t) \<Rightarrow>
        if ar_outcome res = Linked
        then (\<exists>path b. try_worktree h (ap_cwd p) = Some path \<and> known_session s claims space \<and> worktree_binding s path = None \<and>
          issue_holder s issue path = None \<and> wb_path b = path \<and> wb_issue b = issue \<and> ld_worktree_bindings t = ws @ [b])
        else ld_worktree_bindings t = ws"
proof -
  have suggest: "case suggest_issue h p claims a issue space w u of
      (Inl e, t) \<Rightarrow> ld_worktree_bindings t = ws | (Inr res, t) \<Rightarrow> ar_outcome res \<noteq> Linked \<and> ld_worktree_bindings t = ws" for w
  proof -
    have "ld_worktree_bindings (snd (replace_mark h m u)) = ws" for m using keeps_bound_rows(2) [of ws bs h m] bound by (simp add: keeps_def)
    then show ?thesis unfolding suggest_issue_def bindT_def returnT_def
      by (fastforce split: prod.splits sum.splits dest: arg_cong [where f = snd])
  qed
  show ?thesis
  proof (cases "try_worktree h (ap_cwd p)")
    case None
    then show ?thesis using suggest [of None] by (auto simp: link_or_suggest_def split: prod.splits sum.splits)
  next
    case (Some path)
    then obtain cwd where cwd: "resolve_worktree h cwd = Inr path"
      by (auto simp: try_worktree_def split: option.splits sum.splits)
    show ?thesis
    proof (cases "(case worktree_binding u path of None \<Rightarrow> False | Some b \<Rightarrow> wb_issue b = issue) \<or>
        \<not> (known_session u claims space \<and> worktree_binding u path = None \<and> issue_holder u issue path = None)")
      case True
      then show ?thesis using Some bound suggest [of "Some path"]
        by (auto simp: link_or_suggest_def recorded_def split: prod.splits sum.splits option.splits)
    next
      case False
      then have free: "known_session u claims space" "worktree_binding u path = None" "issue_holder u issue path = None" by auto
      then have run: "link_or_suggest h p claims a issue space u = link_issue h claims a issue space path u"
        using Some by (simp add: link_or_suggest_def)
      define q where "q = \<lparr>bi_cwd = path, bi_issue = issue, bi_space = Some space, bi_branch = None, bi_tab = None,
          bi_display_name = None, bi_claims = claims\<rparr>"
      have "path \<notin> wb_path ` set ws"
        using free(2) bound by (auto simp: worktree_binding_def find_None_iff image_iff)
      then have new: "upsert wb_path r ws = ws @ [r]" if "wb_path r = path" for r using that by (simp add: upsert_def)
      show ?thesis
      proof (cases "linear_bind h q u")
        case (Pair x t)
        show ?thesis
        proof (cases x)
          case (Inl e)
          then have "t = u" using atomic_bind_worktree Pair by (auto simp: atomic_def)
          then show ?thesis using run Pair Inl bound by (simp add: link_issue_def bindT_def flip: q_def)
        next
          case (Inr b)
          have "resolve_worktree h (bi_cwd q) = Inr path"
            using resolve_again [OF h cwd] Pair Inr
            by (auto simp: q_def linear_bind_def isl_def thenT_ok_iff rejectT_def throwT_def)
          then obtain r where "wb_path r = path" "wb_issue r = issue" "ld_worktree_bindings t = upsert wb_path r ws"
            using linear_bind_run(2) [of h q u b t path] Pair Inr bound by (auto simp: q_def)
          then show ?thesis using run Pair Inr Some free same new by (auto simp: link_issue_def bindT_def returnT_def simp flip: q_def)
        qed
      qed
    qed
  qed
qed

text \<open>
  C32: A reported Linear write never rebinds a worktree. Whatever the report says, every binding stays as it is; at most one
  is added, at the end, and only when the answer is \<open>Linked\<close>: the tool was \<open>save_issue\<close>, it named the issue, the caller's
  directory is in the worktree, the worktree had no binding, no other worktree was bound to the issue, and the caller
  claimed a pane of a session that the space is bound for. The file system's \<open>canonicalize\<close> leaves its own answers alone.
\<close>
theorem reports_link_only_free_worktrees:
  assumes "canonical_host h" and "claims = clean_claims (ap_claims p)"
  shows "case linear_activity_record h p s of
      (Inl e, t) \<Rightarrow> ld_worktree_bindings t = ld_worktree_bindings s
    | (Inr res, t) \<Rightarrow>
        if ar_outcome res = Linked
        then (\<exists>path issue space b. try_worktree h (ap_cwd p) = Some path \<and> ap_issue p = Some issue \<and>
          is_save_issue (ap_tool_name p) \<and> claimed_space (ap_space p) claims = Some space \<and> known_session s claims space \<and>
          worktree_binding s path = None \<and> issue_holder s issue path = None \<and>
          wb_path b = path \<and> wb_issue b = issue \<and> ld_worktree_bindings t = ld_worktree_bindings s @ [b])
        else ld_worktree_bindings t = ld_worktree_bindings s"
proof -
  define space where "space = claimed_space (ap_space p) claims"
  define na where "na = \<lparr>na_session = herdr_session (ac_socket claims), na_space = space, na_tool_name = ap_tool_name p,
      na_issue = ap_issue p, na_claims = claims\<rparr>"
  obtain r u where ru: "record_activity (ho_uuid h) na s = (r, u)" by fastforce
  have u: "bound_rows (ld_worktree_bindings s) (ld_space_bindings s) u"
    using keepsD [OF keeps_bound_rows(1) _ ru, of "ld_worktree_bindings s" "ld_space_bindings s"] by simp
  then have same: "worktree_binding u = worktree_binding s" "issue_holder u = issue_holder s" "known_session u = known_session s"
    by (auto simp: fun_eq_iff worktree_binding_def issue_holder_def known_session_def space_binding_def split: option.splits)
  note link = activity_link_cases [OF assms(1) u same]
  have def: "linear_activity_record h p = thenT (case ap_issue p of Some issue \<Rightarrow> check_issue h issue | None \<Rightarrow> returnT ())
      (bindT (storeT (record_activity (ho_uuid h) na)) (\<lambda>a. case (ap_issue p, space) of
         (Some issue, Some sp) \<Rightarrow> if is_save_issue (ap_tool_name p) then link_or_suggest h p claims a issue sp else returnT (recorded a)
       | _ \<Rightarrow> returnT (recorded a)))"
    unfolding linear_activity_record_def Let_def na_def space_def assms(2) by (rule refl)
  have check: "(case ap_issue p of Some issue \<Rightarrow> check_issue h issue | None \<Rightarrow> returnT ()) s =
      (if (case ap_issue p of Some issue \<Rightarrow> is_issue_identifier (ho_uuid h) issue | None \<Rightarrow> True) then Inr ()
       else Inl (Rejection (Refused [T ''issue '', D (the (ap_issue p)), T '' is neither a Linear issue key (like WEB-123) nor an issue UUID''])), s)"
    by (simp add: check_issue_def local_check_run returnT_def split: option.split)
  show ?thesis
  proof (cases "isl r \<or> \<not> (case ap_issue p of Some issue \<Rightarrow> is_issue_identifier (ho_uuid h) issue | None \<Rightarrow> True)")
    case True
    then show ?thesis using ru u unfolding def by (auto simp: thenT_def bindT_def check storeT_def isl_def)
  next
    case False
    then obtain a where a: "record_activity (ho_uuid h) na s = (Inr a, u)" using ru by (cases r) auto
    have run: "linear_activity_record h p s = (case (ap_issue p, space) of
         (Some issue, Some sp) \<Rightarrow> if is_save_issue (ap_tool_name p) then link_or_suggest h p claims a issue sp else returnT (recorded a)
       | _ \<Rightarrow> returnT (recorded a)) u"
      using False a unfolding def by (simp add: thenT_def bindT_def check storeT_def)
    show ?thesis
    proof (cases "\<exists>issue sp. ap_issue p = Some issue \<and> space = Some sp \<and> is_save_issue (ap_tool_name p)")
      case True
      then obtain issue sp where "ap_issue p = Some issue" "space = Some sp" "is_save_issue (ap_tool_name p)" by blast
      then show ?thesis using run link [where p = p and claims = claims and a = a and issue = issue and space = sp]
        by (auto simp: space_def split: prod.splits sum.splits if_splits)
    next
      case False
      then have "linear_activity_record h p s = (Inr (recorded a), u)"
        using run by (auto simp: returnT_def split: option.splits)
      then show ?thesis using u by (simp add: recorded_def)
    qed
  qed
qed

definition sample_report :: activity_params where
  "sample_report = \<lparr>ap_tool_name = ''mcp__linear__save_issue'', ap_issue = Some ''WEB-2'', ap_space = Some ''w1'', ap_cwd = Some ''/w/b/src'',
     ap_claims = sample_claims\<lparr>ac_socket := Some ''/h/herdr.sock'', ac_pane := Some ''p1''\<rparr>\<rparr>"

definition sample_bound :: ldb where
  "sample_bound = sample_linear\<lparr>ld_space_bindings :=
     [\<lparr>sb_session = ''default'', sb_space = ''w1'', sb_project_id = ''P'', sb_display_name = None, sb_team_ids = [], sb_view = None,
       sb_updated_at = ''1970-01-01 00:00:00''\<rparr>]\<rparr>"

theorem reports_link_only_free_worktrees_witness:
  "\<exists>res t b. linear_activity_record sample_host sample_report sample_bound = (Inr res, t) \<and> ar_outcome res = Linked \<and>
     ld_worktree_bindings t = ld_worktree_bindings sample_bound @ [b] \<and> wb_path b = ''/w/b'' \<and> wb_issue b = ''WEB-2''"
proof -
  obtain r t where rt: "linear_activity_record sample_host sample_report sample_bound = (r, t)" by (metis surj_pair)
  have "(case fst (linear_activity_record sample_host sample_report sample_bound) of Inl _ \<Rightarrow> False | Inr res \<Rightarrow> ar_outcome res = Linked)"
    by code_simp
  then obtain res where run: "linear_activity_record sample_host sample_report sample_bound = (Inr res, t)" "ar_outcome res = Linked"
    using rt by (cases r) auto
  have "canonical_host sample_host" by (simp add: canonical_host_def sample_host_def)
  moreover have "try_worktree sample_host (ap_cwd sample_report) = Some ''/w/b''" by code_simp
  moreover have "ap_issue sample_report = Some ''WEB-2''" by (simp add: sample_report_def)
  ultimately show ?thesis
    using reports_link_only_free_worktrees [of sample_host, OF _ refl, where p = sample_report and s = sample_bound] run by auto
qed

end
