(* ===== verification/Linear_Announcements.thy ===== *)
theory Linear_Announcements
  imports Linear_Daemon Linear_Requests
begin

text \<open>Every change of Linear-mode local state is announced, once, to every board that shows it.\<close>

section \<open>What a space shows\<close>

definition space_view :: "ldb \<Rightarrow> string \<Rightarrow> space_binding_row list \<times> mark_row list \<times> note_row list \<times> show_row list" where
  \<comment> \<open>the rows \<open>linear.state.get\<close> reads by space\<close>
  "space_view s sp =
     (filter (\<lambda>r. sb_space r = sp) (ld_space_bindings s), filter (\<lambda>r. mk_space r = sp) (ld_marks s),
      filter (\<lambda>r. nt_space r = sp) (ld_notes s), filter (\<lambda>r. sh_space r = sp) (ld_shows s))"

definition outside :: "string set \<Rightarrow> ldb \<Rightarrow> ldb \<Rightarrow> bool" where
  "outside A s t \<longleftrightarrow> (\<forall>sp. sp \<notin> A \<longrightarrow> space_view s sp = space_view t sp)"

definition same_global :: "ldb \<Rightarrow> ldb \<Rightarrow> bool" where
  \<comment> \<open>the rows it reads for every space\<close>
  "same_global s t \<longleftrightarrow> ld_worktree_bindings s = ld_worktree_bindings t \<and> ld_grouping s = ld_grouping t"

definition within :: "string set \<Rightarrow> ldb \<Rightarrow> ldb \<Rightarrow> bool" where
  "within A s t \<longleftrightarrow> outside A s t \<and> same_global s t"

lemma within_refl [simp]: "within A s s" and outside_refl [simp]: "outside A s s"
  by (simp_all add: within_def outside_def same_global_def)

lemma within_trans: "within A s t \<Longrightarrow> within A t u \<Longrightarrow> within A s u"
  by (auto simp: within_def outside_def same_global_def)

lemma outside_trans: "outside A s t \<Longrightarrow> outside A t u \<Longrightarrow> outside A s u"
  by (simp add: outside_def)

lemma within_mono: "within A s t \<Longrightarrow> A \<subseteq> B \<Longrightarrow> within B s t" and outside_mono: "outside A s t \<Longrightarrow> A \<subseteq> B \<Longrightarrow> outside B s t"
  by (auto simp: within_def outside_def)

lemma within_outside: "within A s t \<Longrightarrow> outside A s t"
  by (simp add: within_def)

lemma within_none: "within {} s t \<Longrightarrow> outside A s t"
  by (auto simp: within_def outside_def)

section \<open>Rows by id\<close>

lemma filter_keep: "(\<And>r. r \<in> set rows \<Longrightarrow> \<not> Q r \<Longrightarrow> \<not> P r) \<Longrightarrow> filter P (filter Q rows) = filter P rows"
  unfolding filter_filter by (rule filter_cong) auto

lemma id_unique: "increasing key rows \<Longrightarrow> r \<in> set rows \<Longrightarrow> x \<in> set rows \<Longrightarrow> key r = key x \<Longrightarrow> r = x"
  using increasing_distinct [of key rows] by (auto simp: distinct_map dest: inj_onD)

lemma remove_marks_within:
  assumes "increasing mk_id (ld_marks s)" "\<And>i. i \<in> set ids \<Longrightarrow> \<exists>r \<in> set (ld_marks s). mk_id r = i \<and> mk_space r \<in> A"
  shows "within A s (s\<lparr>ld_marks := filter (\<lambda>r. mk_id r \<notin> set ids) (ld_marks s)\<rparr>)"
proof -
  have "filter (\<lambda>r. mk_space r = sp) (filter (\<lambda>r. mk_id r \<notin> set ids) (ld_marks s)) = filter (\<lambda>r. mk_space r = sp) (ld_marks s)"
    if "sp \<notin> A" for sp
    by (rule filter_keep) (use assms id_unique [OF assms(1)] that in blast)
  then show ?thesis by (simp add: within_def outside_def space_view_def same_global_def)
qed

lemma update_shows_within:
  assumes "\<And>r. r \<in> set (ld_shows s) \<Longrightarrow> P r \<Longrightarrow> sh_space r \<in> A" "\<And>r. sh_space (f r) = sh_space r"
  shows "within A s (s\<lparr>ld_shows := update_where P f (ld_shows s)\<rparr>)"
proof -
  have "filter (\<lambda>r. sh_space r = sp) (update_where P f rows) = filter (\<lambda>r. sh_space r = sp) rows"
    if "sp \<notin> A" "set rows \<subseteq> set (ld_shows s)" for sp rows
    using that(2)
  proof (induction rows)
    case (Cons r rows)
    then show ?case using assms that(1) by (auto simp: update_where_def)
  qed (simp add: update_where_def)
  then show ?thesis by (simp add: within_def outside_def space_view_def same_global_def)
qed

lemma truncate_space [simp]: "mk_space (mark.truncate r) = mk_space r" "nt_space (linear_note.truncate n) = nt_space n"
  by (simp_all add: linear_note.truncate_def)

section \<open>The units of work\<close>

definition touches :: "('a \<Rightarrow> string set) \<Rightarrow> 'a local \<Rightarrow> bool" where
  \<comment> \<open>a success changes the spaces given, a refusal none\<close>
  "touches f m \<longleftrightarrow> (\<forall>s r t. linear_inv s \<longrightarrow> m s = (r, t) \<longrightarrow> within (case r of Inr x \<Rightarrow> f x | Inl e \<Rightarrow> {}) s t)"

lemma touchesI:
  "atomic m \<Longrightarrow> (\<And>s x t. linear_inv s \<Longrightarrow> m s = (Inr x, t) \<Longrightarrow> within (f x) s t) \<Longrightarrow> touches f m"
  unfolding touches_def atomic_def by (metis within_refl sum.case_eq_if sum.collapse)

lemma inv_ids:
  assumes "linear_inv s"
  shows "increasing mk_id (ld_marks s)" "increasing nt_id (ld_notes s)" "increasing sh_id (ld_shows s)" "shows_ok (ld_shows s)"
  using linear_parts(6-8) [OF assms] by (simp_all add: marks_ok_def notes_ok_def shows_ok_def)

lemma with_mark_within: "within {nm_space m} s (with_mark m s)"
proof -
  have "filter (\<lambda>r. mk_space r = sp) (filter (\<lambda>r. mark_key r \<noteq> new_mark_key m) (ld_marks s)) = filter (\<lambda>r. mk_space r = sp) (ld_marks s)"
    if "sp \<noteq> nm_space m" for sp by (rule filter_keep) (use that in auto)
  then show ?thesis
    by (simp add: within_def outside_def space_view_def same_global_def with_mark_def without_mark_def new_mark_row_def Let_def)
qed

lemma replace_mark_touches: "touches (\<lambda>res. {mk_space (lr_after res)}) (replace_mark h m)"
proof (rule touchesI)
  fix s res t assume inv: "linear_inv s" and run: "replace_mark h m s = (Inr res, t)"
  note facts = replace_mark_run [OF inv_ids(1) [OF inv] run]
  have "mk_space (lr_after res) = nm_space m" by (simp add: facts(3) new_mark_row_def)
  then show "within {mk_space (lr_after res)} s t" unfolding facts(1) using with_mark_within by simp
qed (simp add: replace_mark_def)

lemma touches_guarded:
  assumes "readonly k" "touches f m"
  shows "touches f (thenT k m)"
  unfolding touches_def
proof (intro allI impI)
  fix s r t assume inv: "linear_inv s" and run: "thenT k m s = (r, t)"
  obtain a where a: "k s = (a, s)" using assms(1) by (metis readonly_def prod.collapse)
  show "within (case r of Inr x \<Rightarrow> f x | Inl e \<Rightarrow> {}) s t"
    using run a assms(2) inv by (cases a) (auto simp: thenT_def bindT_def touches_def)
qed

lemma readonly_require [simp]: "readonly (require_known h session space issue known)"
  by (simp add: readonly_def require_known_def thenT_def bindT_def check_space_def check_issue_def local_check_run)

lemma mark_set_touches: "touches (\<lambda>res. {mk_space (lr_after res)}) (linear_mark_set h p known)"
  unfolding linear_mark_set_def Let_def by (intro touches_guarded readonly_local readonly_require replace_mark_touches)


lemma touches_bind_read:
  assumes "\<And>s. linear_inv s \<Longrightarrow> (case k s of Inl e \<Rightarrow> True | Inr x \<Rightarrow> \<forall>r t. m x s = (r, t) \<longrightarrow> within (case r of Inr y \<Rightarrow> f y | Inl e \<Rightarrow> {}) s t)"
  shows "touches f (bindT (queryT k) m)"
  unfolding touches_def
proof (intro allI impI)
  fix s r t assume inv: "linear_inv s" and run: "bindT (queryT k) m s = (r, t)"
  then show "within (case r of Inr x \<Rightarrow> f x | Inl e \<Rightarrow> {}) s t"
    using assms [OF inv] by (cases "k s") (auto simp: bindT_def queryT_def)
qed

lemma marks_of_selection:
  assumes "x \<in> set (map mk_id (filter P (marks_where s Q)))"
  shows "\<exists>r \<in> set (ld_marks s). mk_id r = x \<and> mk_space r \<in> mk_space ` set (filter P (marks_where s Q))"
proof -
  obtain r where "r \<in> set (ld_marks s)" "Q r" "P (mark.truncate r)" "x = mk_id r"
    using assms by (auto simp: marks_where_def)
  then show ?thesis by (intro bexI [of _ r]) (auto simp: marks_where_def image_iff intro!: bexI [of _ r])
qed

lemma unmark_touches: "touches (\<lambda>removed. mk_space ` set removed) (linear_mark_unmark h p)"
proof -
  have "touches (\<lambda>removed. mk_space ` set removed)
      (transaction (bindT (readT (\<lambda>s. filter (\<lambda>m. (case mu_kind p of None \<Rightarrow> True | Some k \<Rightarrow> k = mk_kind m) \<and> mk_owner m = owner)
           (space_issue_marks s (herdr_session (ow_socket owner)) (mu_space p) (mu_issue p)))) (\<lambda>removed.
         thenT (storeT (remove_marks (map mk_id removed))) (returnT removed))))" (is "touches ?f ?m") for owner
  proof (rule touchesI)
    fix s removed t assume inv: "linear_inv s" and run: "?m s = (Inr removed, t)"
    have r: "removed = filter (\<lambda>m. (case mu_kind p of None \<Rightarrow> True | Some k \<Rightarrow> k = mk_kind m) \<and> mk_owner m = owner)
           (space_issue_marks s (herdr_session (ow_socket owner)) (mu_space p) (mu_issue p))"
      and t: "t = s\<lparr>ld_marks := filter (\<lambda>r. mk_id r \<notin> set (map mk_id removed)) (ld_marks s)\<rparr>"
      using run by (auto simp: transaction_ok_iff bind_read thenT_ok_iff storeT_ok remove_marks_run returnT_ok_iff)
    have "\<exists>r \<in> set (ld_marks s). mk_id r = i \<and> mk_space r \<in> mk_space ` set removed" if "i \<in> set (map mk_id removed)" for i
      using marks_of_selection that unfolding r space_issue_marks_def by blast
    then show "within (?f removed) s t" unfolding t by (intro remove_marks_within inv_ids(1) [OF inv])
  qed simp
  then have "touches (\<lambda>removed. mk_space ` set removed) (bindT (require_owner (mu_owner p) ''unmark'') (\<lambda>owner.
      transaction (bindT (readT (\<lambda>s. filter (\<lambda>m. (case mu_kind p of None \<Rightarrow> True | Some k \<Rightarrow> k = mk_kind m) \<and> mk_owner m = owner)
           (space_issue_marks s (herdr_session (ow_socket owner)) (mu_space p) (mu_issue p)))) (\<lambda>removed.
         thenT (storeT (remove_marks (map mk_id removed))) (returnT removed)))))"
    by (auto simp: require_owner_def touches_def bindT_def thenT_def local_check_run returnT_def split: sum.splits)
  then show ?thesis
    unfolding linear_mark_unmark_def check_space_def check_issue_def by (intro touches_guarded readonly_local)
qed

lemma mark_clear_touches: "touches (\<lambda>c. case lc_before c of None \<Rightarrow> UNIV | Some m \<Rightarrow> {mk_space m}) (linear_mark_clear i)"
  unfolding linear_mark_clear_def
proof (rule touches_bind_read)
  fix s assume inv: "linear_inv s"
  show "case (case find_mark s i of None \<Rightarrow> Inl (Rejection (Missing [T ''mark '', N i, T '' does not exist''])) | Some m \<Rightarrow> Inr m) of
      Inl e \<Rightarrow> True
    | Inr before \<Rightarrow> \<forall>r t. thenT (storeT (remove_mark i)) (returnT \<lparr>lc_before = Some before, lc_after = None\<rparr>) s = (r, t) \<longrightarrow>
        within (case r of Inr c \<Rightarrow> (case lc_before c of None \<Rightarrow> UNIV | Some m \<Rightarrow> {mk_space m}) | Inl e \<Rightarrow> {}) s t"
  proof (cases "lookup mk_id i (ld_marks s)")
    case (Some r)
    then have "within {mk_space r} s (s\<lparr>ld_marks := filter (\<lambda>r. mk_id r \<notin> set [i]) (ld_marks s)\<rparr>)"
      using lookup_Some [OF Some] by (intro remove_marks_within inv_ids(1) [OF inv]) auto
    then show ?thesis using Some
      by (simp add: find_mark_def thenT_def bindT_def storeT_def remove_mark_def delete_rows_def returnT_def)
  qed (simp add: find_mark_def)
qed

lemma clear_loop_within:
  "increasing mk_id (ld_marks s) \<Longrightarrow> clear_loop is removed s = (r, t) \<Longrightarrow>
   \<exists>more. r = Inr (removed @ more) \<and> within (mk_space ` set more) s t"
proof (induction "is" arbitrary: removed s)
  case Nil
  then show ?case by (intro exI [of _ "[]"]) (auto simp: returnT_def)
next
  case (Cons i "is")
  show ?case
  proof (cases "lookup mk_id i (ld_marks s)")
    case None
    then show ?thesis using Cons by (simp add: bind_read find_mark_def)
  next
    case (Some m)
    define u where "u = s\<lparr>ld_marks := filter (\<lambda>r. mk_id r \<notin> set [i]) (ld_marks s)\<rparr>"
    have removal: "\<exists>b. remove_mark i s = (Inr b, u)" by (simp add: u_def remove_mark_def delete_rows_def)
    have "clear_loop (i # is) removed s = thenT (remove_mark i) (clear_loop is (removed @ [mark.truncate m])) s"
      using Some by (simp add: bind_read find_mark_def)
    then have run: "clear_loop is (removed @ [mark.truncate m]) u = (r, t)"
      using Cons.prems(2) removal by (auto simp: thenT_def bindT_def)
    have "increasing mk_id (ld_marks u)" using Cons.prems(1) by (simp add: u_def increasing_filter)
    then obtain more where more: "r = Inr ((removed @ [mark.truncate m]) @ more)" "within (mk_space ` set more) u t"
      using Cons.IH [OF _ run] by blast
    have "within {mk_space m} s u" unfolding u_def
      using lookup_Some [OF Some] by (intro remove_marks_within Cons.prems(1)) auto
    then have "within (mk_space ` set (mark.truncate m # more)) s t"
      using more(2) by (auto intro!: within_trans [of _ s u t] elim!: within_mono)
    then show ?thesis using more(1) by (intro exI [of _ "mark.truncate m # more"]) simp
  qed
qed

lemma clear_ids_touches: "touches (\<lambda>removed. mk_space ` set removed) (linear_mark_clear_ids is)"
proof (rule touchesI)
  fix s removed t assume "linear_inv s" and "linear_mark_clear_ids is s = (Inr removed, t)"
  then show "within (mk_space ` set removed) s t"
    using clear_loop_within [OF inv_ids(1), of s "is" "[]"] by (auto simp: linear_mark_clear_ids_def transaction_ok_iff storeT_ok)
qed (simp add: linear_mark_clear_ids_def)

section \<open>Notes and show-requests\<close>

lemma with_note_within: "within {space} s (with_note session space issue body author owner s)"
proof -
  have "filter (\<lambda>r. nt_space r = sp) (filter (\<lambda>r. note_key r \<noteq> (session, space, issue, author)) (ld_notes s)) =
      filter (\<lambda>r. nt_space r = sp) (ld_notes s)" if "sp \<noteq> space" for sp by (rule filter_keep) (use that in auto)
  then show ?thesis
    by (simp add: within_def outside_def space_view_def same_global_def with_note_def new_note_row_def Let_def)
qed

lemma note_set_touches: "touches (\<lambda>res. {nt_space (lr_after res)}) (linear_note_set h p known)"
proof -
  have "touches (\<lambda>res. {nt_space (lr_after res)}) (replace_note h session space issue body author owner)"
    for session space issue body author owner
  proof (rule touchesI)
    fix s res t assume inv: "linear_inv s" and run: "replace_note h session space issue body author owner s = (Inr res, t)"
    have "t = with_note session space issue body author owner s" by (rule replace_note_run [OF inv_ids(2) [OF inv] run])
    moreover have "nt_space (lr_after res) = space"
      using run by (auto simp: replace_note_def transaction_ok_iff bind_read thenT_ok_iff bindT_ok_iff storeT_ok remove_notes_run
          add_note_def checkT_ok returnT_ok_iff new_note_row_def Let_def)
    ultimately show "within {nt_space (lr_after res)} s t" using with_note_within by simp
  qed (simp add: replace_note_def)
  then show ?thesis unfolding linear_note_set_replace Let_def by (intro touches_guarded readonly_require)
qed

lemma note_clear_touches: "touches (\<lambda>c. case lc_before c of None \<Rightarrow> UNIV | Some m \<Rightarrow> {nt_space m}) (linear_note_clear i)"
  unfolding linear_note_clear_def
proof (rule touches_bind_read)
  fix s assume inv: "linear_inv s"
  show "case (case find_note s i of None \<Rightarrow> Inl (Rejection (Missing [T ''note '', N i, T '' does not exist''])) | Some m \<Rightarrow> Inr m) of
      Inl e \<Rightarrow> True
    | Inr before \<Rightarrow> \<forall>r t. thenT (storeT (remove_note i)) (returnT \<lparr>lc_before = Some before, lc_after = None\<rparr>) s = (r, t) \<longrightarrow>
        within (case r of Inr c \<Rightarrow> (case lc_before c of None \<Rightarrow> UNIV | Some m \<Rightarrow> {nt_space m}) | Inl e \<Rightarrow> {}) s t"
  proof (cases "lookup nt_id i (ld_notes s)")
    case (Some r)
    have "filter (\<lambda>x. nt_space x = sp) (filter (\<lambda>x. nt_id x \<noteq> i) (ld_notes s)) = filter (\<lambda>x. nt_space x = sp) (ld_notes s)"
      if "sp \<noteq> nt_space r" for sp
      by (rule filter_keep) (use lookup_Some [OF Some] id_unique [OF inv_ids(2) [OF inv]] that in blast)
    then have "within {nt_space r} s (s\<lparr>ld_notes := filter (\<lambda>x. nt_id x \<noteq> i) (ld_notes s)\<rparr>)"
      by (simp add: within_def outside_def space_view_def same_global_def)
    then show ?thesis using Some
      by (simp add: find_note_def thenT_def bindT_def storeT_def remove_note_def delete_rows_def returnT_def)
  qed (simp add: find_note_def)
qed

definition shown_before :: "show_request linear_change \<Rightarrow> string set" where
  "shown_before c = (case lc_before c of None \<Rightarrow> UNIV | Some r \<Rightarrow> {sh_space r})"

definition shown_after :: "show_request linear_change \<Rightarrow> string set" where
  "shown_after c = (case lc_after c of None \<Rightarrow> UNIV | Some r \<Rightarrow> {sh_space r})"

lemma close_pending_touches: "touches shown_before (close_pending i outcome now)"
  unfolding touches_def
proof (intro allI impI)
  fix s r t assume inv: "linear_inv s" and run: "close_pending i outcome now s = (r, t)"
  show "within (case r of Inr x \<Rightarrow> shown_before x | Inl e \<Rightarrow> {}) s t"
  proof (cases "lookup sh_id i (ld_shows s)")
    case None
    then show ?thesis using run close_pending_run [OF inv_ids(4) [OF inv], of i outcome now] by auto
  next
    case (Some w)
    have "within {sh_space w} s (s\<lparr>ld_shows := update_where (\<lambda>x. sh_id x = i) (answer outcome (ld_now s)) (ld_shows s)\<rparr>)"
      using lookup_Some [OF Some] id_unique [OF inv_ids(3) [OF inv]]
      by (intro update_shows_within) (auto simp: answer_def)
    then show ?thesis using run Some close_pending_run [OF inv_ids(4) [OF inv], of i outcome now]
      by (auto simp: Let_def shown_before_def split: if_splits)
  qed
qed

lemma withdraw_touches: "touches shown_before (linear_show_withdraw h p now)"
proof -
  have "touches shown_before (bindT (require_owner (sw_owner p) ''withdraw'') (\<lambda>owner.
      bindT (queryT (\<lambda>s. case List.find (same_asker (sw_issue p) owner)
                (pending_show_requests s (herdr_session (ow_socket owner)) (sw_space p) now) of
          None \<Rightarrow> Inl (Rejection (Missing [T ''no pending show request of this caller's for '', S (sw_issue p), T '' in space '', S (sw_space p)]))
        | Some r \<Rightarrow> Inr r)) (\<lambda>r. close_pending (sh_id r) Withdrawn now)))"
    using close_pending_touches unfolding touches_def
    by (auto simp: require_owner_def bindT_def thenT_def local_check_run returnT_def queryT_def split: sum.splits option.splits)
  then show ?thesis unfolding linear_show_withdraw_def check_space_def check_issue_def by (intro touches_guarded readonly_local)
qed

lemma show_request_touches: "touches shown_after (linear_show_request h p known now ttl)"
proof -
  define space where "space = sp_space p"
  have "touches shown_after (transaction
        (bindT (readT (\<lambda>s. List.find (same_asker (sp_issue p) owner) (pending_show_requests s session space now))) (\<lambda>existing.
         case existing of
           Some before \<Rightarrow>
             thenT (storeT (refresh_show_request (sh_id before) reason requested_by expires_at))
             (bindT (readT (\<lambda>s. find_show s (sh_id before))) (\<lambda>after.
              returnT \<lparr>lc_before = Some before, lc_after = after\<rparr>))
         | None \<Rightarrow>
             bindT (storeT (add_show_request (ho_uuid h)
               \<lparr>ns_session = session, ns_space = space, ns_issue = sp_issue p, ns_reason = reason,
                ns_requested_by = requested_by, ns_owner = owner, ns_expires_at = expires_at\<rparr>)) (\<lambda>r.
             returnT \<lparr>lc_before = None, lc_after = Some r\<rparr>))))" (is "touches _ ?m") for owner session reason requested_by expires_at
  proof (rule touchesI)
    fix s c t assume inv: "linear_inv s" and run: "?m s = (Inr c, t)"
    show "within (shown_after c) s t"
    proof (cases "List.find (same_asker (sp_issue p) owner) (pending_show_requests s session space now)")
      case None
      then show ?thesis using run
        by (auto simp: transaction_ok_iff bind_read bindT_ok_iff storeT_ok add_show_request_def checkT_ok returnT_ok_iff new_show_row_def
            shown_after_def within_def outside_def space_view_def same_global_def)
    next
      case (Some before)
      then obtain b u where u: "refresh_show_request (sh_id before) reason requested_by expires_at s = (Inr b, u)" "t = u"
        "lc_after c = find_show u (sh_id before)"
        using run by (auto simp: transaction_ok_iff bind_read bindT_ok_iff thenT_ok_iff storeT_ok returnT_ok_iff)
      define f where "f = (\<lambda>r :: show_row. r\<lparr>sh_reason := reason, sh_requested_by := requested_by, sh_expires_at := ld_datetime s expires_at\<rparr>)"
      define P where "P = (\<lambda>r :: show_row. sh_id r = sh_id before \<and> sh_outcome r = None \<and> sh_acknowledged_at r = None)"
      have f: "u = s\<lparr>ld_shows := update_where P f (ld_shows s)\<rparr>" "\<And>r. P r \<Longrightarrow> sh_id r = sh_id before"
        "\<And>r. sh_space (f r) = sh_space r" "\<And>r. sh_id (f r) = sh_id r"
        using u(1) by (simp_all add: refresh_show_request_def checkT_ok update_open_show_def Let_def P_def f_def)
      show ?thesis
      proof (cases "lc_after c")
        case None
        then show ?thesis unfolding u(2) f(1)
          by (intro within_mono [OF update_shows_within [OF _ f(3)]]) (auto simp: shown_after_def)
      next
        case (Some r)
        then obtain x where x: "x \<in> set (ld_shows u)" "sh_id x = sh_id before" "r = show_request.truncate x"
          using u(3) lookup_Some by (fastforce simp: find_show_def)
        then obtain y where y: "y \<in> set (ld_shows s)" "sh_id y = sh_id before" "sh_space y = sh_space x"
          using f by (auto simp: update_where_def split: if_splits)
        have "sh_space w = sh_space x" if "w \<in> set (ld_shows s)" "P w" for w
          using id_unique [OF inv_ids(3) [OF inv] that(1) y(1)] f(2) [OF that(2)] y by auto
        then show ?thesis unfolding u(2) f(1)
          using Some x(3) by (intro update_shows_within [OF _ f(3)]) (auto simp: shown_after_def)
      qed
    qed
  qed simp
  then show ?thesis unfolding linear_show_request_def Let_def space_def by (intro touches_guarded readonly_require)
qed

section \<open>Bindings, grouping and activity\<close>

definition alters :: "('a \<Rightarrow> string set) \<Rightarrow> 'a local \<Rightarrow> bool" where
  \<comment> \<open>a success may also change what every space shows\<close>
  "alters f m \<longleftrightarrow> (\<forall>s r t. linear_inv s \<longrightarrow> m s = (r, t) \<longrightarrow> (case r of Inr x \<Rightarrow> outside (f x) s t | Inl e \<Rightarrow> within {} s t))"

lemma touches_alters: "touches f m \<Longrightarrow> alters f m"
  by (fastforce simp: touches_def alters_def within_outside split: sum.split)

lemma altersI:
  "atomic m \<Longrightarrow> (\<And>s x t. linear_inv s \<Longrightarrow> m s = (Inr x, t) \<Longrightarrow> outside (f x) s t) \<Longrightarrow> alters f m"
  unfolding alters_def atomic_def by (metis within_refl sum.case_eq_if sum.collapse)

lemma space_bind_outside:
  assumes run: "linear_space_bind p s = (Inr c, t)"
  shows "within {lsb_space p} s t"
proof -
  obtain b where b: "sb_space b = lsb_space p"
      and t: "t = s\<lparr>ld_space_bindings := Linear_Store.upsert sb_key b (ld_space_bindings s)\<rparr>"
  proof -
    define b where "b before = \<lparr>sb_session = (case claimed_session (clean_claims (lsb_claims p)) of Some x \<Rightarrow> x | None \<Rightarrow> ''default''),
            sb_space = lsb_space p, sb_project_id = lsb_project p,
            sb_display_name = (case before of Some b \<Rightarrow> sb_display_name b | None \<Rightarrow> None),
            sb_team_ids = (case before of Some b \<Rightarrow> if sb_project_id b = lsb_project p then sb_team_ids b else [] | None \<Rightarrow> []),
            sb_view = map_option (\<lambda>i. JObj [(''id'', JStr i)]) (lsb_view p)\<rparr>" for before :: "space_binding option"
    assume that: "\<And>b. sb_space b = lsb_space p \<Longrightarrow> t = s\<lparr>ld_space_bindings := Linear_Store.upsert sb_key b (ld_space_bindings s)\<rparr> \<Longrightarrow> thesis"
    have "\<exists>before. t = s\<lparr>ld_space_bindings := Linear_Store.upsert sb_key (space_binding.extend (b before) (space_binding_row.fields (ld_now s)))
        (ld_space_bindings s)\<rparr>"
      using run by (auto simp: linear_space_bind_def Let_def b_def thenT_ok_iff transaction_ok_iff bind_read bindT_ok_iff storeT_ok
          set_space_binding_def checkT_ok modifyT_ok_iff returnT_ok_iff check_space_def check_linear_id_def local_check_run
          split: option.splits)
    then show thesis by (elim exE, intro that) (auto simp: b_def space_binding.extend_def space_binding_row.fields_def)
  qed
  have "filter (\<lambda>r. sb_space r = sp) (Linear_Store.upsert sb_key b rows) = filter (\<lambda>r. sb_space r = sp) rows" if "sp \<noteq> lsb_space p"
    for sp and rows :: "space_binding_row list"
  proof (cases "sb_key b \<in> sb_key ` set rows")
    case False
    then show ?thesis using that b by (simp add: Linear_Store.upsert_def)
  next
    case True
    have "filter (\<lambda>r. sb_space r = sp) (map (\<lambda>x. if sb_key x = sb_key b then b else x) xs) = filter (\<lambda>r. sb_space r = sp) xs" for xs
      by (induction xs) (use that b in auto)
    then show ?thesis using True by (simp add: Linear_Store.upsert_def)
  qed
  then show ?thesis unfolding t by (simp add: within_def outside_def space_view_def same_global_def)
qed

lemma space_bind_reaches: "touches (\<lambda>_. {lsb_space p}) (linear_space_bind p)"
proof (rule touchesI [OF _ space_bind_outside])
  show "atomic (linear_space_bind p)"
    unfolding linear_space_bind_def Let_def
    by (intro atomic_then_readonly readonly_local atomic_transaction)
      (simp_all add: check_space_def check_linear_id_def split: option.split)
qed

lemma unbind_reaches: "alters (\<lambda>_. {}) (linear_unbind h cwd)"
  unfolding alters_def
  by (auto simp: linear_unbind_def bindT_def queryT_def thenT_def storeT_def remove_worktree_binding_def delete_rows_def returnT_def
      outside_def space_view_def split: prod.splits sum.splits option.splits)

lemma grouping_view: "space_view s sp = space_view (s\<lparr>ld_grouping := rows\<rparr>) sp"
  by (simp add: space_view_def)

lemma grouping_reaches: "alters (\<lambda>_. {}) (linear_grouping_change h p write)"
proof -
  have "(\<exists>e. linear_grouping_change h p write s = (Inl e, s)) \<or>
      (\<exists>c rows. linear_grouping_change h p write s = (Inr c, s\<lparr>ld_grouping := rows\<rparr>))" for s
  proof (cases "changed_grouping h p (get_grouping_config s)")
    case (Inr c)
    note changed = Inr
    show ?thesis
    proof (cases "validate_config c")
      case (Inr u)
      then have "config_ok c" by (simp flip: validate_config_ok)
      from replace_grouping_run [OF this] obtain rows where "replace_grouping c s = (Inr (), s\<lparr>ld_grouping := rows\<rparr>)" by blast
      moreover have "\<exists>rows. s = s\<lparr>ld_grouping := rows\<rparr>" by (intro exI [of _ "ld_grouping s"]) simp
      ultimately show ?thesis using changed Inr
        by (cases "write") (auto simp: linear_grouping_change_def bindT_def thenT_def readT_def queryT_def storeT_def returnT_def)
    next
      case (Inl e)
      then show ?thesis using changed
        by (simp add: linear_grouping_change_def bindT_def thenT_def readT_def queryT_def storeT_def)
    qed
  qed (simp add: linear_grouping_change_def bindT_def readT_def queryT_def)
  then have cases: "t = s \<or> (\<exists>c rows. r = Inr c \<and> t = s\<lparr>ld_grouping := rows\<rparr>)" if "linear_grouping_change h p write s = (r, t)" for s r t
    using that by (metis Pair_inject)
  have "case r of Inr x \<Rightarrow> outside {} s t | Inl e \<Rightarrow> within {} s t" if "linear_grouping_change h p write s = (r, t)" for s r t
    using cases [OF that]
  proof (elim disjE exE conjE)
    fix c rows assume "r = Inr c" "t = s\<lparr>ld_grouping := rows\<rparr>"
    then show ?thesis by (simp add: outside_def flip: grouping_view)
  qed (simp split: sum.split)
  then show ?thesis unfolding alters_def by blast
qed

lemma bind_reaches: "alters (\<lambda>b. mk_space ` set (lb_cleared b)) (linear_bind h p)"
proof (rule altersI [OF atomic_bind_worktree])
  fix s b t assume inv: "linear_inv s" and run: "linear_bind h p s = (Inr b, t)"
  obtain path u where u: "ld_marks u = ld_marks s" "space_view u = space_view s"
      "clear_suggestions_naming (bi_issue p) path u = (Inr (lb_cleared b), t)"
  proof -
    assume that: "\<And>u path. ld_marks u = ld_marks s \<Longrightarrow> space_view u = space_view s \<Longrightarrow>
        clear_suggestions_naming (bi_issue p) path u = (Inr (lb_cleared b), t) \<Longrightarrow> thesis"
    obtain path where path: "resolve_worktree h (bi_cwd p) = Inr path"
      using run by (auto simp: linear_bind_def thenT_def bindT_def check_issue_def local_check_run rejectT_def throwT_def split: sum.splits if_splits)
    let ?b = "bound_to p path (worktree_binding s path)"
    let ?u = "s\<lparr>ld_worktree_bindings := Linear_Store.upsert wb_path (worktree_binding.extend ?b (worktree_binding_row.fields (ld_now s)))
        (ld_worktree_bindings s)\<rparr>"
    have "clear_suggestions_naming (bi_issue p) path ?u = (Inr (lb_cleared b), t)"
      using run path linear_bind_run(1) [OF run path]
      by (auto simp: linear_bind_def thenT_ok_iff transaction_ok_iff bind_read then_return bindT_ok_iff check_issue_def local_check_run
          returnT_ok_iff storeT_ok set_worktree_binding_def checkT_ok modifyT_ok_iff)
    then show thesis by (intro that [of ?u path]) (auto simp: space_view_def [abs_def])
  qed
  define found where "found = filter (\<lambda>m. mk_kind m = Suggestion) (issue_marks u (bi_issue p))"
  have result: "(t = u \<and> lb_cleared b = []) \<or> (lb_cleared b = found \<and> t = u\<lparr>ld_marks := filter (\<lambda>r. mk_id r \<notin> set (map mk_id found)) (ld_marks u)\<rparr>)"
    using u(3) by (auto simp: clear_suggestions_naming_def bind_read found_def [symmetric] thenT_ok_iff remove_marks_run returnT_ok_iff split: if_splits)
  have "\<exists>r \<in> set (ld_marks u). mk_id r = i \<and> mk_space r \<in> mk_space ` set found" if "i \<in> set (map mk_id found)" for i
    using marks_of_selection that unfolding found_def issue_marks_def by blast
  then have "outside (mk_space ` set found) u (u\<lparr>ld_marks := filter (\<lambda>r. mk_id r \<notin> set (map mk_id found)) (ld_marks u)\<rparr>)"
    by (intro within_outside remove_marks_within) (simp_all add: u(1) inv_ids(1) [OF inv])
  then have "outside (mk_space ` set (lb_cleared b)) u t" using result by auto
  then show "outside (mk_space ` set (lb_cleared b)) s t" by (simp add: outside_def u(2))
qed

lemma record_activity_run:
  assumes "linear_inv s" "record_activity uuid a s = (Inr x, t)"
  shows "av_space x = na_space a \<and> within A s t \<and> linear_inv t"
proof -
  let ?r = "new_activity_row s a"
  let ?u = "s\<lparr>ld_activity := ld_activity s @ [?r]\<rparr>"
  obtain y where y: "lookup av_id (av_id ?r) (ld_activity t) = Some y" "x = linear_activity.truncate y"
      and t: "t = prune_activity (na_session a) (na_space a) activity_keep ?u"
    using assms(2) by (auto simp: record_activity_def checkT_ok transaction_ok_iff bindT_ok_iff thenT_ok_iff modifyT_ok_iff queryT_ok_iff
        split: option.splits)
  have "y \<in> set (ld_activity s @ [?r])" using lookup_Some [OF y(1)] unfolding t prune_activity_def by (simp add: set_filter del: filter_append)
  moreover have "y \<notin> set (ld_activity s)"
    using lookup_Some [OF y(1)] next_id_notin [of av_id "ld_activity s"] by (auto simp: new_activity_row_def) (metis image_eqI)
  ultimately have "y = ?r" by simp
  then have "av_space x = na_space a" using y(2) by (simp add: new_activity_row_def linear_activity.truncate_def)
  moreover have "within A s t" unfolding t by (simp add: prune_activity_def within_def outside_def space_view_def same_global_def)
  moreover have "linear_inv t" using keeps_activity [of uuid a] assms by (auto simp: keeps_def dest: arg_cong [where f = snd])
  ultimately show ?thesis by blast
qed

definition activity_told :: "activity_result \<Rightarrow> string set" where
  "activity_told r = (case av_space (ar_activity r) of None \<Rightarrow> UNIV | Some sp \<Rightarrow> insert sp (mk_space ` set (ar_cleared r)))"

lemma link_reaches:
  assumes "av_space a = Some space"
  shows "alters activity_told (link_or_suggest h p claims a issue space)"
proof -
  have suggest: "alters activity_told (suggest_issue h p claims a issue space w)" for w
    unfolding alters_def
  proof (intro allI impI)
    fix s r t assume inv: "linear_inv s" and run: "suggest_issue h p claims a issue space w s = (r, t)"
    define m where "m = \<lparr>nm_session = herdr_session (ac_socket claims), nm_space = space, nm_issue = issue, nm_kind = Suggestion, nm_text = None,
        nm_detail = Some (suggestion_detail w (ap_cwd p) claims), nm_created_by = Some (ap_tool_name p), nm_owner = no_owner\<rparr>"
    show "case r of Inr x \<Rightarrow> outside (activity_told x) s t | Inl e \<Rightarrow> within {} s t"
    proof (cases "replace_mark h m s")
      case (Pair x u)
      show ?thesis
      proof (cases x)
        case (Inl e)
        then have "u = s" using Pair replace_mark_fails by blast
        then show ?thesis using run Pair Inl by (auto simp: suggest_issue_def m_def [symmetric] bindT_def)
      next
        case (Inr res)
        have "outside {space} s u"
          unfolding replace_mark_run(1) [OF inv_ids(1) [OF inv] Pair [unfolded Inr]]
          using within_outside [OF with_mark_within [of m s]] by (simp add: m_def)
        then have "outside (activity_told y) s u" if "ar_activity y = a" for y
          using that assms by (auto simp: activity_told_def elim!: outside_mono)
        then show ?thesis using run Pair Inr by (auto simp: suggest_issue_def m_def [symmetric] bindT_def returnT_def)
      qed
    qed
  qed
  have link: "alters activity_told (link_issue h claims a issue space path)" for path
    using bind_reaches unfolding alters_def link_issue_def
    by (fastforce simp: bindT_def returnT_def activity_told_def assms elim!: outside_mono split: prod.splits sum.splits)
  show ?thesis unfolding alters_def
  proof (intro allI impI)
    fix s r t assume "linear_inv s" "link_or_suggest h p claims a issue space s = (r, t)"
    then show "case r of Inr x \<Rightarrow> outside (activity_told x) s t | Inl e \<Rightarrow> within {} s t"
      using suggest link by (auto simp: link_or_suggest_def alters_def split: option.splits if_splits)
  qed
qed

lemma activity_reaches: "alters activity_told (linear_activity_record h p)"
  unfolding alters_def
proof (intro allI impI)
  fix s r t assume inv: "linear_inv s" and run: "linear_activity_record h p s = (r, t)"
  define claims where "claims = clean_claims (ap_claims p)"
  define space where "space = claimed_space (ap_space p) claims"
  define new where "new = \<lparr>na_session = herdr_session (ac_socket claims), na_space = space, na_tool_name = ap_tool_name p,
      na_issue = ap_issue p, na_claims = claims\<rparr>"
  obtain c where check: "(case ap_issue p of Some issue \<Rightarrow> check_issue h issue | None \<Rightarrow> returnT ()) s = (c, s)"
    by (cases "ap_issue p") (auto simp: check_issue_def local_check_run returnT_def)
  show "case r of Inr x \<Rightarrow> outside (activity_told x) s t | Inl e \<Rightarrow> within {} s t"
  proof (cases c)
    case (Inl e)
    then show ?thesis using run check by (auto simp: linear_activity_record_def Let_def thenT_def bindT_def)
  next
    case (Inr c')
    show ?thesis
    proof (cases "record_activity (ho_uuid h) new s")
      case (Pair x u)
      show ?thesis
      proof (cases x)
        case (Inl e)
        have "u = s" using Pair Inl by (auto simp: record_activity_def checkT_run transaction_def split: sum.splits prod.splits)
        then show ?thesis using run check Inr Pair Inl
          by (auto simp: linear_activity_record_def Let_def claims_def [symmetric] space_def [symmetric] new_def [symmetric]
              thenT_def bindT_def storeT_def)
      next
        case (Inr a)
        note facts = record_activity_run [OF inv Pair [unfolded Inr], of "{}"]
        have rest: "(case (ap_issue p, space) of (Some issue, Some sp) \<Rightarrow>
            if is_save_issue (ap_tool_name p) then link_or_suggest h p claims a issue sp else returnT (recorded a)
          | _ \<Rightarrow> returnT (recorded a)) u = (r, t)"
          using run check \<open>c = Inr c'\<close> Pair Inr
          unfolding linear_activity_record_def Let_def claims_def [symmetric] space_def [symmetric] new_def [symmetric]
          by (simp add: thenT_def bindT_def storeT_def)
        have "alters activity_told (case (ap_issue p, space) of (Some issue, Some sp) \<Rightarrow>
            if is_save_issue (ap_tool_name p) then link_or_suggest h p claims a issue sp else returnT (recorded a)
          | _ \<Rightarrow> returnT (recorded a))"
          using facts link_reaches [of a] by (auto simp: alters_def returnT_def new_def split: option.split)
        then have "case r of Inr x \<Rightarrow> outside (activity_told x) u t | Inl e \<Rightarrow> within {} u t"
          using rest facts unfolding alters_def by blast
        then show ?thesis using facts by (cases r) (auto intro: within_trans outside_trans [OF within_none])
      qed
    qed
  qed
qed

section \<open>Announcing\<close>

definition told :: "event list \<Rightarrow> string set" where
  \<comment> \<open>the spaces whose boards an announcement alters; one without a space alters all\<close>
  "told evs = (if EvLocalStateChanged None False \<in> set evs then UNIV else {sp. EvLocalStateChanged (Some sp) False \<in> set evs})"

definition says :: "event list \<Rightarrow> linear_daemon \<Rightarrow> linear_daemon \<Rightarrow> bool" where
  "says evs d d' \<longleftrightarrow> la_db d' = la_db d \<and> la_events d' = la_events d @ evs"

lemma says_trans: "says xs d d' \<Longrightarrow> says ys d' d'' \<Longrightarrow> says (xs @ ys) d d''" and says_nil [simp]: "says [] d d"
  by (simp_all add: says_def)

abbreviation changed :: "string \<Rightarrow> event" where
  "changed sp \<equiv> EvLocalStateChanged (Some sp) False"

lemma sorted_set [simp]: "set (sorted_set xs) = set xs" "distinct (sorted_set xs)"
  by (simp_all add: sorted_set_def)

lemma for_announce: "forT sps (\<lambda>sp. announce (Some sp)) d = (Inr (), d\<lparr>la_events := la_events d @ map changed sps\<rparr>)"
  by (induction sps arbitrary: d) (simp_all add: returnT_def thenT_def bindT_def announce_def modifyT_def)

lemma announce_spaces_run: "announce_spaces sps d = (Inr (), d\<lparr>la_events := la_events d @ map changed (sorted_set sps)\<rparr>)"
  by (simp add: announce_spaces_def for_announce)

definition cleared_events :: "string option \<Rightarrow> mark list \<Rightarrow> event list" where
  "cleared_events primary ms =
     (case primary of None \<Rightarrow> [] | Some p \<Rightarrow> map changed (sorted_set (filter (\<lambda>sp. sp \<noteq> p) (map mk_space ms))))"

lemma announce_cleared_run: "announce_cleared primary ms d = (Inr (), d\<lparr>la_events := la_events d @ cleared_events primary ms\<rparr>)"
  by (simp add: announce_cleared_def cleared_events_def announce_spaces_run returnT_def split: option.split)

lemma schedule_refetch_says: "\<exists>d'. schedule_refetch session sp d = (Inr (), d') \<and> says [] d d'"
  by (simp add: schedule_refetch_def modifyT_def Let_def says_def split: prod.split option.split)

lemma told_events [simp]:
  "told [EvLocalStateChanged None False] = UNIV" "told [changed sp] = {sp}" "told (map changed sps) = set sps"
  "told (EvLocalStateChanged None False # evs) = UNIV" "told (EvLocalStateChanged primary False # cleared_events primary ms) =
    (case primary of None \<Rightarrow> UNIV | Some sp \<Rightarrow> insert sp (mk_space ` set ms))"
  by (auto simp: told_def cleared_events_def split: option.split)

definition reported :: "bool \<Rightarrow> linear_daemon \<Rightarrow> linear_daemon \<Rightarrow> bool" where
  "reported failed d d' \<longleftrightarrow>
     (\<exists>evs. la_events d' = la_events d @ evs \<and> distinct evs \<and> set evs \<subseteq> range (\<lambda>sp. EvLocalStateChanged sp False) \<and>
       outside (told evs) (la_db d) (la_db d') \<and> (evs = [] \<longrightarrow> same_global (la_db d) (la_db d')) \<and>
       (failed \<longrightarrow> evs = [] \<and> outside {} (la_db d) (la_db d')))"

definition announced :: "'a lop \<Rightarrow> bool" where
  "announced m \<longleftrightarrow> (\<forall>d. linear_inv (la_db d) \<longrightarrow> reported (isl (fst (m d))) d (snd (m d)))"

lemma announced_quiet: "(\<And>d. la_db (snd (m d)) = la_db d \<and> la_events (snd (m d)) = la_events d) \<Longrightarrow> announced m"
  by (auto simp: announced_def reported_def same_global_def intro!: exI [of _ "[]"])

lemma announced_map: "announced m \<Longrightarrow> announced (mapT f m)"
proof -
  have "snd (mapT f m d) = snd (m d) \<and> isl (fst (mapT f m d)) = isl (fst (m d))" for d
    by (simp add: mapT_def bindT_def returnT_def split: prod.split sum.split)
  then show "announced m \<Longrightarrow> announced (mapT f m)" by (simp add: announced_def)
qed

lemma announced_after_read: "(\<And>x. announced (k x)) \<Longrightarrow> announced (bindT (readT g) k)"
  by (simp add: announced_def bindT_def readT_def)

lemma announced_after_store:
  assumes m: "alters f m"
    and k: "\<And>x d. \<exists>y d'. k x d = (Inr y, d') \<and> says (evs x) d d'"
    and evs: "\<And>x. distinct (evs x) \<and> set (evs x) \<subseteq> range (\<lambda>sp. EvLocalStateChanged sp False) \<and> f x \<subseteq> told (evs x)"
    and quiet: "\<And>s x t. linear_inv s \<Longrightarrow> m s = (Inr x, t) \<Longrightarrow> evs x = [] \<Longrightarrow> same_global s t"
  shows "announced (bindT (on_ldb m) k)"
  unfolding announced_def
proof (intro allI impI)
  fix d :: linear_daemon assume inv: "linear_inv (la_db d)"
  show "reported (isl (fst (bindT (on_ldb m) k d))) d (snd (bindT (on_ldb m) k d))"
  proof (cases "m (la_db d)")
    case (Pair x t)
    show ?thesis
    proof (cases x)
      case (Inl e)
      then have "within {} (la_db d) t" using m inv Pair by (fastforce simp: alters_def)
      then show ?thesis using Pair Inl by (auto simp: bindT_def on_ldb_def within_def told_def reported_def)
    next
      case (Inr y)
      then have "outside (f y) (la_db d) t" using m inv Pair by (fastforce simp: alters_def)
      then have "outside (told (evs y)) (la_db d) t" using evs [of y] outside_mono by blast
      moreover obtain z u where "k y (d\<lparr>la_db := t\<rparr>) = (Inr z, u)" "says (evs y) (d\<lparr>la_db := t\<rparr>) u" using k by blast
      ultimately show ?thesis
        using Pair Inr evs [of y] quiet [OF inv, of y t] by (simp add: bindT_def on_ldb_def says_def reported_def)
    qed
  qed
qed

lemma announce_says: "\<exists>y d'. thenT (announce sp) (returnT x) d = (Inr y, d') \<and> says [EvLocalStateChanged sp False] d d'"
  by (simp add: thenT_def bindT_def announce_def modifyT_def returnT_def says_def)

lemma announced_one:
  assumes "alters f m" "\<And>x. f x \<subseteq> (case sp x of None \<Rightarrow> UNIV | Some p \<Rightarrow> {p})"
  shows "announced (bindT (on_ldb m) (\<lambda>x. thenT (announce (sp x)) (returnT (g x))))"
proof (rule announced_after_store [OF assms(1) announce_says])
  show "distinct [EvLocalStateChanged (sp x) False] \<and> set [EvLocalStateChanged (sp x) False] \<subseteq> range (\<lambda>sp. EvLocalStateChanged sp False) \<and>
      f x \<subseteq> told [EvLocalStateChanged (sp x) False]" for x
    using assms(2) [of x] by (auto split: option.splits)
qed simp

lemma announced_many:
  assumes "touches (\<lambda>removed. mk_space ` set removed) m"
  shows "announced (bindT (on_ldb m) (\<lambda>removed. thenT (announce_spaces (map mk_space removed)) (returnT (g removed))))"
proof (rule announced_after_store [OF touches_alters [OF assms], where evs = "\<lambda>removed. map changed (sorted_set (map mk_space removed))"])
  show "\<exists>y d'. thenT (announce_spaces (map mk_space x)) (returnT (g x)) d = (Inr y, d') \<and> says (map changed (sorted_set (map mk_space x))) d d'"
    for x d by (simp add: thenT_def bindT_def announce_spaces_run returnT_def says_def)
  show "same_global s t" if "linear_inv s" "m s = (Inr x, t)" for s x t
    using assms that by (fastforce simp: touches_def within_def)
qed (auto simp: distinct_map inj_on_def)

lemma announced_pure: "(\<And>d. \<exists>x. q d = (Inr x, d)) \<Longrightarrow> (\<And>x. announced (k x)) \<Longrightarrow> announced (bindT q k)"
  unfolding announced_def bindT_def by (metis (no_types, lifting) case_prod_conv sum.simps(6))

lemma subset_all: "A \<subseteq> (case x of None \<Rightarrow> UNIV | Some p \<Rightarrow> {p}) \<longleftrightarrow> (\<forall>p. x = Some p \<longrightarrow> A \<subseteq> {p})"
  by (auto split: option.splits)

lemma announced_bind: "announced (op_bind e p)"
proof -
  define primary where "primary = claimed_space (bi_space p) (clean_claims (bi_claims p))"
  define evs where "evs b = EvLocalStateChanged primary False # cleared_events primary (lb_cleared b)" for b :: linear_bound
  have "announced (bindT (on_ldb (linear_bind (le_host e) p)) (\<lambda>bound.
      thenT (announce primary) (thenT (announce_cleared primary (lb_cleared bound)) (returnT bound))))"
  proof (rule announced_after_store [OF bind_reaches, where evs = evs])
    show "\<exists>y d'. thenT (announce primary) (thenT (announce_cleared primary (lb_cleared b)) (returnT b)) d = (Inr y, d') \<and> says (evs b) d d'"
      for b d by (simp add: thenT_def bindT_def announce_def modifyT_def announce_cleared_run returnT_def says_def evs_def)
    show "distinct (evs b) \<and> set (evs b) \<subseteq> range (\<lambda>sp. EvLocalStateChanged sp False) \<and> mk_space ` set (lb_cleared b) \<subseteq> told (evs b)" for b
      unfolding evs_def told_events by (auto simp: cleared_events_def distinct_map inj_on_def split: option.split)
  qed (simp add: evs_def)
  then show ?thesis by (simp add: op_bind_def Let_def primary_def)
qed

lemma announced_activity: "announced (op_activity_record e p)"
proof -
  define claims where "claims = clean_claims (ap_claims p)"
  define evs where "evs r = (let primary = av_space (ar_activity r) in EvLocalStateChanged primary False # cleared_events primary (ar_cleared r))" for r :: activity_result
  have told: "announced (bindT (on_ldb (linear_activity_record (le_host e) q)) (\<lambda>result.
      (let primary = av_space (ar_activity result) in
       thenT (activity_recorded claims primary)
       (thenT (announce primary) (thenT (announce_cleared primary (ar_cleared result)) (returnT result))))))" for q
  proof (rule announced_after_store [OF activity_reaches, where evs = evs])
    show "\<exists>y d'. (let primary = av_space (ar_activity r) in thenT (activity_recorded claims primary)
       (thenT (announce primary) (thenT (announce_cleared primary (ar_cleared r)) (returnT r)))) d = (Inr y, d') \<and> says (evs r) d d'" for r d
    proof -
      obtain d1 where "activity_recorded claims (av_space (ar_activity r)) d = (Inr (), d1)" "says [] d d1"
      proof (cases "av_space (ar_activity r)")
        case (Some sp)
        assume that: "\<And>d1. activity_recorded claims (av_space (ar_activity r)) d = (Inr (), d1) \<Longrightarrow> says [] d d1 \<Longrightarrow> thesis"
        show thesis using schedule_refetch_says [of "herdr_session (ac_socket claims)" sp d] that Some by (auto simp: activity_recorded_def)
      qed (simp add: activity_recorded_def returnT_def)
      then show ?thesis
        by (simp add: Let_def thenT_def bindT_def announce_def modifyT_def announce_cleared_run returnT_def says_def evs_def)
    qed
    show "distinct (evs r) \<and> set (evs r) \<subseteq> range (\<lambda>sp. EvLocalStateChanged sp False) \<and> activity_told r \<subseteq> told (evs r)" for r
      unfolding evs_def Let_def told_events activity_told_def
      by (auto simp: cleared_events_def distinct_map inj_on_def split: option.split)
  qed (simp add: evs_def Let_def)
  note told = told [unfolded Let_def]
  show ?thesis unfolding op_activity_record_def Let_def claims_def [symmetric]
    by (rule announced_pure [OF _ told]) (auto simp: resolve_known_def readT_def bindT_def returnT_def split: option.split)
qed

lemma bind_query: "f d = Inr x \<Longrightarrow> bindT (queryT f) k d = k x d"
  by (simp add: bindT_def queryT_def)

lemma announced_mark_clear: "announced (op_mark_clear i is)"
proof (cases "mark_clear_target i is")
  case (Inl e)
  then show ?thesis by (intro announced_quiet) (simp add: op_mark_clear_def bindT_def queryT_def)
next
  case (Inr target)
  have one: "announced (bindT (on_ldb (linear_mark_clear i)) (\<lambda>change.
         thenT (announce (map_option mk_space (lc_before change))) (returnT (ClearedOne change))))" for i
    by (rule announced_one [OF touches_alters [OF mark_clear_touches]]) (simp split: option.split)
  note many = announced_many [OF clear_ids_touches, where g = ClearedMany]
  show ?thesis using Inr one many
    by (cases target) (simp_all add: op_mark_clear_def announced_def bind_query)
qed

lemma announced_reads:
  "announced (op_state_get e socket space)" "announced (op_grouping_get gs)" "announced (op_session_get e sg)"
  "announced (op_activity_list asp limit asocket)"
  by (rule announced_quiet, simp add: op_state_get_def op_grouping_get_def op_session_get_def op_activity_list_def readT_def)+

lemma announced_preview: "announced (op_grouping_preview e p)"
proof (rule announced_quiet)
  fix d :: linear_daemon
  have "snd (linear_grouping_change (le_host e) p False (la_db d)) = la_db d"
    by (simp add: linear_grouping_change_def bindT_def thenT_def readT_def queryT_def storeT_def returnT_def split: sum.split prod.split)
  then show "la_db (snd (op_grouping_preview e p d)) = la_db d \<and> la_events (snd (op_grouping_preview e p d)) = la_events d"
    by (auto simp: op_grouping_preview_def on_ldb_def split: prod.split sum.split)
qed

lemma answer_told: "shown_before c \<subseteq> (case map_option sh_space (lc_before c) of None \<Rightarrow> UNIV | Some p \<Rightarrow> {p})"
    "shown_after c \<subseteq> (case map_option sh_space (lc_after c) of None \<Rightarrow> UNIV | Some p \<Rightarrow> {p})"
  by (simp_all add: shown_before_def shown_after_def split: option.split)

lemma announced_handlers:
  "announced (op_space_bind e sb)" "announced (op_unbind e ub)" "announced (op_grouping_set e gp)" "announced (op_mark_set e ms)"
  "announced (op_mark_unmark e mu)" "announced (op_note_set e np)" "announced (op_note_clear i)" "announced (op_show_request e shr)"
  "announced (op_show_accept e i)" "announced (op_show_dismiss e i)" "announced (op_show_withdraw e sw)"
proof -
  show "announced (op_space_bind e sb)"
    unfolding op_space_bind_def by (rule announced_one [OF touches_alters [OF space_bind_reaches]]) simp
  show "announced (op_unbind e ub)"
    unfolding op_unbind_def Let_def by (rule announced_one [OF unbind_reaches]) simp
  show "announced (op_grouping_set e gp)"
    unfolding op_grouping_set_def by (rule announced_one [OF grouping_reaches]) simp
  show "announced (op_mark_set e ms)"
    unfolding op_mark_set_def resolve_known_def split_def
    by (intro announced_after_read announced_one [OF touches_alters [OF mark_set_touches]]) simp
  show "announced (op_mark_unmark e mu)"
    unfolding op_mark_unmark_def resolve_known_def split_def
    by (intro announced_after_read announced_many unmark_touches)
  show "announced (op_note_set e np)"
    unfolding op_note_set_def resolve_known_def split_def
    by (intro announced_after_read announced_one [OF touches_alters [OF note_set_touches]]) simp
  show "announced (op_note_clear i)"
    unfolding op_note_clear_def by (rule announced_one [OF touches_alters [OF note_clear_touches]]) (simp split: option.split)
  show "announced (op_show_request e shr)"
    unfolding op_show_request_def resolve_known_def split_def
    by (intro announced_after_read announced_one [OF touches_alters [OF show_request_touches]] answer_told)
  show "announced (op_show_accept e i)" "announced (op_show_dismiss e i)"
    unfolding op_show_accept_def op_show_dismiss_def linear_show_accept_def linear_show_dismiss_def
    by (intro announced_one [OF touches_alters [OF close_pending_touches]] answer_told)+
  show "announced (op_show_withdraw e sw)"
    unfolding op_show_withdraw_def resolve_known_def split_def
    by (intro announced_after_read announced_one [OF touches_alters [OF withdraw_touches]] answer_told)
qed

lemma announced_handle: "announced (handle_linear e q)"
  by (cases q) (simp_all add: announced_map announced_reads announced_preview announced_handlers announced_bind announced_activity
      announced_mark_clear)


definition sample_linear_env :: linear_env where
  "sample_linear_env = \<lparr>le_host = sample_host, le_now = 30, le_show_ttl = 60, le_decoders =
     \<lparr>de_issue = (\<lambda>_. None), de_states = (\<lambda>_. None), de_preferences = (\<lambda>_. None), de_lower = (\<lambda>x. x), de_float = (\<lambda>_. 0)\<rparr>\<rparr>"

definition sample_daemon :: linear_daemon where
  "sample_daemon = \<lparr>la_db = sample_linear, la_cache = (\<lambda>_. None), la_instant = 0, la_passes = (\<lambda>_. None), la_refetches = [], la_events = []\<rparr>"

definition sample_unmark :: linear_request where
  "sample_unmark = ReqMarkUnmark \<lparr>mu_space = ''w1'', mu_issue = ''WEB-1'', mu_kind = None, mu_owner = sample_owner\<rparr>"


end
