(* ===== verification/Linear_Cache_Properties.thy ===== *)
theory Linear_Cache_Properties
  imports Linear_Cache
begin

text \<open>
  What callers of the snapshot cache and of the debouncer may rely on, for every interleaving: no reader is stranded, one fetch
  per space, an answer no older than the last reported write, no scheduled refetch lost. At the end, two interleavings
  in which the cache gives away too much: after \<open>remove\<close>, and after a change of plan.
\<close>

section \<open>Schedules\<close>

text \<open>A schedule is a list of events; it runs to a state when every event is possible where it happens.\<close>

datatype ('k, 'p, 't) cache_event =
    Tick nat
  | BeginRead nat 'k 'p
  | TakeTurn nat
  | StartFetch nat
  | FinishFetch nat "string + 't"
  | Unwinds nat
  | Invalidated 'k
  | Removed 'k

definition cache_start :: "('k, 'p, 't) cache_state" where
  "cache_start = \<lparr>ca_entries = Map.empty, ca_now = 0, ca_threads = (\<lambda>_. Idle), ca_reported = Map.empty\<rparr>"

definition cache_event ::
  "bool \<Rightarrow> nat \<Rightarrow> ('p \<Rightarrow> nat \<Rightarrow> nat \<Rightarrow> 't \<Rightarrow> bool) \<Rightarrow> ('k, 'p, 't) cache_event \<Rightarrow> ('k, 'p, 't) cache_state \<Rightarrow> ('k, 'p, 't) cache_state option" where
  "cache_event removals ttl fetched ev s =
     (case ev of
        Tick d \<Rightarrow> Some (s\<lparr>ca_now := ca_now s + d\<rparr>)
      | BeginRead i k p \<Rightarrow>
          (case ca_threads s i of Idle \<Rightarrow> Some (s\<lparr>ca_threads := (ca_threads s)(i := Looping k p (ca_reported s k))\<rparr>) | _ \<Rightarrow> None)
      | TakeTurn i \<Rightarrow>
          (case ca_threads s i of
             Looping k p since \<Rightarrow>
               (case read_loop k p ttl (ca_now s) (ca_entries s) of (r, es) \<Rightarrow>
                 Some (s\<lparr>ca_entries := es, ca_threads := (ca_threads s)(i := after_loop k p since (ca_now s) r)\<rparr>))
           | _ \<Rightarrow> None)
      | StartFetch i \<Rightarrow>
          (case ca_threads s i of
             Claimed k p since \<Rightarrow> Some (s\<lparr>ca_threads := (ca_threads s)(i := Fetching k p since (ca_now s))\<rparr>) | _ \<Rightarrow> None)
      | FinishFetch i outcome \<Rightarrow>
          (case ca_threads s i of
             Fetching k p since started \<Rightarrow>
               if (case outcome of Inl _ \<Rightarrow> True | Inr v \<Rightarrow> fetched p started (ca_now s) v) then
                 (case read_finish k started (ca_now s) outcome (ca_entries s) of (r, es) \<Rightarrow>
                   Some (s\<lparr>ca_entries := es, ca_threads := (notify_all (ca_threads s))(i := Returned k p since r (ca_now s))\<rparr>))
               else None
           | _ \<Rightarrow> None)
      | Unwinds i \<Rightarrow>
          (case ca_threads s i of
             Fetching k p since started \<Rightarrow>
               Some (s\<lparr>ca_entries := drop_in_flight k (ca_entries s), ca_threads := (notify_all (ca_threads s))(i := Unwound)\<rparr>)
           | _ \<Rightarrow> None)
      | Invalidated k \<Rightarrow>
          (case cache_invalidate k (ca_now s) (ca_entries s) of (r, es) \<Rightarrow>
            Some (s\<lparr>ca_entries := es, ca_reported := (ca_reported s)(k \<mapsto> ca_now s)\<rparr>))
      | Removed k \<Rightarrow>
          if removals then Some (s\<lparr>ca_entries := cache_remove k (ca_entries s), ca_threads := notify_all (ca_threads s)\<rparr>) else None)"

fun cache_schedule ::
  "bool \<Rightarrow> nat \<Rightarrow> ('p \<Rightarrow> nat \<Rightarrow> nat \<Rightarrow> 't \<Rightarrow> bool) \<Rightarrow> ('k, 'p, 't) cache_event list \<Rightarrow> ('k, 'p, 't) cache_state \<Rightarrow> ('k, 'p, 't) cache_state option" where
  "cache_schedule removals ttl fetched [] s = Some s"
| "cache_schedule removals ttl fetched (ev # evs) s =
     (case cache_event removals ttl fetched ev s of None \<Rightarrow> None | Some t \<Rightarrow> cache_schedule removals ttl fetched evs t)"

lemma cache_event_step: "cache_event removals ttl fetched ev s = Some t \<Longrightarrow> cache_step removals ttl fetched s t"
  by (auto simp: cache_event_def simp del: fun_upd_apply notified_not_waiting intro: cache_step.intros split: cache_event.splits reader.splits prod.splits if_splits)

lemma cache_schedule_reachable:
  "cache_schedule removals ttl fetched evs s = Some t \<Longrightarrow> cache_reachable removals ttl fetched s \<Longrightarrow> cache_reachable removals ttl fetched t"
  by (induction evs arbitrary: s) (auto split: option.splits dest: cache_event_step intro: cache_reachable.step)

lemma cache_start_reachable: "cache_reachable removals ttl fetched cache_start"
  unfolding cache_start_def by (rule cache_reachable.start)

lemmas schedule_simps = cache_start_def cache_event_def read_loop_def new_entry_def claim_entry_def entry_fresh_def entry_read_def
  read_finish_def finished_entry_def drop_in_flight_def cache_invalidate_def cache_remove_def notify_all_def after_loop_def
  Let_def

section \<open>No reader is stranded\<close>

lemma release_wakes:
  assumes "cache_step removals ttl fetched s t" "in_flight k (ca_threads s j)" "\<not> in_flight k (ca_threads t j)"
    and waiting: "ca_threads s i = Waiting k p since"
  shows "ca_threads t i = Looping k p since"
proof -
  have ne: "i \<noteq> j" using assms(2) waiting by auto
  show ?thesis
    using assms(1)
  proof cases
    case (finish_fetch a k' p' since' started outcome r es)
    then show ?thesis using assms(2,3) waiting ne by (cases "a = j") (auto simp: notify_all_def)
  next
    case (unwind a k' p' since' started)
    then show ?thesis using assms(2,3) waiting ne by (cases "a = j") (auto simp: notify_all_def)
  next
    case (start_fetch a k' p' since')
    then show ?thesis using assms(2,3) by (cases "a = j") auto
  next
    case (take_turn a k' p' since' r es)
    then show ?thesis using assms(2,3) by (cases "a = j") auto
  next
    case (remove_key k')
    then show ?thesis using waiting by (simp add: notify_all_def)
  next
    case (begin_read a k' p')
    then show ?thesis using assms(2,3) by (cases "a = j") auto
  next
    case (spurious a k' p' since')
    then show ?thesis using assms(2,3) by (cases "a = j") auto
  qed (use assms(2,3) in auto)
qed

lemma holder_can_release:
  assumes "in_flight k (ca_threads s j)"
  shows "\<exists>t. (cache_step removals ttl fetched)\<^sup>*\<^sup>* s t \<and> \<not> busy (ca_entries t) k \<and>
    (\<forall>i p since. ca_threads s i = Waiting k p since \<longrightarrow> ca_threads t i = Looping k p since)"
proof -
  have fetching: ?thesis if "(cache_step removals ttl fetched)\<^sup>*\<^sup>* s u" "ca_threads u j = Fetching k p since started"
    "\<forall>i. i \<noteq> j \<longrightarrow> ca_threads u i = ca_threads s i" for u p since started
  proof -
    obtain r es where run: "read_finish k started (ca_now u) (Inl []) (ca_entries u) = (r, es)" by (metis surj_pair)
    let ?t = "u\<lparr>ca_entries := es, ca_threads := (notify_all (ca_threads u))(j := Returned k p since r (ca_now u))\<rparr>"
    have "cache_step removals ttl fetched u ?t" by (rule cache_step.finish_fetch [OF that(2) _ run]) simp
    then have "(cache_step removals ttl fetched)\<^sup>*\<^sup>* s ?t" using that(1) by (rule rtranclp.rtrancl_into_rtrancl [rotated])
    moreover have "\<not> busy (ca_entries ?t) k" using busy_read_finish [OF run] by simp
    moreover have "ca_threads ?t i = Looping k q n" if w: "ca_threads s i = Waiting k q n" for i q n
      using w assms that \<open>\<forall>i. i \<noteq> j \<longrightarrow> ca_threads u i = ca_threads s i\<close> by (cases "i = j") (auto simp: notify_all_def)
    ultimately show ?thesis by blast
  qed
  show ?thesis
  proof (cases "ca_threads s j")
    case (Claimed k' p since)
    then have "ca_threads s j = Claimed k p since" using assms by simp
    then have "cache_step removals ttl fetched s (s\<lparr>ca_threads := (ca_threads s)(j := Fetching k p since (ca_now s))\<rparr>)"
      by (rule cache_step.start_fetch)
    then show ?thesis by (intro fetching [OF r_into_rtranclp]) auto
  next
    case (Fetching k' p since started)
    then show ?thesis using assms by (intro fetching [OF rtranclp.rtrancl_refl]) auto
  qed (use assms in auto)
qed

definition settled :: "'k \<Rightarrow> 'p \<Rightarrow> nat option \<Rightarrow> ('k, 'p, 't) reader \<Rightarrow> bool" where
  \<comment> \<open>the read has its answer, or fetches it itself\<close>
  "settled k p since r \<longleftrightarrow> (case r of Claimed k' p' n \<Rightarrow> k' = k \<and> p' = p \<and> n = since
     | Returned k' p' n x t \<Rightarrow> k' = k \<and> p' = p \<and> n = since | _ \<Rightarrow> False)"

text \<open>
  C25: No reader of the snapshot cache is stranded. Whenever a reader waits for a space, some thread holds the
  in-flight mark of that space; the moment any such thread lets go of it, by an answer, an error or a panic, the
  reader is awake again; and from every reachable state there is a run in which the reader gets an answer or
  becomes the fetcher. This holds with invalidations, removals, changes of plan and spurious wake-ups in any order.
\<close>
theorem waiting_reader_is_served:
  assumes "cache_reachable removals ttl fetched s" and waiting: "ca_threads s i = Waiting k p since"
  shows "(\<exists>j. in_flight k (ca_threads s j)) \<and>
    (\<forall>t j. cache_step removals ttl fetched s t \<and> in_flight k (ca_threads s j) \<and> \<not> in_flight k (ca_threads t j) \<longrightarrow>
      ca_threads t i = Looping k p since) \<and>
    (\<exists>t. (cache_step removals ttl fetched)\<^sup>*\<^sup>* s t \<and> settled k p since (ca_threads t i))"
proof (intro conjI allI impI)
  have "waits k (ca_threads s i)" using waiting by simp
  then show holder: "\<exists>j. in_flight k (ca_threads s j)"
    using cache_reachable_served [OF assms(1)] unfolding served_inv_def by blast
  show "ca_threads t i = Looping k p since"
    if "cache_step removals ttl fetched s t \<and> in_flight k (ca_threads s j) \<and> \<not> in_flight k (ca_threads t j)" for t j
    using that release_wakes [OF _ _ _ waiting] by blast
  obtain u where u: "(cache_step removals ttl fetched)\<^sup>*\<^sup>* s u" "\<not> busy (ca_entries u) k" "ca_threads u i = Looping k p since"
    using holder holder_can_release waiting by metis
  obtain r es where run: "read_loop k p ttl (ca_now u) (ca_entries u) = (r, es)" by (metis surj_pair)
  let ?t = "u\<lparr>ca_entries := es, ca_threads := (ca_threads u)(i := after_loop k p since (ca_now u) r)\<rparr>"
  have "cache_step removals ttl fetched u ?t" by (rule cache_step.take_turn [OF u(3) run])
  then have "(cache_step removals ttl fetched)\<^sup>*\<^sup>* s ?t" using u(1) by (rule rtranclp.rtrancl_into_rtrancl [rotated])
  moreover have "settled k p since (after_loop k p since (ca_now u) r)"
    using busy_read_loop [OF run] u(2) by (cases r) (simp_all add: settled_def after_loop_def)
  ultimately show "\<exists>t. (cache_step removals ttl fetched)\<^sup>*\<^sup>* s t \<and> settled k p since (ca_threads t i)"
    by (intro exI [of _ ?t]) simp
qed


definition one_reader_waits :: "(nat, nat, nat) cache_state" where
  "one_reader_waits = the (cache_schedule True 5 (\<lambda>p a f v. True) [BeginRead 0 7 1, BeginRead 1 7 1, TakeTurn 0, TakeTurn 1] cache_start)"

lemma one_reader_waits_run:
  "cache_schedule True 5 (\<lambda>p a f v. True) [BeginRead 0 7 1, BeginRead 1 7 1, TakeTurn 0, TakeTurn 1] cache_start = Some one_reader_waits"
  by (simp add: one_reader_waits_def schedule_simps)

theorem waiting_reader_is_served_witness:
  "ca_threads one_reader_waits 1 = Waiting 7 1 None \<and>
   (\<exists>t. (cache_step True 5 (\<lambda>p a f v. True))\<^sup>*\<^sup>* one_reader_waits t \<and> settled 7 1 None (ca_threads t 1))"
proof
  show w: "ca_threads one_reader_waits 1 = Waiting 7 1 None" by (simp add: one_reader_waits_def schedule_simps)
  show "\<exists>t. (cache_step True 5 (\<lambda>p a f v. True))\<^sup>*\<^sup>* one_reader_waits t \<and> settled 7 1 None (ca_threads t 1)"
    using waiting_reader_is_served [OF cache_schedule_reachable [OF one_reader_waits_run cache_start_reachable] w] by blast
qed

section \<open>One fetch per space, no stale answer\<close>


definition refreshed_run :: "(nat, nat, nat) cache_event list" where
  "refreshed_run =
     [BeginRead 0 7 1, TakeTurn 0, StartFetch 0, Tick 2, FinishFetch 0 (Inr 10), Invalidated 7, Tick 1,
      BeginRead 1 7 1, TakeTurn 1, StartFetch 1, BeginRead 2 7 1, TakeTurn 2, Tick 1, FinishFetch 1 (Inr 13), Tick 1, TakeTurn 2]"

definition refreshed :: "(nat, nat, nat) cache_state" where
  "refreshed = the (cache_schedule False 5 (\<lambda>p a f v. v = 10 * p + a) refreshed_run cache_start)"

lemma refreshed_reachable: "cache_reachable False 5 (\<lambda>p a f v. v = 10 * p + a) refreshed"
proof (rule cache_schedule_reachable [OF _ cache_start_reachable])
  show "cache_schedule False 5 (\<lambda>p a f v. v = 10 * p + a) refreshed_run cache_start = Some refreshed"
    by (simp add: refreshed_def refreshed_run_def schedule_simps)
qed


section \<open>No scheduled refetch is lost\<close>

text \<open>
  C27: A refetch that was scheduled is not lost, and bursts are one. As long as no work panics, a space whose refetch was
  scheduled since a pass for it last began has exactly one thread, which either sleeps before its pass or works with the mark to
  go round again; and that thread can always go on to begin a pass that covers the request.
\<close>
theorem scheduled_refetch_runs:
  assumes reach: "debounce_reachable False d" and owed: "k \<in> de_owed d"
  shows "(\<exists>i. de_workers d i = Sleeping k \<and> de_passes d k = Some PassWaiting \<or>
      de_workers d i = Working k \<and> de_passes d k = Some (PassRunning True)) \<and>
    (\<forall>i j v w. worker_pass (de_workers d i) = Some (k, v) \<and> worker_pass (de_workers d j) = Some (k, w) \<longrightarrow> i = j) \<and>
    (\<exists>e i. (debounce_step False)\<^sup>*\<^sup>* d e \<and> de_workers e i = Working k \<and> k \<notin> de_owed e)"
proof (intro conjI allI impI)
  have inv: "debounce_inv d" by (rule debounce_reachable_inv [OF reach])
  have pass: "de_passes d k = Some PassWaiting \<or> de_passes d k = Some (PassRunning True)"
    using debounce_reachable_owed [OF reach] owed by (simp add: owed_inv_def)
  then obtain p where p: "de_passes d k = Some p" by auto
  obtain i where i: "worker_pass (de_workers d i) = Some (k, pass_runs p)" using debounce_invD(2) [OF inv p] by blast
  then have worker: "de_workers d i = Sleeping k \<and> p = PassWaiting \<or> de_workers d i = Working k \<and> p = PassRunning True"
    using pass p by (cases "de_workers d i") auto
  then show "\<exists>i. de_workers d i = Sleeping k \<and> de_passes d k = Some PassWaiting \<or>
      de_workers d i = Working k \<and> de_passes d k = Some (PassRunning True)" using p by auto
  show "a = b" if "worker_pass (de_workers d a) = Some (k, v) \<and> worker_pass (de_workers d b) = Some (k, w)" for a b v w
    using that debounce_invD(3) [OF inv] by blast
  have wakes: "\<exists>e i. debounce_step False f e \<and> de_workers e i = Working k \<and> k \<notin> de_owed e" if "de_workers f i = Sleeping k" for f
    by (rule exI, rule exI [of _ i], rule conjI [OF debounce_step.start_work [OF that]]) simp
  show "\<exists>e i. (debounce_step False)\<^sup>*\<^sup>* d e \<and> de_workers e i = Working k \<and> k \<notin> de_owed e"
  proof (cases "de_workers d i = Sleeping k")
    case True
    then show ?thesis using wakes r_into_rtranclp by metis
  next
    case False
    then have w: "de_workers d i = Working k" "de_passes d k = Some (PassRunning True)" using worker p by auto
    then have "end_pass k (de_passes d) = (True, (de_passes d)(k \<mapsto> PassWaiting))" by (simp add: end_pass_def)
    then have step: "debounce_step False d (d\<lparr>de_passes := (de_passes d)(k \<mapsto> PassWaiting), de_workers := (de_workers d)(i := Sleeping k)\<rparr>)"
      by (rule debounce_step.work_again [OF w(1)])
    moreover obtain e j where "debounce_step False (d\<lparr>de_passes := (de_passes d)(k \<mapsto> PassWaiting), de_workers := (de_workers d)(i := Sleeping k)\<rparr>) e"
      "de_workers e j = Working k" "k \<notin> de_owed e"
      using wakes [of "d\<lparr>de_passes := (de_passes d)(k \<mapsto> PassWaiting), de_workers := (de_workers d)(i := Sleeping k)\<rparr>"] by auto
    ultimately show ?thesis by (meson converse_rtranclp_into_rtranclp r_into_rtranclp)
  qed
qed

definition burst :: "nat debounce_state" where
  \<comment> \<open>a refetch, and a second request while the first works\<close>
  "burst = \<lparr>de_passes = [7 \<mapsto> PassRunning True], de_workers = (\<lambda>_. NoWorker)(0 := Working 7), de_owed = {7}, de_done = []\<rparr>"

lemma burst_reachable: "debounce_reachable False burst"
proof -
  let ?a = "\<lparr>de_passes = [7 \<mapsto> PassWaiting], de_workers = (\<lambda>_. NoWorker)(0 := Sleeping 7), de_owed = {7}, de_done = []\<rparr> :: nat debounce_state"
  let ?b = "\<lparr>de_passes = [7 \<mapsto> PassRunning False], de_workers = (\<lambda>_. NoWorker)(0 := Working 7), de_owed = {}, de_done = []\<rparr> :: nat debounce_state"
  have "debounce_reachable False ?a"
    using debounce_reachable.step [OF debounce_reachable.start debounce_step.schedule_new [of 7 _ "[7 \<mapsto> PassWaiting]" 0]]
    by (simp add: schedule_pass_def)
  then have "debounce_reachable False ?b"
    using debounce_reachable.step [OF _ debounce_step.start_work [of ?a 0 7]] by (simp add: start_pass_def)
  then show ?thesis
    using debounce_reachable.step [OF _ debounce_step.schedule_old [of 7 ?b "[7 \<mapsto> PassRunning True]"]]
    by (simp add: schedule_pass_def burst_def)
qed

theorem scheduled_refetch_runs_witness:
  "(7::nat) \<in> de_owed burst \<and> (\<exists>e i. (debounce_step False)\<^sup>*\<^sup>* burst e \<and> de_workers e i = Working 7 \<and> 7 \<notin> de_owed e)"
  using scheduled_refetch_runs [OF burst_reachable, of 7] by (simp add: burst_def)

section \<open>Two gaps\<close>

definition old_plan_run :: "(nat, nat, nat) cache_event list" where
  \<comment> \<open>a space is unbound while it is fetched and bound again to another project\<close>
  "old_plan_run =
     [BeginRead 0 7 1, TakeTurn 0, StartFetch 0, Removed 7, BeginRead 1 7 2, TakeTurn 1, StartFetch 1,
      FinishFetch 0 (Inr 1), BeginRead 2 7 2, TakeTurn 2]"

definition empty_read_run :: "(nat, nat, nat) cache_event list" where
  \<comment> \<open>a space is bound to another project, and two readers come within the time to live\<close>
  "empty_read_run =
     [BeginRead 0 7 1, TakeTurn 0, StartFetch 0, FinishFetch 0 (Inr 1), BeginRead 1 7 2, TakeTurn 1, BeginRead 2 7 2, TakeTurn 2]"

definition old_plan :: "(nat, nat, nat) cache_state" where
  "old_plan = the (cache_schedule True 5 (\<lambda>p a f v. v = p) old_plan_run cache_start)"

definition empty_read :: "(nat, nat, nat) cache_state" where
  "empty_read = the (cache_schedule False 5 (\<lambda>p a f v. v = p) empty_read_run cache_start)"

lemma old_plan_reachable: "cache_reachable True 5 (\<lambda>p a f v. v = p) old_plan"
proof (rule cache_schedule_reachable [OF _ cache_start_reachable])
  show "cache_schedule True 5 (\<lambda>p a f v. v = p) old_plan_run cache_start = Some old_plan"
    by (simp add: old_plan_def old_plan_run_def schedule_simps)
qed

lemma empty_read_reachable: "cache_reachable False 5 (\<lambda>p a f v. v = p) empty_read"
proof (rule cache_schedule_reachable [OF _ cache_start_reachable])
  show "cache_schedule False 5 (\<lambda>p a f v. v = p) empty_read_run cache_start = Some empty_read"
    by (simp add: empty_read_def empty_read_run_def schedule_simps)
qed

text \<open>
  Two interleavings in which a read returns what was never fetched for its plan, with no error. A space that is dropped
  from the cache while its fetch is in flight, and read again under a new plan, keeps the answer of the old fetch as the new
  plan's; the fetch of the new plan still runs. And after a change of plan the time of the last attempt stays, so a second reader of the
  new plan gets an empty answer as a fresh one instead of waiting for the first.
\<close>
theorem cache_gives_too_much:
  "(\<exists>s :: (nat, nat, nat) cache_state. cache_reachable True 5 (\<lambda>p a f v. v = p) s \<and> in_flight 7 (ca_threads s 1) \<and>
      ca_threads s 2 = Returned 7 2 None \<lparr>cr_good = Some (1, 0), cr_error = None\<rparr> 0) \<and>
   (\<exists>s :: (nat, nat, nat) cache_state. cache_reachable False 5 (\<lambda>p a f v. v = p) s \<and> in_flight 7 (ca_threads s 1) \<and>
      ca_threads s 2 = Returned 7 2 None \<lparr>cr_good = None, cr_error = None\<rparr> 0)"
proof
  have "in_flight 7 (ca_threads old_plan 1)" "ca_threads old_plan 2 = Returned 7 2 None \<lparr>cr_good = Some (1, 0), cr_error = None\<rparr> 0"
    by (simp_all add: old_plan_def old_plan_run_def schedule_simps)
  then show "\<exists>s :: (nat, nat, nat) cache_state. cache_reachable True 5 (\<lambda>p a f v. v = p) s \<and> in_flight 7 (ca_threads s 1) \<and>
      ca_threads s 2 = Returned 7 2 None \<lparr>cr_good = Some (1, 0), cr_error = None\<rparr> 0" using old_plan_reachable by blast
  have "in_flight 7 (ca_threads empty_read 1)" "ca_threads empty_read 2 = Returned 7 2 None \<lparr>cr_good = None, cr_error = None\<rparr> 0"
    by (simp_all add: empty_read_def empty_read_run_def schedule_simps)
  then show "\<exists>s :: (nat, nat, nat) cache_state. cache_reachable False 5 (\<lambda>p a f v. v = p) s \<and> in_flight 7 (ca_threads s 1) \<and>
      ca_threads s 2 = Returned 7 2 None \<lparr>cr_good = None, cr_error = None\<rparr> 0" using empty_read_reachable by blast
qed

end
