(* ===== verification/Linear_Reads.thy ===== *)
theory Linear_Reads
  imports Linear_Client
begin

text \<open>What a read of one space may send: how much, with which key, for which project, and to which host.\<close>

section \<open>What a call sends\<close>

definition sends :: "(string \<times> linear_query \<times> json \<Rightarrow> bool) \<Rightarrow> nat \<Rightarrow> ('a \<Rightarrow> bool) \<Rightarrow> 'a call \<Rightarrow> bool" where
  \<comment> \<open>at most so many requests and waits, each of the kind, and a result of the kind\<close>
  "sends P n Q m \<longleftrightarrow>
     (\<forall>w r t. m w = (r, t) \<longrightarrow>
       (\<exists>new waits. wi_sent t = wi_sent w @ new \<and> wi_waited t = wi_waited w @ waits \<and> length new \<le> n \<and> length waits \<le> length new \<and>
         (\<forall>x \<in> set new. P x) \<and> (\<forall>x \<in> set waits. x \<le> max_backoff)) \<and>
       (case r of Inr x \<Rightarrow> Q x | Inl e \<Rightarrow> True))"

named_theorems sends_rules "what composed calls send"

lemma sendsI:
  assumes "\<And>w r t. m w = (r, t) \<Longrightarrow>
      \<exists>new waits. wi_sent t = wi_sent w @ new \<and> wi_waited t = wi_waited w @ waits \<and> length new \<le> n \<and> length waits \<le> length new \<and>
        (\<forall>x \<in> set new. P x) \<and> (\<forall>x \<in> set waits. x \<le> max_backoff)"
    and "\<And>w x t. m w = (Inr x, t) \<Longrightarrow> Q x"
  shows "sends P n Q m"
  unfolding sends_def using assms by (auto split: sum.split)

lemma sendsD:
  assumes "sends P n Q m" "m w = (r, t)"
  obtains new waits where "wi_sent t = wi_sent w @ new" "wi_waited t = wi_waited w @ waits" "length new \<le> n"
    "length waits \<le> length new" "\<forall>x \<in> set new. P x" "\<forall>x \<in> set waits. x \<le> max_backoff" "\<And>x. r = Inr x \<Longrightarrow> Q x"
  using assms unfolding sends_def by fastforce

lemma sends_return [sends_rules]: "Q x \<Longrightarrow> sends P n Q (returnT x)"
  by (simp add: sends_def returnT_def)

lemma sends_throw [sends_rules]: "sends P n Q (throwT e)"
  by (simp add: sends_def throwT_def)

lemma sends_query [sends_rules]: "(\<And>w x. f w = Inr x \<Longrightarrow> Q x) \<Longrightarrow> sends P n Q (queryT f)"
  by (auto simp: sends_def queryT_def split: sum.split)

lemma sends_bind:
  assumes m: "sends P n R m" and k: "\<And>x. R x \<Longrightarrow> sends P l Q (k x)"
  shows "sends P (n + l) Q (bindT m k)"
proof (rule sendsI)
  fix w r t assume run: "bindT m k w = (r, t)"
  obtain a u where a: "m w = (a, u)" by (cases "m w")
  obtain new waits where one: "wi_sent u = wi_sent w @ new" "wi_waited u = wi_waited w @ waits" "length new \<le> n"
    "length waits \<le> length new" "\<forall>x \<in> set new. P x" "\<forall>x \<in> set waits. x \<le> max_backoff" "\<And>x. a = Inr x \<Longrightarrow> R x"
    using sendsD [OF m a] by metis
  show "\<exists>new waits. wi_sent t = wi_sent w @ new \<and> wi_waited t = wi_waited w @ waits \<and> length new \<le> n + l \<and>
      length waits \<le> length new \<and> (\<forall>x \<in> set new. P x) \<and> (\<forall>x \<in> set waits. x \<le> max_backoff)"
  proof (cases a)
    case (Inl e)
    then have "t = u" using run a by (simp add: bindT_def)
    then show ?thesis using one by (intro exI [of _ new] exI [of _ waits]) auto
  next
    case (Inr x)
    then have "k x u = (r, t)" using run a by (simp add: bindT_def)
    then obtain new' waits' where "wi_sent t = wi_sent u @ new'" "wi_waited t = wi_waited u @ waits'" "length new' \<le> l"
      "length waits' \<le> length new'" "\<forall>x \<in> set new'. P x" "\<forall>x \<in> set waits'. x \<le> max_backoff"
      using sendsD [OF k [OF one(7) [OF Inr]]] by metis
    then show ?thesis using one by (intro exI [of _ "new @ new'"] exI [of _ "waits @ waits'"]) auto
  qed
next
  fix w y t assume "bindT m k w = (Inr y, t)"
  then obtain x u where "m w = (Inr x, u)" "k x u = (Inr y, t)" by (auto simp: bindT_def split: prod.splits sum.splits)
  then show "Q y" using sendsD [OF m] sendsD [OF k] by metis
qed

lemma sends_then: "sends P n R m \<Longrightarrow> (\<And>x. R x \<Longrightarrow> sends P 0 Q (k x)) \<Longrightarrow> sends P n Q (bindT m k)"
  using sends_bind [of P n R m 0 Q k] by simp

lemma sends_more: "sends P n Q m \<Longrightarrow> n \<le> l \<Longrightarrow> sends P l Q m"
  unfolding sends_def by (meson le_trans)

lemma sends_execute_loop:
  "P (key, q, vars) \<Longrightarrow> sends P (Suc left) (\<lambda>_. True) (execute_loop cf net key q vars left)"
proof (induction left)
  case 0
  then show ?case
    by (auto intro!: sendsI simp: execute_loop.simps [of _ _ _ _ _ 0] Let_def split: sum.splits attempt.splits)
next
  case (Suc left)
  show ?case
  proof (rule sendsI)
    fix w r t assume run: "execute_loop cf net key q vars (Suc left) w = (r, t)"
    let ?u = "w\<lparr>wi_sent := wi_sent w @ [(key, q, vars)]\<rparr>"
    show "\<exists>new waits. wi_sent t = wi_sent w @ new \<and> wi_waited t = wi_waited w @ waits \<and> length new \<le> Suc (Suc left) \<and>
        length waits \<le> length new \<and> (\<forall>x \<in> set new. P x) \<and> (\<forall>x \<in> set waits. x \<le> max_backoff)"
    proof (cases "\<exists>after. read_reply cf (net (length (wi_sent w)) key q vars) = Inl (Limited after)")
      case False
      then have "t = ?u" using run by (auto simp: execute_loop.simps [of _ _ _ _ _ "Suc left"] Let_def split: sum.splits attempt.splits)
      then show ?thesis using Suc.prems by (intro exI [of _ "[(key, q, vars)]"] exI [of _ "[]"]) auto
    next
      case True
      then obtain after where after: "read_reply cf (net (length (wi_sent w)) key q vars) = Inl (Limited after)" by blast
      define wait where "wait = min (case after of Some a \<Rightarrow> a | None \<Rightarrow> cf_rate_limit_backoff cf) max_backoff"
      let ?v = "?u\<lparr>wi_waited := wi_waited ?u @ [wait]\<rparr>"
      have "execute_loop cf net key q vars left ?v = (r, t)"
        using run after by (simp add: execute_loop.simps [of _ _ _ _ _ "Suc left"] Let_def wait_def)
      then obtain new waits where "wi_sent t = wi_sent ?v @ new" "wi_waited t = wi_waited ?v @ waits" "length new \<le> Suc left"
        "length waits \<le> length new" "\<forall>x \<in> set new. P x" "\<forall>x \<in> set waits. x \<le> max_backoff"
        by (rule sendsD [OF Suc.IH [OF Suc.prems]])
      moreover have "wait \<le> max_backoff" by (simp add: wait_def)
      ultimately show ?thesis using Suc.prems
        by (intro exI [of _ "(key, q, vars) # new"] exI [of _ "wait # waits"]) auto
    qed
  qed simp
qed

lemma sends_execute [sends_rules]:
  "P (key, q, vars) \<Longrightarrow> sends P (Suc (cf_rate_limit_retries cf)) (\<lambda>_. True) (execute_query cf net key q vars)"
  unfolding execute_query_def by (rule sends_execute_loop)

lemma sends_paged_loop:
  assumes "\<And>after. P (key, q, page_variables cf vars after)"
  shows "sends P (n * Suc (cf_rate_limit_retries cf)) (\<lambda>_. True) (paged_loop cf net key q connection vars n after nodes)"
proof (induction n arbitrary: after nodes)
  case (Suc n)
  have k: "sends P (n * Suc (cf_rate_limit_retries cf)) (\<lambda>_. True)
      (let conn = json_at data connection in
       case as_arr (json_at conn ''nodes'') of
         None \<Rightarrow> throwT malformed
       | Some batch \<Rightarrow>
           if as_bool (json_at (json_at conn ''pageInfo'') ''hasNextPage'') \<noteq> Some True
           then returnT \<lparr>pg_nodes = nodes @ batch, pg_partial = False\<rparr>
           else (case as_str (json_at (json_at conn ''pageInfo'') ''endCursor'') of
               Some cursor \<Rightarrow>
                 if cursor = [] then returnT \<lparr>pg_nodes = nodes @ batch, pg_partial = True\<rparr>
                 else paged_loop cf net key q connection vars n (Some cursor) (nodes @ batch)
             | None \<Rightarrow> returnT \<lparr>pg_nodes = nodes @ batch, pg_partial = True\<rparr>))" for data
    using Suc.IH by (auto simp: Let_def intro: sends_rules split: option.split)
  show ?case
    unfolding paged_loop.simps mult_Suc by (rule sends_bind [OF sends_execute [where P = P] k]) (rule assms)
qed (simp add: sends_rules)

lemma sends_paged:
  "(\<And>after. P (key, q, page_variables cf vars after)) \<Longrightarrow>
   sends P (cf_page_cap cf * Suc (cf_rate_limit_retries cf)) (\<lambda>_. True) (paged cf net key q connection vars)"
  unfolding paged_def by (rule sends_paged_loop)

lemma sends_by_id:
  "P (key, q, jobj1 ''id'' (JStr i)) \<Longrightarrow> sends P (Suc (cf_rate_limit_retries cf)) (\<lambda>_. True) (by_id_query cf net key q field i)"
  unfolding by_id_query_def by (rule sends_then [OF sends_execute], assumption, rule sends_query) simp

lemma sends_catch: "sends P n Q m \<Longrightarrow> sends P n (\<lambda>x. case x of None \<Rightarrow> True | Some v \<Rightarrow> Q v) (catch_not_found m)"
  unfolding sends_def catch_not_found_def
  by (simp split: prod.splits sum.splits linear_error.splits) (metis (no_types))

section \<open>A space's read\<close>

lemma map_of_insert: "map_of (map_insert k v es) l = (if l = k then Some v else map_of es l)"
  by (induction k v es rule: map_insert.induct) auto

lemma page_filter: "json_at (page_variables cf [(''filter'', f)] after) ''filter'' = f"
  by (simp add: page_variables_def json_at_def map_of_insert del: map_insert.simps)

definition asks_for :: "fetch_plan \<Rightarrow> string \<times> linear_query \<times> json \<Rightarrow> bool" where
  \<comment> \<open>what a read of the plan may ask\<close>
  "asks_for plan x \<longleftrightarrow>
     (case x of (key, q, vars) \<Rightarrow>
       (q = QView \<and> fp_filter plan = None \<and> (case fp_view_id plan of None \<Rightarrow> False | Some v \<Rightarrow> vars = jobj1 ''id'' (JStr v))) \<or>
       (q = QProject \<and> vars = jobj1 ''id'' (JStr (fp_project_id plan))) \<or>
       (q = QIssues \<and>
          (case fp_filter plan of
             Some f \<Rightarrow> json_at vars ''filter'' = f
           | None \<Rightarrow> json_at vars ''filter'' = project_issues_filter (fp_project_id plan) \<or>
               (\<exists>v. fp_view_id plan \<noteq> None \<and> json_at vars ''filter'' = view_filter v \<and> json_at v ''archivedAt'' = JNull \<and>
                    names_project (fp_project_id plan) (json_at v ''filterData'')))))"

lemma view_ok: "view_status v project = ''ok'' \<Longrightarrow> json_at v ''archivedAt'' = JNull \<and> names_project project (json_at v ''filterData'')"
  by (simp add: view_status_def Let_def split: if_splits)

lemma sends_fetch:
  "sends (\<lambda>x. key = Some (fst x) \<and> asks_for plan x) ((2 + cf_page_cap cf) * Suc (cf_rate_limit_retries cf)) (\<lambda>_. True)
     (fetch_space cf net key plan)"
proof (cases key)
  case None
  then show ?thesis by (simp add: fetch_space_def sends_throw)
next
  case (Some k)
  define P where "P x \<longleftrightarrow> key = Some (fst x) \<and> asks_for plan x" for x :: "string \<times> linear_query \<times> json"
  let ?one = "Suc (cf_rate_limit_retries cf)"
  let ?view = "case (fp_view_id plan, fp_filter plan) of
      (Some view_id, None) \<Rightarrow> bindT (catch_not_found (view_with cf net k view_id)) (\<lambda>v.
        returnT (case v of Some view \<Rightarrow> (view_status view (fp_project_id plan), Some view) | None \<Rightarrow> (''not_found'', None)))
    | _ \<Rightarrow> returnT (''none'', None)"
  define R where "R x \<longleftrightarrow> (case snd x of None \<Rightarrow> True | Some v \<Rightarrow> fst x = view_status v (fp_project_id plan) \<and> fp_view_id plan \<noteq> None)"
    for x :: "string \<times> json option"
  have view: "sends P ?one R ?view"
  proof (cases "fp_view_id plan")
    case (Some v)
    have "sends P ?one R (bindT (catch_not_found (view_with cf net k v)) (\<lambda>v.
        returnT (case v of Some view \<Rightarrow> (view_status view (fp_project_id plan), Some view) | None \<Rightarrow> (''not_found'', None))))"
      if none: "fp_filter plan = None"
    proof (rule sends_then [OF sends_catch])
      show "sends P ?one (\<lambda>_. True) (view_with cf net k v)"
        unfolding view_with_def by (rule sends_by_id) (use none Some \<open>key = Some k\<close> in \<open>simp add: P_def asks_for_def\<close>)
      show "sends P 0 R (returnT (case x of Some view \<Rightarrow> (view_status view (fp_project_id plan), Some view) | None \<Rightarrow> (''not_found'', None)))"
        for x by (rule sends_return) (use Some in \<open>simp add: R_def split: option.split\<close>)
    qed
    then show ?thesis using Some by (auto simp: R_def intro: sends_return split: option.split)
  qed (simp add: sends_return R_def)
  have page: "sends P (cf_page_cap cf * ?one) (\<lambda>_. True) (case (fp_filter plan, view) of
        (Some f, _) \<Rightarrow> issues_matching cf net k f
      | (None, Some v) \<Rightarrow>
          if status = ''ok'' then issues_in_view cf net k v else project_issues cf net k (fp_project_id plan)
      | (None, None) \<Rightarrow> project_issues cf net k (fp_project_id plan))" if "R (status, view)" for status view
  proof -
    have "sends P (cf_page_cap cf * ?one) (\<lambda>_. True) (project_issues cf net k (fp_project_id plan))" if "fp_filter plan = None"
      unfolding project_issues_def issues_matching_def
      by (rule sends_paged) (use that Some in \<open>simp add: P_def asks_for_def page_filter\<close>)
    moreover have "sends P (cf_page_cap cf * ?one) (\<lambda>_. True) (issues_matching cf net k f)" if "fp_filter plan = Some f" for f
      unfolding issues_matching_def
      by (rule sends_paged) (use that Some in \<open>simp add: P_def asks_for_def page_filter\<close>)
    moreover have "sends P (cf_page_cap cf * ?one) (\<lambda>_. True) (issues_in_view cf net k v)"
      if "fp_filter plan = None" "view = Some v" "status = ''ok''" for v
      unfolding issues_in_view_def
      by (rule sends_paged)
        (use that \<open>R (status, view)\<close> Some view_ok [of v "fp_project_id plan"] in \<open>auto simp: P_def asks_for_def page_filter R_def\<close>)
    ultimately show ?thesis by (auto split: option.split)
  qed
  have project: "sends P ?one (\<lambda>_. True) (bindT (catch_not_found (project_with cf net k (fp_project_id plan))) (\<lambda>project.
      returnT (f project)))" for f :: "json option \<Rightarrow> space_read"
  proof (rule sends_then [OF sends_catch])
    show "sends P ?one (\<lambda>_. True) (project_with cf net k (fp_project_id plan))"
      unfolding project_with_def by (rule sends_by_id) (use Some in \<open>simp add: P_def asks_for_def\<close>)
  qed (rule sends_return, simp)
  have "sends P (?one + (cf_page_cap cf * ?one + ?one)) (\<lambda>_. True) (fetch_space cf net key plan)"
    unfolding fetch_space_def Some option.case
  proof (rule sends_bind [OF view])
    fix x assume x: "R x"
    obtain status view where sv: "x = (status, view)" by (cases x)
    show "sends P (cf_page_cap cf * ?one + ?one) (\<lambda>_. True)
        (case x of (status, view) \<Rightarrow>
          bindT (case (fp_filter plan, view) of
              (Some f, _) \<Rightarrow> issues_matching cf net k f
            | (None, Some v) \<Rightarrow>
                if status = ''ok'' then issues_in_view cf net k v else project_issues cf net k (fp_project_id plan)
            | (None, None) \<Rightarrow> project_issues cf net k (fp_project_id plan)) (\<lambda>page.
          bindT (catch_not_found (project_with cf net k (fp_project_id plan))) (\<lambda>project.
          returnT \<lparr>rd_project = project, rd_view_status = status, rd_view = view, rd_issues = pg_nodes page,
                   rd_partial = pg_partial page\<rparr>)))"
      unfolding sv prod.case by (rule sends_bind [OF page [unfolded prod.case] project]) (use x sv in simp)
  qed
  then show ?thesis unfolding P_def by (rule sends_more) simp
qed

text \<open>
  C29: The read of one space is bounded and stays with its project. Whatever Linear answers, it posts at most
  (2 + page cap) * (1 + retries) requests, 24 by default, all with the one key that was resolved, waits at most once per request
  and never more than five seconds; and every listing of issues carries the filter of the grouping in force, or the
  filter of the bound project, or the filter of a view that is not archived and names the bound project.
\<close>
theorem space_read_is_bounded:
  assumes "fetch_space cf net key plan w = (r, t)"
  shows "\<exists>new waits. wi_sent t = wi_sent w @ new \<and> wi_waited t = wi_waited w @ waits \<and>
    length new \<le> (2 + cf_page_cap cf) * (1 + cf_rate_limit_retries cf) \<and> length waits \<le> length new \<and>
    (\<forall>x \<in> set new. key = Some (fst x) \<and> asks_for plan x) \<and> (\<forall>x \<in> set waits. x \<le> max_backoff)"
proof -
  obtain new waits where "wi_sent t = wi_sent w @ new" "wi_waited t = wi_waited w @ waits"
    "length new \<le> (2 + cf_page_cap cf) * Suc (cf_rate_limit_retries cf)" "length waits \<le> length new"
    "\<forall>x \<in> set new. key = Some (fst x) \<and> asks_for plan x" "\<forall>x \<in> set waits. x \<le> max_backoff"
    by (rule sendsD [OF sends_fetch assms])
  then show ?thesis unfolding plus_1_eq_Suc by blast
qed

definition sample_net :: net where
  \<comment> \<open>the view shows another project; the second request is limited once\<close>
  "sample_net n key q vars =
     (case q of
        QView \<Rightarrow> Reply 200 None (JsonBody (jobj1 ''data'' (jobj1 ''customView'' (jobj1 ''filterData''
           (jobj1 ''project'' (jobj1 ''id'' (jobj1 ''eq'' (JStr ''p2''))))))))
      | QProject \<Rightarrow> Reply 404 None NotJson
      | _ \<Rightarrow> if n = 1 then Reply 429 None NotJson
             else Reply 200 None (JsonBody (jobj1 ''data'' (jobj1 ''issues'' (jobj1 ''nodes'' (JArr [])))))  )"

definition sample_plan :: fetch_plan where
  "sample_plan = \<lparr>fp_project_id = ''p1'', fp_view_id = Some ''v1'', fp_filter = None, fp_label = []\<rparr>"

definition sample_wire :: wire where
  "sample_wire = snd (fetch_space default_settings sample_net (Some ''k'') sample_plan \<lparr>wi_sent = [], wi_waited = []\<rparr>)"

lemma sample_wire_sent:
  "map (\<lambda>(_, q, _). q) (wi_sent sample_wire) = [QView, QIssues, QIssues, QProject]" "wi_waited sample_wire = [500]"
  by code_simp+

theorem space_read_is_bounded_witness:
  "map (\<lambda>(_, q, _). q) (wi_sent sample_wire) = [QView, QIssues, QIssues, QProject] \<and> length (wi_sent sample_wire) \<le> 24 \<and>
   list_all (\<lambda>x. Some ''k'' = Some (fst x) \<and> asks_for sample_plan x) (wi_sent sample_wire)"
proof -
  obtain r where "fetch_space default_settings sample_net (Some ''k'') sample_plan \<lparr>wi_sent = [], wi_waited = []\<rparr> = (r, sample_wire)"
    by (metis sample_wire_def surjective_pairing)
  from space_read_is_bounded [OF this] show ?thesis
    using sample_wire_sent(1) by (auto simp: default_settings_def list_all_iff)
qed

section \<open>The host\<close>

lemma stopped_at: "case dropWhile (\<lambda>c. c \<notin> X) s of [] \<Rightarrow> True | c # _ \<Rightarrow> c \<in> X"
  by (induction s) auto

lemma stopped_one: "case dropWhile (\<lambda>c. c \<notin> set [d]) s of [] \<Rightarrow> True | c # _ \<Rightarrow> c = d"
  by (induction s) auto

text \<open>
  C30: The key never goes out in the clear beyond this machine. An address that is accepted starts with https, or it is plain
  http and its authority, the text up to the first slash, question mark or hash, has no user part and its host, up to a
  port, or between square brackets, is 127.0.0.1, localhost or ::1; and only the latter counts as loopback, for which proxies
  are off.
\<close>
theorem plain_http_stays_local:
  assumes "check_url url = Inr loopback"
  shows "(\<not> loopback \<and> (\<exists>rest. url = ''https://'' @ rest)) \<or>
    (loopback \<and> (\<exists>authority rest host.
      url = ''http://'' @ authority @ rest \<and> CHR ''@'' \<notin> set authority \<and>
      (case rest of [] \<Rightarrow> True | c # _ \<Rightarrow> c \<in> set ''/?#'') \<and>
      host \<in> {''127.0.0.1'', ''localhost'', ''::1''} \<and>
      ((\<exists>port. authority = host @ port \<and> (case port of [] \<Rightarrow> True | c # _ \<Rightarrow> c = CHR '':'')) \<or>
       (\<exists>more. authority = ''['' @ host @ more \<and> (case more of [] \<Rightarrow> True | c # _ \<Rightarrow> c = CHR '']'')))))"
proof (cases "strip_prefix ''https://'' url")
  case (Some rest)
  then show ?thesis using assms strip_prefix_Some [of "''https://''" url rest] by (auto simp: check_url_def)
next
  case None
  then obtain rest where rest: "strip_prefix ''http://'' url = Some rest" using assms by (auto simp: check_url_def split: option.splits)
  define authority where "authority = before_char ''/?#'' rest"
  define host where "host = (case strip_prefix ''['' authority of Some b \<Rightarrow> before_char '']'' b | None \<Rightarrow> before_char '':'' authority)"
  have ok: "CHR ''@'' \<notin> set authority" "host \<in> {''127.0.0.1'', ''localhost'', ''::1''}" "loopback"
    using assms None rest unfolding check_url_def authority_def [symmetric] host_def [symmetric]
    by (simp_all add: Let_def authority_def [symmetric] host_def [symmetric] split: if_splits)
  have url: "url = ''http://'' @ authority @ dropWhile (\<lambda>c. c \<notin> set ''/?#'') rest"
    using strip_prefix_Some [of "''http://''" url rest] rest by (simp add: authority_def before_char_def)
  have tail: "case dropWhile (\<lambda>c. c \<notin> set ''/?#'') rest of [] \<Rightarrow> True | c # _ \<Rightarrow> c \<in> set ''/?#''"
    by (rule stopped_at)
  have host: "(\<exists>port. authority = host @ port \<and> (case port of [] \<Rightarrow> True | c # _ \<Rightarrow> c = CHR '':'')) \<or>
       (\<exists>more. authority = ''['' @ host @ more \<and> (case more of [] \<Rightarrow> True | c # _ \<Rightarrow> c = CHR '']''))"
  proof (cases "strip_prefix ''['' authority")
    case None
    then have "authority = host @ dropWhile (\<lambda>c. c \<notin> set '':'') authority" by (simp only: host_def before_char_def option.case takeWhile_dropWhile_id)
    moreover have "case dropWhile (\<lambda>c. c \<notin> set '':'') authority of [] \<Rightarrow> True | c # _ \<Rightarrow> c = CHR '':''" by (rule stopped_one)
    ultimately show ?thesis by metis
  next
    case (Some b)
    then have b: "authority = ''['' @ b" by (simp only: strip_prefix_Some)
    have "host = takeWhile (\<lambda>c. c \<notin> set '']'') b" by (simp only: host_def Some before_char_def option.case)
    then have "authority = ''['' @ host @ dropWhile (\<lambda>c. c \<notin> set '']'') b"
      using b by (simp only: takeWhile_dropWhile_id)
    moreover have "case dropWhile (\<lambda>c. c \<notin> set '']'') b of [] \<Rightarrow> True | c # _ \<Rightarrow> c = CHR '']''" by (rule stopped_one)
    ultimately show ?thesis by metis
  qed
  show ?thesis
    by (rule disjI2, rule conjI [OF ok(3)], rule exI [of _ authority], rule exI, rule exI [of _ host], intro conjI, rule url, rule ok(1), rule tail, rule ok(2), rule host)
qed

theorem plain_http_stays_local_witness:
  "check_url ''http://localhost:8080/graphql'' = Inr True \<and> check_url ''http://localhost:1@evil.example/'' = Inl (InsecureUrl ''http://localhost:1@evil.example/'') \<and>
   (\<exists>authority rest. ''http://localhost:8080/graphql'' = ''http://'' @ authority @ rest \<and> CHR ''@'' \<notin> set authority)"
proof (intro conjI)
  show local: "check_url ''http://localhost:8080/graphql'' = Inr True" by code_simp
  show "check_url ''http://localhost:1@evil.example/'' = Inl (InsecureUrl ''http://localhost:1@evil.example/'')" by code_simp
  show "\<exists>authority rest. ''http://localhost:8080/graphql'' = ''http://'' @ authority @ rest \<and> CHR ''@'' \<notin> set authority"
    using plain_http_stays_local [OF local] by blast
qed

end
