(* ===== verification/Linear_Snapshot.thy ===== *)
theory Linear_Snapshot
  imports Linear_Native
begin

text \<open>The board document of a space hangs together: what its tabs list it describes, what it names it accounts for.\<close>

section \<open>Tabs list issues that were read\<close>

definition group_closed :: "string set \<Rightarrow> linear_group \<Rightarrow> bool" where
  "group_closed ids g \<longleftrightarrow> set (lg_issues g) \<subseteq> ids \<and> (\<forall>l \<in> set (lg_lanes g). set (ln_issues l) \<subseteq> set (lg_issues g))"

lemma column_closed: "\<forall>p \<in> set ps. issue_identifier (pl_issue p) \<in> ids \<Longrightarrow> group_closed ids (column_of ps rows c)"
  by (auto simp: group_closed_def column_of_def lane_of_def placed_ids_def Let_def)

lemma configured_closed:
  assumes "t \<in> set (configured lower issues m space)" "g \<in> set (lt_groups t)"
  shows "group_closed (issue_identifier ` set issues) g"
proof -
  have "\<forall>p \<in> set (place_issues lower issues m space). issue_identifier (pl_issue p) \<in> issue_identifier ` set issues"
    by (auto simp: place_issues_def Let_def)
  then show ?thesis using assms by (auto simp: configured_def tab_of_def Let_def intro!: column_closed)
qed

lemma view_column_closed:
  assumes "\<forall>m \<in> set members. mb_id m \<in> ids" "\<And>rows r. lanes = Some rows \<Longrightarrow> r \<in> set rows \<Longrightarrow> r \<notin> set hidden"
  shows "group_closed ids (view_column states grouping members labels lanes row_labels hidden key)"
proof -
  let ?here = "filter (\<lambda>m. key \<in> set (mb_columns m)) members"
  let ?shown = "\<lambda>m. case mb_rows m of None \<Rightarrow> True | Some rows \<Rightarrow> list_ex (\<lambda>r. r \<notin> set hidden) rows"
  let ?in_row = "\<lambda>r m. case mb_rows m of None \<Rightarrow> False | Some rows \<Rightarrow> r \<in> set rows"
  have column: "lg_issues (view_column states grouping members labels lanes row_labels hidden key) = map mb_id (filter ?shown ?here)"
    by (simp add: view_column_def Let_def)
  have lane: "\<exists>rows r. lanes = Some rows \<and> r \<in> set rows \<and> ln_issues l = map mb_id (filter (?in_row r) ?here)"
    if "l \<in> set (lg_lanes (view_column states grouping members labels lanes row_labels hidden key))" for l
    using that by (auto simp: view_column_def Let_def split: option.splits)
  have shown: "?shown m" if "lanes = Some rows" "r \<in> set rows" "?in_row r m" for rows r m
    using that assms(2) [OF that(1,2)] by (auto simp: list_ex_iff split: option.splits)
  have "set (ln_issues l) \<subseteq> set (map mb_id (filter ?shown ?here))"
    if l: "l \<in> set (lg_lanes (view_column states grouping members labels lanes row_labels hidden key))" for l
  proof -
    obtain rows r where r: "lanes = Some rows" "r \<in> set rows" "ln_issues l = map mb_id (filter (?in_row r) ?here)"
      using lane [OF l] by blast
    have "set (filter (?in_row r) ?here) \<subseteq> set (filter ?shown ?here)" unfolding set_filter using shown [OF r(1,2)] by blast
    then show ?thesis unfolding r(3) set_map by (rule image_mono)
  qed
  then show ?thesis unfolding group_closed_def column using assms(1) by auto
qed

lemma fallback_closed:
  assumes "t \<in> set (fallback issues given states)" "g \<in> set (lt_groups t)"
  shows "group_closed (issue_identifier ` set issues) g"
proof -
  let ?view = "usable_view given"
  let ?hidden = "case ?view of Some v \<Rightarrow> vp_hidden_rows v | None \<Rightarrow> []"
  let ?labels = "case view_sub_grouping ?view of Some g \<Rightarrow> fold (\<lambda>i. note_keys (view_keys i g states)) issues [] | None \<Rightarrow> []"
  let ?lanes = "map_option (\<lambda>g. row_order g states (map fst ?labels) ?hidden) (view_sub_grouping ?view)"
  obtain key labels where g: "g = view_column states (view_grouping ?view)
      (map (member_of states (view_grouping ?view) (view_sub_grouping ?view)) issues) labels ?lanes ?labels ?hidden key"
    using assms unfolding fallback_def Let_def by auto
  show ?thesis unfolding g by (rule view_column_closed) (auto simp: member_of_def row_order_def Let_def)
qed

lemma group_board_closed:
  "t \<in> set (group_board lower issues gr) \<Longrightarrow> g \<in> set (lt_groups t) \<Longrightarrow> group_closed (issue_identifier ` set issues) g"
  by (cases gr) (auto simp: group_board_def intro: configured_closed fallback_closed)

section \<open>Entries in key order\<close>

lemma keys_insert: "fst ` set (map_insert k v es) = insert k (fst ` set es)"
  by (induction k v es rule: map_insert.induct) auto

lemma keys_collect: "fst ` set (map_collect es) = fst ` set es"
proof -
  have "fst ` set (fold (\<lambda>(k, v) m. map_insert k v m) es m) = fst ` set es \<union> fst ` set m" for m
    by (induction es arbitrary: m) (auto simp: keys_insert case_prod_beta)
  then show ?thesis by (simp add: map_collect_def)
qed

lemma in_insert: "x \<in> set (map_insert k v es) \<Longrightarrow> x = (k, v) \<or> x \<in> set es"
  using set_map_insert by fastforce

lemma issue_details_facts:
  shows "fst ` set (issue_details d stale listed ns m) =
      fst ` set m \<union> {i \<in> set listed. \<exists>n \<in> set ns. json_text (json_at n ''identifier'') = Some i}"
    and "(k, i) \<in> set (issue_details d stale listed ns m) \<Longrightarrow>
      (k, i) \<in> set m \<or> (\<exists>n \<in> set ns. json_text (json_at n ''identifier'') = Some k \<and> i = linear_issue d n k stale)"
proof -
  let ?f = "\<lambda>n m. case json_text (json_at n ''identifier'') of None \<Rightarrow> m
        | Some i \<Rightarrow> if i \<in> set listed then map_insert i (linear_issue d n i stale) m else m"
  show "fst ` set (issue_details d stale listed ns m) =
      fst ` set m \<union> {i \<in> set listed. \<exists>n \<in> set ns. json_text (json_at n ''identifier'') = Some i}"
    unfolding issue_details_def
  proof (induction ns arbitrary: m)
    case (Cons n ns)
    show ?case by (auto simp: Cons keys_insert split: option.split)
  qed simp
  show "(k, i) \<in> set (issue_details d stale listed ns m) \<Longrightarrow>
      (k, i) \<in> set m \<or> (\<exists>n \<in> set ns. json_text (json_at n ''identifier'') = Some k \<and> i = linear_issue d n k stale)"
    unfolding issue_details_def
  proof (induction ns arbitrary: m)
    case (Cons n ns)
    then show ?case using in_insert by (fastforce split: option.splits if_splits)
  qed simp
qed

section \<open>Bindings and tabs\<close>

lemma push_binding_keys [simp]: "map fst (push_binding issue b m) = map fst m"
  by (simp add: push_binding_def comp_def case_prod_beta)

definition with_bindings :: "session_snapshot option \<Rightarrow> worktree_binding list \<Rightarrow> string \<times> doc_issue \<Rightarrow> string \<times> doc_issue" where
  "with_bindings herdr wts x =
     (fst x, (snd x)\<lparr>di_bindings := di_bindings (snd x) @ map (doc_binding_of herdr) (filter (\<lambda>w. wb_issue w = fst x) wts)\<rparr>)"

definition claimed_tabs :: "worktree_binding list \<Rightarrow> string set \<Rightarrow> string set" where
  "claimed_tabs wts keys = {t. \<exists>w \<in> set wts. wb_issue w \<in> keys \<and> non_empty (wb_tab w) = Some t}"

lemma attach_fold:
  "let c' = fold (attach_one herdr) wts c; keys = fst ` set (cl_issues c) in
     cl_issues c' = map (with_bindings herdr wts) (cl_issues c) \<and> set (cl_claimed c') = set (cl_claimed c) \<union> claimed_tabs wts keys"
proof (induction wts arbitrary: c)
  case Nil
  then show ?case by (simp add: with_bindings_def claimed_tabs_def)
next
  case (Cons w wts)
  define c1 where "c1 = attach_one herdr w c"
  have keys: "fst ` set (cl_issues c1) = fst ` set (cl_issues c)"
  proof -
    have "map fst (cl_issues c1) = map fst (cl_issues c)" by (simp add: c1_def attach_one_def split: option.split)
    then show ?thesis by (metis set_map)
  qed
  have issues: "cl_issues c1 = map (with_bindings herdr [w]) (cl_issues c)"
  proof (cases "wb_issue w \<in> fst ` set (cl_issues c)")
    case True
    then show ?thesis by (auto simp: c1_def attach_one_def push_binding_def with_bindings_def)
  next
    case False
    then have "map (with_bindings herdr [w]) (cl_issues c) = cl_issues c"
      by (intro map_idI) (auto simp: with_bindings_def)
    then show ?thesis using False by (simp add: c1_def attach_one_def split: option.split)
  qed
  have claimed: "set (cl_claimed c1) = set (cl_claimed c) \<union> claimed_tabs [w] (fst ` set (cl_issues c))"
    by (auto simp: c1_def attach_one_def claimed_tabs_def split: option.splits)
  have "claimed_tabs [w] keys \<union> claimed_tabs wts keys = claimed_tabs (w # wts) keys" for keys by (auto simp: claimed_tabs_def)
  then show ?case using Cons [of c1] issues claimed keys
    by (auto simp: Let_def c1_def [symmetric] with_bindings_def)
qed

lemma attach_all_facts:
  "cl_issues (attach_all herdr wts issues) = map (with_bindings herdr (sort_key wb_path wts)) issues"
  "set (cl_claimed (attach_all herdr wts issues)) = claimed_tabs wts (fst ` set issues)"
  using attach_fold [of herdr "sort_key wb_path wts" "\<lparr>cl_issues = issues, cl_claimed = [], cl_unlisted = []\<rparr>"]
  by (simp_all add: attach_all_def Let_def claimed_tabs_def)

section \<open>The document\<close>

lemma fill_steps [simp]:
  "sn_issues (fill_source e age p doc) = sn_issues doc" "sn_issues (fill_view plan data doc) = sn_issues doc"
  "sn_issues (fill_project data doc) = sn_issues doc" "sn_issues (fill_tabs tabs doc) = sn_issues doc"
  "sn_tabs (fill_tabs tabs doc) = tabs" "sn_issues (bound_document b plan doc) = sn_issues doc"
  "sn_issues (start_document herdr local space label) = []" "sn_tabs (start_document herdr local space label) = []"
  "sn_tabs (fill_source e age p doc) = sn_tabs doc" "sn_tabs (fill_view plan data doc) = sn_tabs doc"
  "sn_tabs (fill_project data doc) = sn_tabs doc" "sn_tabs (bound_document b plan doc) = sn_tabs doc"
  "sn_unmapped (start_document herdr local space label) = []"
  by (simp_all add: fill_source_def fill_view_def fill_project_def fill_tabs_def bound_document_def start_document_def
      empty_snapshot_def Let_def split: option.split)

lemma attach_steps [simp]: "sn_tabs (attach_bindings wts herdr space doc) = sn_tabs doc"
  by (simp add: attach_bindings_def Let_def split: option.split)

lemma attach_issues: "sn_issues (attach_bindings wts herdr space doc) = map (with_bindings herdr (sort_key wb_path wts)) (sn_issues doc)"
  by (simp add: attach_bindings_def Let_def attach_all_facts split: option.split)

definition decodes_identifiers :: "decoders \<Rightarrow> bool" where
  \<comment> \<open>an issue is decoded with the identifier its JSON holds\<close>
  "decodes_identifiers d \<longleftrightarrow>
     (\<forall>n i. de_issue d n = Some i \<longrightarrow> gi_identifier i \<noteq> [] \<longrightarrow> as_str (json_at n ''identifier'') = Some (gi_identifier i))"

lemma decoded_texts:
  assumes "decodes_identifiers d" "i \<in> set (decoded_issues d ns)"
  shows "\<exists>n \<in> set ns. json_text (json_at n ''identifier'') = Some (issue_identifier i)"
proof -
  obtain n where n: "n \<in> set ns" "de_issue d n = Some i" "gi_identifier i \<noteq> []"
    using assms(2) by (auto simp: decoded_issues_def List.map_filter_def)
  then have "as_str (json_at n ''identifier'') = Some (gi_identifier i)" using assms(1) by (auto simp: decodes_identifiers_def)
  then show ?thesis using n by (intro bexI [of _ n]) (simp_all add: json_text_def non_empty_def issue_identifier_def)
qed

lemma board_tabs_closed:
  "t \<in> set (board_tabs d data config label) \<Longrightarrow> g \<in> set (lt_groups t) \<Longrightarrow>
   group_closed (issue_identifier ` set (decoded_issues d (rd_issues data))) g"
  unfolding board_tabs_def Let_def by (rule group_board_closed)

lemma filled_cases:
  assumes dec: "decodes_identifiers d" and empty: "sn_tabs doc = []" "sn_issues doc = []"
  shows "t \<in> set (sn_tabs (fill_from_linear d r config plan doc)) \<Longrightarrow> g \<in> set (lt_groups t) \<Longrightarrow>
      group_closed (fst ` set (sn_issues (fill_from_linear d r config plan doc))) g"
    and "fst ` set (sn_issues (fill_from_linear d r config plan doc)) \<subseteq> set (listed_issues (sn_tabs (fill_from_linear d r config plan doc)))"
    and "(k, i) \<in> set (sn_issues (fill_from_linear d r config plan doc)) \<Longrightarrow> di_identifier i = k \<and> di_bindings i = []"
proof -
  let ?doc = "fill_from_linear d r config plan doc"
  have "(t \<in> set (sn_tabs ?doc) \<longrightarrow> g \<in> set (lt_groups t) \<longrightarrow> group_closed (fst ` set (sn_issues ?doc)) g) \<and>
      fst ` set (sn_issues ?doc) \<subseteq> set (listed_issues (sn_tabs ?doc)) \<and>
      ((k, i) \<in> set (sn_issues ?doc) \<longrightarrow> di_identifier i = k \<and> di_bindings i = [])"
  proof (cases "cr_good r")
    case None
    then show ?thesis using empty by (simp add: fill_from_linear_def)
  next
    case (Some x)
    obtain data age where x: "x = (data, age)" by (cases x)
    define tabs where "tabs = board_tabs d data config (fp_label plan)"
    define issues where "issues = issue_details d (cr_error r \<noteq> None) (listed_issues tabs) (rd_issues data) []"
    have doc: "sn_tabs ?doc = tabs" "sn_issues ?doc = issues"
      using Some x empty by (simp_all add: fill_from_linear_def Let_def tabs_def issues_def)
    note details = issue_details_facts [where d = d and stale = "cr_error r \<noteq> None" and listed = "listed_issues tabs" and
        ns = "rd_issues data" and m = "[]", folded issues_def]
    have "group_closed (fst ` set issues) g" if t: "t \<in> set tabs" "g \<in> set (lt_groups t)"
    proof -
      have closed: "group_closed (issue_identifier ` set (decoded_issues d (rd_issues data))) g"
        using board_tabs_closed t by (simp add: tabs_def)
      have "set (lg_issues g) \<subseteq> set (listed_issues tabs)" using t by (auto simp: listed_issues_def)
      moreover have "\<exists>n \<in> set (rd_issues data). json_text (json_at n ''identifier'') = Some j" if "j \<in> set (lg_issues g)" for j
        using closed that decoded_texts [OF dec] by (auto simp: group_closed_def)
      ultimately show ?thesis using closed unfolding group_closed_def details(1) by auto
    qed
    moreover have "di_identifier i = k \<and> di_bindings i = []" if "(k, i) \<in> set issues"
      using details(2) [OF that] by (auto simp: linear_issue_def)
    ultimately show ?thesis using details(1) unfolding doc by auto
  qed
  then show "t \<in> set (sn_tabs ?doc) \<Longrightarrow> g \<in> set (lt_groups t) \<Longrightarrow> group_closed (fst ` set (sn_issues ?doc)) g"
    "fst ` set (sn_issues ?doc) \<subseteq> set (listed_issues (sn_tabs ?doc))"
    "(k, i) \<in> set (sn_issues ?doc) \<Longrightarrow> di_identifier i = k \<and> di_bindings i = []" by blast+
qed

lemma fill_keeps_unmapped: "sn_unmapped (fill_from_linear d r config plan doc) = sn_unmapped doc"
  by (simp add: fill_from_linear_def fill_tabs_def fill_project_def fill_view_def fill_source_def Let_def split: option.split prod.split)

definition open_tabs :: "session_snapshot \<Rightarrow> string \<Rightarrow> string list" where
  \<comment> \<open>herdr's tabs of a space\<close>
  "open_tabs s space = filter (\<lambda>t. t \<noteq> []) (map ht_id (filter (\<lambda>t. ht_workspace t = space) (hs_tabs s)))"

text \<open>
  C28: The board document of a bound space hangs together. Every issue in a column or lane of a tab is described, and only
  issues in a column are; a lane lists no issue its column does not; each described issue carries the bindings of exactly the worktrees
  bound to it, in path order; each herdr tab of the space is either claimed by a worktree of a described issue or listed
  as unmapped, never both; and exactly the panes named have a status. It holds for every answer of Linear and herdr.
\<close>
theorem snapshot_hangs_together:
  assumes dec: "decodes_identifiers d" and bound: "lo_binding local = Some b"
    and doc: "doc = snapshot_doc d herdr local store reading space"
  shows "(\<forall>t \<in> set (sn_tabs doc). \<forall>g \<in> set (lt_groups t). group_closed (fst ` set (sn_issues doc)) g) \<and>
    fst ` set (sn_issues doc) \<subseteq> set (listed_issues (sn_tabs doc)) \<and>
    (\<forall>(k, i) \<in> set (sn_issues doc). di_identifier i = k \<and>
       di_bindings i = map (doc_binding_of herdr) (filter (\<lambda>w. wb_issue w = k) (sort_key wb_path (lo_worktrees local)))) \<and>
    map du_tab_id (sn_unmapped doc) =
      (case herdr of None \<Rightarrow> []
       | Some s \<Rightarrow> filter (\<lambda>t. t \<notin> claimed_tabs (lo_worktrees local) (fst ` set (sn_issues doc))) (open_tabs s space)) \<and>
    fst ` set (sn_pane_status doc) = set (pane_ids doc)"
proof -
  define label where "label = space_label herdr (lo_binding local) space"
  define plan where "plan = plan_for b (lo_config local) label"
  define start where "start = bound_document b plan (start_document herdr local space label)"
  define filled where "filled = fill_from_linear d (reading plan) (lo_config local) plan start"
  define attached where "attached = attach_bindings (lo_worktrees local) herdr space filled"
  have whole: "doc = attached\<lparr>sn_pane_status := pane_status herdr (pane_ids attached)\<rparr>"
    by (simp add: doc snapshot_doc_def bound Let_def label_def plan_def start_def filled_def attached_def)
  have start: "sn_tabs start = []" "sn_issues start = []" "sn_unmapped start = []"
    by (simp_all add: start_def bound_document_def start_document_def empty_snapshot_def Let_def)
  have keys: "map fst (sn_issues attached) = map fst (sn_issues filled)"
    by (simp add: attached_def attach_issues with_bindings_def)
  then have keys_set: "fst ` set (sn_issues attached) = fst ` set (sn_issues filled)" by (metis set_map)
  have tabs: "sn_tabs attached = sn_tabs filled" by (simp add: attached_def)
  have bindings: "di_identifier i = k \<and>
      di_bindings i = map (doc_binding_of herdr) (filter (\<lambda>w. wb_issue w = k) (sort_key wb_path (lo_worktrees local)))"
    if ki: "(k, i) \<in> set (sn_issues attached)" for k i
  proof -
    obtain j where j: "(k, j) \<in> set (sn_issues filled)" "(k, i) = with_bindings herdr (sort_key wb_path (lo_worktrees local)) (k, j)"
      using ki by (auto simp: attached_def attach_issues with_bindings_def)
    then show ?thesis using filled_cases(3) [OF dec start(1,2) j(1) [unfolded filled_def]] by (simp add: with_bindings_def)
  qed
  have unmapped: "map du_tab_id (sn_unmapped attached) =
      (case herdr of None \<Rightarrow> []
       | Some s \<Rightarrow> filter (\<lambda>t. t \<notin> claimed_tabs (lo_worktrees local) (fst ` set (sn_issues filled))) (open_tabs s space))"
  proof (cases herdr)
    case None
    then show ?thesis using start(3) by (simp add: attached_def attach_bindings_def filled_def fill_keeps_unmapped Let_def)
  next
    case (Some s)
    then show ?thesis
      by (simp add: attached_def attach_bindings_def Let_def unmapped_tabs_def comp_def attach_all_facts open_tabs_def filter_map filter_filter conj_ac)
  qed
  have panes: "fst ` set (pane_status herdr (pane_ids attached)) = set (pane_ids attached)"
    by (simp add: pane_status_def keys_collect image_image)
  have same: "pane_ids doc = pane_ids attached" "sn_tabs doc = sn_tabs attached" "sn_issues doc = sn_issues attached"
    "sn_unmapped doc = sn_unmapped attached" by (simp_all add: whole pane_ids_def)
  have closed: "\<forall>t \<in> set (sn_tabs filled). \<forall>g \<in> set (lt_groups t). group_closed (fst ` set (sn_issues filled)) g"
    unfolding filled_def using filled_cases(1) [OF dec start(1,2)] by blast
  have described: "fst ` set (sn_issues filled) \<subseteq> set (listed_issues (sn_tabs filled))"
    unfolding filled_def by (rule filled_cases(2) [OF dec start(1,2)])
  have status: "sn_pane_status doc = pane_status herdr (pane_ids attached)" by (simp add: whole)
  show ?thesis
    unfolding same tabs keys_set status using closed described bindings unmapped panes by blast
qed

section \<open>A space with two tabs\<close>

definition titled_issue :: "string \<Rightarrow> grouping_issue" where
  "titled_issue i =
     \<lparr>gi_id = i, gi_identifier = i, gi_title = [], gi_updated_at = [],
      gi_state = Some \<lparr>ist_id = ''s1'', ist_name = ''Todo'', ist_kind = ''unstarted''\<rparr>, gi_team = None, gi_project = None,
      gi_project_milestone = None, gi_cycle = None, gi_assignee = None, gi_priority = None, gi_parent = None, gi_labels = []\<rparr>"

definition id_decoders :: decoders where
  \<comment> \<open>issues by their identifier alone\<close>
  "id_decoders =
     \<lparr>de_issue = (\<lambda>n. map_option titled_issue (as_str (json_at n ''identifier''))),
      de_states = (\<lambda>_. None), de_preferences = (\<lambda>_. None), de_lower = ascii_lower, de_float = (\<lambda>_. 0)\<rparr>"

definition two_tabs :: session_snapshot where
  "two_tabs =
     \<lparr>hs_version = ''1'', hs_workspaces = [\<lparr>hw_id = ''w1'', hw_label = ''work''\<rparr>],
      hs_tabs = [\<lparr>ht_id = ''t1'', ht_workspace = ''w1'', ht_label = ''one''\<rparr>, \<lparr>ht_id = ''t2'', ht_workspace = ''w1'', ht_label = []\<rparr>],
      hs_panes = [\<lparr>hp_id = ''p1'', hp_tab = ''t1'', hp_status = AgIdle\<rparr>, \<lparr>hp_id = ''p2'', hp_tab = ''t2'', hp_status = AgIdle\<rparr>],
      hs_agents = [(''p1'', AgWorking)]\<rparr>"

definition two_tabs_local :: local_state where
  "two_tabs_local =
     \<lparr>lo_binding = Some \<lparr>sb_session = ''default'', sb_space = ''w1'', sb_project_id = ''p'', sb_display_name = None, sb_team_ids = [], sb_view = None\<rparr>,
      lo_config = None,
      lo_worktrees = [\<lparr>wb_path = ''/w'', wb_issue = ''WEB-1'', wb_state = Bound, wb_branch = None, wb_tab = Some ''t1'',
        wb_display_name = None, wb_team_ids = [], wb_view = None, wb_carried = []\<rparr>],
      lo_no_bindings = False\<rparr>"

definition two_tabs_doc :: linear_snapshot where
  "two_tabs_doc = snapshot_doc id_decoders (Some two_tabs) two_tabs_local None
     (\<lambda>plan. \<lparr>cr_good = Some (\<lparr>rd_project = None, rd_view_status = ''none'', rd_view = None,
        rd_issues = [jobj1 ''identifier'' (JStr ''WEB-1'')], rd_partial = False\<rparr>, 0), cr_error = None\<rparr>) ''w1''"

theorem snapshot_hangs_together_witness:
  "map fst (sn_issues two_tabs_doc) = [''WEB-1''] \<and> map du_tab_id (sn_unmapped two_tabs_doc) = [''t2''] \<and>
   listed_issues (sn_tabs two_tabs_doc) = [''WEB-1''] \<and> fst ` set (sn_pane_status two_tabs_doc) = set (pane_ids two_tabs_doc)"
proof (intro conjI)
  have dec: "decodes_identifiers id_decoders" by (auto simp: decodes_identifiers_def id_decoders_def titled_issue_def)
  have bound: "lo_binding two_tabs_local = Some (the (lo_binding two_tabs_local))" by (simp add: two_tabs_local_def)
  note doc = snapshot_hangs_together [OF dec bound two_tabs_doc_def]
  show "fst ` set (sn_pane_status two_tabs_doc) = set (pane_ids two_tabs_doc)" using doc by (elim conjE)
  show "map fst (sn_issues two_tabs_doc) = [''WEB-1'']" "map du_tab_id (sn_unmapped two_tabs_doc) = [''t2'']"
    "listed_issues (sn_tabs two_tabs_doc) = [''WEB-1'']" by code_simp+
qed

end
