(* ===== verification/Spec2Isabelle.thy ===== *)
theory Spec2Isabelle
  imports Store_Properties Board_Properties Engine_Properties Daemon_Properties Grouping_Properties Linear_Announcements
    Linear_Cache_Properties Linear_Reads Linear_Snapshot
begin

text \<open>
  A verification library for herdr-linear-board, a kanban board whose cards are worked on by coding
  agents. The program is a SQLite store with one daemon in front of it; the daemon takes requests of
  a command line and a terminal UI, launches agents through the herdr server, watches them and moves
  cards along when a run ends. It also shows the issues of a Linear project, grouped by rules, beside
  the herdr tabs that work on them, and keeps local state for them: bindings, marks, notes,
  show-requests. This library models \<open>crates/board-core\<close>, the part that decides what may happen and
  what is stored, and of \<open>crates/board-daemon\<close> the requests, the scheduler, the watchers and the
  Linear mode.

  Conventions. A struct is a record with prefixed fields, an enum a datatype. A Rust \<open>i64\<close> is an
  \<open>int\<close>; where the source saturates or parses, the bounds are written out (\<open>Rust_Std\<close>). Strings are
  UTF-8 byte strings. \<open>Result<T>\<close> is \<open>error + 'a\<close>. An operation is a function from a state to a
  result and a state (\<open>Board_Prelude\<close>): the database for the store, the scheduler with the database
  for the daemon; \<open>transaction\<close> restores the state on an error, so a method that opens one is a
  \<open>transaction\<close> and one that does not is left without. What the daemon does while it holds a lock is
  one function; what other threads may do between two such functions is a step relation or a list
  of calls.

  Code that is not part of the repository is a parameter: Unicode lower-casing (\<open>lower\<close>), the JSON
  encoder of the opencode agent configuration (\<open>agent_config\<close>), the file system, the tokenizer and
  the typed decoders of serde_json and the UUID parser (the record \<open>host\<close>), the decoders of Linear's
  nodes (the record \<open>decoders\<close>), what comes back over HTTP (\<open>net\<close>), what Linear may answer to a fetch
  (\<open>fetched\<close>), the snapshot herdr gave.

  The store, bottom up:

  \<^item> \<open>Board_Prelude\<close>: computations, Hoare judgements and weakest preconditions with their
    automation, and the locale \<open>positioned\<close> of rows with a dense position inside a group.
  \<^item> \<open>Rust_Std\<close>: saturating arithmetic, integer printing and parsing, \<open>trim\<close>, splitting, JSON
    values, messages. \<open>Text_Hygiene\<close>: \<open>text.rs\<close>. \<open>Wire_Time\<close>: the timestamp parser of \<open>protocol.rs\<close>.
  \<^item> \<open>Board_Types\<close>: \<open>model.rs\<close>, the enums, patches and parameters of \<open>protocol.rs\<close>, \<open>launch.rs\<close> and
    the error codes of \<open>lib.rs\<close>; the locale \<open>str_enum\<close> of the \<open>str_enum!\<close> macro.
  \<^item> \<open>Row_Tables\<close>, \<open>Store_Schema\<close>, \<open>Store_Invariant\<close>: tables with keys (locale \<open>keyed\<close>), the
    statements of the store under the constraints of \<open>schema.sql\<close>, and the proof that every
    statement keeps the schema invariant \<open>schema_ok\<close>.
  \<^item> \<open>Store_Place\<close>, \<open>Store_Cards\<close>, \<open>Store_Order\<close>, \<open>Store_Card_Laws\<close>, \<open>Store_Edit_Laws\<close>:
    \<open>db/cards_comments.rs\<close>. \<open>order_of\<close> abstracts the cards of a column to a list of ids, the
    operations refine list operations on it, and \<open>board_inv\<close> keeps positions dense and cards on the
    board of their column.
  \<^item> \<open>Store_Runs\<close>: \<open>db/runs.rs\<close>, with the specification \<open>finalize_spec\<close> of finalization.
  \<^item> \<open>Store_Columns\<close>: \<open>db/boards_columns.rs\<close>; \<open>store_inv\<close> adds dense column positions and transitions
    that stay on their board. \<open>Store_Comments\<close>: comments and their audit trail, \<open>audit_inv\<close>.
  \<^item> \<open>Store_Projects\<close>, \<open>Store_Context\<close>: \<open>db/projects.rs\<close>, boards, projects, selection and recency;
    \<open>ctx_ok\<close> is \<open>store_inv\<close> with a consistent context.
  \<^item> \<open>Store_Machine\<close>, \<open>Store_Calls\<close>: every store call as a datatype, the states reachable by calls
    from a fresh database (\<open>reachable\<close>), the invariant \<open>db_ok\<close> of all of them, and the machine
    \<open>run_step\<close> of one run. \<open>Store_Steps\<close>: what each call may do to runs and cards, used by the daemon.
  \<^item> \<open>Sample_Store\<close>: a concrete database that satisfies every invariant.
  \<^item> \<open>Store_Properties\<close>, \<open>Board_Properties\<close>: the properties, each with an example.

  The engine, pure functions:

  \<^item> \<open>Engine_Decisions\<close>: \<open>engine/lifecycle.rs\<close>, \<open>signals.rs\<close>, \<open>transitions.rs\<close>, \<open>archive.rs\<close>,
    \<open>columns.rs\<close>.
  \<^item> \<open>Engine_Validation\<close>: \<open>capability.rs\<close> with its adapters (locale \<open>harness_meta\<close>) and
    \<open>engine/validation.rs\<close>; effective settings of \<open>prompt.rs\<close>.
  \<^item> \<open>Harness\<close>: \<open>harness/*.rs\<close>, the command lines, session flags and resume, and \<open>prompt.rs\<close>.
  \<^item> \<open>Engine_Grouping\<close>: \<open>engine/grouping.rs\<close>, the placement of issues into tabs, columns and lanes.
  \<^item> \<open>Engine_Properties\<close>, \<open>Grouping_Properties\<close>: the properties.

  The daemon:

  \<^item> \<open>Daemon_State\<close>, \<open>Daemon_Dispatch\<close>: \<open>state.rs\<close>, \<open>dispatch/*.rs\<close>. A state is the database, the
    active runs, the watched panes and the effects in order; a launch is what the spawner's answer leads to.
  \<^item> \<open>Daemon_Watch\<close>: \<open>watchers/*.rs\<close>, \<open>supervisor.rs\<close>, \<open>recovery.rs\<close>. \<open>Daemon_Ops\<close>: \<open>ops/*.rs\<close> for
    boards, projects, columns, cards, comments and runs, and the routing of \<open>ops/mod.rs\<close>.
  \<^item> \<open>Daemon_Steps\<close>, \<open>Daemon_Machine\<close>: what each request or watcher event is made of, the reachable
    states of the daemon and their invariant (limits, one active entry per run and space).
    \<open>Daemon_Properties\<close>: the properties.

  Linear mode:

  \<^item> \<open>Linear_State\<close>, \<open>Linear_Store\<close>: the validators, records and the ten tables of
    \<open>db/linear_state.rs\<close>. \<open>Linear_Writes\<close>: the units of work of \<open>db/linear_writes.rs\<close>.
  \<^item> \<open>Linear_Laws\<close> (locale \<open>key_table\<close>), \<open>Linear_Machine\<close>: the laws of the tables, the invariant
    \<open>linear_inv\<close> and the states reachable by units of work. \<open>Linear_Properties\<close>, \<open>Linear_Requests\<close>:
    the properties of marks, grouping, show-requests and reported activity.
  \<^item> \<open>Linear_Cache\<close>: \<open>linear/cache.rs\<close>. What one thread does under the mutex is a function,
    \<open>cache_step\<close> and \<open>debounce_step\<close> interleave any number of threads with panics, removals and
    spurious wake-ups. \<open>Linear_Cache_Properties\<close>: no reader is stranded, answers are current, no
    refetch is lost; and two runs in which the cache gives an answer that was not fetched for its plan.
  \<^item> \<open>Linear_Client\<close>: \<open>linear/client.rs\<close>, \<open>queries.rs\<close>, \<open>credential.rs\<close>, \<open>read.rs\<close> and \<open>issue_filter\<close>;
    the loops over retries and pages recurse on what is left of their limits, which are the source's,
    so no fuel is needed. \<open>Linear_Reads\<close>: what a read of a space may send, and to which host.
  \<^item> \<open>Linear_Native\<close>: \<open>ops/linear/native.rs\<close>, \<open>ops/linear.rs\<close>, the documents of \<open>protocol.rs\<close>.
    \<open>Linear_Snapshot\<close>: the board document is consistent, whatever Linear and herdr answer.
  \<^item> \<open>Linear_Daemon\<close>: \<open>ops/linear_state.rs\<close>, \<open>watchers/expiry.rs\<close>, the requests over local state.
    \<open>Linear_Announcements\<close>: every change is announced to the boards that show it.

  Bounds and fuel. Every recursion is structural or has a proved measure. The one fuel is the hop
  limit of an automatic chain, \<open>max_auto_hops\<close>, which is the source's.

  Not modelled: \<open>db/migrations.rs\<close> (scripts that bring old files to the modelled schema), the socket
  clients and the herdr transport, the model catalogues (output of external programs), the
  preparation of a spawn request and the spawner (calls into herdr), the panes and discovery
  operations (the same), the one-time import of an older program's files, the event threads and
  reconnects of the watchers, TOML and JSON parsing, the terminal UI and the command line.
\<close>


section \<open>The store as a whole\<close>

text \<open>
  C1: Whatever sequence of calls is made on a fresh database, with faults injected anywhere: no card
  ever has two open runs, every card lies in a column of its own board, cards and columns are
  numbered 0, 1, 2, ... without gaps, a card carries a waiting reason exactly while it is awaiting,
  transitions lead to columns of the same board, and the recent projects are at most three.
\<close>

theorem reachable_store_is_sound:
  assumes "reachable lower s"
  shows "distinct (map rn_card_id (filter open_run (db_runs s))) \<and>
    (\<forall>c \<in> set (db_cards s).
       (\<exists>k \<in> set (db_columns s). col_id k = cd_column_id c \<and> col_board_id k = cd_board_id c) \<and>
       (cd_status c = Awaiting \<longleftrightarrow> cd_awaiting_reason c \<noteq> None)) \<and>
    (\<forall>col. map cd_position (column_cards s col) = map int [0..<length (column_cards s col)]) \<and>
    (\<forall>b. map col_position (board_columns s b) = map int [0..<length (board_columns s b)]) \<and>
    (\<forall>k \<in> set (db_columns s). \<forall>j. (col_on_success k = Some j \<or> col_on_fail k = Some j) \<longrightarrow>
       (\<exists>k' \<in> set (db_columns s). col_id k' = j \<and> col_board_id k' = col_board_id k)) \<and>
    distinct (recent_projects s) \<and> length (recent_projects s) \<le> 3"
proof -
  have ok: "store_inv s" "board_inv s" "schema_ok s" "context_inv s"
    using reachable_ok [OF assms] by (auto simp: db_ok_def ctx_ok_def store_inv_def board_inv_def)
  have places: "\<forall>c \<in> set (db_cards s). \<exists>k \<in> set (db_columns s). col_id k = cd_column_id c \<and> col_board_id k = cd_board_id c"
    using ok(2) by (fastforce simp: board_inv_def card_places_def column_boards_def)
  have targets: "\<forall>k \<in> set (db_columns s). \<forall>j. (col_on_success k = Some j \<or> col_on_fail k = Some j) \<longrightarrow>
       (\<exists>k' \<in> set (db_columns s). col_id k' = j \<and> col_board_id k' = col_board_id k)"
    using ok(1) by (fastforce simp: store_inv_def targets_local_def local_target_def column_boards_def split: option.splits)
  have recents: "distinct (recent_projects s)" "length (recent_projects s) \<le> 3"
    using ok(4) recent_projects_ranked by (auto simp: context_inv_def valid_recents_def)
  have waiting: "\<forall>c \<in> set (db_cards s). cd_status c = Awaiting \<longleftrightarrow> cd_awaiting_reason c \<noteq> None"
    using ok(3) by (simp add: schema_ok_def card_check_def)
  show ?thesis
    using ok places targets recents waiting
    by (simp add: schema_ok_def board_inv_def compact_cards_def compact_column_def store_inv_def compact_board_def)
qed

definition sample_calls :: "store_call list" where
  "sample_calls =
     [CreateColumn (sample_new_column ''Doing'' None (Some 1)), CreateCard sample_new_card,
      EnqueueRun (sample_new_run 1 1), PromoteRun 1 None None None (Some 9000) None,
      FinalizeRun \<lparr>fz_run_id = 1, fz_outcome = OutcomeOk, fz_summary = None, fz_comments = [],
        fz_target_column_id = Some 2, fz_final_status = Done, fz_final_awaiting_reason = None, fz_next = None\<rparr>,
      EnqueueRun (sample_new_run 1 2)]"

lemma sample_calls_result:
  "map (\<lambda>c. (cd_id c, cd_column_id c, cd_status c)) (db_cards (run_calls id sample_calls (fresh_db ''t0''))) =
     [(1, 2, Queued)]"
  "map (\<lambda>r. (rn_id r, rn_card_id r, rn_outcome r)) (db_runs (run_calls id sample_calls (fresh_db ''t0''))) =
     [(1, 1, Some OutcomeOk), (2, 1, None)]"
  by code_simp+

lemma sample_reachable: "reachable id (run_calls id sample_calls (fresh_db ''t0''))"
  by (intro run_calls_reachable reachable.fresh)

theorem reachable_store_is_sound_witness:
  "length (db_runs (run_calls id sample_calls (fresh_db ''t0''))) = 2 \<and>
   distinct (map rn_card_id (filter open_run (db_runs (run_calls id sample_calls (fresh_db ''t0'')))))"
  using reachable_store_is_sound [OF sample_reachable] arg_cong [OF sample_calls_result(2), of length] by simp

text \<open>
  C2: The life of a run. One call on a reachable store takes each run at most one step of the machine
  \<open>run_step\<close> (start a queued run, store the captured session, pause or resume its deadline, close
  it); a run that appears is queued and new, and a run disappears only with its card. A step never
  changes what the run was queued with nor the time it started.
\<close>

theorem runs_live_by_steps:
  assumes "reachable lower s" and "apply_call lower c s = (res, t)"
  shows "(\<forall>r' \<in> set (db_runs t).
      (\<exists>r \<in> set (db_runs s). (r' = r \<or> run_step r r') \<and> rn_id r' = rn_id r \<and> rn_card_id r' = rn_card_id r \<and>
         rn_argv_json r' = rn_argv_json r \<and> (rn_started_at r \<noteq> None \<longrightarrow> rn_started_at r' = rn_started_at r)) \<or>
      (queued_open r' \<and> rn_id r' \<notin> rn_id ` set (db_runs s))) \<and>
    (\<forall>r \<in> set (db_runs s). (\<exists>r' \<in> set (db_runs t). r' = r \<or> run_step r r') \<or> rn_card_id r \<notin> cd_id ` set (db_cards t))"
proof -
  have "runs_follow s t"
    using call_runs_follow [OF reachable_ok [OF assms(1)], of lower c] assms(2) by simp
  then show ?thesis
    unfolding runs_follow_def using run_step_same run_step_started by blast
qed

theorem runs_live_by_steps_witness:
  "\<exists>r' \<in> set (db_runs (snd (apply_call id (PromoteRun 2 None None None None None)
      (run_calls id sample_calls (fresh_db ''t0''))))). rn_id r' = 2 \<and> rn_started_at r' \<noteq> None \<and>
      (\<exists>r \<in> set (db_runs (run_calls id sample_calls (fresh_db ''t0''))). run_step r r')"
proof -
  let ?s = "run_calls id sample_calls (fresh_db ''t0'')"
  let ?c = "PromoteRun 2 None None None None None"
  have new: "list_ex (\<lambda>r. rn_id r = 2 \<and> rn_started_at r \<noteq> None) (db_runs (snd (apply_call id ?c ?s)))"
    by code_simp
  have old: "list_all (\<lambda>r. rn_id r = 2 \<longrightarrow> rn_started_at r = None) (db_runs ?s)" "list_ex (\<lambda>r. rn_id r = 2) (db_runs ?s)"
    by code_simp+
  from new obtain r' where r': "r' \<in> set (db_runs (snd (apply_call id ?c ?s)))" "rn_id r' = 2" "rn_started_at r' \<noteq> None"
    unfolding list_ex_iff by blast
  from old(2) have "2 \<in> rn_id ` set (db_runs ?s)" unfolding list_ex_iff image_iff by metis
  with runs_live_by_steps [OF sample_reachable prod.collapse [symmetric], THEN conjunct1, THEN bspec, OF r'(1)] r'(2)
  obtain r where r: "r \<in> set (db_runs ?s)" "r' = r \<or> run_step r r'" "rn_id r' = rn_id r"
    by metis
  with old(1) r'(2,3) have "run_step r r'" unfolding list_all_iff by metis
  with r(1) r' show ?thesis by blast
qed

text \<open>
  C3: A finished run is final. Once a run of a reachable store has ended, its row is still there,
  unchanged, after any sequence of calls that does not delete its card.
\<close>

theorem finished_run_is_final:
  assumes "reachable lower s" and "r \<in> set (db_runs s)" and "rn_ended_at r \<noteq> None"
    and "DeleteCard (rn_card_id r) \<notin> set cs"
  shows "r \<in> set (db_runs (run_calls lower cs s))"
  using ended_run_stays [OF reachable_ok [OF assms(1)] assms(2) _ assms(4)] assms(3) by (simp add: open_run_def)

theorem finished_run_is_final_witness:
  "\<exists>r \<in> set (db_runs (run_calls id [MoveCard 1 1 None, FinalizeRun
      \<lparr>fz_run_id = 1, fz_outcome = OutcomeFail, fz_summary = None, fz_comments = [], fz_target_column_id = None,
       fz_final_status = card_status.Failed, fz_final_awaiting_reason = None, fz_next = None\<rparr>]
      (run_calls id sample_calls (fresh_db ''t0'')))). rn_id r = 1 \<and> rn_outcome r = Some OutcomeOk"
proof -
  have "list_ex (\<lambda>r. rn_id r = 1 \<and> rn_card_id r = 1 \<and> rn_outcome r = Some OutcomeOk \<and> rn_ended_at r \<noteq> None)
      (db_runs (run_calls id sample_calls (fresh_db ''t0'')))"
    by code_simp
  then obtain r where r: "r \<in> set (db_runs (run_calls id sample_calls (fresh_db ''t0'')))" "rn_id r = 1"
    "rn_outcome r = Some OutcomeOk" "rn_ended_at r \<noteq> None"
    by (auto simp: list_ex_iff)
  show ?thesis
    by (rule bexI [OF _ finished_run_is_final [OF sample_reachable r(1,4)]]) (simp_all add: r)
qed

end
